(* ===== verification/Prelude.thy ===== *)
theory Prelude imports Complex_Main "HOL-Library.AList" "HOL-Library.Log_Nat" "HOL-Library.Multiset" begin

text \<open>
  Shared vocabulary of the development: the nullish operator of the source, the JavaScript
  \<open>Map\<close> and \<open>Set\<close> containers with their insertion order, stable sorting with a comparator,
  and the interfaces (locales) that several components share:
  \<^item> \<open>keyed_store\<close>: what a client may rely on after a write or a delete of a \<open>Map\<close>;
  \<^item> \<open>ttl_store\<close>: a keyed store whose entries expire and are swept before use;
  \<^item> \<open>bounded_fifo\<close>: a queue that drops its oldest entry when it is full;
  \<^item> \<open>machine\<close>: operations that keep an invariant, run one after the other.
\<close>

named_theorems model_simps \<open>unfolding rules of the model's small helpers\<close>

section \<open>Nullish values\<close>

text \<open>
  A value that may be \<open>undefined\<close> is an option; \<open>a ?? b\<close> is \<open>nullish a b\<close>, and
  \<open>a ?? d\<close> with a default that is present is \<open>default_to d a\<close>.
\<close>

definition nullish :: "'a option \<Rightarrow> 'a option \<Rightarrow> 'a option" where
  "nullish a b = (case a of None \<Rightarrow> b | Some x \<Rightarrow> Some x)"

definition default_to :: "'a \<Rightarrow> 'a option \<Rightarrow> 'a" where
  "default_to d a = (case a of None \<Rightarrow> d | Some x \<Rightarrow> x)"

lemma nullish_simps [simp]:
  "nullish None b = b" "nullish (Some x) b = Some x" "nullish a None = a"
  by (auto simp: nullish_def split: option.splits)

lemma default_to_simps [simp]: "default_to d None = d" "default_to d (Some x) = x"
  by (simp_all add: default_to_def)

lemma nullish_assoc: "nullish (nullish a b) c = nullish a (nullish b c)"
  by (cases a) auto

lemma nullish_eq_None [simp]: "nullish a b = None \<longleftrightarrow> a = None \<and> b = None"
  by (cases a) auto

section \<open>Maps and sets with insertion order\<close>

text \<open>
  A JavaScript \<open>Map\<close> is an association list in insertion order: \<open>set\<close> overwrites in
  place or appends (\<open>AList.update\<close>), \<open>delete\<close> removes the key (\<open>AList.delete\<close>), \<open>get\<close> is
  \<open>map_of\<close>. A \<open>Set\<close> is a list without duplicates; \<open>add\<close> appends a new member.
\<close>

type_synonym ('k, 'v) jsmap = "('k \<times> 'v) list"

abbreviation mget :: "('k, 'v) jsmap \<Rightarrow> 'k \<Rightarrow> 'v option" where
  "mget m k \<equiv> map_of m k"

abbreviation mput :: "'k \<Rightarrow> 'v \<Rightarrow> ('k, 'v) jsmap \<Rightarrow> ('k, 'v) jsmap" where
  "mput k v m \<equiv> AList.update k v m"

abbreviation mdel :: "'k \<Rightarrow> ('k, 'v) jsmap \<Rightarrow> ('k, 'v) jsmap" where
  "mdel k m \<equiv> AList.delete k m"

abbreviation mhas :: "('k, 'v) jsmap \<Rightarrow> 'k \<Rightarrow> bool" where
  "mhas m k \<equiv> map_of m k \<noteq> None"

abbreviation mkeys :: "('k, 'v) jsmap \<Rightarrow> 'k list" where
  "mkeys m \<equiv> map fst m"

abbreviation map_ok :: "('k, 'v) jsmap \<Rightarrow> bool" where
  "map_ok m \<equiv> distinct (map fst m)"

text \<open>Lookups stay lookups: they are not rewritten to membership of the pair.\<close>

declare map_of_eq_Some_iff [simp del] Some_eq_map_of_iff [simp del]

lemma mget_mput [simp]: "mget (mput k v m) j = (if j = k then Some v else mget m j)"
  by (simp add: update_conv')

lemma mget_mdel [simp]: "mget (mdel k m) j = (if j = k then None else mget m j)"
  by (simp add: delete_conv')

lemma map_ok_mput [simp]: "map_ok m \<Longrightarrow> map_ok (mput k v m)"
  by (rule distinct_update)

lemma map_ok_mdel [simp]: "map_ok m \<Longrightarrow> map_ok (mdel k m)"
  by (rule distinct_delete)

lemma mget_filter:
  "map_ok m \<Longrightarrow> mget (filter (\<lambda>(k, v). P k v) m) j =
     (case mget m j of None \<Rightarrow> None | Some v \<Rightarrow> if P j v then Some v else None)"
proof (induction m)
  case Nil
  then show ?case by simp
next
  case (Cons kv m)
  obtain k v where kv: "kv = (k, v)" by (cases kv)
  have none: "mget m k = None"
    using Cons.prems kv by (simp add: map_of_eq_None_iff)
  show ?case
    using Cons kv none by (auto split: option.splits)
qed

lemma map_ok_filter: "map_ok m \<Longrightarrow> map_ok (filter P m)"
  by (rule distinct_map_filter)

lemma mget_map: "mget (map (\<lambda>(k, a). (k, f a)) m) j = map_option f (mget m j)"
  by (induction m) auto

lemma mkeys_map: "mkeys (map (\<lambda>(k, a). (k, f a)) m) = mkeys m"
  by (induction m) auto

lemma set_mkeys_iff: "k \<in> set (mkeys m) \<longleftrightarrow> mhas m k"
  by (simp add: map_of_eq_None_iff)

definition sadd :: "'a \<Rightarrow> 'a list \<Rightarrow> 'a list" where
  "sadd x xs = (if x \<in> set xs then xs else xs @ [x])"

lemma set_sadd [simp]: "set (sadd x xs) = insert x (set xs)"
  by (auto simp: sadd_def)

lemma distinct_sadd [simp]: "distinct xs \<Longrightarrow> distinct (sadd x xs)"
  by (simp add: sadd_def)

lemma set_fold_sadd [simp]: "set (fold sadd ys xs) = set xs \<union> set ys"
  by (induction ys arbitrary: xs) auto

lemma distinct_fold_sadd [simp]: "distinct xs \<Longrightarrow> distinct (fold sadd ys xs)"
  by (induction ys arbitrary: xs) auto

section \<open>Stable sorting with a comparator\<close>

text \<open>
  \<open>Array.prototype.sort\<close> with a comparator is stable. \<open>le x y\<close> stands for
  \<open>compare(x, y) <= 0\<close>.
\<close>

fun insert_by :: "('a \<Rightarrow> 'a \<Rightarrow> bool) \<Rightarrow> 'a \<Rightarrow> 'a list \<Rightarrow> 'a list" where
  "insert_by le x [] = [x]"
| "insert_by le x (y # ys) = (if le x y then x # y # ys else y # insert_by le x ys)"

fun sort_by :: "('a \<Rightarrow> 'a \<Rightarrow> bool) \<Rightarrow> 'a list \<Rightarrow> 'a list" where
  "sort_by le [] = []"
| "sort_by le (x # xs) = insert_by le x (sort_by le xs)"

lemma set_insert_by [simp]: "set (insert_by le x ys) = insert x (set ys)"
  by (induction ys) auto

lemma set_sort_by [simp]: "set (sort_by le xs) = set xs"
  by (induction xs) auto

lemma length_insert_by [simp]: "length (insert_by le x ys) = Suc (length ys)"
  by (induction ys) auto

lemma length_sort_by [simp]: "length (sort_by le xs) = length xs"
  by (induction xs) auto

lemma distinct_insert_by: "distinct (insert_by le x ys) = (x \<notin> set ys \<and> distinct ys)"
  by (induction ys) auto

lemma distinct_sort_by [simp]: "distinct (sort_by le xs) = distinct xs"
  by (induction xs) (auto simp: distinct_insert_by)

lemma sorted_insert_by:
  assumes total: "\<And>a b. le a b \<or> le b a" and trans: "\<And>a b c. le a b \<Longrightarrow> le b c \<Longrightarrow> le a c"
  shows "sorted_wrt le ys \<Longrightarrow> sorted_wrt le (insert_by le x ys)"
proof (induction ys)
  case Nil
  then show ?case by simp
next
  case (Cons y ys)
  show ?case
  proof (cases "le x y")
    case True
    with Cons.prems show ?thesis by (auto intro: trans)
  next
    case False
    with total have "le y x" by blast
    with Cons show ?thesis by (simp add: False)
  qed
qed

lemma sorted_sort_by:
  assumes "\<And>a b. le a b \<or> le b a" and "\<And>a b c. le a b \<Longrightarrow> le b c \<Longrightarrow> le a c"
  shows "sorted_wrt le (sort_by le xs)"
  using assms by (induction xs) (simp_all add: sorted_insert_by)

section \<open>Interfaces\<close>

subsection \<open>Keyed stores\<close>

locale keyed_store =
  fixes get :: "'m \<Rightarrow> 'k \<Rightarrow> 'v option"
    and put :: "'k \<Rightarrow> 'v \<Rightarrow> 'm \<Rightarrow> 'm"
    and del :: "'k \<Rightarrow> 'm \<Rightarrow> 'm"
    and ok :: "'m \<Rightarrow> bool"
  assumes get_put: "ok m \<Longrightarrow> get (put k v m) j = (if j = k then Some v else get m j)"
    and get_del: "ok m \<Longrightarrow> get (del k m) j = (if j = k then None else get m j)"
    and ok_put: "ok m \<Longrightarrow> ok (put k v m)"
    and ok_del: "ok m \<Longrightarrow> ok (del k m)"
begin

lemma ok_fold_del: "ok m \<Longrightarrow> ok (fold del ks m)"
  by (induction ks arbitrary: m) (auto intro: ok_del)

lemma get_fold_del: "ok m \<Longrightarrow> get (fold del ks m) j = (if j \<in> set ks then None else get m j)"
  by (induction ks arbitrary: m) (auto simp: get_del ok_del)

lemma ok_fold_put: "ok m \<Longrightarrow> ok (fold (\<lambda>k. put k (f k)) ks m)"
  by (induction ks arbitrary: m) (auto intro: ok_put)

lemma get_fold_put:
  "ok m \<Longrightarrow> get (fold (\<lambda>k. put k (f k)) ks m) j = (if j \<in> set ks then Some (f j) else get m j)"
  by (induction ks arbitrary: m) (auto simp: get_put ok_put)

end

interpretation jm: keyed_store map_of AList.update AList.delete "\<lambda>m. distinct (map fst m)"
  by unfold_locales (auto simp: update_conv' delete_conv' distinct_update distinct_delete)

subsection \<open>Stores whose entries expire\<close>

text \<open>
  \<open>live now v\<close> says that the entry \<open>v\<close> is still valid at \<open>now\<close>; \<open>sweep\<close> removes the
  entries that are not.
\<close>

locale ttl_store = keyed_store get put del ok
  for get :: "'m \<Rightarrow> 'k \<Rightarrow> 'v option" and put :: "'k \<Rightarrow> 'v \<Rightarrow> 'm \<Rightarrow> 'm"
    and del :: "'k \<Rightarrow> 'm \<Rightarrow> 'm" and ok :: "'m \<Rightarrow> bool" +
  fixes sweep :: "'t \<Rightarrow> 'm \<Rightarrow> 'm"
    and live :: "'t \<Rightarrow> 'v \<Rightarrow> bool"
  assumes get_sweep: "ok m \<Longrightarrow> get (sweep t m) k =
      (case get m k of None \<Rightarrow> None | Some v \<Rightarrow> if live t v then Some v else None)"
    and ok_sweep: "ok m \<Longrightarrow> ok (sweep t m)"
begin

lemma swept_entry_live: "ok m \<Longrightarrow> get (sweep t m) k = Some v \<Longrightarrow> live t v"
  by (auto simp: get_sweep split: option.splits if_splits)

lemma put_survives_sweep:
  "ok m \<Longrightarrow> get (sweep t (put k v m)) k = (if live t v then Some v else None)"
  by (simp add: get_sweep get_put ok_put)

lemma sweep_idem: "ok m \<Longrightarrow> get (sweep t (sweep t m)) k = get (sweep t m) k"
  by (auto simp: get_sweep ok_sweep split: option.splits)

lemma sweep_other: "ok m \<Longrightarrow> j \<noteq> k \<Longrightarrow> get (sweep t (put k v m)) j = get (sweep t m) j"
  by (simp add: get_sweep get_put ok_put)

end

subsection \<open>Queues that drop their oldest entry\<close>

definition last_n :: "nat \<Rightarrow> 'a list \<Rightarrow> 'a list" where
  "last_n n xs = drop (length xs - n) xs"

lemma length_last_n [simp]: "length (last_n n xs) = min n (length xs)"
  by (simp add: last_n_def)

lemma last_n_id: "length xs \<le> n \<Longrightarrow> last_n n xs = xs"
  by (simp add: last_n_def)

lemma last_n_last_n_append: "last_n n (last_n n xs @ ys) = last_n n (xs @ ys)"
proof (cases "length xs \<le> n")
  case True
  then show ?thesis by (simp add: last_n_id)
next
  case False
  then show ?thesis by (simp add: last_n_def add.commute)
qed

locale bounded_fifo =
  fixes items :: "'q \<Rightarrow> 'a list"
    and push :: "'a \<Rightarrow> 'q \<Rightarrow> 'q"
    and cap :: "'q \<Rightarrow> nat"
  assumes push_items: "0 < cap q \<Longrightarrow> length (items q) \<le> cap q \<Longrightarrow>
      items (push x q) = last_n (cap q) (items q @ [x])"
    and push_cap: "cap (push x q) = cap q"
begin

lemma push_bound:
  "0 < cap q \<Longrightarrow> length (items q) \<le> cap q \<Longrightarrow> length (items (push x q)) \<le> cap (push x q)"
  by (simp add: push_items push_cap)

lemma cap_fold_push: "cap (fold push xs q) = cap q"
  by (induction xs arbitrary: q) (auto simp: push_cap)

lemma fold_push_items:
  "0 < cap q \<Longrightarrow> length (items q) \<le> cap q \<Longrightarrow>
   items (fold push xs q) = last_n (cap q) (items q @ xs)"
proof (induction xs arbitrary: q)
  case Nil
  then show ?case by (simp add: last_n_id)
next
  case (Cons x xs)
  have "items (fold push xs (push x q)) = last_n (cap q) (items (push x q) @ xs)"
    using Cons.IH [of "push x q"] Cons.prems push_bound by (simp add: push_cap)
  also have "\<dots> = last_n (cap q) (last_n (cap q) (items q @ [x]) @ xs)"
    using Cons.prems by (simp add: push_items)
  also have "\<dots> = last_n (cap q) (items q @ x # xs)"
    by (simp add: last_n_last_n_append)
  finally show ?case by simp
qed

lemma fold_push_bound:
  "0 < cap q \<Longrightarrow> length (items q) \<le> cap q \<Longrightarrow> length (items (fold push xs q)) \<le> cap q"
  by (simp add: fold_push_items)

end

lemma drop_oldest_last_n:
  assumes "0 < n" and "length xs \<le> n"
  shows "(if n \<le> length xs then tl xs else xs) @ [x] = last_n n (xs @ [x])"
  using assms by (cases xs) (auto simp: last_n_def)

subsection \<open>Operations that keep an invariant\<close>

locale machine =
  fixes step :: "'op \<Rightarrow> 's \<Rightarrow> 's"
    and inv :: "'s \<Rightarrow> bool"
  assumes inv_step: "inv s \<Longrightarrow> inv (step a s)"
begin

lemma inv_run: "inv s \<Longrightarrow> inv (fold step ops s)"
  by (induction ops arbitrary: s) (auto intro: inv_step)

lemma inv_prefix: "inv s \<Longrightarrow> inv (fold step (take n ops) s)"
  by (rule inv_run)

end

end
