(* ===== verification/JsString.thy ===== *)
theory JsString imports Prelude begin

text \<open>
  The string operations of the language that the source uses. A string is a list of code
  units below 256; \<open>trim\<close> and \<open>toLowerCase\<close> follow the ECMAScript rules on that range.
\<close>

type_synonym js_string = string

definition js_ws :: "char \<Rightarrow> bool" where
  "js_ws c \<longleftrightarrow> (let n = (of_char c :: nat) in (9 \<le> n \<and> n \<le> 13) \<or> n = 32 \<or> n = 160)"

definition js_trim :: "string \<Rightarrow> string" where
  "js_trim s = rev (dropWhile js_ws (rev (dropWhile js_ws s)))"

definition non_blank :: "string \<Rightarrow> bool" where
  "non_blank s \<longleftrightarrow> js_trim s \<noteq> []"

text \<open>\<open>typeof v === 'string' && v.trim() !== ''\<close> on a value that may be undefined.\<close>

definition non_blank_opt :: "string option \<Rightarrow> bool" where
  "non_blank_opt v \<longleftrightarrow> (case v of None \<Rightarrow> False | Some s \<Rightarrow> non_blank s)"

text \<open>The truthiness of an optional string: present and not empty.\<close>

definition truthy_str :: "string option \<Rightarrow> bool" where
  "truthy_str v \<longleftrightarrow> (case v of None \<Rightarrow> False | Some s \<Rightarrow> s \<noteq> [])"

definition lower_char :: "char \<Rightarrow> char" where
  "lower_char c = (let n = (of_char c :: nat) in
     if (65 \<le> n \<and> n \<le> 90) \<or> (192 \<le> n \<and> n \<le> 222 \<and> n \<noteq> 215) then char_of (n + 32) else c)"

definition js_lower :: "string \<Rightarrow> string" where
  "js_lower s = map lower_char s"

definition starts_with :: "string \<Rightarrow> string \<Rightarrow> bool" where
  "starts_with s p \<longleftrightarrow> take (length p) s = p"

definition ends_with :: "string \<Rightarrow> string \<Rightarrow> bool" where
  "ends_with s p \<longleftrightarrow> starts_with (rev s) (rev p)"

fun js_includes :: "string \<Rightarrow> string \<Rightarrow> bool" where
  "js_includes [] p \<longleftrightarrow> p = []"
| "js_includes (c # s) p \<longleftrightarrow> starts_with (c # s) p \<or> js_includes s p"

fun js_split :: "char \<Rightarrow> string \<Rightarrow> string list" where
  "js_split sep [] = [[]]"
| "js_split sep (c # cs) =
     (if c = sep then [] # js_split sep cs
      else (case js_split sep cs of [] \<Rightarrow> [[c]] | w # ws \<Rightarrow> (c # w) # ws))"

fun js_join :: "string \<Rightarrow> string list \<Rightarrow> string" where
  "js_join sep [] = []"
| "js_join sep [x] = x"
| "js_join sep (x # y # ys) = x @ sep @ js_join sep (y # ys)"

fun show_nat :: "nat \<Rightarrow> string" where
  "show_nat n = (if n < 10 then [char_of (48 + n)] else show_nat (n div 10) @ [char_of (48 + n mod 10)])"

declare show_nat.simps [simp del]

definition show_int :: "int \<Rightarrow> string" where
  "show_int i = (if i < 0 then ''-'' @ show_nat (nat (- i)) else show_nat (nat i))"

text \<open>\<open>Buffer.byteLength(s, 'utf8')\<close>: a code unit from 128 to 255 takes two bytes.\<close>

definition utf8_length :: "string \<Rightarrow> nat" where
  "utf8_length s = sum_list (map (\<lambda>c. if (of_char c :: nat) < 128 then 1 else 2) s)"

section \<open>Lemmas\<close>

lemma starts_with_iff: "starts_with s p \<longleftrightarrow> (\<exists>t. s = p @ t)"
  unfolding starts_with_def by (metis append_eq_conv_conj append_take_drop_id)

lemma ends_with_iff: "ends_with s p \<longleftrightarrow> (\<exists>t. s = t @ p)"
  unfolding ends_with_def starts_with_iff by (metis rev_append rev_rev_ident)

lemma js_includes_iff: "js_includes s p \<longleftrightarrow> (\<exists>u v. s = u @ p @ v)"
proof (induction s)
  case Nil
  then show ?case by auto
next
  case (Cons c s)
  show ?case
  proof
    assume "js_includes (c # s) p"
    then consider "starts_with (c # s) p" | "js_includes s p" by auto
    then show "\<exists>u v. c # s = u @ p @ v"
    proof cases
      case 1
      then show ?thesis unfolding starts_with_iff by (metis append_Nil)
    next
      case 2
      with Cons.IH obtain u v where "s = u @ p @ v" by blast
      then have "c # s = (c # u) @ p @ v" by simp
      then show ?thesis by blast
    qed
  next
    assume "\<exists>u v. c # s = u @ p @ v"
    then obtain u v where uv: "c # s = u @ p @ v" by blast
    show "js_includes (c # s) p"
    proof (cases u)
      case Nil
      with uv have "starts_with (c # s) p" unfolding starts_with_iff by auto
      then show ?thesis by simp
    next
      case (Cons d w)
      with uv Cons.IH show ?thesis by auto
    qed
  qed
qed

lemma js_split_nonempty [simp]: "js_split sep s \<noteq> []"
  by (cases s) (auto split: list.splits)

lemma js_join_split: "js_join [sep] (js_split sep s) = s"
proof (induction s)
  case Nil
  then show ?case by simp
next
  case (Cons c s)
  obtain w ws where sp: "js_split sep s = w # ws"
    by (cases "js_split sep s") auto
  show ?case using Cons sp by (cases ws) auto
qed

lemma js_trim_nil [simp]: "js_trim [] = []"
  by (simp add: js_trim_def)

lemma dropWhile_rev_dropWhile_rev:
  "dropWhile P (rev (dropWhile P (rev (dropWhile P s)))) = rev (dropWhile P (rev (dropWhile P s)))"
proof (cases "rev (dropWhile P (rev (dropWhile P s)))")
  case Nil
  then show ?thesis by (simp only: Nil dropWhile.simps)
next
  case (Cons a t)
  have "\<exists>u. dropWhile P s = rev (dropWhile P (rev (dropWhile P s))) @ u"
    by (metis rev_append rev_rev_ident takeWhile_dropWhile_id)
  then obtain u where "dropWhile P s = a # t @ u"
    using Cons by auto
  then have "\<not> P a" using hd_dropWhile [of P s] by simp
  then show ?thesis by (simp only: Cons dropWhile.simps if_False)
qed

lemma js_trim_idem [simp]: "js_trim (js_trim s) = js_trim s"
  unfolding js_trim_def by (simp add: dropWhile_rev_dropWhile_rev)

lemma non_blank_trim [simp]: "non_blank (js_trim s) = non_blank s"
  by (simp add: non_blank_def)

lemma non_blank_nonempty: "non_blank s \<Longrightarrow> s \<noteq> []"
  by (auto simp: non_blank_def)

lemma non_blank_opt_simps [simp]:
  "non_blank_opt None = False" "non_blank_opt (Some s) = non_blank s"
  by (simp_all add: non_blank_opt_def)

lemma truthy_str_simps [simp]:
  "truthy_str None = False" "truthy_str (Some s) = (s \<noteq> [])"
  by (simp_all add: truthy_str_def)

lemma js_lower_simps [simp]: "js_lower [] = []" "js_lower (c # s) = lower_char c # js_lower s"
  "js_lower (s @ t) = js_lower s @ js_lower t"
  by (simp_all add: js_lower_def)

lemma length_js_lower [simp]: "length (js_lower s) = length s"
  by (simp add: js_lower_def)

lemma lower_char_idem [simp]: "lower_char (lower_char c) = lower_char c"
proof -
  have "(of_char c :: nat) < 256" by simp
  then show ?thesis
    by (auto simp: lower_char_def Let_def)
qed

lemma js_lower_idem [simp]: "js_lower (js_lower s) = js_lower s"
  by (simp add: js_lower_def)

lemma show_nat_nonempty [simp]: "show_nat n \<noteq> []"
  by (subst show_nat.simps) simp

text \<open>Numbers are printed injectively: there is a reader.\<close>

definition read_nat :: "string \<Rightarrow> nat" where
  "read_nat s = foldl (\<lambda>a c. 10 * a + (of_char c - 48)) 0 s"

lemma read_show_nat: "read_nat (show_nat n) = n"
proof (induction n rule: show_nat.induct)
  case (1 n)
  have digit: "k < 10 \<Longrightarrow> (of_char (char_of (48 + k) :: char) :: nat) = 48 + k" for k :: nat
    by (simp add: of_char_of)
  show ?case
  proof (cases "n < 10")
    case True
    then show ?thesis using digit [OF True] by (subst show_nat.simps) (simp add: read_nat_def)
  next
    case False
    then show ?thesis
      using "1.IH" digit [of "n mod 10"] by (subst show_nat.simps) (simp add: read_nat_def)
  qed
qed

lemma utf8_length_append [simp]: "utf8_length (a @ b) = utf8_length a + utf8_length b"
  by (simp add: utf8_length_def)

lemma js_includes_char: "js_includes s [c] \<longleftrightarrow> c \<in> set s"
  by (induction s) (auto simp: starts_with_def)

lemma js_split_no_sep: "c \<notin> set s \<Longrightarrow> js_split c s = [s]"
  by (induction s) auto

lemma js_split_segment: "c \<notin> set w \<Longrightarrow> js_split c (w @ c # rest) = w # js_split c rest"
  by (induction w) auto

lemma js_split_join:
  "ws \<noteq> [] \<Longrightarrow> \<forall>w \<in> set ws. c \<notin> set w \<Longrightarrow> js_split c (js_join [c] ws) = ws"
proof (induction ws rule: induct_list012)
  case (2 x)
  then show ?case by (simp add: js_split_no_sep)
next
  case (3 x y ys)
  then show ?case by (simp add: js_split_segment)
qed simp

lemma in_dropWhile: "c \<in> set s \<Longrightarrow> \<not> P c \<Longrightarrow> c \<in> set (dropWhile P s)"
  by (induction s) auto

lemma non_blank_char: "c \<in> set s \<Longrightarrow> \<not> js_ws c \<Longrightarrow> non_blank s"
  using in_dropWhile [of c "rev (dropWhile js_ws s)" js_ws] in_dropWhile [of c s js_ws]
  by (auto simp: non_blank_def js_trim_def)

end
