(* ===== verification/JsValue.thy ===== *)
theory JsValue imports JsString begin

text \<open>
  The JavaScript values that events, hook payloads and rule matchers are made of, the property
  reads the source performs on them, and the three serialisers: \<open>JSON.stringify\<close>, the key
  sorting \<open>stableStringify\<close> of \<open>src/transport/protocol.ts\<close> and \<open>stableJsonStringify\<close> of
  \<open>src/runtime/hook-bridge-utils.ts\<close>. Numbers are integers; objects are association lists in
  insertion order; property reads see own properties.
\<close>

datatype jsval =
    JUndef
  | JNull
  | JBool bool
  | JNum int
  | JStr string
  | JArr "jsval list"
  | JObj "(string \<times> jsval) list"

type_synonym jsobj = "(string \<times> jsval) list"

section \<open>Type tests and reads\<close>

text \<open>\<open>typeof value === 'object' && value !== null\<close>: arrays are records too.\<close>

fun isRecord :: "jsval \<Rightarrow> bool" where
  "isRecord (JArr xs) = True"
| "isRecord (JObj kvs) = True"
| "isRecord v = False"

fun is_array :: "jsval \<Rightarrow> bool" where
  "is_array (JArr xs) = True"
| "is_array v = False"

definition is_nullish :: "jsval \<Rightarrow> bool" where
  "is_nullish v \<longleftrightarrow> v = JUndef \<or> v = JNull"

definition js_truthy :: "jsval \<Rightarrow> bool" where
  "js_truthy v \<longleftrightarrow> v \<notin> {JUndef, JNull, JBool False, JNum 0, JStr []}"

text \<open>The message of the \<open>TypeError\<close> of reading a property of \<open>null\<close>.\<close>

definition null_read :: "string \<Rightarrow> string" where
  "null_read k = ''Cannot read properties of null (reading '' @ [CHR 0x27] @ k @ [CHR 0x27] @ '')''"

fun readString :: "jsval \<Rightarrow> string option" where
  "readString (JStr s) = Some s"
| "readString v = None"

fun readNumber :: "jsval \<Rightarrow> int option" where
  "readNumber (JNum n) = Some n"
| "readNumber v = None"

definition readObject :: "jsval \<Rightarrow> jsval option" where
  "readObject v = (if isRecord v then Some v else None)"

fun typeof :: "jsval \<Rightarrow> string" where
  "typeof JUndef = ''undefined''"
| "typeof JNull = ''object''"
| "typeof (JBool b) = ''boolean''"
| "typeof (JNum n) = ''number''"
| "typeof (JStr s) = ''string''"
| "typeof (JArr xs) = ''object''"
| "typeof (JObj kvs) = ''object''"

text \<open>
  \<open>value[key]\<close> on an object: an own property, an array element or the array's length.
  The source guards every such read with a test that the value is an object.
\<close>

definition array_get :: "jsval list \<Rightarrow> string \<Rightarrow> jsval option" where
  "array_get xs k =
     (if k = ''length'' then Some (JNum (int (length xs)))
      else map_option (\<lambda>i. xs ! i) (List.find (\<lambda>i. show_nat i = k) [0..<length xs]))"

fun get_prop :: "jsval \<Rightarrow> string \<Rightarrow> jsval option" where
  "get_prop (JObj kvs) k = map_of kvs k"
| "get_prop (JArr xs) k = array_get xs k"
| "get_prop v k = None"

definition jprop :: "jsval \<Rightarrow> string \<Rightarrow> jsval" where
  "jprop v k = default_to JUndef (get_prop v k)"

definition oget :: "jsobj \<Rightarrow> string \<Rightarrow> jsval" where
  "oget kvs k = default_to JUndef (map_of kvs k)"

definition ostr :: "jsobj \<Rightarrow> string \<Rightarrow> string option" where
  "ostr kvs k = readString (oget kvs k)"

text \<open>An optional string as a property value: \<open>undefined\<close> when it is absent.\<close>

definition of_str :: "string option \<Rightarrow> jsval" where
  "of_str v = (case v of None \<Rightarrow> JUndef | Some s \<Rightarrow> JStr s)"

definition of_num :: "int option \<Rightarrow> jsval" where
  "of_num v = (case v of None \<Rightarrow> JUndef | Some n \<Rightarrow> JNum n)"

definition of_bool_opt :: "bool option \<Rightarrow> jsval" where
  "of_bool_opt v = (case v of None \<Rightarrow> JUndef | Some b \<Rightarrow> JBool b)"

definition strs :: "string list \<Rightarrow> jsval" where
  "strs xs = JArr (map JStr xs)"

text \<open>\<open>a ?? b\<close>\<close>

definition jnullish :: "jsval \<Rightarrow> jsval \<Rightarrow> jsval" where
  "jnullish a b = (if is_nullish a then b else a)"

text \<open>\<open>{...a, ...b}\<close>: the keys of \<open>b\<close> overwrite in place or are appended.\<close>

definition spread :: "jsobj \<Rightarrow> jsobj \<Rightarrow> jsobj" where
  "spread a b = fold (\<lambda>(k, v). mput k v) b a"

fun obj_entries :: "jsval \<Rightarrow> jsobj" where
  "obj_entries (JObj kvs) = kvs"
| "obj_entries (JArr xs) = map (\<lambda>i. (show_nat i, xs ! i)) [0..<length xs]"
| "obj_entries v = []"

text \<open>
  \<open>a === b\<close> where \<open>b\<close> is a primitive of the configuration: objects are never equal to it.
\<close>

fun strict_eq :: "jsval \<Rightarrow> jsval \<Rightarrow> bool" where
  "strict_eq (JArr _) b = False"
| "strict_eq (JObj _) b = False"
| "strict_eq a b = (a = b)"

definition includes_value :: "jsval list \<Rightarrow> jsval \<Rightarrow> bool" where
  "includes_value vs v \<longleftrightarrow> list_ex (\<lambda>w. strict_eq v w) vs"

section \<open>Serialisation\<close>

definition hex_digit :: "nat \<Rightarrow> char" where
  "hex_digit n = (if n < 10 then char_of (48 + n) else char_of (87 + n))"

definition quote_char :: "char \<Rightarrow> string" where
  "quote_char c = (let n = (of_char c :: nat) in
     if n = 34 then [CHR 0x5C, CHR 0x22]
     else if n = 92 then [CHR 0x5C, CHR 0x5C]
     else if n = 8 then CHR 0x5C # ''b''
     else if n = 12 then CHR 0x5C # ''f''
     else if n = 10 then CHR 0x5C # ''n''
     else if n = 13 then CHR 0x5C # ''r''
     else if n = 9 then CHR 0x5C # ''t''
     else if n < 32 then CHR 0x5C # ''u00'' @ [hex_digit (n div 16), hex_digit (n mod 16)]
     else [c])"

definition json_quote :: "string \<Rightarrow> string" where
  "json_quote s = [CHR 0x22] @ concat (map quote_char s) @ [CHR 0x22]"

definition bool_str :: "bool \<Rightarrow> string" where
  "bool_str b = (if b then ''true'' else ''false'')"

text \<open>
  \<open>JSON.stringify\<close>: \<open>undefined\<close> has no text, is \<open>null\<close> inside an array and drops its key
  inside an object.
\<close>

fun json_stringify :: "jsval \<Rightarrow> string option"
  and json_items :: "jsval list \<Rightarrow> string list"
  and json_fields :: "jsobj \<Rightarrow> string list"
where
  "json_stringify JUndef = None"
| "json_stringify JNull = Some ''null''"
| "json_stringify (JBool b) = Some (bool_str b)"
| "json_stringify (JNum n) = Some (show_int n)"
| "json_stringify (JStr s) = Some (json_quote s)"
| "json_stringify (JArr xs) = Some (''['' @ js_join '','' (json_items xs) @ '']'')"
| "json_stringify (JObj kvs) = Some (''{'' @ js_join '','' (json_fields kvs) @ ''}'')"
| "json_items [] = []"
| "json_items (x # xs) = default_to ''null'' (json_stringify x) # json_items xs"
| "json_fields [] = []"
| "json_fields ((k, v) # kvs) =
     (case json_stringify v of
        None \<Rightarrow> json_fields kvs
      | Some t \<Rightarrow> (json_quote k @ '':'' @ t) # json_fields kvs)"

text \<open>The default order of \<open>Array.prototype.sort\<close> on strings: by code units.\<close>

fun code_unit_le :: "string \<Rightarrow> string \<Rightarrow> bool" where
  "code_unit_le [] t = True"
| "code_unit_le (c # s) [] = False"
| "code_unit_le (c # s) (d # t) =
     (if (of_char c :: nat) < of_char d then True
      else if of_char d < (of_char c :: nat) then False
      else code_unit_le s t)"

text \<open>
  \<open>stableStringify\<close> of \<open>protocol.ts\<close>. A template prints a missing text as \<open>undefined\<close>, a
  joined array prints it as nothing, and a key with value \<open>undefined\<close> is kept.
\<close>

fun stableStringify :: "jsval \<Rightarrow> string option"
  and stable_items :: "jsval list \<Rightarrow> string list"
  and stable_fields :: "jsobj \<Rightarrow> (string \<times> string) list"
where
  "stableStringify (JArr xs) = Some (''['' @ js_join '','' (stable_items xs) @ '']'')"
| "stableStringify (JObj kvs) =
     Some (''{'' @
       js_join '','' (map (\<lambda>(k, t). json_quote k @ '':'' @ t)
         (sort_by (\<lambda>a b. code_unit_le (fst a) (fst b)) (stable_fields kvs))) @ ''}'')"
| "stableStringify v = json_stringify v"
| "stable_items [] = []"
| "stable_items (x # xs) = default_to [] (stableStringify x) # stable_items xs"
| "stable_fields [] = []"
| "stable_fields ((k, v) # kvs) = (k, default_to ''undefined'' (stableStringify v)) # stable_fields kvs"

text \<open>
  \<open>normalizeForStableJson\<close> sorts the entries of every object with \<open>localeCompare\<close>, whose
  collation \<open>lc\<close> (read as "not after") is a parameter.
\<close>

fun normalizeForStableJson :: "(string \<Rightarrow> string \<Rightarrow> bool) \<Rightarrow> jsval \<Rightarrow> jsval"
  and normalize_items :: "(string \<Rightarrow> string \<Rightarrow> bool) \<Rightarrow> jsval list \<Rightarrow> jsval list"
  and normalize_fields :: "(string \<Rightarrow> string \<Rightarrow> bool) \<Rightarrow> jsobj \<Rightarrow> jsobj"
where
  "normalizeForStableJson lc (JArr xs) = JArr (normalize_items lc xs)"
| "normalizeForStableJson lc (JObj kvs) =
     JObj (sort_by (\<lambda>a b. lc (fst a) (fst b)) (normalize_fields lc kvs))"
| "normalizeForStableJson lc v = v"
| "normalize_items lc [] = []"
| "normalize_items lc (x # xs) = normalizeForStableJson lc x # normalize_items lc xs"
| "normalize_fields lc [] = []"
| "normalize_fields lc ((k, v) # kvs) = (k, normalizeForStableJson lc v) # normalize_fields lc kvs"

definition stableJsonStringify :: "(string \<Rightarrow> string \<Rightarrow> bool) \<Rightarrow> jsval \<Rightarrow> string option" where
  "stableJsonStringify lc v = json_stringify (normalizeForStableJson lc v)"

definition toStableToken :: "(string \<Rightarrow> string \<Rightarrow> bool) \<Rightarrow> jsval \<Rightarrow> string \<Rightarrow> string" where
  "toStableToken lc v fallback =
     (case v of
        JUndef \<Rightarrow> fallback
      | JNull \<Rightarrow> fallback
      | JStr s \<Rightarrow> s
      | JNum n \<Rightarrow> show_int n
      | JBool b \<Rightarrow> bool_str b
      | _ \<Rightarrow> default_to ''undefined'' (stableJsonStringify lc v))"

section \<open>Lemmas\<close>

lemma jprop_simps [simp]: "jprop (JObj kvs) k = oget kvs k"
  by (simp add: jprop_def oget_def)

lemma oget_simps [simp]:
  "oget [] k = JUndef" "oget ((a, v) # kvs) k = (if k = a then v else oget kvs k)"
  by (simp_all add: oget_def)

lemma oget_mput [simp]: "oget (mput k v kvs) j = (if j = k then v else oget kvs j)"
  by (simp add: oget_def)

lemma of_str_simps [simp]: "of_str None = JUndef" "of_str (Some s) = JStr s"
  by (simp_all add: of_str_def)

lemma readString_of_str [simp]: "readString (of_str v) = v"
  by (cases v) simp_all

lemma readString_eq_Some [simp]: "readString v = Some s \<longleftrightarrow> v = JStr s"
  by (cases v) auto

lemma mget_spread: "mget (spread a b) k = (if k \<in> set (mkeys b) then mget (rev b) k else mget a k)"
proof (induction b rule: rev_induct)
  case Nil
  then show ?case by (simp add: spread_def)
next
  case (snoc kv b)
  then show ?case by (cases kv) (auto simp: spread_def)
qed

lemma spread_nil [simp]: "spread a [] = a"
  by (simp add: spread_def)

lemma map_ok_spread: "map_ok a \<Longrightarrow> map_ok (spread a b)"
proof (induction b rule: rev_induct)
  case Nil
  then show ?case by simp
next
  case (snoc kv b)
  then show ?case by (cases kv) (simp add: spread_def distinct_update)
qed

lemma strict_eq_sound: "strict_eq a b \<Longrightarrow> a = b"
  by (cases a) auto

lemma code_unit_le_total: "code_unit_le s t \<or> code_unit_le t s"
proof (induction s arbitrary: t)
  case Nil
  then show ?case by simp
next
  case (Cons c s)
  then show ?case by (cases t) auto
qed

lemma code_unit_le_trans: "code_unit_le s t \<Longrightarrow> code_unit_le t u \<Longrightarrow> code_unit_le s u"
proof (induction s arbitrary: t u)
  case Nil
  then show ?case by simp
next
  case (Cons c s)
  then show ?case by (cases t; cases u) (auto split: if_splits)
qed

lemma code_unit_le_antisym: "code_unit_le s t \<Longrightarrow> code_unit_le t s \<Longrightarrow> s = t"
proof (induction s arbitrary: t)
  case Nil
  then show ?case by (cases t) auto
next
  case (Cons c s)
  then show ?case
    by (cases t) (auto split: if_splits dest: not_less_iff_gr_or_eq [THEN iffD1])
qed

end
