(* ===== verification/Config.thy ===== *)
theory Config imports JsValue begin

text \<open>
  The plugin's configuration: the interfaces of \<open>src/config/config-types.ts\<close> and the delivery
  settings of \<open>src/events/types.ts\<close> as records, the defaults of \<open>default-config.ts\<close>, the event
  type table and the parsing helpers, and the webhook filter \<open>shouldFilterEvent\<close>. String unions
  stay strings, as they are at run time, so that validation can reject other values; the two
  settings that may be fractional are rationals, every other number is an integer.
\<close>

section \<open>What the host provides\<close>

text \<open>
  The parts of the host the source relies on: \<open>new URL\<close> (protocol and host name, none when it
  throws), \<open>new RegExp\<close> (none when the pattern is invalid), the collation of \<open>localeCompare\<close>,
  \<open>realpathSync\<close> and \<open>resolve\<close> of the file system, and \<open>isAbsolute\<close>.
\<close>

record host =
  h_url :: "string \<Rightarrow> (string \<times> string) option"
  h_regex :: "string \<Rightarrow> (string \<Rightarrow> bool) option"
  h_locale :: "string \<Rightarrow> string \<Rightarrow> bool"
  h_realpath :: "string \<Rightarrow> string option"
  h_resolve :: "string \<Rightarrow> string"
  h_isAbsolute :: "string \<Rightarrow> bool"
  h_readFile :: "string \<Rightarrow> string option"

section \<open>Delivery settings (events/types.ts)\<close>

record WebhookConfig =
  wh_url :: string
  wh_method :: "string option"
  wh_headers :: "(string \<times> string) list option"
  wh_authToken :: "string option"
  wh_includeFullPayload :: "bool option"

record EventFilter =
  fl_includeTypes :: "string list option"
  fl_excludeTypes :: "string list option"
  fl_channelId :: "string option"
  fl_toolName :: "string option"
  fl_sessionId :: "string option"

record RetryConfig =
  rt_maxAttempts :: int
  rt_initialDelayMs :: rat
  rt_maxDelayMs :: rat
  rt_backoffMultiplier :: rat

record QueueConfig =
  qc_maxSize :: int
  qc_flushIntervalMs :: int
  qc_persistToDisk :: bool
  qc_persistPath :: "string option"

section \<open>Transport, privacy, logging, status, redaction, security\<close>

record TransportConfig =
  tc_mode :: string
  tc_lockPath :: string
  tc_socketPath :: string
  tc_lockStaleMs :: int
  tc_heartbeatMs :: int
  tc_relayTimeoutMs :: int
  tc_reconnectBackoffMs :: int
  tc_maxPendingEvents :: int
  tc_maxPayloadBytes :: int
  tc_authToken :: "string option"
  tc_dedupeTtlMs :: int
  tc_semanticDedupeEnabled :: bool

record ModernLifecyclePrivacyConfig =
  pv_payloadMode :: string

record LoggingConfig =
  lg_debug :: bool
  lg_logSuccess :: bool
  lg_logErrors :: bool
  lg_logQueue :: bool

record StatusConfig =
  st_workingWindowMs :: int
  st_sleepingWindowMs :: int
  st_tickIntervalMs :: int
  st_subagentIdleWindowMs :: int

record RedactionConfig =
  rd_enabled :: bool
  rd_replacement :: string
  rd_fields :: "string list"

record EventLogConfig =
  el_enabled :: bool
  el_path :: string
  el_maxFileSizeMb :: int
  el_format :: string
  el_minLevel :: string
  el_includeRuntimeLogs :: bool

record WsSecurityConfig =
  ws_bindAddress :: string
  ws_requireAuth :: bool
  ws_authToken :: "string option"
  ws_allowedOrigins :: "string list"
  ws_allowedIps :: "string list"

record HmacSecurityConfig =
  hm_enabled :: bool
  hm_secret :: "string option"
  hm_secretFilePath :: "string option"
  hm_algorithm :: string

record SecurityConfig =
  sec_ws :: WsSecurityConfig
  sec_hmac :: HmacSecurityConfig

section \<open>Hook bridge\<close>

datatype scalar_or_list = Scalar string | OneOf "string list"

record HookBridgeRuleWhen =
  w_eventType :: "scalar_or_list option"
  w_toolName :: "scalar_or_list option"
  w_agentId :: "scalar_or_list option"
  w_sessionId :: "scalar_or_list option"
  w_sessionKey :: "scalar_or_list option"
  w_contains :: "(string \<times> string) list option"
  w_equals :: "(string \<times> jsval) list option"
  w_requiredPaths :: "string list option"
  w_typeChecks :: "(string \<times> string) list option"
  w_inList :: "(string \<times> jsval list) list option"
  w_notInList :: "(string \<times> jsval list) list option"
  w_matchesRegex :: "(string \<times> string) list option"
  w_notMatchesRegex :: "(string \<times> string) list option"
  w_domainAllowlist :: "string list option"
  w_domainBlocklist :: "string list option"
  w_domainPath :: "string option"
  w_idleForMsGte :: "int option"
  w_parentStatus :: "string option"

text \<open>The matcher without any condition.\<close>

definition any_when :: HookBridgeRuleWhen where
  "any_when = \<lparr> w_eventType = None, w_toolName = None, w_agentId = None, w_sessionId = None,
     w_sessionKey = None, w_contains = None, w_equals = None, w_requiredPaths = None,
     w_typeChecks = None, w_inList = None, w_notInList = None, w_matchesRegex = None,
     w_notMatchesRegex = None, w_domainAllowlist = None, w_domainBlocklist = None,
     w_domainPath = None, w_idleForMsGte = None, w_parentStatus = None \<rparr>"

record HookBridgeGuardDecision =
  gd_block :: "bool option"
  gd_blockReason :: "string option"
  gd_params :: "jsval option"
  gd_blockReasonTemplate :: "string option"

record HookBridgeToolGuardRule =
  gr_id :: string
  gr_enabled :: "bool option"
  gr_priority :: "int option"
  gr_when :: HookBridgeRuleWhen
  gr_action :: "string option"
  gr_decision :: "HookBridgeGuardDecision option"
  gr_stopOnMatch :: "bool option"
  gr_cooldownMs :: "int option"

record HookBridgeToolGuardConfig =
  tg_enabled :: bool
  tg_dryRun :: bool
  tg_timeoutMs :: int
  tg_onError :: string
  tg_scopeKeyBy :: "string option"
  tg_retryBackoffMs :: int
  tg_retryBackoffReason :: "string option"
  tg_approvalCacheTtlMs :: int
  tg_stopOnMatchDefault :: "bool option"
  tg_redaction :: RedactionConfig
  tg_rules :: "HookBridgeToolGuardRule list"

record HookBridgeRuntimeConfig =
  hr_maxPendingEvents :: int
  hr_concurrency :: int
  hr_dropPolicy :: string

record HookBridgeTelemetryConfig =
  ht_highWatermarks :: "int list"
  ht_slowActionMs :: int
  ht_failureRateWindowMs :: int
  ht_failureRateThresholdPct :: rat
  ht_failureRateMinSamples :: int
  ht_saturationWindowMs :: int

record LocalScriptDefaults =
  ls_timeoutMs :: int
  ls_maxPayloadBytes :: int

record HookBridgeWebhookAction =
  wa_url :: string
  wa_method :: "string option"
  wa_headers :: "(string \<times> string) list option"
  wa_authToken :: "string option"
  wa_timeoutMs :: "int option"

record HookBridgeLocalScriptAction =
  sa_path :: string
  sa_args :: "string list option"
  sa_timeoutMs :: "int option"
  sa_maxPayloadBytes :: "int option"

datatype HookBridgeAction =
    WebhookAction HookBridgeWebhookAction
  | LocalScriptAction HookBridgeLocalScriptAction

record HookBridgeRuleCoalesce =
  co_enabled :: bool
  co_keyFields :: "string list option"
  co_windowMs :: "int option"
  co_strategy :: "string option"

record HookBridgeRule =
  hbr_id :: string
  hbr_enabled :: "bool option"
  hbr_when :: HookBridgeRuleWhen
  hbr_action :: string
  hbr_cooldownMs :: "int option"
  hbr_coalesce :: "HookBridgeRuleCoalesce option"

record HookBridgeConfig =
  hb_enabled :: bool
  hb_dryRun :: bool
  hb_allowedActionDirs :: "string list"
  hb_localScriptDefaults :: LocalScriptDefaults
  hb_actions :: "(string \<times> HookBridgeAction) list"
  hb_rules :: "HookBridgeRule list"
  hb_toolGuard :: HookBridgeToolGuardConfig
  hb_runtime :: HookBridgeRuntimeConfig
  hb_telemetry :: HookBridgeTelemetryConfig

record PluginConfig =
  pc_enabled :: bool
  pc_transport :: TransportConfig
  pc_webhooks :: "WebhookConfig list"
  pc_filters :: EventFilter
  pc_retry :: RetryConfig
  pc_queue :: QueueConfig
  pc_logging :: LoggingConfig
  pc_status :: StatusConfig
  pc_redaction :: RedactionConfig
  pc_privacy :: ModernLifecyclePrivacyConfig
  pc_eventLog :: EventLogConfig
  pc_security :: SecurityConfig
  pc_correlationIdHeader :: string
  pc_webhookTimeoutMs :: int
  pc_hookBridge :: HookBridgeConfig

section \<open>Defaults (config/default-config.ts)\<close>

definition default_sensitive_fields :: "string list" where
  "default_sensitive_fields =
     [''content'', ''newContent'', ''originalContent'', ''transcript'', ''normalizedText'',
      ''params'', ''arguments'', ''token'', ''apiKey'', ''api_key'', ''authorization'',
      ''authToken'', ''password'', ''secret'']"

definition default_redaction :: RedactionConfig where
  "default_redaction =
     \<lparr> rd_enabled = False, rd_replacement = ''[REDACTED]'', rd_fields = default_sensitive_fields \<rparr>"

definition default_transport :: TransportConfig where
  "default_transport =
     \<lparr> tc_mode = ''auto'', tc_lockPath = ''.event-server/transport.lock'',
       tc_socketPath = ''.event-server/transport.sock'', tc_lockStaleMs = 15000,
       tc_heartbeatMs = 5000, tc_relayTimeoutMs = 1500, tc_reconnectBackoffMs = 250,
       tc_maxPendingEvents = 2000, tc_maxPayloadBytes = 1024 * 1024, tc_authToken = None,
       tc_dedupeTtlMs = 60000, tc_semanticDedupeEnabled = True \<rparr>"

definition default_toolGuard :: HookBridgeToolGuardConfig where
  "default_toolGuard =
     \<lparr> tg_enabled = False, tg_dryRun = False, tg_timeoutMs = 15000, tg_onError = ''allow'',
       tg_scopeKeyBy = Some ''tool_and_params'', tg_retryBackoffMs = 10000,
       tg_retryBackoffReason =
         Some ''Retry blocked. Back off briefly before retrying this tool call.'',
       tg_approvalCacheTtlMs = 60000, tg_stopOnMatchDefault = Some False,
       tg_redaction = default_redaction, tg_rules = [] \<rparr>"

definition default_hookBridge :: HookBridgeConfig where
  "default_hookBridge =
     \<lparr> hb_enabled = False, hb_dryRun = False, hb_allowedActionDirs = [],
       hb_localScriptDefaults = \<lparr> ls_timeoutMs = 10000, ls_maxPayloadBytes = 65536 \<rparr>,
       hb_actions = [], hb_rules = [], hb_toolGuard = default_toolGuard,
       hb_runtime =
         \<lparr> hr_maxPendingEvents = 1000, hr_concurrency = 8, hr_dropPolicy = ''drop_oldest'' \<rparr>,
       hb_telemetry =
         \<lparr> ht_highWatermarks = [70, 90, 100], ht_slowActionMs = 2000,
           ht_failureRateWindowMs = 60000, ht_failureRateThresholdPct = 20,
           ht_failureRateMinSamples = 10, ht_saturationWindowMs = 10000 \<rparr> \<rparr>"

definition DEFAULT_CONFIG :: PluginConfig where
  "DEFAULT_CONFIG =
     \<lparr> pc_enabled = True,
       pc_transport = default_transport,
       pc_webhooks = [],
       pc_filters =
         \<lparr> fl_includeTypes = Some [], fl_excludeTypes = Some [], fl_channelId = None,
           fl_toolName = None, fl_sessionId = None \<rparr>,
       pc_retry =
         \<lparr> rt_maxAttempts = 3, rt_initialDelayMs = 1000, rt_maxDelayMs = 30000,
           rt_backoffMultiplier = 2 \<rparr>,
       pc_queue =
         \<lparr> qc_maxSize = 1000, qc_flushIntervalMs = 5000, qc_persistToDisk = False,
           qc_persistPath = None \<rparr>,
       pc_logging =
         \<lparr> lg_debug = False, lg_logSuccess = False, lg_logErrors = True, lg_logQueue = False \<rparr>,
       pc_status =
         \<lparr> st_workingWindowMs = 30000, st_sleepingWindowMs = 10 * 60000,
           st_tickIntervalMs = 5000, st_subagentIdleWindowMs = 5 * 60000 \<rparr>,
       pc_redaction = default_redaction,
       pc_privacy = \<lparr> pv_payloadMode = ''metadata'' \<rparr>,
       pc_eventLog =
         \<lparr> el_enabled = True, el_path = ''.event-server/events.ndjson'', el_maxFileSizeMb = 30,
           el_format = ''full-json'', el_minLevel = ''debug'', el_includeRuntimeLogs = True \<rparr>,
       pc_security =
         \<lparr> sec_ws =
             \<lparr> ws_bindAddress = ''127.0.0.1'', ws_requireAuth = False, ws_authToken = None,
               ws_allowedOrigins = [], ws_allowedIps = [] \<rparr>,
           sec_hmac =
             \<lparr> hm_enabled = False, hm_secret = None,
               hm_secretFilePath = Some ''.event-plugin-hmac.secret'',
               hm_algorithm = ''sha256'' \<rparr> \<rparr>,
       pc_correlationIdHeader = ''X-Correlation-ID'',
       pc_webhookTimeoutMs = 10000,
       pc_hookBridge = default_hookBridge \<rparr>"

section \<open>Event types and parsing helpers\<close>

definition VALID_EVENT_TYPES :: "string list" where
  "VALID_EVENT_TYPES =
     [''message.received'', ''message.transcribed'', ''message.preprocessed'', ''message.sent'',
      ''message.edited'', ''message.deleted'', ''tool.called'', ''tool.guard.matched'',
      ''tool.guard.allowed'', ''tool.guard.blocked'', ''tool.completed'', ''tool.error'',
      ''tool.result_persist'', ''command.new'', ''command.reset'', ''command.stop'',
      ''session.start'', ''session.end'', ''session.before_compaction'',
      ''session.after_compaction'', ''subagent.spawning'', ''subagent.spawned'',
      ''subagent.ended'', ''subagent.idle'', ''agent.bootstrap'', ''agent.error'',
      ''agent.before_model_resolve'', ''agent.before_prompt_build'', ''agent.llm_input'',
      ''agent.llm_output'', ''agent.end'', ''agent.session_start'', ''agent.session_end'',
      ''agent.sub_agent_spawn'', ''agent.status'', ''agent.activity'', ''gateway.startup'',
      ''gateway.start'', ''gateway.stop'', ''session.spawned'', ''session.completed'',
      ''session.error'']"

definition isEventType :: "string \<Rightarrow> bool" where
  "isEventType v \<longleftrightarrow> v \<in> set VALID_EVENT_TYPES"

definition parseEventTypes :: "string \<Rightarrow> string list" where
  "parseEventTypes raw = filter isEventType (map js_trim (js_split (CHR '','') raw))"

definition isTrue :: "string \<Rightarrow> bool" where
  "isTrue v \<longleftrightarrow> v = ''true'' \<or> v = ''1''"

definition parseCsv :: "string option \<Rightarrow> string list option" where
  "parseCsv raw =
     (case raw of
        None \<Rightarrow> None
      | Some r \<Rightarrow>
          if r = [] then None
          else (let parsed = filter (\<lambda>v. v \<noteq> []) (map js_trim (js_split (CHR '','') r))
                in if parsed \<noteq> [] then Some parsed else None))"

definition loadSecretFromFile :: "host \<Rightarrow> string option \<Rightarrow> string option" where
  "loadSecretFromFile h p =
     (case p of
        None \<Rightarrow> None
      | Some f \<Rightarrow>
          if f = [] \<or> \<not> non_blank f then None
          else (case h_readFile h f of
                  None \<Rightarrow> None
                | Some content \<Rightarrow>
                    let raw = js_trim content in if raw \<noteq> [] then Some raw else None))"

section \<open>The webhook filter (config/validate.ts)\<close>

definition shouldFilterEvent ::
  "PluginConfig \<Rightarrow> string \<Rightarrow> string option \<Rightarrow> string option \<Rightarrow> string option \<Rightarrow> bool" where
  "shouldFilterEvent config eventType channelId toolName sessionId =
     (let filters = pc_filters config in
      if isEventType eventType \<and>
         (case fl_excludeTypes filters of None \<Rightarrow> False | Some ex \<Rightarrow> eventType \<in> set ex)
      then True
      else if (case fl_includeTypes filters of
                 None \<Rightarrow> False
               | Some inc \<Rightarrow> inc \<noteq> [] \<and> (\<not> isEventType eventType \<or> eventType \<notin> set inc))
      then True
      else if truthy_str (fl_channelId filters) \<and> fl_channelId filters \<noteq> channelId then True
      else if truthy_str (fl_toolName filters) \<and> fl_toolName filters \<noteq> toolName then True
      else if truthy_str (fl_sessionId filters) \<and> fl_sessionId filters \<noteq> sessionId then True
      else False)"

section \<open>Lemmas\<close>

lemma parseEventTypes_valid: "t \<in> set (parseEventTypes raw) \<Longrightarrow> isEventType t"
  by (simp add: parseEventTypes_def)

lemma parseCsv_Some:
  "parseCsv raw = Some xs \<Longrightarrow> xs \<noteq> [] \<and> (\<forall>x\<in>set xs. x \<noteq> [] \<and> js_trim x = x)"
  by (auto simp: parseCsv_def Let_def split: option.splits if_splits)

lemma loadSecretFromFile_Some:
  "loadSecretFromFile h p = Some s \<Longrightarrow> s \<noteq> [] \<and> non_blank s"
  by (auto simp: loadSecretFromFile_def Let_def non_blank_def split: option.splits if_splits)

text \<open>
  An event passes the webhook filter exactly when it is not an excluded known type, it is
  one of the included types if any are listed, and each of the channel, tool and session
  filters that is set is equal to the event's own value; an unset or empty filter accepts every
  event.
\<close>

theorem shouldFilterEvent_spec:
  "\<not> shouldFilterEvent c ty ch tool sess \<longleftrightarrow>
     \<not> (isEventType ty \<and> ty \<in> set (default_to [] (fl_excludeTypes (pc_filters c)))) \<and>
     (default_to [] (fl_includeTypes (pc_filters c)) = [] \<or>
       (isEventType ty \<and> ty \<in> set (default_to [] (fl_includeTypes (pc_filters c))))) \<and>
     (fl_channelId (pc_filters c) \<in> {None, Some [], ch}) \<and>
     (fl_toolName (pc_filters c) \<in> {None, Some [], tool}) \<and>
     (fl_sessionId (pc_filters c) \<in> {None, Some [], sess})"
  by (auto simp: shouldFilterEvent_def Let_def truthy_str_def split: option.splits)

end
