(* ===== verification/Validate.thy ===== *)
theory Validate imports Config begin

text \<open>
  Configuration validation, \<open>src/config/validate.ts\<close> and \<open>validate-hook-bridge.ts\<close>: every
  check appends its message to the list of errors, in the order of the source, and a
  configuration is valid when the list is empty. The tests that only reject values outside the
  declared types (non-arrays, non-finite numbers) cannot fail on the records of \<open>Config\<close>. The
  theorems show what a valid configuration guarantees to the components.
\<close>

definition reject_if :: "bool \<Rightarrow> string \<Rightarrow> string list" where
  "reject_if c msg = (if c then [msg] else [])"

definition outside :: "'a::linorder \<Rightarrow> 'a \<Rightarrow> 'a \<Rightarrow> bool" where
  "outside lo hi v \<longleftrightarrow> v < lo \<or> hi < v"

definition dquote :: string where
  "dquote = [CHR 0x22]"

fun check_indexed :: "(nat \<Rightarrow> 'a \<Rightarrow> string list) \<Rightarrow> nat \<Rightarrow> 'a list \<Rightarrow> string list" where
  "check_indexed f i [] = []"
| "check_indexed f i (x # xs) = f i x @ check_indexed f (Suc i) xs"

definition check_url :: "host \<Rightarrow> string \<Rightarrow> string \<Rightarrow> string \<Rightarrow> string list" where
  "check_url h url bad_protocol bad_format =
     (case h_url h url of
        None \<Rightarrow> [bad_format]
      | Some (protocol, _) \<Rightarrow> reject_if (protocol \<noteq> ''http:'' \<and> protocol \<noteq> ''https:'') bad_protocol)"

definition validate_transport :: "TransportConfig \<Rightarrow> string list" where
  "validate_transport t =
     reject_if (tc_mode t \<notin> {''auto'', ''owner'', ''follower''})
       ''Transport mode must be auto, owner, or follower'' @
     reject_if (\<not> non_blank (tc_lockPath t)) ''Transport lockPath cannot be empty'' @
     reject_if (\<not> non_blank (tc_socketPath t)) ''Transport socketPath cannot be empty'' @
     reject_if (tc_lockStaleMs t < 1000) ''Transport lockStaleMs must be at least 1000'' @
     reject_if (tc_heartbeatMs t < 250) ''Transport heartbeatMs must be at least 250'' @
     reject_if (tc_lockStaleMs t \<le> tc_heartbeatMs t)
       ''Transport heartbeatMs must be less than lockStaleMs'' @
     reject_if (tc_relayTimeoutMs t < 100) ''Transport relayTimeoutMs must be at least 100'' @
     reject_if (tc_reconnectBackoffMs t < 50)
       ''Transport reconnectBackoffMs must be at least 50'' @
     reject_if (tc_maxPendingEvents t < 1) ''Transport maxPendingEvents must be at least 1'' @
     reject_if (tc_maxPayloadBytes t < 1024)
       ''Transport maxPayloadBytes must be at least 1024'' @
     reject_if (tc_dedupeTtlMs t < 1000) ''Transport dedupeTtlMs must be at least 1000''"

definition validate_webhook :: "host \<Rightarrow> nat \<Rightarrow> WebhookConfig \<Rightarrow> string list" where
  "validate_webhook h index webhook =
     (let label = ''Webhook '' @ show_nat index @ '': '' in
      (if \<not> non_blank (wh_url webhook) then [label @ ''URL is required'']
       else check_url h (wh_url webhook)
              (label @ ''Only HTTP and HTTPS protocols are allowed'')
              (label @ ''Invalid URL format'')) @
      reject_if (truthy_str (wh_method webhook) \<and>
             wh_method webhook \<notin> {Some ''POST'', Some ''PUT'', Some ''PATCH''})
        (label @ ''Invalid HTTP method. Must be POST, PUT, or PATCH''))"

definition validate_delivery :: "PluginConfig \<Rightarrow> string list" where
  "validate_delivery c =
     reject_if (outside 0 10 (rt_maxAttempts (pc_retry c)))
       ''Retry maxAttempts must be between 0 and 10'' @
     reject_if (outside 100 10000 (rt_initialDelayMs (pc_retry c)))
       ''Retry initialDelayMs must be between 100 and 10000'' @
     reject_if (outside 1000 300000 (rt_maxDelayMs (pc_retry c)))
       ''Retry maxDelayMs must be between 1000 and 300000'' @
     reject_if (outside 1 5 (rt_backoffMultiplier (pc_retry c)))
       ''Retry backoffMultiplier must be between 1 and 5'' @
     reject_if (outside 10 10000 (qc_maxSize (pc_queue c)))
       ''Queue maxSize must be between 10 and 10000'' @
     reject_if (outside 100 60000 (qc_flushIntervalMs (pc_queue c)))
       ''Queue flushIntervalMs must be between 100 and 60000''"

definition validate_status :: "StatusConfig \<Rightarrow> string list" where
  "validate_status s =
     reject_if (outside 1000 120000 (st_workingWindowMs s))
       ''Status workingWindowMs must be between 1000 and 120000'' @
     reject_if (outside 10000 86400000 (st_sleepingWindowMs s))
       ''Status sleepingWindowMs must be between 10000 and 86400000'' @
     reject_if (st_sleepingWindowMs s \<le> st_workingWindowMs s)
       ''Status sleepingWindowMs must be greater than workingWindowMs'' @
     reject_if (outside 1000 60000 (st_tickIntervalMs s))
       ''Status tickIntervalMs must be between 1000 and 60000'' @
     reject_if (outside 10000 86400000 (st_subagentIdleWindowMs s))
       ''Status subagentIdleWindowMs must be between 10000 and 86400000''"

definition validate_outputs :: "PluginConfig \<Rightarrow> string list" where
  "validate_outputs c =
     reject_if (\<not> non_blank (rd_replacement (pc_redaction c)))
       ''Redaction replacement cannot be empty'' @
     reject_if (list_ex (\<lambda>f. \<not> non_blank f) (rd_fields (pc_redaction c)))
       ''Redaction fields cannot contain empty values'' @
     reject_if (pv_payloadMode (pc_privacy c) \<notin> {''metadata'', ''full''})
       ''Privacy payloadMode must be metadata or full'' @
     reject_if (\<not> non_blank (el_path (pc_eventLog c))) ''Event log path cannot be empty'' @
     reject_if (el_format (pc_eventLog c) \<notin> {''full-json'', ''summary''})
       ''Event log format must be full-json or summary'' @
     reject_if (el_minLevel (pc_eventLog c) \<notin> {''debug'', ''info'', ''warn'', ''error''})
       ''Event log minLevel must be debug, info, warn, or error'' @
     reject_if (outside 1 1024 (el_maxFileSizeMb (pc_eventLog c)))
       ''Event log maxFileSizeMb must be between 1 and 1024''"

definition validate_security :: "host \<Rightarrow> PluginConfig \<Rightarrow> string list" where
  "validate_security h c =
     (let ws = sec_ws (pc_security c); hm = sec_hmac (pc_security c) in
      reject_if (\<not> non_blank (ws_bindAddress ws)) ''Security ws.bindAddress cannot be empty'' @
      reject_if (ws_requireAuth ws \<and> \<not> non_blank_opt (ws_authToken ws))
        ''Security ws.authToken is required when ws.requireAuth is true'' @
      reject_if (hm_enabled hm \<and> \<not> non_blank_opt (hm_secret hm) \<and>
             \<not> truthy_str (loadSecretFromFile h (hm_secretFilePath hm)))
        ''Security hmac.secret or hmac.secretFilePath is required when hmac.enabled is true'' @
      reject_if (hm_algorithm hm \<notin> {''sha256'', ''sha512''})
        ''Security hmac.algorithm must be sha256 or sha512'' @
      reject_if (outside 1000 60000 (pc_webhookTimeoutMs c))
        ''Webhook timeout must be between 1000 and 60000 ms'' @
      reject_if (\<not> non_blank (pc_correlationIdHeader c))
        ''Correlation ID header name cannot be empty'')"

section \<open>Hook bridge (validate-hook-bridge.ts)\<close>

definition validateRuleWhen :: "host \<Rightarrow> HookBridgeRuleWhen \<Rightarrow> string \<Rightarrow> string list" where
  "validateRuleWhen h w scope =
     reject_if (case w_idleForMsGte w of None \<Rightarrow> False | Some n \<Rightarrow> n < 0)
       (scope @ '': idleForMsGte must be >= 0'') @
     concat (map (\<lambda>(path, pattern). reject_if (h_regex h pattern = None)
         (scope @ '': matchesRegex pattern at '' @ dquote @ path @ dquote @ '' is invalid''))
       (default_to [] (w_matchesRegex w))) @
     concat (map (\<lambda>(path, pattern). reject_if (h_regex h pattern = None)
         (scope @ '': notMatchesRegex pattern at '' @ dquote @ path @ dquote @ '' is invalid''))
       (default_to [] (w_notMatchesRegex w))) @
     reject_if (list_ex (\<lambda>v. \<not> non_blank v) (default_to [] (w_requiredPaths w)))
       (scope @ '': requiredPaths must be non-empty strings'') @
     concat (map (\<lambda>(path, ty).
         reject_if (ty \<notin> {''string'', ''number'', ''boolean'', ''object'', ''array''})
           (scope @ '': typeChecks at '' @ dquote @ path @ dquote @
            '' must be string|number|boolean|object|array''))
       (default_to [] (w_typeChecks w))) @
     concat (map (\<lambda>(path, vs). reject_if (vs = [])
         (scope @ '': inList at '' @ dquote @ path @ dquote @ '' must be a non-empty array''))
       (default_to [] (w_inList w))) @
     concat (map (\<lambda>(path, vs). reject_if (vs = [])
         (scope @ '': notInList at '' @ dquote @ path @ dquote @ '' must be a non-empty array''))
       (default_to [] (w_notInList w))) @
     reject_if (list_ex (\<lambda>v. \<not> non_blank v) (default_to [] (w_domainAllowlist w)))
       (scope @ '': domainAllowlist must be non-empty strings'') @
     reject_if (list_ex (\<lambda>v. \<not> non_blank v) (default_to [] (w_domainBlocklist w)))
       (scope @ '': domainBlocklist must be non-empty strings'')"

definition validate_bridge_limits :: "HookBridgeConfig \<Rightarrow> string list" where
  "validate_bridge_limits b =
     (let ls = hb_localScriptDefaults b; rt = hb_runtime b; tl = hb_telemetry b; tg = hb_toolGuard b in
      reject_if (ls_timeoutMs ls < 1000)
        ''Hook bridge localScriptDefaults.timeoutMs must be at least 1000'' @
      reject_if (ls_maxPayloadBytes ls < 1024)
        ''Hook bridge localScriptDefaults.maxPayloadBytes must be at least 1024'' @
      reject_if (outside 1 100000 (hr_maxPendingEvents rt))
        ''Hook bridge runtime.maxPendingEvents must be between 1 and 100000'' @
      reject_if (outside 1 1024 (hr_concurrency rt))
        ''Hook bridge runtime.concurrency must be between 1 and 1024'' @
      reject_if (hr_dropPolicy rt \<notin> {''drop_oldest'', ''drop_newest''})
        ''Hook bridge runtime.dropPolicy must be drop_oldest or drop_newest'' @
      reject_if (outside 1 600000 (ht_slowActionMs tl))
        ''Hook bridge telemetry.slowActionMs must be between 1 and 600000'' @
      reject_if (outside 1000 3600000 (ht_failureRateWindowMs tl))
        ''Hook bridge telemetry.failureRateWindowMs must be between 1000 and 3600000'' @
      reject_if (outside 0 100 (ht_failureRateThresholdPct tl))
        ''Hook bridge telemetry.failureRateThresholdPct must be between 0 and 100'' @
      reject_if (outside 1 100000 (ht_failureRateMinSamples tl))
        ''Hook bridge telemetry.failureRateMinSamples must be between 1 and 100000'' @
      reject_if (outside 100 3600000 (ht_saturationWindowMs tl))
        ''Hook bridge telemetry.saturationWindowMs must be between 100 and 3600000'' @
      (if ht_highWatermarks tl = []
       then [''Hook bridge telemetry.highWatermarks must be a non-empty array'']
       else reject_if (list_ex (\<lambda>v. v \<le> 0 \<or> 100 < v) (ht_highWatermarks tl))
         ''Hook bridge telemetry.highWatermarks values must be integers between 1 and 100'') @
      reject_if (outside 100 120000 (tg_timeoutMs tg))
        ''Hook bridge toolGuard.timeoutMs must be between 100 and 120000'' @
      reject_if (tg_onError tg \<notin> {''allow'', ''block''})
        ''Hook bridge toolGuard.onError must be allow or block'' @
      reject_if (default_to ''tool_and_params'' (tg_scopeKeyBy tg) \<notin> {''tool'', ''tool_and_params''})
        ''Hook bridge toolGuard.scopeKeyBy must be tool or tool_and_params'' @
      reject_if (outside 0 3600000 (tg_retryBackoffMs tg))
        ''Hook bridge toolGuard.retryBackoffMs must be between 0 and 3600000'' @
      reject_if (outside 0 86400000 (tg_approvalCacheTtlMs tg))
        ''Hook bridge toolGuard.approvalCacheTtlMs must be between 0 and 86400000'' @
      reject_if (\<not> non_blank (rd_replacement (tg_redaction tg)))
        ''Hook bridge toolGuard.redaction.replacement cannot be empty'')"

definition validate_action_dir :: "host \<Rightarrow> nat \<Rightarrow> string \<Rightarrow> string list" where
  "validate_action_dir h index dir =
     (let label = ''Hook bridge allowedActionDirs['' @ show_nat index @ '']'' in
      if \<not> non_blank dir then [label @ '' cannot be empty'']
      else reject_if (\<not> h_isAbsolute h dir) (label @ '' must be an absolute path''))"

definition validate_action :: "host \<Rightarrow> string \<times> HookBridgeAction \<Rightarrow> string list" where
  "validate_action h entry =
     (let actionId = fst entry;
          label = ''Hook bridge action '' @ dquote @ actionId @ dquote in
      reject_if (\<not> non_blank actionId) ''Hook bridge actions cannot use an empty action ID'' @
      (case snd entry of
         WebhookAction a \<Rightarrow>
           (if \<not> non_blank (wa_url a) then [label @ '' requires a webhook URL'']
            else check_url h (wa_url a) (label @ '' webhook URL must use HTTP or HTTPS'')
                   (label @ '' webhook URL is invalid'')) @
           reject_if (case wa_timeoutMs a of None \<Rightarrow> False | Some t \<Rightarrow> outside 100 120000 t)
             (label @ '' timeoutMs must be between 100 and 120000'')
       | LocalScriptAction a \<Rightarrow>
           (if \<not> non_blank (sa_path a) then [label @ '' requires a script path'']
            else reject_if (\<not> h_isAbsolute h (sa_path a))
                   (label @ '' script path must be absolute'')) @
           reject_if (case sa_timeoutMs a of None \<Rightarrow> False | Some t \<Rightarrow> outside 100 120000 t)
             (label @ '' timeoutMs must be between 100 and 120000'') @
           reject_if (case sa_maxPayloadBytes a of None \<Rightarrow> False | Some n \<Rightarrow> outside 1024 1048576 n)
             (label @ '' maxPayloadBytes must be between 1024 and 1048576'')))"

definition validate_coalesce :: "nat \<Rightarrow> HookBridgeRuleCoalesce \<Rightarrow> string list" where
  "validate_coalesce index co =
     (let label = ''Hook bridge rule '' @ show_nat index in
      reject_if (case co_windowMs co of None \<Rightarrow> False | Some w \<Rightarrow> w < 1)
        (label @ '': coalesce.windowMs must be >= 1'') @
      reject_if (co_strategy co \<notin> {None, Some ''first'', Some ''latest''})
        (label @ '': coalesce.strategy must be first or latest'') @
      reject_if (list_ex (\<lambda>v. \<not> non_blank v) (default_to [] (co_keyFields co)))
        (label @ '': coalesce.keyFields must be non-empty strings''))"

definition validate_rule :: "host \<Rightarrow> HookBridgeConfig \<Rightarrow> nat \<Rightarrow> HookBridgeRule \<Rightarrow> string list" where
  "validate_rule h b index rule =
     (let label = ''Hook bridge rule '' @ show_nat index in
      reject_if (\<not> non_blank (hbr_id rule)) (label @ '': id is required'') @
      (if \<not> non_blank (hbr_action rule) then [label @ '': action is required'']
       else reject_if (map_of (hb_actions b) (hbr_action rule) = None)
              (label @ '': action '' @ dquote @ hbr_action rule @ dquote @ '' is not registered'')) @
      reject_if (case hbr_cooldownMs rule of None \<Rightarrow> False | Some c \<Rightarrow> c < 0)
        (label @ '': cooldownMs must be >= 0'') @
      (case hbr_coalesce rule of
         None \<Rightarrow> []
       | Some co \<Rightarrow> if co_enabled co then validate_coalesce index co else []) @
      validateRuleWhen h (hbr_when rule) label)"

definition validate_guard_rule ::
  "host \<Rightarrow> HookBridgeConfig \<Rightarrow> nat \<Rightarrow> HookBridgeToolGuardRule \<Rightarrow> string list" where
  "validate_guard_rule h b index rule =
     (let label = ''Hook bridge toolGuard rule '' @ show_nat index;
          hasAction = non_blank_opt (gr_action rule) in
      reject_if (\<not> non_blank (gr_id rule)) (label @ '': id is required'') @
      reject_if (\<not> hasAction \<and> gr_decision rule = None)
        (label @ '': action or decision is required'') @
      reject_if (hasAction \<and> map_of (hb_actions b) (default_to [] (gr_action rule)) = None)
        (label @ '': action '' @ dquote @ default_to [] (gr_action rule) @ dquote @
         '' is not registered'') @
      reject_if (case gr_cooldownMs rule of None \<Rightarrow> False | Some c \<Rightarrow> c < 0)
        (label @ '': cooldownMs must be >= 0'') @
      validateRuleWhen h (gr_when rule) label)"

definition validateHookBridgeConfig :: "host \<Rightarrow> HookBridgeConfig \<Rightarrow> string list" where
  "validateHookBridgeConfig h b =
     validate_bridge_limits b @
     (if hb_enabled b \<or> tg_enabled (hb_toolGuard b)
      then check_indexed (validate_action_dir h) 0 (hb_allowedActionDirs b) @
           concat (map (validate_action h) (hb_actions b)) @
           check_indexed (validate_rule h b) 0 (hb_rules b)
      else []) @
     (if tg_enabled (hb_toolGuard b)
      then check_indexed (validate_guard_rule h b) 0 (tg_rules (hb_toolGuard b))
      else [])"

definition validateConfig :: "host \<Rightarrow> PluginConfig \<Rightarrow> bool \<times> string list" where
  "validateConfig h c =
     (let errors = validate_transport (pc_transport c) @
            check_indexed (validate_webhook h) 0 (pc_webhooks c) @
            validate_delivery c @ validate_status (pc_status c) @ validate_outputs c @
            validate_security h c @ validateHookBridgeConfig h (pc_hookBridge c)
      in (errors = [], errors))"

section \<open>Lemmas\<close>

lemma reject_if_empty [simp]: "reject_if c msg = [] \<longleftrightarrow> \<not> c"
  by (simp add: reject_if_def)

lemma check_indexed_empty:
  "check_indexed f i xs = [] \<longleftrightarrow> (\<forall>k < length xs. f (i + k) (xs ! k) = [])"
proof (induction xs arbitrary: i)
  case Nil
  then show ?case by simp
next
  case (Cons x xs)
  have "(\<forall>k < length (x # xs). f (i + k) ((x # xs) ! k) = []) \<longleftrightarrow>
      f i x = [] \<and> (\<forall>k < length xs. f (Suc i + k) (xs ! k) = [])"
    by (simp add: All_less_Suc2)
  with Cons show ?case by simp
qed

lemma check_indexed_all:
  "check_indexed f i xs = [] \<Longrightarrow> x \<in> set xs \<Longrightarrow> \<exists>k. f k x = []"
  by (auto simp: check_indexed_empty in_set_conv_nth)

lemma valid_parts:
  "fst (validateConfig h c) \<longleftrightarrow>
     validate_transport (pc_transport c) = [] \<and>
     check_indexed (validate_webhook h) 0 (pc_webhooks c) = [] \<and>
     validate_delivery c = [] \<and> validate_status (pc_status c) = [] \<and>
     validate_outputs c = [] \<and> validate_security h c = [] \<and>
     validateHookBridgeConfig h (pc_hookBridge c) = []"
  by (simp add: validateConfig_def Let_def)

lemma validate_transport_sound:
  assumes "validate_transport t = []"
  shows "1000 \<le> tc_lockStaleMs t" "250 \<le> tc_heartbeatMs t" "tc_heartbeatMs t < tc_lockStaleMs t"
    "50 \<le> tc_reconnectBackoffMs t" "1 \<le> tc_maxPendingEvents t" "1000 \<le> tc_dedupeTtlMs t"
    "tc_mode t \<in> {''auto'', ''owner'', ''follower''}"
  using assms unfolding validate_transport_def by (simp_all add: not_less not_le)

lemma validate_bridge_sound:
  assumes "validateHookBridgeConfig h b = []"
  shows "1 \<le> hr_maxPendingEvents (hb_runtime b)" "1 \<le> hr_concurrency (hb_runtime b)"
    "hr_dropPolicy (hb_runtime b) \<in> {''drop_oldest'', ''drop_newest''}"
    "0 \<le> tg_retryBackoffMs (hb_toolGuard b)" "0 \<le> tg_approvalCacheTtlMs (hb_toolGuard b)"
    "tg_onError (hb_toolGuard b) \<in> {''allow'', ''block''}"
  using assms unfolding validateHookBridgeConfig_def validate_bridge_limits_def Let_def outside_def
  by (simp_all add: not_less not_le)

lemma valid_rule_registered:
  assumes "validateHookBridgeConfig h b = []" and "hb_enabled b \<or> tg_enabled (hb_toolGuard b)"
    and "rule \<in> set (hb_rules b)"
  shows "mhas (hb_actions b) (hbr_action rule)"
proof -
  from assms obtain i where "validate_rule h b i rule = []"
    using check_indexed_all [of "validate_rule h b" 0 "hb_rules b" rule]
    by (auto simp: validateHookBridgeConfig_def)
  then show ?thesis by (auto simp: validate_rule_def Let_def split: if_splits)
qed

lemma valid_guard_rule:
  assumes "validateHookBridgeConfig h b = []" and "tg_enabled (hb_toolGuard b)"
    and "rule \<in> set (tg_rules (hb_toolGuard b))"
  shows "case gr_action rule of
       Some a \<Rightarrow> non_blank a \<longrightarrow> mhas (hb_actions b) a
     | None \<Rightarrow> gr_decision rule \<noteq> None"
proof -
  from assms obtain i where "validate_guard_rule h b i rule = []"
    using check_indexed_all [of "validate_guard_rule h b" 0 "tg_rules (hb_toolGuard b)" rule]
    by (auto simp: validateHookBridgeConfig_def)
  then show ?thesis by (auto simp: validate_guard_rule_def Let_def split: option.splits if_splits)
qed

lemma valid_script_absolute:
  assumes "validateHookBridgeConfig h b = []" and "hb_enabled b \<or> tg_enabled (hb_toolGuard b)"
    and "(i, LocalScriptAction a) \<in> set (hb_actions b)"
  shows "h_isAbsolute h (sa_path a)"
proof -
  have "validate_action h (i, LocalScriptAction a) = []"
    using assms by (auto simp: validateHookBridgeConfig_def)
  then show ?thesis by (auto simp: validate_action_def Let_def split: if_splits)
qed

text \<open>
  The default configuration passes its own validation, on every host.
\<close>

theorem default_config_valid: "fst (validateConfig h DEFAULT_CONFIG)"
proof -
  have "validate_transport default_transport = []" by code_simp
  moreover have "validate_delivery DEFAULT_CONFIG = []" by code_simp
  moreover have "validate_status (pc_status DEFAULT_CONFIG) = []" by code_simp
  moreover have "validate_outputs DEFAULT_CONFIG = []" by code_simp
  moreover have "validate_bridge_limits default_hookBridge = []" by code_simp
  moreover have "validate_security h DEFAULT_CONFIG = []"
    by (simp add: validate_security_def DEFAULT_CONFIG_def reject_if_def non_blank_def js_trim_def js_ws_def outside_def)
  ultimately show ?thesis
    unfolding valid_parts
    by (simp add: DEFAULT_CONFIG_def validateHookBridgeConfig_def default_hookBridge_def default_toolGuard_def)
qed

definition sample_bridge :: HookBridgeConfig where
  "sample_bridge = default_hookBridge
     \<lparr> hb_enabled := True,
       hb_actions := [(''notify'', LocalScriptAction
         \<lparr> sa_path = ''/opt/notify'', sa_args = None, sa_timeoutMs = None, sa_maxPayloadBytes = None \<rparr>)],
       hb_rules := [\<lparr> hbr_id = ''r1'', hbr_enabled = None, hbr_when = any_when,
         hbr_action = ''notify'', hbr_cooldownMs = None, hbr_coalesce = None \<rparr>] \<rparr>"

definition sample_host :: host where
  "sample_host =
     \<lparr> h_url = (\<lambda>u. Some (''https:'', ''example.org'')), h_regex = (\<lambda>r. Some (\<lambda>s. r = s)),
       h_locale = code_unit_le, h_realpath = (\<lambda>p. Some p), h_resolve = (\<lambda>p. p),
       h_isAbsolute = (\<lambda>p. starts_with p ''/''), h_readFile = (\<lambda>p. None) \<rparr>"

text \<open>
  What a validated configuration guarantees the hook bridge: every rule names a registered
  action, every local script has an absolute path, and every tool guard rule names a registered
  action or carries an inline decision.
\<close>

theorem valid_config_sound:
  assumes valid: "fst (validateConfig h c)" and b: "b = pc_hookBridge c"
  shows "(hb_enabled b \<or> tg_enabled (hb_toolGuard b) \<longrightarrow>
       (\<forall>rule \<in> set (hb_rules b). mhas (hb_actions b) (hbr_action rule)) \<and>
       (\<forall>i a. (i, LocalScriptAction a) \<in> set (hb_actions b) \<longrightarrow> h_isAbsolute h (sa_path a))) \<and>
     (tg_enabled (hb_toolGuard b) \<longrightarrow> (\<forall>rule \<in> set (tg_rules (hb_toolGuard b)).
       (case gr_action rule of
          Some a \<Rightarrow> non_blank a \<longrightarrow> mhas (hb_actions b) a
        | None \<Rightarrow> gr_decision rule \<noteq> None)))"
proof -
  have v: "validateHookBridgeConfig h b = []" using valid b by (simp add: valid_parts)
  show ?thesis
    using valid_rule_registered [OF v] valid_guard_rule [OF v] valid_script_absolute [OF v] by blast
qed

theorem valid_config_sound_witness:
  "mhas (hb_actions sample_bridge) ''notify'' \<and> h_isAbsolute sample_host ''/opt/notify''"
proof -
  have "fst (validateConfig sample_host (DEFAULT_CONFIG\<lparr>pc_hookBridge := sample_bridge\<rparr>))"
    by code_simp
  from valid_config_sound [OF this refl] show ?thesis
    by (simp add: sample_bridge_def)
qed

end
