(* ===== verification/RuntimeConfig.thy ===== *)
theory RuntimeConfig imports Validate begin

text \<open>
  Resolution of the runtime-only settings (\<open>resolveRuntimeConfig\<close> of \<open>src/config/validate.ts\<close>,
  \<open>src/config/runtime-paths.ts\<close>) and event signing (\<open>src/events/signing.ts\<close>). The
  \<open>node:path\<close>, \<open>node:os\<close> and \<open>node:crypto\<close> functions, the environment and the platform are
  the fields of \<open>platform\<close>.
\<close>

record platform =
  pl_win32 :: bool
  pl_env :: "string \<Rightarrow> string option"
  pl_isAbsolute :: "string \<Rightarrow> bool"
  pl_resolve :: "string list \<Rightarrow> string"
  pl_dirname :: "string \<Rightarrow> string"
  pl_extname :: "string \<Rightarrow> string"
  pl_homedir :: string
  pl_tmpdir :: string
  pl_sha256hex :: "string \<Rightarrow> string"
  pl_hmac :: "string \<Rightarrow> string \<Rightarrow> string \<Rightarrow> string"

section \<open>Paths\<close>

definition MAX_UNIX_SOCKET_PATH_LENGTH :: nat where
  "MAX_UNIX_SOCKET_PATH_LENGTH = 100"

definition resolveRelativeRuntimePath :: "platform \<Rightarrow> string \<Rightarrow> string" where
  "resolveRelativeRuntimePath pl rawPath =
     (let trimmedPath = js_trim rawPath;
          stateDir = map_option js_trim (pl_env pl ''OPENCLAW_STATE_DIR'');
          configPath = map_option js_trim (pl_env pl ''OPENCLAW_CONFIG_PATH'') in
      if trimmedPath = [] \<or> pl_isAbsolute pl trimmedPath then rawPath
      else if truthy_str stateDir then pl_resolve pl [default_to [] stateDir, trimmedPath]
      else if truthy_str configPath
      then pl_resolve pl [pl_dirname pl (default_to [] configPath), trimmedPath]
      else pl_resolve pl [pl_homedir pl, ''.openclaw'', trimmedPath])"

definition ascii_letter :: "char \<Rightarrow> bool" where
  "ascii_letter c \<longleftrightarrow> (let n = (of_char c :: nat) in (65 \<le> n \<and> n \<le> 90) \<or> (97 \<le> n \<and> n \<le> 122))"

definition pipe_char :: "char \<Rightarrow> bool" where
  "pipe_char c \<longleftrightarrow> ascii_letter c \<or> (let n = (of_char c :: nat) in 48 \<le> n \<and> n \<le> 57) \<or>
     c \<in> {CHR ''.'', CHR ''_'', CHR ''-''}"

text \<open>\<open>replace(/^[A-Za-z]:/, '')\<close> and \<open>replace(/[^A-Za-z0-9._-]+/g, '-')\<close>.\<close>

fun drop_drive :: "string \<Rightarrow> string" where
  "drop_drive (c # d # s) = (if ascii_letter c \<and> d = CHR '':'' then s else c # d # s)"
| "drop_drive s = s"

fun dash_runs :: "bool \<Rightarrow> string \<Rightarrow> string" where
  "dash_runs inRun [] = []"
| "dash_runs inRun (c # s) =
     (if pipe_char c then c # dash_runs False s
      else if inRun then dash_runs True s else CHR ''-'' # dash_runs True s)"

definition sanitizePipeName :: "string \<Rightarrow> string" where
  "sanitizePipeName pathValue =
     take 200 (dropWhile (\<lambda>c. c = CHR ''-'') (dash_runs False (drop_drive pathValue)))"

definition pipe_prefix :: string where
  "pipe_prefix = [CHR 0x5C, CHR 0x5C, CHR ''.'', CHR 0x5C] @ ''pipe'' @ [CHR 0x5C]"

definition resolveTransportSocketPath :: "platform \<Rightarrow> string \<Rightarrow> string" where
  "resolveTransportSocketPath pl rawPath =
     (if \<not> pl_win32 pl then
        let resolvedPath = resolveRelativeRuntimePath pl rawPath in
        if length resolvedPath \<le> MAX_UNIX_SOCKET_PATH_LENGTH then resolvedPath
        else let hash = take 16 (pl_sha256hex pl resolvedPath);
                 ext = pl_extname pl resolvedPath;
                 suffix = (if ext = [] then ''.sock'' else ext)
             in pl_resolve pl [pl_tmpdir pl, ''openclaw-event-'' @ hash @ suffix]
      else let trimmedPath = js_trim rawPath in
        if starts_with trimmedPath pipe_prefix then trimmedPath
        else let name = sanitizePipeName (resolveRelativeRuntimePath pl rawPath)
             in pipe_prefix @ (if name = [] then ''openclaw-event-server'' else name))"

section \<open>Runtime configuration\<close>

definition resolvedSecret :: "host \<Rightarrow> HmacSecurityConfig \<Rightarrow> string option" where
  "resolvedSecret h hm = nullish (hm_secret hm) (loadSecretFromFile h (hm_secretFilePath hm))"

definition resolveRuntimeConfig :: "host \<Rightarrow> platform \<Rightarrow> PluginConfig \<Rightarrow> PluginConfig" where
  "resolveRuntimeConfig h pl c =
     (let hm = sec_hmac (pc_security c); q = pc_queue c; t = pc_transport c; el = pc_eventLog c in
      c\<lparr> pc_queue :=
           (if truthy_str (qc_persistPath q)
            then q\<lparr>qc_persistPath := map_option (resolveRelativeRuntimePath pl) (qc_persistPath q)\<rparr> else q),
         pc_transport :=
           t\<lparr> tc_lockPath := resolveRelativeRuntimePath pl (tc_lockPath t),
              tc_socketPath := resolveTransportSocketPath pl (tc_socketPath t) \<rparr>,
         pc_eventLog := el\<lparr>el_path := resolveRelativeRuntimePath pl (el_path el)\<rparr>,
         pc_security := (pc_security c)\<lparr> sec_hmac :=
           (if truthy_str (resolvedSecret h hm) then hm\<lparr>hm_secret := resolvedSecret h hm\<rparr> else hm) \<rparr> \<rparr>)"

section \<open>Signing (events/signing.ts)\<close>

definition toSignablePayload :: "jsobj \<Rightarrow> int \<Rightarrow> string \<Rightarrow> string" where
  "toSignablePayload ev timestamp nonce =
     default_to ''undefined'' (json_stringify (JObj
       [(''timestamp'', JNum timestamp), (''nonce'', JStr nonce),
        (''payload'', JObj (mput ''signature'' JUndef ev))]))"

text \<open>\<open>timestamp\<close> is the current time in seconds and \<open>nonce\<close> the random UUID.\<close>

definition signEvent :: "platform \<Rightarrow> int \<Rightarrow> string \<Rightarrow> jsobj \<Rightarrow> HmacSecurityConfig \<Rightarrow> jsobj" where
  "signEvent pl timestamp nonce ev config =
     (if \<not> hm_enabled config \<or> \<not> truthy_str (hm_secret config) then ev
      else let raw = toSignablePayload ev timestamp nonce;
               value = pl_hmac pl (hm_algorithm config) (default_to [] (hm_secret config)) raw
           in mput ''signature''
                (JObj [(''version'', JStr ''v1''), (''algorithm'', JStr (hm_algorithm config)),
                       (''timestamp'', JNum timestamp), (''nonce'', JStr nonce), (''value'', JStr value)]) ev)"

section \<open>Lemmas\<close>

lemma json_fields_drop_undef:
  "json_fields (mput k JUndef (mput k v kvs)) = json_fields (mput k JUndef kvs)"
  by (induction kvs) auto

lemma signable_ignores_signature: "toSignablePayload (mput ''signature'' v ev) ts n = toSignablePayload ev ts n"
  by (simp add: toSignablePayload_def json_fields_drop_undef)

lemma set_dash_runs: "c \<in> set (dash_runs b s) \<Longrightarrow> pipe_char c"
  by (induction b s rule: dash_runs.induct) (auto split: if_splits simp: pipe_char_def)

lemma sanitizePipeName_chars: "c \<in> set (sanitizePipeName s) \<Longrightarrow> pipe_char c"
  by (auto simp: sanitizePipeName_def dest!: in_set_takeD set_dropWhileD dest: set_dash_runs)

lemma length_sanitizePipeName: "length (sanitizePipeName s) \<le> 200"
  by (simp add: sanitizePipeName_def)

lemma valid_hmac_secret:
  assumes "fst (validateConfig h c)" and "hm_enabled (sec_hmac (pc_security c))"
    and "hm_secret (sec_hmac (pc_security c)) \<noteq> Some []"
  shows "truthy_str (resolvedSecret h (sec_hmac (pc_security c)))"
  using assms
  by (cases "hm_secret (sec_hmac (pc_security c))")
     (auto simp: valid_parts validate_security_def Let_def resolvedSecret_def)

definition signed_config :: PluginConfig where
  "signed_config = DEFAULT_CONFIG\<lparr>pc_security := (pc_security DEFAULT_CONFIG)
     \<lparr>sec_hmac := (sec_hmac (pc_security DEFAULT_CONFIG))\<lparr>hm_enabled := True, hm_secret := Some ''k''\<rparr>\<rparr>\<rparr>"

lemma signed_config_valid: "fst (validateConfig sample_host signed_config)"
  by code_simp

definition sample_platform :: platform where
  "sample_platform =
     \<lparr> pl_win32 = False, pl_env = (\<lambda>k. None), pl_isAbsolute = (\<lambda>p. starts_with p ''/''),
       pl_resolve = (\<lambda>ps. js_join ''/'' ps), pl_dirname = (\<lambda>p. p), pl_extname = (\<lambda>p. ''.sock''),
       pl_homedir = ''/home/u'', pl_tmpdir = ''/tmp'', pl_sha256hex = (\<lambda>s. ''0123456789abcdef''),
       pl_hmac = (\<lambda>a k s. a @ k) \<rparr>"

text \<open>
  Validated signing: with HMAC enabled in a validated configuration and no empty secret
  configured, the runtime configuration has a secret, so every event leaves with a signature.
\<close>

theorem validated_hmac_signs:
  assumes "fst (validateConfig h c)" and "hm_enabled (sec_hmac (pc_security c))"
    and "hm_secret (sec_hmac (pc_security c)) \<noteq> Some []"
  shows "isRecord (oget (signEvent pl ts nonce ev (sec_hmac (pc_security (resolveRuntimeConfig h pl c)))) ''signature'')"
  using valid_hmac_secret [OF assms] assms(2)
  by (simp add: resolveRuntimeConfig_def Let_def signEvent_def)

theorem validated_hmac_signs_witness:
  "isRecord (oget (signEvent sample_platform 7 ''n'' []
     (sec_hmac (pc_security (resolveRuntimeConfig sample_host sample_platform signed_config)))) ''signature'')"
  by (rule validated_hmac_signs [OF signed_config_valid]) (simp_all add: signed_config_def)

text \<open>
  The exception: an empty secret is accepted by the validation when the secret file
  can be read, but the resolution keeps the empty secret, and events leave unsigned.
\<close>

theorem empty_secret_unsigned:
  assumes "hm_secret (sec_hmac (pc_security c)) = Some []"
    and "loadSecretFromFile h (hm_secretFilePath (sec_hmac (pc_security c))) = Some secret"
  shows "signEvent pl ts nonce ev (sec_hmac (pc_security (resolveRuntimeConfig h pl c))) = ev"
  using assms by (simp add: resolveRuntimeConfig_def Let_def signEvent_def resolvedSecret_def)

definition empty_secret_config :: PluginConfig where
  "empty_secret_config = signed_config\<lparr>pc_security := (pc_security signed_config)
     \<lparr>sec_hmac := (sec_hmac (pc_security signed_config))\<lparr>hm_secret := Some []\<rparr>\<rparr>\<rparr>"

definition secret_host :: host where
  "secret_host = sample_host\<lparr>h_readFile := (\<lambda>p. Some ''k'')\<rparr>"

theorem empty_secret_unsigned_witness:
  "fst (validateConfig secret_host empty_secret_config) \<and>
   signEvent sample_platform 7 ''n'' [] (sec_hmac (pc_security
     (resolveRuntimeConfig secret_host sample_platform empty_secret_config))) = []"
proof
  show "fst (validateConfig secret_host empty_secret_config)" by code_simp
  have "loadSecretFromFile secret_host (hm_secretFilePath (sec_hmac (pc_security empty_secret_config))) = Some ''k''"
    by code_simp
  then show "signEvent sample_platform 7 ''n'' [] (sec_hmac (pc_security
     (resolveRuntimeConfig secret_host sample_platform empty_secret_config))) = []"
    by (rule empty_secret_unsigned [rotated]) (simp add: empty_secret_config_def)
qed

text \<open>
  The transport address is always one the platform can bind, as far as the code decides
  it: a named pipe has at most 200 characters after the prefix, all of them safe, unless the
  user configured a pipe name; on Unix a path longer than 100 characters is replaced.
\<close>

theorem socket_path_bounds:
  shows "(\<not> pl_win32 pl \<longrightarrow> length (resolveTransportSocketPath pl raw) \<le> MAX_UNIX_SOCKET_PATH_LENGTH \<or>
       (\<exists>name. resolveTransportSocketPath pl raw = pl_resolve pl [pl_tmpdir pl, ''openclaw-event-'' @ name])) \<and>
     (pl_win32 pl \<longrightarrow> \<not> starts_with (js_trim raw) pipe_prefix \<longrightarrow>
       (\<exists>name. resolveTransportSocketPath pl raw = pipe_prefix @ name \<and> name \<noteq> [] \<and>
          length name \<le> 200 \<and> list_all pipe_char name))"
proof -
  have "list_all pipe_char ''openclaw-event-server''" by code_simp
  then show ?thesis
    using sanitizePipeName_chars length_sanitizePipeName
    by (auto simp: resolveTransportSocketPath_def Let_def list_all_iff)
qed

theorem socket_path_bounds_witness:
  "length (resolveTransportSocketPath sample_platform ''/run/t.sock'') \<le> 100"
proof -
  have "resolveTransportSocketPath sample_platform ''/run/t.sock'' = ''/run/t.sock''" by code_simp
  then show ?thesis
    using socket_path_bounds [of sample_platform "''/run/t.sock''"]
    by (simp add: sample_platform_def)
qed

end
