(* ===== verification/Protocol.thy ===== *)
theory Protocol imports Config begin

text \<open>
  The transport protocol of \<open>src/transport/protocol.ts\<close>: which values are events, the relay
  envelope and its line on the wire, the semantic key and the transport metadata. An event is a
  JavaScript object, because the code spreads it, tests its keys and accepts relayed objects
  that only passed \<open>isOpenClawEvent\<close>. The lemmas at the end show that the text of an envelope
  has no line break of its own, so one line is one envelope.
\<close>

type_synonym event = jsobj

section \<open>Events on the wire\<close>

definition isOpenClawEvent :: "jsval \<Rightarrow> bool" where
  "isOpenClawEvent v \<longleftrightarrow>
     (if \<not> isRecord v then False
      else typeof (jprop v ''eventId'') = ''string'' \<and>
           typeof (jprop v ''type'') = ''string'' \<and>
           typeof (jprop v ''timestamp'') = ''string'' \<and>
           typeof (jprop v ''pluginVersion'') = ''string'' \<and>
           isRecord (jprop v ''data''))"

record RelayEnvelope =
  env_authToken :: "string option"
  env_event :: event

definition newline :: char where
  "newline = CHR 0x0A"

text \<open>\<open>`${JSON.stringify(envelope)}\n`\<close>; a missing token drops its key.\<close>

definition serializeEnvelope :: "RelayEnvelope \<Rightarrow> string" where
  "serializeEnvelope e =
     default_to ''undefined''
       (json_stringify (JObj [(''authToken'', of_str (env_authToken e)), (''event'', JObj (env_event e))]))
     @ [newline]"

text \<open>How \<open>Array.prototype.join\<close> prints a value.\<close>

fun join_text :: "jsval \<Rightarrow> string" where
  "join_text JUndef = []"
| "join_text JNull = []"
| "join_text (JBool b) = bool_str b"
| "join_text (JNum n) = show_int n"
| "join_text (JStr s) = s"
| "join_text (JArr xs) = js_join '','' (map join_text xs)"
| "join_text (JObj kvs) = ''[object Object]''"

definition semantic_identity_keys :: "string list" where
  "semantic_identity_keys =
     [''correlationId'', ''toolCallId'', ''runId'', ''sessionId'', ''sessionKey'', ''agentId'']"

definition buildSemanticKey :: "event \<Rightarrow> string option" where
  "buildSemanticKey ev =
     (let meaningful = filter (\<lambda>k. non_blank_opt (ostr ev k)) semantic_identity_keys in
      if meaningful = [] then None
      else Some (js_join ''|''
        (join_text (oget ev ''type'') #
         join_text (oget ev ''eventName'') #
         map (\<lambda>k. join_text (oget ev k)) semantic_identity_keys @
         map (\<lambda>k. default_to [] (stableStringify (oget ev k))) [''data'', ''error'', ''result''])))"

text \<open>
  \<open>pid\<close> and \<open>hostname\<close> are those of the running process. An existing emitter identity is kept,
  the route is always the latest one.
\<close>

definition cloneEventWithTransportMetadata ::
  "int \<Rightarrow> string \<Rightarrow> event \<Rightarrow> string \<Rightarrow> string \<Rightarrow> string \<Rightarrow> string option \<Rightarrow> event" where
  "cloneEventWithTransportMetadata pid hostname ev runtimeId role route ownerRuntimeId =
     (let metadata = oget ev ''metadata'';
          existingMetadata = (if isRecord metadata then metadata else JObj []);
          transport = jprop existingMetadata ''transport'';
          existingTransport = (if isRecord transport then transport else JObj []);
          newTransport = spread (obj_entries existingTransport)
            ([(''runtimeId'', jnullish (jprop existingTransport ''runtimeId'') (JStr runtimeId)),
              (''pid'', jnullish (jprop existingTransport ''pid'') (JNum pid)),
              (''hostname'', jnullish (jprop existingTransport ''hostname'') (JStr hostname)),
              (''emittedByRole'', jnullish (jprop existingTransport ''emittedByRole'') (JStr role)),
              (''route'', JStr route)] @
             (if truthy_str ownerRuntimeId then [(''ownerRuntimeId'', of_str ownerRuntimeId)] else []))
      in mput ''metadata''
           (JObj (mput ''transport'' (JObj newTransport) (obj_entries existingMetadata))) ev)"

text \<open>A small event, used where a theorem is applied to a concrete input.\<close>

definition sample_event :: event where
  "sample_event = [(''eventId'', JStr ''e1''), (''type'', JStr ''session.start''), (''timestamp'', JStr ''t''),
     (''pluginVersion'', JStr ''1''), (''sessionId'', JStr ''s1''), (''data'', JObj [])]"

section \<open>Lemmas: one envelope is one line\<close>

lemma newline_code: "c = newline \<longleftrightarrow> (of_char c :: nat) = 10"
proof
  assume "c = newline" then show "(of_char c :: nat) = 10" by (simp add: newline_def)
next
  assume "(of_char c :: nat) = 10"
  then have "(of_char c :: nat) = of_char newline" by (simp add: newline_def)
  then show "c = newline" by (simp only: of_char_eq_iff)
qed

lemma show_nat_chars: "c \<in> set (show_nat n) \<Longrightarrow> 48 \<le> (of_char c :: nat) \<and> (of_char c :: nat) \<le> 57"
proof (induction n rule: show_nat.induct)
  case (1 n)
  have small: "m < 10 \<Longrightarrow> (of_char (char_of (48 + m) :: char) :: nat) = 48 + m" for m :: nat
    by (simp add: of_char_of)
  show ?case
  proof (cases "n < 10")
    case True
    with "1.prems" have "c = char_of (48 + n)" by (subst (asm) show_nat.simps) simp
    with small [OF True] True show ?thesis by simp
  next
    case False
    with "1.prems" have "c \<in> set (show_nat (n div 10)) \<or> c = char_of (48 + n mod 10)"
      by (subst (asm) show_nat.simps) auto
    then show ?thesis using "1.IH" [OF False] small [of "n mod 10"] by auto
  qed
qed

lemma newline_not_show_nat: "newline \<notin> set (show_nat n)"
  using show_nat_chars [of newline n] newline_code [of newline] by auto

lemma newline_not_show_int: "newline \<notin> set (show_int i)"
  using newline_not_show_nat by (simp add: show_int_def newline_def)

lemma newline_not_hex: "m < 16 \<Longrightarrow> hex_digit m \<noteq> newline"
proof -
  assume "m < 16"
  then have "(of_char (hex_digit m) :: nat) \<noteq> 10" by (simp add: hex_digit_def of_char_of)
  then show ?thesis by (metis newline_code)
qed

lemma newline_not_quote_char: "newline \<notin> set (quote_char c)"
proof -
  have "(of_char c::nat) < 256" by simp
  then have "(of_char c::nat) div 16 < 16" by linarith
  then show ?thesis
    using newline_not_hex [of "(of_char c::nat) div 16"] newline_not_hex [of "(of_char c::nat) mod 16"]
    by (auto simp: quote_char_def Let_def newline_code [symmetric] newline_def)
qed

lemma newline_not_json_quote: "newline \<notin> set (json_quote s)"
  using newline_not_quote_char by (auto simp: json_quote_def newline_def)

lemma newline_not_join:
  "newline \<notin> set sep \<Longrightarrow> \<forall>x\<in>set xs. newline \<notin> set x \<Longrightarrow> newline \<notin> set (js_join sep xs)"
  by (induction sep xs rule: js_join.induct) auto

lemma newline_neq [simp]:
  "newline \<notin> set ''null''" "newline \<notin> set (bool_str b)" "newline \<noteq> CHR ''{''" "newline \<noteq> CHR ''}''"
  "newline \<noteq> CHR ''[''" "newline \<noteq> CHR '']''" "newline \<noteq> CHR '',''" "newline \<noteq> CHR '':''"
  by (auto simp: newline_def bool_str_def)

lemma newline_not_json:
  "\<forall>t. json_stringify v = Some t \<longrightarrow> newline \<notin> set t"
  "\<forall>x\<in>set (json_items xs). newline \<notin> set x"
  "\<forall>x\<in>set (json_fields kvs). newline \<notin> set x"
proof (induction v and xs and kvs rule: json_stringify_json_items_json_fields.induct)
  case (9 x xs)
  then show ?case by (cases "json_stringify x") (auto simp: newline_def)
next
  case (11 k v kvs)
  then show ?case
    using newline_not_json_quote [of k] by (auto split: option.splits)
next
  case 2 show ?case by (simp add: newline_def)
next case (6 xs) then show ?case using newline_not_join [of "'',''" "json_items xs"] by simp
next case (7 xs) then show ?case using newline_not_join [of "'',''" "json_fields xs"] by simp
qed (auto simp: newline_not_show_int newline_not_json_quote)

end
