(* ===== verification/Relay.thy ===== *)
theory Relay imports Protocol begin

text \<open>
  The two ends of a relay connection, \<open>src/transport/relay-client.ts\<close> and
  \<open>src/transport/relay-server.ts\<close>. \<open>JSON.parse\<close> is a parameter that returns the error
  message or the value.
\<close>

section \<open>Relay client\<close>

text \<open>
  \<open>sendRelayEvent\<close>: the size check before the connection, then the socket's events. The promise
  is settled by the first of them that calls \<open>finish\<close>; a timeout destroys the socket with an
  error, which arrives as the error event.
\<close>

datatype relay_result = Resolved | Rejected string

datatype client_event =
    ClientData string
  | ClientError string
  | ClientClose

record client_state =
  cl_response :: string
  cl_settled :: "relay_result option"

definition client_start :: "string option \<Rightarrow> int \<Rightarrow> event \<Rightarrow> string + string" where
  "client_start authToken maxPayloadBytes ev =
     (let serialized = serializeEnvelope \<lparr> env_authToken = authToken, env_event = ev \<rparr> in
      if int (utf8_length serialized) > maxPayloadBytes
      then Inl ''relay payload exceeds maxPayloadBytes'' else Inr serialized)"

definition first_line :: "string \<Rightarrow> string" where
  "first_line buffer = hd (js_split newline (js_trim buffer))"

definition finish :: "relay_result \<Rightarrow> client_state \<Rightarrow> client_state" where
  "finish r s = (case cl_settled s of Some _ \<Rightarrow> s | None \<Rightarrow> s\<lparr>cl_settled := Some r\<rparr>)"

fun client_step :: "(string \<Rightarrow> string + jsval) \<Rightarrow> client_event \<Rightarrow> client_state \<Rightarrow> client_state" where
  "client_step parse (ClientData chunk) s =
     (if cl_settled s = None then s\<lparr>cl_response := cl_response s @ chunk\<rparr> else s)"
| "client_step parse (ClientError msg) s = finish (Rejected msg) s"
| "client_step parse ClientClose s =
     (let firstLine = first_line (cl_response s) in
      if firstLine = [] then finish (Rejected ''relay closed without acknowledgement'') s
      else (case parse firstLine of
              Inl msg \<Rightarrow> finish (Rejected msg) s
            | Inr ack \<Rightarrow>
                if is_nullish ack then finish (Rejected (null_read ''ok'')) s
                else if js_truthy (jprop ack ''ok'') then finish Resolved s
                else finish (Rejected (let e = jprop ack ''error'' in
                  if is_nullish e then ''relay rejected event'' else join_text e)) s))"

section \<open>Relay server\<close>

text \<open>
  One connection: the buffer, the bytes counted so far and whether the connection was handled.
  \<open>Process\<close> stands for the call of \<open>processIncomingEnvelope\<close> with the buffer.
\<close>

record connection =
  cn_buffer :: string
  cn_payloadBytes :: nat
  cn_handled :: bool

definition new_connection :: connection where
  "new_connection = \<lparr> cn_buffer = [], cn_payloadBytes = 0, cn_handled = False \<rparr>"

datatype socket_event = SockData string | SockEnd | SockError

datatype socket_action = NoAction | TooLarge | Process string

fun handleIncomingSocket ::
  "int \<Rightarrow> connection \<Rightarrow> socket_event \<Rightarrow> connection \<times> socket_action" where
  "handleIncomingSocket maxPayloadBytes c (SockData chunk) =
     (if cn_handled c then (c, NoAction)
      else let c1 = c\<lparr>cn_payloadBytes := cn_payloadBytes c + utf8_length chunk\<rparr> in
        if int (cn_payloadBytes c1) > maxPayloadBytes then (c1\<lparr>cn_handled := True\<rparr>, TooLarge)
        else let c2 = c1\<lparr>cn_buffer := cn_buffer c1 @ chunk\<rparr> in
          if \<not> js_includes (cn_buffer c2) [newline] then (c2, NoAction)
          else (c2\<lparr>cn_handled := True\<rparr>, Process (cn_buffer c2)))"
| "handleIncomingSocket maxPayloadBytes c SockEnd =
     (if cn_handled c then (c, NoAction)
      else (c\<lparr>cn_handled := True\<rparr>, Process (cn_buffer c)))"
| "handleIncomingSocket maxPayloadBytes c SockError = (c, NoAction)"

fun run_socket :: "int \<Rightarrow> connection \<Rightarrow> socket_event list \<Rightarrow> connection \<times> socket_action list" where
  "run_socket m c [] = (c, [])"
| "run_socket m c (e # es) =
     (let (c1, a) = handleIncomingSocket m c e; (c2, as) = run_socket m c1 es in (c2, a # as))"

text \<open>
  \<open>processIncomingEnvelope\<close> up to the call of \<open>onEvent\<close>: an error reply, or the event to hand
  over. The reply after the hand-over is \<open>ok\<close>, or the error \<open>onEvent\<close> threw.
\<close>

definition processIncomingEnvelope ::
  "(string \<Rightarrow> string + jsval) \<Rightarrow> string option \<Rightarrow> string \<Rightarrow> string + jsval" where
  "processIncomingEnvelope parse authToken buffer =
     (let firstLine = first_line buffer in
      if firstLine = [] then Inl ''empty payload''
      else (case parse firstLine of
              Inl msg \<Rightarrow> Inl msg
            | Inr envelope \<Rightarrow>
                if is_nullish envelope
                then Inl (null_read (if truthy_str authToken then ''authToken'' else ''event''))
                else if truthy_str authToken \<and> jprop envelope ''authToken'' \<noteq> of_str authToken
                then Inl ''invalid transport auth token''
                else if \<not> isOpenClawEvent (jprop envelope ''event'')
                then Inl ''invalid event payload''
                else Inr (jprop envelope ''event'')))"

definition relay_reply :: "string + unit \<Rightarrow> jsval" where
  "relay_reply r =
     (case r of
        Inl msg \<Rightarrow> JObj [(''ok'', JBool False), (''error'', JStr msg)]
      | Inr _ \<Rightarrow> JObj [(''ok'', JBool True)])"

definition client_init :: client_state where
  "client_init = \<lparr> cl_response = [], cl_settled = None \<rparr>"

section \<open>Lemmas: one connection\<close>

definition envelope_text :: "string option \<Rightarrow> event \<Rightarrow> string" where
  "envelope_text tok ev = default_to ''undefined''
     (json_stringify (JObj [(''authToken'', of_str tok), (''event'', JObj ev)]))"

lemma run_socket_handled:
  "cn_handled c \<Longrightarrow> run_socket m c es = (c, replicate (length es) NoAction)"
proof (induction es)
  case (Cons e es)
  then show ?case by (cases e) auto
qed simp

lemma filter_replicate_NoAction [simp]: "filter (\<lambda>a. a \<noteq> NoAction) (replicate n NoAction) = []"
  by simp

abbreviation actions :: "int \<Rightarrow> connection \<Rightarrow> socket_event list \<Rightarrow> socket_action list" where
  "actions m c es \<equiv> filter (\<lambda>a. a \<noteq> NoAction) (snd (run_socket m c es))"

lemma actions_chunks:
  assumes "\<not> cn_handled c" and "cn_payloadBytes c = utf8_length (cn_buffer c)"
    and "cn_buffer c @ concat chunks = text @ [newline]" and "newline \<notin> set text"
    and "newline \<notin> set (cn_buffer c)"
    and "int (utf8_length (text @ [newline])) \<le> m"
  shows "actions m c (map SockData chunks @ rest) = [Process (text @ [newline])]"
  using assms
proof (induction chunks arbitrary: c)
  case Nil
  then have "newline \<in> set (cn_buffer c)" by simp
  with Nil show ?case by simp
next
  case (Cons ch chunks)
  have total: "text @ [newline] = (cn_buffer c @ ch) @ concat chunks"
    using Cons.prems(3) by simp
  have small: "int (cn_payloadBytes c + utf8_length ch) \<le> m"
    using Cons.prems(6) unfolding total using Cons.prems(2) by simp
  show ?case
  proof (cases "newline \<in> set ch")
    case True
    have buf: "cn_buffer c @ ch = text @ [newline]"
    proof (cases "concat chunks = []")
      case True then show ?thesis using total by simp
    next
      case False
      then have "text = (cn_buffer c @ ch) @ butlast (concat chunks)"
        using total by (metis butlast_append butlast_snoc)
      with True Cons.prems(4) show ?thesis by auto
    qed
    with True small Cons.prems(1) show ?thesis
      by (auto simp: Let_def js_includes_char run_socket_handled not_less case_prod_beta)
  next
    case False
    have "newline \<notin> set (cn_buffer c @ ch)" using False Cons.prems(5) by simp
    then show ?thesis
      using small Cons.prems Cons.IH [of "c\<lparr>cn_payloadBytes := cn_payloadBytes c + utf8_length ch, cn_buffer := cn_buffer c @ ch\<rparr>"]
      by (simp add: Let_def js_includes_char not_less case_prod_beta)
  qed
qed

lemma serializeEnvelope_text:
  "serializeEnvelope \<lparr> env_authToken = tok, env_event = ev \<rparr> = envelope_text tok ev @ [newline]"
  by (simp add: serializeEnvelope_def envelope_text_def)

lemma envelope_text_object: "\<exists>t. envelope_text tok ev = ''{'' @ t @ ''}''"
  by (simp add: envelope_text_def)

lemma envelope_text_no_newline: "newline \<notin> set (envelope_text tok ev)"
  using newline_not_json(1) [of "JObj [(''authToken'', of_str tok), (''event'', JObj ev)]"]
  by (simp add: envelope_text_def)

lemma first_line_object:
  assumes "newline \<notin> set (''{'' @ t @ ''}'')"
  shows "first_line ((''{'' @ t @ ''}'') @ [newline]) = ''{'' @ t @ ''}''"
proof -
  have "js_trim ((''{'' @ t @ ''}'') @ [newline]) = ''{'' @ t @ ''}''"
    by (simp add: js_trim_def js_ws_def newline_def)
  then show ?thesis using js_split_no_sep [OF assms] by (simp add: first_line_def)
qed

lemma first_line_envelope: "first_line (envelope_text tok ev @ [newline]) = envelope_text tok ev"
  using envelope_text_object [of tok ev] envelope_text_no_newline [of tok ev] first_line_object by auto

lemma actions_of_envelope:
  assumes "client_start tok m ev = Inr payload" and "concat chunks = payload"
  shows "actions m new_connection (map SockData chunks @ rest) = [Process (envelope_text tok ev @ [newline])]"
  using assms envelope_text_no_newline [of tok ev]
  by (intro actions_chunks)
     (auto simp: new_connection_def client_start_def Let_def serializeEnvelope_text utf8_length_def[of "[]"] not_less split: if_splits)


text \<open>
  C27. Delivery. Whenever the client accepts an envelope for sending, the server with the same
  limit and token receives it however the line is cut into chunks: exactly one action happens
  on the connection, the hand-over of a buffer, and processing it yields the event that was
  sent. \<open>parse\<close> is assumed to read the envelope's text back.
\<close>

theorem relay_delivers:
  assumes started: "client_start tok m ev = Inr payload"
    and chunks: "concat chunks = payload"
    and event: "isOpenClawEvent (JObj ev)"
    and parsed: "parse (butlast payload) = Inr (JObj envelope)"
    and fields: "oget envelope ''authToken'' = of_str tok" "oget envelope ''event'' = JObj ev"
  shows "\<exists>buffer. actions m new_connection (map SockData chunks @ rest) = [Process buffer] \<and>
     processIncomingEnvelope parse tok buffer = Inr (JObj ev)"
proof -
  have "payload = envelope_text tok ev @ [newline]"
    using started by (simp add: client_start_def Let_def serializeEnvelope_text split: if_splits)
  then have "processIncomingEnvelope parse tok (envelope_text tok ev @ [newline]) = Inr (JObj ev)"
    using parsed fields event envelope_text_object [of tok ev]
    by (auto simp: processIncomingEnvelope_def Let_def first_line_envelope is_nullish_def)
  then show ?thesis using actions_of_envelope [OF started chunks] by blast
qed

definition sample_envelope :: jsobj where
  "sample_envelope = [(''authToken'', JStr ''k''), (''event'', JObj sample_event)]"

definition sample_parse :: "string \<Rightarrow> string + jsval" where
  "sample_parse t = (if t = envelope_text (Some ''k'') sample_event then Inr (JObj sample_envelope)
     else Inl ''Unexpected token'')"

lemma sample_start: "client_start (Some ''k'') 1000 sample_event = Inr (envelope_text (Some ''k'') sample_event @ [newline])"
  by code_simp

theorem relay_delivers_witness:
  "\<exists>buffer. actions 1000 new_connection
      (map SockData [take 9 (envelope_text (Some ''k'') sample_event),
        drop 9 (envelope_text (Some ''k'') sample_event) @ [newline]] @ [SockEnd]) = [Process buffer] \<and>
     processIncomingEnvelope sample_parse (Some ''k'') buffer = Inr (JObj sample_event)"
  by (rule relay_delivers [OF sample_start, where envelope = sample_envelope])
     (simp_all add: sample_parse_def sample_envelope_def sample_event_def isOpenClawEvent_def)

lemma actions_at_most_one:
  assumes "\<not> cn_handled c"
  shows "length (actions m c es) \<le> 1 \<and> (cn_handled (fst (run_socket m c es)) \<longleftrightarrow> actions m c es \<noteq> [])"
  using assms
proof (induction es arbitrary: c)
  case Nil then show ?case by simp
next
  case (Cons e es)
  show ?case
  proof (cases "cn_handled (fst (handleIncomingSocket m c e))")
    case True
    with Cons.prems show ?thesis
      by (cases e) (auto simp: Let_def run_socket_handled case_prod_beta split: if_splits)
  next
    case False
    with Cons.prems have "snd (handleIncomingSocket m c e) = NoAction"
      by (cases e) (auto simp: Let_def split: if_splits)
    with Cons.IH [OF False] show ?thesis by (simp add: case_prod_beta)
  qed
qed

lemma process_within_limit:
  assumes "cn_payloadBytes c = utf8_length (cn_buffer c)" and "int (cn_payloadBytes c) \<le> m"
    and "Process buffer \<in> set (snd (run_socket m c es))"
  shows "int (utf8_length buffer) \<le> m"
  using assms
proof (induction es arbitrary: c)
  case Nil then show ?case by simp
next
  case (Cons e es)
  show ?case
  proof (cases "cn_handled (fst (handleIncomingSocket m c e))")
    case True
    with Cons.prems show ?thesis
      by (cases e) (auto simp: Let_def run_socket_handled case_prod_beta split: if_splits)
  next
    case False
    with Cons.prems Cons.IH [of "fst (handleIncomingSocket m c e)"] show ?thesis
      by (cases e) (auto simp: Let_def case_prod_beta split: if_splits)
  qed
qed

text \<open>
  Whatever the peer sends, in whatever chunks and order, the server acts at most once on a
  connection, and a buffer it processes is never longer than \<open>maxPayloadBytes\<close>.
\<close>

theorem relay_connection_safe:
  assumes "0 \<le> m"
  shows "length (actions m new_connection es) \<le> 1 \<and>
     (\<forall>buffer. Process buffer \<in> set (snd (run_socket m new_connection es)) \<longrightarrow> int (utf8_length buffer) \<le> m)"
  using assms actions_at_most_one [of new_connection m es] process_within_limit [of new_connection m _ es]
  by (auto simp: new_connection_def utf8_length_def [of "[]"])

theorem relay_connection_safe_witness:
  "length (actions 2 new_connection [SockData ''ab'', SockData ''c'', SockEnd]) \<le> 1"
  by (rule relay_connection_safe [THEN conjunct1]) simp

text \<open>
  An event is handed over only if the first line parses to an envelope that carries it, it
  passes \<open>isOpenClawEvent\<close>, and the envelope carries the configured token, when one is set.
\<close>

theorem relay_authenticates:
  assumes "processIncomingEnvelope parse tok buffer = Inr ev"
  shows "isOpenClawEvent ev \<and>
     (\<exists>envelope. parse (first_line buffer) = Inr envelope \<and> jprop envelope ''event'' = ev \<and>
       (\<forall>t. tok = Some t \<longrightarrow> t \<noteq> [] \<longrightarrow> jprop envelope ''authToken'' = JStr t))"
  using assms by (auto simp: processIncomingEnvelope_def Let_def split: if_splits sum.splits)

theorem relay_authenticates_witness:
  "isOpenClawEvent (JObj sample_event)"
proof -
  have "processIncomingEnvelope (\<lambda>_. Inr (JObj sample_envelope)) (Some ''k'') ''x'' = Inr (JObj sample_event)"
    by code_simp
  then show ?thesis using relay_authenticates by blast
qed

lemma client_settled_once: "cl_settled s = Some r \<Longrightarrow> cl_settled (fold (client_step parse) es s) = Some r"
proof (induction es arbitrary: s)
  case (Cons e es)
  have "cl_settled (client_step parse e s) = Some r"
    using Cons.prems by (cases e) (auto simp: Let_def finish_def split: sum.splits)
  with Cons show ?case by simp
qed simp

lemma client_data_run:
  "cl_settled s = None \<Longrightarrow>
   fold (client_step parse) (map ClientData chunks) s = s\<lparr>cl_response := cl_response s @ concat chunks\<rparr>"
  by (induction chunks arbitrary: s) auto

lemma reply_text_object: "\<exists>t. json_stringify (relay_reply r) = Some (''{'' @ t @ ''}'')"
  by (cases r) (simp_all add: relay_reply_def)

text \<open>
  The acknowledgement round trip: the client's promise is resolved exactly when the server
  replied \<open>ok\<close>, and rejected with the server's message otherwise, however the reply is cut into
  chunks and whatever the socket reports after it closed.
\<close>

theorem relay_acknowledges:
  assumes reply: "json_stringify (relay_reply r) = Some t" "concat chunks = t @ [newline]"
    and parsed: "parse t = Inr (relay_reply r)"
  shows "cl_settled (fold (client_step parse) (map ClientData chunks @ ClientClose # later) client_init) =
     Some (case r of Inl msg \<Rightarrow> Rejected msg | Inr _ \<Rightarrow> Resolved)"
proof -
  have line: "first_line (concat chunks) = t" and ne: "t \<noteq> []"
    using reply_text_object [of r] newline_not_json(1) [of "relay_reply r"] reply
      first_line_object by auto
  let ?s = "client_init\<lparr>cl_response := concat chunks\<rparr>"
  have "cl_settled (client_step parse ClientClose ?s) = Some (case r of Inl msg \<Rightarrow> Rejected msg | Inr _ \<Rightarrow> Resolved)"
    using ne parsed
    by (cases r) (simp_all add: line client_init_def finish_def relay_reply_def is_nullish_def js_truthy_def)
  then show ?thesis
    using client_settled_once by (auto simp: client_data_run client_init_def)
qed

theorem relay_acknowledges_witness:
  "cl_settled (fold (client_step (\<lambda>_. Inr (relay_reply (Inl ''busy''))))
     (map ClientData [default_to [] (json_stringify (relay_reply (Inl ''busy''))), [newline]] @ ClientClose # []) client_init)
   = Some (Rejected ''busy'')"
  using relay_acknowledges [of "Inl ''busy''" "default_to [] (json_stringify (relay_reply (Inl ''busy'')))"
    "[default_to [] (json_stringify (relay_reply (Inl ''busy''))), [newline]]" "\<lambda>_. Inr (relay_reply (Inl ''busy''))" "[]"]
  by (simp add: relay_reply_def)

end
