(* ===== verification/Lock.thy ===== *)
theory Lock imports Protocol Validate begin

text \<open>
  The owner lock file: \<open>src/transport/lock.ts\<close>, \<open>src/transport/ownership.ts\<close> and
  \<open>src/transport/manager-recovery.ts\<close>. The file is an inode with its content and modification
  time, or absent. \<open>lock_env\<close> holds what the operating system answers: the time, the result of
  \<open>process.kill(pid, 0)\<close> and injected failures of the file operations. The first half models
  \<open>acquireTransportLock\<close> as one function, the second half splits it into its system calls,
  so that processes can interleave (\<open>LockContest\<close>).
\<close>

section \<open>The lock file (lock.ts)\<close>

record LockFilePayload =
  lk_runtimeId :: string
  lk_pid :: int
  lk_updatedAt :: int
  lk_socketPath :: string

record lock_file =
  lf_inode :: nat
  lf_content :: string
  lf_mtimeMs :: int

datatype kill_result = Signalled | ESRCH | EPERM

record lock_env =
  le_now :: int
  le_pid :: int
  le_kill :: "int \<Rightarrow> kill_result"
  le_parse :: "string \<Rightarrow> string + jsval"
  le_createFails :: bool
  le_unlinkFails :: bool
  le_writeFails :: bool

type_synonym fs = "lock_file option \<times> nat"

definition parseLockPayload :: "(string \<Rightarrow> string + jsval) \<Rightarrow> string \<Rightarrow> LockFilePayload option" where
  "parseLockPayload parse raw =
     (case parse raw of
        Inl _ \<Rightarrow> None
      | Inr parsed \<Rightarrow>
          if \<not> isRecord parsed then None
          else (case (jprop parsed ''runtimeId'', jprop parsed ''pid'',
                      jprop parsed ''updatedAt'', jprop parsed ''socketPath'') of
                  (JStr r, JNum p, JNum u, JStr s) \<Rightarrow>
                    Some \<lparr> lk_runtimeId = r, lk_pid = p, lk_updatedAt = u, lk_socketPath = s \<rparr>
                | _ \<Rightarrow> None))"

definition readLockPayload :: "lock_env \<Rightarrow> fs \<Rightarrow> LockFilePayload option" where
  "readLockPayload e fs =
     (case fst fs of None \<Rightarrow> None | Some f \<Rightarrow> parseLockPayload (le_parse e) (lf_content f))"

definition isProcessAlive :: "lock_env \<Rightarrow> int \<Rightarrow> bool" where
  "isProcessAlive e pid = (if pid \<le> 0 then False else le_kill e pid \<noteq> ESRCH)"

definition payload_json :: "LockFilePayload \<Rightarrow> jsval" where
  "payload_json p = JObj [(''runtimeId'', JStr (lk_runtimeId p)), (''pid'', JNum (lk_pid p)),
     (''updatedAt'', JNum (lk_updatedAt p)), (''socketPath'', JStr (lk_socketPath p))]"

definition payload_text :: "LockFilePayload \<Rightarrow> string" where
  "payload_text p = default_to ''undefined'' (json_stringify (payload_json p))"

datatype create_result = Created | EEXIST | CreateFailed

text \<open>
  \<open>openSync(path, 'wx')\<close> creates the file only when it is absent; the write and the close
  follow. The second component of \<open>fs\<close> numbers the inodes.
\<close>

definition open_new :: "lock_env \<Rightarrow> fs \<Rightarrow> create_result \<times> fs" where
  "open_new e fs =
     (if le_createFails e then (CreateFailed, fs)
      else case fst fs of
        Some _ \<Rightarrow> (EEXIST, fs)
      | None \<Rightarrow> (Created,
          (Some \<lparr> lf_inode = snd fs, lf_content = [], lf_mtimeMs = le_now e \<rparr>, Suc (snd fs))))"

definition write_fd :: "lock_env \<Rightarrow> nat \<Rightarrow> string \<Rightarrow> fs \<Rightarrow> fs" where
  "write_fd e inode t fs =
     (case fst fs of
        Some f \<Rightarrow> if lf_inode f = inode
          then (Some (f\<lparr>lf_content := t, lf_mtimeMs := le_now e\<rparr>), snd fs) else fs
      | None \<Rightarrow> fs)"

definition writeNewLock :: "lock_env \<Rightarrow> LockFilePayload \<Rightarrow> fs \<Rightarrow> create_result \<times> fs" where
  "writeNewLock e payload fs =
     (case open_new e fs of
        (Created, fs1) \<Rightarrow> (Created, write_fd e (snd fs) (payload_text payload) fs1)
      | (r, fs1) \<Rightarrow> (r, fs1))"

text \<open>\<open>writeFileSync(path, text)\<close> truncates the existing file or creates it.\<close>

definition overwriteLock :: "lock_env \<Rightarrow> LockFilePayload \<Rightarrow> fs \<Rightarrow> fs" where
  "overwriteLock e payload fs =
     (case fst fs of
        Some f \<Rightarrow> (Some (f\<lparr>lf_content := payload_text payload, lf_mtimeMs := le_now e\<rparr>), snd fs)
      | None \<Rightarrow> (Some \<lparr> lf_inode = snd fs, lf_content = payload_text payload,
                        lf_mtimeMs = le_now e \<rparr>, Suc (snd fs)))"

definition isLockStale :: "lock_env \<Rightarrow> int \<Rightarrow> fs \<Rightarrow> bool" where
  "isLockStale e staleAfterMs fs =
     (case readLockPayload e fs of
        Some payload \<Rightarrow>
          if \<not> isProcessAlive e (lk_pid payload) then True
          else le_now e - lk_updatedAt payload > staleAfterMs
      | None \<Rightarrow> (case fst fs of
          Some f \<Rightarrow> le_now e - lf_mtimeMs f > staleAfterMs
        | None \<Rightarrow> True))"

definition unlink_lock :: "lock_env \<Rightarrow> fs \<Rightarrow> bool \<times> fs" where
  "unlink_lock e fs =
     (if le_unlinkFails e \<or> fst fs = None then (False, fs) else (True, (None, snd fs)))"

definition removeLockIfOwned :: "lock_env \<Rightarrow> string \<Rightarrow> fs \<Rightarrow> fs" where
  "removeLockIfOwned e runtimeId fs =
     (case readLockPayload e fs of
        Some payload \<Rightarrow> if lk_runtimeId payload \<noteq> runtimeId then fs else snd (unlink_lock e fs)
      | None \<Rightarrow> snd (unlink_lock e fs))"

section \<open>Acquiring it (ownership.ts)\<close>

datatype TransportLockAcquireResult =
    Acquired
  | LiveOwner LockFilePayload
  | BusyLock
  | AcquireError

definition buildLockPayload :: "lock_env \<Rightarrow> string \<Rightarrow> string \<Rightarrow> LockFilePayload" where
  "buildLockPayload e runtimeId socketPath =
     \<lparr> lk_runtimeId = runtimeId, lk_pid = le_pid e, lk_updatedAt = le_now e, lk_socketPath = socketPath \<rparr>"

definition acquireTransportLock ::
  "lock_env \<Rightarrow> TransportConfig \<Rightarrow> string \<Rightarrow> fs \<Rightarrow> TransportLockAcquireResult \<times> fs" where
  "acquireTransportLock e config runtimeId fs =
     (let payload = buildLockPayload e runtimeId (tc_socketPath config) in
      case writeNewLock e payload fs of
        (Created, fs1) \<Rightarrow> (Acquired, fs1)
      | (CreateFailed, fs1) \<Rightarrow> (AcquireError, fs1)
      | (EEXIST, fs1) \<Rightarrow>
          (let existingLock = readLockPayload e fs1;
               reclaim =
                 (if \<not> isLockStale e (tc_lockStaleMs config) fs1 then (BusyLock, fs1)
                  else case unlink_lock e fs1 of
                    (False, fs2) \<Rightarrow> (AcquireError, fs2)
                  | (True, fs2) \<Rightarrow>
                      (case writeNewLock e payload fs2 of
                         (Created, fs3) \<Rightarrow> (Acquired, fs3)
                       | (_, fs3) \<Rightarrow> (AcquireError, fs3))) in
           case existingLock of
             Some l \<Rightarrow> if isProcessAlive e (lk_pid l) then (LiveOwner l, fs1) else reclaim
           | None \<Rightarrow> reclaim))"

definition writeTransportHeartbeat :: "lock_env \<Rightarrow> TransportConfig \<Rightarrow> string \<Rightarrow> fs \<Rightarrow> bool \<times> fs" where
  "writeTransportHeartbeat e config runtimeId fs =
     (if le_writeFails e then (False, fs)
      else (True, overwriteLock e (buildLockPayload e runtimeId (tc_socketPath config)) fs))"

section \<open>Recovery delay (manager-recovery.ts)\<close>

definition getLiveOwnerRecoveryDelayMs :: "TransportConfig \<Rightarrow> int" where
  "getLiveOwnerRecoveryDelayMs config =
     max (tc_reconnectBackoffMs config) (min (tc_lockStaleMs config) (max (tc_heartbeatMs config) 1000))"

text \<open>The conflict key to remember, the delay before the next attempt, and whether to log.\<close>

definition resolveOwnerAcquireFailure ::
  "TransportConfig \<Rightarrow> TransportLockAcquireResult \<Rightarrow> string option \<Rightarrow> string option \<times> int \<times> bool" where
  "resolveOwnerAcquireFailure config result previousConflictKey =
     (case result of
        LiveOwner l \<Rightarrow>
          (let conflictKey = lk_runtimeId l @ '':'' @ show_int (lk_pid l) in
           (Some conflictKey, getLiveOwnerRecoveryDelayMs config, previousConflictKey \<noteq> Some conflictKey))
      | _ \<Rightarrow> (None, tc_reconnectBackoffMs config, False))"

section \<open>The same acquisition, one system call at a time\<close>

datatype acquire_pc =
    AtCreate
  | AtWrite nat
  | AtRead
  | AtStaleCheck
  | AtStat
  | AtUnlink
  | AtRecreate
  | AtRewrite nat
  | AcquireDone TransportLockAcquireResult

text \<open>
  \<open>isLockStale\<close> reads the file and, when that gives no payload, asks for its modification time; the payload to
  write was built before the first call.
\<close>

fun acquire_step ::
  "lock_env \<Rightarrow> TransportConfig \<Rightarrow> LockFilePayload \<Rightarrow> acquire_pc \<Rightarrow> fs \<Rightarrow> acquire_pc \<times> fs" where
  "acquire_step e config payload AtCreate fs =
     (case open_new e fs of
        (Created, fs1) \<Rightarrow> (AtWrite (snd fs), fs1)
      | (EEXIST, fs1) \<Rightarrow> (AtRead, fs1)
      | (CreateFailed, fs1) \<Rightarrow> (AcquireDone AcquireError, fs1))"
| "acquire_step e config payload (AtWrite i) fs =
     (AcquireDone Acquired, write_fd e i (payload_text payload) fs)"
| "acquire_step e config payload AtRead fs =
     (case readLockPayload e fs of
        Some l \<Rightarrow> if isProcessAlive e (lk_pid l) then (AcquireDone (LiveOwner l), fs) else (AtStaleCheck, fs)
      | None \<Rightarrow> (AtStaleCheck, fs))"
| "acquire_step e config payload AtStaleCheck fs =
     (case readLockPayload e fs of
        Some l \<Rightarrow>
          if \<not> isProcessAlive e (lk_pid l) \<or> le_now e - lk_updatedAt l > tc_lockStaleMs config
          then (AtUnlink, fs) else (AcquireDone BusyLock, fs)
      | None \<Rightarrow> (AtStat, fs))"
| "acquire_step e config payload AtStat fs =
     (case fst fs of
        Some f \<Rightarrow> if le_now e - lf_mtimeMs f > tc_lockStaleMs config then (AtUnlink, fs) else (AcquireDone BusyLock, fs)
      | None \<Rightarrow> (AtUnlink, fs))"
| "acquire_step e config payload AtUnlink fs =
     (case unlink_lock e fs of
        (True, fs1) \<Rightarrow> (AtRecreate, fs1)
      | (False, fs1) \<Rightarrow> (AcquireDone AcquireError, fs1))"
| "acquire_step e config payload AtRecreate fs =
     (case open_new e fs of
        (Created, fs1) \<Rightarrow> (AtRewrite (snd fs), fs1)
      | (_, fs1) \<Rightarrow> (AcquireDone AcquireError, fs1))"
| "acquire_step e config payload (AtRewrite i) fs =
     (AcquireDone Acquired, write_fd e i (payload_text payload) fs)"
| "acquire_step e config payload (AcquireDone r) fs = (AcquireDone r, fs)"

text \<open>Two contenders; \<open>True\<close> in the schedule lets the first one make its next system call.\<close>

record contest =
  ct_a :: acquire_pc
  ct_b :: acquire_pc
  ct_fs :: fs

definition contest_step ::
  "lock_env \<Rightarrow> lock_env \<Rightarrow> TransportConfig \<Rightarrow> bool \<Rightarrow> contest \<Rightarrow> contest" where
  "contest_step ea eb config who c =
     (if who
      then (case acquire_step ea config (buildLockPayload ea ''A'' (tc_socketPath config)) (ct_a c) (ct_fs c) of
          (pc, fs) \<Rightarrow> c\<lparr>ct_a := pc, ct_fs := fs\<rparr>)
      else (case acquire_step eb config (buildLockPayload eb ''B'' (tc_socketPath config)) (ct_b c) (ct_fs c) of
          (pc, fs) \<Rightarrow> c\<lparr>ct_b := pc, ct_fs := fs\<rparr>))"

section \<open>Lemmas\<close>

lemma writeNewLock_absent:
  "fst fs = None \<Longrightarrow> \<not> le_createFails e \<Longrightarrow> writeNewLock e p fs =
     (Created, (Some \<lparr> lf_inode = snd fs, lf_content = payload_text p, lf_mtimeMs = le_now e \<rparr>, Suc (snd fs)))"
  by (simp add: writeNewLock_def open_new_def write_fd_def)

lemma writeNewLock_present:
  "fst fs = Some f \<Longrightarrow> \<not> le_createFails e \<Longrightarrow> writeNewLock e p fs = (EEXIST, fs)"
  by (simp add: writeNewLock_def open_new_def)

lemma writeNewLock_failing: "le_createFails e \<Longrightarrow> writeNewLock e p fs = (CreateFailed, fs)"
  by (simp add: writeNewLock_def open_new_def)

lemmas writeNewLock_cases = writeNewLock_absent writeNewLock_present writeNewLock_failing

lemma dead_owner_stale:
  "readLockPayload e fs = Some l \<Longrightarrow> \<not> isProcessAlive e (lk_pid l) \<Longrightarrow> isLockStale e n fs"
  by (simp add: isLockStale_def)

lemma readLock_file: "readLockPayload e fs = Some l \<Longrightarrow> \<exists>f. fst fs = Some f"
  by (auto simp: readLockPayload_def split: option.splits)

lemma live_owner_blocks:
  assumes "readLockPayload e fs = Some l" and "isProcessAlive e (lk_pid l)"
  shows "acquireTransportLock e c rid fs =
     (if le_createFails e then AcquireError else LiveOwner l, fs)"
  using assms readLock_file [OF assms(1)]
  by (auto simp: acquireTransportLock_def writeNewLock_cases Let_def)

lemma acquired_content:
  assumes "fst (acquireTransportLock e c rid fs) = Acquired"
  shows "\<exists>f. fst (snd (acquireTransportLock e c rid fs)) = Some f \<and>
     lf_content f = payload_text (buildLockPayload e rid (tc_socketPath c)) \<and> lf_mtimeMs f = le_now e"
proof (cases "le_createFails e")
  case True
  with assms show ?thesis by (simp add: acquireTransportLock_def writeNewLock_cases)
next
  case False
  then show ?thesis
    using assms
    by (cases "fst fs")
       (auto simp: acquireTransportLock_def writeNewLock_cases Let_def unlink_lock_def
         split: option.splits if_splits)
qed

lemma parse_payload_text:
  "le_parse e (payload_text p) = Inr (payload_json p) \<Longrightarrow> parseLockPayload (le_parse e) (payload_text p) = Some p"
  by (simp add: parseLockPayload_def payload_json_def)

text \<open>
  The outcome of an acquisition, on every state of the file: a missing file is created;
  a lock whose recorded process lives is refused, whatever its age; a lock of a dead process
  is reclaimed; a file that cannot be read as a lock is reclaimed once its modification time
  is older than \<open>lockStaleMs\<close>.
\<close>

theorem acquire_outcome:
  assumes "\<not> le_createFails e" and "\<not> le_unlinkFails e"
  shows "fst (acquireTransportLock e c rid fs) =
     (case fst fs of
        None \<Rightarrow> Acquired
      | Some f \<Rightarrow>
          (case readLockPayload e fs of
             Some l \<Rightarrow> if isProcessAlive e (lk_pid l) then LiveOwner l else Acquired
           | None \<Rightarrow> if le_now e - lf_mtimeMs f > tc_lockStaleMs c then Acquired else BusyLock))"
  using assms
  by (cases "fst fs"; cases "readLockPayload e fs")
     (auto simp: acquireTransportLock_def writeNewLock_cases Let_def unlink_lock_def isLockStale_def)

text \<open>
  A runtime that acquired the lock is the one the file records: reading it back gives
  the runtime's own payload. \<open>JSON.parse\<close> is assumed to read that payload's
  text back.
\<close>

theorem acquired_lock_recorded:
  assumes "fst (acquireTransportLock e c rid fs) = Acquired"
    and "le_parse e (payload_text (buildLockPayload e rid (tc_socketPath c))) =
      Inr (payload_json (buildLockPayload e rid (tc_socketPath c)))"
  shows "readLockPayload e (snd (acquireTransportLock e c rid fs)) =
     Some (buildLockPayload e rid (tc_socketPath c))"
  using acquired_content [OF assms(1)] parse_payload_text [OF assms(2)]
  by (auto simp: readLockPayload_def)

definition run_acquire :: "lock_env \<Rightarrow> TransportConfig \<Rightarrow> string \<Rightarrow> nat \<Rightarrow> acquire_pc \<times> fs \<Rightarrow> acquire_pc \<times> fs" where
  "run_acquire e c rid n s =
     ((\<lambda>(pc, fs). acquire_step e c (buildLockPayload e rid (tc_socketPath c)) pc fs) ^^ n) s"

text \<open>Run without interleaving, the system calls reach the result of the function and leave the same file.\<close>

lemma acquire_refines:
  "run_acquire e c rid 7 (AtCreate, fs) =
     (case acquireTransportLock e c rid fs of (r, fs1) \<Rightarrow> (AcquireDone r, fs1))"
proof (cases "le_createFails e")
  case True
  then show ?thesis
    by (simp add: run_acquire_def numeral_eq_Suc open_new_def acquireTransportLock_def writeNewLock_cases)
next
  case created: False
  show ?thesis
  proof (cases "fst fs")
    case None
    with created show ?thesis
      by (simp add: run_acquire_def numeral_eq_Suc open_new_def acquireTransportLock_def writeNewLock_def)
  next
    case (Some f)
    with created show ?thesis
      by (simp add: run_acquire_def numeral_eq_Suc open_new_def acquireTransportLock_def writeNewLock_def
          isLockStale_def Let_def unlink_lock_def split: option.splits)
  qed
qed

definition race_schedule :: "bool list" where
  "race_schedule = [True, True, True, False, False, False, True, True, True, False, False, False]"

text \<open>
  Interleaved reclaims: two contenders that both find a dead owner's lock can both
  acquire it. The second unlinks the lock that the first has just created.
\<close>

theorem reclaim_race:
  assumes stale: "readLockPayload ea fs = Some l" "\<not> isProcessAlive ea (lk_pid l)"
      "readLockPayload eb fs = Some l" "\<not> isProcessAlive eb (lk_pid l)"
    and fine: "\<not> le_createFails ea" "\<not> le_unlinkFails ea" "\<not> le_createFails eb" "\<not> le_unlinkFails eb"
  shows "(let c = fold (contest_step ea eb config) race_schedule
       \<lparr> ct_a = AtCreate, ct_b = AtCreate, ct_fs = fs \<rparr>
     in ct_a c = AcquireDone Acquired \<and> ct_b c = AcquireDone Acquired)"
proof -
  obtain f where "fst fs = Some f" using readLock_file [OF stale(1)] by blast
  then show ?thesis
    using assms dead_owner_stale [OF stale(1,2)] dead_owner_stale [OF stale(3,4)]
    by (simp add: race_schedule_def contest_step_def open_new_def unlink_lock_def write_fd_def)
qed

text \<open>
  With validated settings the delay before the next attempt on a live owner's lock is at
  least the reconnect backoff, the heartbeat period and one second, and at most the larger
  of the backoff and the staleness window.
\<close>

theorem recovery_delay_bounds:
  assumes "validate_transport c = []"
  shows "tc_reconnectBackoffMs c \<le> getLiveOwnerRecoveryDelayMs c \<and> 1000 \<le> getLiveOwnerRecoveryDelayMs c \<and>
     tc_heartbeatMs c \<le> getLiveOwnerRecoveryDelayMs c \<and>
     getLiveOwnerRecoveryDelayMs c \<le> max (tc_reconnectBackoffMs c) (tc_lockStaleMs c)"
  using validate_transport_sound [OF assms] by (auto simp: getLiveOwnerRecoveryDelayMs_def max_def min_def)

definition dead_lock :: LockFilePayload where
  "dead_lock = \<lparr> lk_runtimeId = ''old'', lk_pid = 3, lk_updatedAt = 10, lk_socketPath = ''/s'' \<rparr>"

definition own_lock :: LockFilePayload where
  "own_lock = \<lparr> lk_runtimeId = ''A'', lk_pid = 7, lk_updatedAt = 1000, lk_socketPath = ''.event-server/transport.sock'' \<rparr>"

definition sample_env :: lock_env where
  "sample_env =
     \<lparr> le_now = 1000, le_pid = 7, le_kill = (\<lambda>p. if p = 7 then Signalled else ESRCH),
       le_parse = (\<lambda>t. if t = payload_text dead_lock then Inr (payload_json dead_lock)
         else if t = payload_text own_lock then Inr (payload_json own_lock) else Inl ''Unexpected token''),
       le_createFails = False, le_unlinkFails = False, le_writeFails = False \<rparr>"

definition lock_fs :: "LockFilePayload \<Rightarrow> fs" where
  "lock_fs l = (Some \<lparr> lf_inode = 0, lf_content = payload_text l, lf_mtimeMs = 10 \<rparr>, 1)"

lemma lock_fs_file: "fst (lock_fs l) = Some \<lparr> lf_inode = 0, lf_content = payload_text l, lf_mtimeMs = 10 \<rparr>"
  by (simp add: lock_fs_def)

lemma sample_reads:
  "le_parse sample_env (payload_text dead_lock) = Inr (payload_json dead_lock)"
  "le_parse sample_env (payload_text own_lock) = Inr (payload_json own_lock)"
  by code_simp+

lemma read_dead: "readLockPayload sample_env (lock_fs dead_lock) = Some dead_lock"
  by (simp add: readLockPayload_def lock_fs_def parse_payload_text sample_reads)

lemma dead_is_dead: "\<not> isProcessAlive sample_env (lk_pid dead_lock)"
  by (simp add: isProcessAlive_def sample_env_def dead_lock_def)

lemma sample_fine: "\<not> le_createFails sample_env" "\<not> le_unlinkFails sample_env"
  by (simp_all add: sample_env_def)

lemma own_is_built: "buildLockPayload sample_env ''A'' (tc_socketPath default_transport) = own_lock"
  by (simp add: buildLockPayload_def sample_env_def own_lock_def default_transport_def)

theorem acquire_outcome_witness:
  "fst (acquireTransportLock sample_env default_transport ''A'' (lock_fs dead_lock)) = Acquired"
  using acquire_outcome [OF sample_fine, of default_transport "''A''" "lock_fs dead_lock"]
  by (simp add: read_dead dead_is_dead lock_fs_file)

lemma sample_acquired: "fst (acquireTransportLock sample_env default_transport ''A'' (None, 0)) = Acquired"
  by (simp add: acquireTransportLock_def writeNewLock_cases sample_fine)

theorem acquired_lock_recorded_witness:
  "readLockPayload sample_env (snd (acquireTransportLock sample_env default_transport ''A'' (None, 0))) = Some own_lock"
  using acquired_lock_recorded [OF sample_acquired] by (simp add: own_is_built sample_reads)

theorem reclaim_race_witness:
  "(let c = fold (contest_step sample_env sample_env default_transport) race_schedule
       \<lparr> ct_a = AtCreate, ct_b = AtCreate, ct_fs = lock_fs dead_lock \<rparr>
     in ct_a c = AcquireDone Acquired \<and> ct_b c = AcquireDone Acquired)"
  by (rule reclaim_race [OF read_dead dead_is_dead read_dead dead_is_dead sample_fine sample_fine])

theorem recovery_delay_bounds_witness: "getLiveOwnerRecoveryDelayMs default_transport \<le> 15000"
proof -
  have "validate_transport default_transport = []" by code_simp
  from recovery_delay_bounds [OF this] show ?thesis by (simp add: default_transport_def)
qed

end
