(* ===== verification/Dedupe.thy ===== *)
theory Dedupe imports Protocol begin

text \<open>
  The owner's deduplication of \<open>src/transport/manager-dedupe.ts\<close>: the two maps of seen event
  ids and semantic keys with their expiry times, pruning, and the decision for an event.
\<close>

section \<open>Deduplication (manager-dedupe.ts)\<close>

record dedupe =
  dd_seenEventIds :: "(string, int) jsmap"
  dd_seenSemanticKeys :: "(string, int) jsmap"

definition prune_seen :: "int \<Rightarrow> (string, int) jsmap \<Rightarrow> (string, int) jsmap" where
  "prune_seen now m = filter (\<lambda>(k, expiresAt). \<not> expiresAt \<le> now) m"

definition pruneTransportDedupeEntries :: "int \<Rightarrow> dedupe \<Rightarrow> dedupe" where
  "pruneTransportDedupeEntries now d =
     \<lparr> dd_seenEventIds = prune_seen now (dd_seenEventIds d),
       dd_seenSemanticKeys = prune_seen now (dd_seenSemanticKeys d) \<rparr>"

definition event_id :: "event \<Rightarrow> string" where
  "event_id ev = default_to [] (ostr ev ''eventId'')"

definition shouldProcessTransportEvent ::
  "TransportConfig \<Rightarrow> int \<Rightarrow> event \<Rightarrow> dedupe \<Rightarrow> dedupe \<times> bool" where
  "shouldProcessTransportEvent config now ev d0 =
     (let d = pruneTransportDedupeEntries now d0 in
      if mhas (dd_seenEventIds d) (event_id ev) then (d, False)
      else let d1 = d\<lparr>dd_seenEventIds :=
                        mput (event_id ev) (now + tc_dedupeTtlMs config) (dd_seenEventIds d)\<rparr> in
        if \<not> tc_semanticDedupeEnabled config then (d1, True)
        else (case buildSemanticKey ev of
                None \<Rightarrow> (d1, True)
              | Some semanticKey \<Rightarrow>
                  if semanticKey = [] then (d1, True)
                  else if mhas (dd_seenSemanticKeys d1) semanticKey then (d1, False)
                  else (d1\<lparr>dd_seenSemanticKeys :=
                          mput semanticKey (now + tc_dedupeTtlMs config) (dd_seenSemanticKeys d1)\<rparr>,
                        True)))"

section \<open>Lemmas: deduplication\<close>

abbreviation dedupe_ok :: "dedupe \<Rightarrow> bool" where
  "dedupe_ok d \<equiv> map_ok (dd_seenEventIds d) \<and> map_ok (dd_seenSemanticKeys d)"

text \<open>The two maps of the owner are stores whose entries expire at the recorded time.\<close>

interpretation seen: ttl_store map_of AList.update AList.delete "\<lambda>m. distinct (map fst m)"
    prune_seen "\<lambda>now expiresAt. now < expiresAt"
  by unfold_locales (auto simp: prune_seen_def mget_filter map_ok_filter not_le split: option.splits)

definition live_entry :: "int \<Rightarrow> (string, int) jsmap \<Rightarrow> string \<Rightarrow> bool" where
  "live_entry now m k \<longleftrightarrow> (case mget m k of None \<Rightarrow> False | Some e \<Rightarrow> now < e)"

lemma live_entry_iff: "map_ok m \<Longrightarrow> live_entry now m k \<longleftrightarrow> mhas (prune_seen now m) k"
  by (auto simp: seen.get_sweep live_entry_def split: option.splits)

lemma dedupe_ok_step: "dedupe_ok d \<Longrightarrow> dedupe_ok (fst (shouldProcessTransportEvent c now ev d))"
  by (simp add: shouldProcessTransportEvent_def Let_def pruneTransportDedupeEntries_def
      seen.ok_sweep split: option.splits)

text \<open>A live entry of either map stays as it is, whatever event is examined.\<close>

lemma id_entry_kept:
  assumes "dedupe_ok d" and "mget (dd_seenEventIds d) k = Some e" and "now < e"
  shows "mget (dd_seenEventIds (fst (shouldProcessTransportEvent c now ev d))) k = Some e"
proof -
  have kept: "mget (prune_seen now (dd_seenEventIds d)) k = Some e"
    using assms by (simp add: seen.get_sweep)
  then show ?thesis
    by (cases "event_id ev = k")
       (simp_all add: shouldProcessTransportEvent_def Let_def pruneTransportDedupeEntries_def
         split: option.splits)
qed

lemma semantic_entry_kept:
  assumes "dedupe_ok d" and "mget (dd_seenSemanticKeys d) k = Some e" and "now < e"
  shows "mget (dd_seenSemanticKeys (fst (shouldProcessTransportEvent c now ev d))) k = Some e"
proof -
  have kept: "mget (prune_seen now (dd_seenSemanticKeys d)) k = Some e"
    using assms by (simp add: seen.get_sweep)
  then show ?thesis
    by (auto simp: shouldProcessTransportEvent_def Let_def pruneTransportDedupeEntries_def
        split: option.splits)
qed

lemma buildSemanticKey_nonempty: "buildSemanticKey ev = Some k \<Longrightarrow> k \<noteq> []"
  by (auto simp: buildSemanticKey_def Let_def semantic_identity_keys_def split: if_splits)

lemma accepted_records:
  assumes ok: "dedupe_ok d" and acc: "shouldProcessTransportEvent c now ev d = (d1, True)"
  shows "mget (dd_seenEventIds d1) (event_id ev) = Some (now + tc_dedupeTtlMs c)"
    and "tc_semanticDedupeEnabled c \<Longrightarrow> buildSemanticKey ev = Some k \<Longrightarrow>
      mget (dd_seenSemanticKeys d1) k = Some (now + tc_dedupeTtlMs c)"
  using acc
  by (auto simp: shouldProcessTransportEvent_def Let_def split: option.splits if_splits
      dest: buildSemanticKey_nonempty)

text \<open>The owner's decisions over a sequence of examined events.\<close>

fun dedupe_run :: "TransportConfig \<Rightarrow> dedupe \<Rightarrow> (int \<times> event) list \<Rightarrow> dedupe" where
  "dedupe_run c d [] = d"
| "dedupe_run c d ((now, ev) # xs) =
     dedupe_run c (fst (shouldProcessTransportEvent c now ev d)) xs"

lemma dedupe_run_ok: "dedupe_ok d \<Longrightarrow> dedupe_ok (dedupe_run c d xs)"
  by (induction c d xs rule: dedupe_run.induct) (auto simp: dedupe_ok_step)

lemma id_entry_kept_run:
  "dedupe_ok d \<Longrightarrow> mget (dd_seenEventIds d) k = Some e \<Longrightarrow> \<forall>(t, ev) \<in> set xs. t < e \<Longrightarrow>
   mget (dd_seenEventIds (dedupe_run c d xs)) k = Some e"
  by (induction c d xs rule: dedupe_run.induct) (auto simp: dedupe_ok_step id_entry_kept)

lemma semantic_entry_kept_run:
  "dedupe_ok d \<Longrightarrow> mget (dd_seenSemanticKeys d) k = Some e \<Longrightarrow> \<forall>(t, ev) \<in> set xs. t < e \<Longrightarrow>
   mget (dd_seenSemanticKeys (dedupe_run c d xs)) k = Some e"
  by (induction c d xs rule: dedupe_run.induct) (auto simp: dedupe_ok_step semantic_entry_kept)

lemma dedupe_decision:
  assumes "dedupe_ok d"
  shows "snd (shouldProcessTransportEvent c now ev d) \<longleftrightarrow>
     \<not> live_entry now (dd_seenEventIds d) (event_id ev) \<and>
     (tc_semanticDedupeEnabled c \<longrightarrow>
       (\<forall>k. buildSemanticKey ev = Some k \<longrightarrow> \<not> live_entry now (dd_seenSemanticKeys d) k))"
  using assms
  by (auto simp: shouldProcessTransportEvent_def pruneTransportDedupeEntries_def Let_def
      live_entry_iff dest: buildSemanticKey_nonempty split: option.splits)

text \<open>
  The decision of the owner's deduplication: an event is processed exactly when no live
  entry has its event id and, with semantic deduplication enabled, no live entry has its
  semantic key (an event without any identity field has none).
\<close>

theorem shouldProcess_decision:
  assumes "dedupe_ok d"
  shows "snd (shouldProcessTransportEvent c now ev d) \<longleftrightarrow>
     \<not> live_entry now (dd_seenEventIds d) (event_id ev) \<and>
     (tc_semanticDedupeEnabled c \<longrightarrow>
       (\<forall>k. buildSemanticKey ev = Some k \<longrightarrow> \<not> live_entry now (dd_seenSemanticKeys d) k))"
  by (rule dedupe_decision [OF assms])

theorem shouldProcess_decision_witness:
  "\<not> snd (shouldProcessTransportEvent default_transport 5 sample_event
     \<lparr> dd_seenEventIds = [(''e1'', 9)], dd_seenSemanticKeys = [] \<rparr>)"
  using shouldProcess_decision [of "\<lparr> dd_seenEventIds = [(''e1'', 9)], dd_seenSemanticKeys = [] \<rparr>"
      default_transport 5 sample_event]
  by (simp add: live_entry_def event_id_def sample_event_def ostr_def)

text \<open>
  C5. Once the owner has processed an event at time \<open>t\<close>, it processes no second event with the
  same event id before \<open>t + dedupeTtlMs\<close>, and with semantic deduplication enabled none with
  the same semantic key either, whatever events it examines in between.
\<close>

theorem dedupe_at_most_once:
  assumes ok: "dedupe_ok d"
    and accepted: "shouldProcessTransportEvent c t ev d = (d1, True)"
    and between: "\<forall>(u, e) \<in> set xs. u < t + tc_dedupeTtlMs c"
    and inside: "t2 < t + tc_dedupeTtlMs c"
    and same: "event_id ev2 = event_id ev \<or>
      (tc_semanticDedupeEnabled c \<and> buildSemanticKey ev \<noteq> None \<and>
       buildSemanticKey ev2 = buildSemanticKey ev)"
  shows "\<not> snd (shouldProcessTransportEvent c t2 ev2 (dedupe_run c d1 xs))"
proof -
  have ok1: "dedupe_ok d1" using dedupe_ok_step [OF ok, of c t ev] accepted by simp
  have ok2: "dedupe_ok (dedupe_run c d1 xs)" by (rule dedupe_run_ok [OF ok1])
  have ids: "live_entry t2 (dd_seenEventIds (dedupe_run c d1 xs)) (event_id ev)"
    using id_entry_kept_run [OF ok1 accepted_records(1) [OF ok accepted] between] inside
    by (simp add: live_entry_def)
  show ?thesis
  proof (cases "event_id ev2 = event_id ev")
    case True
    with ids show ?thesis by (simp add: dedupe_decision [OF ok2])
  next
    case False
    with same obtain k where k: "tc_semanticDedupeEnabled c" "buildSemanticKey ev = Some k"
        "buildSemanticKey ev2 = Some k"
      by auto
    have "live_entry t2 (dd_seenSemanticKeys (dedupe_run c d1 xs)) k"
      using semantic_entry_kept_run [OF ok1 accepted_records(2) [OF ok accepted k(1,2)] between] inside
      by (simp add: live_entry_def)
    with k show ?thesis by (simp add: dedupe_decision [OF ok2])
  qed
qed

definition empty_dedupe :: dedupe where
  "empty_dedupe = \<lparr> dd_seenEventIds = [], dd_seenSemanticKeys = [] \<rparr>"

definition resent_event :: event where
  "resent_event = mput ''eventId'' (JStr ''e2'') sample_event"

lemma resent_same_key: "buildSemanticKey resent_event = buildSemanticKey sample_event"
  "buildSemanticKey sample_event \<noteq> None"
  by code_simp+

theorem dedupe_at_most_once_witness:
  "\<not> snd (shouldProcessTransportEvent default_transport 7 resent_event
     (dedupe_run default_transport (fst (shouldProcessTransportEvent default_transport 5 sample_event empty_dedupe))
       [(6, [(''eventId'', JStr ''e3'')])]))"
proof (rule dedupe_at_most_once [where t = 5 and ev = sample_event])
  show "shouldProcessTransportEvent default_transport 5 sample_event empty_dedupe =
     (fst (shouldProcessTransportEvent default_transport 5 sample_event empty_dedupe), True)"
    by code_simp
qed (simp_all add: empty_dedupe_def resent_same_key default_transport_def)

end
