(* ===== verification/Manager.thy ===== *)
theory Manager imports Lock Dedupe begin

text \<open>
  The transport manager of \<open>src/transport/manager.ts\<close> as a state machine. One operation is one
  stretch of code that runs without giving up control: a call from outside, a timer that fires,
  or the continuation after an \<open>await\<close>. \<open>m_pc\<close> says where the asynchronous flush is suspended.
  What the lock file and the disk answer is an argument of the operations; the promise results
  of the relay client and of \<open>onOwnerEvent\<close> are operations of their own, so every interleaving
  of them with the other operations is a sequence of steps. \<open>m_trace\<close> records the observable
  effects in order.
\<close>

section \<open>State\<close>

datatype TransportRole = Owner | Follower

datatype flush_pc =
    FlushIdle
  | AwaitOwner
  | AwaitRelay event

datatype effect =
    Queued event
  | DroppedOldest event
  | RelaySent event
  | RelayAcked event
  | Shifted event
  | OwnerTook event
  | OwnerEvent event
  | RoleChange TransportRole
  | ServerStarted
  | ServerClosed
  | HeartbeatWritten
  | LockReleased

record settings =
  s_config :: TransportConfig
  s_runtimeId :: string
  s_pid :: int
  s_hostname :: string

record manager =
  m_seen :: dedupe
  m_role :: TransportRole
  m_server :: bool
  m_heartbeatTimer :: bool
  m_retryTimer :: "int option"
  m_ownerRecoveryTimer :: "int option"
  m_pendingEvents :: "event list"
  m_flushing :: bool
  m_stopped :: bool
  m_ownsLock :: bool
  m_nextOwnerRecoveryDelayMs :: "int option"
  m_lastLiveOwnerConflictKey :: "string option"
  m_pc :: flush_pc
  m_stopWaits :: bool
  m_trace :: "effect list"

definition new_manager :: manager where
  "new_manager =
     \<lparr> m_seen = \<lparr> dd_seenEventIds = [], dd_seenSemanticKeys = [] \<rparr>, m_role = Follower,
       m_server = False, m_heartbeatTimer = False, m_retryTimer = None, m_ownerRecoveryTimer = None,
       m_pendingEvents = [], m_flushing = False, m_stopped = False, m_ownsLock = False,
       m_nextOwnerRecoveryDelayMs = None, m_lastLiveOwnerConflictKey = None,
       m_pc = FlushIdle, m_stopWaits = False, m_trace = [] \<rparr>"

definition emit :: "effect \<Rightarrow> manager \<Rightarrow> manager" where
  "emit x m = m\<lparr>m_trace := m_trace m @ [x]\<rparr>"

section \<open>Roles, the lock and the server\<close>

definition setRole :: "TransportRole \<Rightarrow> manager \<Rightarrow> manager" where
  "setRole role m = (if m_role m = role then m else emit (RoleChange role) (m\<lparr>m_role := role\<rparr>))"

definition releaseLock :: "manager \<Rightarrow> manager" where
  "releaseLock m = (emit LockReleased m)\<lparr>m_ownsLock := False\<rparr>"

text \<open>\<open>ok\<close> is what \<open>writeTransportHeartbeat\<close> returns.\<close>

definition writeHeartbeat :: "bool \<Rightarrow> manager \<Rightarrow> bool \<times> manager" where
  "writeHeartbeat ok m =
     (if \<not> m_ownsLock m then (False, m)
      else if ok then (True, emit HeartbeatWritten m) else (False, m))"

definition startHeartbeat :: "bool \<Rightarrow> manager \<Rightarrow> manager" where
  "startHeartbeat ok m =
     (case writeHeartbeat ok (m\<lparr>m_heartbeatTimer := False\<rparr>) of
        (False, m1) \<Rightarrow> m1
      | (True, m1) \<Rightarrow> m1\<lparr>m_heartbeatTimer := True\<rparr>)"

definition startOwnerServer :: "manager \<Rightarrow> manager" where
  "startOwnerServer m = (if m_server m then m else emit ServerStarted (m\<lparr>m_server := True\<rparr>))"

definition handleOwnerAcquireFailure ::
  "settings \<Rightarrow> TransportLockAcquireResult \<Rightarrow> manager \<Rightarrow> manager" where
  "handleOwnerAcquireFailure s result m =
     (case resolveOwnerAcquireFailure (s_config s) result (m_lastLiveOwnerConflictKey m) of
        (key, delay, _) \<Rightarrow>
          m\<lparr>m_lastLiveOwnerConflictKey := key, m_nextOwnerRecoveryDelayMs := Some delay\<rparr>)"

definition tryBecomeOwner ::
  "settings \<Rightarrow> TransportLockAcquireResult \<Rightarrow> bool \<Rightarrow> manager \<Rightarrow> bool \<times> manager" where
  "tryBecomeOwner s result hbOk m =
     (if result \<noteq> Acquired
      then (False, setRole Follower (handleOwnerAcquireFailure s result m))
      else let m1 = m\<lparr> m_ownsLock := True, m_nextOwnerRecoveryDelayMs := None,
                       m_lastLiveOwnerConflictKey := None, m_ownerRecoveryTimer := None \<rparr>
           in (True, startHeartbeat hbOk (startOwnerServer (setRole Owner m1))))"

definition tryPromoteFromFollower ::
  "settings \<Rightarrow> TransportLockAcquireResult \<Rightarrow> bool \<Rightarrow> manager \<Rightarrow> bool \<times> manager" where
  "tryPromoteFromFollower s result hbOk m =
     (if m_role m = Follower then tryBecomeOwner s result hbOk m else (False, m))"

definition scheduleOwnerRecovery :: "settings \<Rightarrow> int \<Rightarrow> manager \<Rightarrow> manager" where
  "scheduleOwnerRecovery s delayMs m =
     (if tc_mode (s_config s) = ''follower'' \<or> m_stopped m \<or> m_ownerRecoveryTimer m \<noteq> None then m
      else m\<lparr>m_ownerRecoveryTimer := Some delayMs\<rparr>)"

definition scheduleFlush :: "int \<Rightarrow> manager \<Rightarrow> manager" where
  "scheduleFlush delayMs m =
     (if m_retryTimer m \<noteq> None \<or> m_stopped m then m else m\<lparr>m_retryTimer := Some delayMs\<rparr>)"

definition handleOwnerFailure :: "settings \<Rightarrow> manager \<Rightarrow> manager" where
  "handleOwnerFailure s m =
     (if m_stopped m \<or> m_role m \<noteq> Owner then m
      else let m1 = (if m_server m then emit ServerClosed (m\<lparr>m_server := False\<rparr>) else m);
               m2 = m1\<lparr>m_heartbeatTimer := False\<rparr>;
               m3 = (if m_ownsLock m2 then releaseLock m2 else m2);
               m4 = scheduleOwnerRecovery s (tc_reconnectBackoffMs (s_config s)) (setRole Follower m3)
           in if m_pendingEvents m4 \<noteq> []
              then scheduleFlush (tc_reconnectBackoffMs (s_config s)) m4 else m4)"

section \<open>Events\<close>

definition annotate :: "settings \<Rightarrow> event \<Rightarrow> string \<Rightarrow> string \<Rightarrow> string option \<Rightarrow> event" where
  "annotate s ev role route ownerId =
     cloneEventWithTransportMetadata (s_pid s) (s_hostname s) ev (s_runtimeId s) role route ownerId"

definition processOwnerEvent :: "settings \<Rightarrow> int \<Rightarrow> event \<Rightarrow> string \<Rightarrow> manager \<Rightarrow> manager" where
  "processOwnerEvent s now ev route m =
     (case shouldProcessTransportEvent (s_config s) now ev (m_seen m) of
        (seen1, False) \<Rightarrow> m\<lparr>m_seen := seen1\<rparr>
      | (seen1, True) \<Rightarrow>
          emit (OwnerEvent (annotate s ev ''owner'' route (Some (s_runtimeId s)))) (m\<lparr>m_seen := seen1\<rparr>))"

definition enqueueForFollowerRelay :: "settings \<Rightarrow> event \<Rightarrow> manager \<Rightarrow> manager" where
  "enqueueForFollowerRelay s ev m =
     (let full = int (length (m_pendingEvents m)) \<ge> tc_maxPendingEvents (s_config s);
          m1 = (if full
                then (case m_pendingEvents m of
                        [] \<Rightarrow> m
                      | oldest # rest \<Rightarrow> emit (DroppedOldest oldest) (m\<lparr>m_pendingEvents := rest\<rparr>))
                else m)
      in scheduleFlush 0 (emit (Queued ev) (m1\<lparr>m_pendingEvents := m_pendingEvents m1 @ [ev]\<rparr>)))"

definition dispatch :: "settings \<Rightarrow> int \<Rightarrow> event \<Rightarrow> manager \<Rightarrow> manager" where
  "dispatch s now ev m =
     (let annotated = annotate s ev (if m_role m = Owner then ''owner'' else ''follower'') ''local'' None in
      if m_role m = Owner then processOwnerEvent s now annotated ''local'' m
      else enqueueForFollowerRelay s annotated m)"

text \<open>The relay server's \<open>onEvent\<close>.\<close>

definition onRelayEvent :: "settings \<Rightarrow> int \<Rightarrow> event \<Rightarrow> manager \<Rightarrow> manager" where
  "onRelayEvent s now ev m =
     processOwnerEvent s now (annotate s ev ''owner'' ''relay'' (Some (s_runtimeId s))) ''relay'' m"

section \<open>The flush\<close>

definition flush_finally :: "settings \<Rightarrow> manager \<Rightarrow> manager" where
  "flush_finally s m =
     (let m1 = m\<lparr>m_flushing := False, m_pc := FlushIdle\<rparr> in
      if m_pendingEvents m1 \<noteq> [] \<and> m_retryTimer m1 = None \<and> \<not> m_stopped m1
      then scheduleFlush (tc_reconnectBackoffMs (s_config s)) m1 else m1)"

text \<open>One turn of the \<open>while\<close> loop: it ends, or it suspends at one of the two \<open>await\<close>s.\<close>

definition flush_loop :: "settings \<Rightarrow> int \<Rightarrow> manager \<Rightarrow> manager" where
  "flush_loop s now m =
     (case m_pendingEvents m of
        [] \<Rightarrow> flush_finally s m
      | next # rest \<Rightarrow>
          if m_stopped m then flush_finally s m
          else if m_role m = Owner
          then (processOwnerEvent s now next ''local'' (emit (OwnerTook next) (m\<lparr>m_pendingEvents := rest\<rparr>)))
                 \<lparr>m_pc := AwaitOwner\<rparr>
          else emit (RelaySent next) (m\<lparr>m_pc := AwaitRelay next\<rparr>))"

definition flushPendingFollowerEvents :: "settings \<Rightarrow> int \<Rightarrow> manager \<Rightarrow> manager" where
  "flushPendingFollowerEvents s now m =
     (if m_flushing m \<or> m_stopped m then m else flush_loop s now (m\<lparr>m_flushing := True\<rparr>))"

definition shift_pending :: "manager \<Rightarrow> manager" where
  "shift_pending m =
     (case m_pendingEvents m of
        [] \<Rightarrow> m
      | x # xs \<Rightarrow> emit (Shifted x) (m\<lparr>m_pendingEvents := xs\<rparr>))"

text \<open>After \<open>await this.sendToOwner(next)\<close>: resolved, or rejected and caught.\<close>

definition relay_settled ::
  "settings \<Rightarrow> int \<Rightarrow> event \<Rightarrow> bool \<Rightarrow> TransportLockAcquireResult \<Rightarrow> bool \<Rightarrow> manager \<Rightarrow> manager" where
  "relay_settled s now sent ok result hbOk m =
     (if ok then flush_loop s now (shift_pending (emit (RelayAcked sent) m))
      else if tc_mode (s_config s) = ''auto''
      then (case tryPromoteFromFollower s result hbOk m of
              (True, m1) \<Rightarrow> flush_loop s now m1
            | (False, m1) \<Rightarrow>
                flush_finally s (scheduleFlush (tc_reconnectBackoffMs (s_config s)) m1))
      else flush_finally s (scheduleFlush (tc_reconnectBackoffMs (s_config s)) m))"

text \<open>After \<open>await this.processOwnerEvent(next)\<close>: a rejection leaves the loop.\<close>

definition owner_settled :: "settings \<Rightarrow> int \<Rightarrow> bool \<Rightarrow> manager \<Rightarrow> manager" where
  "owner_settled s now ok m = (if ok then flush_loop s now m else flush_finally s m)"

section \<open>Timer callbacks\<close>

definition ownerRecoveryFires ::
  "settings \<Rightarrow> TransportLockAcquireResult \<Rightarrow> bool \<Rightarrow> manager \<Rightarrow> manager" where
  "ownerRecoveryFires s result hbOk m =
     (let m1 = m\<lparr>m_ownerRecoveryTimer := None\<rparr> in
      if m_stopped m1 \<or> m_role m1 = Owner then m1
      else (case tryBecomeOwner s result hbOk m1 of
              (True, m2) \<Rightarrow> m2
            | (False, m2) \<Rightarrow> scheduleOwnerRecovery s (tc_reconnectBackoffMs (s_config s)) m2))"

definition heartbeatFires :: "settings \<Rightarrow> bool \<Rightarrow> manager \<Rightarrow> manager" where
  "heartbeatFires s ok m =
     (case writeHeartbeat ok m of
        (True, m1) \<Rightarrow> m1
      | (False, m1) \<Rightarrow> handleOwnerFailure s m1)"

section \<open>Start and stop\<close>

definition start :: "settings \<Rightarrow> TransportLockAcquireResult \<Rightarrow> bool \<Rightarrow> manager \<Rightarrow> manager" where
  "start s result hbOk m =
     (let m0 = m\<lparr>m_stopped := False\<rparr> in
      if tc_mode (s_config s) = ''follower'' then setRole Follower m0
      else (case tryBecomeOwner s result hbOk m0 of
              (True, m1) \<Rightarrow> m1
            | (False, m1) \<Rightarrow>
                let m2 = setRole Follower m1 in
                scheduleOwnerRecovery s
                  (default_to (tc_reconnectBackoffMs (s_config s)) (m_nextOwnerRecoveryDelayMs m2)) m2))"

text \<open>\<open>stop\<close> up to the \<open>await\<close> of the server's close, and the rest.\<close>

definition stop_finish :: "manager \<Rightarrow> manager" where
  "stop_finish m = (if m_ownsLock m then releaseLock m else m)"

definition stop :: "manager \<Rightarrow> manager" where
  "stop m =
     (let m1 = m\<lparr> m_stopped := True, m_ownerRecoveryTimer := None, m_retryTimer := None,
                  m_heartbeatTimer := False \<rparr> in
      if m_server m1 then emit ServerClosed (m1\<lparr>m_server := False, m_stopWaits := True\<rparr>)
      else stop_finish m1)"

section \<open>The machine\<close>

datatype manager_op =
    Dispatch int event
  | RelayIncoming int event
  | RetryTimerFires int
  | RelaySettled int bool TransportLockAcquireResult bool
  | OwnerSettled int bool
  | RecoveryTimerFires TransportLockAcquireResult bool
  | HeartbeatTick bool
  | ServerClosedEvent
  | ServerError
  | Stop
  | StopServerClosed

fun manager_step :: "settings \<Rightarrow> manager_op \<Rightarrow> manager \<Rightarrow> manager" where
  "manager_step s (Dispatch now ev) m = dispatch s now ev m"
| "manager_step s (RelayIncoming now ev) m = onRelayEvent s now ev m"
| "manager_step s (RetryTimerFires now) m =
     (if m_retryTimer m = None then m
      else flushPendingFollowerEvents s now (m\<lparr>m_retryTimer := None\<rparr>))"
| "manager_step s (RelaySettled now ok result hbOk) m =
     (case m_pc m of AwaitRelay sent \<Rightarrow> relay_settled s now sent ok result hbOk m | _ \<Rightarrow> m)"
| "manager_step s (OwnerSettled now ok) m =
     (case m_pc m of AwaitOwner \<Rightarrow> owner_settled s now ok m | _ \<Rightarrow> m)"
| "manager_step s (RecoveryTimerFires result hbOk) m =
     (if m_ownerRecoveryTimer m = None then m else ownerRecoveryFires s result hbOk m)"
| "manager_step s (HeartbeatTick ok) m =
     (if \<not> m_heartbeatTimer m then m else heartbeatFires s ok m)"
| "manager_step s ServerClosedEvent m = handleOwnerFailure s m"
| "manager_step s ServerError m = handleOwnerFailure s m"
| "manager_step s Stop m = stop m"
| "manager_step s StopServerClosed m =
     (if m_stopWaits m then stop_finish (m\<lparr>m_stopWaits := False\<rparr>) else m)"

section \<open>Lemmas\<close>

lemma emit_simps [simp]:
  "m_seen (emit x m) = m_seen m" "m_role (emit x m) = m_role m" "m_server (emit x m) = m_server m"
  "m_heartbeatTimer (emit x m) = m_heartbeatTimer m" "m_retryTimer (emit x m) = m_retryTimer m"
  "m_ownerRecoveryTimer (emit x m) = m_ownerRecoveryTimer m" "m_pendingEvents (emit x m) = m_pendingEvents m"
  "m_flushing (emit x m) = m_flushing m" "m_stopped (emit x m) = m_stopped m" "m_ownsLock (emit x m) = m_ownsLock m"
  "m_pc (emit x m) = m_pc m" "m_stopWaits (emit x m) = m_stopWaits m" "m_trace (emit x m) = m_trace m @ [x]"
  by (simp_all add: emit_def)

text \<open>The events queued, and the events that left the queue because someone took charge of them.\<close>

definition queued :: "effect list \<Rightarrow> event list" where
  "queued tr = concat (map (\<lambda>x. case x of Queued e \<Rightarrow> [e] | _ \<Rightarrow> []) tr)"

definition handled :: "effect list \<Rightarrow> event list" where
  "handled tr = concat (map (\<lambda>x. case x of RelayAcked e \<Rightarrow> [e] | OwnerTook e \<Rightarrow> [e] | _ \<Rightarrow> []) tr)"

definition overflowed :: "effect list \<Rightarrow> bool" where
  "overflowed tr = list_ex (\<lambda>x. case x of DroppedOldest e \<Rightarrow> True | _ \<Rightarrow> False) tr"

lemma trace_simps [simp]:
  "queued (tr @ tr2) = queued tr @ queued tr2" "handled (tr @ tr2) = handled tr @ handled tr2"
  "overflowed (tr @ tr2) = (overflowed tr \<or> overflowed tr2)"
  "queued [] = []" "handled [] = []" "overflowed [] = False"
  "queued (x # tr) = (case x of Queued e \<Rightarrow> [e] | _ \<Rightarrow> []) @ queued tr"
  "handled (x # tr) = (case x of RelayAcked e \<Rightarrow> [e] | OwnerTook e \<Rightarrow> [e] | _ \<Rightarrow> []) @ handled tr"
  "overflowed (x # tr) = ((case x of DroppedOldest e \<Rightarrow> True | _ \<Rightarrow> False) \<or> overflowed tr)"
  by (simp_all add: queued_def handled_def overflowed_def)

text \<open>
  What holds between operations: an owner that was not stopped has its lock and server, a
  follower has neither and, unless its mode forbids it, a recovery attempt pending; a stopped
  manager has no timer.
\<close>

definition roles_ok :: "settings \<Rightarrow> manager \<Rightarrow> bool" where
  "roles_ok s m \<longleftrightarrow>
     (if m_stopped m then m_ownerRecoveryTimer m = None \<and> m_retryTimer m = None else True) \<and>
     (case m_role m of
        Owner \<Rightarrow>
          if m_server m then m_ownsLock m \<and> \<not> m_stopWaits m
          else m_stopped m \<and> \<not> m_heartbeatTimer m
      | Follower \<Rightarrow>
          \<not> m_ownsLock m \<and> \<not> m_server m \<and> \<not> m_heartbeatTimer m \<and> \<not> m_stopWaits m \<and>
          (m_stopped m \<or> tc_mode (s_config s) = ''follower'' \<or> m_ownerRecoveryTimer m \<noteq> None))"

definition queue_ok :: "settings \<Rightarrow> manager \<Rightarrow> bool" where
  "queue_ok s m \<longleftrightarrow>
     length (m_pendingEvents m) \<le> nat (tc_maxPendingEvents (s_config s)) \<and>
     (m_flushing m \<longleftrightarrow> m_pc m \<noteq> FlushIdle) \<and>
     (m_pendingEvents m \<noteq> [] \<longrightarrow> \<not> m_stopped m \<longrightarrow> m_flushing m \<or> m_retryTimer m \<noteq> None)"

definition fifo_ok :: "manager \<Rightarrow> bool" where
  "fifo_ok m \<longleftrightarrow> overflowed (m_trace m) \<or>
     (queued (m_trace m) = handled (m_trace m) @ m_pendingEvents m \<and>
      (case m_pc m of AwaitRelay e \<Rightarrow> m_pendingEvents m \<noteq> [] \<and> hd (m_pendingEvents m) = e | _ \<Rightarrow> True))"

lemma processOwnerEvent_frame [simp]:
  "m_role (processOwnerEvent s now ev r m) = m_role m" "m_server (processOwnerEvent s now ev r m) = m_server m"
  "m_heartbeatTimer (processOwnerEvent s now ev r m) = m_heartbeatTimer m"
  "m_retryTimer (processOwnerEvent s now ev r m) = m_retryTimer m"
  "m_ownerRecoveryTimer (processOwnerEvent s now ev r m) = m_ownerRecoveryTimer m"
  "m_pendingEvents (processOwnerEvent s now ev r m) = m_pendingEvents m"
  "m_flushing (processOwnerEvent s now ev r m) = m_flushing m" "m_stopped (processOwnerEvent s now ev r m) = m_stopped m"
  "m_ownsLock (processOwnerEvent s now ev r m) = m_ownsLock m" "m_pc (processOwnerEvent s now ev r m) = m_pc m"
  "m_stopWaits (processOwnerEvent s now ev r m) = m_stopWaits m"
  "queued (m_trace (processOwnerEvent s now ev r m)) = queued (m_trace m)"
  "handled (m_trace (processOwnerEvent s now ev r m)) = handled (m_trace m)"
  "overflowed (m_trace (processOwnerEvent s now ev r m)) = overflowed (m_trace m)"
  by (simp_all add: processOwnerEvent_def split: prod.splits bool.splits)


lemma roles_ok_frame [simp]:
  "roles_ok s (m\<lparr>m_pendingEvents := x\<rparr>) = roles_ok s m" "roles_ok s (m\<lparr>m_pc := pc\<rparr>) = roles_ok s m"
  "roles_ok s (m\<lparr>m_flushing := b\<rparr>) = roles_ok s m" "roles_ok s (m\<lparr>m_seen := d\<rparr>) = roles_ok s m"
  "roles_ok s (emit y m) = roles_ok s m" "roles_ok s (processOwnerEvent s2 now ev r m) = roles_ok s m"
  by (cases "m_role m"; simp add: roles_ok_def)+

lemma roles_ok_untimed: "roles_ok s m \<Longrightarrow> roles_ok s (m\<lparr>m_retryTimer := None\<rparr>)"
  by (cases "m_role m") (simp_all add: roles_ok_def)

lemma roles_ok_scheduleFlush [simp]: "roles_ok s m \<Longrightarrow> roles_ok s (scheduleFlush d m)"
  by (cases "m_stopped m"; cases "m_role m"; cases "m_server m")
     (simp_all add: roles_ok_def scheduleFlush_def)

lemma roles_ok_enqueue [simp]: "roles_ok s m \<Longrightarrow> roles_ok s (enqueueForFollowerRelay s2 ev m)"
  by (cases "m_pendingEvents m") (simp_all add: enqueueForFollowerRelay_def Let_def)

lemma roles_ok_finally [simp]: "roles_ok s m \<Longrightarrow> roles_ok s (flush_finally s2 m)"
  by (simp add: flush_finally_def Let_def)

lemma roles_ok_loop [simp]: "roles_ok s m \<Longrightarrow> roles_ok s (flush_loop s2 now m)"
  by (cases "m_pendingEvents m") (simp_all add: flush_loop_def)

lemma roles_ok_shift [simp]: "roles_ok s m \<Longrightarrow> roles_ok s (shift_pending m)"
  by (cases "m_pendingEvents m") (simp_all add: shift_pending_def)

lemma roles_ok_failure [simp]: "roles_ok s m \<Longrightarrow> roles_ok s (handleOwnerFailure s m)"
proof -
  assume "roles_ok s m"
  then show ?thesis
    by (cases "m_role m"; cases "m_stopped m"; cases "m_server m")
       (simp_all add: handleOwnerFailure_def Let_def setRole_def releaseLock_def scheduleOwnerRecovery_def
         scheduleFlush_def, simp_all add: roles_ok_def)
qed


lemma acquireFailure_frame [simp]:
  "m_pendingEvents (handleOwnerAcquireFailure s r m) = m_pendingEvents m"
  "m_pc (handleOwnerAcquireFailure s r m) = m_pc m" "m_trace (handleOwnerAcquireFailure s r m) = m_trace m"
  "m_flushing (handleOwnerAcquireFailure s r m) = m_flushing m"
  "m_stopped (handleOwnerAcquireFailure s r m) = m_stopped m"
  "m_retryTimer (handleOwnerAcquireFailure s r m) = m_retryTimer m"
  "m_ownerRecoveryTimer (handleOwnerAcquireFailure s r m) = m_ownerRecoveryTimer m"
  "m_role (handleOwnerAcquireFailure s r m) = m_role m" "m_ownsLock (handleOwnerAcquireFailure s r m) = m_ownsLock m"
  "m_server (handleOwnerAcquireFailure s r m) = m_server m" "m_stopWaits (handleOwnerAcquireFailure s r m) = m_stopWaits m"
  "m_heartbeatTimer (handleOwnerAcquireFailure s r m) = m_heartbeatTimer m"
  by (simp_all add: handleOwnerAcquireFailure_def split: prod.splits)

lemma roles_ok_acquireFailure [simp]: "roles_ok s2 (handleOwnerAcquireFailure s r m) = roles_ok s2 m"
  by (cases "m_role m") (simp_all add: roles_ok_def)

lemma tryBecomeOwner_lost:
  "m_role m = Follower \<Longrightarrow> result \<noteq> Acquired \<Longrightarrow>
   tryBecomeOwner s result hbOk m = (False, handleOwnerAcquireFailure s result m)"
  by (simp add: tryBecomeOwner_def setRole_def)

definition promoted :: "settings \<Rightarrow> bool \<Rightarrow> manager \<Rightarrow> manager" where
  "promoted s hbOk m = snd (tryBecomeOwner s Acquired hbOk m)"

lemma tryBecomeOwner_won: "tryBecomeOwner s Acquired hbOk m = (True, promoted s hbOk m)"
  by (simp add: promoted_def tryBecomeOwner_def Let_def)

lemma promoted_frame [simp]:
  "m_pendingEvents (promoted s h m) = m_pendingEvents m" "m_pc (promoted s h m) = m_pc m"
  "m_flushing (promoted s h m) = m_flushing m" "m_stopped (promoted s h m) = m_stopped m"
  "m_retryTimer (promoted s h m) = m_retryTimer m" "m_seen (promoted s h m) = m_seen m"
  "m_role (promoted s h m) = Owner" "m_server (promoted s h m)" "m_ownsLock (promoted s h m)"
  "m_ownerRecoveryTimer (promoted s h m) = None" "m_stopWaits (promoted s h m) = m_stopWaits m"
  "queued (m_trace (promoted s h m)) = queued (m_trace m)"
  "handled (m_trace (promoted s h m)) = handled (m_trace m)"
  "overflowed (m_trace (promoted s h m)) = overflowed (m_trace m)"
  by (simp_all add: promoted_def tryBecomeOwner_def Let_def setRole_def startOwnerServer_def
      startHeartbeat_def writeHeartbeat_def split: prod.splits)

lemma roles_ok_promoted:
  "roles_ok s (m\<lparr>m_ownerRecoveryTimer := t\<rparr>) \<Longrightarrow> m_role m = Follower \<Longrightarrow> roles_ok s (promoted s2 h m)"
  by (cases "m_stopped m") (simp_all add: roles_ok_def)

lemma roles_ok_relay_settled:
  assumes "roles_ok s m"
  shows "roles_ok s (relay_settled s now e ok result hbOk m)"
proof -
  have fresh: "m_role m = Follower \<Longrightarrow> roles_ok s (promoted s hbOk m)"
    using roles_ok_promoted [of s "m_ownerRecoveryTimer m" m] assms by simp
  show ?thesis
    using assms fresh
    by (cases "m_role m"; cases "result = Acquired")
       (simp_all add: relay_settled_def tryPromoteFromFollower_def tryBecomeOwner_won tryBecomeOwner_lost)
qed

lemma recovery_cases:
  assumes "m_ownerRecoveryTimer m = Some d"
  shows "ownerRecoveryFires s result hbOk m =
    (if m_stopped m \<or> m_role m = Owner then m\<lparr>m_ownerRecoveryTimer := None\<rparr>
     else if result = Acquired then promoted s hbOk (m\<lparr>m_ownerRecoveryTimer := None\<rparr>)
     else scheduleOwnerRecovery s (tc_reconnectBackoffMs (s_config s))
            (handleOwnerAcquireFailure s result (m\<lparr>m_ownerRecoveryTimer := None\<rparr>)))"
  by (cases "m_role m") (simp_all add: ownerRecoveryFires_def Let_def tryBecomeOwner_won tryBecomeOwner_lost)

lemma roles_ok_recovery:
  assumes ok: "roles_ok s m" and t: "m_ownerRecoveryTimer m = Some d"
  shows "roles_ok s (ownerRecoveryFires s result hbOk m)"
proof (cases "m_stopped m \<or> m_role m = Owner")
  case True
  with ok t show ?thesis unfolding recovery_cases [OF t]
    by (cases "m_role m"; cases "m_stopped m"; cases "m_server m") (auto simp: roles_ok_def)
next
  case False
  let ?m = "m\<lparr>m_ownerRecoveryTimer := None\<rparr>"
  have fol: "m_role m = Follower" using False by (cases "m_role m") auto
  show ?thesis
    using fol False ok roles_ok_promoted [of s "m_ownerRecoveryTimer m" ?m]
    unfolding recovery_cases [OF t]
    by (simp add: scheduleOwnerRecovery_def, simp add: roles_ok_def)
qed

lemma roles_ok_heartbeat [simp]: "roles_ok s m \<Longrightarrow> roles_ok s (snd (writeHeartbeat ok m))"
  by (simp add: writeHeartbeat_def)

lemma roles_ok_stop [simp]: "roles_ok s m \<Longrightarrow> roles_ok s (stop m)"
  by (cases "m_role m"; cases "m_server m"; cases "m_ownsLock m")
     (simp_all add: stop_def Let_def stop_finish_def releaseLock_def roles_ok_def)

lemma roles_ok_stop_finish: "roles_ok s m \<Longrightarrow> m_stopWaits m \<Longrightarrow> roles_ok s (stop_finish (m\<lparr>m_stopWaits := False\<rparr>))"
  by (cases "m_role m"; cases "m_server m") (simp_all add: stop_finish_def releaseLock_def roles_ok_def)

lemma roles_ok_heartbeatFires [simp]: "roles_ok s m \<Longrightarrow> roles_ok s (heartbeatFires s ok m)"
  by (simp add: heartbeatFires_def writeHeartbeat_def)

lemma roles_ok_step: "roles_ok s m \<Longrightarrow> roles_ok s (manager_step s a m)"
  by (cases a)
     (auto simp: dispatch_def onRelayEvent_def Let_def flushPendingFollowerEvents_def roles_ok_untimed
      roles_ok_relay_settled owner_settled_def roles_ok_stop_finish roles_ok_recovery split: flush_pc.splits)

section \<open>Lemmas: the queue\<close>

text \<open>The follower's queue is a bounded queue that drops its oldest event.\<close>

lemma enqueue_items:
  assumes "0 < nat (tc_maxPendingEvents (s_config s))"
    and "length (m_pendingEvents m) \<le> nat (tc_maxPendingEvents (s_config s))"
  shows "m_pendingEvents (enqueueForFollowerRelay s ev m) =
     last_n (nat (tc_maxPendingEvents (s_config s))) (m_pendingEvents m @ [ev])"
proof -
  have "m_pendingEvents (enqueueForFollowerRelay s ev m) =
      (if nat (tc_maxPendingEvents (s_config s)) \<le> length (m_pendingEvents m)
       then tl (m_pendingEvents m) else m_pendingEvents m) @ [ev]"
    using assms(1)
    by (cases "m_pendingEvents m")
       (auto simp: enqueueForFollowerRelay_def Let_def scheduleFlush_def nat_le_iff)
  also have "\<dots> = last_n (nat (tc_maxPendingEvents (s_config s))) (m_pendingEvents m @ [ev])"
    by (rule drop_oldest_last_n [OF assms])
  finally show ?thesis .
qed

interpretation relay_queue: bounded_fifo m_pendingEvents "enqueueForFollowerRelay s"
    "\<lambda>m. nat (tc_maxPendingEvents (s_config s))" for s
  by unfold_locales (auto simp: enqueue_items)

lemma scheduleFlush_frame [simp]:
  "m_pendingEvents (scheduleFlush d m) = m_pendingEvents m" "m_pc (scheduleFlush d m) = m_pc m"
  "m_flushing (scheduleFlush d m) = m_flushing m" "m_trace (scheduleFlush d m) = m_trace m"
  "m_stopped (scheduleFlush d m) = m_stopped m" "m_role (scheduleFlush d m) = m_role m"
  "m_retryTimer (scheduleFlush d m) =
     (if m_retryTimer m = None \<and> \<not> m_stopped m then Some d else m_retryTimer m)"
  by (simp_all add: scheduleFlush_def)

lemma handleOwnerFailure_frame [simp]:
  "m_pendingEvents (handleOwnerFailure s m) = m_pendingEvents m" "m_pc (handleOwnerFailure s m) = m_pc m"
  "m_flushing (handleOwnerFailure s m) = m_flushing m" "m_stopped (handleOwnerFailure s m) = m_stopped m"
  "m_retryTimer (handleOwnerFailure s m) =
     (if \<not> m_stopped m \<and> m_role m = Owner \<and> m_pendingEvents m \<noteq> [] \<and> m_retryTimer m = None
      then Some (tc_reconnectBackoffMs (s_config s)) else m_retryTimer m)"
  "queued (m_trace (handleOwnerFailure s m)) = queued (m_trace m)"
  "handled (m_trace (handleOwnerFailure s m)) = handled (m_trace m)"
  "overflowed (m_trace (handleOwnerFailure s m)) = overflowed (m_trace m)"
  by (simp_all add: handleOwnerFailure_def Let_def setRole_def releaseLock_def scheduleOwnerRecovery_def
      split: if_splits)

lemma stop_frame [simp]:
  "m_pendingEvents (stop m) = m_pendingEvents m" "m_pc (stop m) = m_pc m" "m_flushing (stop m) = m_flushing m"
  "m_stopped (stop m)" "queued (m_trace (stop m)) = queued (m_trace m)"
  "handled (m_trace (stop m)) = handled (m_trace m)" "overflowed (m_trace (stop m)) = overflowed (m_trace m)"
  by (auto simp: stop_def Let_def stop_finish_def releaseLock_def)

lemma stop_finish_frame [simp]:
  "m_pendingEvents (stop_finish m) = m_pendingEvents m" "m_pc (stop_finish m) = m_pc m"
  "m_flushing (stop_finish m) = m_flushing m" "m_stopped (stop_finish m) = m_stopped m"
  "m_retryTimer (stop_finish m) = m_retryTimer m"
  "queued (m_trace (stop_finish m)) = queued (m_trace m)"
  "handled (m_trace (stop_finish m)) = handled (m_trace m)"
  "overflowed (m_trace (stop_finish m)) = overflowed (m_trace m)"
  by (auto simp: stop_finish_def releaseLock_def)

definition capacity_ok :: "settings \<Rightarrow> bool" where
  "capacity_ok s \<longleftrightarrow> 1 \<le> tc_maxPendingEvents (s_config s)"

lemma enqueue_frame [simp]:
  "m_pc (enqueueForFollowerRelay s ev m) = m_pc m" "m_flushing (enqueueForFollowerRelay s ev m) = m_flushing m"
  "m_stopped (enqueueForFollowerRelay s ev m) = m_stopped m"
  "m_retryTimer (enqueueForFollowerRelay s ev m) =
     (if m_retryTimer m = None \<and> \<not> m_stopped m then Some 0 else m_retryTimer m)"
  by (cases "m_pendingEvents m"; simp add: enqueueForFollowerRelay_def Let_def)+

text \<open>Outside the loop the flush is idle; the loop leaves the queue consistent.\<close>

lemma queue_ok_finally:
  "length (m_pendingEvents m) \<le> nat (tc_maxPendingEvents (s_config s)) \<Longrightarrow> queue_ok s (flush_finally s m)"
  by (auto simp: queue_ok_def flush_finally_def Let_def)

lemma queue_ok_loop:
  assumes "length (m_pendingEvents m) \<le> nat (tc_maxPendingEvents (s_config s))" and "m_flushing m"
  shows "queue_ok s (flush_loop s now m)"
proof (cases "m_pendingEvents m")
  case Nil
  then show ?thesis by (simp add: flush_loop_def queue_ok_finally)
next
  case (Cons x xs)
  with assms show ?thesis
    by (simp add: flush_loop_def queue_ok_finally) (auto simp: queue_ok_def)
qed

lemma queue_ok_enqueue:
  assumes "queue_ok s m" and "capacity_ok s"
  shows "queue_ok s (enqueueForFollowerRelay s ev m)"
  using assms relay_queue.push_bound [of s m ev] by (auto simp: queue_ok_def capacity_ok_def)

lemma length_shift: "length (m_pendingEvents (shift_pending m)) \<le> length (m_pendingEvents m)"
  by (simp add: shift_pending_def split: list.splits)

lemma shift_frame [simp]: "m_flushing (shift_pending m) = m_flushing m" "m_pc (shift_pending m) = m_pc m"
  by (simp_all add: shift_pending_def split: list.splits)

lemma queue_ok_relay_settled:
  assumes "queue_ok s m" and "m_pc m = AwaitRelay e"
  shows "queue_ok s (relay_settled s now e ok result hbOk m)"
proof -
  have fl: "m_flushing m" and len: "length (m_pendingEvents m) \<le> nat (tc_maxPendingEvents (s_config s))"
    using assms by (auto simp: queue_ok_def)
  show ?thesis
    using fl len length_shift [of "emit (RelayAcked e) m"]
    by (cases "m_role m"; cases "result = Acquired")
       (auto simp: relay_settled_def tryPromoteFromFollower_def tryBecomeOwner_won tryBecomeOwner_lost
         intro!: queue_ok_loop queue_ok_finally)
qed

lemma queue_ok_frame:
  "m_pendingEvents m1 = m_pendingEvents m \<Longrightarrow> m_pc m1 = m_pc m \<Longrightarrow> m_flushing m1 = m_flushing m \<Longrightarrow>
   (\<not> m_stopped m1 \<Longrightarrow> \<not> m_stopped m \<and> (m_retryTimer m1 = None \<longrightarrow> m_retryTimer m = None)) \<Longrightarrow>
   queue_ok s m \<Longrightarrow> queue_ok s m1"
  by (auto simp: queue_ok_def)

lemma scheduleOwnerRecovery_frame [simp]:
  "m_pendingEvents (scheduleOwnerRecovery s d m) = m_pendingEvents m"
  "m_pc (scheduleOwnerRecovery s d m) = m_pc m" "m_flushing (scheduleOwnerRecovery s d m) = m_flushing m"
  "m_stopped (scheduleOwnerRecovery s d m) = m_stopped m"
  "m_retryTimer (scheduleOwnerRecovery s d m) = m_retryTimer m"
  "m_trace (scheduleOwnerRecovery s d m) = m_trace m"
  by (simp_all add: scheduleOwnerRecovery_def)

lemma ownerRecovery_frame [simp]:
  "m_pendingEvents (ownerRecoveryFires s r h m) = m_pendingEvents m"
  "m_pc (ownerRecoveryFires s r h m) = m_pc m" "m_flushing (ownerRecoveryFires s r h m) = m_flushing m"
  "m_stopped (ownerRecoveryFires s r h m) = m_stopped m"
  "m_retryTimer (ownerRecoveryFires s r h m) = m_retryTimer m"
  "queued (m_trace (ownerRecoveryFires s r h m)) = queued (m_trace m)"
  "handled (m_trace (ownerRecoveryFires s r h m)) = handled (m_trace m)"
  "overflowed (m_trace (ownerRecoveryFires s r h m)) = overflowed (m_trace m)"
  by (cases "m_role m"; cases "r = Acquired";
      simp add: ownerRecoveryFires_def Let_def tryBecomeOwner_won tryBecomeOwner_lost)+

lemma writeHeartbeat_result:
  "writeHeartbeat ok m = (b, m1) \<Longrightarrow> m1 = (if b then emit HeartbeatWritten m else m)"
  by (auto simp: writeHeartbeat_def split: if_splits)

lemma queue_ok_failure [simp]: "queue_ok s m \<Longrightarrow> queue_ok s (handleOwnerFailure s2 m)"
  by (auto simp: queue_ok_def)

lemma queue_ok_flush:
  "queue_ok s m \<Longrightarrow> queue_ok s (flushPendingFollowerEvents s now (m\<lparr>m_retryTimer := None\<rparr>))"
  by (cases "m_flushing m"; cases "m_stopped m")
     (auto simp: flushPendingFollowerEvents_def intro!: queue_ok_loop, auto simp: queue_ok_def)

lemma queue_ok_step:
  assumes q: "queue_ok s m" and c: "capacity_ok s"
  shows "queue_ok s (manager_step s a m)"
proof (cases a)
  case (Dispatch now ev)
  have "queue_ok s (processOwnerEvent s now e r m)" for e r
    by (rule queue_ok_frame [OF _ _ _ _ q]) simp_all
  with Dispatch q c queue_ok_enqueue show ?thesis by (simp add: dispatch_def Let_def)
next
  case (RelaySettled now ok result hbOk)
  with q queue_ok_relay_settled show ?thesis by (auto split: flush_pc.splits)
next
  case (OwnerSettled now ok)
  have "m_pc m = AwaitOwner \<Longrightarrow> m_flushing m" "length (m_pendingEvents m) \<le> nat (tc_maxPendingEvents (s_config s))"
    using q by (auto simp: queue_ok_def)
  with OwnerSettled q show ?thesis
    by (auto simp: owner_settled_def split: flush_pc.splits intro!: queue_ok_loop queue_ok_finally)
next
  case (HeartbeatTick ok)
  have "queue_ok s (emit HeartbeatWritten m)" by (rule queue_ok_frame [OF _ _ _ _ q]) simp_all
  with HeartbeatTick q show ?thesis
    by (auto simp: heartbeatFires_def dest: writeHeartbeat_result split: prod.splits bool.splits)
next
  case (RetryTimerFires now)
  with q queue_ok_flush show ?thesis by simp
qed (rule queue_ok_frame [OF _ _ _ _ q]; simp add: onRelayEvent_def split: if_splits)+

section \<open>Lemmas: delivery in order\<close>

lemma fifo_frame:
  "queued (m_trace m1) = queued (m_trace m) \<Longrightarrow> handled (m_trace m1) = handled (m_trace m) \<Longrightarrow>
   (overflowed (m_trace m) \<Longrightarrow> overflowed (m_trace m1)) \<Longrightarrow>
   m_pendingEvents m1 = m_pendingEvents m \<Longrightarrow> m_pc m1 = m_pc m \<Longrightarrow> fifo_ok m \<Longrightarrow> fifo_ok m1"
  by (cases "m_pc m") (auto simp: fifo_ok_def)

definition in_order :: "manager \<Rightarrow> bool" where
  "in_order m \<longleftrightarrow> overflowed (m_trace m) \<or> queued (m_trace m) = handled (m_trace m) @ m_pendingEvents m"

lemma fifo_finally: "in_order m \<Longrightarrow> fifo_ok (flush_finally s m)"
  by (simp add: in_order_def fifo_ok_def flush_finally_def Let_def)

lemma fifo_loop: "in_order m \<Longrightarrow> fifo_ok (flush_loop s now m)"
  by (cases "m_pendingEvents m"; cases "m_stopped m"; cases "m_role m")
     (auto simp: flush_loop_def fifo_finally, auto simp: in_order_def fifo_ok_def)

lemma fifo_in_order: "fifo_ok m \<Longrightarrow> in_order m"
  by (auto simp: fifo_ok_def in_order_def)

lemma fifo_enqueue: "fifo_ok m \<Longrightarrow> fifo_ok (enqueueForFollowerRelay s ev m)"
  by (cases "m_pendingEvents m"; cases "m_pc m")
     (auto simp: fifo_ok_def enqueueForFollowerRelay_def Let_def)

lemma fifo_shift:
  "fifo_ok m \<Longrightarrow> m_pc m = AwaitRelay e \<Longrightarrow> in_order (shift_pending (emit (RelayAcked e) m))"
  by (cases "m_pendingEvents m") (auto simp: fifo_ok_def in_order_def shift_pending_def)

lemma in_order_frame:
  "in_order (scheduleFlush d m) = in_order m" "in_order (handleOwnerAcquireFailure s r m) = in_order m"
  "in_order (promoted s h m) = in_order m" "in_order (m\<lparr>m_flushing := b\<rparr>) = in_order m"
  "in_order (m\<lparr>m_retryTimer := t\<rparr>) = in_order m"
  by (simp_all add: in_order_def)

lemma fifo_relay_settled:
  assumes "fifo_ok m" and "m_pc m = AwaitRelay e"
  shows "fifo_ok (relay_settled s now e ok result hbOk m)"
  using fifo_in_order [OF assms(1)] fifo_shift [OF assms]
  by (cases "m_role m"; cases "result = Acquired")
     (simp_all add: relay_settled_def tryPromoteFromFollower_def tryBecomeOwner_won tryBecomeOwner_lost
       fifo_loop fifo_finally in_order_frame)

lemma fifo_ok_step:
  assumes f: "fifo_ok m"
  shows "fifo_ok (manager_step s a m)"
proof (cases a)
  case (Dispatch now ev)
  have "fifo_ok (processOwnerEvent s now e r m)" for e r
    by (rule fifo_frame [OF _ _ _ _ _ f]) simp_all
  with Dispatch f fifo_enqueue show ?thesis by (simp add: dispatch_def Let_def)
next
  case (RelaySettled now ok result hbOk)
  with f fifo_relay_settled show ?thesis by (auto split: flush_pc.splits)
next
  case (OwnerSettled now ok)
  with fifo_in_order [OF f] f show ?thesis
    by (auto simp: owner_settled_def fifo_loop fifo_finally split: flush_pc.splits)
next
  case (RetryTimerFires now)
  have "fifo_ok (m\<lparr>m_retryTimer := None\<rparr>)" by (rule fifo_frame [OF _ _ _ _ _ f]) simp_all
  with RetryTimerFires f fifo_in_order [OF f] show ?thesis
    by (simp add: flushPendingFollowerEvents_def fifo_loop in_order_frame)
next
  case (HeartbeatTick ok)
  have "fifo_ok (handleOwnerFailure s m)" "fifo_ok (emit HeartbeatWritten m)"
    by (rule fifo_frame [OF _ _ _ _ _ f]; simp)+
  with HeartbeatTick f show ?thesis
    by (auto simp: heartbeatFires_def dest: writeHeartbeat_result split: prod.splits bool.splits)
qed (rule fifo_frame [OF _ _ _ _ _ f]; simp add: onRelayEvent_def)+

section \<open>The manager as a machine\<close>

definition manager_inv :: "settings \<Rightarrow> manager \<Rightarrow> bool" where
  "manager_inv s m \<longleftrightarrow> (capacity_ok s \<longrightarrow> queue_ok s m) \<and> roles_ok s m \<and> fifo_ok m"

interpretation manager: machine "manager_step s" "manager_inv s" for s
  by unfold_locales (simp add: manager_inv_def queue_ok_step roles_ok_step fifo_ok_step)


lemma start_inv: "manager_inv s (start s result hbOk new_manager)"
proof -
  have base: "roles_ok s (new_manager\<lparr>m_ownerRecoveryTimer := Some 0\<rparr>)" "m_role new_manager = Follower"
    by (simp_all add: roles_ok_def new_manager_def)
  have stp: "new_manager\<lparr>m_stopped := False\<rparr> = new_manager" by (simp add: new_manager_def)
  have "roles_ok s (start s result hbOk new_manager)"
    using base(2) roles_ok_promoted [OF base, of s hbOk]
    unfolding start_def Let_def stp
    by (cases "result = Acquired")
       (simp_all add: tryBecomeOwner_won tryBecomeOwner_lost setRole_def scheduleOwnerRecovery_def,
        simp_all add: roles_ok_def new_manager_def)
  moreover have "queue_ok s (start s result hbOk new_manager) \<and> fifo_ok (start s result hbOk new_manager)"
    using base(2) unfolding start_def Let_def stp
    by (cases "result = Acquired")
       (simp_all add: tryBecomeOwner_won tryBecomeOwner_lost setRole_def queue_ok_def fifo_ok_def,
        simp_all add: new_manager_def)
  ultimately show ?thesis by (simp add: manager_inv_def)
qed

definition manager_run :: "settings \<Rightarrow> TransportLockAcquireResult \<Rightarrow> bool \<Rightarrow> manager_op list \<Rightarrow> manager" where
  "manager_run s result hbOk ops = fold (manager_step s) ops (start s result hbOk new_manager)"

lemma manager_run_inv: "manager_inv s (manager_run s result hbOk ops)"
  unfolding manager_run_def by (rule manager.inv_run [OF start_inv])

text \<open>
  C1. The role invariant, after any sequence of calls, timers, promise results and socket
  events: only the owner has a server, with the lock and, if any, the heartbeat; an owner
  that was not stopped has its server; a follower never believes it owns the lock, and
  unless its mode forbids ownership it always has a recovery attempt scheduled.
\<close>

theorem manager_roles:
  "let m = manager_run s result hbOk ops in
     (m_server m \<longrightarrow> m_role m = Owner \<and> m_ownsLock m) \<and>
     (m_heartbeatTimer m \<longrightarrow> m_server m) \<and>
     (\<not> m_stopped m \<longrightarrow> m_role m = Owner \<longrightarrow> m_server m) \<and>
     (m_role m = Follower \<longrightarrow> \<not> m_ownsLock m) \<and>
     (\<not> m_stopped m \<longrightarrow> m_role m = Follower \<longrightarrow> tc_mode (s_config s) \<noteq> ''follower'' \<longrightarrow>
        m_ownerRecoveryTimer m \<noteq> None)"
  using manager_run_inv [of s result hbOk ops]
  by (cases "m_role (manager_run s result hbOk ops)"; cases "m_server (manager_run s result hbOk ops)")
     (auto simp: Let_def manager_inv_def roles_ok_def)

text \<open>
  C4. The follower's queue never exceeds \<open>maxPendingEvents\<close>, and while it is
  not empty and the manager runs, a flush is in progress or scheduled: no event is left
  behind without a timer.
\<close>

theorem no_event_stranded:
  assumes "1 \<le> tc_maxPendingEvents (s_config s)"
  shows "let m = manager_run s result hbOk ops in
     int (length (m_pendingEvents m)) \<le> tc_maxPendingEvents (s_config s) \<and>
     (m_pendingEvents m \<noteq> [] \<longrightarrow> \<not> m_stopped m \<longrightarrow> m_pc m \<noteq> FlushIdle \<or> m_retryTimer m \<noteq> None)"
  using manager_run_inv [of s result hbOk ops] assms
  by (auto simp: Let_def manager_inv_def queue_ok_def capacity_ok_def nat_le_iff le_nat_iff)

text \<open>
  C2. Delivery in order and without loss: as long as the queue did not overflow, the events
  the follower queued are, in order, those acknowledged by the owner or taken over after a
  promotion, followed by those still pending.
\<close>

theorem relay_in_order:
  assumes "m = manager_run s result hbOk ops" and "\<not> overflowed (m_trace m)"
  shows "queued (m_trace m) = handled (m_trace m) @ m_pendingEvents m"
  using manager_run_inv [of s result hbOk ops] assms by (simp add: manager_inv_def fifo_ok_def)

section \<open>Lemmas: what the owner hands over\<close>

definition owner_ids :: "effect list \<Rightarrow> string list" where
  "owner_ids tr = concat (map (\<lambda>x. case x of OwnerEvent e \<Rightarrow> [event_id e] | _ \<Rightarrow> []) tr)"

lemma owner_ids_simps [simp]:
  "owner_ids [] = []" "owner_ids (tr @ tr2) = owner_ids tr @ owner_ids tr2"
  "owner_ids (x # tr) = (case x of OwnerEvent e \<Rightarrow> [event_id e] | _ \<Rightarrow> []) @ owner_ids tr"
  by (simp_all add: owner_ids_def)

definition owner_view :: "manager \<Rightarrow> dedupe \<times> string list" where
  "owner_view m = (m_seen m, owner_ids (m_trace m))"

lemma event_id_clone [simp]:
  "event_id (cloneEventWithTransportMetadata p h ev r role route own) = event_id ev"
  by (simp add: event_id_def cloneEventWithTransportMetadata_def Let_def ostr_def)

lemma event_id_annotate [simp]: "event_id (annotate s ev role route own) = event_id ev"
  by (simp add: annotate_def)

lemma owner_view_process:
  "owner_view m1 = owner_view m \<Longrightarrow>
   owner_view (processOwnerEvent s now ev r m1) = owner_view (processOwnerEvent s now ev r m)"
  by (auto simp: owner_view_def processOwnerEvent_def split: prod.splits bool.splits)

lemma owner_view_simps [simp]:
  "owner_view (m\<lparr>m_pendingEvents := x\<rparr>) = owner_view m" "owner_view (m\<lparr>m_pc := pc\<rparr>) = owner_view m"
  "owner_view (m\<lparr>m_flushing := b\<rparr>) = owner_view m" "owner_view (m\<lparr>m_retryTimer := t\<rparr>) = owner_view m"
  "owner_view (m\<lparr>m_ownerRecoveryTimer := t\<rparr>) = owner_view m" "owner_view (m\<lparr>m_stopWaits := b\<rparr>) = owner_view m"
  "owner_view (scheduleFlush d m) = owner_view m" "owner_view (scheduleOwnerRecovery s d m) = owner_view m"
  "(\<And>e. y \<noteq> OwnerEvent e) \<Longrightarrow> owner_view (emit y m) = owner_view m"
  "owner_view (handleOwnerAcquireFailure s r m) = owner_view m"
  "owner_view (setRole ro m) = owner_view m" "owner_view (releaseLock m) = owner_view m"
  by (auto simp: owner_view_def scheduleFlush_def scheduleOwnerRecovery_def handleOwnerAcquireFailure_def
      setRole_def releaseLock_def split: prod.splits effect.splits)

lemma owner_view_frame [simp]:
  "owner_view (promoted s h m) = owner_view m" "owner_view (flush_finally s m) = owner_view m"
  "owner_view (shift_pending m) = owner_view m" "owner_view (enqueueForFollowerRelay s ev m) = owner_view m"
  "owner_view (stop_finish m) = owner_view m"
  subgoal by (simp add: promoted_def tryBecomeOwner_def Let_def startOwnerServer_def startHeartbeat_def
      writeHeartbeat_def owner_view_def setRole_def split: prod.splits)
  subgoal by (simp add: flush_finally_def Let_def)
  subgoal by (cases "m_pendingEvents m") (simp_all add: shift_pending_def)
  subgoal by (cases "m_pendingEvents m") (simp_all add: enqueueForFollowerRelay_def Let_def)
  subgoal by (simp add: stop_finish_def)
  done

lemma owner_view_failure [simp]: "owner_view (handleOwnerFailure s m) = owner_view m"
  by (simp add: handleOwnerFailure_def Let_def owner_view_def setRole_def releaseLock_def
      scheduleOwnerRecovery_def scheduleFlush_def)

lemma owner_view_stop [simp]: "owner_view (stop m) = owner_view m"
  by (simp add: stop_def Let_def stop_finish_def owner_view_def releaseLock_def)

text \<open>Either nothing changes for the owner's consumer, or one event was examined.\<close>

definition examines :: "settings \<Rightarrow> int \<Rightarrow> manager \<Rightarrow> manager \<Rightarrow> bool" where
  "examines s now m m1 \<longleftrightarrow> owner_view m1 = owner_view m \<or>
     (\<exists>ev r. owner_view m1 = owner_view (processOwnerEvent s now ev r m))"

lemma examines_refl: "owner_view m1 = owner_view m \<Longrightarrow> examines s now m m1"
  by (simp add: examines_def)

lemma examines_process: "owner_view m1 = owner_view m \<Longrightarrow> examines s now m (processOwnerEvent s now ev r m1)"
  unfolding examines_def using owner_view_process by blast

lemma examines_loop: "owner_view m1 = owner_view m \<Longrightarrow> examines s now m (flush_loop s now m1)"
proof (cases "m_pendingEvents m1")
  case Nil
  assume "owner_view m1 = owner_view m"
  with Nil show ?thesis by (simp add: flush_loop_def examines_refl)
next
  case (Cons x xs)
  assume v: "owner_view m1 = owner_view m"
  show ?thesis
  proof (cases "\<not> m_stopped m1 \<and> m_role m1 = Owner")
    case True
    have "examines s now m (processOwnerEvent s now x ''local'' (emit (OwnerTook x) (m1\<lparr>m_pendingEvents := xs\<rparr>)))"
      using v by (intro examines_process) simp
    with True Cons show ?thesis by (simp add: flush_loop_def examines_def)
  next
    case False
    with v Cons show ?thesis by (auto simp: flush_loop_def intro!: examines_refl)
  qed
qed

fun op_time :: "manager_op \<Rightarrow> int option" where
  "op_time (Dispatch now ev) = Some now"
| "op_time (RelayIncoming now ev) = Some now"
| "op_time (RetryTimerFires now) = Some now"
| "op_time (RelaySettled now ok r h) = Some now"
| "op_time (OwnerSettled now ok) = Some now"
| "op_time _ = None"

lemma step_examines:
  "case op_time a of
     None \<Rightarrow> owner_view (manager_step s a m) = owner_view m
   | Some now \<Rightarrow> examines s now m (manager_step s a m)"
proof (cases a)
  case (Dispatch now ev)
  then show ?thesis
    using examines_process [of m m s now] by (simp add: dispatch_def Let_def examines_refl)
next
  case (RelayIncoming now ev)
  then show ?thesis using examines_process [of m m s now] by (simp add: onRelayEvent_def)
next
  case (RetryTimerFires now)
  have "examines s now m (flush_loop s now (m\<lparr>m_retryTimer := None, m_flushing := True\<rparr>))"
    by (rule examines_loop) simp
  with RetryTimerFires show ?thesis by (simp add: flushPendingFollowerEvents_def examines_refl)
next
  case (RelaySettled now ok r h)
  have "examines s now m (relay_settled s now e ok r h m)" for e
    by (cases "m_role m"; cases "r = Acquired")
       (simp_all add: relay_settled_def tryPromoteFromFollower_def tryBecomeOwner_won tryBecomeOwner_lost
         examines_loop examines_refl)
  with RelaySettled show ?thesis by (simp add: examines_refl split: flush_pc.splits)
next
  case (OwnerSettled now ok)
  then show ?thesis
    using examines_loop [of m m s now] by (simp add: owner_settled_def examines_refl split: flush_pc.splits)
next
  case (RecoveryTimerFires r h)
  have "owner_view (ownerRecoveryFires s r h m) = owner_view m"
    by (cases "m_role m"; cases "r = Acquired";
      simp add: ownerRecoveryFires_def Let_def tryBecomeOwner_won tryBecomeOwner_lost)
  with RecoveryTimerFires show ?thesis by simp
next
  case (HeartbeatTick ok)
  then show ?thesis
    by (auto simp: heartbeatFires_def dest: writeHeartbeat_result split: prod.splits bool.splits)
qed simp_all

lemma process_view:
  assumes "dedupe_ok (m_seen m)" and "mget (dd_seenEventIds (m_seen m)) k = Some e" and "now < e"
    and m1: "m1 = processOwnerEvent s now ev r m"
  shows "dedupe_ok (m_seen m1) \<and> mget (dd_seenEventIds (m_seen m1)) k = Some e \<and>
    filter (\<lambda>i. i = k) (owner_ids (m_trace m1)) = filter (\<lambda>i. i = k) (owner_ids (m_trace m))"
proof -
  let ?r = "shouldProcessTransportEvent (s_config s) now ev (m_seen m)"
  have seen: "m_seen m1 = fst ?r" and tr: "m_trace m1 = (if snd ?r
      then m_trace m @ [OwnerEvent (annotate s ev ''owner'' r (Some (s_runtimeId s)))] else m_trace m)"
    unfolding m1 processOwnerEvent_def by (auto split: prod.splits bool.splits)
  have "event_id ev = k \<Longrightarrow> \<not> snd ?r"
    using assms(2,3) by (simp add: dedupe_decision [OF assms(1)] live_entry_def)
  then show ?thesis
    using dedupe_ok_step [OF assms(1)] id_entry_kept [OF assms(1-3)] by (auto simp: seen tr)
qed

lemma step_view:
  assumes "dedupe_ok (m_seen m)" and "mget (dd_seenEventIds (m_seen m)) k = Some e"
    and "\<forall>t. op_time a = Some t \<longrightarrow> t < e"
  shows "dedupe_ok (m_seen (manager_step s a m)) \<and>
    mget (dd_seenEventIds (m_seen (manager_step s a m))) k = Some e \<and>
    filter (\<lambda>i. i = k) (owner_ids (m_trace (manager_step s a m))) =
      filter (\<lambda>i. i = k) (owner_ids (m_trace m))"
proof -
  let ?m = "manager_step s a m"
  have same: ?thesis if "owner_view ?m = owner_view m"
    using that assms by (simp add: owner_view_def)
  show ?thesis
  proof (cases "op_time a")
    case None
    then show ?thesis using step_examines [where a = a and s = s and m = m] same by simp
  next
    case (Some now)
    then consider "owner_view ?m = owner_view m"
      | ev r where "owner_view ?m = owner_view (processOwnerEvent s now ev r m)"
      using step_examines [where a = a and s = s and m = m] by (auto simp: examines_def)
    then show ?thesis
    proof cases
      case 1
      then show ?thesis by (rule same)
    next
      case 2
      then show ?thesis
        using process_view [OF assms(1,2) _ refl, of now s ev r] assms(3) Some
        by (simp add: owner_view_def)
    qed
  qed
qed

lemma run_view:
  assumes "dedupe_ok (m_seen m)" and "mget (dd_seenEventIds (m_seen m)) k = Some e"
    and "\<forall>a \<in> set ops. \<forall>t. op_time a = Some t \<longrightarrow> t < e"
  shows "filter (\<lambda>i. i = k) (owner_ids (m_trace (fold (manager_step s) ops m))) =
      filter (\<lambda>i. i = k) (owner_ids (m_trace m))"
  using assms
proof (induction ops arbitrary: m)
  case Nil
  then show ?case by simp
next
  case (Cons a ops)
  show ?case
    using step_view [OF Cons.prems(1,2), of a s] Cons.prems(3)
      Cons.IH [of "manager_step s a m"] by simp
qed

lemma process_records:
  assumes ok: "dedupe_ok (m_seen m)" and x: "x = processOwnerEvent s t ev r m"
  shows "dedupe_ok (m_seen x) \<and> (owner_ids (m_trace x) = owner_ids (m_trace m) \<or>
     owner_ids (m_trace x) = owner_ids (m_trace m) @ [event_id ev] \<and>
     mget (dd_seenEventIds (m_seen x)) (event_id ev) = Some (t + tc_dedupeTtlMs (s_config s)))"
proof -
  obtain seen1 b where d: "shouldProcessTransportEvent (s_config s) t ev (m_seen m) = (seen1, b)" by fastforce
  have "dedupe_ok seen1" using dedupe_ok_step [OF ok, of "s_config s" t ev] d by simp
  then show ?thesis
    using d accepted_records(1) [OF ok, of "s_config s" t ev seen1]
    by (cases b) (simp_all add: x processOwnerEvent_def)
qed

text \<open>A step hands over at most one event, and remembers it for \<open>dedupeTtlMs\<close>.\<close>

lemma step_records:
  assumes ok: "dedupe_ok (m_seen m)" and m1: "m1 = manager_step s a m"
  shows "dedupe_ok (m_seen m1) \<and> (owner_ids (m_trace m1) = owner_ids (m_trace m) \<or>
     (\<exists>k t. op_time a = Some t \<and> owner_ids (m_trace m1) = owner_ids (m_trace m) @ [k] \<and>
        mget (dd_seenEventIds (m_seen m1)) k = Some (t + tc_dedupeTtlMs (s_config s))))"
proof -
  consider "owner_view m1 = owner_view m"
    | t ev r where "op_time a = Some t" "owner_view m1 = owner_view (processOwnerEvent s t ev r m)"
    using step_examines [where a = a and s = s and m = m] m1 by (cases "op_time a") (auto simp: examines_def)
  then show ?thesis
  proof cases
    case 1
    with ok show ?thesis by (simp add: owner_view_def)
  next
    case 2
    with process_records [OF ok refl, of s t ev r] show ?thesis by (auto simp: owner_view_def)
  qed
qed

lemma run_dedupe_ok: "dedupe_ok (m_seen (manager_run s result hbOk ops))"
proof (induction ops rule: rev_induct)
  case Nil
  have "m_role new_manager = Follower" "new_manager\<lparr>m_stopped := False\<rparr> = new_manager"
    by (simp_all add: new_manager_def)
  then have "owner_view (start s result hbOk new_manager) = owner_view new_manager"
    by (cases "result = Acquired")
       (simp_all add: start_def Let_def tryBecomeOwner_won tryBecomeOwner_lost setRole_def)
  then show ?case by (simp add: manager_run_def owner_view_def new_manager_def)
next
  case (snoc a ops)
  with step_records [OF snoc refl, of s a] show ?case by (simp add: manager_run_def)
qed

text \<open>
  C3. End to end on the owner: whichever operation hands an event over to \<open>onOwnerEvent\<close> in a run, be it a
  local dispatch, a relayed event or a flush after a promotion, it hands over one event, and no later
  dispatch, relayed copy or flush, in whatever interleaving, hands over an event with the same id within
  \<open>dedupeTtlMs\<close>.
\<close>

theorem owner_hands_over_once:
  assumes m: "m = manager_run s result hbOk ops1" and a: "op_time a = Some t"
    and first: "owner_ids (m_trace (manager_step s a m)) \<noteq> owner_ids (m_trace m)"
    and later: "\<forall>b \<in> set ops2. \<forall>u. op_time b = Some u \<longrightarrow> u < t + tc_dedupeTtlMs (s_config s)"
  shows "\<exists>k. owner_ids (m_trace (manager_step s a m)) = owner_ids (m_trace m) @ [k] \<and>
     filter (\<lambda>i. i = k) (owner_ids (m_trace (fold (manager_step s) (a # ops2) m))) =
       filter (\<lambda>i. i = k) (owner_ids (m_trace m)) @ [k]"
proof -
  let ?m1 = "manager_step s a m"
  have "dedupe_ok (m_seen m)" unfolding m by (rule run_dedupe_ok)
  from step_records [OF this refl, of s a] first a obtain k where
      k: "dedupe_ok (m_seen ?m1)" "owner_ids (m_trace ?m1) = owner_ids (m_trace m) @ [k]"
      "mget (dd_seenEventIds (m_seen ?m1)) k = Some (t + tc_dedupeTtlMs (s_config s))"
    by auto
  from run_view [OF k(1,3), of ops2 s] later k(2) show ?thesis by (auto simp del: manager_step.simps)
qed


section \<open>Where control is given up at the wrong moment\<close>

text \<open>
  The exception to loss-free delivery: when the queue overflows while its head is being
  relayed, the head is dropped, and the acknowledgement of the relay then removes the next
  event, which was never sent.
\<close>

theorem overflow_loses_event:
  assumes "m_pc m = AwaitRelay e" and "m_pendingEvents m = e # x # rest"
    and "tc_maxPendingEvents (s_config s) = int (length (m_pendingEvents m))"
    and "m_role m = Follower" and "\<not> m_stopped m"
    and y: "y = annotate s ev ''follower'' ''local'' None"
    and m1: "m1 = fold (manager_step s) [Dispatch t ev, RelaySettled u True r h] m"
  shows "m_pendingEvents m1 = rest @ [y] \<and>
     m_trace m1 = m_trace m @
       [DroppedOldest e, Queued y, RelayAcked e, Shifted x, RelaySent (hd (rest @ [y]))]"
  using assms(1-5) unfolding m1 y
  by (cases rest)
     (simp_all add: dispatch_def Let_def enqueueForFollowerRelay_def relay_settled_def shift_pending_def
       flush_loop_def scheduleFlush_def)

text \<open>
  A relay that is in flight when an \<open>auto\<close> follower is stopped can still
  promote it: when the relay then fails, the stopped manager acquires the lock and starts
  the server and the heartbeat.
\<close>

theorem stopped_manager_takes_lock:
  assumes "m_pc m = AwaitRelay e" and "m_pendingEvents m \<noteq> []" and "m_role m = Follower"
    and "tc_mode (s_config s) = ''auto''" and "roles_ok s m"
    and m1: "m1 = fold (manager_step s) [Stop, RelaySettled u False Acquired True] m"
  shows "m_stopped m1 \<and> m_role m1 = Owner \<and> m_ownsLock m1 \<and> m_server m1 \<and> m_heartbeatTimer m1"
  using assms(1-5) unfolding m1
  by (cases "m_pendingEvents m")
     (simp_all add: roles_ok_def stop_def Let_def stop_finish_def relay_settled_def tryPromoteFromFollower_def
       tryBecomeOwner_def setRole_def startOwnerServer_def startHeartbeat_def writeHeartbeat_def
       flush_loop_def flush_finally_def)

lemma failure_demotes:
  assumes "\<not> m_stopped m" and "m_role m = Owner"
  shows "m_role (handleOwnerFailure s m) = Follower" and "\<not> m_server (handleOwnerFailure s m)"
    and "\<not> m_ownsLock (handleOwnerFailure s m)"
    and "tc_mode (s_config s) \<noteq> ''follower'' \<Longrightarrow> m_ownerRecoveryTimer (handleOwnerFailure s m) \<noteq> None"
  using assms
  by (simp_all add: handleOwnerFailure_def Let_def setRole_def releaseLock_def scheduleOwnerRecovery_def
      scheduleFlush_def)

text \<open>
  The close event of a server that was given up is not told apart from that of the
  current one: arriving after the runtime became the owner again, it demotes the healthy
  owner and releases its lock.
\<close>

theorem late_close_demotes:
  assumes "m_role m = Owner" and "\<not> m_stopped m" and "m_heartbeatTimer m" and "roles_ok s m"
    and "tc_mode (s_config s) \<noteq> ''follower''"
    and m2: "m2 = fold (manager_step s) [HeartbeatTick False, RecoveryTimerFires Acquired True] m"
  shows "m_role m2 = Owner \<and> m_server m2 \<and> m_ownsLock m2 \<and>
     m_role (manager_step s ServerClosedEvent m2) = Follower \<and>
     \<not> m_server (manager_step s ServerClosedEvent m2) \<and> \<not> m_ownsLock (manager_step s ServerClosedEvent m2)"
proof -
  let ?m1 = "handleOwnerFailure s m"
  have own: "m_ownsLock m" using assms(1,2,4) by (cases "m_server m") (simp_all add: roles_ok_def)
  have d: "m_role ?m1 = Follower" "\<not> m_stopped ?m1" "m_ownerRecoveryTimer ?m1 \<noteq> None"
    using failure_demotes [OF assms(2,1), of s] assms(2,5) by simp_all
  have "manager_step s (HeartbeatTick False) m = ?m1"
    using assms(3) own by (simp add: heartbeatFires_def writeHeartbeat_def)
  moreover have "manager_step s (RecoveryTimerFires Acquired True) ?m1 =
      promoted s True (?m1\<lparr>m_ownerRecoveryTimer := None\<rparr>)"
    using d by (auto simp: recovery_cases)
  ultimately have "m2 = promoted s True (?m1\<lparr>m_ownerRecoveryTimer := None\<rparr>)" by (simp add: m2)
  then show ?thesis
    using failure_demotes [of m2 s] d(2) by simp
qed

definition sample_settings :: settings where
  "sample_settings = \<lparr> s_config = default_transport, s_runtimeId = ''r1'', s_pid = 7, s_hostname = ''h'' \<rparr>"

definition busy_follower :: "int \<Rightarrow> manager" where
  "busy_follower n = new_manager
     \<lparr> m_ownerRecoveryTimer := Some 250, m_pc := AwaitRelay sample_event, m_flushing := True,
       m_pendingEvents := sample_event # map (\<lambda>i. [(''eventId'', JNum i)]) [1..n] \<rparr>"

definition running_owner :: manager where
  "running_owner = manager_run sample_settings Acquired True []"

theorem manager_roles_witness:
  "m_ownerRecoveryTimer (manager_run sample_settings BusyLock True [Dispatch 1 sample_event]) \<noteq> None"
proof -
  have "m_role (manager_run sample_settings BusyLock True [Dispatch 1 sample_event]) = Follower"
    "\<not> m_stopped (manager_run sample_settings BusyLock True [Dispatch 1 sample_event])"
    "tc_mode (s_config sample_settings) \<noteq> ''follower''"
    by code_simp+
  then show ?thesis
    using manager_roles [of sample_settings BusyLock True "[Dispatch 1 sample_event]"] by (simp add: Let_def)
qed

theorem no_event_stranded_witness:
  "m_retryTimer (manager_run sample_settings BusyLock True [Dispatch 1 sample_event]) \<noteq> None"
proof -
  have "m_pendingEvents (manager_run sample_settings BusyLock True [Dispatch 1 sample_event]) \<noteq> []"
    "\<not> m_stopped (manager_run sample_settings BusyLock True [Dispatch 1 sample_event])"
    "m_pc (manager_run sample_settings BusyLock True [Dispatch 1 sample_event]) = FlushIdle"
    "1 \<le> tc_maxPendingEvents (s_config sample_settings)"
    by code_simp+
  then show ?thesis
    using no_event_stranded [of sample_settings BusyLock True "[Dispatch 1 sample_event]"] by (simp add: Let_def)
qed

theorem relay_in_order_witness:
  "let m = manager_run sample_settings BusyLock True
       [Dispatch 1 sample_event, RetryTimerFires 2, Dispatch 3 resent_event, RelaySettled 4 True BusyLock True]
   in queued (m_trace m) = handled (m_trace m) @ m_pendingEvents m"
proof -
  have "\<not> overflowed (m_trace (manager_run sample_settings BusyLock True
       [Dispatch 1 sample_event, RetryTimerFires 2, Dispatch 3 resent_event, RelaySettled 4 True BusyLock True]))"
    by code_simp
  from relay_in_order [OF refl this] show ?thesis by (simp only: Let_def)
qed

theorem owner_hands_over_once_witness:
  "filter (\<lambda>i. i = ''e1'') (owner_ids (m_trace (fold (manager_step sample_settings)
     [RelayIncoming 1 sample_event, RelayIncoming 5 sample_event, Dispatch 9 sample_event] running_owner))) = [''e1'']"
proof -
  have ids: "owner_ids (m_trace (manager_step sample_settings (RelayIncoming 1 sample_event) running_owner)) = [''e1'']"
    "owner_ids (m_trace running_owner) = []" by code_simp+
  have ttl: "tc_dedupeTtlMs (s_config sample_settings) = 60000" by code_simp
  show ?thesis
    using owner_hands_over_once [of running_owner sample_settings Acquired True "[]" "RelayIncoming 1 sample_event" 1
        "[RelayIncoming 5 sample_event, Dispatch 9 sample_event]"] ids ttl
    by (simp add: running_owner_def del: manager_step.simps)
qed

definition tiny_settings :: settings where
  "tiny_settings = sample_settings\<lparr>s_config := default_transport\<lparr>tc_maxPendingEvents := 2\<rparr>\<rparr>"

theorem overflow_loses_event_witness:
  "m_pendingEvents (fold (manager_step tiny_settings) [Dispatch 5 resent_event, RelaySettled 6 True BusyLock True]
     (busy_follower 1)) = [annotate tiny_settings resent_event ''follower'' ''local'' None]"
proof -
  have a: "m_pc (busy_follower 1) = AwaitRelay sample_event"
    "m_pendingEvents (busy_follower 1) = sample_event # [(''eventId'', JNum 1)] # []"
    "tc_maxPendingEvents (s_config tiny_settings) = int (length (m_pendingEvents (busy_follower 1)))"
    "m_role (busy_follower 1) = Follower" "\<not> m_stopped (busy_follower 1)"
    by code_simp+
  show ?thesis
    using overflow_loses_event [OF a refl refl, of 5 resent_event 6 BusyLock True] by (simp only: append_Nil)
qed

theorem stopped_manager_takes_lock_witness:
  "m_ownsLock (fold (manager_step sample_settings) [Stop, RelaySettled 6 False Acquired True] (busy_follower 0))"
proof -
  have "m_pendingEvents (busy_follower 0) \<noteq> []" "m_pc (busy_follower 0) = AwaitRelay sample_event"
    "m_role (busy_follower 0) = Follower" "tc_mode (s_config sample_settings) = ''auto''"
    "roles_ok sample_settings (busy_follower 0)"
    by code_simp+
  then show ?thesis using stopped_manager_takes_lock by blast
qed

theorem late_close_demotes_witness:
  "m_role (manager_step sample_settings ServerClosedEvent
     (fold (manager_step sample_settings) [HeartbeatTick False, RecoveryTimerFires Acquired True] running_owner)) = Follower"
proof -
  have "m_role running_owner = Owner" "\<not> m_stopped running_owner" "m_heartbeatTimer running_owner"
    "roles_ok sample_settings running_owner" "tc_mode (s_config sample_settings) \<noteq> ''follower''"
    by code_simp+
  then show ?thesis using late_close_demotes by blast
qed

end
