(* ===== verification/RuleMatch.thy ===== *)
theory RuleMatch imports Protocol begin

text \<open>
  The rule matcher of the hook bridge: \<open>src/runtime/hook-bridge-utils.ts\<close> and the matching and
  template functions of \<open>src/runtime/hook-bridge-tool-guard.ts\<close>. \<open>new URL\<close>, \<open>new RegExp\<close>, the
  collation of \<open>localeCompare\<close> and the file system are the fields of \<open>host\<close>. Property reads see
  own properties.
\<close>

section \<open>Reading and matching (hook-bridge-utils.ts)\<close>

text \<open>\<open>matcher.includes(value)\<close> and \<open>value === matcher\<close>: only a string can match.\<close>

definition matchesScalarOrList :: "scalar_or_list option \<Rightarrow> jsval \<Rightarrow> bool" where
  "matchesScalarOrList matcher value =
     (case matcher of
        None \<Rightarrow> True
      | Some m \<Rightarrow> (case value of
          JStr s \<Rightarrow> (case m of Scalar x \<Rightarrow> s = x | OneOf xs \<Rightarrow> s \<in> set xs)
        | _ \<Rightarrow> False))"

definition matchesDomainList :: "string \<Rightarrow> string list \<Rightarrow> bool" where
  "matchesDomainList hostname domains =
     (let normalizedHost = js_lower hostname in
      list_ex (\<lambda>entry.
        let normalizedEntry = js_lower (js_trim entry) in
        if normalizedEntry = [] then False
        else normalizedHost = normalizedEntry \<or> ends_with normalizedHost (CHR ''.'' # normalizedEntry))
      domains)"

definition path_segments :: "string \<Rightarrow> string list" where
  "path_segments dottedPath = filter (\<lambda>s. s \<noteq> []) (map js_trim (js_split (CHR ''.'') dottedPath))"

fun read_segments :: "jsval \<Rightarrow> string list \<Rightarrow> jsval" where
  "read_segments current [] = current"
| "read_segments current (s # ss) =
     (if \<not> isRecord current then JUndef else read_segments (jprop current s) ss)"

definition readPath :: "event \<Rightarrow> string \<Rightarrow> jsval" where
  "readPath ev dottedPath =
     (case path_segments dottedPath of
        [] \<Rightarrow> JUndef
      | first # rest \<Rightarrow>
          read_segments (if mhas ev first then oget ev first else jprop (oget ev ''data'') first) rest)"

definition default_key_fields :: "string list" where
  "default_key_fields = [''sessionKey'', ''agentId'', ''data.toolName'', ''event.type'']"

definition key_field_value :: "host \<Rightarrow> string \<Rightarrow> event \<Rightarrow> string \<Rightarrow> string" where
  "key_field_value h ruleId ev field =
     (if field = ''ruleId'' then ruleId
      else if field = ''event.type'' \<or> field = ''type'' then join_text (oget ev ''type'')
      else toStableToken (h_locale h) (readPath ev field) [])"

definition buildCoalesceKey :: "host \<Rightarrow> string \<Rightarrow> event \<Rightarrow> HookBridgeRuleCoalesce \<Rightarrow> string option" where
  "buildCoalesceKey h ruleId ev coalesce =
     (let keyFields = default_to default_key_fields (co_keyFields coalesce);
          values = filter (\<lambda>v. v \<noteq> []) (map (key_field_value h ruleId ev) keyFields) in
      if values = [] then None else Some (ruleId @ ''::'' @ js_join ''::'' values))"

definition trimPreview :: "nat \<Rightarrow> string \<Rightarrow> string" where
  "trimPreview limit value = (if length value \<le> limit then value else take limit value @ ''...'')"

definition toCanonicalPath :: "host \<Rightarrow> string \<Rightarrow> string option" where
  "toCanonicalPath h path = h_realpath h path"

section \<open>The matcher (hook-bridge-tool-guard.ts)\<close>

definition extractHostFromPath :: "host \<Rightarrow> event \<Rightarrow> string \<Rightarrow> string option" where
  "extractHostFromPath h ev path =
     (case readPath ev path of
        JStr raw \<Rightarrow> if js_trim raw = [] then None
          else (case h_url h raw of None \<Rightarrow> None | Some (protocol, hostname) \<Rightarrow> Some (js_lower hostname))
      | _ \<Rightarrow> None)"

definition type_matches :: "string \<Rightarrow> jsval \<Rightarrow> bool" where
  "type_matches expectedType value =
     (if expectedType = ''array'' then is_array value
      else if expectedType = ''object'' then isRecord value \<and> \<not> is_array value
      else typeof value = expectedType)"

definition contains_matches :: "event \<Rightarrow> string \<times> string \<Rightarrow> bool" where
  "contains_matches ev pe =
     (case readPath ev (fst pe) of JStr s \<Rightarrow> js_includes s (snd pe) | _ \<Rightarrow> False)"

definition regex_matches :: "host \<Rightarrow> event \<Rightarrow> string \<times> string \<Rightarrow> bool" where
  "regex_matches h ev pe =
     (case readPath ev (fst pe) of
        JStr s \<Rightarrow> (case h_regex h (snd pe) of None \<Rightarrow> False | Some test \<Rightarrow> test s)
      | _ \<Rightarrow> False)"

definition regex_rejects :: "host \<Rightarrow> event \<Rightarrow> string \<times> string \<Rightarrow> bool" where
  "regex_rejects h ev pe =
     (case readPath ev (fst pe) of
        JStr s \<Rightarrow> (case h_regex h (snd pe) of None \<Rightarrow> True | Some test \<Rightarrow> test s)
      | _ \<Rightarrow> False)"

definition domain_matches :: "host \<Rightarrow> event \<Rightarrow> string \<Rightarrow> string list option \<Rightarrow> bool" where
  "domain_matches h ev path domains =
     (case domains of
        None \<Rightarrow> True
      | Some ds \<Rightarrow> if ds = [] then True
          else (case extractHostFromPath h ev path of
                  None \<Rightarrow> False
                | Some hostname \<Rightarrow> hostname \<noteq> [] \<and> matchesDomainList hostname ds))"

text \<open>Every check of the code in its order; \<open>parents\<close> is \<open>parentStatusByAgent\<close>.\<close>

definition matchesRule ::
  "host \<Rightarrow> event \<Rightarrow> HookBridgeRuleWhen \<Rightarrow> (string, string) jsmap \<Rightarrow> bool" where
  "matchesRule h ev w parents =
     (if \<not> matchesScalarOrList (w_eventType w) (oget ev ''type'') then False
      else if \<not> matchesScalarOrList (w_toolName w) (of_str (readString (readPath ev ''data.toolName''))) then False
      else if \<not> matchesScalarOrList (w_agentId w) (oget ev ''agentId'') then False
      else if \<not> matchesScalarOrList (w_sessionId w) (oget ev ''sessionId'') then False
      else if \<not> matchesScalarOrList (w_sessionKey w) (oget ev ''sessionKey'') then False
      else if \<not> list_all (contains_matches ev) (default_to [] (w_contains w)) then False
      else if \<not> list_all (\<lambda>(path, expected). strict_eq (readPath ev path) expected)
             (default_to [] (w_equals w)) then False
      else if \<not> list_all (\<lambda>path. \<not> is_nullish (readPath ev path)) (default_to [] (w_requiredPaths w)) then False
      else if \<not> list_all (\<lambda>(path, ty). type_matches ty (readPath ev path)) (default_to [] (w_typeChecks w)) then False
      else if \<not> list_all (\<lambda>(path, values). includes_value values (readPath ev path))
             (default_to [] (w_inList w)) then False
      else if list_ex (\<lambda>(path, values). includes_value values (readPath ev path))
             (default_to [] (w_notInList w)) then False
      else if \<not> list_all (regex_matches h ev) (default_to [] (w_matchesRegex w)) then False
      else if list_ex (regex_rejects h ev) (default_to [] (w_notMatchesRegex w)) then False
      else let domainPath = default_to ''data.params.url'' (w_domainPath w) in
        if \<not> domain_matches h ev domainPath (w_domainAllowlist w) then False
        else if \<not> domain_matches h ev domainPath (w_domainBlocklist w) then False
        else if (case w_idleForMsGte w of
                   None \<Rightarrow> False
                 | Some gte \<Rightarrow> (case readPath ev ''data.idleForMs'' of JNum n \<Rightarrow> n < gte | _ \<Rightarrow> True)) then False
        else if truthy_str (w_parentStatus w)
        then (case readPath ev ''data.parentAgentId'' of
                JStr parentAgentId \<Rightarrow> mget parents parentAgentId = w_parentStatus w
              | _ \<Rightarrow> False)
        else True)"

section \<open>Templates\<close>

text \<open>
  The regular expression \<open>/\{\{\s*([^}]+)\s*\}\}/g\<close>: at two opening braces the token is the
  longest run without a closing brace; it matches when the run is not empty and two closing
  braces follow. The capture is used trimmed only.
\<close>

definition match_token :: "string \<Rightarrow> (string \<times> string) option" where
  "match_token s =
     (if \<not> starts_with s ''{{'' then None
      else let rest = drop 2 s; run = takeWhile (\<lambda>c. c \<noteq> CHR ''}'') rest; after = dropWhile (\<lambda>c. c \<noteq> CHR ''}'') rest in
        if run \<noteq> [] \<and> starts_with after ''}}'' then Some (js_trim run, drop 2 after) else None)"

lemma match_token_shorter: "match_token s = Some (t, rest) \<Longrightarrow> length rest < length s"
proof -
  assume m: "match_token s = Some (t, rest)"
  then have "s \<noteq> []" and rest: "rest = drop 2 (dropWhile (\<lambda>c. c \<noteq> CHR ''}'') (drop 2 s))"
    by (auto simp: match_token_def Let_def starts_with_def split: if_splits)
  have "length rest \<le> length (drop 2 s)"
    unfolding rest using length_dropWhile_le [of "\<lambda>c. c \<noteq> CHR ''}''" "drop 2 s"] by simp
  with \<open>s \<noteq> []\<close> show ?thesis by (cases s) auto
qed

text \<open>\<open>sub\<close> gives the replacement of a token, or none when the expression does not match it.\<close>

function replace_tokens :: "(string \<Rightarrow> string option) \<Rightarrow> string \<Rightarrow> string" where
  "replace_tokens sub [] = []"
| "replace_tokens sub (c # cs) =
     (case match_token (c # cs) of
        None \<Rightarrow> c # replace_tokens sub cs
      | Some (token, rest) \<Rightarrow>
          (case sub token of
             None \<Rightarrow> c # replace_tokens sub cs
           | Some t \<Rightarrow> t @ replace_tokens sub rest))"
  by pat_completeness auto

termination
  by (relation "measure (\<lambda>(sub, s). length s)") (auto dest: match_token_shorter)

definition guard_token :: "host \<Rightarrow> event \<Rightarrow> string \<Rightarrow> string" where
  "guard_token h ev token =
     (if token = ''toolName'' then default_to [] (readString (readPath ev ''data.toolName''))
      else if token = ''eventType'' then join_text (oget ev ''type'')
      else if token \<in> {''agentId'', ''sessionId'', ''sessionKey'', ''runId'', ''toolCallId''}
      then default_to [] (ostr ev token)
      else if starts_with token ''path:''
      then toStableToken (h_locale h) (readPath ev (js_trim (drop 5 token))) []
      else [])"

definition renderGuardTemplate :: "host \<Rightarrow> string \<Rightarrow> event \<Rightarrow> string" where
  "renderGuardTemplate h template ev = replace_tokens (\<lambda>token. Some (guard_token h ev token)) template"

definition resolveDecisionTemplates ::
  "host \<Rightarrow> HookBridgeGuardDecision \<Rightarrow> event \<Rightarrow> HookBridgeGuardDecision" where
  "resolveDecisionTemplates h decision ev =
     (let reasonTemplate = nullish (gd_blockReasonTemplate decision) (gd_blockReason decision) in
      case reasonTemplate of
        None \<Rightarrow> decision
      | Some t \<Rightarrow> if t = [] then decision
          else decision\<lparr>gd_blockReason := Some (renderGuardTemplate h t ev)\<rparr>)"

section \<open>Tool guard events and scopes\<close>

record tool_call =
  tl_toolName :: string
  tl_params :: jsval
  tl_agentId :: "string option"
  tl_sessionId :: "string option"
  tl_sessionKey :: "string option"
  tl_runId :: "string option"
  tl_toolCallId :: "string option"

text \<open>The generated id, the version and the time stamp are arguments.\<close>

definition buildToolGuardEvent :: "string \<Rightarrow> string \<Rightarrow> string \<Rightarrow> tool_call \<Rightarrow> event" where
  "buildToolGuardEvent eventId version timestamp p =
     [(''eventId'', JStr eventId), (''schemaVersion'', JStr ''1.1.0''), (''pluginVersion'', JStr version),
      (''timestamp'', JStr timestamp), (''type'', JStr ''tool.called''), (''eventCategory'', JStr ''tool''),
      (''eventName'', JStr ''before_tool_call''), (''source'', JStr ''plugin-hook''),
      (''agentId'', of_str (tl_agentId p)), (''sessionId'', of_str (tl_sessionId p)),
      (''sessionKey'', of_str (tl_sessionKey p)), (''runId'', of_str (tl_runId p)),
      (''toolCallId'', of_str (tl_toolCallId p)),
      (''data'', JObj [(''toolName'', JStr (tl_toolName p)), (''params'', tl_params p)])]"

definition buildToolGuardScopeKey :: "host \<Rightarrow> string \<Rightarrow> jsval \<Rightarrow> string \<Rightarrow> string" where
  "buildToolGuardScopeKey h toolName params mode =
     (if mode = ''tool'' then toolName
      else toolName @ '':'' @ default_to ''undefined'' (stableJsonStringify (h_locale h) params))"

section \<open>Scripts that may run (hook-bridge-actions.ts)\<close>

definition isAllowedLocalScriptPath :: "host \<Rightarrow> string list \<Rightarrow> string \<Rightarrow> bool" where
  "isAllowedLocalScriptPath h allowedActionDirs scriptPath =
     (if allowedActionDirs = [] then False
      else list_ex (\<lambda>dir.
        case toCanonicalPath h (h_resolve h dir) of
          None \<Rightarrow> False
        | Some canonicalDir \<Rightarrow>
            if canonicalDir = [] then False
            else scriptPath = canonicalDir \<or> starts_with scriptPath (canonicalDir @ ''/'')) allowedActionDirs)"

section \<open>Lemmas\<close>

text \<open>
  Domain lists match at label boundaries: a host matches exactly when, case and blanks
  aside, it is an entry of the list or a subdomain of one.
\<close>

theorem domain_list_spec:
  "matchesDomainList hostname domains \<longleftrightarrow>
     (\<exists>entry \<in> set domains. js_lower (js_trim entry) \<noteq> [] \<and>
        (js_lower hostname = js_lower (js_trim entry) \<or>
         (\<exists>label. js_lower hostname = label @ ''.'' @ js_lower (js_trim entry))))"
  by (auto simp: matchesDomainList_def Let_def list_ex_iff ends_with_iff)

text \<open>A matcher without conditions matches every event.\<close>

lemma any_when_matches: "matchesRule h ev any_when parents"
  by (simp add: matchesRule_def any_when_def matchesScalarOrList_def domain_matches_def)

end
