(* ===== verification/BridgeActions.thy ===== *)
theory BridgeActions imports RuleMatch begin

text \<open>
  The actions of the hook bridge, \<open>src/runtime/hook-bridge-actions.ts\<close>: what is requested from
  the network or the operating system, the life of a local script's process, and how the result
  becomes a guard decision. \<open>fetch\<close>, \<open>spawn\<close> and the signals are outside; their answers are
  arguments or events.
\<close>

section \<open>Requests\<close>

datatype action_request =
    HttpRequest string string "(string \<times> string) list" string int
  | RunScript string "string list" string int

definition action_payload :: "string \<Rightarrow> event \<Rightarrow> string" where
  "action_payload ruleId ev =
     default_to ''undefined'' (json_stringify (JObj [(''ruleId'', JStr ruleId), (''event'', JObj ev)]))"

definition executeWebhookAction ::
  "HookBridgeWebhookAction \<Rightarrow> event \<Rightarrow> string \<Rightarrow> int option \<Rightarrow> action_request" where
  "executeWebhookAction action ev ruleId defaultTimeoutMs =
     (let headers0 = fold (\<lambda>(k, v). mput k v) (default_to [] (wa_headers action))
            [(''content-type'', ''application/json'')];
          headers = (if truthy_str (wa_authToken action)
            then mput ''authorization'' (''Bearer '' @ default_to [] (wa_authToken action)) headers0 else headers0);
          timeoutMs = default_to 10000 (nullish (wa_timeoutMs action) defaultTimeoutMs)
      in HttpRequest (wa_url action) (default_to ''POST'' (wa_method action)) headers
           (action_payload ruleId ev) timeoutMs)"

definition executeLocalScriptAction ::
  "host \<Rightarrow> HookBridgeConfig \<Rightarrow> HookBridgeLocalScriptAction \<Rightarrow> event \<Rightarrow> string \<Rightarrow> int option \<Rightarrow>
   string + action_request" where
  "executeLocalScriptAction h config action ev ruleId defaultTimeoutMs =
     (let absolutePath = h_resolve h (sa_path action) in
      case toCanonicalPath h absolutePath of
        None \<Rightarrow> Inl (''Script path could not be resolved: '' @ absolutePath)
      | Some canonicalPath \<Rightarrow>
          if canonicalPath = [] then Inl (''Script path could not be resolved: '' @ absolutePath)
          else if \<not> isAllowedLocalScriptPath h (hb_allowedActionDirs config) canonicalPath
          then Inl (''Script path is not allowed: '' @ absolutePath)
          else let timeoutMs = default_to (ls_timeoutMs (hb_localScriptDefaults config))
                     (nullish (sa_timeoutMs action) defaultTimeoutMs);
                   maxPayloadBytes = default_to (ls_maxPayloadBytes (hb_localScriptDefaults config))
                     (sa_maxPayloadBytes action);
                   payload = action_payload ruleId ev;
                   payloadBytes = int (utf8_length payload) in
            if payloadBytes > maxPayloadBytes
            then Inl (''Script payload exceeds maxPayloadBytes ('' @ show_int payloadBytes @ '' > '' @
                      show_int maxPayloadBytes @ '')'')
            else Inr (RunScript canonicalPath (default_to [] (sa_args action)) payload timeoutMs))"

definition start_action ::
  "host \<Rightarrow> HookBridgeConfig \<Rightarrow> HookBridgeAction \<Rightarrow> event \<Rightarrow> string \<Rightarrow> int option \<Rightarrow> string + action_request" where
  "start_action h config action ev ruleId defaultTimeoutMs =
     (case action of
        WebhookAction a \<Rightarrow> Inr (executeWebhookAction a ev ruleId defaultTimeoutMs)
      | LocalScriptAction a \<Rightarrow> executeLocalScriptAction h config a ev ruleId defaultTimeoutMs)"

section \<open>The process of a local script\<close>

record LocalScriptResult =
  sr_exitCode :: "int option"
  sr_stdout :: string
  sr_stderr :: string
  sr_timedOut :: bool

datatype script_event =
    StdoutData string
  | StderrData string
  | ChildError string
  | StdinError string
  | TimeoutFires
  | KillTimerFires
  | ChildClose "int option"

datatype signal = SIGTERM | SIGKILL

record script_run =
  sc_stdout :: string
  sc_stderr :: string
  sc_settled :: "(string + LocalScriptResult) option"
  sc_timedOut :: bool
  sc_timer :: bool
  sc_signals :: "signal list"

definition new_script_run :: script_run where
  "new_script_run = \<lparr> sc_stdout = [], sc_stderr = [], sc_settled = None, sc_timedOut = False,
     sc_timer = True, sc_signals = [] \<rparr>"

definition settle_script :: "string + LocalScriptResult \<Rightarrow> script_run \<Rightarrow> script_run" where
  "settle_script r s = (if sc_settled s \<noteq> None then s else s\<lparr>sc_settled := Some r, sc_timer := False\<rparr>)"

fun runLocalScript :: "script_event \<Rightarrow> script_run \<Rightarrow> script_run" where
  "runLocalScript (StdoutData chunk) s = s\<lparr>sc_stdout := sc_stdout s @ chunk\<rparr>"
| "runLocalScript (StderrData chunk) s = s\<lparr>sc_stderr := sc_stderr s @ chunk\<rparr>"
| "runLocalScript (ChildError msg) s = settle_script (Inl msg) s"
| "runLocalScript (StdinError msg) s = settle_script (Inl msg) s"
| "runLocalScript TimeoutFires s =
     (if sc_timer s
      then s\<lparr>sc_timedOut := True, sc_timer := False, sc_signals := sc_signals s @ [SIGTERM]\<rparr> else s)"
| "runLocalScript KillTimerFires s =
     (if sc_timedOut s \<and> sc_settled s = None then s\<lparr>sc_signals := sc_signals s @ [SIGKILL]\<rparr> else s)"
| "runLocalScript (ChildClose exitCode) s =
     settle_script (Inr \<lparr> sr_exitCode = exitCode, sr_stdout = sc_stdout s, sr_stderr = sc_stderr s,
                          sr_timedOut = sc_timedOut s \<rparr>) s"

section \<open>Results\<close>

text \<open>\<open>basename\<close> of the script path is an argument.\<close>

definition script_outcome :: "string \<Rightarrow> int \<Rightarrow> LocalScriptResult \<Rightarrow> string + string" where
  "script_outcome name timeoutMs r =
     (if sr_timedOut r
      then Inl (''Script timed out after '' @ show_int timeoutMs @ ''ms ('' @ name @ '')'')
      else if sr_exitCode r \<noteq> Some 0
      then Inl (''Script exited with code '' @
                (case sr_exitCode r of None \<Rightarrow> ''null'' | Some c \<Rightarrow> show_int c) @
                '' (stderr: '' @ trimPreview 240 (sr_stderr r) @ '')'')
      else Inr (sr_stdout r))"

definition webhook_outcome :: "bool \<Rightarrow> int \<Rightarrow> string \<Rightarrow> string + string" where
  "webhook_outcome ok status body =
     (if \<not> ok then Inl (''Webhook action failed with status '' @ show_int status) else Inr body)"

definition parseHookBridgeDecision ::
  "(string \<Rightarrow> string + jsval) \<Rightarrow> string \<Rightarrow> HookBridgeGuardDecision option" where
  "parseHookBridgeDecision parse raw =
     (let trimmed = js_trim raw in
      if trimmed = [] then None
      else (case parse trimmed of
              Inl _ \<Rightarrow> None
            | Inr parsed \<Rightarrow>
                if \<not> isRecord parsed then None
                else let blockValue = jprop parsed ''block'';
                         hasBlockBoolean = (typeof blockValue = ''boolean'');
                         params = readObject (jprop parsed ''params'') in
                  if \<not> hasBlockBoolean \<and> params = None then None
                  else Some \<lparr> gd_block = (if hasBlockBoolean then Some (blockValue = JBool True) else None),
                              gd_blockReason = readString (jprop parsed ''blockReason''),
                              gd_params = params,
                              gd_blockReasonTemplate = readString (jprop parsed ''blockReasonTemplate'') \<rparr>))"

section \<open>Lemmas\<close>

text \<open>A promise settles once.\<close>

lemma script_settles_once:
  "sc_settled s = Some r \<Longrightarrow> sc_settled (fold runLocalScript es s) = Some r"
proof (induction es arbitrary: s)
  case (Cons e es)
  have "sc_settled (runLocalScript e s) = Some r"
    using Cons.prems by (cases e) (auto simp: settle_script_def)
  with Cons show ?case by simp
qed simp

text \<open>Once the timeout has fired, the script counts as timed out, whatever it does then.\<close>

lemma timed_out_stays:
  "sc_timedOut s \<Longrightarrow> sc_settled s = None \<Longrightarrow>
   (case sc_settled (fold runLocalScript es s) of
      None \<Rightarrow> True
    | Some (Inl _) \<Rightarrow> True
    | Some (Inr r) \<Rightarrow> sr_timedOut r)"
proof (induction es arbitrary: s)
  case Nil
  then show ?case by simp
next
  case (Cons e es)
  show ?case
  proof (cases "sc_settled (runLocalScript e s)")
    case None
    moreover have "sc_timedOut (runLocalScript e s)"
      using Cons.prems by (cases e) (auto simp: settle_script_def)
    ultimately show ?thesis using Cons.IH by simp
  next
    case (Some r)
    then have "sc_settled (fold runLocalScript es (runLocalScript e s)) = Some r"
      by (rule script_settles_once)
    moreover have "case r of Inl _ \<Rightarrow> True | Inr q \<Rightarrow> sr_timedOut q"
      using Some Cons.prems by (cases e) (auto simp: settle_script_def split: if_splits)
    ultimately show ?thesis by (simp split: sum.splits)
  qed
qed

lemma allowed_path_boundary:
  "isAllowedLocalScriptPath h dirs p \<Longrightarrow>
   \<exists>dir \<in> set dirs. \<exists>c rest. h_realpath h (h_resolve h dir) = Some c \<and> c \<noteq> [] \<and>
     p = c @ rest \<and> (rest = [] \<or> hd rest = CHR ''/'')"
  by (auto simp: isAllowedLocalScriptPath_def toCanonicalPath_def list_ex_iff starts_with_iff
      split: option.splits if_splits)
    (metis append.assoc append_Cons append_Nil2 list.sel(1) append_Nil)+

text \<open>
  C33. A local script runs only under its canonical path, which lies in the canonical path of an
  allowed directory at a path boundary, and only with a payload within the configured limit.
\<close>

theorem script_confined:
  assumes "start_action h config (LocalScriptAction a) ev ruleId t = Inr (RunScript path args payload timeout)"
  shows "h_realpath h (h_resolve h (sa_path a)) = Some path \<and>
     (\<exists>dir \<in> set (hb_allowedActionDirs config). \<exists>c rest.
        h_realpath h (h_resolve h dir) = Some c \<and> path = c @ rest \<and> (rest = [] \<or> hd rest = CHR ''/'')) \<and>
     int (utf8_length payload) \<le> default_to (ls_maxPayloadBytes (hb_localScriptDefaults config)) (sa_maxPayloadBytes a)"
  using assms
  by (auto simp: start_action_def executeLocalScriptAction_def Let_def toCanonicalPath_def
      dest!: allowed_path_boundary split: option.splits if_splits)

text \<open>
  A script whose timeout fired never counts as successful: whatever it prints and however
  its process ends afterwards, its result is an error.
\<close>

theorem timed_out_script_fails:
  assumes "sc_timedOut s" and "sc_settled s = None"
    and "sc_settled (fold runLocalScript es s) = Some (Inr r)"
  shows "\<exists>msg. script_outcome name timeoutMs r = Inl msg"
  using timed_out_stays [OF assms(1,2), of es] assms(3) by (simp add: script_outcome_def)

definition script_host :: host where
  "script_host =
     \<lparr> h_url = (\<lambda>u. None), h_regex = (\<lambda>r. None), h_locale = code_unit_le,
       h_realpath = (\<lambda>p. Some p), h_resolve = (\<lambda>p. p),
       h_isAbsolute = (\<lambda>p. True), h_readFile = (\<lambda>p. None) \<rparr>"

definition script_config :: HookBridgeConfig where
  "script_config = default_hookBridge\<lparr>hb_allowedActionDirs := [''/opt/hooks'']\<rparr>"

definition notify_script :: HookBridgeLocalScriptAction where
  "notify_script = \<lparr> sa_path = ''/opt/hooks/notify'', sa_args = None, sa_timeoutMs = None, sa_maxPayloadBytes = None \<rparr>"

theorem script_confined_witness:
  "int (utf8_length (action_payload ''r1'' sample_event)) \<le> 65536"
proof -
  have "start_action script_host script_config (LocalScriptAction notify_script) sample_event ''r1'' None =
     Inr (RunScript ''/opt/hooks/notify'' [] (action_payload ''r1'' sample_event) 10000)"
    by code_simp
  from script_confined [OF this] show ?thesis
    by (simp add: script_config_def default_hookBridge_def notify_script_def)
qed

theorem timed_out_script_fails_witness:
  "\<exists>msg. script_outcome ''notify'' 1000 \<lparr> sr_exitCode = Some 0, sr_stdout = ''{}'', sr_stderr = [], sr_timedOut = True \<rparr> = Inl msg"
  by (rule timed_out_script_fails [of "runLocalScript TimeoutFires new_script_run"
        "[StdoutData ''{}'', ChildClose (Some 0)]"])
     (simp_all add: new_script_run_def settle_script_def)

end
