(* ===== verification/ToolGuard.thy ===== *)
theory ToolGuard imports BridgeActions Validate begin

text \<open>
  The tool guard of \<open>src/runtime/hook-bridge.ts\<close>: \<open>evaluateBeforeToolCall\<close> with its retry
  backoff, approval cache, rule loop and error policy, and the agent status it observes. The
  evaluation gives up control at every action it awaits; \<open>AwaitsAction\<close> holds what it needs to go
  on, so several evaluations interleave on one state. \<open>Date.now()\<close> is read once per stretch of
  code between two awaits.
\<close>

section \<open>State\<close>

record HookBridgeGuardDecisionOutcome = HookBridgeGuardDecision +
  oc_matchedRuleId :: "string option"
  oc_matchedActionId :: "string option"
  oc_decisionSource :: "string option"
  oc_matched :: "bool option"

record blocked_state =
  bl_blockedAtMs :: int
  bl_reason :: "string option"

record cached_approval =
  ca_expiresAtMs :: int
  ca_decision :: HookBridgeGuardDecision
  ca_ruleId :: "string option"
  ca_actionId :: "string option"

record guard_state =
  gs_parentStatusByAgent :: "(string, string) jsmap"
  gs_lastTriggerByRule :: "(string, int) jsmap"
  gs_blockedRetryStateByScope :: "(string, blocked_state) jsmap"
  gs_approvalCacheByScope :: "(string, cached_approval) jsmap"
  gs_acceptingEvents :: bool

definition new_guard :: guard_state where
  "new_guard = \<lparr> gs_parentStatusByAgent = [], gs_lastTriggerByRule = [],
     gs_blockedRetryStateByScope = [], gs_approvalCacheByScope = [], gs_acceptingEvents = True \<rparr>"

definition no_decision :: HookBridgeGuardDecision where
  "no_decision = \<lparr> gd_block = None, gd_blockReason = None, gd_params = None, gd_blockReasonTemplate = None \<rparr>"

definition block_decision :: "string \<Rightarrow> HookBridgeGuardDecision" where
  "block_decision reason = no_decision\<lparr>gd_block := Some True, gd_blockReason := Some reason\<rparr>"

definition outcome ::
  "HookBridgeGuardDecision \<Rightarrow> string option \<Rightarrow> string option \<Rightarrow> string option \<Rightarrow> bool option \<Rightarrow>
   HookBridgeGuardDecisionOutcome" where
  "outcome d ruleId actionId source matched =
     HookBridgeGuardDecision.extend d
       \<lparr> oc_matchedRuleId = ruleId, oc_matchedActionId = actionId, oc_decisionSource = source, oc_matched = matched \<rparr>"

section \<open>Expiry, cooldown, recording\<close>

definition sweep_approvals :: "int \<Rightarrow> (string, cached_approval) jsmap \<Rightarrow> (string, cached_approval) jsmap" where
  "sweep_approvals nowMs m = filter (\<lambda>(k, cached). \<not> ca_expiresAtMs cached \<le> nowMs) m"

text \<open>The backoff is part of the time at which the blocked entries are swept.\<close>

definition sweep_blocked :: "int \<times> int \<Rightarrow> (string, blocked_state) jsmap \<Rightarrow> (string, blocked_state) jsmap" where
  "sweep_blocked t m =
     (case t of (nowMs, retryBackoffMs) \<Rightarrow>
       if retryBackoffMs \<le> 0 then []
       else filter (\<lambda>(k, blocked). \<not> nowMs - bl_blockedAtMs blocked \<ge> retryBackoffMs) m)"

definition cleanupToolGuardState :: "int \<Rightarrow> int \<Rightarrow> guard_state \<Rightarrow> guard_state" where
  "cleanupToolGuardState nowMs retryBackoffMs g =
     g\<lparr> gs_approvalCacheByScope := sweep_approvals nowMs (gs_approvalCacheByScope g),
        gs_blockedRetryStateByScope := sweep_blocked (nowMs, retryBackoffMs) (gs_blockedRetryStateByScope g) \<rparr>"

definition recordToolGuardDecision ::
  "HookBridgeToolGuardConfig \<Rightarrow> string \<Rightarrow> HookBridgeGuardDecisionOutcome \<Rightarrow> int \<Rightarrow> guard_state \<Rightarrow> guard_state" where
  "recordToolGuardDecision tg scopeKey oc nowMs g =
     (if gd_block oc = Some True
      then g\<lparr>gs_blockedRetryStateByScope := mput scopeKey
               \<lparr> bl_blockedAtMs = nowMs, bl_reason = gd_blockReason oc \<rparr> (gs_blockedRetryStateByScope g)\<rparr>
      else if tg_approvalCacheTtlMs tg \<le> 0 then g
      else g\<lparr>gs_approvalCacheByScope := mput scopeKey
               \<lparr> ca_expiresAtMs = nowMs + tg_approvalCacheTtlMs tg,
                 ca_decision = no_decision\<lparr>gd_block := Some False, gd_params := gd_params oc\<rparr>,
                 ca_ruleId = oc_matchedRuleId oc, ca_actionId = oc_matchedActionId oc \<rparr>
               (gs_approvalCacheByScope g)\<rparr>)"

definition canTrigger :: "int \<Rightarrow> string \<Rightarrow> int option \<Rightarrow> (string, int) jsmap \<Rightarrow> bool" where
  "canTrigger now ruleId cooldownMs lastTriggerByRule =
     (case cooldownMs of
        None \<Rightarrow> True
      | Some c \<Rightarrow> if c \<le> 0 then True
          else (case mget lastTriggerByRule ruleId of
                  None \<Rightarrow> True
                | Some lastTriggeredAt \<Rightarrow> lastTriggeredAt = 0 \<or> now - lastTriggeredAt \<ge> c))"

definition observeAgentStatus :: "event \<Rightarrow> guard_state \<Rightarrow> guard_state" where
  "observeAgentStatus ev g =
     (if oget ev ''type'' \<noteq> JStr ''agent.status'' then g
      else (case oget ev ''agentId'' of
              JStr agentId \<Rightarrow> if agentId = [] then g
                else (case readPath ev ''data.status'' of
                        JStr status \<Rightarrow> if js_trim status = [] then g
                          else g\<lparr>gs_parentStatusByAgent := mput agentId status (gs_parentStatusByAgent g)\<rparr>
                      | _ \<Rightarrow> g)
            | _ \<Rightarrow> g))"

section \<open>The rules\<close>

definition rule_before :: "HookBridgeToolGuardRule \<Rightarrow> HookBridgeToolGuardRule \<Rightarrow> bool" where
  "rule_before a b \<longleftrightarrow> default_to 0 (gr_priority b) \<le> default_to 0 (gr_priority a)"

definition sortedRules :: "HookBridgeToolGuardConfig \<Rightarrow> HookBridgeToolGuardRule list" where
  "sortedRules tg = sort_by rule_before (tg_rules tg)"

definition stopOnMatch :: "HookBridgeToolGuardConfig \<Rightarrow> HookBridgeToolGuardRule \<Rightarrow> bool" where
  "stopOnMatch tg rule = default_to False (nullish (gr_stopOnMatch rule) (tg_stopOnMatchDefault tg))"

record guard_call =
  gc_event :: event
  gc_scopeKey :: string
  gc_nowMs :: int

record pending_action =
  pa_call :: guard_call
  pa_rule :: HookBridgeToolGuardRule
  pa_actionId :: string
  pa_rest :: "HookBridgeToolGuardRule list"

datatype evaluation =
    Returned "HookBridgeGuardDecisionOutcome option"
  | AwaitsAction pending_action

definition rule_applies :: "host \<Rightarrow> int \<Rightarrow> event \<Rightarrow> HookBridgeToolGuardRule \<Rightarrow> guard_state \<Rightarrow> bool" where
  "rule_applies h now ev rule g =
     (if gr_enabled rule = Some False then False
      else if \<not> matchesRule h ev (gr_when rule) (gs_parentStatusByAgent g) then False
      else canTrigger now (gr_id rule) (gr_cooldownMs rule) (gs_lastTriggerByRule g))"

fun guard_rules ::
  "host \<Rightarrow> HookBridgeConfig \<Rightarrow> int \<Rightarrow> guard_call \<Rightarrow> HookBridgeToolGuardRule list \<Rightarrow> guard_state \<Rightarrow>
   evaluation \<times> guard_state" where
  "guard_rules h b now call [] g = (Returned None, g)"
| "guard_rules h b now call (rule # rules) g =
     (let tg = hb_toolGuard b in
      if \<not> rule_applies h now (gc_event call) rule g then guard_rules h b now call rules g
      else let g1 = g\<lparr>gs_lastTriggerByRule := mput (gr_id rule) now (gs_lastTriggerByRule g)\<rparr> in
        case gr_decision rule of
          Some decision \<Rightarrow>
            (if tg_dryRun tg
             then (if stopOnMatch tg rule
                   then (Returned (Some (outcome no_decision (Some (gr_id rule)) None None (Some True))), g1)
                   else guard_rules h b now call rules g1)
             else let oc = outcome (resolveDecisionTemplates h decision (gc_event call))
                        (Some (gr_id rule)) None (Some ''rule'') (Some True)
                  in (Returned (Some oc), recordToolGuardDecision tg (gc_scopeKey call) oc (gc_nowMs call) g1))
        | None \<Rightarrow>
            (if \<not> non_blank_opt (gr_action rule)
             then (if tg_onError tg = ''block''
                   then (Returned (Some (outcome (block_decision
                          (''Tool guard action missing for rule '' @ [CHR 0x22] @ gr_id rule @ [CHR 0x22]))
                          None None None None)), g1)
                   else guard_rules h b now call rules g1)
             else let actionId = default_to [] (gr_action rule) in
               if \<not> mhas (hb_actions b) actionId
               then (if tg_onError tg = ''block''
                     then (Returned (Some (outcome (block_decision (''Tool guard action not found: '' @ actionId))
                            None None None None)), g1)
                     else guard_rules h b now call rules g1)
               else (AwaitsAction \<lparr> pa_call = call, pa_rule = rule, pa_actionId = actionId, pa_rest = rules \<rparr>, g1)))"

text \<open>After the awaited action: it failed, gave no decision, or decided.\<close>

definition guard_resume ::
  "host \<Rightarrow> HookBridgeConfig \<Rightarrow> int \<Rightarrow> pending_action \<Rightarrow> string + HookBridgeGuardDecision option \<Rightarrow>
   guard_state \<Rightarrow> evaluation \<times> guard_state" where
  "guard_resume h b now p result g =
     (let tg = hb_toolGuard b; call = pa_call p; rule = pa_rule p; ruleId = Some (gr_id rule);
          actionId = Some (pa_actionId p);
          stopped = (Returned (Some (outcome no_decision ruleId actionId None (Some True))), g) in
      case result of
        Inl message \<Rightarrow>
          (if tg_onError tg = ''block''
           then let oc = outcome (block_decision
                      (''Tool guard failed for rule '' @ [CHR 0x22] @ gr_id rule @ [CHR 0x22] @ '': '' @ message))
                      ruleId actionId (Some ''action'') (Some True)
                in (Returned (Some oc), recordToolGuardDecision tg (gc_scopeKey call) oc (gc_nowMs call) g)
           else if stopOnMatch tg rule then stopped
           else guard_rules h b now call (pa_rest p) g)
      | Inr None \<Rightarrow> (if stopOnMatch tg rule then stopped else guard_rules h b now call (pa_rest p) g)
      | Inr (Some decision) \<Rightarrow>
          (if tg_dryRun tg
           then (if stopOnMatch tg rule then stopped else guard_rules h b now call (pa_rest p) g)
           else let oc = outcome (resolveDecisionTemplates h decision (gc_event call)) ruleId actionId
                      (Some ''action'') (Some True)
                in (Returned (Some oc), recordToolGuardDecision tg (gc_scopeKey call) oc (gc_nowMs call) g)))"

section \<open>Evaluation\<close>

definition backoff_reason :: "host \<Rightarrow> HookBridgeToolGuardConfig \<Rightarrow> int \<Rightarrow> event \<Rightarrow> string" where
  "backoff_reason h tg remainingMs ev =
     replace_tokens (\<lambda>token. if token = ''retryBackoffRemainingMs'' then Some (show_int remainingMs) else None)
       (renderGuardTemplate h (default_to
          ''Retry blocked. Back off briefly before retrying this tool call.'' (tg_retryBackoffReason tg)) ev)"

definition scope_of :: "host \<Rightarrow> HookBridgeToolGuardConfig \<Rightarrow> tool_call \<Rightarrow> string" where
  "scope_of h tg p = buildToolGuardScopeKey h (tl_toolName p) (tl_params p)
     (default_to ''tool_and_params'' (tg_scopeKeyBy tg))"

text \<open>\<open>eventId\<close> and \<open>timestamp\<close> are those of the event built for the call.\<close>

definition evaluateBeforeToolCall ::
  "host \<Rightarrow> HookBridgeConfig \<Rightarrow> int \<Rightarrow> string \<Rightarrow> string \<Rightarrow> tool_call \<Rightarrow> guard_state \<Rightarrow> evaluation \<times> guard_state" where
  "evaluateBeforeToolCall h b nowMs eventId timestamp p g0 =
     (let tg = hb_toolGuard b in
      if \<not> tg_enabled tg \<or> \<not> gs_acceptingEvents g0 then (Returned None, g0)
      else let toolEvent = buildToolGuardEvent eventId ''1.3.0'' timestamp p;
               scopeKey = scope_of h tg p;
               g = cleanupToolGuardState nowMs (tg_retryBackoffMs tg) g0;
               proceed =
                 (case mget (gs_approvalCacheByScope g) scopeKey of
                    Some cached \<Rightarrow>
                      if ca_expiresAtMs cached > nowMs
                      then (Returned (Some (outcome (resolveDecisionTemplates h (ca_decision cached) toolEvent)
                              (ca_ruleId cached) (ca_actionId cached) (Some ''cache'') (Some True))), g)
                      else guard_rules h b nowMs
                             \<lparr> gc_event = toolEvent, gc_scopeKey = scopeKey, gc_nowMs = nowMs \<rparr> (sortedRules tg) g
                  | None \<Rightarrow> guard_rules h b nowMs
                             \<lparr> gc_event = toolEvent, gc_scopeKey = scopeKey, gc_nowMs = nowMs \<rparr> (sortedRules tg) g)
           in case mget (gs_blockedRetryStateByScope g) scopeKey of
                Some blocked \<Rightarrow>
                  if tg_retryBackoffMs tg > 0 \<and> nowMs - bl_blockedAtMs blocked < tg_retryBackoffMs tg
                  then let remainingMs = tg_retryBackoffMs tg - (nowMs - bl_blockedAtMs blocked)
                       in (Returned (Some (outcome (block_decision (backoff_reason h tg remainingMs toolEvent))
                            None None (Some ''backoff'') (Some True))), g)
                  else proceed
              | None \<Rightarrow> proceed)"

section \<open>Events (onEvent)\<close>

text \<open>
  The rules of the bridge that an event triggers, in order, with the actions to enqueue. The
  trigger times share one map with the rules of the tool guard.
\<close>

fun event_rules ::
  "host \<Rightarrow> HookBridgeConfig \<Rightarrow> int \<Rightarrow> event \<Rightarrow> HookBridgeRule list \<Rightarrow> guard_state \<Rightarrow>
   (HookBridgeRule \<times> HookBridgeAction) list \<times> guard_state" where
  "event_rules h b now ev [] g = ([], g)"
| "event_rules h b now ev (rule # rules) g =
     (if hbr_enabled rule = Some False \<or> \<not> matchesRule h ev (hbr_when rule) (gs_parentStatusByAgent g) \<or>
         \<not> canTrigger now (hbr_id rule) (hbr_cooldownMs rule) (gs_lastTriggerByRule g)
      then event_rules h b now ev rules g
      else let g1 = g\<lparr>gs_lastTriggerByRule := mput (hbr_id rule) now (gs_lastTriggerByRule g)\<rparr>;
               (tasks, g2) = event_rules h b now ev rules g1 in
        if hb_dryRun b then (tasks, g2)
        else (case mget (hb_actions b) (hbr_action rule) of
                None \<Rightarrow> (tasks, g2)
              | Some action \<Rightarrow> ((rule, action) # tasks, g2)))"

definition onEvent ::
  "host \<Rightarrow> HookBridgeConfig \<Rightarrow> int \<Rightarrow> event \<Rightarrow> guard_state \<Rightarrow>
   (HookBridgeRule \<times> HookBridgeAction) list \<times> guard_state" where
  "onEvent h b now ev g =
     (if \<not> hb_enabled b \<or> \<not> gs_acceptingEvents g then ([], g)
      else event_rules h b now ev (hb_rules b) (observeAgentStatus ev g))"

section \<open>Interleaved evaluations\<close>

record guard_machine =
  gm_state :: guard_state
  gm_next :: nat
  gm_inflight :: "(nat, pending_action) jsmap"
  gm_returned :: "(nat \<times> string \<times> int \<times> HookBridgeGuardDecisionOutcome option) list"

datatype guard_op =
    Evaluate int string string tool_call
  | ActionSettles nat int "string + HookBridgeGuardDecision option"
  | BridgeEvent int event
  | StopAccepting

definition finish_evaluation ::
  "nat \<Rightarrow> string \<Rightarrow> int \<Rightarrow> evaluation \<times> guard_state \<Rightarrow> guard_machine \<Rightarrow> guard_machine" where
  "finish_evaluation i scope now r m =
     (case r of
        (Returned oc, g) \<Rightarrow>
          m\<lparr>gm_state := g, gm_inflight := mdel i (gm_inflight m), gm_returned := gm_returned m @ [(i, scope, now, oc)]\<rparr>
      | (AwaitsAction p, g) \<Rightarrow> m\<lparr>gm_state := g, gm_inflight := mput i p (gm_inflight m)\<rparr>)"

fun guard_step :: "host \<Rightarrow> HookBridgeConfig \<Rightarrow> guard_op \<Rightarrow> guard_machine \<Rightarrow> guard_machine" where
  "guard_step h b (Evaluate now eventId timestamp p) m =
     finish_evaluation (gm_next m) (scope_of h (hb_toolGuard b) p) now
       (evaluateBeforeToolCall h b now eventId timestamp p (gm_state m)) (m\<lparr>gm_next := Suc (gm_next m)\<rparr>)"
| "guard_step h b (ActionSettles i now result) m =
     (case mget (gm_inflight m) i of
        None \<Rightarrow> m
      | Some p \<Rightarrow> finish_evaluation i (gc_scopeKey (pa_call p)) now
                    (guard_resume h b now p result (gm_state m)) m)"
| "guard_step h b (BridgeEvent now ev) m = m\<lparr>gm_state := snd (onEvent h b now ev (gm_state m))\<rparr>"
| "guard_step h b StopAccepting m = m\<lparr>gm_state := (gm_state m)\<lparr>gs_acceptingEvents := False\<rparr>\<rparr>"

section \<open>Lemmas\<close>

lemma find_insert_by:
  assumes trans: "\<And>a b c. le a b \<Longrightarrow> le b c \<Longrightarrow> le a c" and srt: "sorted_wrt le ys"
  shows "List.find P (insert_by le x ys) =
     (if P x then (case List.find P ys of None \<Rightarrow> Some x | Some y \<Rightarrow> if le x y then Some x else Some y)
      else List.find P ys)"
  using srt
proof (induction ys)
  case Nil
  then show ?case by simp
next
  case (Cons z ys)
  have found: "List.find P ys = Some y \<Longrightarrow> y \<in> set ys" for y
    by (metis find_Some_iff nth_mem)
  show ?case
  proof (cases "le x z")
    case True
    have "List.find P ys = Some y \<Longrightarrow> le x y" for y
      using found [of y] Cons.prems True trans by auto
    with True show ?thesis by (auto split: option.splits)
  next
    case False
    with Cons show ?thesis by (auto split: option.splits)
  qed
qed

lemma find_sort_by:
  assumes total: "\<And>a b. le a b \<or> le b a" and trans: "\<And>a b c. le a b \<Longrightarrow> le b c \<Longrightarrow> le a c"
    and found: "List.find P (sort_by le xs) = Some r"
  shows "\<exists>pre post. xs = pre @ r # post \<and> (\<forall>x \<in> set pre. P x \<longrightarrow> \<not> le x r) \<and> (\<forall>x \<in> set post. P x \<longrightarrow> le r x)"
  using found
proof (induction xs arbitrary: r)
  case Nil
  then show ?case by simp
next
  case (Cons x xs)
  have srt: "sorted_wrt le (sort_by le xs)" by (rule sorted_sort_by [OF total trans])
  have step: "Some r = (if P x then (case List.find P (sort_by le xs) of None \<Rightarrow> Some x
      | Some y \<Rightarrow> if le x y then Some x else Some y) else List.find P (sort_by le xs))"
    using Cons.prems find_insert_by [OF trans srt, where P = P and x = x] by simp
  show ?case
  proof (cases "P x \<and> r = x")
    case True
    have "\<forall>y \<in> set xs. P y \<longrightarrow> le x y"
    proof (cases "List.find P (sort_by le xs)")
      case None
      then show ?thesis by (auto simp: find_None_iff)
    next
      case (Some y)
      then obtain pre post where y: "xs = pre @ y # post"
          "\<forall>z \<in> set pre. P z \<longrightarrow> \<not> le z y" "\<forall>z \<in> set post. P z \<longrightarrow> le y z"
        using Cons.IH by blast
      have "le x y" using step True Some total by (auto split: if_splits)
      then show ?thesis using y total trans by (metis Un_iff list.set_intros(1) set_ConsD set_append)
    qed
    with True show ?thesis by (intro exI [of _ "[]"] exI [of _ xs]) simp
  next
    case False
    then have "List.find P (sort_by le xs) = Some r \<and> (P x \<longrightarrow> \<not> le x r)"
      using step by (auto split: option.splits if_splits)
    with Cons.IH obtain pre post where "xs = pre @ r # post"
        "\<forall>x \<in> set pre. P x \<longrightarrow> \<not> le x r" "\<forall>x \<in> set post. P x \<longrightarrow> le r x" "P x \<longrightarrow> \<not> le x r"
      by blast
    then show ?thesis by (intro exI [of _ "x # pre"] exI [of _ post]) simp
  qed
qed

text \<open>Both maps of the guard are stores whose entries expire.\<close>

interpretation approvals: ttl_store map_of AList.update AList.delete "\<lambda>m. distinct (map fst m)"
    sweep_approvals "\<lambda>now c. now < ca_expiresAtMs c"
  by unfold_locales (auto simp: sweep_approvals_def mget_filter map_ok_filter not_le split: option.splits)

interpretation blocks: ttl_store map_of AList.update AList.delete "\<lambda>m. distinct (map fst m)"
    sweep_blocked "\<lambda>t b. 0 < snd t \<and> fst t - bl_blockedAtMs b < snd t"
  by unfold_locales
    (auto simp: sweep_blocked_def mget_filter map_ok_filter not_le split: option.splits prod.splits)

lemma outcome_simps [simp]:
  "gd_block (outcome d r a s m) = gd_block d" "gd_blockReason (outcome d r a s m) = gd_blockReason d"
  "gd_params (outcome d r a s m) = gd_params d" "oc_matchedRuleId (outcome d r a s m) = r"
  "oc_matchedActionId (outcome d r a s m) = a" "oc_decisionSource (outcome d r a s m) = s"
  "oc_matched (outcome d r a s m) = m"
  by (simp_all add: outcome_def HookBridgeGuardDecision.defs)

lemma decision_simps [simp]:
  "gd_block (block_decision r) = Some True" "gd_blockReason (block_decision r) = Some r"
  "gd_block no_decision = None"
  by (simp_all add: block_decision_def no_decision_def)

lemma resolve_block [simp]: "gd_block (resolveDecisionTemplates h d ev) = gd_block d"
  "gd_params (resolveDecisionTemplates h d ev) = gd_params d"
  by (simp_all add: resolveDecisionTemplates_def Let_def split: option.splits)

subsection \<open>What the rule loop may touch\<close>

text \<open>A rule loop for scope \<open>k\<close> leaves the entries of every other scope alone.\<close>

definition other_scopes_kept :: "string \<Rightarrow> guard_state \<Rightarrow> guard_state \<Rightarrow> bool" where
  "other_scopes_kept k g g1 \<longleftrightarrow>
     gs_acceptingEvents g1 = gs_acceptingEvents g \<and>
     (\<forall>j. j \<noteq> k \<longrightarrow>
       mget (gs_blockedRetryStateByScope g1) j = mget (gs_blockedRetryStateByScope g) j \<and>
       mget (gs_approvalCacheByScope g1) j = mget (gs_approvalCacheByScope g) j) \<and>
     (map_ok (gs_blockedRetryStateByScope g) \<longrightarrow> map_ok (gs_blockedRetryStateByScope g1)) \<and>
     (map_ok (gs_approvalCacheByScope g) \<longrightarrow> map_ok (gs_approvalCacheByScope g1))"

lemma kept_record: "other_scopes_kept k g (recordToolGuardDecision tg k oc now g)"
  by (simp add: other_scopes_kept_def recordToolGuardDecision_def distinct_update)

lemma kept_refl: "other_scopes_kept k g g"
  by (simp add: other_scopes_kept_def)

lemma kept_trigger:
  "other_scopes_kept k (g\<lparr>gs_lastTriggerByRule := l\<rparr>) g1 \<longleftrightarrow> other_scopes_kept k g g1"
  by (simp add: other_scopes_kept_def)

lemma kept_trigger_right:
  "other_scopes_kept k g (g1\<lparr>gs_lastTriggerByRule := l\<rparr>) \<longleftrightarrow> other_scopes_kept k g g1"
  by (simp add: other_scopes_kept_def)

text \<open>The rule loop either skips the rule, goes on after it, or ends with it.\<close>

definition triggered :: "int \<Rightarrow> HookBridgeToolGuardRule \<Rightarrow> guard_state \<Rightarrow> guard_state" where
  "triggered now rule g = g\<lparr>gs_lastTriggerByRule := mput (gr_id rule) now (gs_lastTriggerByRule g)\<rparr>"

lemma triggered_kept [simp]:
  "other_scopes_kept k (triggered now rule g) g1 = other_scopes_kept k g g1"
  "other_scopes_kept k g1 (triggered now rule g) = other_scopes_kept k g1 g"
  by (simp_all add: triggered_def kept_trigger kept_trigger_right)

lemma guard_rules_cases:
  assumes "guard_rules h b now call (rule # rules) g = (r, g1)"
  obtains (skip) "guard_rules h b now call rules g = (r, g1)"
  | (continue) "guard_rules h b now call rules (triggered now rule g) = (r, g1)"
  | (decided) oc where "r = Returned (Some oc)" "g1 = recordToolGuardDecision (hb_toolGuard b) (gc_scopeKey call) oc (gc_nowMs call) (triggered now rule g)"
      "\<not> tg_dryRun (hb_toolGuard b)"
  | (stopped) oc where "r = Returned (Some oc)" "g1 = triggered now rule g" "gd_block oc = Some True \<longrightarrow> tg_onError (hb_toolGuard b) = ''block''"
  | (awaits) actionId where "r = AwaitsAction \<lparr> pa_call = call, pa_rule = rule, pa_actionId = actionId, pa_rest = rules \<rparr>" "g1 = triggered now rule g"
proof (cases "rule_applies h now (gc_event call) rule g")
  case False
  with assms(1) show ?thesis by (intro skip) simp
next
  case applies: True
  show ?thesis
  proof (cases "gr_decision rule")
    case (Some d)
    show ?thesis
    proof (cases "tg_dryRun (hb_toolGuard b)")
      case True
      with Some applies assms show ?thesis
        by (cases "stopOnMatch (hb_toolGuard b) rule") (auto simp: Let_def triggered_def intro: stopped continue)
    next
      case False
      with Some applies assms show ?thesis by (auto simp: Let_def triggered_def intro: decided)
    qed
  next
    case None
    show ?thesis
    proof (cases "tg_onError (hb_toolGuard b) = ''block''")
      case True
      with None applies assms show ?thesis
        by (auto simp: Let_def triggered_def intro: stopped awaits split: if_splits)
    next
      case False
      with None applies assms show ?thesis
        by (auto simp: Let_def triggered_def intro: continue awaits split: if_splits)
    qed
  qed
qed

lemma kept_rules:
  "guard_rules h b now call rules g = (r, g1) \<Longrightarrow>
   other_scopes_kept (gc_scopeKey call) g g1 \<and> (\<forall>p. r = AwaitsAction p \<longrightarrow> pa_call p = call)"
proof (induction rules arbitrary: g)
  case Nil
  then show ?case by (auto simp: kept_refl)
next
  case (Cons rule rules)
  from Cons.prems show ?case
  proof (cases rule: guard_rules_cases)
    case skip
    with Cons.IH show ?thesis by blast
  next
    case continue
    from Cons.IH [OF this] show ?thesis by simp
  next
    case (decided oc)
    with kept_record [of "gc_scopeKey call" "triggered now rule g"] show ?thesis by simp
  qed (simp_all add: kept_refl)
qed

text \<open>After the await: the loop goes on, stops without a decision, or ends with one.\<close>

lemma guard_resume_cases:
  assumes "guard_resume h b now p result g = (r, g1)"
  obtains (continue) "guard_rules h b now (pa_call p) (pa_rest p) g = (r, g1)"
  | (stopped) oc where "r = Returned (Some oc)" "g1 = g" "gd_block oc = None"
  | (decided) oc where "r = Returned (Some oc)"
      "g1 = recordToolGuardDecision (hb_toolGuard b) (gc_scopeKey (pa_call p)) oc (gc_nowMs (pa_call p)) g"
      "tg_dryRun (hb_toolGuard b) \<longrightarrow> tg_onError (hb_toolGuard b) = ''block''"
proof (cases result)
  case (Inl message)
  show ?thesis
  proof (cases "tg_onError (hb_toolGuard b) = ''block''")
    case True
    with Inl assms show ?thesis by (auto simp: guard_resume_def Let_def intro: decided)
  next
    case False
    with Inl assms show ?thesis
      by (cases "stopOnMatch (hb_toolGuard b) (pa_rule p)")
        (auto simp: guard_resume_def Let_def intro: continue stopped)
  qed
next
  case (Inr d)
  show ?thesis
  proof (cases d)
    case None
    with Inr assms show ?thesis
      by (cases "stopOnMatch (hb_toolGuard b) (pa_rule p)")
        (auto simp: guard_resume_def Let_def intro: continue stopped)
  next
    case (Some dec)
    show ?thesis
    proof (cases "tg_dryRun (hb_toolGuard b)")
      case True
      with Some Inr assms show ?thesis
        by (cases "stopOnMatch (hb_toolGuard b) (pa_rule p)")
          (auto simp: guard_resume_def Let_def intro: continue stopped)
    next
      case False
      with Some Inr assms show ?thesis by (auto simp: guard_resume_def Let_def intro: decided)
    qed
  qed
qed

lemma kept_resume:
  assumes "guard_resume h b now p result g = (r, g1)"
  shows "other_scopes_kept (gc_scopeKey (pa_call p)) g g1 \<and> (\<forall>q. r = AwaitsAction q \<longrightarrow> pa_call q = pa_call p)"
  using assms
proof (cases rule: guard_resume_cases)
  case continue
  then show ?thesis by (rule kept_rules)
next
  case (stopped oc)
  then show ?thesis by (simp add: kept_refl)
next
  case (decided oc)
  then show ?thesis using kept_record by simp
qed

lemma kept_event_rules:
  "gs_blockedRetryStateByScope (snd (event_rules h b now ev rules g)) = gs_blockedRetryStateByScope g \<and>
   gs_approvalCacheByScope (snd (event_rules h b now ev rules g)) = gs_approvalCacheByScope g \<and>
   gs_acceptingEvents (snd (event_rules h b now ev rules g)) = gs_acceptingEvents g"
  by (induction h b now ev rules g rule: event_rules.induct)
     (auto simp: Let_def split: prod.splits option.splits)

lemma kept_observe:
  "gs_blockedRetryStateByScope (observeAgentStatus ev g) = gs_blockedRetryStateByScope g"
  "gs_approvalCacheByScope (observeAgentStatus ev g) = gs_approvalCacheByScope g"
  "gs_acceptingEvents (observeAgentStatus ev g) = gs_acceptingEvents g"
  by (auto simp: observeAgentStatus_def split: jsval.splits)

lemma kept_onEvent:
  "gs_blockedRetryStateByScope (snd (onEvent h b now ev g)) = gs_blockedRetryStateByScope g"
  "gs_approvalCacheByScope (snd (onEvent h b now ev g)) = gs_approvalCacheByScope g"
  "gs_acceptingEvents (snd (onEvent h b now ev g)) = gs_acceptingEvents g"
  by (simp_all add: onEvent_def kept_event_rules kept_observe)

subsection \<open>Evaluations\<close>

lemma cleanup_simps [simp]:
  "gs_acceptingEvents (cleanupToolGuardState now B g) = gs_acceptingEvents g"
  "gs_blockedRetryStateByScope (cleanupToolGuardState now B g) = sweep_blocked (now, B) (gs_blockedRetryStateByScope g)"
  "gs_approvalCacheByScope (cleanupToolGuardState now B g) = sweep_approvals now (gs_approvalCacheByScope g)"
  by (simp_all add: cleanupToolGuardState_def)

lemma evaluate_kept:
  assumes "evaluateBeforeToolCall h b now i ts p g = (r, g1)"
  shows "(g1 = g \<and> r = Returned None) \<or>
     (other_scopes_kept (scope_of h (hb_toolGuard b) p) (cleanupToolGuardState now (tg_retryBackoffMs (hb_toolGuard b)) g) g1 \<and>
      (\<forall>q. r = AwaitsAction q \<longrightarrow> gc_scopeKey (pa_call q) = scope_of h (hb_toolGuard b) p))"
proof (cases "\<not> tg_enabled (hb_toolGuard b) \<or> \<not> gs_acceptingEvents g")
  case True
  with assms show ?thesis by (auto simp: evaluateBeforeToolCall_def)
next
  case False
  let ?g = "cleanupToolGuardState now (tg_retryBackoffMs (hb_toolGuard b)) g"
  let ?call = "\<lparr> gc_event = buildToolGuardEvent i ''1.3.0'' ts p, gc_scopeKey = scope_of h (hb_toolGuard b) p, gc_nowMs = now \<rparr>"
  from assms False consider oc where "r = Returned oc" "g1 = ?g"
    | "guard_rules h b now ?call (sortedRules (hb_toolGuard b)) ?g = (r, g1)"
    by (auto simp: evaluateBeforeToolCall_def Let_def split: option.splits if_splits)
  then show ?thesis
  proof cases
    case 1
    then show ?thesis by (simp add: kept_refl)
  next
    case 2
    from kept_rules [OF this] show ?thesis by simp
  qed
qed

lemma evaluate_blocked:
  assumes "map_ok (gs_blockedRetryStateByScope g)" and "tg_enabled (hb_toolGuard b)" and "gs_acceptingEvents g"
    and "mget (gs_blockedRetryStateByScope g) (scope_of h (hb_toolGuard b) p) = Some bl"
    and "0 < tg_retryBackoffMs (hb_toolGuard b)" and "now - bl_blockedAtMs bl < tg_retryBackoffMs (hb_toolGuard b)"
  shows "evaluateBeforeToolCall h b now i ts p g =
     (Returned (Some (outcome (block_decision (backoff_reason h (hb_toolGuard b)
          (tg_retryBackoffMs (hb_toolGuard b) - (now - bl_blockedAtMs bl)) (buildToolGuardEvent i ''1.3.0'' ts p)))
        None None (Some ''backoff'') (Some True))),
      cleanupToolGuardState now (tg_retryBackoffMs (hb_toolGuard b)) g)"
  using assms by (simp add: evaluateBeforeToolCall_def Let_def blocks.get_sweep)

text \<open>What holds of every reachable machine: its maps have distinct keys, and only started evaluations are suspended.\<close>

definition new_machine :: guard_machine where
  "new_machine = \<lparr> gm_state = new_guard, gm_next = 0, gm_inflight = [], gm_returned = [] \<rparr>"

definition machine_ok :: "guard_machine \<Rightarrow> bool" where
  "machine_ok m \<longleftrightarrow> map_ok (gs_blockedRetryStateByScope (gm_state m)) \<and> map_ok (gs_approvalCacheByScope (gm_state m)) \<and>
     map_ok (gm_inflight m) \<and> (\<forall>i p. mget (gm_inflight m) i = Some p \<longrightarrow> i < gm_next m)"

lemma finish_ok:
  assumes "machine_ok m" and "i < gm_next m"
    and "map_ok (gs_blockedRetryStateByScope g1)" and "map_ok (gs_approvalCacheByScope g1)"
  shows "machine_ok (finish_evaluation i scope now (r, g1) m)"
  using assms by (cases r) (auto simp: finish_evaluation_def machine_ok_def distinct_delete distinct_update split: if_splits)

lemma kept_maps:
  "other_scopes_kept k g g1 \<Longrightarrow> map_ok (gs_blockedRetryStateByScope g) \<Longrightarrow> map_ok (gs_blockedRetryStateByScope g1)"
  "other_scopes_kept k g g1 \<Longrightarrow> map_ok (gs_approvalCacheByScope g) \<Longrightarrow> map_ok (gs_approvalCacheByScope g1)"
  by (simp_all add: other_scopes_kept_def)

lemma machine_ok_step: "machine_ok m \<Longrightarrow> machine_ok (guard_step h b a m)"
proof (cases a)
  case (Evaluate now i ts p)
  assume m: "machine_ok m"
  let ?m = "m\<lparr>gm_next := Suc (gm_next m)\<rparr>"
  let ?c = "cleanupToolGuardState now (tg_retryBackoffMs (hb_toolGuard b)) (gm_state m)"
  obtain r g1 where ev: "evaluateBeforeToolCall h b now i ts p (gm_state m) = (r, g1)" by fastforce
  have maps: "map_ok (gs_blockedRetryStateByScope (gm_state m))" "map_ok (gs_approvalCacheByScope (gm_state m))"
    using m by (simp_all add: machine_ok_def)
  then have clean: "map_ok (gs_blockedRetryStateByScope ?c)" "map_ok (gs_approvalCacheByScope ?c)"
    by (simp_all add: blocks.ok_sweep approvals.ok_sweep)
  have "map_ok (gs_blockedRetryStateByScope g1)" "map_ok (gs_approvalCacheByScope g1)"
    using evaluate_kept [OF ev] maps kept_maps(1) [OF _ clean(1)] kept_maps(2) [OF _ clean(2)] by blast+
  moreover have "machine_ok ?m" using m by (auto simp: machine_ok_def less_SucI)
  ultimately show ?thesis using Evaluate ev finish_ok [of ?m "gm_next m" g1] by simp
next
  case (ActionSettles i now result)
  assume m: "machine_ok m"
  show ?thesis
  proof (cases "mget (gm_inflight m) i")
    case None
    with ActionSettles m show ?thesis by simp
  next
    case (Some p)
    obtain r g1 where ev: "guard_resume h b now p result (gm_state m) = (r, g1)" by fastforce
    have "map_ok (gs_blockedRetryStateByScope g1)" "map_ok (gs_approvalCacheByScope g1)"
      using kept_maps(1,2) [OF conjunct1 [OF kept_resume [OF ev]]] m by (simp_all add: machine_ok_def)
    moreover have "i < gm_next m" using Some m by (simp add: machine_ok_def)
    ultimately show ?thesis using ActionSettles Some ev finish_ok [OF m] by simp
  qed
next
  case (BridgeEvent now ev)
  then show "machine_ok m \<Longrightarrow> ?thesis" by (simp add: machine_ok_def kept_onEvent)
next
  case StopAccepting
  then show "machine_ok m \<Longrightarrow> ?thesis" by (simp add: machine_ok_def)
qed

interpretation guard: machine "guard_step h b" machine_ok for h b
  by unfold_locales (rule machine_ok_step)

lemma reachable_ok: "machine_ok (fold (guard_step h b) ops new_machine)"
  by (rule guard.inv_run) (simp add: machine_ok_def new_machine_def new_guard_def)

subsection \<open>A blocked scope\<close>

text \<open>
  The scope \<open>k\<close> was blocked at \<open>t\<close> or later, and the evaluations of \<open>k\<close> that are suspended started at
  \<open>t\<close> or later; they have numbers below \<open>n0\<close>.
\<close>

definition scope_entry :: "string \<Rightarrow> int \<Rightarrow> guard_state \<Rightarrow> bool" where
  "scope_entry k t g \<longleftrightarrow> map_ok (gs_blockedRetryStateByScope g) \<and> gs_acceptingEvents g \<and>
     (\<exists>bl. mget (gs_blockedRetryStateByScope g) k = Some bl \<and> t \<le> bl_blockedAtMs bl)"

definition suspended_since :: "string \<Rightarrow> int \<Rightarrow> nat \<Rightarrow> pending_action \<Rightarrow> nat \<Rightarrow> bool" where
  "suspended_since k t n0 p i \<longleftrightarrow> (gc_scopeKey (pa_call p) = k \<longrightarrow> i < n0 \<and> t \<le> gc_nowMs (pa_call p))"

definition backing_off :: "string \<Rightarrow> int \<Rightarrow> nat \<Rightarrow> guard_machine \<Rightarrow> bool" where
  "backing_off k t n0 m \<longleftrightarrow> machine_ok m \<and> scope_entry k t (gm_state m) \<and> n0 \<le> gm_next m \<and>
     (\<forall>i p. mget (gm_inflight m) i = Some p \<longrightarrow> suspended_since k t n0 p i)"

definition backoff_outcome :: "HookBridgeGuardDecisionOutcome option \<Rightarrow> bool" where
  "backoff_outcome oc \<longleftrightarrow> (case oc of None \<Rightarrow> False
     | Some x \<Rightarrow> gd_block x = Some True \<and> oc_decisionSource x = Some ''backoff'')"

fun op_before :: "int \<Rightarrow> guard_op \<Rightarrow> bool" where
  "op_before t (Evaluate now i ts p) \<longleftrightarrow> now < t"
| "op_before t (ActionSettles i now r) \<longleftrightarrow> True"
| "op_before t (BridgeEvent now ev) \<longleftrightarrow> True"
| "op_before t StopAccepting \<longleftrightarrow> False"

lemma scope_entry_kept:
  "scope_entry k t g \<Longrightarrow> other_scopes_kept j g g1 \<Longrightarrow> j \<noteq> k \<Longrightarrow> scope_entry k t g1"
  by (auto simp: scope_entry_def other_scopes_kept_def)

lemma scope_entry_cleanup:
  "scope_entry k t g \<Longrightarrow> 0 < B \<Longrightarrow> now - t < B \<Longrightarrow> scope_entry k t (cleanupToolGuardState now B g)"
  by (fastforce simp: scope_entry_def blocks.get_sweep blocks.ok_sweep)

lemma scope_entry_triggered [simp]: "scope_entry k t (triggered now rule g) = scope_entry k t g"
  by (simp add: scope_entry_def triggered_def)

lemma scope_entry_record:
  "scope_entry k t g \<Longrightarrow> t \<le> now \<Longrightarrow> scope_entry k t (recordToolGuardDecision tg j oc now g)"
  by (auto simp: scope_entry_def recordToolGuardDecision_def distinct_update)

text \<open>An evaluation of the scope itself that started at \<open>t\<close> or later keeps the scope blocked since \<open>t\<close> or later.\<close>

lemma scope_entry_rules:
  assumes "t \<le> gc_nowMs call"
  shows "scope_entry k t g \<Longrightarrow> guard_rules h b now call rules g = (r, g1) \<Longrightarrow> scope_entry k t g1"
proof (induction rules arbitrary: g)
  case Nil
  then show ?case by simp
next
  case (Cons rule rules)
  from Cons.prems(2) show ?case
  proof (cases rule: guard_rules_cases)
    case skip
    with Cons show ?thesis by blast
  next
    case continue
    from Cons.IH [OF _ this] Cons.prems(1) show ?thesis by simp
  next
    case (decided oc)
    with Cons.prems(1) assms show ?thesis by (simp add: scope_entry_record)
  qed (use Cons.prems(1) in simp_all)
qed

lemma scope_entry_resume:
  assumes "t \<le> gc_nowMs (pa_call p)" and "scope_entry k t g" and "guard_resume h b now p result g = (r, g1)"
  shows "scope_entry k t g1"
  using assms(3)
proof (cases rule: guard_resume_cases)
  case continue
  then show ?thesis by (rule scope_entry_rules [OF assms(1,2)])
qed (use assms in \<open>simp_all add: scope_entry_record\<close>)

lemma finish_backing_off:
  assumes "scope_entry k t g1" and "n0 \<le> gm_next m" and "map_ok (gm_inflight m)"
    and "\<forall>i p. mget (gm_inflight m) i = Some p \<longrightarrow> suspended_since k t n0 p i"
    and "\<forall>q. r = AwaitsAction q \<longrightarrow> suspended_since k t n0 q i"
    and "machine_ok (finish_evaluation i scope now (r, g1) m)"
    and "scope = k \<Longrightarrow> n0 \<le> i \<Longrightarrow> \<exists>oc. r = Returned oc \<and> backoff_outcome oc"
  shows "backing_off k t n0 (finish_evaluation i scope now (r, g1) m) \<and>
     (\<exists>new. gm_returned (finish_evaluation i scope now (r, g1) m) = gm_returned m @ new \<and>
       (\<forall>(i, scope, now, oc) \<in> set new. scope = k \<longrightarrow> n0 \<le> i \<longrightarrow> backoff_outcome oc))"
proof (cases r)
  case (Returned oc)
  with assms show ?thesis by (simp add: finish_evaluation_def backing_off_def)
next
  case (AwaitsAction q)
  with assms show ?thesis by (simp add: finish_evaluation_def backing_off_def)
qed

lemma backing_off_step:
  assumes inv: "backing_off k t n0 m" and en: "tg_enabled (hb_toolGuard b)" and B: "0 < tg_retryBackoffMs (hb_toolGuard b)"
    and before: "op_before (t + tg_retryBackoffMs (hb_toolGuard b)) a"
  shows "backing_off k t n0 (guard_step h b a m) \<and>
     (\<exists>new. gm_returned (guard_step h b a m) = gm_returned m @ new \<and>
       (\<forall>(i, scope, now, oc) \<in> set new. scope = k \<longrightarrow> n0 \<le> i \<longrightarrow> backoff_outcome oc))"
proof -
  have m: "machine_ok m" "scope_entry k t (gm_state m)" "n0 \<le> gm_next m" "map_ok (gm_inflight m)"
      "\<forall>i p. mget (gm_inflight m) i = Some p \<longrightarrow> suspended_since k t n0 p i"
    using inv by (simp_all add: backing_off_def machine_ok_def)
  note ok = machine_ok_step [OF m(1), of h b a]
  show ?thesis
  proof (cases a)
    case (Evaluate now i ts p)
    let ?tg = "hb_toolGuard b" and ?g = "gm_state m" and ?m = "m\<lparr>gm_next := Suc (gm_next m)\<rparr>"
    have now: "now - t < tg_retryBackoffMs ?tg" using before Evaluate by simp
    note clean = scope_entry_cleanup [OF m(2) B now]
    obtain r g1 where ev: "evaluateBeforeToolCall h b now i ts p ?g = (r, g1)" by fastforce
    obtain bl where bl: "mget (gs_blockedRetryStateByScope ?g) k = Some bl" "t \<le> bl_blockedAtMs bl"
        "map_ok (gs_blockedRetryStateByScope ?g)" "gs_acceptingEvents ?g"
      using m(2) by (auto simp: scope_entry_def)
    have k: "(\<exists>oc. r = Returned oc \<and> backoff_outcome oc) \<and> g1 = cleanupToolGuardState now (tg_retryBackoffMs ?tg) ?g"
      if "scope_of h ?tg p = k"
      using evaluate_blocked [of ?g b h p bl now i ts] that bl en B now ev by (auto simp: backoff_outcome_def)
    have "scope_entry k t g1"
      using evaluate_kept [OF ev] scope_entry_kept [OF clean] m(2) k clean by blast
    moreover have "\<forall>q. r = AwaitsAction q \<longrightarrow> suspended_since k t n0 q (gm_next m)"
      using evaluate_kept [OF ev] k by (auto simp: suspended_since_def)
    ultimately show ?thesis
      using finish_backing_off [of k t g1 n0 ?m r "gm_next m" "scope_of h ?tg p" now] k m ok Evaluate ev by simp
  next
    case (ActionSettles i now result)
    show ?thesis
    proof (cases "mget (gm_inflight m) i")
      case None
      with ActionSettles inv show ?thesis by simp
    next
      case (Some p)
      then have p: "suspended_since k t n0 p i" using m(5) by blast
      obtain r g1 where ev: "guard_resume h b now p result (gm_state m) = (r, g1)" by fastforce
      have entry: "scope_entry k t g1"
      proof (cases "gc_scopeKey (pa_call p) = k")
        case True
        with scope_entry_resume [OF _ m(2) ev] p show ?thesis by (simp add: suspended_since_def)
      next
        case False
        with kept_resume [OF ev] scope_entry_kept [OF m(2)] show ?thesis by blast
      qed
      have aw: "\<forall>q. r = AwaitsAction q \<longrightarrow> suspended_since k t n0 q i"
      proof (intro allI impI)
        fix q assume "r = AwaitsAction q"
        then have "pa_call q = pa_call p" using kept_resume [OF ev] by blast
        with p show "suspended_since k t n0 q i" by (simp add: suspended_since_def)
      qed
      have old: "gc_scopeKey (pa_call p) = k \<Longrightarrow> n0 \<le> i \<Longrightarrow> \<exists>oc. r = Returned oc \<and> backoff_outcome oc"
        using p by (simp add: suspended_since_def)
      have "machine_ok (finish_evaluation i (gc_scopeKey (pa_call p)) now (r, g1) m)"
        using ok ActionSettles Some ev by simp
      from finish_backing_off [OF entry m(3,4,5) aw this old] show ?thesis
        using ActionSettles Some ev by simp
    qed
  next
    case (BridgeEvent now ev)
    with m ok show ?thesis by (simp add: backing_off_def scope_entry_def kept_onEvent)
  next
    case StopAccepting
    with before show ?thesis by simp
  qed
qed

lemma backing_off_run:
  assumes "backing_off k t n0 m" and "tg_enabled (hb_toolGuard b)" and "0 < tg_retryBackoffMs (hb_toolGuard b)"
    and "list_all (op_before (t + tg_retryBackoffMs (hb_toolGuard b))) ops"
  shows "\<exists>new. gm_returned (fold (guard_step h b) ops m) = gm_returned m @ new \<and>
       (\<forall>(i, scope, now, oc) \<in> set new. scope = k \<longrightarrow> n0 \<le> i \<longrightarrow> backoff_outcome oc)"
  using assms(1,4)
proof (induction ops arbitrary: m)
  case Nil
  then show ?case by simp
next
  case (Cons a ops)
  have a: "op_before (t + tg_retryBackoffMs (hb_toolGuard b)) a" using Cons.prems by simp
  note step = backing_off_step [OF Cons.prems(1) assms(2,3) a]
  then obtain new where new: "gm_returned (guard_step h b a m) = gm_returned m @ new"
      "\<forall>(i, scope, now, oc) \<in> set new. scope = k \<longrightarrow> n0 \<le> i \<longrightarrow> backoff_outcome oc"
    by blast
  have "list_all (op_before (t + tg_retryBackoffMs (hb_toolGuard b))) ops" using Cons.prems by simp
  from Cons.IH [OF conjunct1 [OF step] this] obtain new2 where
      "gm_returned (fold (guard_step h b) ops (guard_step h b a m)) = gm_returned (guard_step h b a m) @ new2"
      "\<forall>(i, scope, now, oc) \<in> set new2. scope = k \<longrightarrow> n0 \<le> i \<longrightarrow> backoff_outcome oc"
    by blast
  with new show ?case by (intro exI [of _ "new @ new2"]) auto
qed

subsection \<open>The rule that is asked first\<close>

text \<open>
  The guard puts the call to \<open>rule\<close> first: it is enabled and not stopped, the scope of the call neither backs off
  nor has a valid approval, and \<open>rule\<close> applies and has the highest priority of the rules that do, the first
  in configuration order among equals.
\<close>

definition consults ::
  "host \<Rightarrow> HookBridgeConfig \<Rightarrow> int \<Rightarrow> string \<Rightarrow> string \<Rightarrow> tool_call \<Rightarrow> guard_state \<Rightarrow> HookBridgeToolGuardRule \<Rightarrow> bool" where
  "consults h b now i ts p g rule \<longleftrightarrow>
     (let tg = hb_toolGuard b; k = scope_of h tg p; ev = buildToolGuardEvent i ''1.3.0'' ts p in
      tg_enabled tg \<and> gs_acceptingEvents g \<and>
      (case mget (gs_blockedRetryStateByScope g) k of None \<Rightarrow> True
       | Some bl \<Rightarrow> now - bl_blockedAtMs bl \<ge> tg_retryBackoffMs tg \<or> tg_retryBackoffMs tg \<le> 0) \<and>
      (case mget (gs_approvalCacheByScope g) k of None \<Rightarrow> True | Some c \<Rightarrow> ca_expiresAtMs c \<le> now) \<and>
      (\<exists>pre post. tg_rules tg = pre @ rule # post \<and> rule_applies h now ev rule g \<and>
        (\<forall>r \<in> set pre. rule_applies h now ev r g \<longrightarrow> default_to 0 (gr_priority r) < default_to 0 (gr_priority rule)) \<and>
        (\<forall>r \<in> set post. rule_applies h now ev r g \<longrightarrow> default_to 0 (gr_priority r) \<le> default_to 0 (gr_priority rule))))"

lemma applies_cleanup [simp]: "rule_applies h now ev r (cleanupToolGuardState t B g) = rule_applies h now ev r g"
  by (simp add: rule_applies_def cleanupToolGuardState_def)

text \<open>Among equals the first one is found: the split of the configured rules is unique.\<close>

lemma best_unique:
  assumes "xs = pre @ r # post" and "\<forall>x \<in> set pre. P x \<longrightarrow> \<not> le x r" and "\<forall>x \<in> set post. P x \<longrightarrow> le r x" and "P r"
    and "xs = pre2 @ r2 # post2" and "\<forall>x \<in> set pre2. P x \<longrightarrow> \<not> le x r2" and "\<forall>x \<in> set post2. P x \<longrightarrow> le r2 x" and "P r2"
  shows "r = r2"
proof -
  have "pre @ r # post = pre2 @ r2 # post2" using assms(1,5) by simp
  then obtain us where "pre = pre2 @ us \<and> us @ r # post = r2 # post2 \<or> pre @ us = pre2 \<and> r # post = us @ r2 # post2"
    by (auto simp: append_eq_append_conv2)
  then show ?thesis using assms by (cases us) auto
qed

lemma find_best:
  assumes total: "\<And>a b. le a b \<or> le b a" and trans: "\<And>a b c. le a b \<Longrightarrow> le b c \<Longrightarrow> le a c"
    and r: "xs = pre @ r # post" "\<forall>x \<in> set pre. P x \<longrightarrow> \<not> le x r" "\<forall>x \<in> set post. P x \<longrightarrow> le r x" "P r"
  shows "List.find P (sort_by le xs) = Some r"
proof (cases "List.find P (sort_by le xs)")
  case None
  with r show ?thesis by (auto simp: find_None_iff)
next
  case (Some r2)
  have "\<exists>pre post. xs = pre @ r2 # post \<and> (\<forall>x \<in> set pre. P x \<longrightarrow> \<not> le x r2) \<and> (\<forall>x \<in> set post. P x \<longrightarrow> le r2 x)"
    by (rule find_sort_by [OF _ _ Some]) (use total trans in blast)+
  then obtain pre2 post2 where
      "xs = pre2 @ r2 # post2" "\<forall>x \<in> set pre2. P x \<longrightarrow> \<not> le x r2" "\<forall>x \<in> set post2. P x \<longrightarrow> le r2 x"
    by blast
  moreover have "P r2" using Some by (auto simp: find_Some_iff)
  ultimately show ?thesis using Some best_unique [OF r] by blast
qed

lemma find_split: "List.find P xs = Some r \<Longrightarrow> \<exists>us vs. xs = us @ r # vs \<and> (\<forall>u \<in> set us. \<not> P u) \<and> P r"
proof (induction xs)
  case (Cons x xs)
  show ?case
  proof (cases "P x")
    case True
    with Cons.prems show ?thesis by (intro exI [of _ "[]"] exI [of _ xs]) simp
  next
    case False
    with Cons obtain us vs where "xs = us @ r # vs" "\<forall>u \<in> set us. \<not> P u" "P r" by auto
    with False show ?thesis by (intro exI [of _ "x # us"] exI [of _ vs]) simp
  qed
qed simp

lemma consults_split:
  assumes "consults h b now i ts p g rule"
  shows "\<exists>before rest. sortedRules (hb_toolGuard b) = before @ rule # rest \<and>
     (\<forall>r \<in> set before. \<not> rule_applies h now (buildToolGuardEvent i ''1.3.0'' ts p) r g) \<and>
     rule_applies h now (buildToolGuardEvent i ''1.3.0'' ts p) rule g"
proof -
  from assms obtain pre post where "tg_rules (hb_toolGuard b) = pre @ rule # post"
      "rule_applies h now (buildToolGuardEvent i ''1.3.0'' ts p) rule g"
      "\<forall>r \<in> set pre. rule_applies h now (buildToolGuardEvent i ''1.3.0'' ts p) r g \<longrightarrow> \<not> rule_before r rule"
      "\<forall>r \<in> set post. rule_applies h now (buildToolGuardEvent i ''1.3.0'' ts p) r g \<longrightarrow> rule_before rule r"
    unfolding consults_def Let_def rule_before_def not_le by blast
  then have "List.find (\<lambda>r. rule_applies h now (buildToolGuardEvent i ''1.3.0'' ts p) r g)
      (sort_by rule_before (tg_rules (hb_toolGuard b))) = Some rule"
    by (intro find_best) (auto simp: rule_before_def)
  then show ?thesis unfolding sortedRules_def by (rule find_split)
qed

lemma consults_free:
  assumes "machine_ok m" and "consults h b now i ts p (gm_state m) rule"
  shows "mget (sweep_blocked (now, tg_retryBackoffMs (hb_toolGuard b)) (gs_blockedRetryStateByScope (gm_state m)))
     (scope_of h (hb_toolGuard b) p) = None"
  using assms by (auto simp: machine_ok_def consults_def Let_def blocks.get_sweep split: option.splits)

lemma skip_rules:
  "\<forall>r \<in> set before. \<not> rule_applies h now (gc_event call) r g \<Longrightarrow>
   guard_rules h b now call (before @ rules) g = guard_rules h b now call rules g"
  by (induction before) auto

lemma consults_evaluates:
  assumes ok: "machine_ok m" and c: "consults h b now i ts p (gm_state m) rule"
    and split: "sortedRules (hb_toolGuard b) = before @ rule # rest"
      "\<forall>r \<in> set before. \<not> rule_applies h now (buildToolGuardEvent i ''1.3.0'' ts p) r (gm_state m)"
  shows "evaluateBeforeToolCall h b now i ts p (gm_state m) =
    guard_rules h b now \<lparr> gc_event = buildToolGuardEvent i ''1.3.0'' ts p, gc_scopeKey = scope_of h (hb_toolGuard b) p, gc_nowMs = now \<rparr>
      (rule # rest) (cleanupToolGuardState now (tg_retryBackoffMs (hb_toolGuard b)) (gm_state m))"
proof -
  let ?g = "cleanupToolGuardState now (tg_retryBackoffMs (hb_toolGuard b)) (gm_state m)"
  have "mget (gs_approvalCacheByScope ?g) (scope_of h (hb_toolGuard b) p) = None"
    using ok c by (auto simp: machine_ok_def consults_def Let_def approvals.get_sweep split: option.splits)
  moreover have "mget (gs_blockedRetryStateByScope ?g) (scope_of h (hb_toolGuard b) p) = None"
    using consults_free [OF ok c] by simp
  moreover have "tg_enabled (hb_toolGuard b)" "gs_acceptingEvents (gm_state m)"
    using c by (simp_all add: consults_def Let_def)
  ultimately show ?thesis
    using split skip_rules [of before h now _ ?g b "rule # rest"]
    by (simp add: evaluateBeforeToolCall_def Let_def del: guard_rules.simps)
qed

text \<open>What a rule that applies does with the call.\<close>

lemma guard_rule_first:
  "rule_applies h now (gc_event call) rule g \<Longrightarrow> \<not> tg_dryRun (hb_toolGuard b) \<Longrightarrow> gr_decision rule = Some d \<Longrightarrow>
   fst (guard_rules h b now call (rule # rest) g) = Returned (Some
     (outcome (resolveDecisionTemplates h d (gc_event call)) (Some (gr_id rule)) None (Some ''rule'') (Some True)))"
  "rule_applies h now (gc_event call) rule g \<Longrightarrow> gr_decision rule = None \<Longrightarrow> non_blank_opt (gr_action rule) \<Longrightarrow>
   mhas (hb_actions b) (default_to [] (gr_action rule)) \<Longrightarrow>
   guard_rules h b now call (rule # rest) g = (AwaitsAction
     \<lparr> pa_call = call, pa_rule = rule, pa_actionId = default_to [] (gr_action rule), pa_rest = rest \<rparr>, triggered now rule g)"
  "rule_applies h now (gc_event call) rule g \<Longrightarrow> gr_decision rule = None \<Longrightarrow> tg_onError (hb_toolGuard b) = ''block'' \<Longrightarrow>
   \<not> non_blank_opt (gr_action rule) \<or> \<not> mhas (hb_actions b) (default_to [] (gr_action rule)) \<Longrightarrow>
   guard_rules h b now call (rule # rest) g = (Returned (Some (outcome (block_decision
     (if non_blank_opt (gr_action rule) then ''Tool guard action not found: '' @ default_to [] (gr_action rule)
      else ''Tool guard action missing for rule '' @ [CHR 0x22] @ gr_id rule @ [CHR 0x22])) None None None None)),
     triggered now rule g)"
  by (auto simp: Let_def triggered_def)

subsection \<open>Dry run\<close>

definition dry_state :: "guard_state \<Rightarrow> bool" where
  "dry_state g \<longleftrightarrow> gs_blockedRetryStateByScope g = [] \<and> gs_approvalCacheByScope g = []"

definition no_block :: "HookBridgeGuardDecisionOutcome option \<Rightarrow> bool" where
  "no_block oc \<longleftrightarrow> (case oc of None \<Rightarrow> True | Some x \<Rightarrow> gd_block x \<noteq> Some True)"

definition dry_eval :: "evaluation \<times> guard_state \<Rightarrow> bool" where
  "dry_eval r \<longleftrightarrow> dry_state (snd r) \<and> (case fst r of Returned oc \<Rightarrow> no_block oc | AwaitsAction p \<Rightarrow> True)"

lemma dry_rules:
  assumes "tg_dryRun (hb_toolGuard b)" and "tg_onError (hb_toolGuard b) \<noteq> ''block''"
  shows "dry_state g \<Longrightarrow> guard_rules h b now call rules g = (r, g1) \<Longrightarrow> dry_eval (r, g1)"
proof (induction rules arbitrary: g)
  case Nil
  then show ?case by (auto simp: dry_eval_def no_block_def)
next
  case (Cons rule rules)
  have tr: "dry_state (triggered now rule g)" using Cons.prems(1) by (simp add: dry_state_def triggered_def)
  from Cons.prems(2) show ?case
  proof (cases rule: guard_rules_cases)
    case skip
    with Cons show ?thesis by blast
  next
    case continue
    with Cons.IH [OF tr] show ?thesis by blast
  qed (use assms tr in \<open>auto simp: dry_eval_def no_block_def\<close>)
qed

lemma dry_resume:
  assumes "tg_dryRun (hb_toolGuard b)" and "tg_onError (hb_toolGuard b) \<noteq> ''block''"
    and "dry_state g" and "guard_resume h b now p result g = (r, g1)"
  shows "dry_eval (r, g1)"
  using assms(4)
proof (cases rule: guard_resume_cases)
  case continue
  then show ?thesis by (rule dry_rules [OF assms(1-3)])
qed (use assms in \<open>auto simp: dry_eval_def no_block_def\<close>)

lemma dry_evaluate:
  assumes "tg_dryRun (hb_toolGuard b)" and "tg_onError (hb_toolGuard b) \<noteq> ''block''"
    and "dry_state g" and "evaluateBeforeToolCall h b now i ts p g = (r, g1)"
  shows "dry_eval (r, g1)"
proof (cases "\<not> tg_enabled (hb_toolGuard b) \<or> \<not> gs_acceptingEvents g")
  case True
  with assms(3,4) show ?thesis by (auto simp: evaluateBeforeToolCall_def dry_eval_def no_block_def)
next
  case False
  let ?g = "cleanupToolGuardState now (tg_retryBackoffMs (hb_toolGuard b)) g"
  have clean: "dry_state ?g" using assms(3) by (simp add: dry_state_def sweep_blocked_def sweep_approvals_def)
  then have "guard_rules h b now \<lparr> gc_event = buildToolGuardEvent i ''1.3.0'' ts p,
      gc_scopeKey = scope_of h (hb_toolGuard b) p, gc_nowMs = now \<rparr> (sortedRules (hb_toolGuard b)) ?g = (r, g1)"
    using assms(4) False by (simp add: evaluateBeforeToolCall_def Let_def dry_state_def)
  then show ?thesis by (rule dry_rules [OF assms(1,2) clean])
qed

definition dry_inv :: "HookBridgeConfig \<Rightarrow> guard_machine \<Rightarrow> bool" where
  "dry_inv b m \<longleftrightarrow>
     (if tg_dryRun (hb_toolGuard b) \<and> tg_onError (hb_toolGuard b) \<noteq> ''block''
      then dry_state (gm_state m) \<and> list_all (\<lambda>(i, scope, now, oc). no_block oc) (gm_returned m)
      else True)"

lemma dry_finish:
  assumes "dry_eval r" and "list_all (\<lambda>(i, scope, now, oc). no_block oc) (gm_returned m)"
  shows "dry_state (gm_state (finish_evaluation i scope now r m)) \<and>
    list_all (\<lambda>(i, scope, now, oc). no_block oc) (gm_returned (finish_evaluation i scope now r m))"
  using assms by (cases r; cases "fst r") (auto simp: finish_evaluation_def dry_eval_def)

lemma dry_inv_step: "dry_inv b m \<Longrightarrow> dry_inv b (guard_step h b a m)"
proof (cases "tg_dryRun (hb_toolGuard b) \<and> tg_onError (hb_toolGuard b) \<noteq> ''block''")
  case dry: True
  assume "dry_inv b m"
  then have s: "dry_state (gm_state m)" and l: "list_all (\<lambda>(i, scope, now, oc). no_block oc) (gm_returned m)"
    using dry by (simp_all add: dry_inv_def)
  have dr: "tg_dryRun (hb_toolGuard b)" "tg_onError (hb_toolGuard b) \<noteq> ''block''" using dry by simp_all
  show ?thesis
  proof (cases a)
    case (Evaluate now i ts p)
    have "dry_eval (evaluateBeforeToolCall h b now i ts p (gm_state m))"
      using dry_evaluate [OF dr s] by (metis surj_pair)
    from dry_finish [OF this, of "m\<lparr>gm_next := Suc (gm_next m)\<rparr>"] l Evaluate dry show ?thesis
      by (simp add: dry_inv_def)
  next
    case (ActionSettles i now result)
    have "dry_eval (guard_resume h b now p result (gm_state m))" for p
      using dry_resume [OF dr s] by (metis surj_pair)
    from dry_finish [OF this l] ActionSettles dry s l show ?thesis
      by (simp add: dry_inv_def split: option.splits)
  next
    case (BridgeEvent now ev)
    with s l dry show ?thesis by (simp add: dry_inv_def dry_state_def kept_onEvent)
  next
    case StopAccepting
    with s l dry show ?thesis by (simp add: dry_inv_def dry_state_def)
  qed
next
  case False
  then show ?thesis by (auto simp: dry_inv_def)
qed

interpretation dry_guard: machine "guard_step h b" "dry_inv b" for h b
  by unfold_locales (rule dry_inv_step)

subsection \<open>Templates\<close>

lemma match_token_plain: "c \<noteq> CHR ''{'' \<Longrightarrow> match_token (c # s) = None"
  by (simp add: match_token_def starts_with_def)

lemma replace_prefix:
  "CHR ''{'' \<notin> set pre \<Longrightarrow> replace_tokens sub (pre @ s) = pre @ replace_tokens sub s"
  by (induction pre) (auto simp: match_token_plain)

lemma replace_plain: "CHR ''{'' \<notin> set s \<Longrightarrow> replace_tokens sub s = s"
  using replace_prefix [of s sub "[]"] by simp

lemma match_token_word:
  assumes "w \<noteq> []" and "CHR ''}'' \<notin> set w"
  shows "match_token (''{{'' @ w @ ''}}'' @ s) = Some (js_trim w, s)"
proof -
  have "takeWhile (\<lambda>c. c \<noteq> CHR ''}'') (w @ ''}}'' @ s) = w" "dropWhile (\<lambda>c. c \<noteq> CHR ''}'') (w @ ''}}'' @ s) = ''}}'' @ s"
    using assms(2) by (induction w) auto
  then show ?thesis using assms(1) by (simp add: match_token_def starts_with_def Let_def)
qed

lemma render_unknown_token:
  assumes "CHR ''{'' \<notin> set pre" and "CHR ''{'' \<notin> set post" and "guard_token h ev (js_trim w) = []"
    and "w \<noteq> []" and "CHR ''}'' \<notin> set w"
  shows "renderGuardTemplate h (pre @ ''{{'' @ w @ ''}}'' @ post) ev = pre @ post"
proof -
  have "replace_tokens sub (''{{'' @ w @ ''}}'' @ post) =
     (case sub (js_trim w) of None \<Rightarrow> CHR ''{'' # replace_tokens sub (CHR ''{'' # w @ ''}}'' @ post)
      | Some t \<Rightarrow> t @ replace_tokens sub post)" for sub
    using match_token_word [OF assms(4,5), of post] by (simp split: option.splits)
  then show ?thesis
    using assms(3) by (simp only: renderGuardTemplate_def replace_prefix [OF assms(1)] replace_plain [OF assms(2)]) simp
qed

section \<open>Properties\<close>

text \<open>
  C8. Retry backoff under any interleaving: when the scope \<open>k\<close> is blocked since \<open>t\<close> or later and every
  suspended evaluation of \<open>k\<close> started at \<open>t\<close> or later, every evaluation of \<open>k\<close> that starts
  before \<open>t + retryBackoffMs\<close> returns a block with source \<open>backoff\<close>, whatever other evaluations, action
  results (of the suspended evaluations of \<open>k\<close>, too) and events happen in between, as long as the guard
  is not stopped.  A suspended evaluation records the time at which it started, so the backoff that can be relied on
  counts from the start of the oldest one.
\<close>

theorem retry_backoff_holds:
  assumes m: "m = fold (guard_step h b) ops0 new_machine" and accepting: "gs_acceptingEvents (gm_state m)"
    and blocked: "mget (gs_blockedRetryStateByScope (gm_state m)) k = Some bl" "t \<le> bl_blockedAtMs bl"
    and suspended: "\<forall>(i, p) \<in> set (gm_inflight m). gc_scopeKey (pa_call p) = k \<longrightarrow> t \<le> gc_nowMs (pa_call p)"
    and "tg_enabled (hb_toolGuard b)" and "0 < tg_retryBackoffMs (hb_toolGuard b)"
    and "list_all (op_before (t + tg_retryBackoffMs (hb_toolGuard b))) ops"
  shows "\<exists>new. gm_returned (fold (guard_step h b) ops m) = gm_returned m @ new \<and>
     (\<forall>(i, scope, now, oc) \<in> set new. scope = k \<longrightarrow> gm_next m \<le> i \<longrightarrow> backoff_outcome oc)"
proof -
  have ok: "machine_ok m" unfolding m by (rule reachable_ok)
  have "suspended_since k t (gm_next m) p i" if "mget (gm_inflight m) i = Some p" for i p
    using map_of_SomeD [OF that] that suspended ok by (auto simp: suspended_since_def machine_ok_def)
  then have "backing_off k t (gm_next m) m"
    using ok accepting blocked by (auto simp: backing_off_def scope_entry_def machine_ok_def)
  from backing_off_run [OF this assms(6-8)] show ?thesis .
qed


text \<open>
  A dry-run guard that allows on errors never blocks a tool call, over any sequence of
  evaluations, action results and events.
\<close>

theorem dry_run_never_blocks:
  assumes "tg_dryRun (hb_toolGuard b)" and "tg_onError (hb_toolGuard b) = ''allow''"
  shows "list_all (\<lambda>(i, scope, now, oc). no_block oc) (gm_returned (fold (guard_step h b) ops new_machine))"
proof -
  have "dry_inv b new_machine" by (simp add: dry_inv_def new_machine_def dry_state_def new_guard_def)
  from dry_guard.inv_run [OF this, of h ops] assms show ?thesis by (simp add: dry_inv_def)
qed

text \<open>
  C32. The rule of the highest priority decides. In every reachable state of a guard that is enabled, not stopped and not
  in dry run, a call whose scope neither backs off nor was approved is put to the applicable rule of the highest
  priority, the first in configuration order among equals: its inline decision, with the templates filled in, is
  the outcome; a rule with a known action makes the evaluation wait for that action, and only when the
  action gives no decision do the rules after it, in order of priority, get their turn.
\<close>

theorem highest_priority_rule_decides:
  assumes "m = fold (guard_step h b) ops new_machine" and "\<not> tg_dryRun (hb_toolGuard b)"
    and c: "consults h b now i ts p (gm_state m) rule"
    and e: "e = fst (evaluateBeforeToolCall h b now i ts p (gm_state m))" and ev: "ev = buildToolGuardEvent i ''1.3.0'' ts p"
  shows "(\<forall>d. gr_decision rule = Some d \<longrightarrow>
        e = Returned (Some (outcome (resolveDecisionTemplates h d ev) (Some (gr_id rule)) None (Some ''rule'') (Some True)))) \<and>
     (\<forall>a. gr_decision rule = None \<and> gr_action rule = Some a \<and> js_trim a \<noteq> [] \<and> mhas (hb_actions b) a \<longrightarrow>
        (\<exists>q before. e = AwaitsAction q \<and> pa_rule q = rule \<and> pa_actionId q = a \<and> gc_event (pa_call q) = ev \<and>
           sortedRules (hb_toolGuard b) = before @ rule # pa_rest q \<and>
           (\<forall>r \<in> set before. \<not> rule_applies h now ev r (gm_state m)) \<and>
           (\<forall>r \<in> set (pa_rest q). default_to 0 (gr_priority r) \<le> default_to 0 (gr_priority rule))))"
proof -
  have ok: "machine_ok m" unfolding assms(1) by (rule reachable_ok)
  obtain before rest where split: "sortedRules (hb_toolGuard b) = before @ rule # rest"
      "\<forall>r \<in> set before. \<not> rule_applies h now ev r (gm_state m)" "rule_applies h now ev rule (gm_state m)"
    using consults_split [OF c] unfolding ev by blast
  have "sorted_wrt rule_before (before @ rule # rest)"
    unfolding split(1) [symmetric] sortedRules_def by (rule sorted_sort_by) (auto simp: rule_before_def)
  then have "\<forall>r \<in> set rest. default_to 0 (gr_priority r) \<le> default_to 0 (gr_priority rule)"
    by (auto simp: sorted_wrt_append rule_before_def)
  moreover have "fst (evaluateBeforeToolCall h b now i ts p (gm_state m)) = Returned (Some
      (outcome (resolveDecisionTemplates h d ev) (Some (gr_id rule)) None (Some ''rule'') (Some True)))"
    if "gr_decision rule = Some d" for d
    unfolding consults_evaluates [OF ok c split(1) split(2) [unfolded ev]]
    by (subst guard_rule_first(1) [where d = d]) (use that assms(2) split(3) in \<open>simp_all add: ev\<close>)
  moreover have "\<exists>q. fst (evaluateBeforeToolCall h b now i ts p (gm_state m)) = AwaitsAction q \<and> pa_rule q = rule \<and>
      pa_actionId q = a \<and> gc_event (pa_call q) = ev \<and> pa_rest q = rest"
    if "gr_decision rule = None" "gr_action rule = Some a" "js_trim a \<noteq> []" "mhas (hb_actions b) a" for a
    unfolding consults_evaluates [OF ok c split(1) split(2) [unfolded ev]]
    by (subst guard_rule_first(2)) (use that split(3) in \<open>simp_all add: ev non_blank_opt_def non_blank_def\<close>)
  ultimately show ?thesis using split(1,2) unfolding e by metis
qed

text \<open>
  The remaining time cannot be shown: a backoff reason with the placeholder
  \<open>retryBackoffRemainingMs\<close> loses it, because the general template rendering
  replaces every unknown token by nothing before the placeholder is looked for.
\<close>

theorem backoff_placeholder_erased:
  assumes "tg_retryBackoffReason tg = Some (pre @ ''{{'' @ w @ ''}}'' @ post)"
    and "js_trim w = ''retryBackoffRemainingMs''" and "CHR ''}'' \<notin> set w"
    and "CHR ''{'' \<notin> set pre" and "CHR ''{'' \<notin> set post"
  shows "backoff_reason h tg remainingMs ev = pre @ post"
proof -
  have "guard_token h ev ''retryBackoffRemainingMs'' = []"
    by (simp add: guard_token_def starts_with_def)
  moreover have "w \<noteq> []" using assms(2) by auto
  ultimately have "renderGuardTemplate h (pre @ ''{{'' @ w @ ''}}'' @ post) ev = pre @ post"
    using assms render_unknown_token by simp
  then show ?thesis using assms by (simp add: backoff_reason_def replace_plain)
qed

definition deny_rule :: "string \<Rightarrow> int \<Rightarrow> bool \<Rightarrow> HookBridgeToolGuardRule" where
  "deny_rule i prio blk = \<lparr> gr_id = i, gr_enabled = None, gr_priority = Some prio,
     gr_when = any_when\<lparr>w_toolName := Some (Scalar ''exec'')\<rparr>, gr_action = None,
     gr_decision = Some (no_decision\<lparr>gd_block := Some blk, gd_blockReason := Some ''no {{toolName}}''\<rparr>),
     gr_stopOnMatch = None, gr_cooldownMs = None \<rparr>"

definition guard_bridge :: HookBridgeConfig where
  "guard_bridge = default_hookBridge\<lparr>hb_toolGuard := default_toolGuard
     \<lparr>tg_enabled := True, tg_rules := [deny_rule ''low'' 1 False, deny_rule ''high'' 5 True]\<rparr>\<rparr>"

definition exec_call :: tool_call where
  "exec_call = \<lparr> tl_toolName = ''exec'', tl_params = JObj [], tl_agentId = None, tl_sessionId = None,
     tl_sessionKey = None, tl_runId = None, tl_toolCallId = None \<rparr>"

definition exec_guard_call :: guard_call where
  "exec_guard_call = \<lparr> gc_event = buildToolGuardEvent ''g1'' ''1.3.0'' ''t'' exec_call,
     gc_scopeKey = ''exec:{}'', gc_nowMs = 1000 \<rparr>"

definition blocked_machine :: guard_machine where
  "blocked_machine = guard_step sample_host guard_bridge (Evaluate 1000 ''g1'' ''t'' exec_call) new_machine"

theorem retry_backoff_holds_witness:
  "\<exists>new. gm_returned (fold (guard_step sample_host guard_bridge) [Evaluate 5000 ''g2'' ''t'' exec_call] blocked_machine)
      = gm_returned blocked_machine @ new \<and> (\<forall>(i, scope, now, oc) \<in> set new. scope = ''exec:{}'' \<longrightarrow> 1 \<le> i \<longrightarrow> backoff_outcome oc)"
proof -
  have at: "gm_next blocked_machine = 1" "gm_inflight blocked_machine = []" "gs_acceptingEvents (gm_state blocked_machine)"
    "map_option bl_blockedAtMs (mget (gs_blockedRetryStateByScope (gm_state blocked_machine)) ''exec:{}'') = Some 1000"
    by code_simp+
  then obtain bl where bl: "mget (gs_blockedRetryStateByScope (gm_state blocked_machine)) ''exec:{}'' = Some bl"
      "bl_blockedAtMs bl = 1000"
    by auto
  have run: "blocked_machine = fold (guard_step sample_host guard_bridge) [Evaluate 1000 ''g1'' ''t'' exec_call] new_machine"
    by (simp only: blocked_machine_def fold_simps)
  show ?thesis
    using retry_backoff_holds [OF run at(3) bl(1), of 1000 "[Evaluate 5000 ''g2'' ''t'' exec_call]"] bl(2) at(1,2)
    by (simp add: guard_bridge_def default_toolGuard_def del: guard_step.simps fold_simps)
qed






theorem dry_run_never_blocks_witness:
  "list_all (\<lambda>(i, scope, now, oc). no_block oc) (gm_returned (fold (guard_step sample_host
     (guard_bridge\<lparr>hb_toolGuard := (hb_toolGuard guard_bridge)\<lparr>tg_dryRun := True\<rparr>\<rparr>))
     [Evaluate 1000 ''g1'' ''t'' exec_call] new_machine))"
  by (rule dry_run_never_blocks) (simp_all add: guard_bridge_def default_toolGuard_def)

theorem highest_priority_rule_decides_witness:
  "\<exists>oc. fst (evaluateBeforeToolCall sample_host guard_bridge 1000 ''g1'' ''t'' exec_call (gm_state new_machine)) =
     Returned (Some oc) \<and> oc_matchedRuleId oc = Some ''high'' \<and> gd_block oc = Some True"
proof -
  let ?ev = "buildToolGuardEvent ''g1'' ''1.3.0'' ''t'' exec_call" and ?high = "deny_rule ''high'' 5 True"
  have at: "gs_acceptingEvents (gm_state new_machine)" "gs_blockedRetryStateByScope (gm_state new_machine) = []"
    "gs_approvalCacheByScope (gm_state new_machine) = []" "rule_applies sample_host 1000 ?ev ?high (gm_state new_machine)"
    "tg_enabled (hb_toolGuard guard_bridge)" "\<not> tg_dryRun (hb_toolGuard guard_bridge)"
    "tg_rules (hb_toolGuard guard_bridge) = [deny_rule ''low'' 1 False] @ ?high # []"
    by code_simp+
  have prio: "gr_priority ?high = Some 5" "gr_priority (deny_rule ''low'' 1 False) = Some 1" "gr_id ?high = ''high''"
    and dec: "map_option gd_block (gr_decision ?high) = Some (Some True)"
    by (simp_all add: deny_rule_def)
  have c: "consults sample_host guard_bridge 1000 ''g1'' ''t'' exec_call (gm_state new_machine) ?high"
    unfolding consults_def Let_def at(7) using at(1-5) prio
    by (intro conjI exI [of _ "[deny_rule ''low'' 1 False]"] exI [of _ "[]"]) simp_all
  have run: "new_machine = fold (guard_step sample_host guard_bridge) [] new_machine" by simp
  obtain d where "gr_decision ?high = Some d" "gd_block d = Some True" using dec by auto
  with highest_priority_rule_decides [OF run at(6) c refl refl] prio(3) show ?thesis by auto
qed

theorem backoff_placeholder_erased_witness:
  "backoff_reason sample_host (default_toolGuard\<lparr>tg_retryBackoffReason := Some ''Wait {{ retryBackoffRemainingMs }} ms''\<rparr>)
     5 [] = ''Wait  ms''"
proof -
  have "js_trim '' retryBackoffRemainingMs '' = ''retryBackoffRemainingMs''" by code_simp
  then show ?thesis
    using backoff_placeholder_erased [of "default_toolGuard\<lparr>tg_retryBackoffReason := Some ''Wait {{ retryBackoffRemainingMs }} ms''\<rparr>"
      "''Wait ''" "'' retryBackoffRemainingMs ''" "'' ms''" sample_host 5 "[]"] by simp
qed

end
