(* ===== verification/DispatchEngine.thy ===== *)
theory DispatchEngine imports ToolGuard "HOL-Library.Multiset" begin

text \<open>
  The dispatch engine of the hook bridge, \<open>src/runtime/hook-bridge-dispatch-engine.ts\<close>: the
  bounded queue with its drop policies, coalescing, the worker pool, draining and the telemetry.
  Tasks are objects: the queue and the maps hold references (the task id) into the store
  \<open>en_tasks\<close>, because coalescing changes a queued task in place. A worker is suspended while its
  action runs; \<open>en_workers\<close> lists the tasks being executed. Percentages are computed in double
  precision, written out as rounding to 53 significant bits.
\<close>

section \<open>Double precision\<close>

function ilog2 :: "int \<Rightarrow> nat" where
  "ilog2 n = (if n < 2 then 0 else Suc (ilog2 (n div 2)))"
  by pat_completeness auto

termination
  by (relation "measure nat") auto

declare ilog2.simps [simp del]

text \<open>Division rounded to the nearest integer, ties to even.\<close>

definition round_div :: "int \<Rightarrow> int \<Rightarrow> int" where
  "round_div x y =
     (let n = x div y; r = x mod y in
      if 2 * r < y then n else if y < 2 * r then n + 1 else if even n then n else n + 1)"

text \<open>
  A double is a pair \<open>(n, s)\<close> for \<open>n / 2 ^ s\<close>. \<open>double_div a b\<close> is the double nearest to
  \<open>a / b\<close> for \<open>0 \<le> a \<le> b\<close> and \<open>0 < b\<close>: \<open>s\<close> is the shift that gives the quotient 53 bits.
\<close>

definition double_div :: "int \<Rightarrow> int \<Rightarrow> int \<times> nat" where
  "double_div a b =
     (if a = 0 then (0, 0)
      else let s0 = 52 + ilog2 b - ilog2 a;
               s = (if a * 2 ^ s0 < b * 2 ^ 52 then Suc s0 else s0)
           in (round_div (a * 2 ^ s) b, s))"

definition double_times_100 :: "int \<times> nat \<Rightarrow> int \<times> nat" where
  "double_times_100 x =
     (case x of (n, s) \<Rightarrow> let k = ilog2 (100 * n) - 52 in (round_div (100 * n) (2 ^ k), s - k))"

text \<open>\<open>(a / b) * 100\<close>, its floor and its value.\<close>

definition percent :: "int \<Rightarrow> int \<Rightarrow> int \<times> nat" where
  "percent a b = double_times_100 (double_div a b)"

definition percent_floor :: "int \<Rightarrow> int \<Rightarrow> int" where
  "percent_floor a b = (case percent a b of (n, s) \<Rightarrow> n div 2 ^ s)"

definition percent_value :: "int \<Rightarrow> int \<Rightarrow> rat" where
  "percent_value a b = (case percent a b of (n, s) \<Rightarrow> of_int n / 2 ^ s)"

section \<open>State\<close>

record HookTask =
  tk_taskId :: string
  tk_ruleId :: string
  tk_actionId :: string
  tk_action :: HookBridgeAction
  tk_rule :: HookBridgeRule
  tk_event :: event
  tk_enqueuedAt :: int
  tk_coalesceKey :: "string option"
  tk_mergedCount :: nat

datatype engine_log =
    Coalesced string
  | DroppedTask string string
  | Started string
  | Finished string bool
  | TimeoutWarning string
  | SlowWarning string
  | HighWatermark int
  | BackpressureActive
  | BackpressureRecovered
  | FailureRateAlert
  | FailureRateRecovered
  | DrainResolved nat

record engine =
  en_tasks :: "(string, HookTask) jsmap"
  en_queue :: "string list"
  en_queuedTaskById :: "(string, string) jsmap"
  en_queuedTaskIdByCoalesceKey :: "(string, string) jsmap"
  en_highWatermarkActive :: "int list"
  en_outcomes :: "(int \<times> bool) list"
  en_runningWorkers :: nat
  en_workers :: "string list"
  en_drainResolvers :: nat
  en_queueFullSinceMs :: "int option"
  en_backpressureActive :: bool
  en_failureRateAlertActive :: bool
  en_log :: "engine_log list"

definition new_engine :: engine where
  "new_engine = \<lparr> en_tasks = [], en_queue = [], en_queuedTaskById = [], en_queuedTaskIdByCoalesceKey = [],
     en_highWatermarkActive = [], en_outcomes = [], en_runningWorkers = 0, en_workers = [],
     en_drainResolvers = 0, en_queueFullSinceMs = None, en_backpressureActive = False,
     en_failureRateAlertActive = False, en_log = [] \<rparr>"

definition log_engine :: "engine_log \<Rightarrow> engine \<Rightarrow> engine" where
  "log_engine x s = s\<lparr>en_log := en_log s @ [x]\<rparr>"

section \<open>Telemetry\<close>

definition check_watermark :: "int \<Rightarrow> int \<Rightarrow> engine \<Rightarrow> engine" where
  "check_watermark queuePct threshold s =
     (if queuePct \<ge> threshold
      then (if threshold \<notin> set (en_highWatermarkActive s)
            then log_engine (HighWatermark threshold)
                   (s\<lparr>en_highWatermarkActive := sadd threshold (en_highWatermarkActive s)\<rparr>)
            else s)
      else s\<lparr>en_highWatermarkActive := filter (\<lambda>t. t \<noteq> threshold) (en_highWatermarkActive s)\<rparr>)"

definition evaluateQueuePressure :: "HookBridgeConfig \<Rightarrow> int \<Rightarrow> engine \<Rightarrow> engine" where
  "evaluateQueuePressure b now s0 =
     (let max = hr_maxPendingEvents (hb_runtime b);
          queuePct = (if max = 0 then 0 else percent_floor (int (length (en_queue s0))) max);
          s = fold (check_watermark queuePct) (sort_by (\<le>) (ht_highWatermarks (hb_telemetry b))) s0 in
      if int (length (en_queue s)) \<ge> max
      then let since = default_to now (en_queueFullSinceMs s);
               s1 = s\<lparr>en_queueFullSinceMs := Some since\<rparr> in
        if \<not> en_backpressureActive s1 \<and> now - since \<ge> ht_saturationWindowMs (hb_telemetry b)
        then log_engine BackpressureActive (s1\<lparr>en_backpressureActive := True\<rparr>) else s1
      else let s1 = s\<lparr>en_queueFullSinceMs := None\<rparr> in
        if en_backpressureActive s1
        then log_engine BackpressureRecovered (s1\<lparr>en_backpressureActive := False\<rparr>) else s1)"

definition recordOutcome :: "HookBridgeConfig \<Rightarrow> int \<Rightarrow> bool \<Rightarrow> engine \<Rightarrow> engine" where
  "recordOutcome b nowMs success s =
     s\<lparr>en_outcomes := dropWhile (\<lambda>(atMs, ok). atMs < nowMs - ht_failureRateWindowMs (hb_telemetry b))
         (en_outcomes s @ [(nowMs, success)])\<rparr>"

definition evaluateFailureRate :: "HookBridgeConfig \<Rightarrow> engine \<Rightarrow> engine" where
  "evaluateFailureRate b s =
     (let samples = length (en_outcomes s);
          recovered = (if en_failureRateAlertActive s
            then log_engine FailureRateRecovered (s\<lparr>en_failureRateAlertActive := False\<rparr>) else s) in
      if int samples < ht_failureRateMinSamples (hb_telemetry b) then recovered
      else let failures = length (filter (\<lambda>(atMs, ok). \<not> ok) (en_outcomes s)) in
        if percent_value (int failures) (int samples) \<ge> ht_failureRateThresholdPct (hb_telemetry b)
        then (if \<not> en_failureRateAlertActive s
              then log_engine FailureRateAlert (s\<lparr>en_failureRateAlertActive := True\<rparr>) else s)
        else recovered)"

section \<open>Workers\<close>

definition forget_coalesce :: "HookTask \<Rightarrow> engine \<Rightarrow> engine" where
  "forget_coalesce task s =
     (case tk_coalesceKey task of
        None \<Rightarrow> s
      | Some k \<Rightarrow> if k \<noteq> [] \<and> mget (en_queuedTaskIdByCoalesceKey s) k = Some (tk_taskId task)
          then s\<lparr>en_queuedTaskIdByCoalesceKey := mdel k (en_queuedTaskIdByCoalesceKey s)\<rparr> else s)"

text \<open>One turn of a worker's loop: take the first task and start its action.\<close>

definition worker_take :: "HookBridgeConfig \<Rightarrow> int \<Rightarrow> engine \<Rightarrow> engine" where
  "worker_take b now s =
     (case en_queue s of
        [] \<Rightarrow> s
      | tid # rest \<Rightarrow>
          (let s1 = s\<lparr>en_queue := rest, en_queuedTaskById := mdel tid (en_queuedTaskById s)\<rparr>;
               s2 = (case mget (en_tasks s) tid of None \<Rightarrow> s1 | Some task \<Rightarrow> forget_coalesce task s1);
               s3 = evaluateQueuePressure b now s2
           in log_engine (Started tid) (s3\<lparr>en_workers := en_workers s3 @ [tid]\<rparr>)))"

definition resolveDrainIfIdle :: "engine \<Rightarrow> engine" where
  "resolveDrainIfIdle s =
     (if en_runningWorkers s \<noteq> 0 \<or> en_queue s \<noteq> [] then s
      else if en_drainResolvers s = 0 then s
      else log_engine (DrainResolved (en_drainResolvers s)) (s\<lparr>en_drainResolvers := 0\<rparr>))"

lemma queue_evaluateQueuePressure [simp]: "en_queue (evaluateQueuePressure b now s) = en_queue s"
proof -
  have "en_queue (check_watermark q t s) = en_queue s" for q t s
    by (simp add: check_watermark_def log_engine_def)
  then have "en_queue (fold (check_watermark q) ts s) = en_queue s" for q ts
    by (induction ts arbitrary: s) auto
  then show ?thesis by (simp add: evaluateQueuePressure_def Let_def log_engine_def)
qed

lemma queue_worker_take [simp]: "en_queue (worker_take b now s) = tl (en_queue s)"
proof -
  have "en_queue (forget_coalesce t s) = en_queue s" for t s
    by (simp add: forget_coalesce_def split: option.splits)
  then show ?thesis by (cases "en_queue s") (simp_all add: worker_take_def Let_def log_engine_def split: option.splits)
qed

function pumpWorkers :: "HookBridgeConfig \<Rightarrow> int \<Rightarrow> engine \<Rightarrow> engine" where
  "pumpWorkers b now s =
     (if int (en_runningWorkers s) < hr_concurrency (hb_runtime b) \<and> en_queue s \<noteq> []
      then pumpWorkers b now (worker_take b now (s\<lparr>en_runningWorkers := Suc (en_runningWorkers s)\<rparr>))
      else resolveDrainIfIdle s)"
  by pat_completeness auto

termination
  by (relation "measure (\<lambda>(b, now, s). length (en_queue s))") auto

declare pumpWorkers.simps [simp del]

text \<open>
  After the awaited action of the task \<open>tid\<close>: the outcome is recorded, and the worker takes the
  next task or ends.
\<close>

definition task_settled ::
  "HookBridgeConfig \<Rightarrow> int \<Rightarrow> int \<Rightarrow> string \<Rightarrow> string + unit \<Rightarrow> engine \<Rightarrow> engine" where
  "task_settled b now durationMs tid result s =
     (if tid \<notin> set (en_workers s) then s
      else let success = (case result of Inl _ \<Rightarrow> False | Inr _ \<Rightarrow> True);
               s1 = log_engine (Finished tid success) (s\<lparr>en_workers := remove1 tid (en_workers s)\<rparr>);
               s2 = (case result of
                  Inl msg \<Rightarrow> if js_includes (js_lower msg) ''timed out'' then log_engine (TimeoutWarning tid) s1 else s1
                | Inr _ \<Rightarrow> s1);
               s3 = (if durationMs \<ge> ht_slowActionMs (hb_telemetry b) then log_engine (SlowWarning tid) s2 else s2);
               s4 = evaluateFailureRate b (recordOutcome b now success s3)
           in if en_queue s4 \<noteq> [] then worker_take b now s4
              else pumpWorkers b now (s4\<lparr>en_runningWorkers := en_runningWorkers s4 - 1\<rparr>))"

section \<open>Enqueueing\<close>

definition DEFAULT_COALESCE_WINDOW_MS :: int where
  "DEFAULT_COALESCE_WINDOW_MS = 10000"

text \<open>Whether the task was merged into a queued one; if not, the task with its coalesce key.\<close>

definition tryCoalesceTask :: "host \<Rightarrow> int \<Rightarrow> HookTask \<Rightarrow> engine \<Rightarrow> bool \<times> HookTask \<times> engine" where
  "tryCoalesceTask h now task s =
     (case hbr_coalesce (tk_rule task) of
        None \<Rightarrow> (False, task, s)
      | Some coalesce \<Rightarrow>
          if \<not> co_enabled coalesce then (False, task, s)
          else (case buildCoalesceKey h (tk_ruleId task) (tk_event task) coalesce of
            None \<Rightarrow> (False, task, s)
          | Some coalesceKey \<Rightarrow>
              let keyed = task\<lparr>tk_coalesceKey := Some coalesceKey\<rparr>;
                  forgotten = s\<lparr>en_queuedTaskIdByCoalesceKey := mdel coalesceKey (en_queuedTaskIdByCoalesceKey s)\<rparr> in
              case mget (en_queuedTaskIdByCoalesceKey s) coalesceKey of
                None \<Rightarrow> (False, keyed, s)
              | Some queuedTaskId \<Rightarrow>
                  (case mget (en_queuedTaskById s) queuedTaskId of
                     None \<Rightarrow> (False, keyed, forgotten)
                   | Some ref \<Rightarrow>
                       (case mget (en_tasks s) ref of
                          None \<Rightarrow> (False, keyed, forgotten)
                        | Some existing \<Rightarrow>
                            if now - tk_enqueuedAt existing > default_to DEFAULT_COALESCE_WINDOW_MS (co_windowMs coalesce)
                            then (False, keyed, forgotten)
                            else let e1 = (if default_to ''latest'' (co_strategy coalesce) = ''latest''
                                       then existing\<lparr>tk_event := tk_event task, tk_enqueuedAt := tk_enqueuedAt task\<rparr>
                                       else existing);
                                     e2 = e1\<lparr>tk_mergedCount := Suc (tk_mergedCount e1)\<rparr>
                                 in (True, task, log_engine (Coalesced ref)
                                      (s\<lparr>en_tasks := mput ref e2 (en_tasks s)\<rparr>))))))"

definition drop_head :: "engine \<Rightarrow> engine" where
  "drop_head s =
     (case en_queue s of
        [] \<Rightarrow> s
      | tid # rest \<Rightarrow>
          (let s1 = s\<lparr>en_queue := rest, en_queuedTaskById := mdel tid (en_queuedTaskById s)\<rparr>;
               s2 = (case mget (en_tasks s) tid of None \<Rightarrow> s1 | Some task \<Rightarrow> forget_coalesce task s1)
           in log_engine (DroppedTask tid ''drop_oldest'') s2))"

definition push_task :: "HookTask \<Rightarrow> engine \<Rightarrow> engine" where
  "push_task task s =
     (let tid = tk_taskId task;
          s1 = s\<lparr> en_tasks := mput tid task (en_tasks s), en_queue := en_queue s @ [tid],
                 en_queuedTaskById := mput tid tid (en_queuedTaskById s) \<rparr> in
      case tk_coalesceKey task of
        None \<Rightarrow> s1
      | Some k \<Rightarrow> if k = [] then s1
          else s1\<lparr>en_queuedTaskIdByCoalesceKey := mput k tid (en_queuedTaskIdByCoalesceKey s1)\<rparr>)"

definition enqueueTask :: "host \<Rightarrow> HookBridgeConfig \<Rightarrow> int \<Rightarrow> HookTask \<Rightarrow> engine \<Rightarrow> engine" where
  "enqueueTask h b now task s0 =
     (case tryCoalesceTask h now task s0 of
        (True, _, s) \<Rightarrow> s
      | (False, task1, s) \<Rightarrow>
          let full = int (length (en_queue s)) \<ge> hr_maxPendingEvents (hb_runtime b) in
          if full \<and> hr_dropPolicy (hb_runtime b) = ''drop_newest''
          then evaluateQueuePressure b now (log_engine (DroppedTask (tk_taskId task1) ''drop_newest'') s)
          else let s1 = (if full then drop_head s else s)
               in pumpWorkers b now (evaluateQueuePressure b now (push_task task1 s1)))"

definition stop_engine :: "HookBridgeConfig \<Rightarrow> int \<Rightarrow> engine \<Rightarrow> engine" where
  "stop_engine b now s0 =
     (let s = pumpWorkers b now s0 in
      if en_runningWorkers s = 0 \<and> en_queue s = [] then log_engine (DrainResolved 1) s
      else s\<lparr>en_drainResolvers := Suc (en_drainResolvers s)\<rparr>)"

section \<open>The bridge as a machine\<close>

text \<open>
  \<open>onEvent\<close> of the bridge numbers the tasks; \<open>Settled\<close> is the end of a task's action.
\<close>

record bridge =
  br_guard :: guard_state
  br_engine :: engine
  br_nextTaskId :: nat

datatype bridge_op =
    BridgeOnEvent int event
  | Settled int int string "string + unit"
  | BridgeStop int

definition task_id :: "nat \<Rightarrow> string" where
  "task_id n = ''task-'' @ show_nat n"

definition new_task :: "nat \<Rightarrow> int \<Rightarrow> event \<Rightarrow> HookBridgeRule \<times> HookBridgeAction \<Rightarrow> HookTask" where
  "new_task n now ev ra =
     \<lparr> tk_taskId = task_id n, tk_ruleId = hbr_id (fst ra), tk_actionId = hbr_action (fst ra),
       tk_action = snd ra, tk_rule = fst ra, tk_event = ev, tk_enqueuedAt = now,
       tk_coalesceKey = None, tk_mergedCount = 0 \<rparr>"

definition enqueue_one ::
  "host \<Rightarrow> HookBridgeConfig \<Rightarrow> int \<Rightarrow> event \<Rightarrow> HookBridgeRule \<times> HookBridgeAction \<Rightarrow> engine \<times> nat \<Rightarrow> engine \<times> nat" where
  "enqueue_one h b now ev ra s =
     (enqueueTask h b now (new_task (snd s) now ev ra) (fst s), Suc (snd s))"

fun bridge_step :: "host \<Rightarrow> HookBridgeConfig \<Rightarrow> bridge_op \<Rightarrow> bridge \<Rightarrow> bridge" where
  "bridge_step h b (BridgeOnEvent now ev) m =
     (let (tasks, g) = onEvent h b now ev (br_guard m);
          (e, n) = fold (enqueue_one h b now ev) tasks (br_engine m, br_nextTaskId m)
      in \<lparr> br_guard = g, br_engine = e, br_nextTaskId = n \<rparr>)"
| "bridge_step h b (Settled now duration tid result) m =
     m\<lparr>br_engine := task_settled b now duration tid result (br_engine m)\<rparr>"
| "bridge_step h b (BridgeStop now) m =
     m\<lparr> br_guard := (br_guard m)\<lparr>gs_acceptingEvents := False\<rparr>,
        br_engine := stop_engine b now (br_engine m) \<rparr>"

definition new_bridge :: bridge where
  "new_bridge = \<lparr> br_guard = new_guard, br_engine = new_engine, br_nextTaskId = 1 \<rparr>"

section \<open>Lemmas: telemetry leaves the queue alone\<close>

definition taken :: "engine_log list \<Rightarrow> string list" where
  "taken l = concat (map (\<lambda>x. case x of Started t \<Rightarrow> [t]
     | DroppedTask t p \<Rightarrow> if p = ''drop_oldest'' then [t] else [] | _ \<Rightarrow> []) l)"

definition started :: "engine_log list \<Rightarrow> string list" where
  "started l = concat (map (\<lambda>x. case x of Started t \<Rightarrow> [t] | _ \<Rightarrow> []) l)"

lemma taken_simps [simp]:
  "taken [] = []" "taken (l @ l2) = taken l @ taken l2"
  "taken (x # l) = (case x of Started t \<Rightarrow> [t] | DroppedTask t p \<Rightarrow> if p = ''drop_oldest'' then [t] else [] | _ \<Rightarrow> []) @ taken l"
  by (simp_all add: taken_def)

lemma started_simps [simp]:
  "started [] = []" "started (l @ l2) = started l @ started l2"
  "started (x # l) = (case x of Started t \<Rightarrow> [t] | _ \<Rightarrow> []) @ started l"
  by (simp_all add: started_def)

text \<open>What the invariants are about.\<close>

definition core :: "engine \<Rightarrow> (string, HookTask) jsmap \<times> string list \<times> (string, string) jsmap \<times>
    (string, string) jsmap \<times> nat \<times> string list \<times> nat \<times> string list" where
  "core s = (en_tasks s, en_queue s, en_queuedTaskById s, en_queuedTaskIdByCoalesceKey s,
     en_runningWorkers s, en_workers s, en_drainResolvers s, taken (en_log s))"

definition quiet :: "engine_log \<Rightarrow> bool" where
  "quiet x \<longleftrightarrow> (case x of Started t \<Rightarrow> False | DroppedTask t p \<Rightarrow> p \<noteq> ''drop_oldest'' | _ \<Rightarrow> True)"

lemma core_log: "quiet x \<Longrightarrow> core (log_engine x s) = core s"
  by (cases x) (simp_all add: core_def log_engine_def quiet_def)

lemma core_watermark: "core (check_watermark q t s) = core s"
  by (simp add: check_watermark_def core_log quiet_def) (simp add: core_def)

lemma core_watermarks: "core (fold (check_watermark q) ts s) = core s"
  by (induction ts arbitrary: s) (auto simp: core_watermark)

lemma core_pressure [simp]: "core (evaluateQueuePressure b now s) = core s"
proof -
  have upd: "core (s\<lparr>en_queueFullSinceMs := x\<rparr>) = core s" "core (s\<lparr>en_backpressureActive := y\<rparr>) = core s" for s x y
    by (simp_all add: core_def)
  show ?thesis
    by (simp add: evaluateQueuePressure_def Let_def core_log quiet_def upd core_watermarks)
qed

lemma core_failureRate [simp]: "core (evaluateFailureRate b s) = core s"
proof -
  have upd: "core (s\<lparr>en_failureRateAlertActive := y\<rparr>) = core s" for s y
    by (simp add: core_def)
  show ?thesis by (simp add: evaluateFailureRate_def Let_def core_log quiet_def upd)
qed

lemma core_outcome [simp]: "core (recordOutcome b now ok s) = core s"
  by (simp add: recordOutcome_def core_def)

section \<open>Lemmas: the invariant of the queue and the workers\<close>

text \<open>\<open>d\<close> workers are between two tasks.\<close>

definition base_ok :: "HookBridgeConfig \<Rightarrow> nat \<Rightarrow> engine \<Rightarrow> bool" where
  "base_ok b d s \<longleftrightarrow>
     en_runningWorkers s = length (en_workers s) + d \<and>
     int (en_runningWorkers s) \<le> max 0 (hr_concurrency (hb_runtime b)) \<and>
     distinct (taken (en_log s) @ en_queue s) \<and>
     map_ok (en_queuedTaskById s) \<and> map_ok (en_queuedTaskIdByCoalesceKey s) \<and>
     (\<forall>t. mget (en_queuedTaskById s) t = (if t \<in> set (en_queue s) then Some t else None)) \<and>
     (\<forall>t \<in> set (en_queue s). \<exists>task. mget (en_tasks s) t = Some task \<and> tk_taskId task = t) \<and>
     (\<forall>k t. mget (en_queuedTaskIdByCoalesceKey s) k = Some t \<longrightarrow> k \<noteq> [] \<and> t \<in> set (en_queue s) \<and>
        (\<forall>task. mget (en_tasks s) t = Some task \<longrightarrow> tk_coalesceKey task = Some k))"

lemma base_ok_core: "core s = core s1 \<Longrightarrow> base_ok b d s = base_ok b d s1"
  by (simp add: core_def base_ok_def)

lemma base_ok_telemetry [simp]:
  "base_ok b d (evaluateQueuePressure b2 now s) = base_ok b d s"
  "base_ok b d (evaluateFailureRate b2 s) = base_ok b d s"
  "base_ok b d (recordOutcome b2 now ok s) = base_ok b d s"
  "quiet x \<Longrightarrow> base_ok b d (log_engine x s) = base_ok b d s"
  by (rule base_ok_core; simp add: core_log)+

text \<open>Removing the head of the queue, by a worker or by the drop policy.\<close>

definition unlink_head :: "string \<Rightarrow> string list \<Rightarrow> engine \<Rightarrow> engine" where
  "unlink_head tid rest s =
     (let s1 = s\<lparr>en_queue := rest, en_queuedTaskById := mdel tid (en_queuedTaskById s)\<rparr> in
      case mget (en_tasks s) tid of None \<Rightarrow> s1 | Some task \<Rightarrow> forget_coalesce task s1)"

lemma unlink_head_fields:
  "en_queue (unlink_head tid rest s) = rest" "en_tasks (unlink_head tid rest s) = en_tasks s"
  "en_queuedTaskById (unlink_head tid rest s) = mdel tid (en_queuedTaskById s)"
  "en_runningWorkers (unlink_head tid rest s) = en_runningWorkers s"
  "en_workers (unlink_head tid rest s) = en_workers s" "en_log (unlink_head tid rest s) = en_log s"
  "en_drainResolvers (unlink_head tid rest s) = en_drainResolvers s"
  by (simp_all add: unlink_head_def Let_def forget_coalesce_def split: option.splits)

lemma unlink_head_coalesce:
  assumes "base_ok b d s" and "en_queue s = tid # rest"
  shows "map_ok (en_queuedTaskIdByCoalesceKey (unlink_head tid rest s)) \<and>
     mget (en_queuedTaskIdByCoalesceKey (unlink_head tid rest s)) k =
       (case mget (en_queuedTaskIdByCoalesceKey s) k of Some t \<Rightarrow> if t = tid then None else Some t | None \<Rightarrow> None)"
proof -
  obtain task where task: "mget (en_tasks s) tid = Some task" "tk_taskId task = tid"
    using assms by (auto simp: base_ok_def)
  have own: "mget (en_queuedTaskIdByCoalesceKey s) j = Some tid \<Longrightarrow> j \<noteq> [] \<and> tk_coalesceKey task = Some j" for j
    using assms(1) task(1) by (auto simp: base_ok_def)
  have ok: "map_ok (en_queuedTaskIdByCoalesceKey s)" using assms(1) by (simp add: base_ok_def)
  show ?thesis
    using task own [of k] ok own
    by (auto simp: unlink_head_def Let_def forget_coalesce_def distinct_delete split: option.splits)
qed

lemma unlink_head_ok:
  assumes "base_ok b d s" and "en_queue s = tid # rest"
  shows "base_ok b d (log_engine (DroppedTask tid ''drop_oldest'') (unlink_head tid rest s))"
  using assms unlink_head_coalesce [OF assms]
  by (auto simp: base_ok_def log_engine_def unlink_head_fields distinct_delete split: option.splits if_splits)

lemma drop_head_unlink:
  "en_queue s = tid # rest \<Longrightarrow> drop_head s = log_engine (DroppedTask tid ''drop_oldest'') (unlink_head tid rest s)"
  by (simp add: drop_head_def unlink_head_def Let_def)

lemma worker_take_unlink:
  "en_queue s = tid # rest \<Longrightarrow> worker_take b now s =
     (let s3 = evaluateQueuePressure b now (unlink_head tid rest s)
      in log_engine (Started tid) (s3\<lparr>en_workers := en_workers s3 @ [tid]\<rparr>))"
  by (simp add: worker_take_def unlink_head_def Let_def)

lemma core_worker_take:
  assumes "en_queue s = tid # rest"
  shows "core (worker_take b now s) =
    (en_tasks s, rest, mdel tid (en_queuedTaskById s), en_queuedTaskIdByCoalesceKey (unlink_head tid rest s),
     en_runningWorkers s, en_workers s @ [tid], en_drainResolvers s, taken (en_log s) @ [tid])"
proof -
  let ?s3 = "evaluateQueuePressure b now (unlink_head tid rest s)"
  have c: "core ?s3 = core (unlink_head tid rest s)" by simp
  show ?thesis
    using c unfolding worker_take_unlink [OF assms]
    by (simp add: core_def Let_def log_engine_def unlink_head_fields)
qed

lemma worker_take_ok:
  assumes "base_ok b (Suc d) s" and "en_queue s \<noteq> []"
  shows "base_ok b d (worker_take b now s)"
proof -
  obtain tid rest where q: "en_queue s = tid # rest" using assms(2) by (cases "en_queue s") auto
  have u: "base_ok b (Suc d) (log_engine (DroppedTask tid ''drop_oldest'') (unlink_head tid rest s))"
    by (rule unlink_head_ok [OF assms(1) q])
  show ?thesis
    using u core_worker_take [OF q, of b now]
    by (auto simp: base_ok_def core_def log_engine_def unlink_head_fields)
qed

definition flow :: "engine \<Rightarrow> string list" where
  "flow s = taken (en_log s) @ en_queue s"

lemma flow_core: "core s = core s1 \<Longrightarrow> flow s = flow s1"
  by (simp add: core_def flow_def)

lemma flow_worker_take [simp]: "flow (worker_take b now s) = flow s"
proof (cases "en_queue s")
  case Nil
  then show ?thesis by (simp add: worker_take_def)
next
  case (Cons tid rest)
  from core_worker_take [OF this, of b now] Cons show ?thesis by (simp add: core_def flow_def)
qed

lemma resolveDrain_fields [simp]:
  "core (resolveDrainIfIdle s) = (case core s of (t, q, m, c, r, w, d, l) \<Rightarrow>
     (t, q, m, c, r, w, if r = 0 \<and> q = [] then 0 else d, l))"
  by (simp add: resolveDrainIfIdle_def core_def log_engine_def)

lemma base_ok_resolveDrain [simp]: "base_ok b d (resolveDrainIfIdle s) = base_ok b d s"
  by (simp add: resolveDrainIfIdle_def base_ok_def log_engine_def)

definition engine_ok :: "HookBridgeConfig \<Rightarrow> engine \<Rightarrow> bool" where
  "engine_ok b s \<longleftrightarrow> base_ok b 0 s \<and>
     (en_queue s \<noteq> [] \<longrightarrow> int (en_runningWorkers s) \<ge> hr_concurrency (hb_runtime b)) \<and>
     (en_runningWorkers s = 0 \<longrightarrow> en_queue s = [] \<longrightarrow> en_drainResolvers s = 0)"

lemma pump_ok:
  "base_ok b 0 s \<Longrightarrow> engine_ok b (pumpWorkers b now s) \<and> flow (pumpWorkers b now s) = flow s \<and>
     length (en_queue (pumpWorkers b now s)) \<le> length (en_queue s)"
proof (induction b now s rule: pumpWorkers.induct)
  case (1 b now s)
  show ?case
  proof (cases "int (en_runningWorkers s) < hr_concurrency (hb_runtime b) \<and> en_queue s \<noteq> []")
    case True
    let ?s = "s\<lparr>en_runningWorkers := Suc (en_runningWorkers s)\<rparr>"
    have "base_ok b (Suc 0) ?s" using "1.prems" True by (auto simp: base_ok_def)
    then have "base_ok b 0 (worker_take b now ?s)" using True by (intro worker_take_ok) simp_all
    moreover have "flow ?s = flow s" by (simp add: flow_def)
    ultimately show ?thesis
      using "1.IH" [OF True] True by (subst (1 2 3) pumpWorkers.simps) (auto intro: le_trans)
  next
    case False
    have "core (resolveDrainIfIdle s) = core (resolveDrainIfIdle s)" ..
    then have "flow (resolveDrainIfIdle s) = flow s" "en_queue (resolveDrainIfIdle s) = en_queue s"
        "en_runningWorkers (resolveDrainIfIdle s) = en_runningWorkers s"
        "en_runningWorkers s = 0 \<longrightarrow> en_queue s = [] \<longrightarrow> en_drainResolvers (resolveDrainIfIdle s) = 0"
      using resolveDrain_fields [of s] by (auto simp: core_def flow_def split: if_splits)
    with False "1.prems" show ?thesis
      by (subst (1 2 3) pumpWorkers.simps) (auto simp: engine_ok_def)
  qed
qed

lemma quiet_simps [simp]:
  "quiet (Finished t ok)" "quiet (TimeoutWarning t)" "quiet (SlowWarning t)" "quiet (Coalesced t)"
  "quiet (DroppedTask t ''drop_newest'')" "quiet (DrainResolved n)"
  by (simp_all add: quiet_def)

lemma settled_ok:
  assumes ok: "engine_ok b s" and len: "length (en_queue s) \<le> n"
  shows "engine_ok b (task_settled b now dur tid result s) \<and> flow (task_settled b now dur tid result s) = flow s \<and>
     length (en_queue (task_settled b now dur tid result s)) \<le> n"
proof (cases "tid \<in> set (en_workers s)")
  case False
  with assms show ?thesis by (simp add: task_settled_def)
next
  case True
  define s0 where "s0 = s\<lparr>en_workers := remove1 tid (en_workers s)\<rparr>"
  define success where "success = (case result of Inl (_::string) \<Rightarrow> False | Inr (_::unit) \<Rightarrow> True)"
  define s2 where "s2 = (case result of
      Inl msg \<Rightarrow> if js_includes (js_lower msg) ''timed out''
        then log_engine (TimeoutWarning tid) (log_engine (Finished tid success) s0)
        else log_engine (Finished tid success) s0
    | Inr _ \<Rightarrow> log_engine (Finished tid success) s0)"
  define s4 where "s4 = evaluateFailureRate b (recordOutcome b now success
      (if dur \<ge> ht_slowActionMs (hb_telemetry b) then log_engine (SlowWarning tid) s2 else s2))"
  have c: "core s4 = core s0"
    by (simp add: s4_def s2_def core_log split: sum.splits)
  have w: "length (en_workers s) = Suc (length (remove1 tid (en_workers s)))"
    using True by (simp add: length_remove1) (metis Suc_pred length_pos_if_in_set)
  have "base_ok b 0 s" using ok by (simp add: engine_ok_def)
  then have "base_ok b 1 s0" using w by (simp add: base_ok_def s0_def)
  then have b4: "base_ok b 1 s4" using base_ok_core [OF c] by simp
  have q: "en_queue s4 = en_queue s" "en_runningWorkers s4 = en_runningWorkers s" "en_drainResolvers s4 = en_drainResolvers s"
      and f: "flow s4 = flow s"
    using c by (simp_all add: core_def s0_def flow_def)
  have def4: "task_settled b now dur tid result s = (if en_queue s4 \<noteq> [] then worker_take b now s4
      else pumpWorkers b now (s4\<lparr>en_runningWorkers := en_runningWorkers s4 - 1\<rparr>))"
    unfolding s4_def s2_def success_def s0_def using True by (simp add: task_settled_def Let_def)
  show ?thesis
  proof (cases "en_queue s4")
    case Nil
    have "base_ok b 0 (s4\<lparr>en_runningWorkers := en_runningWorkers s4 - 1\<rparr>)"
      using b4 by (auto simp: base_ok_def)
    from pump_ok [OF this, of now] Nil def4 f len q show ?thesis by (auto simp: flow_def)
  next
    case (Cons t rest)
    from worker_take_ok [of b 0 s4 now] b4 Cons have b5: "base_ok b 0 (worker_take b now s4)" by simp
    have "en_runningWorkers (worker_take b now s4) = en_runningWorkers s4"
      using core_worker_take [OF Cons, of b now] by (simp add: core_def)
    moreover have "int (en_runningWorkers s) \<ge> hr_concurrency (hb_runtime b)" "en_runningWorkers s \<noteq> 0"
      using ok Cons q w by (auto simp: engine_ok_def base_ok_def)
    ultimately show ?thesis using b5 def4 Cons f len q by (auto simp: engine_ok_def)
  qed
qed

lemma coalesce_key_nonempty: "buildCoalesceKey h r ev c = Some k \<Longrightarrow> k \<noteq> []"
  by (auto simp: buildCoalesceKey_def Let_def split: if_splits)

lemma base_ok_forget_key: "base_ok b d s \<Longrightarrow> base_ok b d (s\<lparr>en_queuedTaskIdByCoalesceKey := mdel k (en_queuedTaskIdByCoalesceKey s)\<rparr>)"
  by (auto simp: base_ok_def distinct_delete)

lemma base_ok_update_task:
  assumes "base_ok b d s" and "mget (en_tasks s) ref = Some t" and "tk_taskId t1 = tk_taskId t" and "tk_coalesceKey t1 = tk_coalesceKey t"
  shows "base_ok b d (s\<lparr>en_tasks := mput ref t1 (en_tasks s)\<rparr>)"
  using assms by (auto simp: base_ok_def split: if_splits)

text \<open>A task either stays separate, possibly with its key, or is merged into a queued one.\<close>

lemma tryCoalesce_cases:
  assumes "tryCoalesceTask h now task s = (merged, task1, s1)"
  obtains (plain) "\<not> merged" "task1 = task" "s1 = s"
  | (keyed) k where "\<not> merged" "task1 = task\<lparr>tk_coalesceKey := Some k\<rparr>" "k \<noteq> []"
      "s1 = s \<or> s1 = s\<lparr>en_queuedTaskIdByCoalesceKey := mdel k (en_queuedTaskIdByCoalesceKey s)\<rparr>"
  | (merged) ref t t1 where "merged" "task1 = task" "mget (en_tasks s) ref = Some t"
      "tk_taskId t1 = tk_taskId t" "tk_coalesceKey t1 = tk_coalesceKey t"
      "s1 = log_engine (Coalesced ref) (s\<lparr>en_tasks := mput ref t1 (en_tasks s)\<rparr>)"
proof (cases "hbr_coalesce (tk_rule task)")
  case None
  with assms show ?thesis by (intro plain) (simp_all add: tryCoalesceTask_def)
next
  case (Some c)
  show ?thesis
  proof (cases "co_enabled c \<and> buildCoalesceKey h (tk_ruleId task) (tk_event task) c \<noteq> None")
    case False
    then have "(merged, task1, s1) = (False, task, s)"
      using Some assms by (cases "co_enabled c") (auto simp: tryCoalesceTask_def)
    then show ?thesis by (intro plain) simp_all
  next
    case True
    then obtain k where k: "buildCoalesceKey h (tk_ruleId task) (tk_event task) c = Some k" by blast
    note ne = coalesce_key_nonempty [OF k]
    show ?thesis
    proof (cases "mget (en_queuedTaskIdByCoalesceKey s) k")
      case None
      with k True Some assms ne show ?thesis by (intro keyed [of k]) (auto simp: tryCoalesceTask_def)
    next
      case (Some q)
      note q = this
      show ?thesis
      proof (cases "mget (en_queuedTaskById s) q")
        case None
        with q k True \<open>hbr_coalesce (tk_rule task) = Some c\<close> assms ne show ?thesis
          by (intro keyed [of k]) (auto simp: tryCoalesceTask_def Let_def)
      next
        case (Some ref)
        note ref = this
        show ?thesis
        proof (cases "mget (en_tasks s) ref")
          case None
          with ref q k True \<open>hbr_coalesce (tk_rule task) = Some c\<close> assms ne show ?thesis
            by (intro keyed [of k]) (auto simp: tryCoalesceTask_def Let_def)
        next
          case (Some t)
          define t1 where "t1 = (if default_to ''latest'' (co_strategy c) = ''latest''
             then t\<lparr>tk_event := tk_event task, tk_enqueuedAt := tk_enqueuedAt task\<rparr> else t)"
          show ?thesis
          proof (cases "now - tk_enqueuedAt t > default_to DEFAULT_COALESCE_WINDOW_MS (co_windowMs c)")
            case True
            with Some ref q k \<open>co_enabled c \<and> _\<close> \<open>hbr_coalesce (tk_rule task) = Some c\<close> assms ne show ?thesis
              by (intro keyed [of k]) (auto simp: tryCoalesceTask_def Let_def)
          next
            case False
            with Some ref q k \<open>co_enabled c \<and> _\<close> \<open>hbr_coalesce (tk_rule task) = Some c\<close> assms show ?thesis
              by (intro merged [of ref t "t1\<lparr>tk_mergedCount := Suc (tk_mergedCount t1)\<rparr>"])
                (simp_all add: tryCoalesceTask_def Let_def t1_def split: if_splits)
          qed
        qed
      qed
    qed
  qed
qed

lemma tryCoalesce_ok:
  assumes b: "base_ok b d s" and "tk_coalesceKey task = None" and t: "tryCoalesceTask h now task s = (merged, task1, s1)"
  shows "base_ok b d s1 \<and> flow s1 = flow s \<and> en_queue s1 = en_queue s \<and> en_runningWorkers s1 = en_runningWorkers s \<and>
     en_drainResolvers s1 = en_drainResolvers s \<and> tk_coalesceKey task1 \<noteq> Some [] \<and> (\<not> merged \<longrightarrow> tk_taskId task1 = tk_taskId task)"
  using t
proof (cases rule: tryCoalesce_cases)
  case plain
  with assms show ?thesis by simp
next
  case (keyed k)
  with assms base_ok_forget_key [OF b, of k] show ?thesis by (auto simp: flow_def)
next
  case (merged ref t t1)
  from base_ok_update_task [OF b merged(3-5)] merged assms(2) show ?thesis
    by (simp add: flow_def log_engine_def [of _ s] ) (simp add: log_engine_def)
qed

lemma push_ok:
  assumes "base_ok b d s" and "tk_taskId task \<notin> set (flow s)" and "tk_coalesceKey task \<noteq> Some []"
  shows "base_ok b d (push_task task s)"
  using assms
  by (cases "tk_coalesceKey task")
    (auto simp: base_ok_def push_task_def Let_def flow_def distinct_update)

lemma push_fields [simp]:
  "flow (push_task task s) = flow s @ [tk_taskId task]" "en_queue (push_task task s) = en_queue s @ [tk_taskId task]"
  by (auto simp: push_task_def Let_def flow_def split: option.splits)

lemma drop_head_ok:
  assumes "base_ok b d s"
  shows "base_ok b d (drop_head s) \<and> flow (drop_head s) = flow s \<and> en_queue (drop_head s) = tl (en_queue s)"
proof (cases "en_queue s")
  case Nil
  with assms show ?thesis by (simp add: drop_head_def)
next
  case (Cons tid rest)
  from unlink_head_ok [OF assms Cons] Cons show ?thesis
    by (simp add: drop_head_unlink flow_def) (simp add: log_engine_def unlink_head_fields)
qed

lemma flow_pressure [simp]: "flow (evaluateQueuePressure b now s) = flow s"
  by (rule flow_core) simp

text \<open>Enqueueing a new task keeps the invariant; the flow grows by that task or not at all.\<close>

lemma enqueue_ok:
  assumes ok: "engine_ok b s" and cap: "1 \<le> hr_maxPendingEvents (hb_runtime b)"
    and len: "int (length (en_queue s)) \<le> hr_maxPendingEvents (hb_runtime b)"
    and new: "tk_taskId task \<notin> set (flow s)" and key: "tk_coalesceKey task = None"
  shows "engine_ok b (enqueueTask h b now task s) \<and>
     int (length (en_queue (enqueueTask h b now task s))) \<le> hr_maxPendingEvents (hb_runtime b) \<and>
     (flow (enqueueTask h b now task s) = flow s \<or> flow (enqueueTask h b now task s) = flow s @ [tk_taskId task])"
proof -
  have b: "base_ok b 0 s" using ok by (simp add: engine_ok_def)
  obtain merged task1 s1 where t: "tryCoalesceTask h now task s = (merged, task1, s1)" by (metis surj_pair)
  note tc = tryCoalesce_ok [OF b key t]
  have ok1: "engine_ok b s1" using ok tc by (simp add: engine_ok_def)
  show ?thesis
  proof (cases merged)
    case True
    with t tc ok1 len show ?thesis by (simp add: enqueueTask_def)
  next
    case False
    let ?full = "int (length (en_queue s1)) \<ge> hr_maxPendingEvents (hb_runtime b)"
    show ?thesis
    proof (cases "?full \<and> hr_dropPolicy (hb_runtime b) = ''drop_newest''")
      case True
      let ?s = "evaluateQueuePressure b now (log_engine (DroppedTask (tk_taskId task1) ''drop_newest'') s1)"
      have c: "core ?s = core s1" by (simp add: core_log)
      have "engine_ok b ?s" "flow ?s = flow s1" "en_queue ?s = en_queue s1"
        using ok1 base_ok_core [OF c] flow_core [OF c] c by (simp_all add: engine_ok_def core_def)
      with True False t tc len show ?thesis by (simp add: enqueueTask_def)
    next
      case False
      let ?s = "if ?full then drop_head s1 else s1"
      have d: "base_ok b 0 ?s \<and> flow ?s = flow s1 \<and> int (length (en_queue ?s)) < hr_maxPendingEvents (hb_runtime b)"
        using drop_head_ok [of b 0 s1] tc len cap by auto
      have p: "base_ok b 0 (push_task task1 ?s)"
        using d tc new \<open>\<not> merged\<close> by (intro push_ok) auto
      then have "base_ok b 0 (evaluateQueuePressure b now (push_task task1 ?s))" by simp
      note pump = pump_ok [OF this, of now]
      have "enqueueTask h b now task s = pumpWorkers b now (evaluateQueuePressure b now (push_task task1 ?s))"
        using False \<open>\<not> merged\<close> t by (auto simp: enqueueTask_def Let_def)
      with pump d tc \<open>\<not> merged\<close> show ?thesis by auto
    qed
  qed
qed

lemma stop_ok:
  assumes "engine_ok b s"
  shows "engine_ok b (stop_engine b now s) \<and> flow (stop_engine b now s) = flow s \<and>
     length (en_queue (stop_engine b now s)) \<le> length (en_queue s)"
proof -
  have "base_ok b 0 s" using assms by (simp add: engine_ok_def)
  note pump = pump_ok [OF this, of now]
  let ?s = "pumpWorkers b now s"
  have c: "core (log_engine (DrainResolved 1) ?s) = core ?s" by (simp add: core_log)
  have "engine_ok b (log_engine (DrainResolved 1) ?s)" "flow (log_engine (DrainResolved 1) ?s) = flow ?s"
    using pump base_ok_core [OF c] flow_core [OF c] c by (simp_all add: engine_ok_def core_def)
  moreover have "base_ok b 0 (?s\<lparr>en_drainResolvers := n\<rparr>) = base_ok b 0 ?s" for n by (simp add: base_ok_def)
  ultimately show ?thesis
    using pump by (auto simp: stop_engine_def Let_def engine_ok_def flow_def log_engine_def)
qed

section \<open>The bridge as a machine\<close>

lemma task_id_inj: "task_id m = task_id n \<longleftrightarrow> m = n"
  unfolding task_id_def by (metis append_eq_append_conv read_show_nat)

text \<open>All of the bridge, for a configuration with room for a task.\<close>

definition numbered :: "string list \<Rightarrow> nat \<Rightarrow> bool" where
  "numbered ids n \<longleftrightarrow> (\<exists>ns. ids = map task_id ns \<and> sorted_wrt (<) ns \<and> (\<forall>i \<in> set ns. i < n))"

definition bounded_ok :: "HookBridgeConfig \<Rightarrow> engine \<Rightarrow> nat \<Rightarrow> bool" where
  "bounded_ok b s n \<longleftrightarrow> engine_ok b s \<and> int (length (en_queue s)) \<le> hr_maxPendingEvents (hb_runtime b) \<and>
     numbered (flow s) n"

definition bridge_inv :: "HookBridgeConfig \<Rightarrow> bridge \<Rightarrow> bool" where
  "bridge_inv b m \<longleftrightarrow>
     (if 1 \<le> hr_maxPendingEvents (hb_runtime b) then bounded_ok b (br_engine m) (br_nextTaskId m) else True)"

lemma numbered_fresh: "numbered ids n \<Longrightarrow> task_id n \<notin> set ids"
  by (fastforce simp: numbered_def task_id_inj)

lemma numbered_Suc: "numbered ids n \<Longrightarrow> numbered ids (Suc n)"
  unfolding numbered_def using less_SucI by blast

lemma numbered_snoc:
  assumes "numbered ids n"
  shows "numbered (ids @ [task_id n]) (Suc n)"
proof -
  obtain ns where "ids = map task_id ns" "sorted_wrt (<) ns" "\<forall>i \<in> set ns. i < n"
    using assms by (auto simp: numbered_def)
  then show ?thesis
    unfolding numbered_def by (intro exI [of _ "ns @ [n]"]) (auto simp: sorted_wrt_append)
qed

lemma enqueue_one_ok:
  assumes "1 \<le> hr_maxPendingEvents (hb_runtime b)" and "bounded_ok b (fst s) (snd s)"
  shows "bounded_ok b (fst (enqueue_one h b now ev ra s)) (snd (enqueue_one h b now ev ra s))"
proof -
  have id: "tk_taskId (new_task (snd s) now ev ra) = task_id (snd s)" "tk_coalesceKey (new_task (snd s) now ev ra) = None"
    by (simp_all add: new_task_def)
  have fresh: "tk_taskId (new_task (snd s) now ev ra) \<notin> set (flow (fst s))"
    using assms(2) numbered_fresh by (auto simp: bounded_ok_def id)
  have len: "int (length (en_queue (fst s))) \<le> hr_maxPendingEvents (hb_runtime b)" and ok: "engine_ok b (fst s)"
    using assms(2) by (simp_all add: bounded_ok_def)
  from enqueue_ok [OF ok assms(1) len fresh id(2), of h now] assms(2) show ?thesis
    by (auto simp: bounded_ok_def enqueue_one_def id numbered_Suc numbered_snoc)
qed

lemma enqueue_all_ok:
  assumes "1 \<le> hr_maxPendingEvents (hb_runtime b)"
  shows "bounded_ok b (fst s) (snd s) \<Longrightarrow>
    bounded_ok b (fst (fold (enqueue_one h b now ev) tasks s)) (snd (fold (enqueue_one h b now ev) tasks s))"
  by (induction tasks arbitrary: s) (auto simp: enqueue_one_ok [OF assms])

lemma bridge_inv_step: "bridge_inv b m \<Longrightarrow> bridge_inv b (bridge_step h b a m)"
proof (cases "1 \<le> hr_maxPendingEvents (hb_runtime b)")
  case cap: True
  assume "bridge_inv b m"
  then have m: "bounded_ok b (br_engine m) (br_nextTaskId m)" using cap by (simp add: bridge_inv_def)
  then have ok: "engine_ok b (br_engine m)"
      and len: "length (en_queue (br_engine m)) \<le> nat (hr_maxPendingEvents (hb_runtime b))"
    by (simp_all add: bounded_ok_def nat_le_iff le_nat_iff)
  show ?thesis
  proof (cases a)
    case (BridgeOnEvent now ev)
    obtain tasks g where t: "onEvent h b now ev (br_guard m) = (tasks, g)" by (metis surj_pair)
    obtain e n where f: "fold (enqueue_one h b now ev) tasks (br_engine m, br_nextTaskId m) = (e, n)"
      by (metis surj_pair)
    from enqueue_all_ok [OF cap, of "(br_engine m, br_nextTaskId m)" h now ev tasks] m f
    have "bounded_ok b e n" by simp
    with BridgeOnEvent t f cap show ?thesis by (simp add: bridge_inv_def)
  next
    case (Settled now dur tid result)
    with settled_ok [OF ok len, of now dur tid result] m cap show ?thesis
      by (auto simp: bridge_inv_def bounded_ok_def le_nat_iff)
  next
    case (BridgeStop now)
    with stop_ok [OF ok, of now] m cap show ?thesis
      by (auto simp: bridge_inv_def bounded_ok_def)
  qed
next
  case False
  then show ?thesis by (simp add: bridge_inv_def)
qed

interpretation bridge_machine: machine "bridge_step h b" "bridge_inv b" for h b
  by unfold_locales (rule bridge_inv_step)

lemma new_bridge_inv: "bridge_inv b new_bridge"
  by (simp add: bridge_inv_def bounded_ok_def engine_ok_def base_ok_def new_bridge_def new_engine_def
      flow_def numbered_def)

lemma bridge_run_ok:
  assumes "1 \<le> hr_maxPendingEvents (hb_runtime b)"
  shows "bounded_ok b (br_engine (fold (bridge_step h b) ops new_bridge)) (br_nextTaskId (fold (bridge_step h b) ops new_bridge))"
  using bridge_machine.inv_run [OF new_bridge_inv, of b h ops] assms by (simp add: bridge_inv_def)

section \<open>Lemmas: starts, ends and stops\<close>

text \<open>
  The log seen as an account: which actions were started and ended, and how many calls of
  \<open>stop\<close> were let go.
\<close>

definition ended :: "engine_log list \<Rightarrow> string list" where
  "ended l = concat (map (\<lambda>x. case x of Finished t ok \<Rightarrow> [t] | _ \<Rightarrow> []) l)"

definition released :: "engine_log list \<Rightarrow> nat" where
  "released l = sum_list (map (\<lambda>x. case x of DrainResolved n \<Rightarrow> n | _ \<Rightarrow> 0) l)"

lemma ended_simps [simp]:
  "ended [] = []" "ended (l @ l2) = ended l @ ended l2"
  "ended (x # l) = (case x of Finished t ok \<Rightarrow> [t] | _ \<Rightarrow> []) @ ended l"
  by (simp_all add: ended_def)

lemma released_simps [simp]:
  "released [] = 0" "released (l @ l2) = released l + released l2"
  "released (x # l) = (case x of DrainResolved n \<Rightarrow> n | _ \<Rightarrow> 0) + released l"
  by (simp_all add: released_def)

definition account :: "engine \<Rightarrow> string list \<times> string list \<times> string list \<times> nat \<times> nat" where
  "account s = (started (en_log s), ended (en_log s), en_workers s, released (en_log s), en_drainResolvers s)"

definition uncounted :: "engine_log \<Rightarrow> bool" where
  "uncounted x \<longleftrightarrow> (case x of Started t \<Rightarrow> False | Finished t ok \<Rightarrow> False | DrainResolved n \<Rightarrow> False | _ \<Rightarrow> True)"

lemma uncounted_simps [simp]:
  "uncounted (TimeoutWarning t)" "uncounted (SlowWarning t)" "uncounted (Coalesced t)" "uncounted (DroppedTask t p)"
  "uncounted (HighWatermark n)" "uncounted BackpressureActive" "uncounted BackpressureRecovered"
  "uncounted FailureRateAlert" "uncounted FailureRateRecovered"
  by (simp_all add: uncounted_def)

lemma account_log [simp]: "uncounted x \<Longrightarrow> account (log_engine x s) = account s"
  by (cases x) (simp_all add: account_def log_engine_def uncounted_def)

lemma account_fields [simp]:
  "account (s\<lparr>en_tasks := a\<rparr>) = account s" "account (s\<lparr>en_queue := q\<rparr>) = account s"
  "account (s\<lparr>en_queuedTaskById := m\<rparr>) = account s" "account (s\<lparr>en_queuedTaskIdByCoalesceKey := c\<rparr>) = account s"
  "account (s\<lparr>en_highWatermarkActive := h\<rparr>) = account s" "account (s\<lparr>en_outcomes := oc\<rparr>) = account s"
  "account (s\<lparr>en_runningWorkers := r\<rparr>) = account s" "account (s\<lparr>en_queueFullSinceMs := f\<rparr>) = account s"
  "account (s\<lparr>en_backpressureActive := b\<rparr>) = account s" "account (s\<lparr>en_failureRateAlertActive := b\<rparr>) = account s"
  by (simp_all add: account_def)

lemma account_watermarks [simp]: "account (fold (check_watermark q) ts s) = account s"
  by (induction ts arbitrary: s) (auto simp: check_watermark_def)

lemma account_telemetry [simp]:
  "account (evaluateQueuePressure b now s) = account s" "account (evaluateFailureRate b s) = account s"
  "account (recordOutcome b now ok s) = account s" "account (forget_coalesce t s) = account s"
  by (simp_all add: evaluateQueuePressure_def evaluateFailureRate_def recordOutcome_def forget_coalesce_def Let_def
      split: option.splits)

lemma account_drop_head [simp]: "account (drop_head s) = account s"
  by (simp add: drop_head_def Let_def split: list.splits option.splits)

lemma account_push [simp]: "account (push_task t s) = account s"
  by (simp add: push_task_def Let_def split: option.splits)

lemma account_coalesce: "tryCoalesceTask h now task s = (merged, task1, s1) \<Longrightarrow> account s1 = account s"
  by (erule tryCoalesce_cases) auto

lemma account_worker_take:
  "en_queue s = tid # rest \<Longrightarrow> account (worker_take b now s) =
     (started (en_log s) @ [tid], ended (en_log s), en_workers s @ [tid], released (en_log s), en_drainResolvers s)"
proof -
  assume q: "en_queue s = tid # rest"
  have "account (evaluateQueuePressure b now (unlink_head tid rest s)) = account s"
    by (simp add: unlink_head_def Let_def split: option.splits)
  then show ?thesis unfolding worker_take_unlink [OF q] by (simp add: account_def Let_def log_engine_def)
qed

text \<open>
  The actions started are those that ended and those that run, and \<open>n\<close> calls of
  \<open>stop\<close> were let go or wait; a step lets a call go only when it leaves nothing queued and
  nothing running.
\<close>

definition balanced :: "engine \<Rightarrow> nat \<Rightarrow> bool" where
  "balanced s n \<longleftrightarrow> mset (started (en_log s)) = mset (ended (en_log s)) + mset (en_workers s) \<and>
     released (en_log s) + en_drainResolvers s = n"

definition idle_release :: "engine \<Rightarrow> engine \<Rightarrow> bool" where
  "idle_release s s1 \<longleftrightarrow> released (en_log s1) \<noteq> released (en_log s) \<longrightarrow> en_queue s1 = [] \<and> en_runningWorkers s1 = 0"

lemma balanced_account: "account s1 = account s \<Longrightarrow> balanced s1 n = balanced s n"
  by (simp add: account_def balanced_def)

lemma idle_account: "account s1 = account s \<Longrightarrow> idle_release s s1"
  by (simp add: account_def idle_release_def)

lemma balanced_worker_take: "balanced s n \<Longrightarrow> balanced (worker_take b now s) n"
proof (cases "en_queue s")
  case Nil
  then show "balanced s n \<Longrightarrow> ?thesis" by (simp add: worker_take_def)
next
  case (Cons tid rest)
  from account_worker_take [OF this, of b now] show "balanced s n \<Longrightarrow> ?thesis"
    by (simp add: account_def balanced_def)
qed

lemma released_worker_take [simp]: "released (en_log (worker_take b now s)) = released (en_log s)"
proof (cases "en_queue s")
  case (Cons tid rest)
  from account_worker_take [OF this, of b now] show ?thesis by (simp add: account_def)
qed (simp add: worker_take_def)

lemma running_worker_take [simp]: "en_runningWorkers (worker_take b now s) = en_runningWorkers s"
proof (cases "en_queue s")
  case (Cons tid rest)
  from core_worker_take [OF this, of b now] show ?thesis by (simp add: core_def)
qed (simp add: worker_take_def)

lemma pump_account:
  "(balanced s n \<longrightarrow> balanced (pumpWorkers b now s) n) \<and> idle_release s (pumpWorkers b now s) \<and>
   (en_queue s \<noteq> [] \<or> en_runningWorkers s \<noteq> 0 \<longrightarrow>
     released (en_log (pumpWorkers b now s)) = released (en_log s))"
proof (induction b now s rule: pumpWorkers.induct)
  case (1 b now s)
  show ?case
  proof (cases "int (en_runningWorkers s) < hr_concurrency (hb_runtime b) \<and> en_queue s \<noteq> []")
    case True
    let ?s = "s\<lparr>en_runningWorkers := Suc (en_runningWorkers s)\<rparr>"
    have p: "pumpWorkers b now s = pumpWorkers b now (worker_take b now ?s)"
      using True by (subst pumpWorkers.simps) simp
    have "balanced ?s n = balanced s n" by (rule balanced_account) simp
    then show ?thesis
      using "1.IH" [OF True] balanced_worker_take [of ?s n b now] unfolding p
      by (simp add: idle_release_def)
  next
    case False
    then have p: "pumpWorkers b now s = resolveDrainIfIdle s" by (subst pumpWorkers.simps) (auto simp only: if_False)
    show ?thesis unfolding p
      by (simp add: resolveDrainIfIdle_def balanced_def idle_release_def log_engine_def)
  qed
qed

lemma settled_account:
  assumes "balanced s n"
  shows "balanced (task_settled b now dur tid result s) n \<and> idle_release s (task_settled b now dur tid result s)"
proof (cases "tid \<in> set (en_workers s)")
  case False
  then show ?thesis using assms by (simp add: task_settled_def idle_release_def)
next
  case True
  define success where "success = (case result of Inl (_::string) \<Rightarrow> False | Inr (_::unit) \<Rightarrow> True)"
  define s1 where "s1 = log_engine (Finished tid success) (s\<lparr>en_workers := remove1 tid (en_workers s)\<rparr>)"
  define s2 where "s2 = (case result of
      Inl msg \<Rightarrow> if js_includes (js_lower msg) ''timed out'' then log_engine (TimeoutWarning tid) s1 else s1
    | Inr _ \<Rightarrow> s1)"
  define s4 where "s4 = evaluateFailureRate b (recordOutcome b now success
      (if dur \<ge> ht_slowActionMs (hb_telemetry b) then log_engine (SlowWarning tid) s2 else s2))"
  have a: "account s4 = account s1" by (simp add: s4_def s2_def split: sum.splits)
  have "balanced s1 n"
    using assms True by (simp add: balanced_def s1_def log_engine_def)
  then have b4: "balanced s4 n" using balanced_account [OF a] by simp
  have r4: "released (en_log s4) = released (en_log s)"
    using a by (simp add: account_def s1_def log_engine_def)
  have d: "task_settled b now dur tid result s = (if en_queue s4 \<noteq> [] then worker_take b now s4
      else pumpWorkers b now (s4\<lparr>en_runningWorkers := en_runningWorkers s4 - 1\<rparr>))"
    unfolding s4_def s2_def s1_def success_def using True by (simp add: task_settled_def Let_def)
  show ?thesis
  proof (cases "en_queue s4 = []")
    case True
    let ?s = "s4\<lparr>en_runningWorkers := en_runningWorkers s4 - 1\<rparr>"
    have "balanced ?s n = balanced s4 n" by (rule balanced_account) simp
    with pump_account [of ?s n b now] b4 True d r4 show ?thesis by (simp add: idle_release_def)
  next
    case False
    with d b4 r4 show ?thesis by (simp add: idle_release_def balanced_worker_take)
  qed
qed

lemma enqueue_account:
  "(balanced s n \<longrightarrow> balanced (enqueueTask h b now task s) n) \<and>
   released (en_log (enqueueTask h b now task s)) = released (en_log s)"
proof -
  obtain merged task1 s1 where t: "tryCoalesceTask h now task s = (merged, task1, s1)" by (metis surj_pair)
  let ?full = "int (length (en_queue s1)) \<ge> hr_maxPendingEvents (hb_runtime b)"
  let ?s = "evaluateQueuePressure b now (push_task task1 (if ?full then drop_head s1 else s1))"
  let ?d = "evaluateQueuePressure b now (log_engine (DroppedTask (tk_taskId task1) ''drop_newest'') s1)"
  have a: "account s1 = account s" "account ?s = account s" "account ?d = account s"
    using account_coalesce [OF t] by simp_all
  have "en_queue ?s \<noteq> []" by simp
  with pump_account [of ?s n b now] a(2)
  have p: "(balanced s n \<longrightarrow> balanced (pumpWorkers b now ?s) n) \<and>
      released (en_log (pumpWorkers b now ?s)) = released (en_log s)"
    using balanced_account [OF a(2), of n] by (auto simp: account_def)
  have "enqueueTask h b now task s = (if merged then s1
      else if ?full \<and> hr_dropPolicy (hb_runtime b) = ''drop_newest'' then ?d else pumpWorkers b now ?s)"
    using t by (simp add: enqueueTask_def Let_def)
  then show ?thesis
    using p balanced_account [OF a(1), of n] balanced_account [OF a(3), of n] a by (auto simp: account_def)
qed

lemma stop_account:
  assumes "balanced s n"
  shows "balanced (stop_engine b now s) (Suc n) \<and> idle_release s (stop_engine b now s)"
  using assms pump_account [of s n b now]
  by (auto simp: stop_engine_def Let_def balanced_def idle_release_def log_engine_def)

fun stop_calls :: "bridge_op list \<Rightarrow> nat" where
  "stop_calls [] = 0"
| "stop_calls (BridgeStop now # ops) = Suc (stop_calls ops)"
| "stop_calls (_ # ops) = stop_calls ops"

lemma stop_calls_append [simp]: "stop_calls (xs @ ys) = stop_calls xs + stop_calls ys"
  by (induction xs rule: stop_calls.induct) simp_all

lemma step_account:
  assumes "balanced (br_engine m) n"
  shows "balanced (br_engine (bridge_step h b a m)) (n + stop_calls [a]) \<and>
     idle_release (br_engine m) (br_engine (bridge_step h b a m))"
proof (cases a)
  case (BridgeOnEvent now ev)
  obtain tasks g where t: "onEvent h b now ev (br_guard m) = (tasks, g)" by (metis surj_pair)
  obtain e k where f: "fold (enqueue_one h b now ev) tasks (br_engine m, br_nextTaskId m) = (e, k)"
    by (metis surj_pair)
  have "(balanced (fst s) n \<longrightarrow> balanced (fst (fold (enqueue_one h b now ev) tasks s)) n) \<and>
      released (en_log (fst (fold (enqueue_one h b now ev) tasks s))) = released (en_log (fst s))" for s
    by (induction tasks arbitrary: s) (simp_all add: enqueue_one_def enqueue_account)
  from this [of "(br_engine m, br_nextTaskId m)"] BridgeOnEvent t f assms show ?thesis
    by (simp add: idle_release_def)
next
  case (Settled now dur tid result)
  with settled_account [OF assms] show ?thesis by simp
next
  case (BridgeStop now)
  with stop_account [OF assms] show ?thesis by simp
qed

lemma run_account: "balanced (br_engine (fold (bridge_step h b) ops new_bridge)) (stop_calls ops)"
proof (induction ops rule: rev_induct)
  case Nil
  show ?case by (simp add: balanced_def new_bridge_def new_engine_def)
next
  case (snoc a ops)
  from step_account [OF snoc, of h b a] show ?case by simp
qed

text \<open>
  C9. The worker pool, over any sequence of events, action ends and stops: the queue stays
  within \<open>maxPendingEvents\<close>, the counter of running workers is the number of
  actions in progress and never exceeds the concurrency, a task waits only while every
  worker is busy, and the actions started are those that ended and those in progress.  Every call
  of \<open>stop\<close> was let go once or still waits, one waits only while an action runs, and the step
  that lets calls go leaves nothing queued and nothing in progress.
\<close>

theorem engine_work_conserving:
  assumes "1 \<le> hr_maxPendingEvents (hb_runtime b)" and "1 \<le> hr_concurrency (hb_runtime b)"
  shows "let m = fold (bridge_step h b) ops new_bridge; s = br_engine m; s1 = br_engine (bridge_step h b a m) in
     int (length (en_queue s)) \<le> hr_maxPendingEvents (hb_runtime b) \<and>
     en_runningWorkers s = length (en_workers s) \<and>
     int (length (en_workers s)) \<le> hr_concurrency (hb_runtime b) \<and>
     (en_queue s \<noteq> [] \<longrightarrow> int (length (en_workers s)) = hr_concurrency (hb_runtime b)) \<and>
     mset (started (en_log s)) = mset (ended (en_log s)) + mset (en_workers s) \<and>
     (en_drainResolvers s \<noteq> 0 \<longrightarrow> en_workers s \<noteq> []) \<and>
     released (en_log s) + en_drainResolvers s = stop_calls ops \<and>
     (released (en_log s1) \<noteq> released (en_log s) \<longrightarrow> en_queue s1 = [] \<and> en_workers s1 = [])"
proof -
  define m where "m = fold (bridge_step h b) ops new_bridge"
  define s where "s = br_engine m"
  define s1 where "s1 = br_engine (bridge_step h b a m)"
  have ok: "bounded_ok b s (br_nextTaskId m)" unfolding s_def m_def by (rule bridge_run_ok [OF assms(1)])
  have "s1 = br_engine (fold (bridge_step h b) (ops @ [a]) new_bridge)" by (simp add: s1_def m_def)
  then have ok1: "en_runningWorkers s1 = length (en_workers s1)"
    using bridge_run_ok [OF assms(1), of h "ops @ [a]"] by (simp add: bounded_ok_def engine_ok_def base_ok_def)
  have acc: "balanced s (stop_calls ops)" unfolding s_def m_def by (rule run_account)
  have rel: "idle_release s s1"
    using step_account [OF acc [unfolded s_def], of h b a] by (simp add: s1_def s_def)
  from ok have "en_runningWorkers s = length (en_workers s)" "int (length (en_workers s)) \<le> hr_concurrency (hb_runtime b)"
    using assms(2) by (simp_all add: bounded_ok_def engine_ok_def base_ok_def)
  moreover have "en_queue s \<noteq> [] \<Longrightarrow> int (en_runningWorkers s) \<ge> hr_concurrency (hb_runtime b)"
      "en_runningWorkers s = 0 \<Longrightarrow> en_queue s = [] \<Longrightarrow> en_drainResolvers s = 0"
      "int (length (en_queue s)) \<le> hr_maxPendingEvents (hb_runtime b)"
    using ok by (simp_all add: bounded_ok_def engine_ok_def)
  moreover have "mset (started (en_log s)) = mset (ended (en_log s)) + mset (en_workers s)"
      "released (en_log s) + en_drainResolvers s = stop_calls ops"
      "released (en_log s1) \<noteq> released (en_log s) \<Longrightarrow> en_queue s1 = [] \<and> en_workers s1 = []"
    using acc rel ok1 by (simp_all add: balanced_def idle_release_def)
  ultimately show ?thesis
    unfolding Let_def m_def [symmetric] s_def [symmetric] s1_def [symmetric] using assms(2) by fastforce
qed

text \<open>
  C11. Tasks leave the queue in the order of their numbers, each at most once: the tasks
  started or dropped so far, followed by those still queued, have strictly increasing
  numbers, so no action is started twice and none overtakes an older one.
\<close>

theorem tasks_start_in_order_once:
  assumes "1 \<le> hr_maxPendingEvents (hb_runtime b)"
  shows "\<exists>ns. taken (en_log (br_engine (fold (bridge_step h b) ops new_bridge))) @
       en_queue (br_engine (fold (bridge_step h b) ops new_bridge)) = map task_id ns \<and> sorted_wrt (<) ns"
  using bridge_run_ok [OF assms, of h ops] by (auto simp: bounded_ok_def numbered_def flow_def)

lemma percent_29_of_100: "percent_floor 29 100 = 28"
  by code_simp

definition busy_bridge :: HookBridgeConfig where
  "busy_bridge = sample_bridge\<lparr>hb_runtime := \<lparr> hr_maxPendingEvents = 2, hr_concurrency = 1, hr_dropPolicy = ''drop_oldest'' \<rparr>\<rparr>"

definition busy_ops :: "bridge_op list" where
  "busy_ops = map (\<lambda>t. BridgeOnEvent t sample_event) [1, 2, 3, 4] @ [Settled 9 5 ''task-1'' (Inr ())]"

theorem engine_work_conserving_witness:
  "int (length (en_workers (br_engine (fold (bridge_step sample_host busy_bridge) busy_ops new_bridge)))) = 1"
proof -
  have "en_queue (br_engine (fold (bridge_step sample_host busy_bridge) busy_ops new_bridge)) \<noteq> []"
    by code_simp
  moreover have "1 \<le> hr_maxPendingEvents (hb_runtime busy_bridge)" "hr_concurrency (hb_runtime busy_bridge) = 1"
    by (simp_all add: busy_bridge_def)
  ultimately show ?thesis
    using engine_work_conserving [of busy_bridge sample_host busy_ops] by (simp add: Let_def)
qed

theorem tasks_start_in_order_once_witness:
  "\<exists>ns. taken (en_log (br_engine (fold (bridge_step sample_host busy_bridge) busy_ops new_bridge))) @
       en_queue (br_engine (fold (bridge_step sample_host busy_bridge) busy_ops new_bridge)) = map task_id ns \<and>
     sorted_wrt (<) ns"
  by (rule tasks_start_in_order_once) (simp add: busy_bridge_def)

end
