(* ===== verification/Webhook.thy ===== *)
theory Webhook imports Protocol begin

text \<open>
  Webhook delivery, \<open>src/broadcast/webhook.ts\<close>: the checks of the URL, the request that is sent,
  and the retry loop with its exponential backoff. The answers of the HTTP client are a
  function of the attempt number; the waits between attempts are returned with the result.
  Delays are exact rationals; the duration of a delivery is not modelled.
\<close>

record DeliveryResult =
  dr_success :: bool
  dr_webhookUrl :: string
  dr_attempts :: nat
  dr_error :: "string option"
  dr_responseStatus :: "int option"

datatype http_answer =
    Answered int
  | Failed string "int option"

record http_request =
  hq_method :: string
  hq_url :: string
  hq_data :: jsval
  hq_headers :: "(string \<times> string) list"
  hq_timeout :: int

definition webhook_request ::
  "event \<Rightarrow> WebhookConfig \<Rightarrow> string \<Rightarrow> int \<Rightarrow> string \<Rightarrow> http_request" where
  "webhook_request ev webhook parsedUrl timeoutMs correlationIdHeader =
     (let headers0 = fold (\<lambda>(k, v). mput k v) (default_to [] (wh_headers webhook))
            [(''Content-Type'', ''application/json''), (''User-Agent'', ''OpenClaw-Event-Plugin/1.3.0'')];
          headers1 = (if truthy_str (ostr ev ''correlationId'')
            then mput correlationIdHeader (default_to [] (ostr ev ''correlationId'')) headers0 else headers0);
          headers = (if truthy_str (wh_authToken webhook)
            then mput ''Authorization'' (''Bearer '' @ default_to [] (wh_authToken webhook)) headers1 else headers1)
      in \<lparr> hq_method = default_to ''POST'' (wh_method webhook), hq_url = parsedUrl,
           hq_data = (if wh_includeFullPayload webhook \<noteq> Some False then JObj ev
             else JObj [(''type'', oget ev ''type''), (''timestamp'', oget ev ''timestamp'')]),
           hq_headers = headers, hq_timeout = timeoutMs \<rparr>)"

text \<open>A client error other than 429 is final.\<close>

definition no_retry :: "int option \<Rightarrow> bool" where
  "no_retry status = (case status of None \<Rightarrow> False | Some s \<Rightarrow> 400 \<le> s \<and> s < 500 \<and> s \<noteq> 429)"

text \<open>
  The loop after \<open>attempts\<close> attempts with the delay \<open>delayMs\<close> and the last error and status;
  \<open>answer n\<close> is what the \<open>n\<close>-th attempt gets.
\<close>

function send_loop ::
  "(nat \<Rightarrow> http_answer) \<Rightarrow> RetryConfig \<Rightarrow> string \<Rightarrow> string \<Rightarrow> nat \<Rightarrow> rat \<Rightarrow> string option \<Rightarrow> int option \<Rightarrow>
   DeliveryResult \<times> rat list" where
  "send_loop answer retry rawUrl webhookUrl attempts delayMs lastError lastStatus =
     (if int attempts < rt_maxAttempts retry then
        let n = Suc attempts in
        (case answer n of
           Answered status \<Rightarrow>
             (\<lparr> dr_success = True, dr_webhookUrl = rawUrl, dr_attempts = n, dr_error = None,
                dr_responseStatus = Some status \<rparr>, [])
         | Failed message status \<Rightarrow>
             (if no_retry status
              then (\<lparr> dr_success = False, dr_webhookUrl = webhookUrl, dr_attempts = n,
                      dr_error = Some message, dr_responseStatus = status \<rparr>, [])
              else if int n < rt_maxAttempts retry
              then (case send_loop answer retry rawUrl webhookUrl n
                       (min (delayMs * rt_backoffMultiplier retry) (rt_maxDelayMs retry)) (Some message) status of
                      (r, waits) \<Rightarrow> (r, delayMs # waits))
              else send_loop answer retry rawUrl webhookUrl n delayMs (Some message) status))
      else (\<lparr> dr_success = False, dr_webhookUrl = webhookUrl, dr_attempts = attempts,
              dr_error = lastError, dr_responseStatus = lastStatus \<rparr>, []))"
  by pat_completeness auto

termination
  by (relation "measure (\<lambda>(answer, retry, r, w, attempts, d, e, s). nat (rt_maxAttempts retry - int attempts))") auto

declare send_loop.simps [simp del]

text \<open>
  \<open>h_url\<close> gives the protocol and the host of a URL, or none when it cannot be parsed; \<open>hrefOf\<close> is
  the \<open>toString\<close> of a parsed URL.  \<open>client n r\<close> is what the \<open>n\<close>-th call of the HTTP client with the
  request \<open>r\<close> gives.
\<close>

definition sendToWebhook ::
  "host \<Rightarrow> (string \<Rightarrow> string) \<Rightarrow> (nat \<Rightarrow> http_request \<Rightarrow> http_answer) \<Rightarrow> event \<Rightarrow> WebhookConfig \<Rightarrow>
   RetryConfig \<Rightarrow> int \<Rightarrow> string \<Rightarrow> DeliveryResult \<times> rat list" where
  "sendToWebhook h hrefOf client ev webhook retry timeoutMs correlationIdHeader =
     (let webhookUrl = js_trim (wh_url webhook);
          refused = (\<lambda>msg. (\<lparr> dr_success = False, dr_webhookUrl = webhookUrl, dr_attempts = 0,
             dr_error = Some msg, dr_responseStatus = None \<rparr>, [])) in
      if webhookUrl = [] then refused ''Invalid webhook URL''
      else (case h_url h webhookUrl of
              None \<Rightarrow> refused ''Invalid webhook URL format''
            | Some (protocol, hostname) \<Rightarrow>
                if protocol \<noteq> ''http:'' \<and> protocol \<noteq> ''https:''
                then refused ''Only HTTP and HTTPS webhook URLs are supported''
                else send_loop
                  (\<lambda>n. client n (webhook_request ev webhook (hrefOf webhookUrl) timeoutMs correlationIdHeader))
                  retry (wh_url webhook) webhookUrl 0 (rt_initialDelayMs retry) None None))"

text \<open>All webhooks are called in parallel, each with its own client; a result per webhook, in their order.\<close>

definition broadcastToWebhooks ::
  "host \<Rightarrow> (string \<Rightarrow> string) \<Rightarrow> (nat \<Rightarrow> nat \<Rightarrow> http_request \<Rightarrow> http_answer) \<Rightarrow> event \<Rightarrow> WebhookConfig list \<Rightarrow>
   RetryConfig \<Rightarrow> int \<Rightarrow> string \<Rightarrow> DeliveryResult list" where
  "broadcastToWebhooks h hrefOf clients ev webhooks retry timeoutMs correlationIdHeader =
     (if webhooks = [] then []
      else map (\<lambda>(i, w). fst (sendToWebhook h hrefOf (clients i) ev w retry timeoutMs correlationIdHeader))
             (zip [0..<length webhooks] webhooks))"

section \<open>Lemmas\<close>

definition retryable :: "http_answer \<Rightarrow> bool" where
  "retryable a = (case a of Answered s \<Rightarrow> False | Failed msg status \<Rightarrow> \<not> no_retry status)"

definition answered :: "http_answer \<Rightarrow> bool" where
  "answered a = (case a of Answered s \<Rightarrow> True | Failed msg status \<Rightarrow> False)"

text \<open>The wait before attempt \<open>k + 2\<close> counted from a loop that starts with delay \<open>d\<close>.\<close>

fun nth_delay :: "RetryConfig \<Rightarrow> rat \<Rightarrow> nat \<Rightarrow> rat" where
  "nth_delay retry d 0 = d"
| "nth_delay retry d (Suc k) = nth_delay retry (min (d * rt_backoffMultiplier retry) (rt_maxDelayMs retry)) k"

lemma send_loop_spec:
  assumes "send_loop answer retry raw url a d e s = (r, waits)" and "int a \<le> rt_maxAttempts retry"
  shows "a \<le> dr_attempts r \<and> int (dr_attempts r) \<le> rt_maxAttempts retry \<and>
    (\<forall>k. a < k \<and> k < dr_attempts r \<longrightarrow> retryable (answer k)) \<and>
    (dr_success r \<longleftrightarrow> a < dr_attempts r \<and> answered (answer (dr_attempts r))) \<and>
    (\<not> dr_success r \<longrightarrow> int (dr_attempts r) = rt_maxAttempts retry \<or>
       (a < dr_attempts r \<and> \<not> retryable (answer (dr_attempts r)))) \<and>
    waits = map (nth_delay retry d) [0..<dr_attempts r - a - 1]"
  using assms
proof (induction answer retry raw url a d e s arbitrary: r waits rule: send_loop.induct)
  case (1 answer retry raw url a d e s)
  show ?case
  proof (cases "int a < rt_maxAttempts retry")
    case False
    with "1.prems" show ?thesis by (auto simp: send_loop.simps [of _ _ _ _ a])
  next
    case more: True
    show ?thesis
    proof (cases "answer (Suc a)")
      case (Answered st)
      with more "1.prems" show ?thesis
        by (auto simp: send_loop.simps [of _ _ _ _ a] Let_def answered_def)
    next
      case (Failed msg st)
      show ?thesis
      proof (cases "no_retry st")
        case True
        with Failed more "1.prems" show ?thesis
          by (auto simp: send_loop.simps [of _ _ _ _ a] Let_def answered_def retryable_def)
      next
        case again: False
        have rt: "retryable (answer (Suc a))" and na: "\<not> answered (answer (Suc a))"
          using Failed again by (simp_all add: retryable_def answered_def)
        show ?thesis
        proof (cases "int (Suc a) < rt_maxAttempts retry")
          case True
          let ?d = "min (d * rt_backoffMultiplier retry) (rt_maxDelayMs retry)"
          obtain r2 w2 where l: "send_loop answer retry raw url (Suc a) ?d (Some msg) st = (r2, w2)"
            by (metis surj_pair)
          have res: "r = r2" "waits = d # w2"
            using "1.prems"(1) more Failed again True l by (simp_all add: send_loop.simps [of _ _ _ _ a] Let_def)
          have ih: "Suc a \<le> dr_attempts r2 \<and> int (dr_attempts r2) \<le> rt_maxAttempts retry \<and>
              (\<forall>k. Suc a < k \<and> k < dr_attempts r2 \<longrightarrow> retryable (answer k)) \<and>
              (dr_success r2 \<longleftrightarrow> Suc a < dr_attempts r2 \<and> answered (answer (dr_attempts r2))) \<and>
              (\<not> dr_success r2 \<longrightarrow> int (dr_attempts r2) = rt_maxAttempts retry \<or>
                 (Suc a < dr_attempts r2 \<and> \<not> retryable (answer (dr_attempts r2)))) \<and>
              w2 = map (nth_delay retry ?d) [0..<dr_attempts r2 - Suc a - 1]"
            using "1.IH"(1) [OF more refl Failed again True l] True by simp
          have gt: "Suc a < dr_attempts r2"
            using ih True by (cases "dr_success r2") auto
          have "waits = map (nth_delay retry d) [0..<dr_attempts r2 - a - 1]"
          proof -
            have "dr_attempts r2 - a - 1 = Suc (dr_attempts r2 - Suc a - 1)" using gt by simp
            then show ?thesis using ih res(2)
              by (simp add: upt_conv_Cons map_Suc_upt [symmetric] del: upt_Suc)
          qed
          moreover have "\<forall>k. a < k \<and> k < dr_attempts r2 \<longrightarrow> retryable (answer k)"
          proof (intro allI impI)
            fix k assume k: "a < k \<and> k < dr_attempts r2"
            show "retryable (answer k)"
            proof (cases "k = Suc a")
              case False
              with k have "Suc a < k" by simp
              with k ih show ?thesis by blast
            qed (simp add: rt)
          qed
          ultimately show ?thesis using ih gt res(1) by auto
        next
          case False
          then have last: "int (Suc a) = rt_maxAttempts retry" using more by simp
          have "r = \<lparr> dr_success = False, dr_webhookUrl = url, dr_attempts = Suc a, dr_error = Some msg,
              dr_responseStatus = st \<rparr> \<and> waits = []"
            using "1.prems"(1) more Failed again False
            by (simp add: send_loop.simps [of _ _ _ _ a] send_loop.simps [of _ _ _ _ "Suc a"] Let_def)
          with last na show ?thesis by auto
        qed
      qed
    qed
  qed
qed

lemma nth_delay_closed:
  assumes "1 \<le> rt_backoffMultiplier retry" and "0 \<le> d" and "d \<le> rt_maxDelayMs retry"
  shows "nth_delay retry d k = min (d * rt_backoffMultiplier retry ^ k) (rt_maxDelayMs retry)"
  using assms(2,3)
proof (induction k arbitrary: d)
  case 0
  then show ?case by simp
next
  case (Suc k)
  let ?m = "rt_backoffMultiplier retry" and ?M = "rt_maxDelayMs retry"
  have pos: "1 \<le> ?m ^ k" using assms(1) by (rule one_le_power)
  have ih: "nth_delay retry (min (d * ?m) ?M) k = min (min (d * ?m) ?M * ?m ^ k) ?M"
    using Suc.IH [of "min (d * ?m) ?M"] Suc.prems assms(1) by simp
  show ?case
  proof (cases "d * ?m \<le> ?M")
    case True
    then show ?thesis using ih by (simp add: mult.assoc)
  next
    case False
    have "?M \<le> ?M * ?m ^ k" using pos Suc.prems by (simp add: mult_le_cancel_left1)
    moreover have "?M \<le> d * ?m * ?m ^ k"
    proof -
      have "0 \<le> d * ?m" using Suc.prems(1) assms(1) by (intro mult_nonneg_nonneg) simp_all
      then have "d * ?m \<le> d * ?m * ?m ^ k" using mult_left_mono [OF pos, of "d * ?m"] by simp
      with False show ?thesis by linarith
    qed
    ultimately show ?thesis using ih False by (simp add: mult.assoc)
  qed
qed


text \<open>Every wait of a delivery: the first one is the initial delay, the later ones are capped.\<close>

definition backoff_wait :: "RetryConfig \<Rightarrow> nat \<Rightarrow> rat" where
  "backoff_wait retry k = (if k = 0 then rt_initialDelayMs retry
     else min (rt_initialDelayMs retry * rt_backoffMultiplier retry ^ k) (rt_maxDelayMs retry))"

lemma nth_delay_initial:
  assumes "1 \<le> rt_backoffMultiplier retry" and "0 \<le> rt_initialDelayMs retry" and "0 \<le> rt_maxDelayMs retry"
  shows "nth_delay retry (rt_initialDelayMs retry) k = backoff_wait retry k"
proof (cases k)
  case (Suc j)
  let ?m = "rt_backoffMultiplier retry" and ?M = "rt_maxDelayMs retry" and ?d = "rt_initialDelayMs retry"
  have pos: "1 \<le> ?m ^ j" using assms(1) by (rule one_le_power)
  have nn: "0 \<le> ?d * ?m" using assms by (intro mult_nonneg_nonneg) simp_all
  have "nth_delay retry ?d k = min (min (?d * ?m) ?M * ?m ^ j) ?M"
    using nth_delay_closed [OF assms(1), of "min (?d * ?m) ?M" j] assms(3) nn Suc by simp
  also have "\<dots> = min (?d * ?m * ?m ^ j) ?M"
  proof (cases "?d * ?m \<le> ?M")
    case False
    have "?M \<le> ?M * ?m ^ j" using mult_left_mono [OF pos assms(3)] by simp
    moreover have "?d * ?m \<le> ?d * ?m * ?m ^ j" using mult_left_mono [OF pos nn] by simp
    ultimately show ?thesis using False by simp
  qed simp
  finally show ?thesis using Suc by (simp add: backoff_wait_def mult.assoc)
qed (simp add: backoff_wait_def)

lemma send_loop_bounds:
  assumes "send_loop answer retry raw url 0 d None None = (r, waits)" and "0 \<le> rt_maxAttempts retry"
  shows "int (dr_attempts r) \<le> rt_maxAttempts retry"
    and "\<And>k. 0 < k \<Longrightarrow> k < dr_attempts r \<Longrightarrow> retryable (answer k)"
    and "dr_success r \<longleftrightarrow> 0 < dr_attempts r \<and> answered (answer (dr_attempts r))"
    and "\<not> dr_success r \<Longrightarrow> int (dr_attempts r) \<noteq> rt_maxAttempts retry \<Longrightarrow>
      0 < dr_attempts r \<and> \<not> retryable (answer (dr_attempts r))"
    and "waits = map (nth_delay retry d) [0..<dr_attempts r - 1]"
  using send_loop_spec [OF assms(1)] assms(2) by auto

text \<open>
  C35. A delivery to a webhook whose URL is an http or https URL makes at most maxAttempts
  requests; every attempt before the last one failed with a retryable error; it succeeds
  exactly when its last attempt was answered; it fails only when the attempts are used up or
  the last error was a client error other than 429; and its k-th wait is the initial delay
  times the multiplier to the power k, capped by the maximal delay from the second wait on
  (the first wait is the initial delay even when that is above the cap).
\<close>

theorem webhook_retry_policy:
  assumes "js_trim (wh_url webhook) \<noteq> []" and "h_url h (js_trim (wh_url webhook)) = Some (protocol, hostname)"
    and "protocol \<in> {''http:'', ''https:''}"
    and "0 \<le> rt_maxAttempts retry" and "1 \<le> rt_backoffMultiplier retry"
    and "0 \<le> rt_initialDelayMs retry" and "0 \<le> rt_maxDelayMs retry"
    and "sendToWebhook h hrefOf client ev webhook retry timeoutMs hdr = (r, waits)"
    and "answer = (\<lambda>n. client n (webhook_request ev webhook (hrefOf (js_trim (wh_url webhook))) timeoutMs hdr))"
  shows "int (dr_attempts r) \<le> rt_maxAttempts retry \<and>
    (\<forall>k \<in> {1..<dr_attempts r}. retryable (answer k)) \<and>
    dr_success r = (0 < dr_attempts r \<and> answered (answer (dr_attempts r))) \<and>
    (\<not> dr_success r \<longrightarrow> int (dr_attempts r) = rt_maxAttempts retry \<or> \<not> retryable (answer (dr_attempts r))) \<and>
    waits = map (backoff_wait retry) [0..<dr_attempts r - 1]"
proof -
  have l: "send_loop answer retry (wh_url webhook) (js_trim (wh_url webhook)) 0 (rt_initialDelayMs retry) None None
      = (r, waits)"
    using assms(1-3,8) by (auto simp: sendToWebhook_def assms(9) Let_def)
  note b = send_loop_bounds [OF l assms(4)]
  have "waits = map (backoff_wait retry) [0..<dr_attempts r - 1]"
    using b(5) nth_delay_initial [OF assms(5-7)] by simp
  then show ?thesis using b(1,3) b(2) b(4) by (auto intro: b(2))
qed

definition sample_hook :: WebhookConfig where
  "sample_hook = \<lparr> wh_url = '' http://a.b/ '', wh_method = None, wh_headers = None, wh_authToken = Some ''t'',
     wh_includeFullPayload = None \<rparr>"

definition sample_client :: "nat \<Rightarrow> http_request \<Rightarrow> http_answer" where
  "sample_client n rq = (if n = 1 then Failed ''timeout'' None else if n = 2 then Failed ''busy'' (Some 429)
     else Failed ''no'' (Some 404))"

definition web_host :: host where
  "web_host =
     \<lparr> h_url = (\<lambda>u. Some (''http:'', ''a.b'')), h_regex = (\<lambda>r. None), h_locale = code_unit_le,
       h_realpath = (\<lambda>p. Some p), h_resolve = (\<lambda>p. p),
       h_isAbsolute = (\<lambda>p. True), h_readFile = (\<lambda>p. None) \<rparr>"

definition sample_retry :: RetryConfig where
  "sample_retry = \<lparr> rt_maxAttempts = 5, rt_initialDelayMs = 1000, rt_maxDelayMs = 30000, rt_backoffMultiplier = 2 \<rparr>"

lemma sample_delivery:
  "sendToWebhook web_host id sample_client sample_event sample_hook sample_retry 5000 ''X-Id'' =
     (\<lparr> dr_success = False, dr_webhookUrl = ''http://a.b/'', dr_attempts = 3, dr_error = Some ''no'',
        dr_responseStatus = Some 404 \<rparr>, [1000, 2000])"
proof -
  have t: "js_trim (wh_url sample_hook) = ''http://a.b/''" by code_simp
  show ?thesis
    by (simp add: sendToWebhook_def t web_host_def sample_retry_def sample_client_def send_loop.simps Let_def
        no_retry_def)
qed

theorem webhook_retry_policy_witness:
  "case sendToWebhook web_host id sample_client sample_event sample_hook sample_retry 5000 ''X-Id'' of
     (r, waits) \<Rightarrow> int (dr_attempts r) \<le> 5 \<and> dr_attempts r = 3 \<and> waits = map (backoff_wait sample_retry) [0, 1]"
proof -
  have t: "js_trim (wh_url sample_hook) = ''http://a.b/''" by code_simp
  show ?thesis
    unfolding sample_delivery prod.case
    using webhook_retry_policy [of sample_hook web_host "''http:''" "''a.b''" sample_retry id sample_client
        sample_event 5000 "''X-Id''" _ _, OF _ _ _ _ _ _ _ sample_delivery refl]
    by (simp add: t web_host_def sample_retry_def upt_rec)
qed

end
