(* ===== verification/EventQueue.thy ===== *)
theory EventQueue imports Webhook begin

text \<open>
  The webhook event queue, \<open>src/broadcast/queue.ts\<close>: enqueueing, the flush in batches of ten whose
  deliveries complete in any order, the merge of a restored queue, and the chain of writes to
  disk.  The objects in the queue are shared with the running flush, which updates them: the
  queue holds references into a store.  One constructor of \<open>queue_op\<close> is one thing that can
  happen between two turns of the event loop.  The result list of \<open>flush()\<close> and log output are
  left out; \<open>0.8\<close> is the exact fraction.
\<close>

section \<open>State\<close>

record QueuedEvent =
  qe_event :: event
  qe_enqueuedAt :: int
  qe_attempts :: int
  qe_lastError :: "string option"

text \<open>
  A flush: the start of its batch, the webhooks it was started with, the deliveries of the batch
  that are under way (index in the batch and reference), the indices to remove; \<open>fr_saving\<close> when
  it awaits its last write.
\<close>

record flush_run =
  fr_i :: nat
  fr_hooks :: "WebhookConfig list"
  fr_waiting :: "(nat \<times> nat) list"
  fr_indicesToRemove :: "nat list"
  fr_saving :: bool

text \<open>\<open>q_chain\<close> are the snapshots still to be written, with a mark on the one a flush awaits.\<close>

record event_queue =
  q_queue :: "nat list"
  q_objs :: "QueuedEvent list"
  q_config :: QueueConfig
  q_webhooks :: "WebhookConfig list"
  q_retryConfig :: RetryConfig
  q_timeoutMs :: int
  q_correlationIdHeader :: string
  q_isFlushing :: bool
  q_run :: "flush_run option"
  q_timer :: bool
  q_chain :: "(string \<times> bool) list"
  q_disk :: "string option"

definition new_queue :: "QueueConfig \<Rightarrow> WebhookConfig list \<Rightarrow> RetryConfig \<Rightarrow> int \<Rightarrow> string \<Rightarrow> string option \<Rightarrow> event_queue" where
  "new_queue config webhooks retry timeoutMs hdr disk =
     \<lparr> q_queue = [], q_objs = [], q_config = config, q_webhooks = webhooks, q_retryConfig = retry,
       q_timeoutMs = timeoutMs, q_correlationIdHeader = hdr, q_isFlushing = False, q_run = None,
       q_timer = (\<not> qc_persistToDisk config), q_chain = [], q_disk = disk \<rparr>"

section \<open>Persistence\<close>

definition queued_json :: "QueuedEvent \<Rightarrow> jsval" where
  "queued_json it = JObj ([(''event'', JObj (qe_event it)), (''enqueuedAt'', JNum (qe_enqueuedAt it)),
       (''attempts'', JNum (qe_attempts it))] @
     (case qe_lastError it of None \<Rightarrow> [] | Some e \<Rightarrow> [(''lastError'', JStr e)]))"

definition queue_items :: "event_queue \<Rightarrow> QueuedEvent list" where
  "queue_items s = map ((!) (q_objs s)) (q_queue s)"

definition queue_snapshot :: "event_queue \<Rightarrow> string" where
  "queue_snapshot s = default_to [] (json_stringify (JArr (map queued_json (queue_items s))))"

definition queue_flush_done :: "event_queue \<Rightarrow> event_queue" where
  "queue_flush_done s = s\<lparr>q_isFlushing := False, q_run := None\<rparr>"

definition persistQueue :: "bool \<Rightarrow> event_queue \<Rightarrow> event_queue" where
  "persistQueue awaited s =
     (if \<not> qc_persistToDisk (q_config s) then (if awaited then queue_flush_done s else s)
      else s\<lparr>q_chain := q_chain s @ [(queue_snapshot s, awaited)]\<rparr>)"

text \<open>The head of the chain is written to a temporary file and renamed, or fails as a whole.\<close>

definition queue_written :: "bool \<Rightarrow> event_queue \<Rightarrow> event_queue" where
  "queue_written ok s =
     (case q_chain s of [] \<Rightarrow> s
      | (snapshot, awaited) # rest \<Rightarrow>
          (let s1 = s\<lparr>q_chain := rest, q_disk := (if ok then Some snapshot else q_disk s)\<rparr>
           in if awaited then queue_flush_done s1 else s1))"

definition isQueuedEvent :: "jsval \<Rightarrow> bool" where
  "isQueuedEvent value =
     (isRecord value \<and>
      (let event = jprop value ''event'' in
       typeof (jprop value ''enqueuedAt'') = ''number'' \<and>
       typeof (jprop value ''attempts'') = ''number'' \<and>
       isRecord event \<and>
       typeof (jprop event ''eventId'') = ''string'' \<and>
       typeof (jprop event ''type'') = ''string'' \<and>
       typeof (jprop event ''timestamp'') = ''string''))"

definition queued_of_json :: "jsval \<Rightarrow> QueuedEvent" where
  "queued_of_json value =
     \<lparr> qe_event = obj_entries (jprop value ''event''),
       qe_enqueuedAt = default_to 0 (readNumber (jprop value ''enqueuedAt'')),
       qe_attempts = default_to 0 (readNumber (jprop value ''attempts'')),
       qe_lastError = readString (jprop value ''lastError'') \<rparr>"

definition push_new :: "QueuedEvent \<Rightarrow> event_queue \<Rightarrow> event_queue" where
  "push_new it s = s\<lparr>q_queue := q_queue s @ [length (q_objs s)], q_objs := q_objs s @ [it]\<rparr>"

definition mergeRestoredQueue :: "QueuedEvent list \<Rightarrow> event_queue \<Rightarrow> event_queue" where
  "mergeRestoredQueue restored s =
     (if restored = [] then s
      else
        let existingEventIds = map (\<lambda>it. oget (qe_event it) ''eventId'') (queue_items s);
            s1 = fold (\<lambda>it s. if oget (qe_event it) ''eventId'' \<in> set existingEventIds then s else push_new it s)
                   restored s
        in if int (length (q_queue s1)) > qc_maxSize (q_config s1)
           then s1\<lparr>q_queue := drop (nat (int (length (q_queue s1)) - qc_maxSize (q_config s1))) (q_queue s1)\<rparr>
           else s1)"

text \<open>\<open>parsed\<close> is the parsed file, none when there is no such file or it is not JSON.\<close>

definition loadPersistedQueue :: "jsval option \<Rightarrow> event_queue \<Rightarrow> event_queue" where
  "loadPersistedQueue parsed s =
     (case parsed of
        Some (JArr items) \<Rightarrow> mergeRestoredQueue (map queued_of_json (filter isQueuedEvent items)) s
      | _ \<Rightarrow> s)\<lparr>q_timer := True\<rparr>"

section \<open>Flush\<close>

definition batchSize :: nat where
  "batchSize = 10"

definition splice1 :: "nat \<Rightarrow> 'a list \<Rightarrow> 'a list" where
  "splice1 i xs = take i xs @ drop (Suc i) xs"

text \<open>The removal walks \<open>indicesToRemove\<close> from its end to its start.\<close>

definition remove_indices :: "nat list \<Rightarrow> 'a list \<Rightarrow> 'a list" where
  "remove_indices indices q = fold splice1 (rev indices) q"

text \<open>The next round of the \<open>for\<close> loop: a batch from \<open>i\<close> on, or the end of the flush.\<close>

definition queue_flush_loop :: "nat \<Rightarrow> nat list \<Rightarrow> event_queue \<Rightarrow> event_queue" where
  "queue_flush_loop i indices s =
     (if i < length (q_queue s) then
        let batch = take batchSize (drop i (q_queue s)) in
        s\<lparr>q_run := Some \<lparr> fr_i = i, fr_hooks = q_webhooks s, fr_waiting = zip [0..<length batch] batch,
             fr_indicesToRemove = indices, fr_saving = False \<rparr>\<rparr>
      else
        persistQueue True
          (s\<lparr>q_queue := remove_indices indices (q_queue s),
             q_run := Some \<lparr> fr_i = i, fr_hooks = [], fr_waiting = [], fr_indicesToRemove = indices,
               fr_saving = True \<rparr>\<rparr>))"

definition flush :: "event_queue \<Rightarrow> event_queue" where
  "flush s =
     (if q_isFlushing s \<or> q_queue s = [] then s
      else queue_flush_loop 0 [] (s\<lparr>q_isFlushing := True\<rparr>))"

text \<open>What the batch callback does once the webhooks of an event have answered.\<close>

definition allFailed :: "DeliveryResult list \<Rightarrow> bool" where
  "allFailed results = (results \<noteq> [] \<and> (\<forall>r \<in> set results. \<not> dr_success r))"

definition requeue :: "DeliveryResult list \<Rightarrow> RetryConfig \<Rightarrow> QueuedEvent \<Rightarrow> bool" where
  "requeue results retry it = (allFailed results \<and> qe_attempts it < rt_maxAttempts retry)"

definition settle_delivery :: "DeliveryResult list \<Rightarrow> nat \<Rightarrow> nat \<Rightarrow> flush_run \<Rightarrow> event_queue \<Rightarrow> flush_run \<times> event_queue" where
  "settle_delivery results batchIndex ref run s =
     (let it = q_objs s ! ref;
          run1 = run\<lparr>fr_waiting := filter (\<lambda>w. fst w \<noteq> batchIndex) (fr_waiting run)\<rparr>
      in if requeue results (q_retryConfig s) it
         then (run1, s\<lparr>q_objs := (q_objs s)[ref := it\<lparr>qe_attempts := qe_attempts it + 1,
                 qe_lastError := dr_error (hd results)\<rparr>]\<rparr>)
         else (run1\<lparr>fr_indicesToRemove := fr_indicesToRemove run @ [fr_i run + batchIndex]\<rparr>, s))"

definition delivery_results ::
  "host \<Rightarrow> (string \<Rightarrow> string) \<Rightarrow> (nat \<Rightarrow> nat \<Rightarrow> http_request \<Rightarrow> http_answer) \<Rightarrow> nat \<Rightarrow> flush_run \<Rightarrow> event_queue \<Rightarrow> DeliveryResult list" where
  "delivery_results h hrefOf clients ref run s =
     broadcastToWebhooks h hrefOf clients (qe_event (q_objs s ! ref)) (fr_hooks run) (q_retryConfig s)
       (q_timeoutMs s) (q_correlationIdHeader s)"

definition delivery_done ::
  "host \<Rightarrow> (string \<Rightarrow> string) \<Rightarrow> nat \<Rightarrow> (nat \<Rightarrow> nat \<Rightarrow> http_request \<Rightarrow> http_answer) \<Rightarrow> event_queue \<Rightarrow> event_queue" where
  "delivery_done h hrefOf batchIndex clients s =
     (case q_run s of None \<Rightarrow> s
      | Some run \<Rightarrow>
          (case map_of (fr_waiting run) batchIndex of None \<Rightarrow> s
           | Some ref \<Rightarrow>
               (case settle_delivery (delivery_results h hrefOf clients ref run s) batchIndex ref run s of
                  (run1, s1) \<Rightarrow>
                    if fr_waiting run1 = []
                    then queue_flush_loop (fr_i run1 + batchSize) (fr_indicesToRemove run1) s1
                    else s1\<lparr>q_run := Some run1\<rparr>)))"

section \<open>The other operations\<close>

definition enqueue_event :: "event \<Rightarrow> int \<Rightarrow> event_queue \<Rightarrow> event_queue" where
  "enqueue_event ev now s =
     (let s1 = (if int (length (q_queue s)) \<ge> qc_maxSize (q_config s) then s\<lparr>q_queue := tl (q_queue s)\<rparr> else s)
      in push_new \<lparr> qe_event = ev, qe_enqueuedAt = now, qe_attempts = 0, qe_lastError = None \<rparr> s1)"

definition enqueue :: "event \<Rightarrow> int \<Rightarrow> event_queue \<Rightarrow> event_queue" where
  "enqueue ev now s =
     (let s1 = enqueue_event ev now s;
          s2 = (if 5 * int (length (q_queue s1)) \<ge> 4 * qc_maxSize (q_config s1) then flush s1 else s1)
      in persistQueue False s2)"

definition getStats :: "int \<Rightarrow> event_queue \<Rightarrow> int \<times> int \<times> int \<times> bool" where
  "getStats now s =
     (int (length (q_queue s)), qc_maxSize (q_config s),
      (case q_queue s of [] \<Rightarrow> 0 | r # rs \<Rightarrow> now - qe_enqueuedAt (q_objs s ! r)), q_isFlushing s)"

definition clear_queue :: "event_queue \<Rightarrow> event_queue" where
  "clear_queue s = persistQueue False (s\<lparr>q_queue := []\<rparr>)"

definition updateWebhooks :: "host \<Rightarrow> WebhookConfig list \<Rightarrow> event_queue \<Rightarrow> event_queue" where
  "updateWebhooks h webhooks s =
     s\<lparr>q_webhooks := filter (\<lambda>w.
         if wh_url w = [] \<or> js_trim (wh_url w) = [] then False
         else (case h_url h (wh_url w) of None \<Rightarrow> False
               | Some (protocol, hostname) \<Rightarrow> \<not> (protocol \<noteq> ''http:'' \<and> protocol \<noteq> ''https:''))) webhooks\<rparr>"

definition timer_tick :: "event_queue \<Rightarrow> event_queue" where
  "timer_tick s = (if q_timer s \<and> \<not> q_isFlushing s \<and> 0 < length (q_queue s) then flush s else s)"

definition stop_queue :: "event_queue \<Rightarrow> event_queue" where
  "stop_queue s = persistQueue False (s\<lparr>q_timer := False\<rparr>)"

datatype queue_op =
    Enqueue event int
  | FlushNow
  | TimerTick
  | Delivered nat "nat \<Rightarrow> nat \<Rightarrow> http_request \<Rightarrow> http_answer"
  | Written bool
  | Loaded "jsval option"
  | ClearQueue
  | NewWebhooks "WebhookConfig list"
  | StopQueue

definition queue_step :: "host \<Rightarrow> (string \<Rightarrow> string) \<Rightarrow> queue_op \<Rightarrow> event_queue \<Rightarrow> event_queue" where
  "queue_step h hrefOf op s =
     (case op of
        Enqueue ev now \<Rightarrow> enqueue ev now s
      | FlushNow \<Rightarrow> flush s
      | TimerTick \<Rightarrow> timer_tick s
      | Delivered b clients \<Rightarrow> delivery_done h hrefOf b clients s
      | Written ok \<Rightarrow> queue_written ok s
      | Loaded parsed \<Rightarrow> loadPersistedQueue parsed s
      | ClearQueue \<Rightarrow> clear_queue s
      | NewWebhooks ws \<Rightarrow> updateWebhooks h ws s
      | StopQueue \<Rightarrow> stop_queue s)"

section \<open>References\<close>

text \<open>The references of the queue are distinct and in the store.\<close>

definition refs_ok :: "event_queue \<Rightarrow> bool" where
  "refs_ok s = (distinct (q_queue s) \<and> (\<forall>r \<in> set (q_queue s). r < length (q_objs s)))"

section \<open>Invariant\<close>

definition refs_below :: "nat \<Rightarrow> (nat \<times> nat) list \<Rightarrow> bool" where
  "refs_below n ws = (\<forall>r \<in> set (map snd ws). r < n)"

lemma refs_below_mono: "refs_below n ws \<Longrightarrow> refs_below (Suc n) ws"
  by (auto simp: refs_below_def)

lemma refs_below_filter: "refs_below n ws \<Longrightarrow> refs_below n (filter P ws)"
  by (auto simp: refs_below_def)

text \<open>A running flush waits for deliveries of its batch, or for its marked write.\<close>

definition run_ok :: "event_queue \<Rightarrow> bool" where
  "run_ok s =
     (case q_run s of
        None \<Rightarrow> \<not> q_isFlushing s \<and> filter snd (q_chain s) = []
      | Some run \<Rightarrow> q_isFlushing s \<and>
          (if fr_saving run then fr_waiting run = [] \<and> length (filter snd (q_chain s)) = 1
           else fr_waiting run \<noteq> [] \<and> distinct (map fst (fr_waiting run)) \<and>
             refs_below (length (q_objs s)) (fr_waiting run) \<and> filter snd (q_chain s) = []))"

definition bound_ok :: "event_queue \<Rightarrow> bool" where
  "bound_ok s = (0 < qc_maxSize (q_config s) \<and> int (length (q_queue s)) \<le> qc_maxSize (q_config s) \<and>
     (qc_persistToDisk (q_config s) \<or> q_chain s = []))"

definition queue_inv :: "event_queue \<Rightarrow> bool" where
  "queue_inv s = (refs_ok s \<and> run_ok s \<and> bound_ok s)"

lemma queue_inv_simps [simp]:
  "refs_ok (s\<lparr>q_run := r\<rparr>) = refs_ok s" "refs_ok (s\<lparr>q_isFlushing := f\<rparr>) = refs_ok s"
  "refs_ok (s\<lparr>q_chain := c\<rparr>) = refs_ok s" "refs_ok (s\<lparr>q_disk := d\<rparr>) = refs_ok s"
  "refs_ok (s\<lparr>q_timer := t\<rparr>) = refs_ok s" "refs_ok (s\<lparr>q_webhooks := w\<rparr>) = refs_ok s"
  "run_ok (s\<lparr>q_disk := d\<rparr>) = run_ok s" "run_ok (s\<lparr>q_timer := t\<rparr>) = run_ok s"
  "run_ok (s\<lparr>q_webhooks := w\<rparr>) = run_ok s" "run_ok (s\<lparr>q_queue := q\<rparr>) = run_ok s"
  "bound_ok (s\<lparr>q_run := r\<rparr>) = bound_ok s" "bound_ok (s\<lparr>q_isFlushing := f\<rparr>) = bound_ok s"
  "bound_ok (s\<lparr>q_disk := d\<rparr>) = bound_ok s" "bound_ok (s\<lparr>q_timer := t\<rparr>) = bound_ok s"
  "bound_ok (s\<lparr>q_webhooks := w\<rparr>) = bound_ok s" "bound_ok (s\<lparr>q_objs := os\<rparr>) = bound_ok s"
  by (simp_all add: refs_ok_def run_ok_def bound_ok_def split: option.splits)

lemma bound_shorter:
  "bound_ok s \<Longrightarrow> length q \<le> length (q_queue s) \<Longrightarrow> bound_ok (s\<lparr>q_queue := q\<rparr>)"
  by (auto simp: bound_ok_def)

lemma refs_subset:
  "refs_ok s \<Longrightarrow> distinct q \<Longrightarrow> set q \<subseteq> set (q_queue s) \<Longrightarrow> refs_ok (s\<lparr>q_queue := q\<rparr>)"
  by (auto simp: refs_ok_def)

lemma refs_update: "refs_ok s \<Longrightarrow> refs_ok (s\<lparr>q_objs := (q_objs s)[r := x]\<rparr>)"
  by (simp add: refs_ok_def)

lemma splice1_facts:
  "set (splice1 i q) \<subseteq> set q" "length (splice1 i q) \<le> length q" "distinct q \<Longrightarrow> distinct (splice1 i q)"
proof -
  show "set (splice1 i q) \<subseteq> set q" by (auto simp: splice1_def dest: in_set_takeD in_set_dropD)
  show "length (splice1 i q) \<le> length q" by (simp add: splice1_def)
  show "distinct q \<Longrightarrow> distinct (splice1 i q)"
    using set_take_disj_set_drop_if_distinct [of q i "Suc i"] by (auto simp: splice1_def)
qed

lemma remove_indices_facts:
  "set (remove_indices is q) \<subseteq> set q \<and> length (remove_indices is q) \<le> length q \<and>
   (distinct q \<longrightarrow> distinct (remove_indices is q))"
proof (induction "is" arbitrary: q rule: rev_induct)
  case Nil
  then show ?case by (simp add: remove_indices_def)
next
  case (snoc x xs)
  have "remove_indices (xs @ [x]) q = remove_indices xs (splice1 x q)" by (simp add: remove_indices_def)
  then show ?case using snoc.IH [of "splice1 x q"] splice1_facts [where i = x and q = q] by auto
qed

lemma persist_inv:
  assumes "queue_inv s"
  shows "queue_inv (persistQueue False s)"
  using assms by (auto simp: persistQueue_def queue_inv_def run_ok_def bound_ok_def split: option.splits)

lemma queue_flush_done_inv:
  "refs_ok s \<Longrightarrow> bound_ok s \<Longrightarrow> filter snd (q_chain s) = [] \<Longrightarrow> queue_inv (queue_flush_done s)"
  by (simp add: queue_flush_done_def queue_inv_def run_ok_def)

lemma queue_flush_loop_inv:
  assumes "refs_ok s" and "bound_ok s" and "q_isFlushing s" and "filter snd (q_chain s) = []"
  shows "queue_inv (queue_flush_loop i indices s)"
proof (cases "i < length (q_queue s)")
  case True
  let ?b = "take batchSize (drop i (q_queue s))"
  have "\<forall>r \<in> set ?b. r < length (q_objs s)"
    using assms(1) by (auto simp: refs_ok_def dest: in_set_takeD in_set_dropD)
  then have "refs_below (length (q_objs s)) (zip [0..<length ?b] ?b)"
    unfolding refs_below_def by (subst map_snd_zip) simp_all
  moreover have "zip [0..<length ?b] ?b \<noteq> []" using True by (simp add: batchSize_def)
  ultimately show ?thesis
    using True assms by (simp add: queue_flush_loop_def Let_def queue_inv_def run_ok_def del: length_take length_drop)
next
  case False
  let ?q = "remove_indices indices (q_queue s)"
  note rm = remove_indices_facts [of indices "q_queue s"]
  have r: "refs_ok (s\<lparr>q_queue := ?q\<rparr>)" using rm assms(1) by (intro refs_subset) (auto simp: refs_ok_def)
  have b: "bound_ok (s\<lparr>q_queue := ?q\<rparr>)" using rm assms(2) by (intro bound_shorter) auto
  show ?thesis
  proof (cases "qc_persistToDisk (q_config s)")
    case True
    with False r b assms show ?thesis
      by (simp add: queue_flush_loop_def persistQueue_def queue_inv_def run_ok_def) (simp add: bound_ok_def refs_ok_def)
  next
    case no: False
    with False r b assms show ?thesis
      by (auto simp: queue_flush_loop_def persistQueue_def intro!: queue_flush_done_inv)
  qed
qed

lemma flush_inv: "queue_inv s \<Longrightarrow> queue_inv (flush s)"
proof (cases "q_isFlushing s \<or> q_queue s = []")
  case False
  assume i: "queue_inv s"
  then have "filter snd (q_chain s) = []" using False by (auto simp: queue_inv_def run_ok_def split: option.splits)
  with i have "queue_inv (queue_flush_loop 0 [] (s\<lparr>q_isFlushing := True\<rparr>))"
    by (intro queue_flush_loop_inv) (simp_all add: queue_inv_def)
  with False show ?thesis by (simp add: flush_def)
qed (auto simp: flush_def)

lemma push_new_inv:
  assumes "refs_ok s" and "run_ok s"
  shows "refs_ok (push_new it s) \<and> run_ok (push_new it s)"
proof
  show "refs_ok (push_new it s)" using assms(1) by (auto simp: push_new_def refs_ok_def)
  show "run_ok (push_new it s)"
    using assms(2) by (cases "q_run s") (auto simp: push_new_def run_ok_def refs_below_mono)
qed

lemma enqueue_inv:
  assumes "queue_inv s"
  shows "queue_inv (enqueue ev now s)"
proof -
  let ?s = "if int (length (q_queue s)) \<ge> qc_maxSize (q_config s) then s\<lparr>q_queue := tl (q_queue s)\<rparr> else s"
  have "set (tl (q_queue s)) \<subseteq> set (q_queue s)" by (cases "q_queue s") auto
  then have "refs_ok ?s" using assms by (auto simp: queue_inv_def refs_ok_def distinct_tl)
  moreover have "run_ok ?s" using assms by (simp add: queue_inv_def)
  ultimately have "refs_ok (enqueue_event ev now s) \<and> run_ok (enqueue_event ev now s)"
    unfolding enqueue_event_def Let_def by (rule push_new_inv)
  moreover have "bound_ok (enqueue_event ev now s)"
    using assms by (auto simp: queue_inv_def bound_ok_def enqueue_event_def push_new_def)
  ultimately have "queue_inv (enqueue_event ev now s)" by (simp add: queue_inv_def)
  then show ?thesis unfolding enqueue_def Let_def by (intro persist_inv) (simp add: flush_inv)
qed

lemma merge_fold:
  assumes "refs_ok s" and "run_ok s"
  shows "refs_ok (fold (\<lambda>it s. if P it then s else push_new it s) items s) \<and>
    run_ok (fold (\<lambda>it s. if P it then s else push_new it s) items s) \<and>
    q_config (fold (\<lambda>it s. if P it then s else push_new it s) items s) = q_config s \<and>
    q_chain (fold (\<lambda>it s. if P it then s else push_new it s) items s) = q_chain s"
  using assms
proof (induction items arbitrary: s)
  case (Cons it items)
  then have "refs_ok (if P it then s else push_new it s) \<and> run_ok (if P it then s else push_new it s)"
    using push_new_inv by auto
  then show ?case using Cons.IH [of "if P it then s else push_new it s"] by (simp add: push_new_def)
qed simp

lemma merge_inv:
  assumes "queue_inv s"
  shows "queue_inv (mergeRestoredQueue items s)"
proof (cases "items = []")
  case False
  let ?ids = "map (\<lambda>it. oget (qe_event it) ''eventId'') (queue_items s)"
  let ?s = "fold (\<lambda>it s. if oget (qe_event it) ''eventId'' \<in> set ?ids then s else push_new it s) items s"
  have m: "refs_ok ?s" "run_ok ?s" "q_config ?s = q_config s" "q_chain ?s = q_chain s"
    using assms merge_fold [of s "\<lambda>it. oget (qe_event it) ''eventId'' \<in> set ?ids" items]
    by (simp_all add: queue_inv_def)
  have cap: "0 < qc_maxSize (q_config s)" "qc_persistToDisk (q_config s) \<or> q_chain s = []"
    using assms by (simp_all add: queue_inv_def bound_ok_def)
  let ?k = "nat (int (length (q_queue ?s)) - qc_maxSize (q_config ?s))"
  have "refs_ok (?s\<lparr>q_queue := drop ?k (q_queue ?s)\<rparr>)"
    using m(1) by (intro refs_subset) (auto simp: refs_ok_def dest: in_set_dropD)
  then show ?thesis
    using m cap False unfolding mergeRestoredQueue_def Let_def
    by (auto simp: queue_inv_def bound_ok_def simp del: fold_simps)
qed (use assms in \<open>simp add: mergeRestoredQueue_def\<close>)


lemma settle_facts:
  assumes "settle_delivery results b ref run s = (run1, s1)"
  shows "fr_waiting run1 = filter (\<lambda>w. fst w \<noteq> b) (fr_waiting run)" and "fr_saving run1 = fr_saving run"
    and "q_isFlushing s1 = q_isFlushing s" and "q_chain s1 = q_chain s" and "refs_ok s \<Longrightarrow> refs_ok s1"
    and "bound_ok s \<Longrightarrow> bound_ok s1" and "length (q_objs s1) = length (q_objs s)"
  using assms by (auto simp: settle_delivery_def Let_def refs_update split: if_splits)

lemma delivery_inv:
  assumes i: "queue_inv s"
  shows "queue_inv (delivery_done h hrefOf b clients s)"
proof (cases "q_run s")
  case (Some run)
  show ?thesis
  proof (cases "map_of (fr_waiting run) b")
    case w: (Some ref)
    obtain run1 s1 where st: "settle_delivery (delivery_results h hrefOf clients ref run s) b ref run s = (run1, s1)"
      by (metis surj_pair)
    note f = settle_facts [OF st]
    have r: "\<not> fr_saving run" "distinct (map fst (fr_waiting run))" "q_isFlushing s" "filter snd (q_chain s) = []"
        "refs_below (length (q_objs s)) (fr_waiting run)"
      using i Some w by (simp_all add: queue_inv_def run_ok_def split: if_splits)
    have d: "distinct (map fst (filter (\<lambda>w. fst w \<noteq> b) (fr_waiting run)))"
      using r(2) by (simp add: distinct_map_filter)
    show ?thesis
    proof (cases "fr_waiting run1 = []")
      case True
      then have "queue_inv (queue_flush_loop (fr_i run1 + batchSize) (fr_indicesToRemove run1) s1)"
        using i r f by (intro queue_flush_loop_inv) (simp_all add: queue_inv_def)
      with True show ?thesis by (simp add: delivery_done_def Some w st)
    next
      case False
      then have "queue_inv (s1\<lparr>q_run := Some run1\<rparr>)"
        using i r f d by (simp add: queue_inv_def run_ok_def refs_below_filter)
      with False show ?thesis by (simp add: delivery_done_def Some w st)
    qed
  qed (use i Some in \<open>simp add: delivery_done_def\<close>)
qed (use i in \<open>simp add: delivery_done_def\<close>)

lemma written_inv:
  assumes i: "queue_inv s"
  shows "queue_inv (queue_written ok s)"
proof (cases "q_chain s")
  case (Cons c rest)
  obtain snapshot awaited where c: "c = (snapshot, awaited)" by (cases c)
  let ?s = "s\<lparr>q_chain := rest, q_disk := (if ok then Some snapshot else q_disk s)\<rparr>"
  have b: "bound_ok ?s" "refs_ok ?s" using i Cons by (auto simp: queue_inv_def bound_ok_def)
  show ?thesis
  proof (cases awaited)
    case True
    have "filter snd rest = []"
      using i Cons c True by (auto simp: queue_inv_def run_ok_def split: option.splits if_splits)
    then show ?thesis using b Cons c True by (simp add: queue_written_def Let_def queue_flush_done_inv)
  next
    case False
    then have "run_ok ?s" using i Cons c by (auto simp: queue_inv_def run_ok_def split: option.splits)
    then show ?thesis using b Cons c False by (simp add: queue_written_def Let_def queue_inv_def)
  qed
qed (use i in \<open>simp add: queue_written_def\<close>)

lemma queue_step_inv:
  assumes "queue_inv s"
  shows "queue_inv (queue_step h hrefOf op s)"
proof (cases op)
  case (Loaded parsed)
  have "queue_inv (case parsed of
        Some (JArr items) \<Rightarrow> mergeRestoredQueue (map queued_of_json (filter isQueuedEvent items)) s
      | _ \<Rightarrow> s)"
    using assms by (auto intro: merge_inv split: option.splits jsval.splits)
  then show ?thesis by (simp add: Loaded queue_step_def loadPersistedQueue_def queue_inv_def)
next
  case ClearQueue
  have "queue_inv (s\<lparr>q_queue := []\<rparr>)"
    using assms by (auto simp: queue_inv_def intro: refs_subset bound_shorter)
  then show ?thesis by (simp add: ClearQueue queue_step_def clear_queue_def persist_inv)
next
  case StopQueue
  have "queue_inv (s\<lparr>q_timer := False\<rparr>)" using assms by (simp add: queue_inv_def)
  then show ?thesis by (simp add: StopQueue queue_step_def stop_queue_def persist_inv)
next
  case TimerTick
  then show ?thesis using assms by (simp add: queue_step_def timer_tick_def flush_inv)
next
  case (NewWebhooks ws)
  then show ?thesis using assms by (simp add: queue_step_def updateWebhooks_def queue_inv_def)
qed (use assms in \<open>simp_all add: queue_step_def enqueue_inv flush_inv delivery_inv written_inv\<close>)

interpretation queue_machine: machine "queue_step h hrefOf" queue_inv for h hrefOf
  by unfold_locales (rule queue_step_inv)

lemma new_queue_inv: "0 < qc_maxSize config \<Longrightarrow> queue_inv (new_queue config webhooks retry timeoutMs hdr disk)"
  by (simp add: queue_inv_def refs_ok_def run_ok_def bound_ok_def new_queue_def)

section \<open>Removal by index\<close>

lemma nths_splice1:
  assumes "x < length q" and "\<forall>i \<in> I. i < x"
  shows "nths (splice1 x q) (- I) = nths q (- insert x I)"
proof -
  have q: "q = take x q @ q ! x # drop (Suc x) q" using assms(1) by (simp add: id_take_nth_drop)
  have l: "length (take x q) = x" using assms(1) by simp
  have tail: "nths (drop (Suc x) q) {j. j + x \<in> - I} = drop (Suc x) q"
    using assms(2) by (intro nths_all) auto
  have tail2: "nths (drop (Suc x) q) {j. Suc (j + x) \<in> - insert x I} = drop (Suc x) q"
    using assms(2) by (intro nths_all) auto
  have hd: "nths (take x q) (- insert x I) = nths (take x q) (- I)"
    unfolding nths_def by (rule arg_cong [where f = "map fst"], rule filter_cong) (use assms(1) in \<open>auto simp: set_zip\<close>)
  have "nths q (- insert x I) = nths (take x q @ q ! x # drop (Suc x) q) (- insert x I)" using q by simp
  also have "\<dots> = nths (take x q) (- I) @ drop (Suc x) q"
    unfolding nths_append l hd using tail2 by (simp add: nths_Cons)
  also have "\<dots> = nths (splice1 x q) (- I)"
    unfolding splice1_def nths_append l tail ..
  finally show ?thesis ..
qed

lemma remove_indices_sorted:
  "sorted_wrt (<) is \<Longrightarrow> \<forall>i \<in> set is. i < length q \<Longrightarrow> remove_indices is q = nths q (- set is)"
proof (induction "is" arbitrary: q rule: rev_induct)
  case Nil
  then show ?case by (simp add: remove_indices_def nths_all)
next
  case (snoc x xs)
  have lt: "\<forall>i \<in> set xs. i < x" and s: "sorted_wrt (<) xs" using snoc.prems by (auto simp: sorted_wrt_append)
  have x: "x < length q" using snoc.prems by simp
  have len: "\<forall>i \<in> set xs. i < length (splice1 x q)" using lt x by (auto simp: splice1_def)
  have "remove_indices (xs @ [x]) q = remove_indices xs (splice1 x q)" by (simp add: remove_indices_def)
  also have "\<dots> = nths (splice1 x q) (- set xs)" using snoc.IH [OF s len] .
  also have "\<dots> = nths q (- set (xs @ [x]))" using nths_splice1 [OF x lt] by simp
  finally show ?case .
qed

section \<open>A flush whose deliveries complete in order\<close>

text \<open>\<open>cl k\<close> gives the answers of the webhooks for the \<open>k\<close>-th queued event.\<close>

type_synonym clients = "nat \<Rightarrow> nat \<Rightarrow> nat \<Rightarrow> http_request \<Rightarrow> http_answer"

definition flush_results :: "host \<Rightarrow> (string \<Rightarrow> string) \<Rightarrow> clients \<Rightarrow> event_queue \<Rightarrow> nat \<Rightarrow> DeliveryResult list" where
  "flush_results h hrefOf cl s k =
     broadcastToWebhooks h hrefOf (cl k) (qe_event (queue_items s ! k)) (q_webhooks s) (q_retryConfig s)
       (q_timeoutMs s) (q_correlationIdHeader s)"

definition kept :: "host \<Rightarrow> (string \<Rightarrow> string) \<Rightarrow> clients \<Rightarrow> event_queue \<Rightarrow> nat \<Rightarrow> bool" where
  "kept h hrefOf cl s k = requeue (flush_results h hrefOf cl s k) (q_retryConfig s) (queue_items s ! k)"

text \<open>The queued event after a failed delivery.\<close>

definition tried :: "host \<Rightarrow> (string \<Rightarrow> string) \<Rightarrow> clients \<Rightarrow> event_queue \<Rightarrow> nat \<Rightarrow> QueuedEvent" where
  "tried h hrefOf cl s k =
     (let it = queue_items s ! k in
      it\<lparr>qe_attempts := qe_attempts it + 1, qe_lastError := dr_error (hd (flush_results h hrefOf cl s k))\<rparr>)"

definition objs_after :: "host \<Rightarrow> (string \<Rightarrow> string) \<Rightarrow> clients \<Rightarrow> event_queue \<Rightarrow> nat \<Rightarrow> QueuedEvent list" where
  "objs_after h hrefOf cl s j =
     fold (\<lambda>k objs. if kept h hrefOf cl s k then objs[q_queue s ! k := tried h hrefOf cl s k] else objs)
       [0..<j] (q_objs s)"

lemma objs_after_Suc:
  "objs_after h hrefOf cl s (Suc j) =
     (if kept h hrefOf cl s j then (objs_after h hrefOf cl s j)[q_queue s ! j := tried h hrefOf cl s j]
      else objs_after h hrefOf cl s j)"
  by (simp add: objs_after_def)

lemma length_objs_after [simp]: "length (objs_after h hrefOf cl s j) = length (q_objs s)"
  by (induction j) (auto simp: objs_after_Suc, simp add: objs_after_def)

lemma objs_after_nth:
  assumes "refs_ok s" and "k < length (q_queue s)" and "j \<le> length (q_queue s)"
  shows "objs_after h hrefOf cl s j ! (q_queue s ! k) =
    (if k < j \<and> kept h hrefOf cl s k then tried h hrefOf cl s k else queue_items s ! k)"
  using assms(3)
proof (induction j)
  case 0
  then show ?case using assms(2) by (simp add: objs_after_def queue_items_def)
next
  case (Suc j)
  have r: "q_queue s ! k < length (q_objs s)" using assms(1,2) by (simp add: refs_ok_def)
  have ne: "k \<noteq> j \<Longrightarrow> q_queue s ! j \<noteq> q_queue s ! k"
    using assms(1,2) Suc.prems by (simp add: refs_ok_def nth_eq_iff_index_eq)
  show ?case
  proof (cases "k = j")
    case True
    then show ?thesis using Suc r by (simp add: objs_after_Suc)
  next
    case False
    then have "(k < Suc j) = (k < j)" by auto
    then show ?thesis using Suc ne [OF False] by (simp add: objs_after_Suc)
  qed
qed

text \<open>The flush after \<open>j\<close> deliveries.\<close>

definition batch_at :: "event_queue \<Rightarrow> nat \<Rightarrow> nat list" where
  "batch_at s i = take batchSize (drop i (q_queue s))"

definition flush_state :: "host \<Rightarrow> (string \<Rightarrow> string) \<Rightarrow> clients \<Rightarrow> event_queue \<Rightarrow> nat \<Rightarrow> event_queue" where
  "flush_state h hrefOf cl s j =
     (let i = 10 * (j div 10); b = batch_at s i in
      s\<lparr>q_isFlushing := True, q_objs := objs_after h hrefOf cl s j,
        q_run := Some \<lparr> fr_i = i, fr_hooks = q_webhooks s, fr_waiting = drop (j mod 10) (zip [0..<length b] b),
          fr_indicesToRemove = filter (\<lambda>k. \<not> kept h hrefOf cl s k) [0..<j], fr_saving = False \<rparr>\<rparr>)"

lemma filter_drop_zip:
  assumes "r < length b"
  shows "filter (\<lambda>w. fst w \<noteq> r) (drop r (zip [0..<length b] b)) = drop (Suc r) (zip [0..<length b] b)"
    and "map_of (drop r (zip [0..<length b] b)) r = Some (b ! r)"
proof -
  have c: "drop r (zip [0..<length b] b) = (r, b ! r) # drop (Suc r) (zip [0..<length b] b)"
    using assms by (subst Cons_nth_drop_Suc [symmetric]) simp_all
  have "\<forall>w \<in> set (drop (Suc r) (zip [0..<length b] b)). fst w \<noteq> r"
    by (auto simp: drop_zip set_zip)
  then show "filter (\<lambda>w. fst w \<noteq> r) (drop r (zip [0..<length b] b)) = drop (Suc r) (zip [0..<length b] b)"
    unfolding c by (simp add: filter_id_conv)
  show "map_of (drop r (zip [0..<length b] b)) r = Some (b ! r)" unfolding c by simp
qed

lemma flush_starts:
  assumes "\<not> q_isFlushing s" and "q_queue s \<noteq> []"
  shows "flush s = flush_state h hrefOf cl s 0"
  using assms by (simp add: flush_def queue_flush_loop_def flush_state_def Let_def batch_at_def objs_after_def)

lemma in_batch:
  assumes "j < length (q_queue s)"
  shows "j mod 10 < length (batch_at s (10 * (j div 10)))"
    and "batch_at s (10 * (j div 10)) ! (j mod 10) = q_queue s ! j"
proof -
  have e: "10 * (j div 10) + j mod 10 = j" by simp
  have m: "j mod 10 < 10" by simp
  show "j mod 10 < length (batch_at s (10 * (j div 10)))"
    using assms e m unfolding batch_at_def batchSize_def length_take length_drop by linarith
  show "batch_at s (10 * (j div 10)) ! (j mod 10) = q_queue s ! j"
    using assms e m by (simp add: batch_at_def batchSize_def)
qed


lemma settle_in_order:
  assumes ok: "refs_ok s" and j: "j < length (q_queue s)"
    and run: "q_run S = Some run" and S: "S = flush_state h hrefOf cl s j"
  shows "map_of (fr_waiting run) (j mod 10) = Some (q_queue s ! j)"
    and "settle_delivery (delivery_results h hrefOf (cl j) (q_queue s ! j) run S) (j mod 10) (q_queue s ! j) run S =
      (let b = batch_at s (10 * (j div 10)) in
       (\<lparr> fr_i = 10 * (j div 10), fr_hooks = q_webhooks s,
          fr_waiting = drop (Suc (j mod 10)) (zip [0..<length b] b),
          fr_indicesToRemove = filter (\<lambda>k. \<not> kept h hrefOf cl s k) [0..<Suc j], fr_saving = False \<rparr>,
        S\<lparr>q_objs := objs_after h hrefOf cl s (Suc j)\<rparr>))"
proof -
  let ?b = "batch_at s (10 * (j div 10))"
  note b = in_batch [OF j]
  note z = filter_drop_zip [OF b(1)]
  have run': "run = \<lparr> fr_i = 10 * (j div 10), fr_hooks = q_webhooks s, fr_waiting = drop (j mod 10) (zip [0..<length ?b] ?b),
          fr_indicesToRemove = filter (\<lambda>k. \<not> kept h hrefOf cl s k) [0..<j], fr_saving = False \<rparr>"
    using run unfolding S by (simp add: flush_state_def Let_def)
  show "map_of (fr_waiting run) (j mod 10) = Some (q_queue s ! j)" using z(2) b(2) run' by simp
  have it: "q_objs S ! (q_queue s ! j) = queue_items s ! j"
    using objs_after_nth [OF ok j, of j] j by (simp add: S flush_state_def Let_def)
  have res: "delivery_results h hrefOf (cl j) (q_queue s ! j) run S = flush_results h hrefOf cl s j"
    using it by (simp add: delivery_results_def flush_results_def run') (simp add: S flush_state_def Let_def)
  have keep: "requeue (flush_results h hrefOf cl s j) (q_retryConfig S) (q_objs S ! (q_queue s ! j)) = kept h hrefOf cl s j"
    unfolding it kept_def by (simp add: S flush_state_def Let_def)
  have objs: "q_objs S = objs_after h hrefOf cl s j" by (simp add: S flush_state_def Let_def)
  show "settle_delivery (delivery_results h hrefOf (cl j) (q_queue s ! j) run S) (j mod 10) (q_queue s ! j) run S =
      (let b = ?b in
       (\<lparr> fr_i = 10 * (j div 10), fr_hooks = q_webhooks s,
          fr_waiting = drop (Suc (j mod 10)) (zip [0..<length b] b),
          fr_indicesToRemove = filter (\<lambda>k. \<not> kept h hrefOf cl s k) [0..<Suc j], fr_saving = False \<rparr>,
        S\<lparr>q_objs := objs_after h hrefOf cl s (Suc j)\<rparr>))"
    unfolding settle_delivery_def res Let_def keep
    by (cases "kept h hrefOf cl s j")
      (use it in \<open>simp_all add: run' z(1) objs_after_Suc tried_def Let_def objs [symmetric]\<close>)
qed

lemma delivery_in_order:
  assumes ok: "refs_ok s" and j: "j < length (q_queue s)"
  shows "delivery_done h hrefOf (j mod 10) (cl j) (flush_state h hrefOf cl s j) =
    (if Suc j < length (q_queue s) then flush_state h hrefOf cl s (Suc j)
     else persistQueue True (s\<lparr>q_isFlushing := True, q_objs := objs_after h hrefOf cl s (Suc j),
       q_queue := remove_indices (filter (\<lambda>k. \<not> kept h hrefOf cl s k) [0..<Suc j]) (q_queue s),
       q_run := Some \<lparr> fr_i = 10 * (j div 10) + 10, fr_hooks = [], fr_waiting = [],
         fr_indicesToRemove = filter (\<lambda>k. \<not> kept h hrefOf cl s k) [0..<Suc j], fr_saving = True \<rparr>\<rparr>))"
proof -
  let ?S = "flush_state h hrefOf cl s j" and ?b = "batch_at s (10 * (j div 10))"
  obtain run where run: "q_run ?S = Some run" by (simp add: flush_state_def Let_def)
  note st = settle_in_order [OF ok j run refl]
  have wait: "drop (Suc (j mod 10)) (zip [0..<length ?b] ?b) = [] \<longleftrightarrow> length ?b = Suc (j mod 10)"
    using in_batch(1) [OF j] by auto
  have len: "length ?b = min 10 (length (q_queue s) - 10 * (j div 10))"
    by (simp add: batch_at_def batchSize_def)
  have e: "j = 10 * (j div 10) + j mod 10" by simp
  show ?thesis
  proof (cases "length ?b = Suc (j mod 10)")
    case False
    then have more: "Suc (j mod 10) < 10" "Suc j < length (q_queue s)"
      using len e in_batch(1) [OF j] by linarith+
    then have "Suc j div 10 = j div 10" "Suc j mod 10 = Suc (j mod 10)" by (simp_all add: div_Suc mod_Suc)
    then show ?thesis
      using more False wait
      by (simp add: delivery_done_def run st Let_def) (simp add: flush_state_def Let_def)
  next
    case True
    have d: "delivery_done h hrefOf (j mod 10) (cl j) ?S =
        queue_flush_loop (10 * (j div 10) + 10) (filter (\<lambda>k. \<not> kept h hrefOf cl s k) [0..<Suc j])
          (?S\<lparr>q_objs := objs_after h hrefOf cl s (Suc j)\<rparr>)"
      using True wait by (simp add: delivery_done_def run st Let_def batchSize_def del: upt_Suc)
    show ?thesis
    proof (cases "Suc j < length (q_queue s)")
      case more: True
      then have m: "Suc (j mod 10) = 10" using True len e by linarith
      then have q: "Suc j div 10 = Suc (j div 10)" "Suc j mod 10 = 0" by (simp_all add: div_Suc mod_Suc)
      have "10 * (j div 10) + 10 < length (q_queue s)" using more m e by linarith
      then show ?thesis
        unfolding d using more
        by (simp add: queue_flush_loop_def flush_state_def Let_def batch_at_def q add.commute del: upt_Suc)
    next
      case False
      then have "\<not> 10 * (j div 10) + 10 < length (q_queue s)" using True len e j by linarith
      then show ?thesis
        unfolding d using False
        by (simp add: queue_flush_loop_def flush_state_def Let_def del: upt_Suc)
    qed
  qed
qed

definition in_order_ops :: "clients \<Rightarrow> nat \<Rightarrow> queue_op list" where
  "in_order_ops cl n = FlushNow # map (\<lambda>k. Delivered (k mod 10) (cl k)) [0..<n]"

lemma flush_prefix:
  assumes ok: "refs_ok s" and s: "\<not> q_isFlushing s" "q_queue s \<noteq> []" and j: "j < length (q_queue s)"
  shows "fold (queue_step h hrefOf) (in_order_ops cl j) s = flush_state h hrefOf cl s j"
  using j
proof (induction j)
  case 0
  then show ?case using flush_starts [OF s] by (simp add: in_order_ops_def queue_step_def)
next
  case (Suc j)
  have "fold (queue_step h hrefOf) (in_order_ops cl (Suc j)) s =
      delivery_done h hrefOf (j mod 10) (cl j) (fold (queue_step h hrefOf) (in_order_ops cl j) s)"
    by (simp add: in_order_ops_def queue_step_def)
  then show ?case using Suc delivery_in_order [OF ok, of j] by simp
qed

lemma nths_filter_not:
  "n = length q \<Longrightarrow> nths q (- set (filter (\<lambda>k. \<not> P k) [0..<n])) = nths q {k. P k}"
  unfolding nths_def by (rule arg_cong [where f = "map fst"], rule filter_cong) (auto simp: set_zip)

lemma flush_in_order:
  assumes ok: "refs_ok s" and s: "\<not> q_isFlushing s" "q_queue s \<noteq> []"
  shows "fold (queue_step h hrefOf) (in_order_ops cl (length (q_queue s))) s =
    persistQueue True (s\<lparr>q_isFlushing := True, q_objs := objs_after h hrefOf cl s (length (q_queue s)),
       q_queue := nths (q_queue s) {k. kept h hrefOf cl s k},
       q_run := Some \<lparr> fr_i = 10 * ((length (q_queue s) - 1) div 10) + 10, fr_hooks = [], fr_waiting = [],
         fr_indicesToRemove = filter (\<lambda>k. \<not> kept h hrefOf cl s k) [0..<length (q_queue s)], fr_saving = True \<rparr>\<rparr>)"
proof -
  obtain j where n: "length (q_queue s) = Suc j" using s(2) by (cases "q_queue s") auto
  have "fold (queue_step h hrefOf) (in_order_ops cl (Suc j)) s =
      delivery_done h hrefOf (j mod 10) (cl j) (fold (queue_step h hrefOf) (in_order_ops cl j) s)"
    by (simp add: in_order_ops_def queue_step_def)
  also have "\<dots> = delivery_done h hrefOf (j mod 10) (cl j) (flush_state h hrefOf cl s j)"
    using flush_prefix [OF ok s, of j] n by simp
  finally have run: "fold (queue_step h hrefOf) (in_order_ops cl (Suc j)) s = \<dots>" .
  let ?idx = "filter (\<lambda>k. \<not> kept h hrefOf cl s k) [0..<Suc j]"
  have "remove_indices ?idx (q_queue s) = nths (q_queue s) (- set ?idx)"
    by (rule remove_indices_sorted) (auto simp: n sorted_wrt_filter simp del: upt_Suc)
  also have "\<dots> = nths (q_queue s) {k. kept h hrefOf cl s k}"
    by (rule nths_filter_not) (simp add: n)
  finally have rm: "remove_indices ?idx (q_queue s) = \<dots>" .
  show ?thesis
    unfolding n run using delivery_in_order [OF ok, of j] n rm by (simp del: upt_Suc)
qed

lemma nths_as_map: "nths xs {k. P k} = map ((!) xs) (filter P [0..<length xs])"
proof (induction xs rule: rev_induct)
  case (snoc x xs)
  then show ?case by (auto simp: nths_append nth_append intro!: map_cong)
qed simp

lemma kept_items:
  assumes ok: "refs_ok s"
  shows "map ((!) (objs_after h hrefOf cl s (length (q_queue s)))) (nths (q_queue s) {k. kept h hrefOf cl s k}) =
    map (tried h hrefOf cl s) (filter (kept h hrefOf cl s) [0..<length (q_queue s)])"
  unfolding nths_as_map using objs_after_nth [OF ok] by (auto intro!: map_cong)

lemma reachable_queue_inv:
  assumes "0 < qc_maxSize config"
  shows "queue_inv (fold (queue_step h hrefOf) ops (new_queue config webhooks retry timeoutMs hdr disk))"
  by (rule queue_machine.inv_run) (rule new_queue_inv [OF assms])

lemma refs_reachable:
  "0 < qc_maxSize config \<Longrightarrow> refs_ok (fold (queue_step h hrefOf) ops (new_queue config webhooks retry timeoutMs hdr disk))"
  using reachable_queue_inv by (simp add: queue_inv_def del: fold_simps)

text \<open>The writes to disk that follow, one after the other; \<open>oks\<close> says which succeed.\<close>

lemma written_items:
  "queue_items (queue_written ok s) = queue_items s" "q_queue (queue_written ok s) = q_queue s"
  "q_objs (queue_written ok s) = q_objs s"
  by (auto simp: queue_written_def queue_flush_done_def queue_items_def Let_def split: list.splits prod.splits)

lemma step_written: "queue_step h hrefOf (Written ok) s = queue_written ok s"
  by (simp add: queue_step_def)

lemma writes_items:
  "queue_items (fold (queue_step h hrefOf) (map Written oks) s) = queue_items s"
  by (induction oks arbitrary: s) (simp_all add: step_written written_items)

lemma writes_unawaited:
  "filter snd (q_chain s) = [] \<Longrightarrow> length oks = length (q_chain s) \<Longrightarrow>
   q_isFlushing (fold (queue_step h hrefOf) (map Written oks) s) = q_isFlushing s"
proof (induction oks arbitrary: s)
  case (Cons ok oks)
  obtain snap rest where c: "q_chain s = (snap, False) # rest"
    using Cons.prems by (cases "q_chain s") (auto split: if_splits)
  let ?s = "queue_written ok s"
  have w: "q_chain ?s = rest" "q_isFlushing ?s = q_isFlushing s" using c by (simp_all add: queue_written_def Let_def)
  have "q_isFlushing (fold (queue_step h hrefOf) (map Written oks) ?s) = q_isFlushing ?s"
    using Cons.IH [of ?s] Cons.prems c w by auto
  then show ?case using w by (simp add: step_written)
qed simp

lemma writes_awaited:
  "q_chain s = xs @ [(snap, True)] \<Longrightarrow> filter snd xs = [] \<Longrightarrow> length oks = Suc (length xs) \<Longrightarrow>
   \<not> q_isFlushing (fold (queue_step h hrefOf) (map Written oks) s) \<and>
   (last oks \<longrightarrow> q_disk (fold (queue_step h hrefOf) (map Written oks) s) = Some snap)"
proof (induction xs arbitrary: s oks)
  case Nil
  then obtain ok where "oks = [ok]" by (cases oks) auto
  with Nil show ?case by (simp add: step_written queue_written_def queue_flush_done_def Let_def)
next
  case (Cons x xs)
  from Cons.prems(3) obtain ok rest where oks: "oks = ok # rest" "rest \<noteq> []"
    by (cases oks) (auto simp: length_Suc_conv)
  have x: "x = (fst x, False)" using Cons.prems by (cases x) (auto split: if_splits)
  have c: "q_chain s = (fst x, False) # (xs @ [(snap, True)])" using Cons.prems(1) x by simp
  let ?s = "queue_written ok s"
  have w: "q_chain ?s = xs @ [(snap, True)]" using c by (simp add: queue_written_def Let_def)
  show ?case using Cons.IH [OF w, of rest] Cons.prems oks x by (auto simp: step_written split: if_splits)
qed

text \<open>
  C12. In every reachable state in which no flush runs, a flush whose deliveries complete in
  the order of the queue, nothing else happening to the queue until they and the outstanding writes to disk are done, leaves
  exactly the events whose delivery failed at every webhook and that have attempts left, in their order, each with one more attempt
  and the error of its first webhook; it ends, so that the next flush can start; and with persistence the file then
  holds that queue if the last write succeeded.
\<close>

theorem flush_refines_retry:
  assumes "0 < qc_maxSize config"
    and "s = fold (queue_step h hrefOf) ops (new_queue config webhooks retry timeoutMs hdr disk)"
    and "\<not> q_isFlushing s" and "q_queue s \<noteq> []"
    and s1: "s1 = fold (queue_step h hrefOf) (in_order_ops cl (length (q_queue s))) s"
    and s': "s' = fold (queue_step h hrefOf) (map Written oks) s1" and oks: "length oks = length (q_chain s1)"
  shows "queue_items s' = map (tried h hrefOf cl s) (filter (kept h hrefOf cl s) [0..<length (q_queue s)]) \<and>
    \<not> q_isFlushing s' \<and>
    (qc_persistToDisk (q_config s) \<and> last oks \<longrightarrow> q_disk s' = Some (queue_snapshot s'))"
proof -
  have inv: "queue_inv s" using reachable_queue_inv [OF assms(1)] by (simp add: assms(2))
  then have ok: "refs_ok s" and chain: "filter snd (q_chain s) = []"
    using assms(3) by (auto simp: queue_inv_def run_ok_def split: option.splits)
  let ?k = "map (tried h hrefOf cl s) (filter (kept h hrefOf cl s) [0..<length (q_queue s)])"
  have run: "queue_items s1 = ?k"
    unfolding s1 flush_in_order [OF ok assms(3,4)]
    using kept_items [OF ok] by (simp add: persistQueue_def queue_flush_done_def queue_items_def)
  then have items: "queue_items s' = ?k" unfolding s' writes_items .
  show ?thesis
  proof (cases "qc_persistToDisk (q_config s)")
    case False
    then have "q_chain s1 = q_chain s" "\<not> q_isFlushing s1"
      unfolding s1 flush_in_order [OF ok assms(3,4)] by (simp_all add: persistQueue_def queue_flush_done_def)
    with writes_unawaited [of s1 oks h hrefOf] chain oks items False show ?thesis by (simp add: s')
  next
    case True
    then have "q_chain s1 = q_chain s @ [(queue_snapshot s1, True)]"
      unfolding s1 flush_in_order [OF ok assms(3,4)] by (simp add: persistQueue_def queue_snapshot_def queue_items_def)
    from writes_awaited [OF this chain, of oks h hrefOf] oks this have
        "\<not> q_isFlushing s'" "last oks \<longrightarrow> q_disk s' = Some (queue_snapshot s1)" by (simp_all add: s')
    moreover have "queue_snapshot s1 = queue_snapshot s'" using run items by (simp add: queue_snapshot_def)
    ultimately show ?thesis using items by simp
  qed
qed

text \<open>
  C13. In every reachable state the queue is within its bound, and a flush that is marked as
  running has something to wait for: a delivery of its batch or its own write to disk.
\<close>

theorem event_queue_invariant:
  assumes "0 < qc_maxSize config"
    and "s = fold (queue_step h hrefOf) ops (new_queue config webhooks retry timeoutMs hdr disk)"
  shows "int (length (q_queue s)) \<le> qc_maxSize (q_config s) \<and>
    (q_isFlushing s \<longrightarrow>
      (\<exists>run. q_run s = Some run \<and> (fr_waiting run \<noteq> [] \<or> (\<exists>snapshot. (snapshot, True) \<in> set (q_chain s)))))"
proof -
  have "queue_inv s" unfolding assms(2) by (rule reachable_queue_inv [OF assms(1)])
  then have "run_ok s" "bound_ok s" by (simp_all add: queue_inv_def)
  moreover have "\<exists>snapshot. (snapshot, True) \<in> set (q_chain s)" if "length (filter snd (q_chain s)) = 1"
  proof -
    from that have "filter snd (q_chain s) \<noteq> []" by auto
    then show ?thesis by (auto simp: filter_empty_conv)
  qed
  ultimately show ?thesis
    by (cases "q_run s") (auto simp: run_ok_def bound_ok_def split: if_splits)
qed

text \<open>
  When the second of three deliveries completes before the first, the removal by index
  takes the wrong entries: the third event, whose delivery failed and which should be
  retried, is dropped, and the second one, which was delivered, stays in the queue and is
  sent again.
\<close>

theorem flush_loses_event:
  assumes "refs_ok s" and "\<not> q_isFlushing s" and "q_queue s = [a, b, c]"
    and "\<not> kept h hrefOf cl s 0" and "\<not> kept h hrefOf cl s 1" and "kept h hrefOf cl s 2"
    and "\<not> qc_persistToDisk (q_config s)"
  shows "q_queue (fold (queue_step h hrefOf)
      [FlushNow, Delivered 1 (cl 1), Delivered 0 (cl 0), Delivered 2 (cl 2)] s) = [b]"
  using assms
  by (simp add: queue_step_def flush_def queue_flush_loop_def batchSize_def upt_rec delivery_done_def delivery_results_def
    settle_delivery_def kept_def flush_results_def queue_items_def Let_def remove_indices_def splice1_def
    persistQueue_def queue_flush_done_def)

definition small_config :: QueueConfig where
  "small_config = \<lparr> qc_maxSize = 20, qc_flushIntervalMs = 1000, qc_persistToDisk = False, qc_persistPath = None \<rparr>"

definition named_event :: "string \<Rightarrow> event" where
  "named_event i = [(''eventId'', JStr i)]"

definition filled_queue :: event_queue where
  "filled_queue = fold (queue_step web_host id)
     [Enqueue (named_event ''a'') 1, Enqueue (named_event ''b'') 2, Enqueue (named_event ''c'') 3]
     (new_queue small_config [sample_hook] sample_retry 5000 ''X-Id'' None)"

text \<open>The third event is refused by the webhook, the others are accepted.\<close>

definition sample_answers :: clients where
  "sample_answers k i n rq = (if k = 2 then Failed ''no'' (Some 404) else Answered 200)"

lemma filled_queue_facts:
  "q_queue filled_queue = [0, 1, 2]" "\<not> q_isFlushing filled_queue"
  "\<not> qc_persistToDisk (q_config filled_queue)"
  "q_webhooks filled_queue = [sample_hook]" "q_retryConfig filled_queue = sample_retry"
  "queue_items filled_queue =
    [\<lparr> qe_event = named_event ''a'', qe_enqueuedAt = 1, qe_attempts = 0, qe_lastError = None \<rparr>,
     \<lparr> qe_event = named_event ''b'', qe_enqueuedAt = 2, qe_attempts = 0, qe_lastError = None \<rparr>,
     \<lparr> qe_event = named_event ''c'', qe_enqueuedAt = 3, qe_attempts = 0, qe_lastError = None \<rparr>]"
  by (simp_all add: filled_queue_def queue_step_def enqueue_def enqueue_event_def push_new_def new_queue_def
      small_config_def persistQueue_def Let_def queue_items_def)

lemma filled_chain: "q_chain filled_queue = []"
  by (simp add: filled_queue_def queue_step_def enqueue_def enqueue_event_def push_new_def new_queue_def
      small_config_def persistQueue_def Let_def)

lemma sample_kept:
  "kept web_host id sample_answers filled_queue k = (k = 2)" if "k < 3"
proof -
  have t: "js_trim (wh_url sample_hook) = ''http://a.b/''" by code_simp
  have "k \<in> {0, 1, 2}" using that by auto
  then show ?thesis
    by (auto simp: kept_def flush_results_def broadcastToWebhooks_def filled_queue_facts sendToWebhook_def t
        web_host_def sample_retry_def sample_answers_def send_loop.simps Let_def no_retry_def requeue_def
        allFailed_def)
qed

theorem flush_refines_retry_witness:
  "map qe_event (queue_items (fold (queue_step web_host id) (in_order_ops sample_answers 3) filled_queue)) =
    [named_event ''c'']"
proof -
  have f: "filter (kept web_host id sample_answers filled_queue) [0..<3] = [2]" by (simp add: sample_kept upt_rec)
  have l: "length (q_queue filled_queue) = 3" by (simp add: filled_queue_facts)
  have c: "0 < qc_maxSize small_config" "q_queue filled_queue \<noteq> []" by (simp_all add: small_config_def filled_queue_facts)
  have "refs_ok filled_queue" unfolding filled_queue_def by (rule refs_reachable) (simp add: small_config_def)
  from flush_in_order [OF this filled_queue_facts(2) c(2), of web_host id sample_answers]
  have run: "q_chain (fold (queue_step web_host id) (in_order_ops sample_answers 3) filled_queue) = []"
    unfolding l by (simp add: persistQueue_def filled_queue_facts(3) queue_flush_done_def filled_chain)
  show ?thesis
    using flush_refines_retry [OF c(1) filled_queue_def filled_queue_facts(2) c(2) refl refl, where cl = sample_answers
        and oks = "[]"] run
    unfolding l f by (simp add: tried_def filled_queue_facts Let_def)
qed

theorem event_queue_invariant_witness:
  "int (length (q_queue filled_queue)) \<le> qc_maxSize (q_config filled_queue)"
  using event_queue_invariant [OF _ filled_queue_def] by (simp add: small_config_def)

theorem flush_loses_event_witness:
  "q_queue (fold (queue_step web_host id)
      [FlushNow, Delivered 1 (sample_answers 1), Delivered 0 (sample_answers 0), Delivered 2 (sample_answers 2)]
      filled_queue) = [1]"
proof -
  have "refs_ok filled_queue"
    unfolding filled_queue_def by (rule refs_reachable) (simp add: small_config_def)
  then show ?thesis
    using flush_loses_event [of filled_queue 0 1 2 web_host id sample_answers]
    by (simp add: filled_queue_facts sample_kept)
qed

end
