(* ===== verification/SessionKeys.thy ===== *)
theory SessionKeys imports JsValue begin

text \<open>
  The pure helpers of the session tracker, \<open>src/hooks/session-tracker-helpers.ts\<close>: identifiers,
  session keys, routes and the records with their route observations. Sets and maps keep the
  insertion order of the source; \<open>le\<close> is the comparison of \<open>localeCompare\<close>.
\<close>

section \<open>Types\<close>

record ParsedSessionKey =
  ps_raw :: string
  ps_agentId :: "string option"
  ps_provider :: "string option"
  ps_surface :: "string option"
  ps_accountId :: "string option"
  ps_scope :: "string option"
  ps_threadKind :: "string option"
  ps_threadToken :: "string option"
  ps_isThreadScoped :: bool

record SessionRouteMetadata =
  ro_provider :: "string option"
  ro_surface :: "string option"
  ro_accountId :: "string option"
  ro_channelId :: "string option"
  ro_conversationId :: "string option"
  ro_threadId :: "string option"
  ro_messageId :: "string option"
  ro_from :: "string option"
  ro_to :: "string option"
  ro_senderId :: "string option"
  ro_senderName :: "string option"

record RouteObservation =
  ob_routeKey :: string
  ob_route :: SessionRouteMetadata
  ob_firstSeenAt :: int
  ob_lastSeenAt :: int
  ob_lastInboundAt :: "int option"
  ob_lastOutboundAt :: "int option"
  ob_runIds :: "string list"

text \<open>\<open>randomUUID\<close> never repeats: a record id is the number of the record's creation.\<close>

record SessionRecord =
  se_recordId :: nat
  se_startTime :: int
  se_lastTouchedAt :: int
  se_agentId :: "string option"
  se_parentAgentId :: "string option"
  se_parentSessionId :: "string option"
  se_parentSessionKey :: "string option"
  se_sessionIds :: "string list"
  se_sessionKeys :: "string list"
  se_strongSessionKeys :: "string list"
  se_runIds :: "string list"
  se_routeObservations :: "(string, RouteObservation) jsmap"

record ObserveSessionParams =
  op_sessionId :: "string option"
  op_sessionKey :: "string option"
  op_aliasSessionIds :: "string list option"
  op_aliasSessionKeys :: "string list option"
  op_agentId :: "string option"
  op_parentAgentId :: "string option"
  op_parentSessionId :: "string option"
  op_parentSessionKey :: "string option"
  op_runId :: "string option"
  op_route :: "SessionRouteMetadata option"
  op_direction :: "string option"

definition no_params :: ObserveSessionParams where
  "no_params = \<lparr> op_sessionId = None, op_sessionKey = None, op_aliasSessionIds = None, op_aliasSessionKeys = None,
     op_agentId = None, op_parentAgentId = None, op_parentSessionId = None, op_parentSessionKey = None,
     op_runId = None, op_route = None, op_direction = None \<rparr>"

section \<open>Identifiers\<close>

definition dedupe_strings :: "string option list \<Rightarrow> string list" where
  "dedupe_strings values = fold sadd (map the (filter non_blank_opt values)) []"

definition sorted_strings :: "(string \<Rightarrow> string \<Rightarrow> bool) \<Rightarrow> string list \<Rightarrow> string list" where
  "sorted_strings le values = sort_by le values"

definition looksLikeSessionKey :: "string \<Rightarrow> bool" where
  "looksLikeSessionKey value = (non_blank value \<and> starts_with value ''agent:'')"

text \<open>An element of a list read by index, \<open>undefined\<close> out of range.\<close>

definition nth_opt :: "'a list \<Rightarrow> nat \<Rightarrow> 'a option" where
  "nth_opt xs i = (if i < length xs then Some (xs ! i) else None)"

definition plain_key :: "string \<Rightarrow> ParsedSessionKey" where
  "plain_key k = \<lparr> ps_raw = k, ps_agentId = None, ps_provider = None, ps_surface = None, ps_accountId = None,
     ps_scope = None, ps_threadKind = None, ps_threadToken = None, ps_isThreadScoped = False \<rparr>"

definition parse_segments :: "string \<Rightarrow> string list \<Rightarrow> ParsedSessionKey" where
  "parse_segments sessionKey segments =
     (if hd segments \<noteq> ''agent'' \<or> length segments < 2 then plain_key sessionKey
      else if length segments = 3
      then (plain_key sessionKey)\<lparr>ps_agentId := nth_opt segments 1, ps_scope := nth_opt segments 2\<rparr>
      else
        let scope = nth_opt segments 5;
            threadToken = nth_opt segments 6;
            threadKind = (if scope = Some ''thread'' \<or> scope = Some ''topic'' then scope else None)
        in \<lparr> ps_raw = sessionKey, ps_agentId = nth_opt segments 1, ps_provider = nth_opt segments 2,
             ps_surface = nth_opt segments 3, ps_accountId = nth_opt segments 4, ps_scope = scope,
             ps_threadKind = threadKind, ps_threadToken = threadToken,
             ps_isThreadScoped = (threadKind \<noteq> None \<and> non_blank_opt threadToken) \<rparr>)"

definition parseSessionKey :: "string option \<Rightarrow> ParsedSessionKey option" where
  "parseSessionKey sessionKey =
     (case sessionKey of None \<Rightarrow> None
      | Some k \<Rightarrow> if \<not> non_blank k then None else Some (parse_segments k (js_split (CHR '':'') k)))"

definition isSharedRuntimeSessionKey :: "string option \<Rightarrow> bool" where
  "isSharedRuntimeSessionKey sessionKey =
     (case parseSessionKey sessionKey of None \<Rightarrow> False
      | Some parsed \<Rightarrow> ps_scope parsed = Some ''main'' \<and> ps_provider parsed = None)"

definition isStrongSessionKey :: "string option \<Rightarrow> bool" where
  "isStrongSessionKey sessionKey = (non_blank_opt sessionKey \<and> \<not> isSharedRuntimeSessionKey sessionKey)"

definition alias_ids :: "ObserveSessionParams \<Rightarrow> string list" where
  "alias_ids p = default_to [] (op_aliasSessionIds p)"

definition alias_keys :: "ObserveSessionParams \<Rightarrow> string list" where
  "alias_keys p = default_to [] (op_aliasSessionKeys p)"

definition hasStrongIdentifiers :: "ObserveSessionParams \<Rightarrow> bool" where
  "hasStrongIdentifiers p =
     (non_blank_opt (op_sessionId p) \<or> isStrongSessionKey (op_sessionKey p) \<or>
      list_ex non_blank (alias_ids p) \<or> list_ex (\<lambda>k. isStrongSessionKey (Some k)) (alias_keys p))"

text \<open>The identifiers a lookup or an observation uses.\<close>

definition observed_ids :: "ObserveSessionParams \<Rightarrow> string list" where
  "observed_ids p = dedupe_strings (op_sessionId p # map Some (alias_ids p))"

definition observed_keys :: "ObserveSessionParams \<Rightarrow> string list" where
  "observed_keys p = dedupe_strings (op_sessionKey p # map Some (alias_keys p) @
     map Some (filter looksLikeSessionKey (observed_ids p)))"

section \<open>Routes\<close>

definition no_route :: SessionRouteMetadata where
  "no_route = \<lparr> ro_provider = None, ro_surface = None, ro_accountId = None, ro_channelId = None,
     ro_conversationId = None, ro_threadId = None, ro_messageId = None, ro_from = None, ro_to = None,
     ro_senderId = None, ro_senderName = None \<rparr>"

definition some_route :: "SessionRouteMetadata \<Rightarrow> SessionRouteMetadata option" where
  "some_route r = (if r = no_route then None else Some r)"

definition overlay_route :: "SessionRouteMetadata \<Rightarrow> SessionRouteMetadata \<Rightarrow> SessionRouteMetadata" where
  "overlay_route base over =
     \<lparr> ro_provider = nullish (ro_provider over) (ro_provider base),
       ro_surface = nullish (ro_surface over) (ro_surface base),
       ro_accountId = nullish (ro_accountId over) (ro_accountId base),
       ro_channelId = nullish (ro_channelId over) (ro_channelId base),
       ro_conversationId = nullish (ro_conversationId over) (ro_conversationId base),
       ro_threadId = nullish (ro_threadId over) (ro_threadId base),
       ro_messageId = nullish (ro_messageId over) (ro_messageId base),
       ro_from = nullish (ro_from over) (ro_from base),
       ro_to = nullish (ro_to over) (ro_to base),
       ro_senderId = nullish (ro_senderId over) (ro_senderId base),
       ro_senderName = nullish (ro_senderName over) (ro_senderName base) \<rparr>"

definition mergeRouteMetadata ::
  "SessionRouteMetadata option \<Rightarrow> SessionRouteMetadata option \<Rightarrow> SessionRouteMetadata option" where
  "mergeRouteMetadata base over = some_route (overlay_route (default_to no_route base) (default_to no_route over))"

definition routeFromParsedSession :: "ParsedSessionKey option \<Rightarrow> SessionRouteMetadata option" where
  "routeFromParsedSession parsed =
     (case parsed of None \<Rightarrow> None
      | Some p \<Rightarrow> some_route (no_route\<lparr>ro_provider := ps_provider p, ro_surface := ps_surface p,
          ro_accountId := ps_accountId p, ro_threadId := ps_threadToken p\<rparr>))"

definition buildRouteKey :: "SessionRouteMetadata option \<Rightarrow> string option" where
  "buildRouteKey route =
     (case route of None \<Rightarrow> None
      | Some r \<Rightarrow>
          (let parts = map (\<lambda>(key, v). key @ ''='' @ the v) (filter (\<lambda>(key, v). non_blank_opt v)
             [(''provider'', ro_provider r), (''surface'', ro_surface r), (''accountId'', ro_accountId r),
              (''channelId'', ro_channelId r), (''conversationId'', ro_conversationId r),
              (''threadId'', ro_threadId r)])
           in if parts \<noteq> [] then Some (js_join ''|'' parts) else None))"

text \<open>
  The test of the source is \<open>Boolean(candidate?.isThreadScoped ?? candidate?.provider ?? candidate?.surface)\<close>;
  \<open>isThreadScoped\<close> is a boolean of every parsed key, so the other operands are never reached.
\<close>

definition parsed_candidate :: "ParsedSessionKey option \<Rightarrow> bool" where
  "parsed_candidate candidate =
     (case map_option ps_isThreadScoped candidate of
        Some b \<Rightarrow> b
      | None \<Rightarrow> truthy_str (nullish (Option.bind candidate ps_provider) (Option.bind candidate ps_surface)))"

definition find_parsed :: "(ParsedSessionKey option \<Rightarrow> bool) \<Rightarrow> string list \<Rightarrow> ParsedSessionKey option" where
  "find_parsed P keys = Option.bind (List.find P (map (\<lambda>k. parseSessionKey (Some k)) keys)) (\<lambda>p. p)"

definition pickParsedRoute :: "string list \<Rightarrow> SessionRouteMetadata option" where
  "pickParsedRoute sessionKeys = routeFromParsedSession (find_parsed parsed_candidate sessionKeys)"

definition pickPreferredParsedSession :: "SessionRecord \<Rightarrow> ParsedSessionKey option" where
  "pickPreferredParsedSession r =
     (case find_parsed (\<lambda>p. case p of None \<Rightarrow> False | Some k \<Rightarrow> ps_isThreadScoped k) (se_sessionKeys r) of
        Some p \<Rightarrow> Some p
      | None \<Rightarrow> find_parsed (\<lambda>p. p \<noteq> None) (se_strongSessionKeys r))"

definition selectRouteCandidates :: "SessionRecord \<Rightarrow> string option \<Rightarrow> RouteObservation list" where
  "selectRouteCandidates r runId =
     (let observations = map snd (se_routeObservations r) in
      if non_blank_opt runId then
        (let byRun = filter (\<lambda>ob. the runId \<in> set (ob_runIds ob)) observations
         in if byRun \<noteq> [] then byRun else observations)
      else observations)"

definition pruneExpiredRoutes :: "int \<Rightarrow> int \<Rightarrow> SessionRecord \<Rightarrow> SessionRecord" where
  "pruneExpiredRoutes routeTtlMs now r =
     r\<lparr>se_routeObservations := filter (\<lambda>(k, ob). \<not> now - ob_lastSeenAt ob > routeTtlMs) (se_routeObservations r)\<rparr>"

section \<open>Merging records\<close>

definition or_undefined :: "int \<Rightarrow> int option" where
  "or_undefined n = (if n = 0 then None else Some n)"

definition merge_observation :: "RouteObservation option \<Rightarrow> string \<Rightarrow> RouteObservation \<Rightarrow> RouteObservation" where
  "merge_observation current routeKey ob =
     \<lparr> ob_routeKey = routeKey,
       ob_route = default_to (ob_route ob) (mergeRouteMetadata (map_option ob_route current) (Some (ob_route ob))),
       ob_firstSeenAt = min (default_to (ob_firstSeenAt ob) (map_option ob_firstSeenAt current)) (ob_firstSeenAt ob),
       ob_lastSeenAt = max (default_to (ob_lastSeenAt ob) (map_option ob_lastSeenAt current)) (ob_lastSeenAt ob),
       ob_lastInboundAt = or_undefined (max (default_to 0 (Option.bind current ob_lastInboundAt))
          (default_to 0 (ob_lastInboundAt ob))),
       ob_lastOutboundAt = or_undefined (max (default_to 0 (Option.bind current ob_lastOutboundAt))
          (default_to 0 (ob_lastOutboundAt ob))),
       ob_runIds = fold sadd (ob_runIds ob) (default_to [] (map_option ob_runIds current)) \<rparr>"

text \<open>What merging one record into the primary one does to the primary record.\<close>

definition absorb_record :: "SessionRecord \<Rightarrow> SessionRecord \<Rightarrow> SessionRecord" where
  "absorb_record r primary =
     primary\<lparr>se_sessionIds := fold sadd (se_sessionIds r) (se_sessionIds primary),
       se_sessionKeys := fold sadd (se_sessionKeys r) (se_sessionKeys primary),
       se_strongSessionKeys := fold sadd (se_strongSessionKeys r) (se_strongSessionKeys primary),
       se_runIds := fold sadd (se_runIds r) (se_runIds primary),
       se_routeObservations := fold (\<lambda>(k, ob) m. mput k (merge_observation (mget m k) k ob) m)
          (se_routeObservations r) (se_routeObservations primary),
       se_agentId := nullish (se_agentId primary) (se_agentId r),
       se_parentAgentId := nullish (se_parentAgentId primary) (se_parentAgentId r),
       se_parentSessionId := nullish (se_parentSessionId primary) (se_parentSessionId r),
       se_parentSessionKey := nullish (se_parentSessionKey primary) (se_parentSessionKey r),
       se_lastTouchedAt := max (se_lastTouchedAt primary) (se_lastTouchedAt r)\<rparr>"

section \<open>Index entries\<close>

type_synonym session_index = "(string, nat list) jsmap"

definition index_get :: "session_index \<Rightarrow> string \<Rightarrow> nat list" where
  "index_get m k = default_to [] (mget m k)"

definition addIndexEntry :: "nat \<Rightarrow> string \<Rightarrow> session_index \<Rightarrow> session_index" where
  "addIndexEntry recordId key m = mput key (sadd recordId (index_get m key)) m"

definition collectIndexEntries :: "session_index \<Rightarrow> string \<Rightarrow> nat list \<Rightarrow> nat list" where
  "collectIndexEntries m key target = fold sadd (index_get m key) target"

definition removeIndexEntry :: "nat \<Rightarrow> nat option \<Rightarrow> string \<Rightarrow> session_index \<Rightarrow> session_index" where
  "removeIndexEntry recordId preserve key m =
     (case mget m key of None \<Rightarrow> m
      | Some current \<Rightarrow>
          (let c1 = removeAll recordId current;
               c2 = (case preserve of None \<Rightarrow> c1 | Some p \<Rightarrow> sadd p c1)
           in if c2 = [] then mdel key m else mput key c2 m))"

end
