(* ===== verification/SessionTracker.thy ===== *)
theory SessionTracker imports SessionKeys begin

text \<open>
  The session tracker, \<open>src/hooks/session-tracker.ts\<close>: records of logical sessions, three indexes
  from identifiers to records, resolution with explicit ambiguity, merging, expiry of routes.
  The clock is an argument of every operation.
\<close>

section \<open>State\<close>

record tracker =
  tr_routeTtlMs :: int
  tr_records :: "(nat, SessionRecord) jsmap"
  tr_bySessionId :: session_index
  tr_bySessionKey :: session_index
  tr_byRunId :: session_index
  tr_nextId :: nat

definition new_tracker :: "int option \<Rightarrow> tracker" where
  "new_tracker routeTtlMs =
     \<lparr> tr_routeTtlMs = default_to 600000 routeTtlMs, tr_records = [], tr_bySessionId = [], tr_bySessionKey = [],
       tr_byRunId = [], tr_nextId = 0 \<rparr>"

definition put_record :: "SessionRecord \<Rightarrow> tracker \<Rightarrow> tracker" where
  "put_record r t = t\<lparr>tr_records := mput (se_recordId r) r (tr_records t)\<rparr>"

definition createRecord :: "int \<Rightarrow> tracker \<Rightarrow> SessionRecord \<times> tracker" where
  "createRecord now t =
     (let r = \<lparr> se_recordId = tr_nextId t, se_startTime = now, se_lastTouchedAt = now, se_agentId = None,
            se_parentAgentId = None, se_parentSessionId = None, se_parentSessionKey = None, se_sessionIds = [],
            se_sessionKeys = [], se_strongSessionKeys = [], se_runIds = [], se_routeObservations = [] \<rparr>
      in (r, put_record r (t\<lparr>tr_nextId := Suc (tr_nextId t)\<rparr>)))"

section \<open>Resolution\<close>

definition matching_ids :: "ObserveSessionParams \<Rightarrow> bool \<Rightarrow> tracker \<Rightarrow> nat list" where
  "matching_ids p strongOnly t =
     (let byId = (if strongOnly then fold (collectIndexEntries (tr_bySessionId t)) (observed_ids p) [] else []);
          byKey = fold (collectIndexEntries (tr_bySessionKey t))
            (filter (\<lambda>k. isStrongSessionKey (Some k) = strongOnly) (observed_keys p)) byId
      in if strongOnly \<and> non_blank_opt (op_runId p)
         then collectIndexEntries (tr_byRunId t) (the (op_runId p)) byKey else byKey)"

definition findMatchingRecords :: "ObserveSessionParams \<Rightarrow> bool \<Rightarrow> tracker \<Rightarrow> SessionRecord list" where
  "findMatchingRecords p strongOnly t = List.map_filter (mget (tr_records t)) (matching_ids p strongOnly t)"

text \<open>Without \<open>strongOnly\<close> both kinds of identifiers are used.\<close>

definition findAnyRecords :: "ObserveSessionParams \<Rightarrow> tracker \<Rightarrow> SessionRecord list" where
  "findAnyRecords p t =
     (let byId = fold (collectIndexEntries (tr_bySessionId t)) (observed_ids p) [];
          byKey = fold (collectIndexEntries (tr_bySessionKey t)) (observed_keys p) byId;
          ids = (if non_blank_opt (op_runId p)
            then collectIndexEntries (tr_byRunId t) (the (op_runId p)) byKey else byKey)
      in List.map_filter (mget (tr_records t)) ids)"

text \<open>The entries of a record in the indexes are made for, or taken from, a record id.\<close>

definition index_record :: "nat \<Rightarrow> SessionRecord \<Rightarrow> tracker \<Rightarrow> tracker" where
  "index_record recordId r t =
     t\<lparr>tr_bySessionId := fold (addIndexEntry recordId) (se_sessionIds r) (tr_bySessionId t),
       tr_bySessionKey := fold (addIndexEntry recordId) (se_sessionKeys r) (tr_bySessionKey t),
       tr_byRunId := fold (addIndexEntry recordId) (se_runIds r) (tr_byRunId t)\<rparr>"

definition removeRecord :: "nat option \<Rightarrow> SessionRecord \<Rightarrow> tracker \<Rightarrow> tracker" where
  "removeRecord preserve r t =
     t\<lparr>tr_records := mdel (se_recordId r) (tr_records t),
       tr_bySessionId := fold (removeIndexEntry (se_recordId r) preserve) (se_sessionIds r) (tr_bySessionId t),
       tr_bySessionKey := fold (removeIndexEntry (se_recordId r) preserve) (se_sessionKeys r) (tr_bySessionKey t),
       tr_byRunId := fold (removeIndexEntry (se_recordId r) preserve) (se_runIds r) (tr_byRunId t)\<rparr>"

definition mergeRecords :: "SessionRecord list \<Rightarrow> tracker \<Rightarrow> SessionRecord \<times> tracker" where
  "mergeRecords records t =
     (let primary = fold absorb_record (tl records) (hd records);
          t1 = put_record primary (fold (index_record (se_recordId primary)) (tl records) t)
      in (primary, fold (removeRecord (Some (se_recordId primary))) (tl records) t1))"

datatype resolution =
    Resolved SessionRecord
  | Ambiguous "SessionRecord list"

definition resolveUniqueRecord :: "ObserveSessionParams \<Rightarrow> tracker \<Rightarrow> resolution option \<times> tracker" where
  "resolveUniqueRecord p t =
     (let strongMatches = findMatchingRecords p True t in
      if length strongMatches > 1 then
        (case mergeRecords strongMatches t of (r, t1) \<Rightarrow> (Some (Resolved r), t1))
      else if length strongMatches = 1 then (Some (Resolved (hd strongMatches)), t)
      else
        let weakMatches = findMatchingRecords p False t in
        if length weakMatches > 1 then (Some (Ambiguous weakMatches), t)
        else if length weakMatches = 1 then (Some (Resolved (hd weakMatches)), t)
        else (None, t))"

section \<open>Observations\<close>

definition observe_route :: "ObserveSessionParams \<Rightarrow> int \<Rightarrow> SessionRecord \<Rightarrow> SessionRecord" where
  "observe_route p now r =
     (let observedRoute = mergeRouteMetadata (pickParsedRoute (observed_keys p)) (op_route p) in
      case (buildRouteKey observedRoute, observedRoute) of
        (Some routeKey, Some route) \<Rightarrow>
          (let current = mget (se_routeObservations r) routeKey;
               next = \<lparr> ob_routeKey = routeKey,
                 ob_route = default_to route (mergeRouteMetadata (map_option ob_route current) (Some route)),
                 ob_firstSeenAt = default_to now (map_option ob_firstSeenAt current),
                 ob_lastSeenAt = now,
                 ob_lastInboundAt = (if op_direction p = Some ''inbound'' then Some now
                    else Option.bind current ob_lastInboundAt),
                 ob_lastOutboundAt = (if op_direction p = Some ''outbound'' then Some now
                    else Option.bind current ob_lastOutboundAt),
                 ob_runIds = (let runs = default_to [] (map_option ob_runIds current) in
                    if non_blank_opt (op_runId p) then sadd (the (op_runId p)) runs else runs) \<rparr>
           in r\<lparr>se_routeObservations := mput routeKey next (se_routeObservations r)\<rparr>)
      | _ \<Rightarrow> r)"

definition observed_record :: "ObserveSessionParams \<Rightarrow> int \<Rightarrow> SessionRecord \<Rightarrow> SessionRecord" where
  "observed_record p now r =
     r\<lparr>se_sessionIds := fold sadd (observed_ids p) (se_sessionIds r),
       se_sessionKeys := fold sadd (observed_keys p) (se_sessionKeys r),
       se_strongSessionKeys := fold sadd (filter (\<lambda>k. isStrongSessionKey (Some k)) (observed_keys p))
         (se_strongSessionKeys r),
       se_runIds := (if non_blank_opt (op_runId p) then sadd (the (op_runId p)) (se_runIds r) else se_runIds r),
       se_lastTouchedAt := now,
       se_agentId := nullish (op_agentId p) (se_agentId r),
       se_parentAgentId := nullish (op_parentAgentId p) (se_parentAgentId r),
       se_parentSessionId := nullish (op_parentSessionId p) (se_parentSessionId r),
       se_parentSessionKey := nullish (op_parentSessionKey p) (se_parentSessionKey r)\<rparr>"

definition index_observed :: "ObserveSessionParams \<Rightarrow> nat \<Rightarrow> tracker \<Rightarrow> tracker" where
  "index_observed p recordId t =
     t\<lparr>tr_bySessionId := fold (addIndexEntry recordId) (observed_ids p) (tr_bySessionId t),
       tr_bySessionKey := fold (addIndexEntry recordId) (observed_keys p) (tr_bySessionKey t),
       tr_byRunId := (if non_blank_opt (op_runId p) then addIndexEntry recordId (the (op_runId p)) (tr_byRunId t)
         else tr_byRunId t)\<rparr>"

definition add_observation :: "ObserveSessionParams \<Rightarrow> int \<Rightarrow> SessionRecord \<Rightarrow> tracker \<Rightarrow> tracker" where
  "add_observation p now r t =
     put_record (observe_route p now (observed_record p now r)) (index_observed p (se_recordId r) t)"

definition observeSession :: "ObserveSessionParams \<Rightarrow> int \<Rightarrow> tracker \<Rightarrow> tracker" where
  "observeSession p now t =
     (if \<not> hasStrongIdentifiers p \<and> \<not> (truthy_str (op_runId p) \<and> mhas (tr_byRunId t) (the (op_runId p))) then t
      else
        (case resolveUniqueRecord p t of
           (Some (Ambiguous ms), t1) \<Rightarrow> t1
         | (Some (Resolved r), t1) \<Rightarrow> add_observation p now r t1
         | (None, t1) \<Rightarrow> (case createRecord now t1 of (r, t2) \<Rightarrow> add_observation p now r t2)))"

datatype start_error = SessionKeyRequired

definition startSession :: "ObserveSessionParams \<Rightarrow> int \<Rightarrow> tracker \<Rightarrow> start_error + tracker" where
  "startSession p now t =
     (if \<not> non_blank_opt (op_sessionId p) \<and> \<not> non_blank_opt (op_sessionKey p) then Inl SessionKeyRequired
      else Inr (observeSession p now t))"

definition startSessionKey ::
  "string \<Rightarrow> string option \<Rightarrow> string option \<Rightarrow> int \<Rightarrow> tracker \<Rightarrow> start_error + tracker" where
  "startSessionKey sessionKey agentId parentSessionId now t =
     (if \<not> non_blank sessionKey then Inl SessionKeyRequired
      else Inr (observeSession (no_params\<lparr>op_sessionKey := Some sessionKey, op_aliasSessionKeys := Some [sessionKey],
             op_agentId := agentId, op_parentSessionId := parentSessionId\<rparr>) now t))"

section \<open>Queries and the end of a session\<close>

definition identifier_params :: "string \<Rightarrow> ObserveSessionParams" where
  "identifier_params x = no_params\<lparr>op_sessionId := Some x, op_sessionKey := Some x,
     op_aliasSessionIds := Some [x], op_aliasSessionKeys := Some [x]\<rparr>"

record SessionRecordSnapshot =
  sn_agentId :: "string option"
  sn_parentSessionId :: "string option"
  sn_durationMs :: int
  sn_sessionId :: "string option"
  sn_sessionKey :: "string option"

definition record_snapshot :: "(string \<Rightarrow> string \<Rightarrow> bool) \<Rightarrow> int \<Rightarrow> SessionRecord \<Rightarrow> SessionRecordSnapshot" where
  "record_snapshot le now r =
     \<lparr> sn_agentId = se_agentId r, sn_parentSessionId = se_parentSessionId r,
       sn_durationMs = now - se_startTime r,
       sn_sessionId = nth_opt (sorted_strings le (se_sessionIds r)) 0,
       sn_sessionKey = nth_opt (sorted_strings le (se_sessionKeys r)) 0 \<rparr>"

definition endSession ::
  "(string \<Rightarrow> string \<Rightarrow> bool) \<Rightarrow> string \<Rightarrow> int \<Rightarrow> tracker \<Rightarrow> SessionRecordSnapshot option \<times> tracker" where
  "endSession le x now t =
     (case resolveUniqueRecord (identifier_params x) t of
        (Some (Resolved r), t1) \<Rightarrow> (Some (record_snapshot le now r), removeRecord None r t1)
      | (_, t1) \<Rightarrow> (None, t1))"

definition getSession ::
  "(string \<Rightarrow> string \<Rightarrow> bool) \<Rightarrow> string option \<Rightarrow> int \<Rightarrow> tracker \<Rightarrow> SessionRecordSnapshot option \<times> tracker" where
  "getSession le x now t =
     (if \<not> non_blank_opt x then (None, t)
      else
        (case resolveUniqueRecord (identifier_params (the x)) t of
           (Some (Resolved r), t1) \<Rightarrow> (Some (record_snapshot le now r), t1)
         | (_, t1) \<Rightarrow> (None, t1)))"

definition getAgentIdBySession :: "string option \<Rightarrow> string option \<Rightarrow> tracker \<Rightarrow> string option" where
  "getAgentIdBySession sessionId sessionKey t =
     (let candidates = findAnyRecords (no_params\<lparr>op_sessionId := sessionId, op_sessionKey := sessionKey,
            op_aliasSessionIds := Some (if truthy_str sessionId then [the sessionId] else []),
            op_aliasSessionKeys := Some (if truthy_str sessionKey then [the sessionKey] else [])\<rparr>) t;
          agentIds = dedupe_strings (map se_agentId candidates)
      in case agentIds of [a] \<Rightarrow> Some a | _ \<Rightarrow> None)"

record SessionProvenanceSnapshot =
  pv_agentId :: "string option"
  pv_parentAgentId :: "string option"
  pv_parentSessionId :: "string option"
  pv_parentSessionKey :: "string option"
  pv_sessionIds :: "string list"
  pv_sessionKeys :: "string list"
  pv_routeKeys :: "string list"
  pv_parsedSession :: "ParsedSessionKey option"
  pv_route :: "SessionRouteMetadata option"
  pv_routeResolution :: string

definition requested_parsed :: "ObserveSessionParams \<Rightarrow> ParsedSessionKey option" where
  "requested_parsed p =
     nullish (parseSessionKey (op_sessionKey p)) (parseSessionKey (List.find non_blank (alias_keys p)))"

definition selected_parsed :: "ObserveSessionParams \<Rightarrow> SessionRecord \<Rightarrow> ParsedSessionKey option" where
  "selected_parsed p r =
     (let requested = requested_parsed p;
          telling = (case requested of None \<Rightarrow> False
            | Some k \<Rightarrow> ps_isThreadScoped k \<or> truthy_str (ps_provider k) \<or> truthy_str (ps_surface k))
      in nullish (if telling then requested else None) (nullish (pickPreferredParsedSession r) requested))"

definition collect_all :: "('r \<Rightarrow> string list) \<Rightarrow> 'r list \<Rightarrow> string list" where
  "collect_all f rs = fold (\<lambda>r xs. fold sadd (f r) xs) rs []"

definition getSessionProvenance ::
  "(string \<Rightarrow> string \<Rightarrow> bool) \<Rightarrow> ObserveSessionParams \<Rightarrow> int \<Rightarrow> tracker \<Rightarrow> SessionProvenanceSnapshot \<times> tracker" where
  "getSessionProvenance le p now t =
     (let nothing = \<lparr> pv_agentId = None, pv_parentAgentId = None, pv_parentSessionId = None,
            pv_parentSessionKey = None, pv_sessionIds = [], pv_sessionKeys = [], pv_routeKeys = [],
            pv_parsedSession = requested_parsed p, pv_route = None, pv_routeResolution = ''unavailable'' \<rparr> in
      case resolveUniqueRecord p t of
        (None, t1) \<Rightarrow>
          (nothing\<lparr>pv_sessionIds := observed_ids p,
             pv_sessionKeys := dedupe_strings (op_sessionKey p # map Some (alias_keys p) @
               map Some (filter looksLikeSessionKey (alias_ids p)))\<rparr>, t1)
      | (Some (Ambiguous ms), t1) \<Rightarrow>
          (let pruned = map (pruneExpiredRoutes (tr_routeTtlMs t1) now) ms in
           (nothing\<lparr>pv_sessionIds := sorted_strings le (collect_all se_sessionIds pruned),
              pv_sessionKeys := sorted_strings le (collect_all se_sessionKeys pruned),
              pv_routeKeys := sorted_strings le (collect_all (\<lambda>r. mkeys (se_routeObservations r)) pruned),
              pv_routeResolution := ''ambiguous''\<rparr>, fold put_record pruned t1))
      | (Some (Resolved r0), t1) \<Rightarrow>
          (let r = pruneExpiredRoutes (tr_routeTtlMs t1) now r0;
               routeCandidates = selectRouteCandidates r (op_runId p)
           in (\<lparr> pv_agentId = se_agentId r, pv_parentAgentId = se_parentAgentId r,
                 pv_parentSessionId = se_parentSessionId r, pv_parentSessionKey = se_parentSessionKey r,
                 pv_sessionIds = sorted_strings le (se_sessionIds r),
                 pv_sessionKeys = sorted_strings le (se_sessionKeys r),
                 pv_routeKeys = sorted_strings le (mkeys (se_routeObservations r)),
                 pv_parsedSession = selected_parsed p r,
                 pv_route = (if length routeCandidates = 1 then Some (ob_route (hd routeCandidates)) else None),
                 pv_routeResolution = (if length routeCandidates = 1 then ''resolved''
                   else if length routeCandidates > 1 then ''ambiguous'' else ''unavailable'') \<rparr>,
               put_record r t1)))"

definition getActiveSessions :: "(string \<Rightarrow> string \<Rightarrow> bool) \<Rightarrow> tracker \<Rightarrow> string list" where
  "getActiveSessions le t =
     sorted_strings le (collect_all (\<lambda>(i, r). se_sessionIds r @ se_sessionKeys r) (tr_records t))"

definition getActiveSessionCount :: "tracker \<Rightarrow> nat" where
  "getActiveSessionCount t = length (tr_records t)"

definition clear_tracker :: "tracker \<Rightarrow> tracker" where
  "clear_tracker t = t\<lparr>tr_records := [], tr_bySessionId := [], tr_bySessionKey := [], tr_byRunId := []\<rparr>"

datatype tracker_op =
    Observe ObserveSessionParams int
  | EndSession string int
  | GetSession "string option" int
  | GetProvenance ObserveSessionParams int
  | ClearTracker

definition tracker_step :: "(string \<Rightarrow> string \<Rightarrow> bool) \<Rightarrow> tracker_op \<Rightarrow> tracker \<Rightarrow> tracker" where
  "tracker_step le op t =
     (case op of
        Observe p now \<Rightarrow> observeSession p now t
      | EndSession x now \<Rightarrow> snd (endSession le x now t)
      | GetSession x now \<Rightarrow> snd (getSession le x now t)
      | GetProvenance p now \<Rightarrow> snd (getSessionProvenance le p now t)
      | ClearTracker \<Rightarrow> clear_tracker t)"

section \<open>Owners of an identifier\<close>

text \<open>The three indexes as one relation from identifiers to record ids.\<close>

datatype ident =
    SessionId string
  | SessionKey string
  | RunId string

definition owners :: "tracker \<Rightarrow> ident \<Rightarrow> nat set" where
  "owners t x = set (case x of
       SessionId k \<Rightarrow> index_get (tr_bySessionId t) k
     | SessionKey k \<Rightarrow> index_get (tr_bySessionKey t) k
     | RunId k \<Rightarrow> index_get (tr_byRunId t) k)"

definition has_ident :: "SessionRecord \<Rightarrow> ident \<Rightarrow> bool" where
  "has_ident r x = (case x of
       SessionId k \<Rightarrow> k \<in> set (se_sessionIds r)
     | SessionKey k \<Rightarrow> k \<in> set (se_sessionKeys r)
     | RunId k \<Rightarrow> k \<in> set (se_runIds r))"

definition mentions :: "ObserveSessionParams \<Rightarrow> ident \<Rightarrow> bool" where
  "mentions p x = (case x of
       SessionId k \<Rightarrow> k \<in> set (observed_ids p)
     | SessionKey k \<Rightarrow> k \<in> set (observed_keys p)
     | RunId k \<Rightarrow> non_blank_opt (op_runId p) \<and> op_runId p = Some k)"

definition strong_ident :: "ident \<Rightarrow> bool" where
  "strong_ident x = (case x of SessionKey k \<Rightarrow> isStrongSessionKey (Some k) | _ \<Rightarrow> True)"

definition index_full :: "session_index \<Rightarrow> bool" where
  "index_full m = (\<forall>k. mget m k \<noteq> Some [])"

definition indexes_full :: "tracker \<Rightarrow> bool" where
  "indexes_full t = (index_full (tr_bySessionId t) \<and> index_full (tr_bySessionKey t) \<and> index_full (tr_byRunId t))"

subsection \<open>One index\<close>

lemma index_get_add [simp]:
  "set (index_get (addIndexEntry i k m) j) = set (index_get m j) \<union> (if j = k then {i} else {})"
  by (auto simp: addIndexEntry_def index_get_def)

lemma index_get_adds [simp]:
  "set (index_get (fold (addIndexEntry i) ks m) j) = set (index_get m j) \<union> (if j \<in> set ks then {i} else {})"
  by (induction ks arbitrary: m) auto

lemma index_full_adds: "index_full m \<Longrightarrow> index_full (fold (addIndexEntry i) ks m)"
proof (induction ks arbitrary: m)
  case (Cons k ks)
  have "index_full (addIndexEntry i k m)"
    using Cons.prems by (auto simp: index_full_def addIndexEntry_def sadd_def)
  then show ?case using Cons.IH by simp
qed simp

lemma index_get_empty: "index_full m \<Longrightarrow> index_get m k = [] \<longleftrightarrow> mget m k = None"
  by (auto simp: index_full_def index_get_def split: option.splits) (metis default_to_simps option.exhaust)

lemma index_full_remove: "index_full m \<Longrightarrow> index_full (removeIndexEntry i preserve k m)"
  by (auto simp: index_full_def removeIndexEntry_def Let_def split: option.splits)

lemma index_get_remove:
  assumes "index_full m"
  shows "set (index_get (removeIndexEntry i preserve k m) j) =
    (if j = k \<and> index_get m k \<noteq> [] then set (index_get m j) - {i} \<union> set_option preserve
     else set (index_get m j))"
proof (cases "mget m k")
  case None
  then show ?thesis by (auto simp: removeIndexEntry_def index_get_def)
next
  case (Some c)
  then have "c \<noteq> []" using assms by (auto simp: index_full_def)
  moreover have "set (removeAll i c) = set c - {i}" by simp
  moreover have "sadd p (removeAll i c) \<noteq> []" for p using set_sadd [of p "removeAll i c"] by (metis empty_iff empty_set insertI1)
  ultimately show ?thesis
    using Some by (cases preserve)
      (auto simp: removeIndexEntry_def index_get_def Let_def simp del: set_removeAll)
qed

lemma index_full_removes: "index_full m \<Longrightarrow> index_full (fold (removeIndexEntry i preserve) ks m)"
  by (induction ks arbitrary: m) (auto intro: index_full_remove)

lemma index_get_removes:
  assumes "index_full m" and "preserve \<noteq> Some i"
  shows "set (index_get (fold (removeIndexEntry i preserve) ks m) j) =
    (if j \<in> set ks \<and> index_get m j \<noteq> [] then set (index_get m j) - {i} \<union> set_option preserve
     else set (index_get m j))"
  using assms(1)
proof (induction ks arbitrary: m)
  case (Cons k ks)
  let ?m = "removeIndexEntry i preserve k m"
  have e: "index_get ?m j = [] \<longleftrightarrow> set (index_get ?m j) = {}" by simp
  have "set (index_get (fold (removeIndexEntry i preserve) (k # ks) m) j) =
    (if j \<in> set ks \<and> index_get ?m j \<noteq> [] then set (index_get ?m j) - {i} \<union> set_option preserve
     else set (index_get ?m j))"
    using Cons.IH [OF index_full_remove [OF Cons.prems]] by simp
  then show ?case
    unfolding e using assms(2) by (cases preserve) (auto simp: index_get_remove [OF Cons.prems])
qed simp

subsection \<open>All indexes\<close>

lemma owners_index_record [simp]:
  "owners (index_record i r t) x = owners t x \<union> (if has_ident r x then {i} else {})"
  by (cases x) (simp_all add: owners_def has_ident_def index_record_def)

lemma owners_index_observed [simp]:
  "owners (index_observed p i t) x = owners t x \<union> (if mentions p x then {i} else {})"
  by (cases x; cases "op_runId p") (auto simp: owners_def mentions_def index_observed_def)

lemma owners_remove:
  assumes "indexes_full t" and "preserve \<noteq> Some (se_recordId r)"
  shows "owners (removeRecord preserve r t) x =
    (if has_ident r x \<and> owners t x \<noteq> {} then owners t x - {se_recordId r} \<union> set_option preserve else owners t x)"
  using assms by (cases x) (auto simp: owners_def has_ident_def removeRecord_def indexes_full_def index_get_removes)

lemma owners_records [simp]:
  "owners (put_record r t) x = owners t x" "owners (t\<lparr>tr_records := m\<rparr>) x = owners t x"
  "owners (t\<lparr>tr_nextId := n\<rparr>) x = owners t x"
  by (simp_all add: owners_def put_record_def split: ident.splits)

lemma full_ops:
  "indexes_full t \<Longrightarrow> indexes_full (index_record i r t)"
  "indexes_full t \<Longrightarrow> indexes_full (index_observed p i t)"
  "indexes_full t \<Longrightarrow> indexes_full (removeRecord preserve r t)"
  "indexes_full (put_record r t) = indexes_full t"
  by (auto simp: indexes_full_def index_record_def index_observed_def removeRecord_def put_record_def
      intro: index_full_adds index_full_removes) (use index_full_adds [where ks = "[_]"] in simp)

lemma records_ops [simp]:
  "tr_records (index_record i r t) = tr_records t" "tr_records (index_observed p i t) = tr_records t"
  "tr_records (removeRecord preserve r t) = mdel (se_recordId r) (tr_records t)"
  "tr_records (put_record r t) = mput (se_recordId r) r (tr_records t)"
  "tr_nextId (index_record i r t) = tr_nextId t" "tr_nextId (index_observed p i t) = tr_nextId t"
  "tr_nextId (removeRecord preserve r t) = tr_nextId t" "tr_nextId (put_record r t) = tr_nextId t"
  by (simp_all add: index_record_def index_observed_def removeRecord_def put_record_def)

section \<open>Invariant\<close>

definition tracker_inv :: "tracker \<Rightarrow> bool" where
  "tracker_inv t =
     (map_ok (tr_records t) \<and>
      (\<forall>i r. mget (tr_records t) i = Some r \<longrightarrow> se_recordId r = i \<and> i < tr_nextId t) \<and>
      (\<forall>x i. i \<in> owners t x \<longleftrightarrow> (\<exists>r. mget (tr_records t) i = Some r \<and> has_ident r x)) \<and>
      (\<forall>x i j. strong_ident x \<longrightarrow> i \<in> owners t x \<longrightarrow> j \<in> owners t x \<longrightarrow> i = j) \<and>
      indexes_full t)"

lemma tracker_invI:
  assumes "map_ok (tr_records t)"
    and "\<And>i r. mget (tr_records t) i = Some r \<Longrightarrow> se_recordId r = i \<and> i < tr_nextId t"
    and "\<And>x i. i \<in> owners t x \<longleftrightarrow> (\<exists>r. mget (tr_records t) i = Some r \<and> has_ident r x)"
    and "\<And>x i j. strong_ident x \<Longrightarrow> i \<in> owners t x \<Longrightarrow> j \<in> owners t x \<Longrightarrow> i = j"
    and "indexes_full t"
  shows "tracker_inv t"
  using assms unfolding tracker_inv_def by blast

lemma tracker_invD:
  assumes "tracker_inv t"
  shows "map_ok (tr_records t)"
    and "\<And>i r. mget (tr_records t) i = Some r \<Longrightarrow> se_recordId r = i \<and> i < tr_nextId t"
    and "\<And>x i. i \<in> owners t x \<longleftrightarrow> (\<exists>r. mget (tr_records t) i = Some r \<and> has_ident r x)"
    and "\<And>x i j. strong_ident x \<Longrightarrow> i \<in> owners t x \<Longrightarrow> j \<in> owners t x \<Longrightarrow> i = j"
    and "indexes_full t"
  using assms unfolding tracker_inv_def by blast+

lemma strong_owner:
  assumes "tracker_inv t" "strong_ident x"
  shows "card (owners t x) \<le> 1"
proof (cases "owners t x = {}")
  case False
  then obtain i where "i \<in> owners t x" by blast
  then have "owners t x \<subseteq> {i}" using tracker_invD(4) [OF assms] by blast
  then have "card (owners t x) \<le> card {i}" by (intro card_mono) auto
  then show ?thesis by simp
qed simp

section \<open>Lookups\<close>

lemma set_collects: "set (fold (collectIndexEntries m) ks acc) = set acc \<union> (\<Union>k \<in> set ks. set (index_get m k))"
  by (induction ks arbitrary: acc) (auto simp: collectIndexEntries_def)

lemma distinct_collects: "distinct acc \<Longrightarrow> distinct (fold (collectIndexEntries m) ks acc)"
  by (induction ks arbitrary: acc) (auto simp: collectIndexEntries_def)

lemma matching_strong:
  "i \<in> set (matching_ids p True t) \<longleftrightarrow> (\<exists>x. strong_ident x \<and> mentions p x \<and> i \<in> owners t x)"
proof
  assume "i \<in> set (matching_ids p True t)"
  then consider k where "k \<in> set (observed_ids p)" "i \<in> set (index_get (tr_bySessionId t) k)"
    | k where "k \<in> set (observed_keys p)" "isStrongSessionKey (Some k)" "i \<in> set (index_get (tr_bySessionKey t) k)"
    | "non_blank_opt (op_runId p)" "i \<in> set (index_get (tr_byRunId t) (the (op_runId p)))"
    by (auto simp: matching_ids_def Let_def set_collects collectIndexEntries_def split: if_splits)
  then show "\<exists>x. strong_ident x \<and> mentions p x \<and> i \<in> owners t x"
  proof cases
    case (1 k)
    then show ?thesis by (intro exI [of _ "SessionId k"]) (simp add: strong_ident_def mentions_def owners_def)
  next
    case (2 k)
    then show ?thesis by (intro exI [of _ "SessionKey k"]) (simp add: strong_ident_def mentions_def owners_def)
  next
    case 3
    then show ?thesis
      by (intro exI [of _ "RunId (the (op_runId p))"])
        (cases "op_runId p", simp_all add: strong_ident_def mentions_def owners_def)
  qed
next
  assume "\<exists>x. strong_ident x \<and> mentions p x \<and> i \<in> owners t x"
  then obtain x where "strong_ident x" "mentions p x" "i \<in> owners t x" by blast
  then show "i \<in> set (matching_ids p True t)"
    by (cases x) (auto simp: strong_ident_def mentions_def owners_def matching_ids_def Let_def set_collects
        collectIndexEntries_def)
qed

lemma matching_weak:
  "i \<in> set (matching_ids p False t) \<longleftrightarrow> (\<exists>x. \<not> strong_ident x \<and> mentions p x \<and> i \<in> owners t x)"
proof
  assume "i \<in> set (matching_ids p False t)"
  then obtain k where "k \<in> set (observed_keys p)" "\<not> isStrongSessionKey (Some k)"
      "i \<in> set (index_get (tr_bySessionKey t) k)"
    by (auto simp: matching_ids_def Let_def set_collects)
  then show "\<exists>x. \<not> strong_ident x \<and> mentions p x \<and> i \<in> owners t x"
    by (intro exI [of _ "SessionKey k"]) (simp add: strong_ident_def mentions_def owners_def)
next
  assume "\<exists>x. \<not> strong_ident x \<and> mentions p x \<and> i \<in> owners t x"
  then obtain x where "\<not> strong_ident x" "mentions p x" "i \<in> owners t x" by blast
  then show "i \<in> set (matching_ids p False t)"
    by (cases x) (auto simp: strong_ident_def mentions_def owners_def matching_ids_def Let_def set_collects)
qed

lemma distinct_matching: "distinct (matching_ids p strong t)"
  by (simp add: matching_ids_def Let_def distinct_collects collectIndexEntries_def)

lemma matching_valid:
  assumes "tracker_inv t" and "i \<in> set (matching_ids p strong t)"
  obtains r where "mget (tr_records t) i = Some r" "se_recordId r = i"
proof -
  have "\<exists>x. i \<in> owners t x" using assms(2) by (cases strong) (auto simp: matching_strong matching_weak)
  then obtain x where "i \<in> owners t x" ..
  then obtain r where r: "mget (tr_records t) i = Some r" using tracker_invD(3) [OF assms(1)] by blast
  then show thesis using that [OF r] tracker_invD(2) [OF assms(1)] by blast
qed

lemma map_filter_valid:
  assumes "\<And>i. i \<in> set ids \<Longrightarrow> \<exists>r. f i = Some r \<and> g r = i"
  shows "map g (List.map_filter f ids) = ids"
  using assms
proof (induction ids)
  case (Cons i ids)
  then obtain r where "f i = Some r" "g r = i" by (metis list.set_intros(1))
  then show ?case using Cons by (simp add: List.map_filter_simps)
qed (simp add: List.map_filter_simps)

lemma found_ids:
  assumes "tracker_inv t"
  shows "map se_recordId (findMatchingRecords p strong t) = matching_ids p strong t"
  unfolding findMatchingRecords_def
  by (rule map_filter_valid, erule matching_valid [OF assms]) blast

lemma found_records:
  "r \<in> set (findMatchingRecords p strong t) \<Longrightarrow> \<exists>i. mget (tr_records t) i = Some r"
  by (auto simp: findMatchingRecords_def List.map_filter_def)

section \<open>Merging\<close>

lemma has_absorb [simp]: "has_ident (absorb_record r p) x \<longleftrightarrow> has_ident p x \<or> has_ident r x"
  by (cases x) (auto simp: has_ident_def absorb_record_def)

lemma id_absorb [simp]: "se_recordId (absorb_record r p) = se_recordId p"
  by (simp add: absorb_record_def)

lemma fold_absorb [simp]:
  "se_recordId (fold absorb_record rs p) = se_recordId p"
  "has_ident (fold absorb_record rs p) x \<longleftrightarrow> has_ident p x \<or> (\<exists>r \<in> set rs. has_ident r x)"
  by (induction rs arbitrary: p) auto

lemma fold_index_record:
  "owners (fold (index_record i) rs t) x = owners t x \<union> (if \<exists>r \<in> set rs. has_ident r x then {i} else {})"
  "tr_records (fold (index_record i) rs t) = tr_records t"
  "tr_nextId (fold (index_record i) rs t) = tr_nextId t"
  "indexes_full t \<Longrightarrow> indexes_full (fold (index_record i) rs t)"
  by (induction rs arbitrary: t) (auto simp: full_ops)

lemma fold_remove:
  assumes "indexes_full t" and "p \<notin> se_recordId ` set rs"
    and "\<And>x. \<exists>r \<in> set rs. has_ident r x \<Longrightarrow> p \<in> owners t x"
  shows "owners (fold (removeRecord (Some p)) rs t) x =
      owners t x - se_recordId ` {r \<in> set rs. has_ident r x}"
    and "indexes_full (fold (removeRecord (Some p)) rs t)"
    and "tr_records (fold (removeRecord (Some p)) rs t) = fold (\<lambda>r m. mdel (se_recordId r) m) rs (tr_records t)"
    and "tr_nextId (fold (removeRecord (Some p)) rs t) = tr_nextId t"
proof -
  have "owners (fold (removeRecord (Some p)) rs t) x =
      owners t x - se_recordId ` {r \<in> set rs. has_ident r x} \<and>
    indexes_full (fold (removeRecord (Some p)) rs t) \<and>
    tr_records (fold (removeRecord (Some p)) rs t) = fold (\<lambda>r m. mdel (se_recordId r) m) rs (tr_records t) \<and>
    tr_nextId (fold (removeRecord (Some p)) rs t) = tr_nextId t"
    using assms
  proof (induction rs arbitrary: t)
    case (Cons r rs)
    let ?t = "removeRecord (Some p) r t"
    have ne: "p \<noteq> se_recordId r" using Cons.prems(2) by auto
    have o: "owners ?t y = (if has_ident r y then owners t y - {se_recordId r} else owners t y)" for y
      using owners_remove [OF Cons.prems(1), of "Some p" r y] ne Cons.prems(3) [of y] by auto
    have "\<exists>s \<in> set rs. has_ident s y \<Longrightarrow> p \<in> owners ?t y" for y
      using Cons.prems(3) [of y] ne by (auto simp: o)
    then show ?case
      using Cons.IH [of ?t] Cons.prems(1,2) by (auto simp: full_ops o)
  qed simp
  then show "owners (fold (removeRecord (Some p)) rs t) x =
      owners t x - se_recordId ` {r \<in> set rs. has_ident r x}"
    and "indexes_full (fold (removeRecord (Some p)) rs t)"
    and "tr_records (fold (removeRecord (Some p)) rs t) = fold (\<lambda>r m. mdel (se_recordId r) m) rs (tr_records t)"
    and "tr_nextId (fold (removeRecord (Some p)) rs t) = tr_nextId t"
    by blast+
qed

lemma fold_mdel:
  "map_ok m \<Longrightarrow> map_ok (fold (\<lambda>r m. mdel (f r) m) rs m)"
  "mget (fold (\<lambda>r m. mdel (f r) m) rs m) i = (if i \<in> f ` set rs then None else mget m i)"
  by (induction rs arbitrary: m) auto

lemma merge_spec:
  assumes inv: "tracker_inv t" and rs: "rs \<noteq> []" "distinct (map se_recordId rs)"
    and mem: "\<And>r. r \<in> set rs \<Longrightarrow> mget (tr_records t) (se_recordId r) = Some r"
    and m: "mergeRecords rs t = (r, t1)"
  shows "tracker_inv t1" and "mget (tr_records t1) (se_recordId r) = Some r"
    and "\<And>x. owners t x \<subseteq> se_recordId ` set rs \<Longrightarrow> owners t1 x \<subseteq> {se_recordId r}"
proof -
  obtain q rest where c: "rs = q # rest" using rs(1) by (cases rs) auto
  let ?p = "se_recordId q" and ?prim = "fold absorb_record rest q"
  let ?ti = "fold (index_record ?p) rest t"
  let ?tp = "put_record ?prim ?ti"
  have r: "r = ?prim" and t1: "t1 = fold (removeRecord (Some ?p)) rest ?tp"
    using m by (auto simp: mergeRecords_def c Let_def)
  note I = tracker_invD [OF inv]
  have np: "?p \<notin> se_recordId ` set rest" using rs(2) by (auto simp: c)
  have fi: "indexes_full ?tp" using I(5) by (simp add: full_ops fold_index_record)
  have ow: "owners ?tp x = owners t x \<union> (if \<exists>s \<in> set rest. has_ident s x then {?p} else {})" for x
    by (simp add: fold_index_record)
  have "\<exists>s \<in> set rest. has_ident s x \<Longrightarrow> ?p \<in> owners ?tp x" for x unfolding ow by simp
  note F = fold_remove [OF fi np this, folded t1]
  have rec: "mget (tr_records t1) i = (if i \<in> se_recordId ` set rest then None
      else if i = ?p then Some ?prim else mget (tr_records t) i)" for i
    by (simp add: F(3) fold_mdel(2) fold_index_record)
  have ok: "map_ok (tr_records t1)" by (simp add: F(3) fold_mdel(1) fold_index_record I(1))
  have own: "owners t1 x = (owners t x \<union> (if \<exists>s \<in> set rest. has_ident s x then {?p} else {})) -
      se_recordId ` {s \<in> set rest. has_ident s x}" for x
    using F(1) [of x] by (simp only: ow)
  have mine: "i \<in> owners t x \<longleftrightarrow> (\<exists>s. mget (tr_records t) i = Some s \<and> has_ident s x)" for i x by (rule I(3))
  have restI: "i \<in> owners t x \<Longrightarrow> i \<in> se_recordId ` set rest \<Longrightarrow> i \<in> se_recordId ` {s \<in> set rest. has_ident s x}" for i x
    using mine mem by (auto simp: c)
  have q: "mget (tr_records t) ?p = Some q" using mem by (simp add: c)
  show "tracker_inv t1"
  proof (rule tracker_invI)
    show "map_ok (tr_records t1)" by (rule ok)
    show "se_recordId s = i \<and> i < tr_nextId t1" if "mget (tr_records t1) i = Some s" for i s
    proof -
      have n: "tr_nextId t1 = tr_nextId t" by (simp add: F(4) fold_index_record)
      have "(i = ?p \<and> s = ?prim) \<or> mget (tr_records t) i = Some s" using that by (simp add: rec split: if_splits)
      then show ?thesis using I(2) [OF q] I(2) [of i s] unfolding n by auto
    qed
    show "i \<in> owners t1 x \<longleftrightarrow> (\<exists>s. mget (tr_records t1) i = Some s \<and> has_ident s x)" for x i
    proof (cases "i \<in> se_recordId ` set rest")
      case True
      then have "i \<noteq> ?p" using np by blast
      then have "i \<notin> owners t1 x" unfolding own using restI [of i x] True by (simp split: if_splits)
      with True show ?thesis by (simp add: rec)
    next
      case out: False
      show ?thesis
      proof (cases "i = ?p")
        case True
        then show ?thesis using np mine [of i x] q by (auto simp: own rec)
      next
        case False
        then show ?thesis using out mine [of i x] by (auto simp: own rec)
      qed
    qed
    show "i = j" if "strong_ident x" "i \<in> owners t1 x" "j \<in> owners t1 x" for x i j
    proof (cases "\<exists>s \<in> set rest. has_ident s x")
      case True
      then obtain s where s: "s \<in> set rest" "has_ident s x" by blast
      then have so: "se_recordId s \<in> owners t x" using mine mem by (auto simp: c)
      have "k \<in> owners t1 x \<Longrightarrow> k = ?p" for k
        using I(4) [OF that(1) _ so] s by (auto simp: own split: if_splits)
      then show ?thesis using that by metis
    next
      case False
      then show ?thesis using that I(4) by (auto simp: own split: if_splits)
    qed
    show "indexes_full t1" by (rule F(2))
  qed
  show "mget (tr_records t1) (se_recordId r) = Some r" using np by (simp add: rec r)
  show "owners t1 x \<subseteq> {se_recordId r}" if "owners t x \<subseteq> se_recordId ` set rs" for x
    using that restI [of _ x] by (auto simp: own r c split: if_splits)
qed

section \<open>Resolution\<close>

lemma resolve_spec:
  assumes inv: "tracker_inv t" and res: "resolveUniqueRecord p t = (res, t1)"
  shows "tracker_inv t1"
    and "\<And>r. res = Some (Resolved r) \<Longrightarrow> mget (tr_records t1) (se_recordId r) = Some r"
    and "\<And>r x. res = Some (Resolved r) \<Longrightarrow> strong_ident x \<Longrightarrow> mentions p x \<Longrightarrow> owners t1 x \<subseteq> {se_recordId r}"
    and "\<And>x. (\<nexists>r. res = Some (Resolved r)) \<Longrightarrow> strong_ident x \<Longrightarrow> mentions p x \<Longrightarrow> owners t1 x = {}"
    and "\<And>ms r. res = Some (Ambiguous ms) \<Longrightarrow> r \<in> set ms \<Longrightarrow> mget (tr_records t1) (se_recordId r) = Some r"
proof -
  let ?s = "findMatchingRecords p True t" and ?w = "findMatchingRecords p False t"
  have sid: "se_recordId ` set ?s = set (matching_ids p True t)"
    using arg_cong [OF found_ids [OF inv, of p True], of set] by simp
  have sub: "owners t x \<subseteq> se_recordId ` set ?s" if "strong_ident x" "mentions p x" for x
    using that matching_strong unfolding sid by blast
  have mem: "r \<in> set (findMatchingRecords p b t) \<Longrightarrow> mget (tr_records t) (se_recordId r) = Some r" for r b
    using found_records tracker_invD(2) [OF inv] by metis
  consider (many) "length ?s > 1" | (one) "length ?s = 1" | (none) "?s = []"
    by (cases ?s) (auto simp: less_Suc_eq_0_disj)
  then have "tracker_inv t1 \<and>
    (\<forall>r. res = Some (Resolved r) \<longrightarrow> mget (tr_records t1) (se_recordId r) = Some r \<and>
      (\<forall>x. strong_ident x \<and> mentions p x \<longrightarrow> owners t1 x \<subseteq> {se_recordId r})) \<and>
    ((\<nexists>r. res = Some (Resolved r)) \<longrightarrow> (\<forall>x. strong_ident x \<and> mentions p x \<longrightarrow> owners t1 x = {})) \<and>
    (\<forall>ms r. res = Some (Ambiguous ms) \<longrightarrow> r \<in> set ms \<longrightarrow> mget (tr_records t1) (se_recordId r) = Some r)"
  proof cases
    case many
    obtain r t2 where m: "mergeRecords ?s t = (r, t2)" by (metis surj_pair)
    have rt: "res = Some (Resolved r)" "t1 = t2" using res many m by (auto simp: resolveUniqueRecord_def Let_def)
    have "?s \<noteq> []" "distinct (map se_recordId ?s)" using many by (auto simp: found_ids [OF inv] distinct_matching)
    note M = merge_spec [OF inv this mem m]
    show ?thesis using M sub rt by auto
  next
    case one
    then obtain r where r: "?s = [r]" by (auto simp: length_Suc_conv)
    then have rt: "res = Some (Resolved r)" "t1 = t" using res by (auto simp: resolveUniqueRecord_def Let_def)
    show ?thesis using rt inv mem [of r True] sub by (auto simp: r)
  next
    case none
    have no: "owners t x = {}" if "strong_ident x" "mentions p x" for x using sub [OF that] by (simp add: none)
    have t: "t1 = t" using res none by (auto simp: resolveUniqueRecord_def Let_def split: if_splits)
    have "res = Some (Resolved r) \<Longrightarrow> r \<in> set ?w" for r
      using res none by (cases ?w) (auto simp: resolveUniqueRecord_def Let_def split: if_splits)
    moreover have "res = Some (Ambiguous ms) \<Longrightarrow> ms = ?w" for ms
      using res none by (auto simp: resolveUniqueRecord_def Let_def split: if_splits)
    ultimately show ?thesis using inv no t mem by auto
  qed
  then show "tracker_inv t1"
    and "\<And>r. res = Some (Resolved r) \<Longrightarrow> mget (tr_records t1) (se_recordId r) = Some r"
    and "\<And>r x. res = Some (Resolved r) \<Longrightarrow> strong_ident x \<Longrightarrow> mentions p x \<Longrightarrow> owners t1 x \<subseteq> {se_recordId r}"
    and "\<And>x. (\<nexists>r. res = Some (Resolved r)) \<Longrightarrow> strong_ident x \<Longrightarrow> mentions p x \<Longrightarrow> owners t1 x = {}"
    and "\<And>ms r. res = Some (Ambiguous ms) \<Longrightarrow> r \<in> set ms \<Longrightarrow> mget (tr_records t1) (se_recordId r) = Some r"
    by blast+
qed

section \<open>Operations keep the invariant\<close>

lemma has_observed [simp]:
  "has_ident (observed_record p now r) x \<longleftrightarrow> has_ident r x \<or> mentions p x"
  by (cases x; cases "op_runId p") (auto simp: has_ident_def mentions_def observed_record_def)

lemma observe_route_facts [simp]:
  "has_ident (observe_route p now r) x = has_ident r x" "se_recordId (observe_route p now r) = se_recordId r"
  "se_recordId (observed_record p now r) = se_recordId r"
  by (auto simp: observe_route_def Let_def has_ident_def observed_record_def split: option.splits ident.splits)

lemma prune_facts [simp]:
  "has_ident (pruneExpiredRoutes ttl now r) x = has_ident r x"
  "se_recordId (pruneExpiredRoutes ttl now r) = se_recordId r"
  by (auto simp: pruneExpiredRoutes_def has_ident_def split: ident.splits)

lemma put_same_inv:
  assumes inv: "tracker_inv t" and r0: "mget (tr_records t) (se_recordId r) = Some r0"
    and same: "\<And>x. has_ident r x = has_ident r0 x"
  shows "tracker_inv (put_record r t)"
proof (rule tracker_invI)
  note I = tracker_invD [OF inv]
  show "map_ok (tr_records (put_record r t))" using I(1) by simp
  show "se_recordId s = i \<and> i < tr_nextId (put_record r t)" if "mget (tr_records (put_record r t)) i = Some s" for i s
    using that I(2) [OF r0] I(2) [of i s] by (auto split: if_splits)
  show "i \<in> owners (put_record r t) x \<longleftrightarrow>
      (\<exists>s. mget (tr_records (put_record r t)) i = Some s \<and> has_ident s x)" for x i
    using I(3) [of i x] r0 same by auto
  show "i = j" if "strong_ident x" "i \<in> owners (put_record r t) x" "j \<in> owners (put_record r t) x" for x i j
    using I(4) [OF that(1)] that(2,3) by simp
  show "indexes_full (put_record r t)" using I(5) by (simp add: full_ops)
qed

lemma add_observation_owners [simp]:
  "owners (add_observation p now r t) x = owners t x \<union> (if mentions p x then {se_recordId r} else {})"
  by (simp add: add_observation_def)

lemma add_observation_records [simp]:
  "tr_records (add_observation p now r t) =
     mput (se_recordId r) (observe_route p now (observed_record p now r)) (tr_records t)"
  by (simp add: add_observation_def)

lemma add_observation_inv:
  assumes inv: "tracker_inv t" and r: "mget (tr_records t) (se_recordId r) = Some r"
    and own: "\<And>x. strong_ident x \<Longrightarrow> mentions p x \<Longrightarrow> owners t x \<subseteq> {se_recordId r}"
  shows "tracker_inv (add_observation p now r t)"
proof (rule tracker_invI)
  note I = tracker_invD [OF inv]
  let ?t = "add_observation p now r t"
  show "map_ok (tr_records ?t)" using I(1) by simp
  show "se_recordId s = i \<and> i < tr_nextId ?t" if "mget (tr_records ?t) i = Some s" for i s
    using that I(2) [OF r] I(2) [of i s] by (auto simp: add_observation_def split: if_splits)
  show "i \<in> owners ?t x \<longleftrightarrow> (\<exists>s. mget (tr_records ?t) i = Some s \<and> has_ident s x)" for x i
    using I(3) [of i x] r by auto
  show "i = j" if x: "strong_ident x" "i \<in> owners ?t x" "j \<in> owners ?t x" for x i j
  proof (cases "mentions p x")
    case True
    then show ?thesis using own [OF x(1) True] x(2,3) by auto
  next
    case False
    then show ?thesis using I(4) [OF x(1), of i j] x(2,3) by simp
  qed
  show "indexes_full ?t" using I(5) by (simp add: add_observation_def full_ops)
qed

lemma create_spec:
  assumes inv: "tracker_inv t" and c: "createRecord now t = (r, t1)"
  shows "tracker_inv t1" and "mget (tr_records t1) (se_recordId r) = Some r" and "owners t1 x = owners t x"
    and "se_agentId r = None"
proof -
  note I = tracker_invD [OF inv]
  have r: "se_recordId r = tr_nextId t" "\<not> has_ident r x" for x
    using c by (auto simp: createRecord_def Let_def has_ident_def split: ident.splits)
  have t1: "t1 = put_record r (t\<lparr>tr_nextId := Suc (tr_nextId t)\<rparr>)"
    using c by (auto simp: createRecord_def Let_def)
  have fresh: "mget (tr_records t) (tr_nextId t) = None"
    using I(2) [of "tr_nextId t"] by (cases "mget (tr_records t) (tr_nextId t)") auto
  show "owners t1 x = owners t x" for x by (simp add: t1)
  show "mget (tr_records t1) (se_recordId r) = Some r" by (simp add: t1)
  show "se_agentId r = None" using c by (auto simp: createRecord_def Let_def)
  show "tracker_inv t1"
  proof (rule tracker_invI)
    show "map_ok (tr_records t1)" using I(1) by (simp add: t1)
    show "se_recordId s = i \<and> i < tr_nextId t1" if "mget (tr_records t1) i = Some s" for i s
      using that I(2) [of i s] r(1) by (auto simp: t1 split: if_splits)
    show "i \<in> owners t1 x \<longleftrightarrow> (\<exists>s. mget (tr_records t1) i = Some s \<and> has_ident s x)" for x i
      using I(3) [of i x] r fresh by (auto simp: t1)
    show "i = j" if "strong_ident x" "i \<in> owners t1 x" "j \<in> owners t1 x" for x i j
      using I(4) [OF that(1), of i j] that(2,3) by (simp add: t1)
    show "indexes_full t1" using I(5) by (simp add: t1 full_ops) (simp add: indexes_full_def)
  qed
qed

lemma observe_inv:
  assumes inv: "tracker_inv t"
  shows "tracker_inv (observeSession p now t)"
proof -
  obtain res t1 where res: "resolveUniqueRecord p t = (res, t1)" by (metis surj_pair)
  note R = resolve_spec [OF inv res]
  have "tracker_inv (case (res, t1) of
      (Some (Ambiguous ms), t1) \<Rightarrow> t1 | (Some (Resolved r), t1) \<Rightarrow> add_observation p now r t1
    | (None, t1) \<Rightarrow> (case createRecord now t1 of (r, t2) \<Rightarrow> add_observation p now r t2))"
  proof (cases res)
    case None
    obtain r t2 where c: "createRecord now t1 = (r, t2)" by (metis surj_pair)
    note C = create_spec [OF R(1) c]
    have "owners t2 x \<subseteq> {se_recordId r}" if "strong_ident x" "mentions p x" for x
      using R(4) [OF _ that] None by (simp add: C(3))
    then show ?thesis using None c add_observation_inv [OF C(1,2)] by simp
  next
    case (Some v)
    then show ?thesis using R by (cases v) (auto intro!: add_observation_inv)
  qed
  then show ?thesis using inv by (simp add: observeSession_def res)
qed

lemma remove_spec:
  assumes inv: "tracker_inv t" and r: "mget (tr_records t) (se_recordId r) = Some r"
  shows "tracker_inv (removeRecord None r t)"
    and "owners (removeRecord None r t) x = owners t x - {se_recordId r}"
proof -
  note I = tracker_invD [OF inv]
  let ?t = "removeRecord None r t"
  have own: "owners ?t x = owners t x - {se_recordId r}" for x
    using owners_remove [OF I(5), of None r x] I(3) [of "se_recordId r" x] r by auto
  show "owners ?t x = owners t x - {se_recordId r}" by (rule own)
  show "tracker_inv ?t"
  proof (rule tracker_invI)
    show "map_ok (tr_records ?t)" using I(1) by simp
    show "se_recordId s = i \<and> i < tr_nextId ?t" if "mget (tr_records ?t) i = Some s" for i s
      using that I(2) [of i s] by (auto split: if_splits)
    show "i \<in> owners ?t x \<longleftrightarrow> (\<exists>s. mget (tr_records ?t) i = Some s \<and> has_ident s x)" for x i
      using I(3) [of i x] by (auto simp: own)
    show "i = j" if "strong_ident x" "i \<in> owners ?t x" "j \<in> owners ?t x" for x i j
      using I(4) [OF that(1), of i j] that(2,3) by (simp add: own)
    show "indexes_full ?t" using I(5) by (simp add: full_ops)
  qed
qed

lemma endSession_inv: "tracker_inv t \<Longrightarrow> tracker_inv (snd (endSession le x now t))"
proof -
  assume inv: "tracker_inv t"
  obtain res t1 where res: "resolveUniqueRecord (identifier_params x) t = (res, t1)" by (metis surj_pair)
  note R = resolve_spec [OF inv res]
  then show ?thesis
    by (auto simp: endSession_def res remove_spec split: option.splits resolution.splits)
qed

lemma getSession_inv: "tracker_inv t \<Longrightarrow> tracker_inv (snd (getSession le x now t))"
  using resolve_spec(1)
  by (cases "resolveUniqueRecord (identifier_params (the x)) t")
    (auto simp: getSession_def split: option.splits resolution.splits)

lemma put_pruned:
  assumes "tracker_inv t" and "\<And>r. r \<in> set rs \<Longrightarrow> \<exists>r0. mget (tr_records t) (se_recordId r) = Some r0 \<and>
    (\<forall>x. has_ident r x = has_ident r0 x)"
  shows "tracker_inv (fold put_record rs t)"
  using assms
proof (induction rs arbitrary: t)
  case (Cons r rs)
  obtain r0 where r0: "mget (tr_records t) (se_recordId r) = Some r0" "\<And>x. has_ident r x = has_ident r0 x"
    using Cons.prems(2) [of r] by auto
  have inv: "tracker_inv (put_record r t)" by (rule put_same_inv [OF Cons.prems(1) r0])
  have "\<exists>q. mget (tr_records (put_record r t)) (se_recordId s) = Some q \<and> (\<forall>x. has_ident s x = has_ident q x)"
    if s: "s \<in> set rs" for s
  proof (cases "se_recordId s = se_recordId r")
    case True
    obtain q where "mget (tr_records t) (se_recordId s) = Some q" "\<forall>x. has_ident s x = has_ident q x"
      using Cons.prems(2) [of s] s by auto
    then show ?thesis using True r0 by auto
  next
    case False
    then show ?thesis using Cons.prems(2) [of s] s by auto
  qed
  then show ?case using Cons.IH [OF inv] by simp
qed simp

lemma provenance_inv: "tracker_inv t \<Longrightarrow> tracker_inv (snd (getSessionProvenance le p now t))"
proof -
  assume inv: "tracker_inv t"
  obtain res t1 where res: "resolveUniqueRecord p t = (res, t1)" by (metis surj_pair)
  note R = resolve_spec [OF inv res]
  show ?thesis
  proof (cases res)
    case None
    then show ?thesis using R(1) by (simp add: getSessionProvenance_def res Let_def)
  next
    case (Some v)
    show ?thesis
    proof (cases v)
      case (Resolved r)
      have "tracker_inv (put_record (pruneExpiredRoutes (tr_routeTtlMs t1) now r) t1)"
        using R(1) R(2) Some Resolved by (intro put_same_inv [where ?r0.0 = r]) simp_all
      then show ?thesis using Some Resolved by (simp add: getSessionProvenance_def res Let_def)
    next
      case (Ambiguous ms)
      have "tracker_inv (fold put_record (map (pruneExpiredRoutes (tr_routeTtlMs t1) now) ms) t1)"
        using R(1) R(5) Some Ambiguous by (intro put_pruned) auto
      then show ?thesis using Some Ambiguous by (simp add: getSessionProvenance_def res Let_def)
    qed
  qed
qed

lemma empty_tracker_inv:
  "tr_records t = [] \<Longrightarrow> tr_bySessionId t = [] \<Longrightarrow> tr_bySessionKey t = [] \<Longrightarrow> tr_byRunId t = [] \<Longrightarrow> tracker_inv t"
  by (rule tracker_invI) (auto simp: owners_def index_get_def indexes_full_def index_full_def split: ident.splits)

lemma tracker_step_inv: "tracker_inv t \<Longrightarrow> tracker_inv (tracker_step le op t)"
  by (cases op) (auto simp: tracker_step_def observe_inv endSession_inv getSession_inv provenance_inv clear_tracker_def
      intro: empty_tracker_inv)

interpretation tracker_machine: machine "tracker_step le" tracker_inv for le
  by unfold_locales (rule tracker_step_inv)

lemma reachable_tracker: "tracker_inv (fold (tracker_step le) ops (new_tracker ttl))"
  by (rule tracker_machine.inv_run, rule empty_tracker_inv) (simp_all add: new_tracker_def)

lemma set_dedupe_strings: "s \<in> set (dedupe_strings vs) \<longleftrightarrow> Some s \<in> set vs \<and> non_blank s"
proof -
  have "set (dedupe_strings vs) = the ` {v \<in> set vs. non_blank_opt v}" by (auto simp: dedupe_strings_def)
  moreover have "s \<in> the ` {v \<in> set vs. non_blank_opt v}" if "Some s \<in> set vs" "non_blank s"
    using that by (intro image_eqI [of _ _ "Some s"]) simp_all
  moreover have "Some s \<in> set vs \<and> non_blank s" if "v \<in> set vs" "non_blank_opt v" "s = the v" for v
  proof -
    have "v \<noteq> None" using that(2) by (auto simp: non_blank_opt_def split: option.splits)
    then show ?thesis using that by auto
  qed
  ultimately show ?thesis by blast
qed

lemma length_mput_same: "mget m k = Some v \<Longrightarrow> length (mput k w m) = length m"
  by (induction m) (auto split: if_splits)

text \<open>
  C10. In every state the tracker can reach, the three indexes are exactly the inverse of the
  records: a record id is listed under an identifier when and only when that record has the
  identifier; a strong identifier (a session id, a run id or a session key that is not a
  shared runtime alias) belongs to at most one record; and when no record is left no index
  entry is left.
\<close>

theorem session_identifiers_unambiguous:
  assumes "t = fold (tracker_step le) ops (new_tracker ttl)"
  shows "(\<forall>x i. (i \<in> owners t x) = (\<exists>r. mget (tr_records t) i = Some r \<and> has_ident r x)) \<and>
    (\<forall>x. strong_ident x \<longrightarrow> card (owners t x) \<le> 1) \<and>
    (tr_records t = [] \<longrightarrow> tr_bySessionId t = [] \<and> tr_bySessionKey t = [] \<and> tr_byRunId t = [])"
proof -
  have inv: "tracker_inv t" unfolding assms by (rule reachable_tracker)
  note I = tracker_invD [OF inv]
  have "card (owners t x) \<le> 1" if "strong_ident x" for x by (rule strong_owner [OF inv that])
  moreover have "m = []" if "index_full m" "\<And>k. set (index_get m k) = {}" for m
  proof (rule ccontr)
    assume "m \<noteq> []"
    then obtain k v ms where "m = (k, v) # ms" by (cases m) auto
    then have "mget m k = Some v" by simp
    then show False using that(1) that(2) [of k] by (auto simp: index_full_def index_get_def)
  qed
  moreover have "owners t x = {}" if "tr_records t = []" for x using I(3) that by auto
  then have "set (index_get (tr_bySessionId t) k) = {}" "set (index_get (tr_bySessionKey t) k) = {}"
      "set (index_get (tr_byRunId t) k) = {}" if "tr_records t = []" for k
    using that by (metis ident.simps owners_def)+
  ultimately show ?thesis using I(3,5) by (auto simp: indexes_full_def)
qed

lemma observed_identifier [simp]:
  "mentions (identifier_params x) (SessionId x) = non_blank x"
  "mentions (identifier_params x) (SessionKey x) = non_blank x"
  by (auto simp: mentions_def observed_ids_def observed_keys_def set_dedupe_strings identifier_params_def no_params_def
      alias_ids_def alias_keys_def)

text \<open>
  When a session is ended by an identifier, no record holds that session id any more,
  and if the identifier is a strong session key no record holds that key and looking it up
  gives nothing.
\<close>

theorem ended_session_forgotten:
  assumes "t = fold (tracker_step le) ops (new_tracker ttl)" and "non_blank x"
    and "endSession le x now t = (Some snap, t')"
  shows "owners t' (SessionId x) = {} \<and> (isStrongSessionKey (Some x) \<longrightarrow> owners t' (SessionKey x) = {} \<and>
    fst (getSession le (Some x) later t') = None)"
proof -
  have inv: "tracker_inv t" unfolding assms(1) by (rule reachable_tracker)
  obtain res t1 where res: "resolveUniqueRecord (identifier_params x) t = (res, t1)" by (metis surj_pair)
  note R = resolve_spec [OF inv res]
  obtain r where r: "res = Some (Resolved r)" and t': "t' = removeRecord None r t1"
    using assms(3) by (auto simp: endSession_def res split: option.splits resolution.splits)
  note D = remove_spec [OF R(1) R(2) [OF r]]
  have inv': "tracker_inv t'" using D(1) by (simp add: t')
  have "owners t1 (SessionId x) \<subseteq> {se_recordId r}"
    using R(3) [OF r] assms(2) by (simp add: strong_ident_def)
  then have sid: "owners t' (SessionId x) = {}" unfolding t' D(2) by blast
  have key: "owners t' (SessionKey x) = {} \<and> fst (getSession le (Some x) later t') = None"
    if s: "isStrongSessionKey (Some x)"
  proof -
    have "owners t1 (SessionKey x) \<subseteq> {se_recordId r}"
      using R(3) [OF r] assms(2) s by (simp add: strong_ident_def)
    then have k: "owners t' (SessionKey x) = {}" unfolding t' D(2) by blast
    have o: "owners t' y = {}" if "mentions (identifier_params x) y" for y
    proof -
      have "y = SessionId x \<or> y = SessionKey x"
        using that by (cases y) (auto simp: mentions_def observed_ids_def observed_keys_def set_dedupe_strings
          identifier_params_def no_params_def alias_ids_def alias_keys_def)
      then show ?thesis using sid k by auto
    qed
    have "j \<notin> set (matching_ids (identifier_params x) b t')" for b j
      using o by (cases b) (auto simp: matching_strong matching_weak)
    then have "matching_ids (identifier_params x) b t' = []" for b by (metis list.set_intros(1) neq_Nil_conv)
    then have "findMatchingRecords (identifier_params x) b t' = []" for b
      by (simp add: findMatchingRecords_def List.map_filter_simps)
    then show ?thesis using k by (simp add: getSession_def resolveUniqueRecord_def)
  qed
  show ?thesis using sid key by blast
qed

text \<open>
  C37. A route is reported as the provenance of a session only when the resolution says
  resolved, and then it is the route of the only candidate observation of one record of the
  tracker, seen within the time to live.
\<close>

theorem provenance_route_fresh:
  assumes "t = fold (tracker_step le) ops (new_tracker ttl)" and "getSessionProvenance le p now t = (pv, t')"
    and "pv_route pv = Some route"
  shows "pv_routeResolution pv = ''resolved'' \<and>
    (\<exists>i r ob. mget (tr_records t') i = Some r \<and> ob \<in> snd ` set (se_routeObservations r) \<and>
      selectRouteCandidates r (op_runId p) = [ob] \<and> ob_route ob = route \<and> now - ob_lastSeenAt ob \<le> tr_routeTtlMs t')"
proof -
  have inv: "tracker_inv t" unfolding assms(1) by (rule reachable_tracker)
  obtain res t1 where res: "resolveUniqueRecord p t = (res, t1)" by (metis surj_pair)
  obtain r0 where r0: "res = Some (Resolved r0)"
    using assms(2,3) by (cases res) (auto simp: getSessionProvenance_def res Let_def split: resolution.splits)
  let ?r = "pruneExpiredRoutes (tr_routeTtlMs t1) now r0"
  let ?c = "selectRouteCandidates ?r (op_runId p)"
  have t': "t' = put_record ?r t1" using assms(2) r0 by (auto simp: getSessionProvenance_def res Let_def)
  have l: "length ?c = 1" "pv_routeResolution pv = ''resolved''" "route = ob_route (hd ?c)"
    using assms(2,3) r0 by (auto simp: getSessionProvenance_def res Let_def split: if_splits)
  then obtain ob where c: "?c = [ob]" by (auto simp: length_Suc_conv)
  then have "ob \<in> set ?c" by simp
  then have ob: "ob \<in> snd ` set (se_routeObservations ?r)"
    by (auto simp: selectRouteCandidates_def Let_def split: if_splits)
  then have "now - ob_lastSeenAt ob \<le> tr_routeTtlMs t1" by (auto simp: pruneExpiredRoutes_def)
  moreover have "mget (tr_records t') (se_recordId ?r) = Some ?r" by (simp add: t')
  moreover have "tr_routeTtlMs t' = tr_routeTtlMs t1" by (simp add: t' put_record_def)
  ultimately show ?thesis using l ob c by (metis list.sel(1))
qed

text \<open>
  A session that is new to the tracker and carries a shared runtime alias held by
  exactly one record is put into that record: the record of the other session takes its
  session id and no record is created. In the witness, ending the first session then makes
  the second one unknown.
\<close>

theorem shared_alias_collapses_sessions:
  assumes "t = fold (tracker_step le) ops (new_tracker ttl)"
    and "owners t (SessionKey k) = {i}" and "\<not> isStrongSessionKey (Some k)"
    and "op_sessionId p = Some s" and "non_blank s" and "k \<in> set (observed_keys p)"
    and "\<forall>x. mentions p x \<longrightarrow> owners t x \<subseteq> {i} \<and> (strong_ident x \<longrightarrow> owners t x = {})"
  shows "i \<in> owners (observeSession p now t) (SessionId s) \<and>
    length (tr_records (observeSession p now t)) = length (tr_records t)"
proof -
  have inv: "tracker_inv t" unfolding assms(1) by (rule reachable_tracker)
  note I = tracker_invD [OF inv]
  obtain r where r: "mget (tr_records t) i = Some r" "has_ident r (SessionKey k)"
    using I(3) [of i "SessionKey k"] assms(2) by auto
  have id: "se_recordId r = i" using I(2) [OF r(1)] ..
  have "j \<notin> set (matching_ids p True t)" for j using assms(7) by (auto simp: matching_strong)
  then have ms: "matching_ids p True t = []" by (metis list.set_intros(1) neq_Nil_conv)
  have mk: "mentions p (SessionKey k)" "\<not> strong_ident (SessionKey k)"
    using assms(3,6) by (simp_all add: mentions_def strong_ident_def)
  have "set (matching_ids p False t) = {i}"
  proof (rule set_eqI)
    fix j
    have "\<exists>x. \<not> strong_ident x \<and> mentions p x \<and> i \<in> owners t x" using mk assms(2) by blast
    then show "j \<in> set (matching_ids p False t) \<longleftrightarrow> j \<in> {i}" using assms(7) by (auto simp: matching_weak)
  qed
  moreover from this have "length (matching_ids p False t) = Suc 0"
    using distinct_card [OF distinct_matching [of p False t]] by simp
  ultimately have mw: "matching_ids p False t = [i]" by (auto simp: length_Suc_conv)
  have res: "resolveUniqueRecord p t = (Some (Resolved r), t)"
    by (simp add: resolveUniqueRecord_def findMatchingRecords_def ms mw List.map_filter_simps r(1))
  have "hasStrongIdentifiers p" using assms(4,5) by (simp add: hasStrongIdentifiers_def)
  then have o: "observeSession p now t = add_observation p now r t" by (simp add: observeSession_def res)
  have "mentions p (SessionId s)" using assms(4,5) by (simp add: mentions_def observed_ids_def set_dedupe_strings)
  moreover have "length (mput (se_recordId r) v (tr_records t)) = length (tr_records t)" for v
    using length_mput_same [OF r(1)] by (simp add: id)
  ultimately show ?thesis by (simp add: o id)
qed

section \<open>Session keys\<close>

text \<open>
  A thread-scoped session key assembled from its seven segments, none of which has a
  colon, is parsed back into exactly those segments, is thread-scoped and is a strong
  identifier.
\<close>

theorem session_key_roundtrip:
  assumes "\<forall>w \<in> {agentId, provider, surface, accountId, kind, token}. CHR '':'' \<notin> set w"
    and "kind \<in> {''thread'', ''topic''}" and "non_blank token"
    and "key = js_join '':'' [''agent'', agentId, provider, surface, accountId, kind, token]"
  shows "parseSessionKey (Some key) =
    Some \<lparr> ps_raw = key, ps_agentId = Some agentId, ps_provider = Some provider, ps_surface = Some surface,
      ps_accountId = Some accountId, ps_scope = Some kind, ps_threadKind = Some kind, ps_threadToken = Some token,
      ps_isThreadScoped = True \<rparr> \<and> isStrongSessionKey (Some key)"
proof -
  let ?ws = "[''agent'', agentId, provider, surface, accountId, kind, token]"
  have s: "js_split (CHR '':'') key = ?ws"
    unfolding assms(4) using assms(1) by (intro js_split_join) auto
  have "CHR ''a'' \<in> set key" by (simp add: assms(4))
  moreover have "\<not> js_ws (CHR ''a'')" by code_simp
  ultimately have nb: "non_blank key" by (rule non_blank_char)
  have "parseSessionKey (Some key) = Some (parse_segments key ?ws)" using nb by (simp add: parseSessionKey_def s)
  also have "parse_segments key ?ws =
      \<lparr> ps_raw = key, ps_agentId = Some agentId, ps_provider = Some provider, ps_surface = Some surface,
      ps_accountId = Some accountId, ps_scope = Some kind, ps_threadKind = Some kind, ps_threadToken = Some token,
      ps_isThreadScoped = True \<rparr>"
    using assms(2,3) by (auto simp: parse_segments_def nth_opt_def Let_def)
  finally show ?thesis using nb by (simp add: isStrongSessionKey_def isSharedRuntimeSessionKey_def)
qed

text \<open>
  Session keys that are not thread-scoped never give a route, even when they name a
  provider and a surface: the alternatives that the code tries after isThreadScoped are
  never reached.
\<close>

theorem route_needs_thread:
  assumes "\<forall>k \<in> set keys. \<forall>parsed. parseSessionKey (Some k) = Some parsed \<longrightarrow> \<not> ps_isThreadScoped parsed"
  shows "pickParsedRoute keys = None"
proof -
  have "\<not> parsed_candidate (parseSessionKey (Some k))" if "k \<in> set keys" for k
    using assms that by (cases "parseSessionKey (Some k)") (auto simp: parsed_candidate_def)
  then have "List.find parsed_candidate (map (\<lambda>k. parseSessionKey (Some k)) keys) = None"
    by (auto simp: find_None_iff)
  then have "find_parsed parsed_candidate keys = None" by (simp add: find_parsed_def)
  then show ?thesis by (simp add: pickParsedRoute_def routeFromParsedSession_def)
qed

definition main_alias :: string where
  "main_alias = ''agent:j:main''"

definition observed_a :: ObserveSessionParams where
  "observed_a = no_params\<lparr>op_sessionId := Some ''a'', op_sessionKey := Some main_alias, op_agentId := Some ''j''\<rparr>"

definition observed_b :: ObserveSessionParams where
  "observed_b = no_params\<lparr>op_sessionId := Some ''b'', op_sessionKey := Some main_alias, op_agentId := Some ''j''\<rparr>"

definition tracker_a :: tracker where
  "tracker_a = fold (tracker_step code_unit_le) [Observe observed_a 0] (new_tracker None)"

lemma tracker_a_owners:
  "owners tracker_a (SessionId ''a'') = {0}" "owners tracker_a (SessionId ''b'') = {}"
  "owners tracker_a (SessionKey main_alias) = {0}"
  "isStrongSessionKey (Some main_alias) = False"
  "observed_ids observed_b = [''b'']" "observed_keys observed_b = [main_alias]"
  "op_runId observed_b = None" "op_sessionId observed_b = Some ''b''"
  by code_simp+

theorem session_key_roundtrip_witness:
  "map_option ps_threadToken (parseSessionKey (Some ''agent:j:slack:direct:d0:thread:17'')) = Some (Some ''17'')"
  using session_key_roundtrip [of "''j''" "''slack''" "''direct''" "''d0''" "''thread''" "''17''"
      "''agent:j:slack:direct:d0:thread:17''"]
  by (simp add: non_blank_char [of "CHR ''1''"] js_ws_def)

theorem route_needs_thread_witness:
  "pickParsedRoute [''agent:j:slack:direct:d0''] = None \<and>
   map_option ps_provider (parseSessionKey (Some ''agent:j:slack:direct:d0'')) = Some (Some ''slack'')"
proof -
  have p: "parseSessionKey (Some ''agent:j:slack:direct:d0'') =
      Some \<lparr> ps_raw = ''agent:j:slack:direct:d0'', ps_agentId = Some ''j'', ps_provider = Some ''slack'',
        ps_surface = Some ''direct'', ps_accountId = Some ''d0'', ps_scope = None, ps_threadKind = None,
        ps_threadToken = None, ps_isThreadScoped = False \<rparr>" by code_simp
  then show ?thesis using route_needs_thread [of "[''agent:j:slack:direct:d0'']"] by simp
qed

theorem session_identifiers_unambiguous_witness:
  "card (owners tracker_a (SessionId ''a'')) \<le> 1 \<and> tr_records tracker_a \<noteq> []"
proof -
  have "tr_records tracker_a \<noteq> []" by code_simp
  then show ?thesis using session_identifiers_unambiguous [OF tracker_a_def] by (simp add: strong_ident_def)
qed

theorem shared_alias_collapses_sessions_witness:
  "0 \<in> owners (observeSession observed_b 1 tracker_a) (SessionId ''b'') \<and>
   fst (getSession code_unit_le (Some ''b'') 3 (snd (endSession code_unit_le ''a'' 2 (observeSession observed_b 1 tracker_a)))) = None"
proof -
  have m: "owners tracker_a x \<subseteq> {0} \<and> (strong_ident x \<longrightarrow> owners tracker_a x = {})" if "mentions observed_b x" for x
    using that by (cases x) (auto simp: mentions_def tracker_a_owners strong_ident_def)
  have e: "fst (getSession code_unit_le (Some ''b'') 3 (snd (endSession code_unit_le ''a'' 2 (observeSession observed_b 1 tracker_a)))) = None"
    by code_simp
  show ?thesis
    using shared_alias_collapses_sessions [OF tracker_a_def tracker_a_owners(3), of observed_b "''b''" 1] m e
    by (simp add: tracker_a_owners non_blank_char [of "CHR ''b''"] js_ws_def)
qed

lemma tracker_a_ended:
  "\<exists>snap t'. endSession code_unit_le ''a'' 1 tracker_a = (Some snap, t')"
proof -
  have "fst (endSession code_unit_le ''a'' 1 tracker_a) \<noteq> None" by code_simp
  then show ?thesis by (metis option.exhaust surj_pair fst_conv)
qed

theorem ended_session_forgotten_witness:
  "owners (snd (endSession code_unit_le ''a'' 1 tracker_a)) (SessionId ''a'') = {}"
proof -
  obtain snap t' where e: "endSession code_unit_le ''a'' 1 tracker_a = (Some snap, t')"
    using tracker_a_ended by blast
  show ?thesis
    using ended_session_forgotten [OF tracker_a_def _ e] by (simp add: e non_blank_char [of "CHR ''a''"] js_ws_def)
qed

definition observed_route :: ObserveSessionParams where
  "observed_route = no_params\<lparr>op_sessionId := Some ''r'', op_route := Some (no_route\<lparr>ro_channelId := Some ''c''\<rparr>)\<rparr>"

definition routed_tracker :: tracker where
  "routed_tracker = fold (tracker_step code_unit_le) [Observe observed_route 0] (new_tracker None)"

theorem provenance_route_fresh_witness:
  "case getSessionProvenance code_unit_le observed_route 5 routed_tracker of
     (pv, t') \<Rightarrow> pv_route pv = Some (no_route\<lparr>ro_channelId := Some ''c''\<rparr>) \<and> pv_routeResolution pv = ''resolved''"
proof -
  obtain pv t' where e: "getSessionProvenance code_unit_le observed_route 5 routed_tracker = (pv, t')" by (metis surj_pair)
  have "pv_route (fst (getSessionProvenance code_unit_le observed_route 5 routed_tracker)) =
      Some (no_route\<lparr>ro_channelId := Some ''c''\<rparr>)" by code_simp
  then have r: "pv_route pv = Some (no_route\<lparr>ro_channelId := Some ''c''\<rparr>)" by (simp add: e)
  show ?thesis using provenance_route_fresh [OF routed_tracker_def e r] by (simp add: e r)
qed

end
