(* ===== verification/StatusReducer.thy ===== *)
theory StatusReducer imports JsString begin

text \<open>
  The synthetic agent status, \<open>src/hooks/status-reducer.ts\<close>: per agent the activity of its sessions,
  an error flag and an offline flag; the status is derived from them and the time, and a
  transition is reported when it changed since it was last reported.  \<open>toISO\<close> stands for
  \<open>new Date(ms).toISOString()\<close>.
\<close>

section \<open>State\<close>

datatype AgentSyntheticStatus = Offline | ErrorStatus | Sleeping | Working | Idle

record SessionActivity =
  ac_sessionRef :: string
  ac_lastActiveAt :: int

record AgentState =
  as_sessions :: "(string, SessionActivity) jsmap"
  as_hasAgentError :: bool
  as_isOffline :: bool
  as_lastStatus :: "AgentSyntheticStatus option"

record AgentStatus =
  st_status :: AgentSyntheticStatus
  st_activity :: string
  st_activityDetail :: string
  st_reason :: string
  st_activeSessionCount :: nat
  st_lastActiveAt :: "string option"

record reducer =
  re_workingWindowMs :: int
  re_sleepingWindowMs :: int
  re_agents :: "(string, AgentState) jsmap"

definition new_reducer :: "int option \<Rightarrow> int option \<Rightarrow> reducer" where
  "new_reducer workingWindowMs sleepingWindowMs =
     \<lparr> re_workingWindowMs = default_to 30000 workingWindowMs,
       re_sleepingWindowMs = default_to 600000 sleepingWindowMs, re_agents = [] \<rparr>"

section \<open>Operations\<close>

definition new_agent :: AgentState where
  "new_agent = \<lparr> as_sessions = [], as_hasAgentError = False, as_isOffline = False, as_lastStatus = None \<rparr>"

text \<open>\<open>ensureAgent\<close>, followed by an update of the agent.\<close>

definition update_agent :: "string \<Rightarrow> (AgentState \<Rightarrow> AgentState) \<Rightarrow> reducer \<Rightarrow> reducer" where
  "update_agent agentId f s =
     s\<lparr>re_agents := mput agentId (f (default_to new_agent (mget (re_agents s) agentId))) (re_agents s)\<rparr>"

definition observeActivity :: "string \<Rightarrow> string option \<Rightarrow> int \<Rightarrow> reducer \<Rightarrow> reducer" where
  "observeActivity agentId sessionRef atMs s =
     (if \<not> truthy_str sessionRef then update_agent agentId (\<lambda>a. a) s
      else update_agent agentId (\<lambda>a. a\<lparr>as_sessions := mput (the sessionRef)
          \<lparr> ac_sessionRef = the sessionRef, ac_lastActiveAt = atMs \<rparr> (as_sessions a), as_isOffline := False\<rparr>) s)"

definition removeSession :: "string \<Rightarrow> string option \<Rightarrow> reducer \<Rightarrow> reducer" where
  "removeSession agentId sessionRef s =
     (if \<not> truthy_str sessionRef then s
      else if mget (re_agents s) agentId = None then s
      else update_agent agentId (\<lambda>a. a\<lparr>as_sessions := mdel (the sessionRef) (as_sessions a)\<rparr>) s)"

definition markAgentError :: "string \<Rightarrow> bool \<Rightarrow> reducer \<Rightarrow> reducer" where
  "markAgentError agentId hasError = update_agent agentId (\<lambda>a. a\<lparr>as_hasAgentError := hasError\<rparr>)"

definition markAgentOffline :: "string \<Rightarrow> bool \<Rightarrow> reducer \<Rightarrow> reducer" where
  "markAgentOffline agentId isOffline = update_agent agentId (\<lambda>a. a\<lparr>as_isOffline := isOffline\<rparr>)"

definition map_agents :: "(AgentState \<Rightarrow> AgentState) \<Rightarrow> reducer \<Rightarrow> reducer" where
  "map_agents f s = s\<lparr>re_agents := map (\<lambda>(k, a). (k, f a)) (re_agents s)\<rparr>"

definition markAllOffline :: "reducer \<Rightarrow> reducer" where
  "markAllOffline = map_agents (\<lambda>a. a\<lparr>as_isOffline := True\<rparr>)"

definition clear_reducer :: "reducer \<Rightarrow> reducer" where
  "clear_reducer s = s\<lparr>re_agents := []\<rparr>"

section \<open>The status of an agent\<close>

definition formatDuration :: "int \<Rightarrow> string" where
  "formatDuration ms =
     (let seconds = ms div 1000 in
      if seconds < 60 then show_int seconds @ '' second'' @ (if seconds = 1 then [] else ''s'')
      else
        let minutes = seconds div 60 in
        show_int minutes @ '' minute'' @ (if minutes = 1 then [] else ''s''))"

definition getLatestSessionActivity :: "AgentState \<Rightarrow> int option" where
  "getLatestSessionActivity a =
     fold (\<lambda>(k, v) latest. case latest of
         None \<Rightarrow> Some (ac_lastActiveAt v)
       | Some l \<Rightarrow> if ac_lastActiveAt v > l then Some (ac_lastActiveAt v) else latest) (as_sessions a) None"

definition computeStatus :: "(int \<Rightarrow> string) \<Rightarrow> reducer \<Rightarrow> AgentState \<Rightarrow> int \<Rightarrow> AgentStatus" where
  "computeStatus toISO s a nowMs =
     (let latestActive = getLatestSessionActivity a;
          count = length (as_sessions a);
          lastIso = (case latestActive of None \<Rightarrow> None | Some l \<Rightarrow> if l = 0 then None else Some (toISO l))
      in if as_isOffline a
         then \<lparr> st_status = Offline, st_activity = ''Offline'', st_activityDetail = ''Agent unreachable'',
                st_reason = ''offline'', st_activeSessionCount = count, st_lastActiveAt = lastIso \<rparr>
         else if as_hasAgentError a
         then \<lparr> st_status = ErrorStatus, st_activity = ''Error'',
                st_activityDetail = ''Agent reported an error state'', st_reason = ''agent-error'',
                st_activeSessionCount = count, st_lastActiveAt = lastIso \<rparr>
         else (case latestActive of
             None \<Rightarrow>
               \<lparr> st_status = Sleeping, st_activity = ''Sleeping'', st_activityDetail = ''No active sessions'',
                 st_reason = ''no-sessions'', st_activeSessionCount = count, st_lastActiveAt = None \<rparr>
           | Some latest \<Rightarrow>
               (let ageMs = nowMs - latest in
                if ageMs \<le> re_workingWindowMs s
                then \<lparr> st_status = Working, st_activity = ''Working'',
                       st_activityDetail = ''Recent activity in one or more sessions'',
                       st_reason = ''recent-activity'', st_activeSessionCount = count,
                       st_lastActiveAt = Some (toISO latest) \<rparr>
                else if ageMs \<le> re_sleepingWindowMs s
                then \<lparr> st_status = Idle, st_activity = ''Idle'',
                       st_activityDetail = ''No recent events in the last '' @ formatDuration (re_workingWindowMs s),
                       st_reason = ''idle-window'', st_activeSessionCount = count,
                       st_lastActiveAt = Some (toISO latest) \<rparr>
                else \<lparr> st_status = Sleeping, st_activity = ''Sleeping'',
                       st_activityDetail = ''No events in the last '' @ formatDuration (re_sleepingWindowMs s),
                       st_reason = ''sleeping-window'', st_activeSessionCount = count,
                       st_lastActiveAt = Some (toISO latest) \<rparr>)))"

definition evaluateTransitions ::
  "(int \<Rightarrow> string) \<Rightarrow> int \<Rightarrow> reducer \<Rightarrow> (string \<times> AgentStatus) list \<times> reducer" where
  "evaluateTransitions toISO now s =
     (let next = (\<lambda>a. computeStatus toISO s a now) in
      (map (\<lambda>(k, a). (k, next a))
         (filter (\<lambda>(k, a). as_lastStatus a \<noteq> Some (st_status (next a))) (re_agents s)),
       map_agents (\<lambda>a. if as_lastStatus a \<noteq> Some (st_status (next a))
         then a\<lparr>as_lastStatus := Some (st_status (next a))\<rparr> else a) s))"

datatype reducer_op =
    ObserveActivity string "string option" int
  | RemoveSession string "string option"
  | MarkError string bool
  | MarkOffline string bool
  | MarkAllOffline
  | Evaluate int

text \<open>A run of the reducer with the transitions it reports.\<close>

definition reducer_step ::
  "(int \<Rightarrow> string) \<Rightarrow> reducer_op \<Rightarrow> reducer \<times> (string \<times> AgentStatus) list \<Rightarrow> reducer \<times> (string \<times> AgentStatus) list" where
  "reducer_step toISO op st = (case st of (s, out) \<Rightarrow>
     (case op of
        ObserveActivity agentId sessionRef atMs \<Rightarrow> (observeActivity agentId sessionRef atMs s, out)
      | RemoveSession agentId sessionRef \<Rightarrow> (removeSession agentId sessionRef s, out)
      | MarkError agentId b \<Rightarrow> (markAgentError agentId b s, out)
      | MarkOffline agentId b \<Rightarrow> (markAgentOffline agentId b s, out)
      | MarkAllOffline \<Rightarrow> (markAllOffline s, out)
      | Evaluate now \<Rightarrow> (case evaluateTransitions toISO now s of (ts, s1) \<Rightarrow> (s1, out @ ts))))"

section \<open>The latest activity\<close>

definition activity_times :: "AgentState \<Rightarrow> int list" where
  "activity_times a = map (\<lambda>(k, v). ac_lastActiveAt v) (as_sessions a)"

lemma latest_fold:
  "fold (\<lambda>(k, v) latest. case latest of
         None \<Rightarrow> Some (ac_lastActiveAt v)
       | Some l \<Rightarrow> if ac_lastActiveAt v > l then Some (ac_lastActiveAt v) else latest) kvs (Some l) =
     Some (fold max (map (\<lambda>(k, v). ac_lastActiveAt v) kvs) l)"
  by (induction kvs arbitrary: l) (auto simp: max_def)

lemma latest_is_max:
  "getLatestSessionActivity a = (if as_sessions a = [] then None else Some (Max (set (activity_times a))))"
proof (cases "as_sessions a")
  case (Cons kv kvs)
  then show ?thesis
    by (cases kv) (simp add: getLatestSessionActivity_def activity_times_def latest_fold
      Max.set_eq_fold [symmetric] del: set_map)
qed (simp add: getLatestSessionActivity_def)

text \<open>
  C38. The status of an agent: offline before error before the age of its sessions; with no
  session it sleeps, otherwise the age is counted from the latest activity of all its
  sessions and compared with the two windows.
\<close>

theorem agent_status_spec:
  "st_status (computeStatus toISO s a now) =
     (if as_isOffline a then Offline
      else if as_hasAgentError a then ErrorStatus
      else if as_sessions a = [] then Sleeping
      else let age = now - Max (set (activity_times a)) in
        if age \<le> re_workingWindowMs s then Working
        else if age \<le> re_sleepingWindowMs s then Idle else Sleeping)"
  by (simp add: computeStatus_def latest_is_max Let_def)

section \<open>Reported transitions\<close>

definition reported :: "string \<Rightarrow> (string \<times> AgentStatus) list \<Rightarrow> AgentSyntheticStatus list" where
  "reported agentId ts = map (\<lambda>(k, x). st_status x) (filter (\<lambda>(k, x). k = agentId) ts)"

definition last_reported :: "string \<Rightarrow> (string \<times> AgentStatus) list \<Rightarrow> AgentSyntheticStatus option" where
  "last_reported k ts = (if reported k ts = [] then None else Some (last (reported k ts)))"

definition last_status :: "(string, AgentState) jsmap \<Rightarrow> string \<Rightarrow> AgentSyntheticStatus option" where
  "last_status m k = Option.bind (mget m k) as_lastStatus"

definition log_ok :: "(string, AgentState) jsmap \<Rightarrow> (string \<times> AgentStatus) list \<Rightarrow> bool" where
  "log_ok m ts = (map_ok m \<and> (\<forall>k. distinct_adj (reported k ts) \<and> last_status m k = last_reported k ts))"

lemma log_ok_same:
  "log_ok m ts \<Longrightarrow> map_ok m' \<Longrightarrow> (\<And>k. last_status m' k = last_status m k) \<Longrightarrow> log_ok m' ts"
  by (simp add: log_ok_def)

lemma log_ok_update:
  assumes "log_ok (re_agents s) ts" and "\<And>a. as_lastStatus (f a) = as_lastStatus a"
  shows "log_ok (re_agents (update_agent agentId f s)) ts"
proof (rule log_ok_same [OF assms(1)])
  show "map_ok (re_agents (update_agent agentId f s))" using assms(1) by (simp add: log_ok_def update_agent_def)
  show "last_status (re_agents (update_agent agentId f s)) k = last_status (re_agents s) k" for k
    using assms(2) by (cases "mget (re_agents s) agentId") (auto simp: last_status_def update_agent_def new_agent_def)
qed

lemma log_ok_map:
  assumes "log_ok m ts" and "\<And>a. as_lastStatus (f a) = as_lastStatus a"
  shows "log_ok (map (\<lambda>(k, a). (k, f a)) m) ts"
proof (rule log_ok_same [OF assms(1)])
  show "map_ok (map (\<lambda>(k, a). (k, f a)) m)" using assms(1) unfolding log_ok_def mkeys_map by simp
  show "last_status (map (\<lambda>(k, a). (k, f a)) m) k = last_status m k" for k
    using assms(2) by (cases "mget m k") (simp_all add: last_status_def mget_map)
qed

lemma reported_append [simp]: "reported k (xs @ ys) = reported k xs @ reported k ys"
  by (simp add: reported_def)

lemma reported_absent: "mget m k = None \<Longrightarrow> reported k (map (\<lambda>(j, a). (j, f a)) (filter (\<lambda>(j, a). P a) m)) = []"
  by (induction m) (auto simp: reported_def split: if_splits)

lemma reported_present:
  "map_ok m \<Longrightarrow> mget m k = Some a \<Longrightarrow>
   reported k (map (\<lambda>(j, a). (j, f a)) (filter (\<lambda>(j, a). P a) m)) = (if P a then [st_status (f a)] else [])"
proof (induction m)
  case (Cons kv m)
  obtain j b where kv: "kv = (j, b)" by (cases kv)
  have none: "mget m j = None" using Cons.prems(1) kv by (simp add: map_of_eq_None_iff)
  show ?case
  proof (cases "j = k")
    case True
    then show ?thesis using Cons.prems kv none reported_absent [of m k f P] by (auto simp: reported_def)
  next
    case False
    then show ?thesis using Cons kv by (auto simp: reported_def)
  qed
qed simp

lemma log_ok_evaluate:
  assumes ok: "log_ok (re_agents s) ts" and e: "evaluateTransitions toISO now s = (new, s1)"
  shows "log_ok (re_agents s1) (ts @ new)"
proof -
  let ?next = "\<lambda>a. computeStatus toISO s a now"
  let ?P = "\<lambda>a. as_lastStatus a \<noteq> Some (st_status (?next a))"
  let ?f = "\<lambda>a. if ?P a then a\<lparr>as_lastStatus := Some (st_status (?next a))\<rparr> else a"
  have new: "new = map (\<lambda>(j, a). (j, ?next a)) (filter (\<lambda>(j, a). ?P a) (re_agents s))"
    and s1: "re_agents s1 = map (\<lambda>(k, a). (k, ?f a)) (re_agents s)"
    using e by (auto simp: evaluateTransitions_def map_agents_def)
  have mo: "map_ok (re_agents s)" using ok by (simp add: log_ok_def)
  show ?thesis unfolding log_ok_def
  proof (intro conjI allI)
    show "map_ok (re_agents s1)" unfolding s1 mkeys_map by (rule mo)
    fix k
    have l: "distinct_adj (reported k ts)" "last_status (re_agents s) k = last_reported k ts"
      using ok by (simp_all add: log_ok_def)
    show "distinct_adj (reported k (ts @ new)) "
    proof (cases "mget (re_agents s) k")
      case None
      then show ?thesis using l by (simp add: new reported_absent)
    next
      case (Some a)
      then show ?thesis
        using l by (cases "reported k ts = []") (auto simp: new reported_present [OF mo] distinct_adj_append_iff
          last_status_def last_reported_def)
    qed
    show "last_status (re_agents s1) k = last_reported k (ts @ new)"
    proof (cases "mget (re_agents s) k")
      case None
      then show ?thesis using l by (simp add: new s1 mget_map reported_absent last_status_def last_reported_def split: if_splits)
    next
      case (Some a)
      then show ?thesis
        using l by (cases "?P a"; cases "reported k ts = []") (simp_all add: new s1 mget_map reported_present [OF mo] last_status_def last_reported_def)
    qed
  qed
qed

lemma log_ok_step:
  assumes "log_ok (re_agents (fst st)) (snd st)"
  shows "log_ok (re_agents (fst (reducer_step toISO op st))) (snd (reducer_step toISO op st))"
proof (cases st)
  case (Pair s ts)
  then have ok: "log_ok (re_agents s) ts" using assms by simp
  show ?thesis
  proof (cases op)
    case (Evaluate now)
    then show ?thesis using log_ok_evaluate [OF ok]
      by (cases "evaluateTransitions toISO now s") (simp add: Pair reducer_step_def)
  next
    case MarkAllOffline
    then show ?thesis using ok by (simp add: Pair reducer_step_def markAllOffline_def map_agents_def log_ok_map)
  qed (use ok in \<open>simp_all add: Pair reducer_step_def observeActivity_def removeSession_def markAgentError_def
        markAgentOffline_def log_ok_update\<close>)
qed

interpretation reducer_machine: machine "reducer_step toISO" "\<lambda>st. log_ok (re_agents (fst st)) (snd st)" for toISO
  by unfold_locales (rule log_ok_step)

text \<open>
  In every run of the reducer the statuses reported for one agent never repeat
  consecutively, the last one reported is the one remembered for the agent, and evaluating
  again at the same time reports nothing.
\<close>

theorem status_reported_on_change:
  assumes "fold (reducer_step toISO) ops (new_reducer w sl, []) = (s, out)"
  shows "distinct_adj (reported agentId out) \<and>
    (mget (re_agents s) agentId = Some a \<longrightarrow>
      as_lastStatus a = (if reported agentId out = [] then None else Some (last (reported agentId out)))) \<and>
    fst (evaluateTransitions toISO now (snd (evaluateTransitions toISO now s))) = []"
proof -
  have "log_ok (re_agents (fst (new_reducer w sl, []))) (snd (new_reducer w sl, []))"
    by (simp add: log_ok_def new_reducer_def reported_def last_status_def last_reported_def)
  then have "log_ok (re_agents (fst (s, out))) (snd (s, out))"
    unfolding assms [symmetric] by (rule reducer_machine.inv_run)
  then have ok: "distinct_adj (reported agentId out)"
    "last_status (re_agents s) agentId = last_reported agentId out"
    by (simp_all add: log_ok_def)
  have g: "getLatestSessionActivity (b\<lparr>as_lastStatus := v\<rparr>) = getLatestSessionActivity b" for b v
    by (simp add: getLatestSessionActivity_def)
  have c: "computeStatus toISO (map_agents f s) (b\<lparr>as_lastStatus := v\<rparr>) now = computeStatus toISO s b now"
    "computeStatus toISO (map_agents f s) b now = computeStatus toISO s b now"
    "computeStatus toISO s (b\<lparr>as_lastStatus := v\<rparr>) now = computeStatus toISO s b now" for f b v
    by (cases "getLatestSessionActivity b"; simp add: computeStatus_def g map_agents_def Let_def)+
  have "fst (evaluateTransitions toISO now (snd (evaluateTransitions toISO now s))) = []"
    by (auto simp: evaluateTransitions_def filter_empty_conv c)
      (auto simp: map_agents_def c [unfolded map_agents_def] c split: if_splits)
  then show ?thesis using ok by (auto simp: last_status_def last_reported_def)
qed

definition sample_run :: "reducer_op list" where
  "sample_run = [ObserveActivity ''j'' (Some ''s'') 5, Evaluate 6, Evaluate 7, MarkError ''j'' True, Evaluate 8]"

theorem status_reported_on_change_witness:
  "case fold (reducer_step (\<lambda>t. ''t'')) sample_run (new_reducer None None, []) of
     (s, out) \<Rightarrow> reported ''j'' out = [Working, ErrorStatus] \<and> distinct_adj (reported ''j'' out)"
proof -
  obtain s out where e: "fold (reducer_step (\<lambda>t. ''t'')) sample_run (new_reducer None None, []) = (s, out)"
    by (metis surj_pair)
  have "reported ''j'' (snd (fold (reducer_step (\<lambda>t. ''t'')) sample_run (new_reducer None None, []))) =
      [Working, ErrorStatus]" by code_simp
  then show ?thesis using status_reported_on_change [OF e] by (simp add: e)
qed

end
