(* ===== verification/RunTrackers.thy ===== *)
theory RunTrackers imports JsString begin

text \<open>
  Two trackers of runs: the subagents and their idle notifications,
  \<open>src/hooks/subagent-tracker.ts\<close>, and the phases of an agent run,
  \<open>src/hooks/agent-run-tracker.ts\<close>. The clock is an argument.
\<close>

section \<open>Subagents\<close>

record SubagentRecord =
  su_subagentKey :: string
  su_childSessionKey :: string
  su_parentAgentId :: "string option"
  su_parentSessionId :: "string option"
  su_parentSessionKey :: "string option"
  su_childAgentId :: "string option"
  su_runId :: "string option"
  su_mode :: "string option"
  su_spawnedAt :: int
  su_lastActiveAt :: int
  su_idleEmittedAt :: "int option"
  su_endedAt :: "int option"

type_synonym subagents = "(string, SubagentRecord) jsmap"

record spawn_params =
  sp_childSessionKey :: string
  sp_parentAgentId :: "string option"
  sp_parentSessionId :: "string option"
  sp_parentSessionKey :: "string option"
  sp_childAgentId :: "string option"
  sp_runId :: "string option"
  sp_mode :: "string option"

definition spawn_record :: "spawn_params \<Rightarrow> int \<Rightarrow> SubagentRecord option \<Rightarrow> SubagentRecord" where
  "spawn_record p now current =
     \<lparr> su_subagentKey = sp_childSessionKey p, su_childSessionKey = sp_childSessionKey p,
       su_parentAgentId = nullish (sp_parentAgentId p) (Option.bind current su_parentAgentId),
       su_parentSessionId = nullish (sp_parentSessionId p) (Option.bind current su_parentSessionId),
       su_parentSessionKey = nullish (sp_parentSessionKey p) (Option.bind current su_parentSessionKey),
       su_childAgentId = nullish (sp_childAgentId p) (Option.bind current su_childAgentId),
       su_runId = nullish (sp_runId p) (Option.bind current su_runId),
       su_mode = nullish (sp_mode p) (Option.bind current su_mode),
       su_spawnedAt = default_to now (map_option su_spawnedAt current),
       su_lastActiveAt = now, su_idleEmittedAt = None, su_endedAt = None \<rparr>"

definition registerSpawn :: "spawn_params \<Rightarrow> int \<Rightarrow> subagents \<Rightarrow> SubagentRecord \<times> subagents" where
  "registerSpawn p now m =
     (let merged = spawn_record p now (mget m (sp_childSessionKey p))
      in (merged, mput (sp_childSessionKey p) merged m))"

text \<open>The test \<open>current.endedAt\<close> is one of truthiness: an end at time \<open>0\<close> does not count.\<close>

definition observeSubagent :: "string option \<Rightarrow> int \<Rightarrow> subagents \<Rightarrow> subagents" where
  "observeSubagent key atMs m =
     (if \<not> truthy_str key then m
      else (case mget m (the key) of
              None \<Rightarrow> m
            | Some current \<Rightarrow>
                if su_endedAt current \<noteq> None \<and> su_endedAt current \<noteq> Some 0 then m
                else mput (the key) (current\<lparr>su_lastActiveAt := atMs, su_idleEmittedAt := None\<rparr>) m))"

definition markEnded :: "string option \<Rightarrow> int \<Rightarrow> subagents \<Rightarrow> subagents" where
  "markEnded key atMs m =
     (if \<not> truthy_str key then m
      else (case mget m (the key) of None \<Rightarrow> m
            | Some current \<Rightarrow> mput (the key) (current\<lparr>su_endedAt := Some atMs\<rparr>) m))"

definition getByChildSessionKey :: "string option \<Rightarrow> subagents \<Rightarrow> SubagentRecord option" where
  "getByChildSessionKey key m = (if \<not> truthy_str key then None else mget m (the key))"

definition turns_idle :: "int \<Rightarrow> int \<Rightarrow> SubagentRecord \<Rightarrow> bool" where
  "turns_idle idleAfterMs now r =
     (\<not> (su_endedAt r \<noteq> None \<or> su_idleEmittedAt r \<noteq> None) \<and> \<not> now - su_lastActiveAt r < idleAfterMs)"

definition evaluateIdleTransitions :: "int \<Rightarrow> int \<Rightarrow> subagents \<Rightarrow> SubagentRecord list \<times> subagents" where
  "evaluateIdleTransitions idleAfterMs now m =
     (let mark = (\<lambda>r. if turns_idle idleAfterMs now r then r\<lparr>su_idleEmittedAt := Some now\<rparr> else r) in
      (map (\<lambda>(k, r). mark r) (filter (\<lambda>(k, r). turns_idle idleAfterMs now r) m),
       map (\<lambda>(k, r). (k, mark r)) m))"

definition clear_subagents :: "subagents \<Rightarrow> subagents" where
  "clear_subagents m = []"

datatype subagent_op =
    RegisterSpawn spawn_params int
  | ObserveSubagent "string option" int
  | MarkEnded "string option" int
  | EvaluateIdle int int

text \<open>A run of the tracker with the idle records it reports.\<close>

definition subagent_step :: "subagent_op \<Rightarrow> subagents \<times> SubagentRecord list \<Rightarrow> subagents \<times> SubagentRecord list" where
  "subagent_step op st = (case st of (m, out) \<Rightarrow>
     (case op of
        RegisterSpawn p now \<Rightarrow> (snd (registerSpawn p now m), out)
      | ObserveSubagent key atMs \<Rightarrow> (observeSubagent key atMs m, out)
      | MarkEnded key atMs \<Rightarrow> (markEnded key atMs m, out)
      | EvaluateIdle idleAfterMs now \<Rightarrow>
          (case evaluateIdleTransitions idleAfterMs now m of (ts, m1) \<Rightarrow> (m1, out @ ts))))"

section \<open>Agent runs\<close>

record AgentRunSnapshot =
  rs_beforeModelResolvePromptLength :: "nat option"
  rs_beforePromptBuildPromptLength :: "nat option"
  rs_beforePromptBuildMessageCount :: "nat option"

record run_ref =
  rr_runId :: "string option"
  rr_sessionId :: "string option"
  rr_sessionKey :: "string option"

definition toTrackerKey :: "run_ref \<Rightarrow> string option" where
  "toTrackerKey p =
     (if non_blank_opt (rr_runId p) then Some (''run:'' @ the (rr_runId p))
      else if non_blank_opt (rr_sessionId p) then Some (''session:'' @ the (rr_sessionId p))
      else if non_blank_opt (rr_sessionKey p) then Some (''session-key:'' @ the (rr_sessionKey p))
      else None)"

type_synonym run_snapshots = "(string, AgentRunSnapshot) jsmap"

definition no_snapshot :: AgentRunSnapshot where
  "no_snapshot = \<lparr> rs_beforeModelResolvePromptLength = None, rs_beforePromptBuildPromptLength = None,
     rs_beforePromptBuildMessageCount = None \<rparr>"

definition observeBeforeModelResolve :: "run_ref \<Rightarrow> nat \<Rightarrow> run_snapshots \<Rightarrow> run_snapshots" where
  "observeBeforeModelResolve p promptLength m =
     (case toTrackerKey p of None \<Rightarrow> m
      | Some key \<Rightarrow> mput key ((default_to no_snapshot (mget m key))
          \<lparr>rs_beforeModelResolvePromptLength := Some promptLength\<rparr>) m)"

definition observeBeforePromptBuild :: "run_ref \<Rightarrow> nat \<Rightarrow> nat \<Rightarrow> run_snapshots \<Rightarrow> run_snapshots" where
  "observeBeforePromptBuild p promptLength messageCount m =
     (case toTrackerKey p of None \<Rightarrow> m
      | Some key \<Rightarrow> mput key ((default_to no_snapshot (mget m key))
          \<lparr>rs_beforePromptBuildPromptLength := Some promptLength,
           rs_beforePromptBuildMessageCount := Some messageCount\<rparr>) m)"

definition getSnapshot :: "run_ref \<Rightarrow> run_snapshots \<Rightarrow> AgentRunSnapshot option" where
  "getSnapshot p m = (case toTrackerKey p of None \<Rightarrow> None | Some key \<Rightarrow> mget m key)"

definition clearSnapshot :: "run_ref \<Rightarrow> run_snapshots \<Rightarrow> run_snapshots" where
  "clearSnapshot p m = (case toTrackerKey p of None \<Rightarrow> m | Some key \<Rightarrow> mdel key m)"

definition clear_runs :: "run_snapshots \<Rightarrow> run_snapshots" where
  "clear_runs m = []"

section \<open>Idle notifications\<close>

definition touches :: "string \<Rightarrow> subagent_op \<Rightarrow> bool" where
  "touches k op = (case op of
       RegisterSpawn p now \<Rightarrow> sp_childSessionKey p = k
     | ObserveSubagent key atMs \<Rightarrow> key = Some k
     | _ \<Rightarrow> False)"

definition keys_ok :: "subagents \<Rightarrow> bool" where
  "keys_ok m = (map_ok m \<and> (\<forall>k r. mget m k = Some r \<longrightarrow> su_childSessionKey r = k))"

definition quiet :: "string \<Rightarrow> subagents \<Rightarrow> bool" where
  "quiet k m = (\<forall>r. mget m k = Some r \<longrightarrow> su_endedAt r \<noteq> None \<or> su_idleEmittedAt r \<noteq> None)"

lemma keys_ok_put: "keys_ok m \<Longrightarrow> su_childSessionKey r = k \<Longrightarrow> keys_ok (mput k r m)"
  by (simp add: keys_ok_def)

lemma key_of: "keys_ok m \<Longrightarrow> mget m k = Some r \<Longrightarrow> su_childSessionKey r = k"
  by (simp add: keys_ok_def)

lemma keys_ok_evaluate:
  assumes "keys_ok m" and "evaluateIdleTransitions d now m = (ts, m1)"
  shows "keys_ok m1"
proof -
  have m1: "m1 = map (\<lambda>(k, r). (k, if turns_idle d now r then r\<lparr>su_idleEmittedAt := Some now\<rparr> else r)) m"
    using assms(2) by (auto simp: evaluateIdleTransitions_def Let_def)
  show ?thesis
    using assms(1) unfolding keys_ok_def m1 mkeys_map mget_map by (auto split: if_splits)
qed

lemma keys_ok_step:
  assumes "keys_ok (fst st)"
  shows "keys_ok (fst (subagent_step op st))"
proof (cases st)
  case (Pair m out)
  then have ok: "keys_ok m" using assms by simp
  show ?thesis
  proof (cases op)
    case (EvaluateIdle d now)
    then show ?thesis using keys_ok_evaluate [OF ok]
      by (cases "evaluateIdleTransitions d now m") (simp add: Pair subagent_step_def)
  qed (use ok key_of [OF ok] in \<open>auto simp: Pair subagent_step_def registerSpawn_def spawn_record_def
      observeSubagent_def markEnded_def Let_def intro!: keys_ok_put split: option.splits\<close>)
qed

interpretation subagent_machine: machine subagent_step "\<lambda>st. keys_ok (fst st)"
  by unfold_locales (rule keys_ok_step)

text \<open>A quiet subagent that is not touched stays quiet and is not reported.\<close>

lemma evaluate_reports:
  assumes ok: "keys_ok m" and e: "evaluateIdleTransitions d now m = (ts, m1)"
  shows "r \<in> set ts \<longleftrightarrow> (\<exists>q. mget m (su_childSessionKey r) = Some q \<and> turns_idle d now q \<and>
      r = q\<lparr>su_idleEmittedAt := Some now\<rparr>)"
proof -
  have ts: "r \<in> set ts \<longleftrightarrow> (\<exists>x \<in> set m. turns_idle d now (snd x) \<and> r = (snd x)\<lparr>su_idleEmittedAt := Some now\<rparr>)"
  proof -
    have "ts = map (\<lambda>x. (snd x)\<lparr>su_idleEmittedAt := Some now\<rparr>) (filter (\<lambda>x. turns_idle d now (snd x)) m)"
      using e by (auto simp: evaluateIdleTransitions_def Let_def split_beta intro!: map_cong filter_cong)
    then show ?thesis by auto
  qed
  show ?thesis
  proof
    assume "r \<in> set ts"
    then obtain k q where q: "(k, q) \<in> set m" "turns_idle d now q" "r = q\<lparr>su_idleEmittedAt := Some now\<rparr>"
      unfolding ts by auto
    have "mget m k = Some q" using ok q(1) by (simp add: keys_ok_def map_of_is_SomeI)
    then show "\<exists>q. mget m (su_childSessionKey r) = Some q \<and> turns_idle d now q \<and> r = q\<lparr>su_idleEmittedAt := Some now\<rparr>"
      using q key_of [OF ok, of k q] by simp
  next
    assume "\<exists>q. mget m (su_childSessionKey r) = Some q \<and> turns_idle d now q \<and> r = q\<lparr>su_idleEmittedAt := Some now\<rparr>"
    then obtain q where q: "mget m (su_childSessionKey r) = Some q" "turns_idle d now q"
      "r = q\<lparr>su_idleEmittedAt := Some now\<rparr>" by blast
    then show "r \<in> set ts" unfolding ts by (intro bexI [of _ "(su_childSessionKey r, q)"]) (auto dest: map_of_SomeD)
  qed
qed

lemma quiet_evaluate:
  assumes "evaluateIdleTransitions d now m = (ts, m1)" and "quiet k m"
  shows "quiet k m1"
  using assms by (cases "mget m k") (auto simp: quiet_def evaluateIdleTransitions_def Let_def mget_map split: if_splits)

lemma quiet_step:
  assumes ok: "keys_ok m" and q: "quiet k m" and t: "\<not> touches k op"
    and s: "subagent_step op (m, out) = (m1, out1)"
  shows "quiet k m1 \<and> filter (\<lambda>r. su_childSessionKey r = k) out1 = filter (\<lambda>r. su_childSessionKey r = k) out"
proof (cases op)
  case (EvaluateIdle d now)
  obtain ts m2 where e: "evaluateIdleTransitions d now m = (ts, m2)" by (metis surj_pair)
  have "su_childSessionKey r \<noteq> k" if "r \<in> set ts" for r
    using that evaluate_reports [OF ok e] q by (auto simp: quiet_def turns_idle_def)
  then have "filter (\<lambda>r. su_childSessionKey r = k) ts = []" by (auto simp: filter_empty_conv)
  moreover have "m1 = m2" "out1 = out @ ts" using s by (auto simp: EvaluateIdle subagent_step_def e)
  ultimately show ?thesis using quiet_evaluate [OF e q] by simp
next
  case (ObserveSubagent key atMs)
  then show ?thesis using s q t
    by (cases key) (auto simp: subagent_step_def quiet_def touches_def observeSubagent_def split: option.splits if_splits)
qed (use s q t in \<open>auto simp: subagent_step_def quiet_def touches_def registerSpawn_def markEnded_def Let_def
      split: option.splits if_splits\<close>)

lemma quiet_run:
  assumes "keys_ok m" and "quiet k m" and "\<forall>op \<in> set ops. \<not> touches k op"
    and "fold subagent_step ops (m, out) = (m1, out1)"
  shows "filter (\<lambda>r. su_childSessionKey r = k) out1 = filter (\<lambda>r. su_childSessionKey r = k) out"
  using assms
proof (induction ops arbitrary: m out)
  case (Cons op ops)
  obtain m2 out2 where s: "subagent_step op (m, out) = (m2, out2)" by (metis surj_pair)
  have "keys_ok m2" using keys_ok_step [of "(m, out)" op] Cons.prems(1) by (simp add: s)
  then show ?case using Cons quiet_step [OF Cons.prems(1,2) _ s] by (simp add: s)
qed simp

lemma reported_quiet:
  assumes ok: "keys_ok m" and e: "evaluateIdleTransitions d now m = (ts, m1)" and r: "r \<in> set ts"
  shows "quiet (su_childSessionKey r) m1"
  using evaluate_reports [OF ok e, of r] r e
  by (auto simp: quiet_def evaluateIdleTransitions_def Let_def mget_map)

text \<open>
  A subagent that is reported idle had not ended and had been inactive for the idle
  time; it is marked, and it is not reported again for as long as it is neither spawned
  again nor active.
\<close>

theorem idle_reported_once:
  assumes "fold subagent_step ops1 ([], []) = (m, out)"
    and "evaluateIdleTransitions d now m = (ts, m1)" and "r \<in> set ts"
    and "\<forall>op \<in> set ops2. \<not> touches (su_childSessionKey r) op"
    and "fold subagent_step ops2 (m1, []) = (m2, later)"
  shows "su_endedAt r = None \<and> d \<le> now - su_lastActiveAt r \<and> su_idleEmittedAt r = Some now \<and>
    su_childSessionKey r \<notin> su_childSessionKey ` set later"
proof -
  have "keys_ok (fst (m, out))"
    unfolding assms(1) [symmetric] by (rule subagent_machine.inv_run) (simp add: keys_ok_def)
  then have ok: "keys_ok m" by simp
  have "filter (\<lambda>q. su_childSessionKey q = su_childSessionKey r) later = []"
    using quiet_run [OF keys_ok_evaluate [OF ok assms(2)] reported_quiet [OF ok assms(2,3)] assms(4,5)] by simp
  then have "su_childSessionKey r \<notin> su_childSessionKey ` set later" by (auto simp: filter_empty_conv)
  then show ?thesis using evaluate_reports [OF ok assms(2), of r] assms(3) by (auto simp: turns_idle_def)
qed

definition sample_spawn :: spawn_params where
  "sample_spawn = \<lparr> sp_childSessionKey = ''c'', sp_parentAgentId = None, sp_parentSessionId = None,
     sp_parentSessionKey = None, sp_childAgentId = None, sp_runId = None, sp_mode = None \<rparr>"

theorem idle_reported_once_witness:
  "case fold subagent_step [RegisterSpawn sample_spawn 0] ([], []) of (m, out) \<Rightarrow>
   case evaluateIdleTransitions 10 20 m of (ts, m1) \<Rightarrow>
     map su_childSessionKey ts = [''c''] \<and>
     ''c'' \<notin> su_childSessionKey ` set (snd (fold subagent_step [MarkEnded (Some ''d'') 30, EvaluateIdle 10 90] (m1, [])))"
proof -
  obtain m out where s: "fold subagent_step [RegisterSpawn sample_spawn 0] ([], []) = (m, out)" by (metis surj_pair)
  obtain ts m1 where e: "evaluateIdleTransitions 10 20 m = (ts, m1)" by (metis surj_pair)
  obtain m2 later where l: "fold subagent_step [MarkEnded (Some ''d'') 30, EvaluateIdle 10 90] (m1, []) = (m2, later)"
    by (metis surj_pair)
  have "map su_childSessionKey (fst (evaluateIdleTransitions 10 20
      (fst (fold subagent_step [RegisterSpawn sample_spawn 0] ([], []))))) = [''c'']" by code_simp
  then have ts: "map su_childSessionKey ts = [''c'']" unfolding s fst_conv e .
  then obtain r where r: "r \<in> set ts" "su_childSessionKey r = ''c''" by (cases ts) auto
  show ?thesis
    unfolding s prod.case e l using idle_reported_once [OF s e r(1) _ l] ts r(2) by (simp add: touches_def l)
qed

section \<open>Keys of agent runs\<close>

text \<open>The reference: a run is identified by the first usable of its run id, session id and session key.\<close>

datatype run_ident = ByRun string | BySession string | BySessionKey string

definition run_ident :: "run_ref \<Rightarrow> run_ident option" where
  "run_ident p =
     (if non_blank_opt (rr_runId p) then Some (ByRun (the (rr_runId p)))
      else if non_blank_opt (rr_sessionId p) then Some (BySession (the (rr_sessionId p)))
      else if non_blank_opt (rr_sessionKey p) then Some (BySessionKey (the (rr_sessionKey p)))
      else None)"

lemma tracker_key_injective: "toTrackerKey p = toTrackerKey q \<longleftrightarrow> run_ident p = run_ident q"
  by (auto simp: toTrackerKey_def run_ident_def)

text \<open>
  Runs with different references (a run id before a session id before a session key)
  never share a snapshot: observing or clearing one leaves the snapshot of the other as it
  is, and a cleared snapshot is gone.
\<close>

theorem agent_runs_isolated:
  assumes "run_ident p \<noteq> run_ident q"
  shows "getSnapshot q (observeBeforeModelResolve p n m) = getSnapshot q m \<and>
    getSnapshot q (observeBeforePromptBuild p n k m) = getSnapshot q m \<and>
    getSnapshot q (clearSnapshot p m) = getSnapshot q m \<and>
    getSnapshot p (clearSnapshot p m) = None"
proof -
  have "toTrackerKey p \<noteq> toTrackerKey q" using assms by (simp add: tracker_key_injective)
  then show ?thesis
    by (auto simp: getSnapshot_def observeBeforeModelResolve_def observeBeforePromptBuild_def clearSnapshot_def
        split: option.splits)
qed

definition run_a :: run_ref where
  "run_a = \<lparr> rr_runId = None, rr_sessionId = Some ''x'', rr_sessionKey = None \<rparr>"

definition run_b :: run_ref where
  "run_b = \<lparr> rr_runId = None, rr_sessionId = None, rr_sessionKey = Some ''x'' \<rparr>"

theorem agent_runs_isolated_witness:
  "getSnapshot run_b (observeBeforeModelResolve run_a 7 []) = None \<and>
   getSnapshot run_a (observeBeforeModelResolve run_a 7 []) \<noteq> None"
proof -
  have ne: "run_ident run_a \<noteq> run_ident run_b" by code_simp
  have g: "getSnapshot run_b [] = None" "getSnapshot run_a (observeBeforeModelResolve run_a 7 []) \<noteq> None" by code_simp+
  show ?thesis using agent_runs_isolated [OF ne, of 7 "[]"] g by simp
qed

end
