(* ===== verification/Redaction.thy ===== *)
theory Redaction imports JsValue Config begin

text \<open>
  Redaction of payloads, \<open>src/events/redaction.ts\<close>. A payload is a value in a heap of arrays and
  objects, so that sharing and cycles are part of the input; the result is a fresh tree. The
  recursion of the source is bounded by fuel: no result means that it has not returned.
\<close>

section \<open>Payloads\<close>

datatype rval =
    RUndef | RNull | RBool bool | RNum int | RStr string
  | Ref nat

datatype cell =
    ArrCell "rval list"
  | ObjCell "(string \<times> rval) list"

type_synonym heap = "nat \<Rightarrow> cell option"

fun prim_js :: "rval \<Rightarrow> jsval" where
  "prim_js RNull = JNull"
| "prim_js (RBool b) = JBool b"
| "prim_js (RNum n) = JNum n"
| "prim_js (RStr s) = JStr s"
| "prim_js v = JUndef"

section \<open>Redaction\<close>

definition normalizeFieldSet :: "string list \<Rightarrow> string list" where
  "normalizeFieldSet names =
     fold sadd (filter (\<lambda>f. f \<noteq> []) (map (\<lambda>f. js_lower (js_trim f)) names)) []"

text \<open>The items of an array or the entries of an object, with the set of seen objects passed along.\<close>

fun redactAll :: "('v \<Rightarrow> nat list \<Rightarrow> ('x \<times> nat list) option) \<Rightarrow> 'v list \<Rightarrow> nat list \<Rightarrow> ('x list \<times> nat list) option" where
  "redactAll f [] seen = Some ([], seen)"
| "redactAll f (v # vs) seen =
     (case f v seen of None \<Rightarrow> None
      | Some (x, s) \<Rightarrow> (case redactAll f vs s of None \<Rightarrow> None | Some (xs, s2) \<Rightarrow> Some (x # xs, s2)))"

definition redactEntry ::
  "(rval \<Rightarrow> nat list \<Rightarrow> (jsval \<times> nat list) option) \<Rightarrow> string list \<Rightarrow> string \<Rightarrow> string \<times> rval \<Rightarrow> nat list \<Rightarrow>
   ((string \<times> jsval) \<times> nat list) option" where
  "redactEntry f F r kv seen =
     (if js_lower (fst kv) \<in> set F then Some ((fst kv, JStr r), seen)
      else (case f (snd kv) seen of None \<Rightarrow> None | Some (x, s) \<Rightarrow> Some ((fst kv, x), s)))"

primrec redactValue :: "nat \<Rightarrow> heap \<Rightarrow> string list \<Rightarrow> string \<Rightarrow> rval \<Rightarrow> nat list \<Rightarrow> (jsval \<times> nat list) option" where
  "redactValue 0 h F r v seen = None"
| "redactValue (Suc n) h F r v seen =
     (case v of
        Ref a \<Rightarrow>
          (case h a of
             None \<Rightarrow> Some (JUndef, seen)
           | Some (ArrCell vs) \<Rightarrow>
               (case redactAll (redactValue n h F r) vs seen of None \<Rightarrow> None | Some (xs, s) \<Rightarrow> Some (JArr xs, s))
           | Some (ObjCell kvs) \<Rightarrow>
               if a \<in> set seen then Some (JStr r, seen)
               else (case redactAll (redactEntry (redactValue n h F r) F r) kvs (a # seen) of
                       None \<Rightarrow> None | Some (es, s) \<Rightarrow> Some (JObj es, s)))
      | _ \<Rightarrow> Some (prim_js v, seen))"

text \<open>\<open>copied\<close> is the payload itself, which is returned when nothing is to be redacted.\<close>

definition redactPayload :: "nat \<Rightarrow> heap \<Rightarrow> RedactionConfig \<Rightarrow> jsval \<Rightarrow> rval \<Rightarrow> jsval option" where
  "redactPayload fuel h config copied payload =
     (if \<not> rd_enabled config then Some copied
      else
        let sensitiveFields = normalizeFieldSet (rd_fields config) in
        if length sensitiveFields = 0 then Some copied
        else map_option fst (redactValue fuel h sensitiveFields (rd_replacement config) payload []))"

section \<open>What a redacted value looks like\<close>

fun hides :: "string list \<Rightarrow> string \<Rightarrow> jsval \<Rightarrow> bool" where
  "hides F r (JArr xs) = list_all (hides F r) xs"
| "hides F r (JObj kvs) = list_all (\<lambda>(k, v). if js_lower k \<in> set F then v = JStr r else hides F r v) kvs"
| "hides F r v = True"

lemma hides_prim [simp]: "hides F r (prim_js v)"
  by (cases v) simp_all

lemma redactAll_all:
  assumes "\<And>v s x t. f v s = Some (x, t) \<Longrightarrow> P x"
  shows "redactAll f vs seen = Some (xs, s) \<Longrightarrow> list_all P xs"
proof (induction vs arbitrary: seen xs)
  case (Cons v vs)
  then obtain x s1 ys where v: "f v seen = Some (x, s1)" and vs: "redactAll f vs s1 = Some (ys, s)" "xs = x # ys"
    by (auto split: option.splits)
  then show ?case using assms [OF v] Cons.IH by simp
qed simp

abbreviation entry_hides :: "string list \<Rightarrow> string \<Rightarrow> string \<times> jsval \<Rightarrow> bool" where
  "entry_hides F r e \<equiv> (case e of (k, v) \<Rightarrow> if js_lower k \<in> set F then v = JStr r else hides F r v)"

lemma redact_hides: "redactValue n h F r v seen = Some (x, s) \<Longrightarrow> hides F r x"
proof (induction n arbitrary: v seen x s)
  case (Suc n)
  have items: "list_all (hides F r) xs" if "redactAll (redactValue n h F r) vs s1 = Some (xs, s2)" for vs s1 xs s2
    by (rule redactAll_all [OF _ that]) (rule Suc.IH)
  have entries: "list_all (entry_hides F r) es"
    if "redactAll (redactEntry (redactValue n h F r) F r) kvs s1 = Some (es, s2)" for kvs s1 es s2
    by (rule redactAll_all [OF _ that])
      (auto simp: redactEntry_def dest: Suc.IH split: if_splits option.splits)
  show ?case
    using Suc.prems by (auto split: rval.splits option.splits cell.splits if_splits dest: items entries)
qed simp

section \<open>Payloads without sharing\<close>

text \<open>The reference: redaction of a tree.\<close>

fun redact_tree :: "string list \<Rightarrow> string \<Rightarrow> jsval \<Rightarrow> jsval" where
  "redact_tree F r (JArr xs) = JArr (map (redact_tree F r) xs)"
| "redact_tree F r (JObj kvs) = JObj (map (\<lambda>(k, v). (k, if js_lower k \<in> set F then JStr r else redact_tree F r v)) kvs)"
| "redact_tree F r v = v"

text \<open>The heap value \<open>v\<close> stands for a tree; the objects it is made of, in the order of a visit.\<close>

definition is_prim :: "rval \<Rightarrow> bool" where
  "is_prim v = (case v of Ref a \<Rightarrow> False | _ \<Rightarrow> True)"

inductive repr :: "heap \<Rightarrow> rval \<Rightarrow> jsval \<Rightarrow> nat list \<Rightarrow> bool"
  and repr_items :: "heap \<Rightarrow> rval list \<Rightarrow> jsval list \<Rightarrow> nat list \<Rightarrow> bool"
  and repr_entries :: "heap \<Rightarrow> (string \<times> rval) list \<Rightarrow> jsobj \<Rightarrow> nat list \<Rightarrow> bool"
  for h :: heap
where
  prim: "is_prim v \<Longrightarrow> repr h v (prim_js v) []"
| arr: "h a = Some (ArrCell vs) \<Longrightarrow> repr_items h vs xs as \<Longrightarrow> repr h (Ref a) (JArr xs) as"
| obj: "h a = Some (ObjCell kvs) \<Longrightarrow> repr_entries h kvs es as \<Longrightarrow> repr h (Ref a) (JObj es) (a # as)"
| items_nil: "repr_items h [] [] []"
| items_cons: "repr h v x as \<Longrightarrow> repr_items h vs xs bs \<Longrightarrow> repr_items h (v # vs) (x # xs) (as @ bs)"
| entries_nil: "repr_entries h [] [] []"
| entries_cons: "repr h v x as \<Longrightarrow> repr_entries h kvs es bs \<Longrightarrow> repr_entries h ((k, v) # kvs) ((k, x) # es) (as @ bs)"

lemma redact_tree_prim [simp]: "redact_tree F r (prim_js v) = prim_js v"
  by (cases v) simp_all

definition returns :: "(nat \<Rightarrow> ('x \<times> nat list) option) \<Rightarrow> 'x \<Rightarrow> nat list \<Rightarrow> nat list \<Rightarrow> bool" where
  "returns f x as seen = (\<exists>n s. (\<forall>m \<ge> n. f m = Some (x, s)) \<and> set s \<subseteq> set as \<union> set seen)"

lemma returnsI: "(\<And>m. m \<ge> n \<Longrightarrow> f m = Some (x, s)) \<Longrightarrow> set s \<subseteq> set as \<union> set seen \<Longrightarrow> returns f x as seen"
  unfolding returns_def by blast

lemma returnsE:
  assumes "returns f x as seen"
  obtains n s where "\<And>m. m \<ge> n \<Longrightarrow> f m = Some (x, s)" "set s \<subseteq> set as \<union> set seen"
  using assms unfolding returns_def by blast

lemma returns_cons:
  assumes "returns (\<lambda>n. f n v seen) x as seen" and "\<And>s. set s \<subseteq> set as \<union> set seen \<Longrightarrow> returns (\<lambda>n. redactAll (f n) vs s) xs bs s"
  shows "returns (\<lambda>n. redactAll (f n) (v # vs) seen) (x # xs) (as @ bs) seen"
proof -
  obtain n s where n: "\<And>m. m \<ge> n \<Longrightarrow> f m v seen = Some (x, s)" and s: "set s \<subseteq> set as \<union> set seen"
    using assms(1) by (rule returnsE) blast
  obtain n2 s2 where n2: "\<And>m. m \<ge> n2 \<Longrightarrow> redactAll (f m) vs s = Some (xs, s2)" and s2: "set s2 \<subseteq> set bs \<union> set s"
    using assms(2) [OF s] by (rule returnsE) blast
  show ?thesis by (rule returnsI [of "max n n2" _ _ s2]) (use n n2 s s2 in auto)
qed

abbreviation entry_tree :: "string list \<Rightarrow> string \<Rightarrow> string \<times> jsval \<Rightarrow> string \<times> jsval" where
  "entry_tree F r e \<equiv> (case e of (k, v) \<Rightarrow> (k, if js_lower k \<in> set F then JStr r else redact_tree F r v))"

lemma redact_spec:
  "repr h v x as \<Longrightarrow> distinct as \<Longrightarrow> set as \<inter> set seen = {} \<Longrightarrow>
     returns (\<lambda>n. redactValue n h F r v seen) (redact_tree F r x) as seen"
  "repr_items h vs xs as \<Longrightarrow> distinct as \<Longrightarrow> set as \<inter> set seen = {} \<Longrightarrow>
     returns (\<lambda>n. redactAll (redactValue n h F r) vs seen) (map (redact_tree F r) xs) as seen"
  "repr_entries h kvs es as \<Longrightarrow> distinct as \<Longrightarrow> set as \<inter> set seen = {} \<Longrightarrow>
     returns (\<lambda>n. redactAll (redactEntry (redactValue n h F r) F r) kvs seen) (map (entry_tree F r) es) as seen"
proof (induction arbitrary: seen and seen and seen rule: repr_repr_items_repr_entries.inducts)
  case (prim v)
  have "redactValue m h F r v seen = Some (prim_js v, seen)" if "m \<ge> 1" for m
    using that prim by (cases m; cases v) (simp_all add: is_prim_def)
  then show ?case by (auto intro: returnsI [of 1])
next
  case (arr a vs xs as)
  obtain n s where n: "\<And>m. m \<ge> n \<Longrightarrow> redactAll (redactValue m h F r) vs seen = Some (map (redact_tree F r) xs, s)"
      and s: "set s \<subseteq> set as \<union> set seen" using arr(3) [OF arr.prems] by (rule returnsE) blast
  have "redactValue m h F r (Ref a) seen = Some (JArr (map (redact_tree F r) xs), s)" if "m \<ge> Suc n" for m
    using that n arr(1) by (cases m) auto
  then show ?case using s by (auto intro: returnsI [of "Suc n"])
next
  case (obj a kvs es as)
  have "returns (\<lambda>n. redactAll (redactEntry (redactValue n h F r) F r) kvs (a # seen)) (map (entry_tree F r) es) as (a # seen)"
    using obj.prems by (intro obj(3)) auto
  then obtain n s where n: "\<And>m. m \<ge> n \<Longrightarrow> redactAll (redactEntry (redactValue m h F r) F r) kvs (a # seen) =
        Some (map (entry_tree F r) es, s)"
      and s: "set s \<subseteq> set as \<union> set (a # seen)" by (rule returnsE) blast
  have "redactValue m h F r (Ref a) seen = Some (JObj (map (entry_tree F r) es), s)" if "m \<ge> Suc n" for m
    using that n obj(1) obj.prems by (cases m) auto
  then show ?case using s by (intro returnsI [of "Suc n" _ _ s]) auto
next
  case items_nil
  then show ?case by (auto intro: returnsI [of 0])
next
  case (items_cons v x as vs xs bs)
  have "returns (\<lambda>n. redactAll (redactValue n h F r) vs s) (map (redact_tree F r) xs) bs s"
    if "set s \<subseteq> set as \<union> set seen" for s
    using items_cons.prems that by (intro items_cons(4)) auto
  moreover have "returns (\<lambda>n. redactValue n h F r v seen) (redact_tree F r x) as seen"
    using items_cons.prems by (intro items_cons(2)) auto
  ultimately show ?case unfolding list.map by (intro returns_cons)
next
  case entries_nil
  then show ?case by (auto intro: returnsI [of 0])
next
  case (entries_cons v x as kvs es bs k)
  have rest: "returns (\<lambda>n. redactAll (redactEntry (redactValue n h F r) F r) kvs s) (map (entry_tree F r) es) bs s"
    if "set s \<subseteq> set as \<union> set seen" for s
    using entries_cons.prems that by (intro entries_cons(4)) auto
  have v: "returns (\<lambda>n. redactValue n h F r v seen) (redact_tree F r x) as seen"
    using entries_cons.prems by (intro entries_cons(2)) auto
  have "returns (\<lambda>n. redactEntry (redactValue n h F r) F r (k, v) seen) (entry_tree F r (k, x)) as seen"
  proof (cases "js_lower k \<in> set F")
    case True
    then show ?thesis by (auto simp: redactEntry_def intro: returnsI [of 0])
  next
    case False
    obtain n s where "\<And>m. m \<ge> n \<Longrightarrow> redactValue m h F r v seen = Some (redact_tree F r x, s)"
        "set s \<subseteq> set as \<union> set seen" using v by (rule returnsE) blast
    then show ?thesis using False by (intro returnsI [of n _ _ s]) (simp_all add: redactEntry_def)
  qed
  then show ?case unfolding list.map using rest by (rule returns_cons)
qed

text \<open>
  Whatever the payload is, when redaction is enabled and returns, every property of the
  result whose lower-cased name is a sensitive field holds the replacement, at every depth.
\<close>

theorem redaction_hides_fields:
  assumes "rd_enabled config" and "normalizeFieldSet (rd_fields config) \<noteq> []"
    and "redactPayload fuel h config copied payload = Some x"
  shows "hides (normalizeFieldSet (rd_fields config)) (rd_replacement config) x"
  using assms redact_hides by (auto simp: redactPayload_def Let_def)

definition redacted :: "RedactionConfig \<Rightarrow> jsval \<Rightarrow> jsval" where
  "redacted config tree =
     (if \<not> rd_enabled config \<or> normalizeFieldSet (rd_fields config) = [] then tree
      else redact_tree (normalizeFieldSet (rd_fields config)) (rd_replacement config) tree)"

lemma redactPayload_tree:
  assumes "repr h payload tree as" and "distinct as"
  shows "\<exists>n. \<forall>fuel \<ge> n. redactPayload fuel h config tree payload = Some (redacted config tree)"
proof -
  let ?F = "normalizeFieldSet (rd_fields config)" and ?r = "rd_replacement config"
  have "returns (\<lambda>n. redactValue n h ?F ?r payload []) (redact_tree ?F ?r tree) as []"
    using assms by (intro redact_spec(1)) simp_all
  then obtain n s where "\<And>m. m \<ge> n \<Longrightarrow> redactValue m h ?F ?r payload [] = Some (redact_tree ?F ?r tree, s)"
    by (rule returnsE) blast
  then show ?thesis by (intro exI [of _ n]) (simp add: redactPayload_def redacted_def Let_def)
qed

text \<open>
  C39. On a payload without shared objects redaction returns, and the result is the payload
  with exactly the sensitive properties replaced and everything else kept.
\<close>

theorem redaction_of_trees:
  assumes "repr h payload tree as" and "distinct as" and "rd_enabled config"
    and "normalizeFieldSet (rd_fields config) \<noteq> []"
  shows "\<exists>n. \<forall>fuel \<ge> n. redactPayload fuel h config copied payload =
    Some (redact_tree (normalizeFieldSet (rd_fields config)) (rd_replacement config) tree)"
  using redactPayload_tree [OF assms(1,2), of config] assms(3,4) by (simp add: redacted_def redactPayload_def Let_def)

text \<open>
  Redaction of an array that contains itself does not return for any amount of fuel:
  only objects, not arrays, are remembered as seen.
\<close>

theorem array_cycle_never_returns:
  assumes "h a = Some (ArrCell [Ref a])" and "rd_enabled config" and "normalizeFieldSet (rd_fields config) \<noteq> []"
  shows "redactPayload fuel h config copied (Ref a) = None"
proof -
  have "redactValue n h F r (Ref a) seen = None" for n F r seen
    using assms(1) by (induction n) auto
  then show ?thesis using assms(2,3) by (simp add: redactPayload_def Let_def)
qed


definition sample_redaction :: RedactionConfig where
  "sample_redaction = \<lparr> rd_enabled = True, rd_replacement = ''***'', rd_fields = ['' Token ''] \<rparr>"

definition token_heap :: heap where
  "token_heap = [0 \<mapsto> ObjCell [(''user'', RStr ''u''), (''TOKEN'', RStr ''s''), (''list'', Ref 1)],
     1 \<mapsto> ArrCell [Ref 2], 2 \<mapsto> ObjCell [(''token'', RNum 7), (''x'', RNum 8)]]"

lemma sample_redaction_facts:
  "normalizeFieldSet (rd_fields sample_redaction) = [''token'']" "rd_enabled sample_redaction"
  "rd_replacement sample_redaction = ''***''"
  by code_simp+

lemmas repr_rules = repr_repr_items_repr_entries.intros

lemma prim_num: "repr h (RNum n) (JNum n) []" and prim_str: "repr h (RStr s) (JStr s) []"
  using repr_rules(1) [of "RNum n" h] repr_rules(1) [of "RStr s" h] by (simp_all add: is_prim_def)

lemma token_heap_repr:
  "repr token_heap (Ref 0) (JObj [(''user'', JStr ''u''), (''TOKEN'', JStr ''s''),
     (''list'', JArr [JObj [(''token'', JNum 7), (''x'', JNum 8)]])]) [0, 2]"
proof -
  let ?o2 = "JObj [(''token'', JNum 7), (''x'', JNum 8)]"
  have h: "token_heap 0 = Some (ObjCell [(''user'', RStr ''u''), (''TOKEN'', RStr ''s''), (''list'', Ref 1)])"
    "token_heap 1 = Some (ArrCell [Ref 2])" "token_heap 2 = Some (ObjCell [(''token'', RNum 7), (''x'', RNum 8)])"
    by (simp_all add: token_heap_def)
  have "repr_entries token_heap [(''token'', RNum 7), (''x'', RNum 8)] [(''token'', JNum 7), (''x'', JNum 8)] ([] @ [] @ [])"
    by (intro repr_rules(6,7) prim_num)
  from repr_rules(3) [OF h(3) this] have o2: "repr token_heap (Ref 2) ?o2 [2]" by simp
  have "repr_items token_heap [Ref 2] [?o2] ([2] @ [])" by (intro repr_rules(4,5) o2)
  from repr_rules(2) [OF h(2) this] have l: "repr token_heap (Ref 1) (JArr [?o2]) [2]" by simp
  have "repr_entries token_heap [(''user'', RStr ''u''), (''TOKEN'', RStr ''s''), (''list'', Ref 1)]
      [(''user'', JStr ''u''), (''TOKEN'', JStr ''s''), (''list'', JArr [?o2])] ([] @ [] @ [2] @ [])"
    by (intro repr_rules(6,7) prim_str l)
  from repr_rules(3) [OF h(1) this] show ?thesis by simp
qed

theorem redaction_of_trees_witness:
  "\<exists>n. redactPayload n token_heap sample_redaction JUndef (Ref 0) =
    Some (JObj [(''user'', JStr ''u''), (''TOKEN'', JStr ''***''),
      (''list'', JArr [JObj [(''token'', JStr ''***''), (''x'', JNum 8)]])])"
proof -
  have l: "js_lower ''user'' = ''user''" "js_lower ''TOKEN'' = ''token''" "js_lower ''list'' = ''list''"
    "js_lower ''token'' = ''token''" "js_lower ''x'' = ''x''" by code_simp+
  obtain n where "\<forall>fuel \<ge> n. redactPayload fuel token_heap sample_redaction JUndef (Ref 0) =
      Some (redact_tree [''token''] ''***'' (JObj [(''user'', JStr ''u''), (''TOKEN'', JStr ''s''),
        (''list'', JArr [JObj [(''token'', JNum 7), (''x'', JNum 8)]])]))"
    using redaction_of_trees [OF token_heap_repr, of sample_redaction JUndef] by (auto simp: sample_redaction_facts)
  then show ?thesis by (intro exI [of _ n]) (simp add: l del: js_lower_simps)
qed

lemma token_redacted:
  "redactPayload 5 token_heap sample_redaction JUndef (Ref 0) \<noteq> None"
  by code_simp

theorem redaction_hides_fields_witness:
  "\<exists>x. redactPayload 5 token_heap sample_redaction JUndef (Ref 0) = Some x \<and> hides [''token''] ''***'' x"
proof -
  obtain x where x: "redactPayload 5 token_heap sample_redaction JUndef (Ref 0) = Some x"
    using token_redacted by blast
  show ?thesis using redaction_hides_fields [OF _ _ x] x by (simp add: sample_redaction_facts)
qed

theorem array_cycle_never_returns_witness:
  "redactPayload 100 [0 \<mapsto> ArrCell [Ref 0]] sample_redaction JUndef (Ref 0) = None"
  using array_cycle_never_returns [of "[0 \<mapsto> ArrCell [Ref 0]]" 0 sample_redaction 100 JUndef]
  by (simp add: sample_redaction_facts)

text \<open>An object that occurs twice is redacted as a whole where it occurs again.\<close>

lemma shared_object_replaced:
  "redactPayload 9 [0 \<mapsto> ObjCell [(''a'', Ref 1), (''b'', Ref 1)], 1 \<mapsto> ObjCell [(''x'', RNum 1)]]
     sample_redaction JUndef (Ref 0) =
   Some (JObj [(''a'', JObj [(''x'', JNum 1)]), (''b'', JStr ''***'')])"
  by code_simp

end
