(* ===== verification/WebSocketHub.thy ===== *)
theory WebSocketHub imports Protocol begin

text \<open>
  The broadcast server, \<open>src/broadcast/websocketServer.ts\<close>: start-up over the configured ports
  with retries, the authorisation of clients, broadcasting and shutdown.  A server or a client is
  a number; one constructor of \<open>hub_op\<close> is one callback or call.  Whether a port can be opened, a
  client's \<open>readyState\<close> and whether a send fails are arguments of the operations.
\<close>

section \<open>State\<close>

record hub_options =
  ho_port :: "int option"
  ho_host :: "string option"
  ho_path :: "string option"
  ho_fallbackPorts :: "int list option"
  ho_startupRetryMs :: "int option"
  ho_requireAuth :: "bool option"
  ho_authToken :: "string option"
  ho_allowedOrigins :: "string list option"
  ho_allowedIps :: "string list option"

record ws_request =
  wr_origin :: "string option"
  wr_remoteAddress :: "string option"
  wr_pluginToken :: "string option"
  wr_authorization :: "string option"
  wr_url :: "string option"

datatype hub_out =
    SentTo nat string
  | WelcomeTo nat
  | RejectedClient nat string
  | ClosedClient nat
  | Terminated nat
  | ClosedServer nat
  | StopResolved
  | StartFailed

record hub =
  hb_host :: string
  hb_path :: string
  hb_startupRetryMs :: int
  hb_requireAuth :: bool
  hb_authToken :: "string option"
  hb_allowedOrigins :: "string list"
  hb_allowedIps :: "string list"
  hb_configuredPorts :: "int list"
  hb_port :: int
  hb_wss :: "nat option"
  hb_nextServer :: nat
  hb_candidatePorts :: "int list"
  hb_retryTimer :: "nat option"
  hb_clients :: "nat list"
  hb_isRunning :: bool
  hb_generation :: nat
  hb_stopping :: nat
  hb_out :: "hub_out list"

definition tell :: "hub_out \<Rightarrow> hub \<Rightarrow> hub" where
  "tell x s = s\<lparr>hb_out := hb_out s @ [x]\<rparr>"

definition distinct_first :: "int list \<Rightarrow> int list" where
  "distinct_first ports = fold sadd ports []"

definition new_hub :: "hub_options \<Rightarrow> hub" where
  "new_hub opts =
     (let port = default_to 9011 (ho_port opts) in
      \<lparr> hb_host = default_to ''127.0.0.1'' (ho_host opts), hb_path = default_to ''/'' (ho_path opts),
        hb_startupRetryMs = default_to 1000 (ho_startupRetryMs opts),
        hb_requireAuth = default_to False (ho_requireAuth opts), hb_authToken = ho_authToken opts,
        hb_allowedOrigins = fold sadd (default_to [] (ho_allowedOrigins opts)) [],
        hb_allowedIps = fold sadd (default_to [] (ho_allowedIps opts)) [],
        hb_configuredPorts = distinct_first (port # default_to [] (ho_fallbackPorts opts)),
        hb_port = port, hb_wss = None, hb_nextServer = 0, hb_candidatePorts = [], hb_retryTimer = None,
        hb_clients = [], hb_isRunning = False, hb_generation = 0, hb_stopping = 0, hb_out = [] \<rparr>)"

section \<open>Start-up\<close>

datatype opened = Opened | InUse | OpenFailed

definition scheduleRetry :: "nat \<Rightarrow> hub \<Rightarrow> hub" where
  "scheduleRetry generation s =
     (if generation \<noteq> hb_generation s \<or> hb_retryTimer s \<noteq> None then s
      else s\<lparr>hb_retryTimer := Some generation\<rparr>)"

definition clearRetryTimer :: "hub \<Rightarrow> hub" where
  "clearRetryTimer s = s\<lparr>hb_retryTimer := None\<rparr>"

definition close_current :: "hub \<Rightarrow> hub" where
  "close_current s = (case hb_wss s of None \<Rightarrow> s | Some w \<Rightarrow> (tell (ClosedServer w) s)\<lparr>hb_wss := None\<rparr>)"

text \<open>\<open>open_port p\<close> tells what the constructor of the server does on port \<open>p\<close>.\<close>

function tryStartNextPort :: "(int \<Rightarrow> opened) \<Rightarrow> nat \<Rightarrow> hub \<Rightarrow> hub" where
  "tryStartNextPort open_port generation s =
     (if generation \<noteq> hb_generation s then s
      else (case hb_candidatePorts s of
              [] \<Rightarrow> scheduleRetry generation (s\<lparr>hb_isRunning := False\<rparr>)
            | nextPort # rest \<Rightarrow>
                let s1 = s\<lparr>hb_candidatePorts := rest, hb_port := nextPort\<rparr> in
                (case open_port nextPort of
                   Opened \<Rightarrow> s1\<lparr>hb_wss := Some (hb_nextServer s1), hb_nextServer := Suc (hb_nextServer s1)\<rparr>
                 | InUse \<Rightarrow> tryStartNextPort open_port generation (close_current s1)
                 | OpenFailed \<Rightarrow> tell StartFailed s1)))"
  by pat_completeness auto

termination
proof (relation "measure (\<lambda>(f, g, s). length (hb_candidatePorts s))", goal_cases)
  case (2 open_port generation s nextPort rest s1)
  have "hb_candidatePorts (close_current s1) = rest"
    unfolding 2(3) by (simp add: close_current_def tell_def split: option.splits)
  then show ?case using 2(2) by simp
qed simp

declare tryStartNextPort.simps [simp del]

definition start_hub :: "(int \<Rightarrow> opened) \<Rightarrow> hub \<Rightarrow> hub" where
  "start_hub open_port s =
     (if hb_isRunning s then s
      else if hb_wss s \<noteq> None then s
      else
        let s1 = (clearRetryTimer s)\<lparr>hb_candidatePorts := hb_configuredPorts s,
                   hb_generation := Suc (hb_generation s)\<rparr>
        in tryStartNextPort open_port (hb_generation s1) s1)"

definition retry_fires :: "(int \<Rightarrow> opened) \<Rightarrow> hub \<Rightarrow> hub" where
  "retry_fires open_port s =
     (case hb_retryTimer s of
        None \<Rightarrow> s
      | Some generation \<Rightarrow>
          (let s1 = s\<lparr>hb_retryTimer := None\<rparr> in
           if generation \<noteq> hb_generation s1 \<or> hb_wss s1 \<noteq> None \<or> hb_isRunning s1 then s1
           else tryStartNextPort open_port generation (s1\<lparr>hb_candidatePorts := hb_configuredPorts s1\<rparr>)))"

text \<open>The events of a server that was created in a generation.\<close>

definition on_listening :: "nat \<Rightarrow> nat \<Rightarrow> hub \<Rightarrow> hub" where
  "on_listening server generation s =
     (if generation \<noteq> hb_generation s \<or> hb_wss s \<noteq> Some server then tell (ClosedServer server) s
      else s\<lparr>hb_isRunning := True\<rparr>)"

definition on_error :: "(int \<Rightarrow> opened) \<Rightarrow> nat \<Rightarrow> nat \<Rightarrow> bool \<Rightarrow> hub \<Rightarrow> hub" where
  "on_error open_port server generation addressInUse s =
     (if generation \<noteq> hb_generation s \<or> hb_wss s \<noteq> Some server then s
      else if addressInUse
      then tryStartNextPort open_port generation (tell (ClosedServer server) (s\<lparr>hb_wss := None\<rparr>))
      else s\<lparr>hb_isRunning := False\<rparr>)"

definition on_close :: "nat \<Rightarrow> hub \<Rightarrow> hub" where
  "on_close server s =
     (if hb_wss s = Some server then s\<lparr>hb_wss := None, hb_isRunning := False, hb_clients := []\<rparr> else s)"

section \<open>Authorisation\<close>

definition normalizeIp :: "string option \<Rightarrow> string option" where
  "normalizeIp v =
     (if \<not> truthy_str v then None
      else if starts_with (the v) ''::ffff:'' then Some (drop 7 (the v)) else v)"

text \<open>\<open>queryToken\<close> is the parameter \<open>token\<close> of a request URL, none when there is none or it is no URL.\<close>

definition extractToken :: "(string \<Rightarrow> string option) \<Rightarrow> ws_request \<Rightarrow> string option" where
  "extractToken queryToken rq =
     (if non_blank_opt (wr_pluginToken rq) then Some (js_trim (the (wr_pluginToken rq)))
      else if wr_authorization rq \<noteq> None \<and> starts_with (the (wr_authorization rq)) ''Bearer ''
      then Some (js_trim (drop 7 (the (wr_authorization rq))))
      else
        let token = queryToken (default_to [] (wr_url rq)) in
        if truthy_str token \<and> js_trim (the token) \<noteq> [] then Some (js_trim (the token)) else None)"

text \<open>The reason of a refusal, or none when the request is allowed.\<close>

definition authorizeRequest :: "(string \<Rightarrow> string option) \<Rightarrow> ws_request \<Rightarrow> hub \<Rightarrow> string option" where
  "authorizeRequest queryToken rq s =
     (if length (hb_allowedOrigins s) > 0 \<and>
         (\<not> truthy_str (wr_origin rq) \<or> the (wr_origin rq) \<notin> set (hb_allowedOrigins s))
      then Some ''origin not allowed''
      else
        let remoteIp = normalizeIp (wr_remoteAddress rq) in
        if length (hb_allowedIps s) > 0 \<and> (\<not> truthy_str remoteIp \<or> the remoteIp \<notin> set (hb_allowedIps s))
        then Some ''ip not allowed''
        else if \<not> hb_requireAuth s then None
        else if \<not> truthy_str (hb_authToken s) \<or> js_trim (the (hb_authToken s)) = []
        then Some ''auth token missing on server''
        else
          let token = extractToken queryToken rq in
          if \<not> truthy_str token \<or> token \<noteq> hb_authToken s then Some ''invalid auth token'' else None)"

definition handleConnection :: "(string \<Rightarrow> string option) \<Rightarrow> nat \<Rightarrow> ws_request \<Rightarrow> bool \<Rightarrow> hub \<Rightarrow> hub" where
  "handleConnection queryToken ws rq isOpen s =
     (case authorizeRequest queryToken rq s of
        Some reason \<Rightarrow> tell (RejectedClient ws reason) s
      | None \<Rightarrow>
          (let s1 = s\<lparr>hb_clients := sadd ws (hb_clients s)\<rparr>
           in if isOpen then tell (WelcomeTo ws) s1 else s1))"

definition client_closed :: "nat \<Rightarrow> hub \<Rightarrow> hub" where
  "client_closed ws s = s\<lparr>hb_clients := removeAll ws (hb_clients s)\<rparr>"

definition client_error :: "nat \<Rightarrow> hub \<Rightarrow> hub" where
  "client_error ws s = tell (Terminated ws) (s\<lparr>hb_clients := removeAll ws (hb_clients s)\<rparr>)"

section \<open>Broadcast and shutdown\<close>

text \<open>\<open>nowIso\<close> is the current time; \<open>isOpen\<close> and \<open>sendOk\<close> tell the state of each client.\<close>

definition toPayload :: "jsval \<Rightarrow> jsobj" where
  "toPayload ev = (if isRecord ev then obj_entries ev else [(''event'', ev)])"

definition broadcast :: "string \<Rightarrow> (nat \<Rightarrow> bool) \<Rightarrow> (nat \<Rightarrow> bool) \<Rightarrow> jsval \<Rightarrow> hub \<Rightarrow> hub" where
  "broadcast nowIso isOpen sendOk ev s =
     (if \<not> hb_isRunning s \<or> hb_wss s = None then s
      else
        let payload = mput ''broadcastAt'' (JStr nowIso) (toPayload ev);
            text = default_to [] (json_stringify (JObj payload))
        in fold (\<lambda>ws s. if isOpen ws \<and> sendOk ws then tell (SentTo ws text) s else s) (hb_clients s) s)"

text \<open>\<open>stop()\<close> resolves at once, or with the callback of \<open>server.close\<close>.\<close>

definition stop_hub :: "hub \<Rightarrow> hub" where
  "stop_hub s =
     (case hb_wss s of
        None \<Rightarrow> tell StopResolved (clearRetryTimer s)
      | Some server \<Rightarrow>
          (let s1 = (clearRetryTimer (s\<lparr>hb_generation := Suc (hb_generation s)\<rparr>))\<lparr>hb_wss := None\<rparr>;
               s2 = fold (\<lambda>ws. tell (ClosedClient ws)) (hb_clients s1) s1
           in (tell (ClosedServer server) (s2\<lparr>hb_clients := []\<rparr>))\<lparr>hb_stopping := Suc (hb_stopping s2)\<rparr>))"

definition stop_callback :: "hub \<Rightarrow> hub" where
  "stop_callback s =
     (if hb_stopping s = 0 then s
      else tell StopResolved (s\<lparr>hb_stopping := hb_stopping s - 1, hb_isRunning := False\<rparr>))"

datatype hub_op =
    StartHub "int \<Rightarrow> opened"
  | RetryFires "int \<Rightarrow> opened"
  | OnListening nat nat
  | OnError "int \<Rightarrow> opened" nat nat bool
  | OnClose nat
  | OnConnection nat ws_request bool
  | ClientClosed nat
  | ClientError nat
  | Broadcast string "nat \<Rightarrow> bool" "nat \<Rightarrow> bool" jsval
  | StopHub
  | StopCallback

definition hub_step :: "(string \<Rightarrow> string option) \<Rightarrow> hub_op \<Rightarrow> hub \<Rightarrow> hub" where
  "hub_step queryToken op s =
     (case op of
        StartHub f \<Rightarrow> start_hub f s
      | RetryFires f \<Rightarrow> retry_fires f s
      | OnListening w g \<Rightarrow> on_listening w g s
      | OnError f w g inUse \<Rightarrow> on_error f w g inUse s
      | OnClose w \<Rightarrow> on_close w s
      | OnConnection ws rq isOpen \<Rightarrow> handleConnection queryToken ws rq isOpen s
      | ClientClosed ws \<Rightarrow> client_closed ws s
      | ClientError ws \<Rightarrow> client_error ws s
      | Broadcast t isOpen sendOk ev \<Rightarrow> broadcast t isOpen sendOk ev s
      | StopHub \<Rightarrow> stop_hub s
      | StopCallback \<Rightarrow> stop_callback s)"

section \<open>Which fields an operation can change\<close>

lemma tell_simps [simp]:
  "hb_out (tell x s) = hb_out s @ [x]" "hb_wss (tell x s) = hb_wss s" "hb_retryTimer (tell x s) = hb_retryTimer s"
  "hb_clients (tell x s) = hb_clients s" "hb_isRunning (tell x s) = hb_isRunning s"
  "hb_generation (tell x s) = hb_generation s" "hb_candidatePorts (tell x s) = hb_candidatePorts s"
  "hb_configuredPorts (tell x s) = hb_configuredPorts s" "hb_nextServer (tell x s) = hb_nextServer s"
  "hb_stopping (tell x s) = hb_stopping s" "hb_port (tell x s) = hb_port s"
  by (simp_all add: tell_def)

text \<open>The access rules are fixed by the constructor; \<open>rules\<close> collects them.\<close>

definition rules :: "hub \<Rightarrow> bool \<times> string option \<times> string list \<times> string list" where
  "rules s = (hb_requireAuth s, hb_authToken s, hb_allowedOrigins s, hb_allowedIps s)"

definition receivers :: "hub \<Rightarrow> nat set" where
  "receivers s = {ws. \<exists>t. SentTo ws t \<in> set (hb_out s)} \<union> {ws. WelcomeTo ws \<in> set (hb_out s)}"

definition broadcasts :: "hub \<Rightarrow> hub_out list" where
  "broadcasts s = filter (\<lambda>x. case x of SentTo _ _ \<Rightarrow> True | _ \<Rightarrow> False) (hb_out s)"

lemma rules_update [simp]:
  "rules (tell x s) = rules s" "rules (s\<lparr>hb_wss := w\<rparr>) = rules s" "rules (s\<lparr>hb_retryTimer := r\<rparr>) = rules s"
  "rules (s\<lparr>hb_clients := c\<rparr>) = rules s" "rules (s\<lparr>hb_isRunning := b\<rparr>) = rules s"
  "rules (s\<lparr>hb_generation := g\<rparr>) = rules s" "rules (s\<lparr>hb_candidatePorts := ps\<rparr>) = rules s"
  "rules (s\<lparr>hb_port := p\<rparr>) = rules s" "rules (s\<lparr>hb_nextServer := n\<rparr>) = rules s"
  "rules (s\<lparr>hb_stopping := n\<rparr>) = rules s"
  by (simp_all add: rules_def tell_def)

lemma receivers_update [simp]:
  "receivers (s\<lparr>hb_wss := w\<rparr>) = receivers s" "receivers (s\<lparr>hb_retryTimer := r\<rparr>) = receivers s"
  "receivers (s\<lparr>hb_clients := c\<rparr>) = receivers s" "receivers (s\<lparr>hb_isRunning := b\<rparr>) = receivers s"
  "receivers (s\<lparr>hb_generation := g\<rparr>) = receivers s" "receivers (s\<lparr>hb_candidatePorts := ps\<rparr>) = receivers s"
  "receivers (s\<lparr>hb_port := p\<rparr>) = receivers s" "receivers (s\<lparr>hb_nextServer := n\<rparr>) = receivers s"
  "receivers (s\<lparr>hb_stopping := n\<rparr>) = receivers s"
  by (simp_all add: receivers_def)

lemma receivers_tell [simp]:
  "receivers (tell x s) = (case x of SentTo ws _ \<Rightarrow> insert ws (receivers s) | WelcomeTo ws \<Rightarrow> insert ws (receivers s) | _ \<Rightarrow> receivers s)"
  by (auto simp: receivers_def split: hub_out.splits)

lemma broadcasts_update [simp]:
  "broadcasts (s\<lparr>hb_wss := w\<rparr>) = broadcasts s" "broadcasts (s\<lparr>hb_retryTimer := r\<rparr>) = broadcasts s"
  "broadcasts (s\<lparr>hb_clients := c\<rparr>) = broadcasts s" "broadcasts (s\<lparr>hb_isRunning := b\<rparr>) = broadcasts s"
  "broadcasts (s\<lparr>hb_generation := g\<rparr>) = broadcasts s" "broadcasts (s\<lparr>hb_stopping := n\<rparr>) = broadcasts s"
  by (simp_all add: broadcasts_def)

lemma broadcasts_tell [simp]:
  "broadcasts (tell x s) = broadcasts s @ (case x of SentTo _ _ \<Rightarrow> [x] | _ \<Rightarrow> [])"
  by (auto simp: broadcasts_def split: hub_out.splits)

text \<open>Starting a server neither admits a client nor sends anything.\<close>

definition same_access :: "hub \<Rightarrow> hub \<Rightarrow> bool" where
  "same_access s t \<longleftrightarrow> rules t = rules s \<and> receivers t = receivers s \<and> hb_clients t = hb_clients s"

lemma close_current_access: "same_access s (close_current s)"
  by (cases "hb_wss s") (simp_all add: close_current_def same_access_def)

lemma tryStartNextPort_access: "same_access s (tryStartNextPort open_port g s)"
proof (induction open_port g s rule: tryStartNextPort.induct)
  case (1 f g s)
  show ?case
  proof (cases "g = hb_generation s")
    case True
    then show ?thesis
    proof (cases "hb_candidatePorts s")
      case (Cons p rest)
      let ?s1 = "s\<lparr>hb_candidatePorts := rest, hb_port := p\<rparr>"
      have "same_access (close_current ?s1) (tryStartNextPort f g (close_current ?s1))" if "f p = InUse"
        using 1 [OF _ Cons refl that] True by simp
      then show ?thesis
        using True Cons close_current_access [of ?s1]
        by (subst tryStartNextPort.simps) (simp add: same_access_def Let_def split: opened.splits)
    qed (subst tryStartNextPort.simps, simp add: same_access_def scheduleRetry_def)
  qed (subst tryStartNextPort.simps, simp add: same_access_def)
qed

lemma fold_send:
  "fold (\<lambda>ws s. if P ws then tell (SentTo ws t) s else s) cs s
    = s\<lparr>hb_out := hb_out s @ map (\<lambda>ws. SentTo ws t) (filter P cs)\<rparr>"
  by (induction cs arbitrary: s) (simp_all add: tell_def)

lemma fold_close: "fold (\<lambda>ws. tell (ClosedClient ws)) cs s = s\<lparr>hb_out := hb_out s @ map ClosedClient cs\<rparr>"
  by (induction cs arbitrary: s) (simp_all add: tell_def)

section \<open>Only authorised clients\<close>

text \<open>The specification of an allowed request.\<close>

definition allowed :: "(string \<Rightarrow> string option) \<Rightarrow> hub_options \<Rightarrow> ws_request \<Rightarrow> bool" where
  "allowed queryToken opts rq \<longleftrightarrow>
     (default_to [] (ho_allowedOrigins opts) = [] \<or> (\<exists>x. wr_origin rq = Some x \<and> x \<in> set (default_to [] (ho_allowedOrigins opts)))) \<and>
     (default_to [] (ho_allowedIps opts) = [] \<or> (\<exists>x. normalizeIp (wr_remoteAddress rq) = Some x \<and> x \<in> set (default_to [] (ho_allowedIps opts)))) \<and>
     (ho_requireAuth opts = Some True \<longrightarrow>
        (\<exists>t. ho_authToken opts = Some t \<and> js_trim t \<noteq> [] \<and> extractToken queryToken rq = Some t))"

lemma fold_sadd_Nil [simp]: "fold sadd xs [] = [] \<longleftrightarrow> xs = []"
  by (metis set_fold_sadd set_empty sup_bot_left fold_simps(1))

lemma authorizeRequest_allowed:
  assumes "authorizeRequest queryToken rq s = None" "rules s = rules (new_hub opts)"
  shows "allowed queryToken opts rq"
proof -
  have r: "hb_requireAuth s = default_to False (ho_requireAuth opts)" "hb_authToken s = ho_authToken opts"
    "hb_allowedOrigins s = fold sadd (default_to [] (ho_allowedOrigins opts)) []"
    "hb_allowedIps s = fold sadd (default_to [] (ho_allowedIps opts)) []"
    using assms(2) by (simp_all add: rules_def new_hub_def Let_def)
  show ?thesis
    using assms(1) unfolding allowed_def authorizeRequest_def Let_def r
    by (auto simp: truthy_str_def split: if_splits option.splits)
qed

definition access_inv :: "(string \<Rightarrow> string option) \<Rightarrow> hub_options \<Rightarrow> hub \<times> hub_op list \<Rightarrow> bool" where
  "access_inv queryToken opts = (\<lambda>(s, ops). rules s = rules (new_hub opts) \<and>
     (\<forall>ws \<in> set (hb_clients s) \<union> receivers s. \<exists>rq b. OnConnection ws rq b \<in> set ops \<and> allowed queryToken opts rq))"

definition traced_step :: "(string \<Rightarrow> string option) \<Rightarrow> hub_op \<Rightarrow> hub \<times> hub_op list \<Rightarrow> hub \<times> hub_op list" where
  "traced_step queryToken op = (\<lambda>(s, ops). (hub_step queryToken op s, ops @ [op]))"

lemma fold_traced: "fold (traced_step queryToken) ops (s, tr) = (fold (hub_step queryToken) ops s, tr @ ops)"
  by (induction ops arbitrary: s tr) (simp_all add: traced_step_def)

lemma access_inv_mono:
  assumes "access_inv queryToken opts (s, ops)" "rules t = rules s"
    and "set (hb_clients t) \<union> receivers t \<subseteq> set (hb_clients s) \<union> receivers s"
  shows "access_inv queryToken opts (t, ops @ [op])"
  using assms unfolding access_inv_def by fastforce

lemma same_access_mono:
  "same_access s t \<Longrightarrow> rules t = rules s \<and> set (hb_clients t) \<union> receivers t \<subseteq> set (hb_clients s) \<union> receivers s"
  by (simp add: same_access_def)

lemma start_access: "same_access s (start_hub f s)" "same_access s (retry_fires f s)" "same_access s (on_error f w g b s)"
  unfolding start_hub_def retry_fires_def on_error_def Let_def
  by (auto simp: same_access_def clearRetryTimer_def split: option.splits
      simp: tryStartNextPort_access [unfolded same_access_def])

lemma same_access_stop: "rules (stop_hub s) = rules s"
    "set (hb_clients (stop_hub s)) \<union> receivers (stop_hub s) \<subseteq> set (hb_clients s) \<union> receivers s"
  by (auto simp: stop_hub_def Let_def fold_close clearRetryTimer_def rules_def receivers_def tell_def split: option.splits)

lemma access_inv_step: "access_inv queryToken opts st \<Longrightarrow> access_inv queryToken opts (traced_step queryToken op st)"
proof -
  assume a: "access_inv queryToken opts st"
  obtain s ops where st: "st = (s, ops)" by (cases st)
  note m = access_inv_mono [OF a [unfolded st]]
  have sent: "set (hb_clients (broadcast t p q ev s)) \<union> receivers (broadcast t p q ev s) \<subseteq> set (hb_clients s) \<union> receivers s"
    and r: "rules (broadcast t p q ev s) = rules s" for t p q ev
    by (auto simp: broadcast_def Let_def fold_send receivers_def rules_def split: if_splits)
  show ?thesis
  proof (cases op)
    case (OnConnection ws rq b)
    show ?thesis
    proof (cases "authorizeRequest queryToken rq s")
      case None
      have "allowed queryToken opts rq"
        by (rule authorizeRequest_allowed [OF None]) (use a in \<open>simp add: access_inv_def st\<close>)
      then show ?thesis
        using a unfolding st OnConnection traced_step_def
        by (auto simp: access_inv_def hub_step_def handleConnection_def None Let_def) blast+
    next
      case (Some r)
      then show ?thesis
        unfolding st OnConnection traced_step_def
        by (simp add: hub_step_def handleConnection_def) (rule m, auto)
    qed
  next
    case (Broadcast t p q ev)
    then show ?thesis
      unfolding st traced_step_def using m [OF r sent] by (simp add: hub_step_def)
  next
    case (StartHub f)
    then show ?thesis unfolding st traced_step_def using m same_access_mono [OF start_access(1)] by (simp add: hub_step_def)
  next
    case (RetryFires f)
    then show ?thesis unfolding st traced_step_def using m same_access_mono [OF start_access(2)] by (simp add: hub_step_def)
  next
    case (OnError f w g b)
    then show ?thesis unfolding st traced_step_def using m same_access_mono [OF start_access(3)] by (simp add: hub_step_def)
  next
    case StopHub
    then show ?thesis
      unfolding st traced_step_def using m same_access_stop by (simp add: hub_step_def)
  qed (simp_all add: st traced_step_def hub_step_def, (rule m, auto simp: on_listening_def on_close_def client_closed_def client_error_def stop_callback_def split: if_splits)+)
qed

interpretation hub_machine: machine "traced_step queryToken" "access_inv queryToken opts" for queryToken opts
  by unfold_locales (rule access_inv_step)

lemma new_hub_receivers [simp]: "receivers (new_hub opts) = {}" "hb_clients (new_hub opts) = []"
  by (simp_all add: receivers_def new_hub_def Let_def)

text \<open>
  Along every run of a hub, a client that is sent the welcome message or a broadcast had
  made a connection request that the options allow: its origin and address are in the lists
  that are configured, and when authentication is required its token is the configured,
  non-blank one.
\<close>

theorem ws_clients_authorized:
  assumes "SentTo ws t \<in> set (hb_out (fold (hub_step queryToken) ops (new_hub opts)))
    \<or> WelcomeTo ws \<in> set (hb_out (fold (hub_step queryToken) ops (new_hub opts)))"
  shows "\<exists>rq b. OnConnection ws rq b \<in> set ops \<and> allowed queryToken opts rq"
proof -
  have "access_inv queryToken opts (new_hub opts, [])"
    by (simp add: access_inv_def)
  from hub_machine.inv_run [OF this, of ops] have "access_inv queryToken opts (fold (hub_step queryToken) ops (new_hub opts), ops)"
    by (simp add: fold_traced)
  then show ?thesis using assms unfolding access_inv_def receivers_def by blast
qed

section \<open>A stopped hub\<close>

definition quiet :: "hub \<Rightarrow> bool" where
  "quiet s \<longleftrightarrow> hb_wss s = None \<and> hb_retryTimer s = None"

definition quiet_step :: "hub_op \<Rightarrow> bool" where
  "quiet_step op = (case op of StartHub _ \<Rightarrow> False | _ \<Rightarrow> True)"

lemma quiet_hub_step:
  assumes "quiet s" "quiet_step op"
  shows "quiet (hub_step queryToken op s)" "broadcasts (hub_step queryToken op s) = broadcasts s"
  using assms
  by (auto simp: quiet_def quiet_step_def hub_step_def retry_fires_def on_listening_def on_error_def on_close_def
      handleConnection_def client_closed_def client_error_def broadcast_def stop_hub_def stop_callback_def
      clearRetryTimer_def Let_def split: hub_op.splits option.splits)

lemma stop_quiet: "quiet (stop_hub s)" "broadcasts (stop_hub s) = broadcasts s"
  by (auto simp: quiet_def stop_hub_def clearRetryTimer_def fold_close broadcasts_def Let_def tell_def split: option.splits)

text \<open>
  After stop() and until the next start(), no callback that is still outstanding (retry
  timer, server and client events, the close callback) opens a server, arms the retry timer
  or broadcasts anything.
\<close>

theorem stopped_hub_is_silent:
  assumes "list_all quiet_step ops"
  shows "hb_wss (fold (hub_step queryToken) ops (stop_hub s)) = None \<and>
    hb_retryTimer (fold (hub_step queryToken) ops (stop_hub s)) = None \<and>
    filter (\<lambda>x. case x of SentTo _ _ \<Rightarrow> True | _ \<Rightarrow> False) (hb_out (fold (hub_step queryToken) ops (stop_hub s)))
      = filter (\<lambda>x. case x of SentTo _ _ \<Rightarrow> True | _ \<Rightarrow> False) (hb_out s)"
proof -
  have "quiet t \<Longrightarrow> list_all quiet_step ops \<Longrightarrow>
    quiet (fold (hub_step queryToken) ops t) \<and> broadcasts (fold (hub_step queryToken) ops t) = broadcasts t" for t
  by (induction ops arbitrary: t) (simp_all add: quiet_hub_step)
  from this [OF stop_quiet(1) assms] show ?thesis
    by (simp add: quiet_def stop_quiet broadcasts_def [symmetric])
qed

section \<open>The port that is used\<close>

text \<open>
  A start takes the first of the configured ports, in their order and without
  repetitions, that is not in use; when all are in use it arms the retry timer, and when the
  constructor fails otherwise the failure is reported and nothing is retried.
\<close>

theorem start_takes_first_free_port:
  assumes "\<not> hb_isRunning s" "hb_wss s = None"
  shows "let s' = start_hub open_port s in
    (case dropWhile (\<lambda>p. open_port p = InUse) (hb_configuredPorts s) of
       [] \<Rightarrow> hb_wss s' = None \<and> hb_retryTimer s' = Some (hb_generation s') \<and> \<not> hb_isRunning s'
     | p # rest \<Rightarrow> hb_port s' = p \<and> hb_candidatePorts s' = rest \<and> hb_retryTimer s' = None \<and> \<not> hb_isRunning s' \<and>
         (if open_port p = Opened then hb_wss s' = Some (hb_nextServer s) \<and> hb_out s' = hb_out s
          else hb_wss s' = None \<and> hb_out s' = hb_out s @ [StartFailed]))"
proof -
  have t: "let s' = tryStartNextPort open_port g t in
    (case dropWhile (\<lambda>p. open_port p = InUse) (hb_candidatePorts t) of
       [] \<Rightarrow> hb_wss s' = None \<and> hb_retryTimer s' = Some (hb_generation s') \<and> \<not> hb_isRunning s'
     | p # rest \<Rightarrow> hb_port s' = p \<and> hb_candidatePorts s' = rest \<and> hb_retryTimer s' = None \<and> \<not> hb_isRunning s' \<and>
         (if open_port p = Opened then hb_wss s' = Some (hb_nextServer t) \<and> hb_out s' = hb_out t
          else hb_wss s' = None \<and> hb_out s' = hb_out t @ [StartFailed]))"
    if "g = hb_generation t" "hb_wss t = None" "hb_retryTimer t = None" "\<not> hb_isRunning t" for g t
    using that
  proof (induction open_port g t rule: tryStartNextPort.induct)
    case (1 f g t)
    show ?case
    proof (cases "hb_candidatePorts t")
      case Nil
      then show ?thesis using 1(2-) by (subst tryStartNextPort.simps) (simp add: scheduleRetry_def Let_def)
    next
      case (Cons p rest)
      let ?t = "t\<lparr>hb_candidatePorts := rest, hb_port := p\<rparr>"
      have c: "close_current ?t = ?t" using 1(3) by (simp add: close_current_def)
      show ?thesis
      proof (cases "f p")
        case InUse
        have "\<not> g \<noteq> hb_generation t" using 1(2) by simp
        note ih = 1(1) [OF this Cons refl InUse, unfolded c]
        have r: "tryStartNextPort f g t = tryStartNextPort f g ?t"
          using 1(2) Cons InUse c by (subst tryStartNextPort.simps) (simp add: Let_def)
        have i: "g = hb_generation ?t" "hb_wss ?t = None" "hb_retryTimer ?t = None" "\<not> hb_isRunning ?t"
          using 1(2-) by simp_all
        show ?thesis
          unfolding r using ih [OF i] Cons InUse
          by (cases "dropWhile (\<lambda>p. f p = InUse) rest") (simp_all add: Let_def del: dropWhile_eq_Nil_conv)
      qed (use 1(2-) Cons in \<open>subst tryStartNextPort.simps, simp add: Let_def\<close>)+
    qed
  qed
  let ?t = "(clearRetryTimer s)\<lparr>hb_candidatePorts := hb_configuredPorts s, hb_generation := Suc (hb_generation s)\<rparr>"
  have eq: "start_hub open_port s = tryStartNextPort open_port (hb_generation ?t) ?t"
    using assms by (simp add: start_hub_def Let_def)
  have i: "hb_wss ?t = None" "hb_retryTimer ?t = None" "\<not> hb_isRunning ?t"
    using assms by (simp_all add: clearRetryTimer_def)
  show ?thesis
    unfolding eq using t [OF refl i]
    by (cases "dropWhile (\<lambda>p. open_port p = InUse) (hb_configuredPorts s)")
      (simp_all add: Let_def clearRetryTimer_def del: dropWhile_eq_Nil_conv)
qed

section \<open>A late stop\<close>

text \<open>
  When a hub that is still starting is stopped and started again before the close
  callback of the stop runs, the callback marks the new, listening server as not running:
  broadcasts are dropped from then on and start() does nothing.
\<close>

theorem late_stop_silences_hub:
  assumes "\<not> hb_isRunning s" "hb_wss s = Some w" "open_port p = Opened" "hb_configuredPorts s = p # ps"
  shows "let s1 = start_hub open_port (stop_hub s);
             s2 = on_listening (hb_nextServer s) (hb_generation s1) s1;
             s3 = stop_callback s2
         in hb_isRunning s2 \<and> hb_wss s3 = Some (hb_nextServer s) \<and> hb_port s3 = p \<and> \<not> hb_isRunning s3 \<and>
            broadcast nowIso isOpen sendOk ev s3 = s3 \<and> start_hub open_port s3 = s3"
proof -
  let ?q = "stop_hub s"
  have q: "\<not> hb_isRunning ?q" "hb_wss ?q = None" "hb_configuredPorts ?q = p # ps" "hb_nextServer ?q = hb_nextServer s"
    "hb_stopping ?q = Suc (hb_stopping s)"
    using assms by (simp_all add: stop_hub_def Let_def clearRetryTimer_def fold_close tell_def)
  let ?s1 = "start_hub open_port ?q"
  have s1: "\<not> hb_isRunning ?s1" "hb_wss ?s1 = Some (hb_nextServer s)" "hb_port ?s1 = p"
    "hb_stopping ?s1 = Suc (hb_stopping s)"
    using assms(3) q by (simp_all add: start_hub_def Let_def clearRetryTimer_def tryStartNextPort.simps)
  let ?s3 = "stop_callback (on_listening (hb_nextServer s) (hb_generation ?s1) ?s1)"
  have l: "on_listening (hb_nextServer s) (hb_generation ?s1) ?s1 = ?s1\<lparr>hb_isRunning := True\<rparr>"
    using s1 by (simp add: on_listening_def)
  have s3: "\<not> hb_isRunning ?s3" "hb_wss ?s3 = Some (hb_nextServer s)" "hb_port ?s3 = p"
    unfolding l using s1 by (simp_all add: stop_callback_def)
  have "broadcast nowIso isOpen sendOk ev ?s3 = ?s3" "start_hub open_port ?s3 = ?s3"
    using s3 by (simp_all add: broadcast_def start_hub_def)
  then show ?thesis using s3 unfolding Let_def l by simp
qed

section \<open>A concrete hub\<close>

definition token_hub :: hub_options where
  "token_hub = \<lparr> ho_port = Some 9011, ho_host = None, ho_path = None, ho_fallbackPorts = Some [9012, 9011, 9013],
     ho_startupRetryMs = None, ho_requireAuth = Some True, ho_authToken = Some ''s3cret'',
     ho_allowedOrigins = None, ho_allowedIps = None \<rparr>"

definition bearer_request :: "string \<Rightarrow> ws_request" where
  "bearer_request t = \<lparr> wr_origin = None, wr_remoteAddress = Some ''::ffff:127.0.0.1'', wr_pluginToken = None,
     wr_authorization = Some (''Bearer '' @ t), wr_url = Some ''/'' \<rparr>"

definition hub_ops :: "hub_op list" where
  "hub_ops = [StartHub (\<lambda>p. if p = 9011 then InUse else Opened), OnListening 0 1,
     OnConnection 1 (bearer_request ''wrong'') True, OnConnection 2 (bearer_request ''s3cret'') True]"

lemma hub_ops_out: "hb_out (fold (hub_step (\<lambda>u. None)) hub_ops (new_hub token_hub))
    = [RejectedClient 1 ''invalid auth token'', WelcomeTo 2]"
  by code_simp

theorem ws_clients_authorized_witness:
  "\<exists>rq b. OnConnection 2 rq b \<in> set hub_ops \<and> allowed (\<lambda>u. None) token_hub rq"
  by (rule ws_clients_authorized) (simp add: hub_ops_out)

theorem stopped_hub_is_silent_witness:
  "hb_wss (fold (hub_step (\<lambda>u. None)) [StopCallback, OnConnection 3 (bearer_request ''s3cret'') True,
      Broadcast ''now'' (\<lambda>ws. True) (\<lambda>ws. True) (JStr ''x'')]
    (stop_hub (fold (hub_step (\<lambda>u. None)) hub_ops (new_hub token_hub)))) = None"
  using stopped_hub_is_silent [of "[StopCallback, OnConnection 3 (bearer_request ''s3cret'') True,
      Broadcast ''now'' (\<lambda>ws. True) (\<lambda>ws. True) (JStr ''x'')]" "\<lambda>u. None"
      "fold (hub_step (\<lambda>u. None)) hub_ops (new_hub token_hub)"]
  by (simp add: quiet_step_def)

lemma token_hub_state:
  "\<not> hb_isRunning (new_hub token_hub)" "hb_wss (new_hub token_hub) = None"
  "hb_configuredPorts (new_hub token_hub) = [9011, 9012, 9013]"
  by code_simp+

theorem start_takes_first_free_port_witness:
  "hb_port (start_hub (\<lambda>p. if p = 9011 then InUse else Opened) (new_hub token_hub)) = 9012"
  using start_takes_first_free_port [of "new_hub token_hub" "\<lambda>p. if p = 9011 then InUse else Opened"]
  by (simp add: token_hub_state Let_def)

theorem late_stop_silences_hub_witness:
  "\<not> hb_isRunning (stop_callback (on_listening 1 3
      (start_hub (\<lambda>p. Opened) (stop_hub (start_hub (\<lambda>p. Opened) (new_hub token_hub))))))"
proof -
  have s: "\<not> hb_isRunning (start_hub (\<lambda>p. Opened) (new_hub token_hub))"
    "hb_wss (start_hub (\<lambda>p. Opened) (new_hub token_hub)) = Some 0"
    "hb_configuredPorts (start_hub (\<lambda>p. Opened) (new_hub token_hub)) = [9011, 9012, 9013]"
    "hb_nextServer (start_hub (\<lambda>p. Opened) (new_hub token_hub)) = 1"
    "hb_generation (start_hub (\<lambda>p. Opened) (stop_hub (start_hub (\<lambda>p. Opened) (new_hub token_hub)))) = 3"
    by code_simp+
  show ?thesis
    using late_stop_silences_hub [OF s(1,2) refl s(3)] by (simp add: Let_def s)
qed

text \<open>
  A server error other than an address in use leaves the server in place: starting again does
  nothing and no retry is scheduled.
\<close>

lemma failed_server_blocks_start:
  assumes "hb_wss s = Some w"
  shows "start_hub open_port (on_error open_port w (hb_generation s) False s) = s\<lparr>hb_isRunning := False\<rparr>"
  using assms by (simp add: on_error_def start_hub_def)

text \<open>A start while the server is stopping is skipped, and nothing starts the server afterwards.\<close>

lemma start_during_stop_is_lost:
  assumes "hb_isRunning s" "hb_wss s = Some w" "hb_stopping s = 0"
  shows "stop_callback (start_hub open_port (stop_hub s))
    = (tell StopResolved (stop_hub s))\<lparr>hb_stopping := 0, hb_isRunning := False\<rparr>"
    and "hb_wss (stop_callback (start_hub open_port (stop_hub s))) = None"
    and "hb_retryTimer (stop_callback (start_hub open_port (stop_hub s))) = None"
proof -
  have r: "hb_isRunning (stop_hub s)" "hb_stopping (stop_hub s) = 1" "hb_wss (stop_hub s) = None" "hb_retryTimer (stop_hub s) = None"
    using assms by (simp_all add: stop_hub_def Let_def clearRetryTimer_def fold_close tell_def)
  then have "start_hub open_port (stop_hub s) = stop_hub s" by (simp add: start_hub_def)
  with r show "stop_callback (start_hub open_port (stop_hub s))
      = (tell StopResolved (stop_hub s))\<lparr>hb_stopping := 0, hb_isRunning := False\<rparr>"
    "hb_wss (stop_callback (start_hub open_port (stop_hub s))) = None"
    "hb_retryTimer (stop_callback (start_hub open_port (stop_hub s))) = None"
    by (simp_all add: stop_callback_def tell_def)
qed

end
