(* ===== verification/ConfigMerge.thy ===== *)
theory ConfigMerge imports Config begin

text \<open>
  Where the configuration comes from: \<open>loadEnvConfig\<close> of \<open>src/config/env.ts\<close> reads the environment,
  \<open>mergeConfig\<close> of \<open>src/config/merge.ts\<close> puts the defaults, the plugin's configuration and the
  environment together.  The plugin's configuration is JSON that may lack any part, so that
  configurations are JavaScript objects here and spreading them is \<open>spread\<close>.  The environment is a
  function from names to strings.
\<close>

section \<open>Numbers in the environment (config/helpers.ts)\<close>

definition is_digit :: "char \<Rightarrow> bool" where
  "is_digit c \<longleftrightarrow> 48 \<le> (of_char c :: nat) \<and> (of_char c :: nat) \<le> 57"

definition digits_value :: "string \<Rightarrow> int" where
  "digits_value ds = foldl (\<lambda>n c. 10 * n + (of_char c - 48)) 0 ds"

text \<open>\<open>Number.parseInt(value, 10)\<close>: none is \<open>NaN\<close>.\<close>

definition parse_int :: "string \<Rightarrow> int option" where
  "parse_int s =
     (let t = dropWhile js_ws s;
          negative = starts_with t ''-'';
          u = (if negative \<or> starts_with t ''+'' then tl t else t);
          ds = takeWhile is_digit u
      in if ds = [] then None else Some (if negative then - digits_value ds else digits_value ds))"

definition parsePositiveInt :: "string option \<Rightarrow> int option" where
  "parsePositiveInt value =
     (case value of
        None \<Rightarrow> None
      | Some v \<Rightarrow>
          if \<not> non_blank v then None
          else (case parse_int v of None \<Rightarrow> None | Some n \<Rightarrow> if n > 0 then Some n else None))"

section \<open>Values and objects\<close>

definition opt_strs :: "string list option \<Rightarrow> jsval" where
  "opt_strs v = (case v of None \<Rightarrow> JUndef | Some xs \<Rightarrow> strs xs)"

text \<open>\<open>v?.k\<close> and \<open>...(v ?? {})\<close>.\<close>

definition chain :: "jsval \<Rightarrow> string \<Rightarrow> jsval" where
  "chain v k = (if is_nullish v then JUndef else jprop v k)"

definition spread_of :: "jsval \<Rightarrow> jsobj" where
  "spread_of v = (case v of JStr s \<Rightarrow> obj_entries (JArr (map (\<lambda>c. JStr [c]) s)) | _ \<Rightarrow> obj_entries v)"

text \<open>\<open>[...(v ?? [])]\<close>; none when \<open>v\<close> is not iterable.\<close>

definition iterate_of :: "jsval \<Rightarrow> jsval list option" where
  "iterate_of v =
     (case jnullish v (JArr []) of
        JArr xs \<Rightarrow> Some xs | JStr s \<Rightarrow> Some (map (\<lambda>c. JStr [c]) s) | _ \<Rightarrow> None)"

text \<open>\<open>...(value !== undefined ? { key: value } : {})\<close>\<close>

definition opt :: "string \<Rightarrow> jsval \<Rightarrow> jsobj" where
  "opt k v = (if v = JUndef then [] else [(k, v)])"

text \<open>\<open>if (a ?? b ?? ...)\<close>: the first value that is set decides, and an empty string does not.\<close>

definition first_set :: "jsval list \<Rightarrow> bool" where
  "first_set vs = js_truthy (foldr jnullish vs JUndef)"

section \<open>The defaults as an object (config/default-config.ts)\<close>

definition redaction_object :: "RedactionConfig \<Rightarrow> jsval" where
  "redaction_object r =
     JObj [(''enabled'', JBool (rd_enabled r)), (''replacement'', JStr (rd_replacement r)), (''fields'', strs (rd_fields r))]"

definition transport_object :: "TransportConfig \<Rightarrow> jsval" where
  "transport_object t =
     JObj [(''mode'', JStr (tc_mode t)), (''lockPath'', JStr (tc_lockPath t)), (''socketPath'', JStr (tc_socketPath t)),
       (''lockStaleMs'', JNum (tc_lockStaleMs t)), (''heartbeatMs'', JNum (tc_heartbeatMs t)),
       (''relayTimeoutMs'', JNum (tc_relayTimeoutMs t)), (''reconnectBackoffMs'', JNum (tc_reconnectBackoffMs t)),
       (''maxPendingEvents'', JNum (tc_maxPendingEvents t)), (''maxPayloadBytes'', JNum (tc_maxPayloadBytes t)),
       (''authToken'', of_str (tc_authToken t)), (''dedupeTtlMs'', JNum (tc_dedupeTtlMs t)),
       (''semanticDedupeEnabled'', JBool (tc_semanticDedupeEnabled t))]"

definition ws_object :: "WsSecurityConfig \<Rightarrow> jsval" where
  "ws_object w =
     JObj [(''bindAddress'', JStr (ws_bindAddress w)), (''requireAuth'', JBool (ws_requireAuth w)),
       (''authToken'', of_str (ws_authToken w)), (''allowedOrigins'', strs (ws_allowedOrigins w)),
       (''allowedIps'', strs (ws_allowedIps w))]"

definition hmac_object :: "HmacSecurityConfig \<Rightarrow> jsval" where
  "hmac_object c =
     JObj [(''enabled'', JBool (hm_enabled c)), (''secret'', of_str (hm_secret c)),
       (''secretFilePath'', of_str (hm_secretFilePath c)), (''algorithm'', JStr (hm_algorithm c))]"

definition default_hookBridge_object :: jsval where
  "default_hookBridge_object =
     (let hb = pc_hookBridge DEFAULT_CONFIG; g = hb_toolGuard hb; r = hb_runtime hb; t = hb_telemetry hb in
      JObj [(''enabled'', JBool (hb_enabled hb)), (''dryRun'', JBool (hb_dryRun hb)), (''allowedActionDirs'', strs (hb_allowedActionDirs hb)),
        (''localScriptDefaults'', JObj [(''timeoutMs'', JNum (ls_timeoutMs (hb_localScriptDefaults hb))),
           (''maxPayloadBytes'', JNum (ls_maxPayloadBytes (hb_localScriptDefaults hb)))]),
        (''actions'', JObj []), (''rules'', JArr []),
        (''toolGuard'', JObj [(''enabled'', JBool (tg_enabled g)), (''dryRun'', JBool (tg_dryRun g)),
           (''timeoutMs'', JNum (tg_timeoutMs g)), (''onError'', JStr (tg_onError g)), (''scopeKeyBy'', of_str (tg_scopeKeyBy g)),
           (''retryBackoffMs'', JNum (tg_retryBackoffMs g)), (''retryBackoffReason'', of_str (tg_retryBackoffReason g)),
           (''approvalCacheTtlMs'', JNum (tg_approvalCacheTtlMs g)), (''stopOnMatchDefault'', JBool False),
           (''redaction'', redaction_object (tg_redaction g)), (''rules'', JArr [])]),
        (''runtime'', JObj [(''maxPendingEvents'', JNum (hr_maxPendingEvents r)), (''concurrency'', JNum (hr_concurrency r)),
           (''dropPolicy'', JStr (hr_dropPolicy r))]),
        (''telemetry'', JObj [(''highWatermarks'', JArr (map JNum (ht_highWatermarks t))), (''slowActionMs'', JNum (ht_slowActionMs t)),
           (''failureRateWindowMs'', JNum (ht_failureRateWindowMs t)), (''failureRateThresholdPct'', JNum 20),
           (''failureRateMinSamples'', JNum (ht_failureRateMinSamples t)), (''saturationWindowMs'', JNum (ht_saturationWindowMs t))])])"

definition default_object :: jsobj where
  "default_object =
     (let c = DEFAULT_CONFIG in
      [(''enabled'', JBool (pc_enabled c)),
       (''transport'', transport_object (pc_transport c)),
       (''webhooks'', JArr []),
       (''filters'', JObj [(''includeTypes'', strs []), (''excludeTypes'', strs [])]),
       (''retry'', JObj [(''maxAttempts'', JNum (rt_maxAttempts (pc_retry c))), (''initialDelayMs'', JNum 1000),
          (''maxDelayMs'', JNum 30000), (''backoffMultiplier'', JNum 2)]),
       (''queue'', JObj [(''maxSize'', JNum (qc_maxSize (pc_queue c))), (''flushIntervalMs'', JNum (qc_flushIntervalMs (pc_queue c))),
          (''persistToDisk'', JBool (qc_persistToDisk (pc_queue c)))]),
       (''logging'', JObj [(''debug'', JBool (lg_debug (pc_logging c))), (''logSuccess'', JBool (lg_logSuccess (pc_logging c))),
          (''logErrors'', JBool (lg_logErrors (pc_logging c))), (''logQueue'', JBool (lg_logQueue (pc_logging c)))]),
       (''status'', JObj [(''workingWindowMs'', JNum (st_workingWindowMs (pc_status c))),
          (''sleepingWindowMs'', JNum (st_sleepingWindowMs (pc_status c))), (''tickIntervalMs'', JNum (st_tickIntervalMs (pc_status c))),
          (''subagentIdleWindowMs'', JNum (st_subagentIdleWindowMs (pc_status c)))]),
       (''redaction'', redaction_object (pc_redaction c)),
       (''privacy'', JObj [(''payloadMode'', JStr (pv_payloadMode (pc_privacy c)))]),
       (''eventLog'', JObj [(''enabled'', JBool (el_enabled (pc_eventLog c))), (''path'', JStr (el_path (pc_eventLog c))),
          (''maxFileSizeMb'', JNum (el_maxFileSizeMb (pc_eventLog c))), (''format'', JStr (el_format (pc_eventLog c))),
          (''minLevel'', JStr (el_minLevel (pc_eventLog c))), (''includeRuntimeLogs'', JBool (el_includeRuntimeLogs (pc_eventLog c)))]),
       (''security'', JObj [(''ws'', ws_object (sec_ws (pc_security c))), (''hmac'', hmac_object (sec_hmac (pc_security c)))]),
       (''correlationIdHeader'', JStr (pc_correlationIdHeader c)),
       (''webhookTimeoutMs'', JNum (pc_webhookTimeoutMs c)),
       (''hookBridge'', default_hookBridge_object)])"

section \<open>The environment (config/env.ts)\<close>

type_synonym env = "string \<Rightarrow> string option"

definition var :: "env \<Rightarrow> string \<Rightarrow> jsval" where
  "var e n = of_str (e (''EVENT_PLUGIN_'' @ n))"

definition ivar :: "env \<Rightarrow> string \<Rightarrow> jsval" where
  "ivar e n = of_num (parsePositiveInt (e (''EVENT_PLUGIN_'' @ n)))"

definition csv_var :: "env \<Rightarrow> string \<Rightarrow> jsval" where
  "csv_var e n = opt_strs (parseCsv (e (''EVENT_PLUGIN_'' @ n)))"

definition flag_var :: "env \<Rightarrow> string \<Rightarrow> jsval" where
  "flag_var e n = (case e (''EVENT_PLUGIN_'' @ n) of None \<Rightarrow> JUndef | Some s \<Rightarrow> JBool (isTrue s))"

text \<open>The variable when it has one of the values given.\<close>

definition enum_var :: "env \<Rightarrow> string \<Rightarrow> string list \<Rightarrow> jsval" where
  "enum_var e n vs =
     (case e (''EVENT_PLUGIN_'' @ n) of None \<Rightarrow> JUndef | Some s \<Rightarrow> if s \<in> set vs then JStr s else JUndef)"

definition env_webhooks :: "env \<Rightarrow> jsobj" where
  "env_webhooks e =
     (case e ''EVENT_PLUGIN_WEBHOOKS'' of
        None \<Rightarrow> []
      | Some urls \<Rightarrow>
          if urls = [] then []
          else
            let hooks = map (\<lambda>u. [(''url'', JStr (js_trim u)), (''method'', JStr ''POST''), (''includeFullPayload'', JBool True)])
                          (js_split (CHR '','') urls);
                tok = e ''EVENT_PLUGIN_AUTH_TOKEN'';
                authed = (if truthy_str tok then map (\<lambda>w. spread w [(''authToken'', JStr (the tok))]) hooks else hooks)
            in [(''webhooks'', JArr (map JObj authed))])"

definition env_logging :: "env \<Rightarrow> jsobj" where
  "env_logging e =
     (if js_truthy (var e ''DEBUG'')
      then [(''logging'', JObj (spread (spread_of (oget default_object ''logging'')) [(''debug'', flag_var e ''DEBUG'')]))]
      else [])"

definition env_types :: "env \<Rightarrow> string \<Rightarrow> jsval" where
  "env_types e n = (case e (''EVENT_PLUGIN_'' @ n) of None \<Rightarrow> strs [] | Some s \<Rightarrow> if s = [] then strs [] else strs (parseEventTypes s))"

definition env_filters :: "env \<Rightarrow> jsobj" where
  "env_filters e =
     (if first_set [var e ''INCLUDE_TYPES'', var e ''EXCLUDE_TYPES'']
      then [(''filters'', JObj (spread (spread_of (oget default_object ''filters''))
              [(''includeTypes'', env_types e ''INCLUDE_TYPES''), (''excludeTypes'', env_types e ''EXCLUDE_TYPES'')]))]
      else [])"

definition env_transport :: "env \<Rightarrow> jsobj" where
  "env_transport e =
     (if first_set [var e ''TRANSPORT_MODE'', var e ''TRANSPORT_LOCK_PATH'', var e ''TRANSPORT_SOCKET_PATH'',
          ivar e ''TRANSPORT_LOCK_STALE_MS'', ivar e ''TRANSPORT_HEARTBEAT_MS'', ivar e ''TRANSPORT_RELAY_TIMEOUT_MS'',
          ivar e ''TRANSPORT_RECONNECT_BACKOFF_MS'', ivar e ''TRANSPORT_MAX_PENDING_EVENTS'',
          ivar e ''TRANSPORT_MAX_PAYLOAD_BYTES'', var e ''TRANSPORT_AUTH_TOKEN'', ivar e ''TRANSPORT_DEDUPE_TTL_MS'',
          var e ''TRANSPORT_SEMANTIC_DEDUPE_ENABLED'']
      then [(''transport'', JObj (spread (spread_of (oget default_object ''transport''))
              (opt ''mode'' (enum_var e ''TRANSPORT_MODE'' [''auto'', ''owner'', ''follower'']) @
               opt ''lockPath'' (var e ''TRANSPORT_LOCK_PATH'') @
               opt ''socketPath'' (var e ''TRANSPORT_SOCKET_PATH'') @
               opt ''lockStaleMs'' (ivar e ''TRANSPORT_LOCK_STALE_MS'') @
               opt ''heartbeatMs'' (ivar e ''TRANSPORT_HEARTBEAT_MS'') @
               opt ''relayTimeoutMs'' (ivar e ''TRANSPORT_RELAY_TIMEOUT_MS'') @
               opt ''reconnectBackoffMs'' (ivar e ''TRANSPORT_RECONNECT_BACKOFF_MS'') @
               opt ''maxPendingEvents'' (ivar e ''TRANSPORT_MAX_PENDING_EVENTS'') @
               opt ''maxPayloadBytes'' (ivar e ''TRANSPORT_MAX_PAYLOAD_BYTES'') @
               opt ''authToken'' (var e ''TRANSPORT_AUTH_TOKEN'') @
               opt ''dedupeTtlMs'' (ivar e ''TRANSPORT_DEDUPE_TTL_MS'') @
               opt ''semanticDedupeEnabled'' (flag_var e ''TRANSPORT_SEMANTIC_DEDUPE_ENABLED''))))]
      else [])"

definition env_status :: "env \<Rightarrow> jsobj" where
  "env_status e =
     (if first_set [ivar e ''STATUS_WORKING_WINDOW_MS'', ivar e ''STATUS_SLEEPING_WINDOW_MS'',
          ivar e ''STATUS_TICK_INTERVAL_MS'', ivar e ''STATUS_SUBAGENT_IDLE_WINDOW_MS'']
      then [(''status'', JObj (spread (spread_of (oget default_object ''status''))
              (opt ''workingWindowMs'' (ivar e ''STATUS_WORKING_WINDOW_MS'') @
               opt ''sleepingWindowMs'' (ivar e ''STATUS_SLEEPING_WINDOW_MS'') @
               opt ''tickIntervalMs'' (ivar e ''STATUS_TICK_INTERVAL_MS'') @
               opt ''subagentIdleWindowMs'' (ivar e ''STATUS_SUBAGENT_IDLE_WINDOW_MS''))))]
      else [])"

definition env_redaction :: "env \<Rightarrow> jsobj" where
  "env_redaction e =
     (if first_set [var e ''REDACTION_ENABLED'', var e ''REDACTION_REPLACEMENT'', var e ''REDACTION_FIELDS'']
      then [(''redaction'', JObj (spread (spread_of (oget default_object ''redaction''))
              (opt ''enabled'' (flag_var e ''REDACTION_ENABLED'') @
               opt ''replacement'' (var e ''REDACTION_REPLACEMENT'') @
               opt ''fields'' (case e ''EVENT_PLUGIN_REDACTION_FIELDS'' of
                   None \<Rightarrow> JUndef
                 | Some s \<Rightarrow> strs (filter (\<lambda>v. v \<noteq> []) (map js_trim (js_split (CHR '','') s)))))))]
      else [])"

definition env_privacy :: "env \<Rightarrow> jsobj" where
  "env_privacy e =
     (let m = enum_var e ''MODERN_LIFECYCLE_PAYLOAD_MODE'' [''metadata'', ''full''] in
      if m \<noteq> JUndef
      then [(''privacy'', JObj (spread (spread_of (oget default_object ''privacy'')) [(''payloadMode'', m)]))]
      else [])"

definition env_eventLog :: "env \<Rightarrow> jsobj" where
  "env_eventLog e =
     (if first_set [var e ''EVENT_LOG_ENABLED'', var e ''EVENT_LOG_PATH'', ivar e ''EVENT_LOG_MAX_FILE_MB'',
          var e ''EVENT_LOG_FORMAT'', var e ''EVENT_LOG_MIN_LEVEL'', var e ''EVENT_LOG_RUNTIME'']
      then [(''eventLog'', JObj (spread (spread_of (oget default_object ''eventLog''))
              (opt ''enabled'' (flag_var e ''EVENT_LOG_ENABLED'') @
               opt ''path'' (var e ''EVENT_LOG_PATH'') @
               opt ''maxFileSizeMb'' (ivar e ''EVENT_LOG_MAX_FILE_MB'') @
               opt ''format'' (enum_var e ''EVENT_LOG_FORMAT'' [''full-json'', ''summary'']) @
               opt ''minLevel'' (enum_var e ''EVENT_LOG_MIN_LEVEL'' [''debug'', ''info'', ''warn'', ''error'']) @
               opt ''includeRuntimeLogs'' (flag_var e ''EVENT_LOG_RUNTIME''))))]
      else [])"

definition env_ws :: "env \<Rightarrow> jsobj" where
  "env_ws e =
     (if first_set [var e ''WS_BIND_ADDRESS'', var e ''WS_REQUIRE_AUTH'', var e ''WS_AUTH_TOKEN'',
          csv_var e ''WS_ALLOWED_ORIGINS'', csv_var e ''WS_ALLOWED_IPS'']
      then
        let defaults = oget default_object ''security'' in
        [(''security'', JObj (spread (spread_of defaults)
           [(''ws'', JObj (spread (spread_of (jprop defaults ''ws''))
               (opt ''bindAddress'' (var e ''WS_BIND_ADDRESS'') @
                opt ''requireAuth'' (flag_var e ''WS_REQUIRE_AUTH'') @
                opt ''authToken'' (var e ''WS_AUTH_TOKEN'') @
                opt ''allowedOrigins'' (csv_var e ''WS_ALLOWED_ORIGINS'') @
                opt ''allowedIps'' (csv_var e ''WS_ALLOWED_IPS'')))),
            (''hmac'', JObj (spread_of (jprop defaults ''hmac'')))]))]
      else [])"

text \<open>\<open>config.security\<close> of the previous step is \<open>sec\<close>, undefined when it did not set it.\<close>

definition env_hmac :: "host \<Rightarrow> env \<Rightarrow> jsval \<Rightarrow> jsobj" where
  "env_hmac h e sec =
     (if first_set [var e ''HMAC_ENABLED'', var e ''HMAC_SECRET'', var e ''HMAC_SECRET_FILE'', var e ''HMAC_ALGORITHM'']
      then
        let secretFromFile = loadSecretFromFile h (e ''EVENT_PLUGIN_HMAC_SECRET_FILE'');
            defaults = oget default_object ''security''
        in
        [(''security'', JObj (spread (spread_of (jnullish sec defaults))
           [(''ws'', JObj (spread_of (jnullish (chain sec ''ws'') (jprop defaults ''ws'')))),
            (''hmac'', JObj (spread (spread (spread_of (jprop defaults ''hmac'')) (spread_of (chain sec ''hmac'')))
               (opt ''enabled'' (flag_var e ''HMAC_ENABLED'') @
                opt ''secret'' (var e ''HMAC_SECRET'') @
                opt ''secretFilePath'' (var e ''HMAC_SECRET_FILE'') @
                opt ''algorithm'' (enum_var e ''HMAC_ALGORITHM'' [''sha256'', ''sha512'']) @
                opt ''secret'' (of_str secretFromFile))))]))]
      else [])"

definition loadEnvConfig :: "host \<Rightarrow> env \<Rightarrow> jsobj" where
  "loadEnvConfig h e =
     (let c = env_webhooks e @ env_logging e @ env_filters e @ opt ''enabled'' (flag_var e ''ENABLED'') @
              env_transport e @ env_status e @ env_redaction e @ env_privacy e @ env_eventLog e @ env_ws e
      in spread c (env_hmac h e (oget c ''security'')))"

section \<open>Merging (config/merge.ts)\<close>

text \<open>\<open>{...default.k, ...(base?.k ?? {}), ...(env?.k ?? {})}\<close>\<close>

definition merge3 :: "jsval \<Rightarrow> jsval \<Rightarrow> jsval \<Rightarrow> string \<Rightarrow> jsobj" where
  "merge3 d b e k = spread (spread (spread_of (jprop d k)) (spread_of (chain b k))) (spread_of (chain e k))"

definition preferred :: "jsval \<Rightarrow> jsval \<Rightarrow> jsval \<Rightarrow> string \<Rightarrow> jsval" where
  "preferred d b e k = jnullish (chain e k) (jnullish (chain b k) (jprop d k))"

definition merge_security :: "jsval \<Rightarrow> jsval \<Rightarrow> jsval \<Rightarrow> jsval" where
  "merge_security d b e =
     (let ds = jprop d ''security''; bs = chain b ''security''; es = chain e ''security'' in
      JObj (spread (merge3 d b e ''security'')
        [(''ws'', JObj (merge3 ds bs es ''ws'')), (''hmac'', JObj (merge3 ds bs es ''hmac''))]))"

definition merge_toolGuard :: "jsval \<Rightarrow> jsval \<Rightarrow> jsval \<Rightarrow> jsval" where
  "merge_toolGuard dh bh eh =
     (let dg = jprop dh ''toolGuard''; bg = chain bh ''toolGuard''; eg = chain eh ''toolGuard'' in
      JObj (spread (merge3 dh bh eh ''toolGuard'')
        [(''redaction'', JObj (merge3 dg bg eg ''redaction'')), (''rules'', preferred dg bg eg ''rules'')]))"

definition merge_hookBridge :: "jsval \<Rightarrow> jsval \<Rightarrow> jsval \<Rightarrow> jsval" where
  "merge_hookBridge d b e =
     (let dh = jprop d ''hookBridge''; bh = chain b ''hookBridge''; eh = chain e ''hookBridge'' in
      JObj (spread (merge3 d b e ''hookBridge'')
        [(''localScriptDefaults'', JObj (merge3 dh bh eh ''localScriptDefaults'')),
         (''actions'', JObj (merge3 dh bh eh ''actions'')),
         (''runtime'', JObj (merge3 dh bh eh ''runtime'')),
         (''telemetry'', JObj (merge3 dh bh eh ''telemetry'')),
         (''rules'', preferred dh bh eh ''rules''),
         (''toolGuard'', merge_toolGuard dh bh eh),
         (''allowedActionDirs'', preferred dh bh eh ''allowedActionDirs'')]))"

definition plain_sections :: "string list" where
  "plain_sections =
     [''filters'', ''retry'', ''queue'', ''transport'', ''logging'', ''status'', ''redaction'', ''privacy'', ''eventLog'']"

text \<open>None when the webhooks of a configuration cannot be iterated.\<close>

definition mergeConfig :: "jsobj \<Rightarrow> jsobj \<Rightarrow> jsobj option" where
  "mergeConfig base e =
     (let d = JObj default_object; b = JObj base; ev = JObj e in
      case (iterate_of (oget base ''webhooks''), iterate_of (oget e ''webhooks'')) of
        (Some bw, Some ew) \<Rightarrow>
          Some (spread (spread (spread default_object base) e)
            ([(''webhooks'', JArr (bw @ ew))] @
             map (\<lambda>k. (k, JObj (merge3 d b ev k))) plain_sections @
             [(''security'', merge_security d b ev), (''hookBridge'', merge_hookBridge d b ev)]))
      | _ \<Rightarrow> None)"

section \<open>Lemmas\<close>

lemma mget_rev: "map_ok b \<Longrightarrow> mget (rev b) k = mget b k"
  by (metis map_of_inject_set rev_map set_rev distinct_rev)

lemma mget_spread_ok: "map_ok b \<Longrightarrow> mget (spread a b) k = (case mget b k of None \<Rightarrow> mget a k | Some v \<Rightarrow> Some v)"
  unfolding mget_spread by (simp add: mget_rev set_mkeys_iff del: set_map split: option.splits)

lemma oget_mget: "oget kvs k = default_to JUndef (mget kvs k)"
  by (simp add: oget_def)

lemma oget_spread_out: "k \<notin> set (mkeys b) \<Longrightarrow> oget (spread a b) k = oget a k"
  by (simp add: oget_mget mget_spread)

lemma spread_of_simps [simp]: "spread_of (JObj kvs) = kvs" "spread_of JUndef = []" "spread_of JNull = []"
  by (simp_all add: spread_of_def)

lemma chain_simps [simp]: "chain (JObj kvs) k = oget kvs k" "chain JUndef k = JUndef"
  by (simp_all add: chain_def is_nullish_def)

lemma mergeConfig_plain:
  assumes "mergeConfig base e = Some c" "s \<in> set plain_sections"
  shows "oget c s = JObj (merge3 (JObj default_object) (JObj base) (JObj e) s)"
  using assms(2) assms(1)
  by (auto simp: plain_sections_def mergeConfig_def Let_def spread_def split: option.splits)

lemma mergeConfig_security:
  "mergeConfig base e = Some c \<Longrightarrow> oget c ''security'' = merge_security (JObj default_object) (JObj base) (JObj e)"
  by (auto simp: plain_sections_def mergeConfig_def Let_def spread_def split: option.splits)

text \<open>
  In the merged configuration, a setting of any of the nine flat sections is the one of
  the environment if the environment gives it, else the one of the plugin configuration,
  else the default, whatever else the two sections hold.
\<close>

theorem merge_precedence:
  assumes "mergeConfig base e = Some c" "s \<in> set plain_sections"
    and "map_ok (spread_of (oget base s))" "map_ok (spread_of (oget e s))"
  shows "mget (spread_of (oget c s)) k =
    (case mget (spread_of (oget e s)) k of
       Some v \<Rightarrow> Some v
     | None \<Rightarrow> (case mget (spread_of (oget base s)) k of
                  Some v \<Rightarrow> Some v
                | None \<Rightarrow> mget (spread_of (oget default_object s)) k))"
  using assms(3,4) by (simp add: mergeConfig_plain [OF assms(1,2)] merge3_def mget_spread_ok split: option.splits)

definition ws_setting :: "jsobj \<Rightarrow> string \<Rightarrow> jsval" where
  "ws_setting c k = jprop (jprop (oget c ''security'') ''ws'') k"

lemma oget_spread2 [simp]:
  "oget (spread a [(k1, v1), (k2, v2)]) j = (if j = k2 then v2 else if j = k1 then v1 else oget a j)"
  by (simp add: spread_def)

lemma ws_setting_merge:
  assumes "mergeConfig base e = Some c"
  shows "ws_setting c k = oget (merge3 (jprop (JObj default_object) ''security'') (chain (JObj base) ''security'')
      (oget e ''security'') ''ws'') k"
  by (simp add: ws_setting_def mergeConfig_security [OF assms] merge_security_def Let_def)

lemma ws_setting_env:
  assumes "mergeConfig base e = Some c" "oget e ''security'' = JObj es" "oget es ''ws'' = JObj w" "k \<in> set (mkeys w)"
  shows "ws_setting c k = default_to JUndef (mget (rev w) k)"
proof -
  have "ws_setting c k = oget (spread (spread (spread_of (jprop (jprop (JObj default_object) ''security'') ''ws''))
      (spread_of (chain (chain (JObj base) ''security'') ''ws''))) w) k"
    unfolding ws_setting_merge [OF assms(1)] merge3_def assms(2) by (simp add: assms(3))
  then show ?thesis using assms(4) by (simp add: oget_mget mget_spread del: set_map)
qed

text \<open>What the environment sets for the WebSocket server.\<close>

definition env_ws_object :: "env \<Rightarrow> jsobj" where
  "env_ws_object e =
     spread [(''bindAddress'', JStr ''127.0.0.1''), (''requireAuth'', JBool False), (''authToken'', JUndef),
         (''allowedOrigins'', JArr []), (''allowedIps'', JArr [])]
       (opt ''bindAddress'' (var e ''WS_BIND_ADDRESS'') @ opt ''requireAuth'' (flag_var e ''WS_REQUIRE_AUTH'') @
        opt ''authToken'' (var e ''WS_AUTH_TOKEN'') @ opt ''allowedOrigins'' (csv_var e ''WS_ALLOWED_ORIGINS'') @
        opt ''allowedIps'' (csv_var e ''WS_ALLOWED_IPS''))"

lemma default_security:
  "oget default_object ''security'' =
     JObj [(''ws'', JObj [(''bindAddress'', JStr ''127.0.0.1''), (''requireAuth'', JBool False), (''authToken'', JUndef),
         (''allowedOrigins'', JArr []), (''allowedIps'', JArr [])]),
       (''hmac'', JObj [(''enabled'', JBool False), (''secret'', JUndef),
         (''secretFilePath'', JStr ''.event-plugin-hmac.secret''), (''algorithm'', JStr ''sha256'')])]"
  by (simp add: default_object_def ws_object_def hmac_object_def DEFAULT_CONFIG_def of_str_def strs_def Let_def)

lemma env_ws_security:
  "\<exists>es. oget (env_ws e) ''security'' = (if env_ws e = [] then JUndef else JObj es) \<and>
     oget es ''ws'' = JObj (env_ws_object e)"
proof (cases "env_ws e = []")
  case True
  then show ?thesis by (intro exI [of _ "[(''ws'', JObj (env_ws_object e))]"]) simp
next
  case False
  then show ?thesis
    unfolding env_ws_def default_security by (simp add: env_ws_object_def Let_def split: if_splits)
qed

lemma env_parts_security:
  "mget (env_webhooks e) ''security'' = None" "mget (env_logging e) ''security'' = None"
  "mget (env_filters e) ''security'' = None" "mget (opt ''enabled'' v) ''security'' = None"
  "mget (env_transport e) ''security'' = None" "mget (env_status e) ''security'' = None"
  "mget (env_redaction e) ''security'' = None" "mget (env_privacy e) ''security'' = None"
  "mget (env_eventLog e) ''security'' = None"
  by (simp_all add: env_webhooks_def env_logging_def env_filters_def opt_def env_transport_def env_status_def
      env_redaction_def env_privacy_def env_eventLog_def Let_def split: option.split)

definition hmac_vars_set :: "env \<Rightarrow> bool" where
  "hmac_vars_set e =
     first_set [var e ''HMAC_ENABLED'', var e ''HMAC_SECRET'', var e ''HMAC_SECRET_FILE'', var e ''HMAC_ALGORITHM'']"

lemma loadEnvConfig_security:
  "oget (loadEnvConfig h e) ''security'' =
     (if hmac_vars_set e then oget (env_hmac h e (oget (env_ws e) ''security'')) ''security''
      else oget (env_ws e) ''security'')"
proof -
  let ?c = "env_webhooks e @ env_logging e @ env_filters e @ opt ''enabled'' (flag_var e ''ENABLED'') @
              env_transport e @ env_status e @ env_redaction e @ env_privacy e @ env_eventLog e @ env_ws e"
  have c: "oget ?c ''security'' = oget (env_ws e) ''security''"
    by (simp add: oget_mget env_parts_security map_add_def split: option.split)
  show ?thesis
    unfolding loadEnvConfig_def Let_def c
    by (cases "hmac_vars_set e") (simp_all add: env_hmac_def hmac_vars_set_def Let_def spread_def [of _ "[_]"] c)
qed

definition default_ws :: jsobj where
  "default_ws = [(''bindAddress'', JStr ''127.0.0.1''), (''requireAuth'', JBool False), (''authToken'', JUndef),
     (''allowedOrigins'', JArr []), (''allowedIps'', JArr [])]"

lemma default_ws_ok: "map_ok default_ws" "k \<in> set (mkeys default_ws) \<Longrightarrow> k \<in> set (mkeys (spread default_ws b))"
proof -
  show "map_ok default_ws" by (simp add: default_ws_def)
  assume "k \<in> set (mkeys default_ws)"
  then show "k \<in> set (mkeys (spread default_ws b))"
  proof (induction b rule: rev_induct)
    case (snoc kv b)
    then show ?case by (cases kv) (simp add: spread_def set_mkeys_iff del: set_map)
  qed simp
qed

text \<open>What the environment gives for the WebSocket settings when it sets the section at all.\<close>

definition env_ws_settings :: "env \<Rightarrow> jsobj" where
  "env_ws_settings e = (if env_ws e = [] then default_ws else env_ws_object e)"

lemma env_security_ws:
  assumes "env_ws e \<noteq> [] \<or> hmac_vars_set e"
  shows "\<exists>es. oget (loadEnvConfig h e) ''security'' = JObj es \<and> oget es ''ws'' = JObj (env_ws_settings e)"
proof -
  obtain es where es: "oget (env_ws e) ''security'' = (if env_ws e = [] then JUndef else JObj es)"
    "oget es ''ws'' = JObj (env_ws_object e)" using env_ws_security by blast
  show ?thesis
  proof (cases "hmac_vars_set e")
    case False
    then show ?thesis using assms es by (simp add: loadEnvConfig_security env_ws_settings_def)
  next
    case True
    have "\<exists>x. oget (env_hmac h e sec) ''security'' = JObj (spread (spread_of (jnullish sec (oget default_object ''security'')))
        [(''ws'', JObj (spread_of (jnullish (chain sec ''ws'') (JObj default_ws)))), (''hmac'', x)])" for sec
      using True unfolding env_hmac_def hmac_vars_set_def [symmetric] default_security default_ws_def
      by (simp add: Let_def) (rule exI, rule refl)
    then have w: "\<exists>es. oget (env_hmac h e sec) ''security'' = JObj es \<and>
        oget es ''ws'' = JObj (spread_of (jnullish (chain sec ''ws'') (JObj default_ws)))" for sec
      using oget_spread2 by fastforce
    show ?thesis
      using True es w [of JUndef] w [of "JObj es"]
      by (simp add: loadEnvConfig_security env_ws_settings_def jnullish_def is_nullish_def)
  qed
qed

text \<open>
  As soon as the environment sets the security section (through a WebSocket or an HMAC
  variable), every WebSocket setting of the merged configuration is the one of its variable,
  or the built-in default when that variable is unset: the plugin configuration decides none
  of them.
\<close>

theorem env_ws_settings_win:
  assumes "mergeConfig base (loadEnvConfig h e) = Some c" "env_ws e \<noteq> [] \<or> hmac_vars_set e" "k \<in> set (mkeys default_ws)"
  shows "ws_setting c k = oget (env_ws_settings e) k"
proof -
  obtain es where es: "oget (loadEnvConfig h e) ''security'' = JObj es" "oget es ''ws'' = JObj (env_ws_settings e)"
    using env_security_ws [OF assms(2)] by blast
  have o: "env_ws_object e = spread default_ws (opt ''bindAddress'' (var e ''WS_BIND_ADDRESS'') @
      opt ''requireAuth'' (flag_var e ''WS_REQUIRE_AUTH'') @ opt ''authToken'' (var e ''WS_AUTH_TOKEN'') @
      opt ''allowedOrigins'' (csv_var e ''WS_ALLOWED_ORIGINS'') @ opt ''allowedIps'' (csv_var e ''WS_ALLOWED_IPS''))"
    by (simp add: env_ws_object_def default_ws_def)
  have "k \<in> set (mkeys (env_ws_settings e))" "map_ok (env_ws_settings e)"
    using assms(3) default_ws_ok unfolding env_ws_settings_def o by (simp_all add: map_ok_spread del: set_map)
  then show ?thesis using ws_setting_env [OF assms(1) es] by (simp add: mget_rev oget_mget)
qed


text \<open>
  Setting a variable of the HMAC group and no WebSocket variable turns WebSocket
  authentication off and empties the allow lists in the merged configuration, whatever the
  plugin configuration requires.
\<close>

theorem hmac_variable_resets_ws_auth:
  assumes "mergeConfig base (loadEnvConfig h e) = Some c" "hmac_vars_set e"
    and "\<forall>n \<in> {''WS_BIND_ADDRESS'', ''WS_REQUIRE_AUTH'', ''WS_AUTH_TOKEN'', ''WS_ALLOWED_ORIGINS'', ''WS_ALLOWED_IPS''}.
      e (''EVENT_PLUGIN_'' @ n) = None"
  shows "ws_setting c ''requireAuth'' = JBool False \<and> ws_setting c ''authToken'' = JUndef \<and>
    ws_setting c ''allowedOrigins'' = JArr [] \<and> ws_setting c ''allowedIps'' = JArr []"
proof -
  have "env_ws e = []"
    using assms(3)
    by (simp add: env_ws_def var_def csv_var_def of_str_def opt_strs_def parseCsv_def first_set_def jnullish_def
        is_nullish_def js_truthy_def)
  then have "ws_setting c k = oget default_ws k" if "k \<in> set (mkeys default_ws)" for k
    using ws_setting_env [OF assms(1)] env_security_ws [of e h] assms(2) that default_ws_ok(1)
    by (metis env_ws_settings_def mget_rev oget_mget)
  then show ?thesis by (simp add: default_ws_def)
qed

lemma empty_first_variable_drops_section:
  "e ''EVENT_PLUGIN_WS_BIND_ADDRESS'' = Some [] \<Longrightarrow> env_ws e = []"
  "e ''EVENT_PLUGIN_TRANSPORT_MODE'' = Some [] \<Longrightarrow> env_transport e = []"
  "e ''EVENT_PLUGIN_INCLUDE_TYPES'' = Some [] \<Longrightarrow> env_filters e = []"
  by (simp_all add: env_ws_def env_transport_def env_filters_def first_set_def var_def of_str_def jnullish_def
      is_nullish_def js_truthy_def)

section \<open>Numbers\<close>

lemma digits_value_append: "digits_value (ds @ [c]) = 10 * digits_value ds + (of_char c - 48)"
  by (simp add: digits_value_def)

lemma of_char_digit: "n < 10 \<Longrightarrow> (of_char (char_of (48 + n) :: char) :: nat) = 48 + n"
  by simp

lemma show_nat_digits: "list_all is_digit (show_nat n) \<and> digits_value (show_nat n) = int n"
proof (induction n rule: less_induct)
  case (less n)
  have code: "(of_char (char_of m :: char) :: int) = int m" if "m < 256" for m
  proof -
    have "(of_char (char_of m :: char) :: int) = int (of_char (char_of m :: char))"
      by (simp only: of_nat_of_char)
    then show ?thesis using that by simp
  qed
  show ?case
  proof (cases "n < 10")
    case True
    then show ?thesis by (subst (1 2) show_nat.simps) (simp add: is_digit_def digits_value_def code)
  next
    case False
    have d: "is_digit (char_of (48 + n mod 10))" "(of_char (char_of (48 + n mod 10) :: char) :: int) = 48 + int (n mod 10)"
      by (simp_all add: is_digit_def code)
    have "show_nat n = show_nat (n div 10) @ [char_of (48 + n mod 10)]"
      using False by (subst show_nat.simps) simp
    moreover have "10 * int (n div 10) + int (n mod 10) = int n" by presburger
    ultimately show ?thesis using less [of "n div 10"] False d by (simp add: digits_value_append)
  qed
qed

text \<open>
  A positive number printed in decimal is read back, also after leading white space and
  before any text that does not start with a digit.
\<close>

theorem parsePositiveInt_roundtrip:
  assumes "n > 0" "rest = [] \<or> \<not> is_digit (hd rest)" "list_all js_ws ws"
  shows "parsePositiveInt (Some (ws @ show_nat n @ rest)) = Some (int n)"
proof -
  obtain c ds where c: "show_nat n = c # ds" by (cases "show_nat n") auto
  have digits: "list_all is_digit (show_nat n)" and v: "digits_value (show_nat n) = int n"
    using show_nat_digits by auto
  have cd: "is_digit c" using digits c by simp
  then have nws: "\<not> js_ws c" and sign: "c \<noteq> CHR ''-''" "c \<noteq> CHR ''+''"
    by (auto simp: is_digit_def js_ws_def Let_def)
  have t: "dropWhile js_ws (ws @ show_nat n @ rest) = show_nat n @ rest"
    using assms(3) nws c by (induction ws) auto
  have d: "takeWhile is_digit (show_nat n @ rest) = show_nat n"
    using digits assms(2) by (cases rest) (auto simp: takeWhile_append list_all_iff)
  have "non_blank (ws @ show_nat n @ rest)"
    using nws c by (auto intro: non_blank_char [of c])
  moreover have "parse_int (ws @ show_nat n @ rest) = Some (int n)"
    unfolding parse_int_def Let_def t using d v sign c by (simp add: starts_with_def)
  ultimately show ?thesis using assms(1) by (simp add: parsePositiveInt_def)
qed

section \<open>A concrete environment\<close>

definition hmac_env :: env where
  "hmac_env n = (if n = ''EVENT_PLUGIN_HMAC_ENABLED'' then Some ''true'' else None)"

definition secured_config :: jsobj where
  "secured_config = [(''transport'', JObj [(''mode'', JStr ''owner'')]), (''security'', JObj [(''ws'', JObj [(''requireAuth'', JBool True), (''authToken'', JStr ''s3cret'')])])]"

definition no_files :: host where
  "no_files = \<lparr> h_url = (\<lambda>u. None), h_regex = (\<lambda>r. None), h_locale = code_unit_le, h_realpath = (\<lambda>p. None),
     h_resolve = (\<lambda>p. p), h_isAbsolute = (\<lambda>p. False), h_readFile = (\<lambda>p. None) \<rparr>"

lemma hmac_env_set: "hmac_vars_set hmac_env"
  by code_simp

definition ws_env :: env where
  "ws_env n = (if n = ''EVENT_PLUGIN_WS_REQUIRE_AUTH'' then Some ''1'' else None)"

lemma merges:
  "mergeConfig secured_config (loadEnvConfig no_files hmac_env) \<noteq> None"
  "mergeConfig secured_config (loadEnvConfig no_files ws_env) \<noteq> None"
  "mergeConfig secured_config [] \<noteq> None"
  by code_simp+

theorem merge_precedence_witness:
  "\<exists>c. mergeConfig secured_config [] = Some c \<and> mget (spread_of (oget c ''transport'')) ''mode'' = Some (JStr ''owner'')
    \<and> mget (spread_of (oget c ''transport'')) ''heartbeatMs'' = Some (JNum 5000)"
proof -
  obtain c where c: "mergeConfig secured_config [] = Some c" using merges(3) by blast
  have s: "''transport'' \<in> set plain_sections" by (simp add: plain_sections_def)
  show ?thesis
    using c merge_precedence [OF c s, of "''mode''"] merge_precedence [OF c s, of "''heartbeatMs''"]
    by (simp add: secured_config_def default_object_def transport_object_def DEFAULT_CONFIG_def default_transport_def Let_def)
qed

theorem env_ws_settings_win_witness:
  "\<exists>c. mergeConfig secured_config (loadEnvConfig no_files ws_env) = Some c \<and> ws_setting c ''requireAuth'' = JBool True"
proof -
  obtain c where c: "mergeConfig secured_config (loadEnvConfig no_files ws_env) = Some c" using merges(2) by blast
  have e: "env_ws ws_env \<noteq> []" "oget (env_ws_settings ws_env) ''requireAuth'' = JBool True" by code_simp+
  have "ws_setting c ''requireAuth'' = oget (env_ws_settings ws_env) ''requireAuth''"
    by (rule env_ws_settings_win [OF c]) (simp_all add: e(1) default_ws_def)
  then show ?thesis using c e(2) by simp
qed

theorem hmac_variable_resets_ws_auth_witness:
  "\<exists>c. mergeConfig secured_config (loadEnvConfig no_files hmac_env) = Some c \<and>
     ws_setting secured_config ''requireAuth'' = JBool True \<and> ws_setting c ''requireAuth'' = JBool False"
proof -
  obtain c where c: "mergeConfig secured_config (loadEnvConfig no_files hmac_env) = Some c" using merges(1) by blast
  have "ws_setting secured_config ''requireAuth'' = JBool True" by code_simp
  then show ?thesis
    using c hmac_variable_resets_ws_auth [OF c hmac_env_set] by (simp add: hmac_env_def)
qed

theorem parsePositiveInt_roundtrip_witness: "parsePositiveInt (Some ('' '' @ show_nat 250 @ ''ms'')) = Some (int 250)"
  by (rule parsePositiveInt_roundtrip) (simp_all add: is_digit_def js_ws_def)

end
