(* ===== verification/Provenance.thy ===== *)
theory Provenance imports SessionTracker ConfigMerge begin

text \<open>
  From raw hook values to the session tracker: the reference resolution and the provenance of tool
  events, \<open>src/runtime/provenance.ts\<close>, the readers of \<open>src/runtime/utils.ts\<close>, and the detection
  of the runtime kind, \<open>src/runtime/runtime-kind.ts\<close>.  An absent hook event or context is
  \<open>JUndef\<close>; the environment is a function from names to strings.
\<close>

section \<open>Reading hook values (runtime/utils.ts)\<close>

definition toContext :: "jsval \<Rightarrow> jsval" where
  "toContext v = (if isRecord v then v else JUndef)"

definition toToolHookEvent :: "jsval \<Rightarrow> jsval" where
  "toToolHookEvent v = (if isRecord v then v else JObj [])"

text \<open>\<open>config\<close> is the host's configuration; the plugin id is \<open>event-server-plugin\<close> by default.\<close>

definition getApiConfig :: "string \<Rightarrow> jsval \<Rightarrow> jsval" where
  "getApiConfig pluginId config =
     (if \<not> isRecord config then JObj []
      else
        let plugins = readObject (jprop config ''plugins'');
            entries = Option.bind plugins (\<lambda>p. readObject (jprop p ''entries''));
            pluginEntry = Option.bind entries (\<lambda>e. readObject (jprop e pluginId));
            pluginScopedConfig = Option.bind pluginEntry (\<lambda>e. readObject (jprop e ''config''))
        in default_to config pluginScopedConfig)"

definition isWebSocketDisabled :: "(string \<Rightarrow> string option) \<Rightarrow> bool" where
  "isWebSocketDisabled e =
     (let raw = e ''EVENT_PLUGIN_DISABLE_WS'' in raw = Some ''true'' \<or> raw = Some ''1'')"

definition isStatusTickerDisabled :: "(string \<Rightarrow> string option) \<Rightarrow> bool" where
  "isStatusTickerDisabled e =
     (let raw = e ''EVENT_PLUGIN_DISABLE_STATUS_TICKER'' in
      if raw = Some ''true'' \<or> raw = Some ''1'' then True else e ''NODE_ENV'' = Some ''test'')"

definition classifyAgentError :: "string \<Rightarrow> string" where
  "classifyAgentError errorMessage =
     (let normalized = js_lower errorMessage in
      if js_includes normalized ''unreachable'' \<or> js_includes normalized ''offline'' \<or>
         js_includes normalized ''not reachable''
      then ''offline'' else ''error'')"

definition resolveSessionRefForStatus :: "string option \<Rightarrow> string option \<Rightarrow> string option" where
  "resolveSessionRefForStatus sessionId sessionKey = nullish sessionKey sessionId"

text \<open>
  \<open>Number\<close> on a trimmed string, none when it is not an integer.  The decimal
  literals are read exactly.
\<close>

definition digit_of :: "char \<Rightarrow> int" where
  "digit_of c =
     (let n = of_char (lower_char c) in
      if 48 \<le> n \<and> n \<le> 57 then n - 48 else if 97 \<le> n \<and> n \<le> 102 then n - 87 else 16)"

definition radix_int :: "int \<Rightarrow> string \<Rightarrow> int option" where
  "radix_int b s =
     (if s = [] \<or> \<not> list_all (\<lambda>c. digit_of c < b) s then None
      else Some (foldl (\<lambda>n c. b * n + digit_of c) 0 s))"

definition signed_int :: "string \<Rightarrow> int option" where
  "signed_int s =
     (let u = (if starts_with s ''-'' \<or> starts_with s ''+'' then tl s else s) in
      if u = [] \<or> \<not> list_all is_digit u then None
      else Some (if starts_with s ''-'' then - digits_value u else digits_value u))"

definition decimal_int :: "string \<Rightarrow> int option" where
  "decimal_int s =
     (let negative = starts_with s ''-'';
          u = (if negative \<or> starts_with s ''+'' then tl s else s);
          whole = takeWhile is_digit u; r1 = dropWhile is_digit u;
          fraction = (if starts_with r1 ''.'' then takeWhile is_digit (tl r1) else []);
          r2 = (if starts_with r1 ''.'' then dropWhile is_digit (tl r1) else r1);
          expo = (if r2 = [] then Some 0 else if lower_char (hd r2) = CHR ''e'' then signed_int (tl r2) else None)
      in
      if whole @ fraction = [] then None
      else
        (case expo of
           None \<Rightarrow> None
         | Some x \<Rightarrow>
             let m = digits_value (whole @ fraction); k = x - int (length fraction);
                 n = (if 0 \<le> k then Some (m * 10 ^ nat k)
                      else if m mod 10 ^ nat (- k) = 0 then Some (m div 10 ^ nat (- k)) else None)
             in map_option (\<lambda>v. if negative then - v else v) n))"

definition js_integer :: "string \<Rightarrow> int option" where
  "js_integer s =
     (if s = [] then Some 0
      else if starts_with (js_lower s) ''0x'' then radix_int 16 (drop 2 s)
      else if starts_with (js_lower s) ''0o'' then radix_int 8 (drop 2 s)
      else if starts_with (js_lower s) ''0b'' then radix_int 2 (drop 2 s)
      else decimal_int s)"

fun first_occurrences :: "'a list \<Rightarrow> 'a list \<Rightarrow> 'a list" where
  "first_occurrences seen [] = []"
| "first_occurrences seen (x # xs) =
     (if x \<in> set seen then first_occurrences seen xs else x # first_occurrences (x # seen) xs)"

definition getWebSocketPorts :: "(string \<Rightarrow> string option) \<Rightarrow> int list \<Rightarrow> int list" where
  "getWebSocketPorts e defaultPorts =
     (case e ''EVENT_PLUGIN_WS_PORTS'' of
        None \<Rightarrow> defaultPorts
      | Some raw \<Rightarrow>
          if \<not> non_blank raw then defaultPorts
          else
            let parsed = filter (\<lambda>p. 0 < p \<and> p \<le> 65535)
                  (first_occurrences [] (List.map_filter (\<lambda>v. js_integer (js_trim v)) (js_split (CHR '','') raw)))
            in if length parsed > 0 then parsed else defaultPorts)"

section \<open>Session references (runtime/provenance.ts)\<close>

record SessionRefCandidates =
  rc_hookEventSessionId :: "string option"
  rc_hookEventSessionKey :: "string option"
  rc_hookEventContextSessionId :: "string option"
  rc_hookEventContextSessionKey :: "string option"
  rc_ctxSessionId :: "string option"
  rc_ctxSessionKey :: "string option"

record ResolvedSessionRefs =
  rf_sessionId :: "string option"
  rf_sessionKey :: "string option"
  rf_sessionIdSource :: "string option"
  rf_sessionKeySource :: "string option"
  rf_resolvedSessionSource :: "string option"
  rf_candidates :: SessionRefCandidates
  rf_aliasSessionIds :: "string list"
  rf_aliasSessionKeys :: "string list"

definition event_context :: "jsval \<Rightarrow> jsval" where
  "event_context hookEvent =
     (if isRecord (jprop hookEvent ''context'') then jprop hookEvent ''context'' else JObj [])"

definition read_field :: "jsval \<Rightarrow> string \<Rightarrow> string option" where
  "read_field v k = readString (jprop v k)"

definition buildSessionRefCandidates :: "jsval \<Rightarrow> jsval \<Rightarrow> SessionRefCandidates" where
  "buildSessionRefCandidates hookEvent ctx =
     \<lparr> rc_hookEventSessionId = read_field hookEvent ''sessionId'',
       rc_hookEventSessionKey = read_field hookEvent ''sessionKey'',
       rc_hookEventContextSessionId = read_field (event_context hookEvent) ''sessionId'',
       rc_hookEventContextSessionKey = read_field (event_context hookEvent) ''sessionKey'',
       rc_ctxSessionId = read_field ctx ''sessionId'',
       rc_ctxSessionKey = read_field ctx ''sessionKey'' \<rparr>"

text \<open>The value and the source of the first candidate that is not blank.\<close>

definition resolveValue :: "(string \<times> string option) list \<Rightarrow> string option \<times> string option" where
  "resolveValue candidates =
     (case List.find (\<lambda>(source, v). non_blank_opt v) candidates of
        None \<Rightarrow> (None, None) | Some (source, v) \<Rightarrow> (v, Some source))"

definition agent_alias :: "string option \<Rightarrow> string option" where
  "agent_alias v = (case v of None \<Rightarrow> None | Some s \<Rightarrow> if starts_with s ''agent:'' then v else None)"

definition resolveSessionRefs :: "jsval \<Rightarrow> jsval \<Rightarrow> ResolvedSessionRefs" where
  "resolveSessionRefs hookEvent ctx =
     (let c = buildSessionRefCandidates hookEvent ctx;
          sessionId = resolveValue
            [(''ctx.sessionId'', rc_ctxSessionId c), (''hookEvent.sessionId'', rc_hookEventSessionId c),
             (''hookEvent.context.sessionId'', rc_hookEventContextSessionId c),
             (''hookEvent.sessionId_fallback'', rc_hookEventSessionKey c),
             (''hookEvent.context.sessionId_fallback'', rc_hookEventContextSessionKey c),
             (''ctx.sessionId_fallback'', rc_ctxSessionKey c)];
          sessionKey = resolveValue
            [(''ctx.sessionKey'', rc_ctxSessionKey c), (''hookEvent.sessionKey'', rc_hookEventSessionKey c),
             (''hookEvent.context.sessionKey'', rc_hookEventContextSessionKey c),
             (''hookEvent.sessionKey_fallback'', rc_hookEventSessionId c),
             (''hookEvent.context.sessionKey_fallback'', rc_hookEventContextSessionId c),
             (''ctx.sessionKey_fallback'', rc_ctxSessionId c)]
      in \<lparr> rf_sessionId = fst sessionId, rf_sessionKey = fst sessionKey,
           rf_sessionIdSource = snd sessionId, rf_sessionKeySource = snd sessionKey,
           rf_resolvedSessionSource = nullish (snd sessionKey) (snd sessionId), rf_candidates = c,
           rf_aliasSessionIds = dedupe_strings
             [rc_ctxSessionId c, rc_hookEventSessionId c, rc_hookEventContextSessionId c],
           rf_aliasSessionKeys = dedupe_strings
             [rc_ctxSessionKey c, rc_hookEventSessionKey c, rc_hookEventContextSessionKey c,
              agent_alias (rc_ctxSessionId c), agent_alias (rc_hookEventSessionId c),
              agent_alias (rc_hookEventContextSessionId c)] \<rparr>)"

text \<open>A field of the event, else of its context, else of the hook context.\<close>

definition first_field :: "jsval \<Rightarrow> jsval \<Rightarrow> string \<Rightarrow> string option" where
  "first_field hookEvent ctx k =
     nullish (read_field hookEvent k) (nullish (read_field (event_context hookEvent) k) (read_field ctx k))"

definition no_route_value :: "SessionRouteMetadata \<Rightarrow> bool" where
  "no_route_value r =
     list_all (\<lambda>v. v = None) [ro_provider r, ro_surface r, ro_accountId r, ro_channelId r, ro_conversationId r,
       ro_threadId r, ro_messageId r, ro_from r, ro_to r, ro_senderId r, ro_senderName r]"

definition extractRouteProvenance :: "jsval \<Rightarrow> jsval \<Rightarrow> SessionRouteMetadata option" where
  "extractRouteProvenance hookEvent ctx =
     (let f = first_field hookEvent ctx;
          route = \<lparr> ro_provider = f ''provider'', ro_surface = f ''surface'', ro_accountId = f ''accountId'',
            ro_channelId = f ''channelId'', ro_conversationId = f ''conversationId'', ro_threadId = f ''threadId'',
            ro_messageId = f ''messageId'', ro_from = f ''from'', ro_to = f ''to'', ro_senderId = f ''senderId'',
            ro_senderName = f ''senderName'' \<rparr>
      in if no_route_value route then None else Some route)"

section \<open>Observing and reporting provenance\<close>

definition touchSession :: "ObserveSessionParams \<Rightarrow> int \<Rightarrow> tracker \<Rightarrow> tracker" where
  "touchSession p now t = observeSession p now t"

record provenance_params =
  pp_agentId :: "string option"
  pp_parentAgentId :: "string option"
  pp_parentSessionId :: "string option"
  pp_parentSessionKey :: "string option"
  pp_runId :: "string option"
  pp_direction :: "string option"

definition observation_params :: "ResolvedSessionRefs \<Rightarrow> jsval \<Rightarrow> jsval \<Rightarrow> provenance_params \<Rightarrow> ObserveSessionParams" where
  "observation_params refs hookEvent ctx pp =
     \<lparr> op_sessionId = rf_sessionId refs, op_sessionKey = rf_sessionKey refs,
       op_aliasSessionIds = Some (rf_aliasSessionIds refs), op_aliasSessionKeys = Some (rf_aliasSessionKeys refs),
       op_agentId = pp_agentId pp, op_parentAgentId = pp_parentAgentId pp,
       op_parentSessionId = pp_parentSessionId pp, op_parentSessionKey = pp_parentSessionKey pp,
       op_runId = pp_runId pp, op_route = extractRouteProvenance hookEvent ctx, op_direction = pp_direction pp \<rparr>"

definition observeSessionProvenance ::
  "ResolvedSessionRefs \<Rightarrow> jsval \<Rightarrow> jsval \<Rightarrow> provenance_params \<Rightarrow> int \<Rightarrow> tracker \<Rightarrow> tracker" where
  "observeSessionProvenance refs hookEvent ctx pp now t = touchSession (observation_params refs hookEvent ctx pp) now t"

definition mergeParsedRoute ::
  "SessionRouteMetadata option \<Rightarrow> ParsedSessionKey option \<Rightarrow> SessionRouteMetadata option" where
  "mergeParsedRoute route parsedSession =
     (case parsedSession of
        None \<Rightarrow> route
      | Some parsed \<Rightarrow>
          (let f = (\<lambda>sel. Option.bind route sel);
               merged = \<lparr> ro_provider = nullish (f ro_provider) (ps_provider parsed),
                 ro_surface = nullish (f ro_surface) (ps_surface parsed),
                 ro_accountId = nullish (f ro_accountId) (ps_accountId parsed),
                 ro_channelId = f ro_channelId, ro_conversationId = f ro_conversationId,
                 ro_threadId = nullish (f ro_threadId) (ps_threadToken parsed), ro_messageId = f ro_messageId,
                 ro_from = f ro_from, ro_to = f ro_to, ro_senderId = f ro_senderId, ro_senderName = f ro_senderName \<rparr>
           in if no_route_value merged then None else Some merged))"

definition parsed_object :: "ParsedSessionKey \<Rightarrow> jsval" where
  "parsed_object p =
     JObj [(''raw'', JStr (ps_raw p)), (''agentId'', of_str (ps_agentId p)), (''provider'', of_str (ps_provider p)),
       (''surface'', of_str (ps_surface p)), (''accountId'', of_str (ps_accountId p)), (''scope'', of_str (ps_scope p)),
       (''threadKind'', of_str (ps_threadKind p)), (''threadToken'', of_str (ps_threadToken p)),
       (''isThreadScoped'', JBool (ps_isThreadScoped p))]"

record tool_call_refs =
  tr_toolCallId :: "string option"
  tr_correlationId :: "string option"
  tr_subagentKey :: "string option"

text \<open>The metadata that tool events carry; looking the session up may merge records of the tracker.\<close>

definition buildToolEventProvenance ::
  "(string \<Rightarrow> string \<Rightarrow> bool) \<Rightarrow> ResolvedSessionRefs \<Rightarrow> provenance_params \<Rightarrow> tool_call_refs \<Rightarrow> int \<Rightarrow> tracker \<Rightarrow> jsobj \<times> tracker" where
  "buildToolEventProvenance le refs pp call now t =
     (let lookup = no_params\<lparr>op_sessionId := rf_sessionId refs, op_sessionKey := rf_sessionKey refs,
            op_aliasSessionIds := Some (rf_aliasSessionIds refs), op_aliasSessionKeys := Some (rf_aliasSessionKeys refs),
            op_runId := pp_runId pp\<rparr>;
          found = getSessionProvenance le lookup now t; snapshot = fst found;
          merged = mergeParsedRoute (pv_route snapshot) (pv_parsedSession snapshot);
          c = rf_candidates refs;
          f = (\<lambda>sel. of_str (if pv_routeResolution snapshot = ''resolved'' then Option.bind merged sel else None));
          parsed = pv_parsedSession snapshot;
          s = (\<lambda>sel. of_str (Option.bind parsed sel))
      in
      ([(''resolvedSessionId'', of_str (rf_sessionId refs)), (''resolvedSessionKey'', of_str (rf_sessionKey refs)),
        (''resolvedSessionSource'', of_str (rf_resolvedSessionSource refs)),
        (''hookEventSessionId'', of_str (rc_hookEventSessionId c)), (''hookEventSessionKey'', of_str (rc_hookEventSessionKey c)),
        (''hookEventContextSessionId'', of_str (rc_hookEventContextSessionId c)),
        (''hookEventContextSessionKey'', of_str (rc_hookEventContextSessionKey c)),
        (''ctxSessionId'', of_str (rc_ctxSessionId c)), (''ctxSessionKey'', of_str (rc_ctxSessionKey c)),
        (''runId'', of_str (pp_runId pp)), (''toolCallId'', of_str (tr_toolCallId call)),
        (''correlationId'', of_str (tr_correlationId call)),
        (''parentAgentId'', of_str (nullish (pp_parentAgentId pp) (pv_parentAgentId snapshot))),
        (''parentSessionId'', of_str (nullish (pp_parentSessionId pp) (pv_parentSessionId snapshot))),
        (''parentSessionKey'', of_str (nullish (pp_parentSessionKey pp) (pv_parentSessionKey snapshot))),
        (''subagentKey'', of_str (tr_subagentKey call)),
        (''provider'', f ro_provider), (''surface'', f ro_surface), (''accountId'', f ro_accountId),
        (''channelId'', f ro_channelId), (''conversationId'', f ro_conversationId), (''threadId'', f ro_threadId),
        (''messageId'', f ro_messageId), (''from'', f ro_from), (''to'', f ro_to), (''senderId'', f ro_senderId),
        (''senderName'', f ro_senderName),
        (''sessionAliases'', JObj [(''sessionIds'', JArr (map JStr (pv_sessionIds snapshot))),
           (''sessionKeys'', JArr (map JStr (pv_sessionKeys snapshot))), (''routeKeys'', JArr (map JStr (pv_routeKeys snapshot)))]),
        (''parsedSession'', case parsed of None \<Rightarrow> JUndef | Some p \<Rightarrow> parsed_object p),
        (''isThreadScoped'', case parsed of None \<Rightarrow> JUndef | Some p \<Rightarrow> JBool (ps_isThreadScoped p)),
        (''threadKind'', s ps_threadKind), (''threadToken'', s ps_threadToken),
        (''routeResolution'', JStr (pv_routeResolution snapshot))],
       snd found))"

definition resolveAgentId :: "jsval \<Rightarrow> jsval \<Rightarrow> string option \<Rightarrow> string option \<Rightarrow> tracker \<Rightarrow> string option" where
  "resolveAgentId hookEvent ctx sessionId sessionKey t =
     (let direct = nullish (read_field ctx ''agentId'') (nullish (read_field hookEvent ''agentId'')
            (nullish (read_field (event_context hookEvent) ''agentId'') (read_field (event_context hookEvent) ''agent'')))
      in if truthy_str direct then direct else getAgentIdBySession sessionId sessionKey t)"

section \<open>Runtime kind (runtime/runtime-kind.ts)\<close>

datatype runtime_kind = Gateway | Agent | Unknown

definition normalizeTokens :: "string list \<Rightarrow> string list" where
  "normalizeTokens argv = filter (\<lambda>v. v \<noteq> []) (map (\<lambda>v. js_lower (js_trim v)) argv)"

definition isLauncherToken :: "string \<Rightarrow> bool" where
  "isLauncherToken v \<longleftrightarrow> v = ''node'' \<or> ends_with v ''/node'' \<or> ends_with v ([CHR 0x5C] @ ''node.exe'') \<or>
     ends_with v ''.js'' \<or> js_includes v ''/dist/''"

definition detectFromArgv :: "string list \<Rightarrow> runtime_kind" where
  "detectFromArgv argv =
     (let tokens = normalizeTokens argv in
      if list_ex (\<lambda>v. v = ''openclaw-gateway'' \<or> ends_with v ''/openclaw-gateway'') tokens then Gateway
      else if list_ex (\<lambda>v. v = ''openclaw-agent'' \<or> ends_with v ''/openclaw-agent'') tokens then Agent
      else
        let firstCommand = List.find (\<lambda>v. \<not> starts_with v ''-'' \<and> \<not> isLauncherToken v) tokens in
        if firstCommand = Some ''gateway'' then Gateway
        else if firstCommand = Some ''agent'' then Agent
        else Unknown)"

definition readOverride :: "(string \<Rightarrow> string option) \<Rightarrow> runtime_kind option" where
  "readOverride e =
     (let override = map_option (\<lambda>v. js_lower (js_trim v)) (e ''EVENT_PLUGIN_RUNTIME_KIND_OVERRIDE'') in
      if override = Some ''gateway'' then Some Gateway
      else if override = Some ''agent'' then Some Agent
      else if override = Some ''unknown'' then Some Unknown
      else None)"

definition detectOpenClawRuntimeKind :: "(string \<Rightarrow> string option) \<Rightarrow> string \<Rightarrow> string list \<Rightarrow> runtime_kind" where
  "detectOpenClawRuntimeKind e processTitle argv =
     (case readOverride e of
        Some kind \<Rightarrow> kind
      | None \<Rightarrow>
          (let title = js_lower (js_trim processTitle) in
           if js_includes title ''openclaw-gateway'' then Gateway
           else if js_includes title ''openclaw-agent'' then Agent
           else
             let argvKind = detectFromArgv argv in
             if argvKind \<noteq> Unknown then argvKind
             else if non_blank_opt (e ''OPENCLAW_GATEWAY_PORT'') then Gateway
             else Unknown))"

definition resolveAutoTransportMode :: "runtime_kind \<Rightarrow> string" where
  "resolveAutoTransportMode kind = (if kind = Gateway then ''owner'' else ''follower'')"

section \<open>Ports\<close>

lemma first_occurrences_props: "distinct (first_occurrences seen xs) \<and> set (first_occurrences seen xs) \<subseteq> set xs - set seen"
  by (induction seen xs rule: first_occurrences.induct) auto

text \<open>
  Whatever EVENT_PLUGIN_WS_PORTS holds, the ports for the WebSocket server are distinct
  integers from 1 to 65535 and there is at least one, as long as the default ports are.
\<close>

theorem ws_ports_usable:
  assumes "distinct defaultPorts" "set defaultPorts \<subseteq> {1..65535}" "defaultPorts \<noteq> []"
  shows "distinct (getWebSocketPorts e defaultPorts) \<and> set (getWebSocketPorts e defaultPorts) \<subseteq> {1..65535} \<and>
    getWebSocketPorts e defaultPorts \<noteq> []"
proof -
  let ?f = "\<lambda>raw. filter (\<lambda>p. 0 < p \<and> p \<le> 65535)
    (first_occurrences [] (List.map_filter (\<lambda>v. js_integer (js_trim v)) (js_split (CHR '','') raw)))"
  have f: "distinct (?f raw)" "set (?f raw) \<subseteq> {1..65535}" for raw
    using first_occurrences_props [of "[]" "List.map_filter (\<lambda>v. js_integer (js_trim v)) (js_split (CHR '','') raw)"]
    by (auto intro: distinct_filter)
  show ?thesis
  proof (cases "e ''EVENT_PLUGIN_WS_PORTS''")
    case (Some raw)
    then show ?thesis
      using assms f [of raw] by (simp add: getWebSocketPorts_def Let_def)
  qed (use assms in \<open>simp add: getWebSocketPorts_def\<close>)
qed

section \<open>Who may own the transport\<close>

lemma js_trim_infix: "\<exists>u v. s = u @ js_trim s @ v"
proof -
  define w where "w = dropWhile js_ws s"
  have s: "s = takeWhile js_ws s @ w" by (simp add: w_def)
  have "rev w = takeWhile js_ws (rev w) @ dropWhile js_ws (rev w)" by simp
  then have "w = js_trim s @ rev (takeWhile js_ws (rev w))"
    unfolding js_trim_def w_def [symmetric] by (metis rev_append rev_rev_ident)
  then show ?thesis using s by (metis append_assoc)
qed

lemma ends_with_refl: "ends_with p p"
  unfolding ends_with_iff by (rule exI [of _ "[]"]) simp

lemma ends_with_tail: "ends_with v (c # p) \<Longrightarrow> ends_with v p"
  unfolding ends_with_iff by (elim exE) (metis append.assoc append_Cons append_Nil)

text \<open>
  In automatic mode a runtime becomes the transport owner only on positive evidence: an
  override that says gateway, or, without an override, a process title or an argument that
  names the gateway or a gateway port in the environment. Unknown runtimes stay followers.
\<close>

theorem owner_needs_evidence:
  assumes "resolveAutoTransportMode (detectOpenClawRuntimeKind e title argv) = ''owner''"
  shows "readOverride e = Some Gateway \<or>
    (readOverride e = None \<and>
      (js_includes (js_lower title) ''openclaw-gateway'' \<or>
       (\<exists>a \<in> set argv. js_lower (js_trim a) = ''gateway'' \<or> ends_with (js_lower (js_trim a)) ''openclaw-gateway'') \<or>
       non_blank_opt (e ''OPENCLAW_GATEWAY_PORT'')))"
proof -
  have k: "detectOpenClawRuntimeKind e title argv = Gateway"
    using assms by (simp add: resolveAutoTransportMode_def split: if_splits)
  have trim: "js_includes (js_lower (js_trim title)) x \<Longrightarrow> js_includes (js_lower title) x" for x
    using js_trim_infix [of title] unfolding js_includes_iff js_lower_def
    by (metis append_assoc map_append)
  have e: "ends_with v ''openclaw-gateway''" if "v = ''openclaw-gateway'' \<or> ends_with v ''/openclaw-gateway''" for v
    using that ends_with_tail [of v] ends_with_refl by blast
  have a: "\<exists>a \<in> set argv. js_lower (js_trim a) = ''gateway'' \<or> ends_with (js_lower (js_trim a)) ''openclaw-gateway''"
    if "detectFromArgv argv = Gateway"
  proof -
    have "list_ex (\<lambda>v. v = ''openclaw-gateway'' \<or> ends_with v ''/openclaw-gateway'') (normalizeTokens argv) \<or>
        List.find (\<lambda>v. \<not> starts_with v ''-'' \<and> \<not> isLauncherToken v) (normalizeTokens argv) = Some ''gateway''"
      using that unfolding detectFromArgv_def Let_def by (metis runtime_kind.distinct(1,3,5))
    then have "\<exists>v \<in> set (normalizeTokens argv). v = ''gateway'' \<or> ends_with v ''openclaw-gateway''"
    proof
      assume "list_ex (\<lambda>v. v = ''openclaw-gateway'' \<or> ends_with v ''/openclaw-gateway'') (normalizeTokens argv)"
      then show ?thesis unfolding list_ex_iff using e by blast
    next
      assume "List.find (\<lambda>v. \<not> starts_with v ''-'' \<and> \<not> isLauncherToken v) (normalizeTokens argv) = Some ''gateway''"
      then show ?thesis by (metis find_Some_iff nth_mem)
    qed
    then show ?thesis unfolding normalizeTokens_def by (auto simp: Bex_def)
  qed
  show ?thesis
  proof (cases "readOverride e")
    case None
    then show ?thesis using k a trim by (auto simp: detectOpenClawRuntimeKind_def Let_def split: if_splits)
  next
    case (Some r)
    then show ?thesis using k by (simp add: detectOpenClawRuntimeKind_def)
  qed
qed

section \<open>A shared alias as a session id\<close>

definition alias_event :: "string \<Rightarrow> jsval" where
  "alias_event k = JObj [(''sessionKey'', JStr k)]"

lemma alias_refs:
  assumes "non_blank k"
  shows "rf_sessionId (resolveSessionRefs JUndef (alias_event k)) = Some k"
    "rf_sessionIdSource (resolveSessionRefs JUndef (alias_event k)) = Some ''ctx.sessionId_fallback''"
    "rf_sessionKey (resolveSessionRefs JUndef (alias_event k)) = Some k"
    "rf_aliasSessionIds (resolveSessionRefs JUndef (alias_event k)) = []"
    "rf_aliasSessionKeys (resolveSessionRefs JUndef (alias_event k)) = [k]"
  using assms
  by (simp_all add: resolveSessionRefs_def Let_def buildSessionRefCandidates_def read_field_def event_context_def
      alias_event_def resolveValue_def dedupe_strings_def sadd_def agent_alias_def jprop_def)

lemma singleton_list: "distinct xs \<Longrightarrow> set xs = {i} \<Longrightarrow> xs = [i]"
  by (cases xs) (auto simp: subset_singleton_iff)

text \<open>
  An event that carries only a shared runtime alias uses the alias as its session id as
  well, so that the alias counts as a strong identifier: once a record has it as a session
  id, every such event is resolved to that record, also when several sessions hold the alias
  and the tracker itself would report an ambiguity.
\<close>

theorem shared_alias_becomes_session_id:
  assumes "t = fold (tracker_step le) ops (new_tracker ttl)"
    and "non_blank k" "\<not> isStrongSessionKey (Some k)" "pp_runId pp = None"
    and "i \<in> owners t (SessionId k)"
  shows "\<exists>r. resolveUniqueRecord (observation_params (resolveSessionRefs JUndef (alias_event k)) JUndef (alias_event k) pp) t
      = (Some (Resolved r), t) \<and> se_recordId r = i"
proof -
  let ?p = "observation_params (resolveSessionRefs JUndef (alias_event k)) JUndef (alias_event k) pp"
  have inv: "tracker_inv t" unfolding assms(1) by (rule reachable_tracker)
  note I = tracker_invD [OF inv]
  have ids: "observed_ids ?p = [k]" "set (observed_keys ?p) \<subseteq> {k}" "op_runId ?p = None"
    using assms(2,4)
    by (auto simp: observation_params_def alias_refs observed_ids_def observed_keys_def alias_ids_def alias_keys_def
        dedupe_strings_def sadd_def split: if_splits)
  have "set (matching_ids ?p True t) = owners t (SessionId k)"
  proof -
    have "(strong_ident x \<and> mentions ?p x) \<longleftrightarrow> x = SessionId k" for x
      using ids assms(3) by (cases x) (auto simp: mentions_def strong_ident_def)
    then show ?thesis by (intro set_eqI) (metis matching_strong)
  qed
  moreover have "owners t (SessionId k) = {i}"
  proof -
    have "j = i" if "j \<in> owners t (SessionId k)" for j
      by (rule I(4) [OF _ that assms(5)]) (simp add: strong_ident_def)
    then show ?thesis using assms(5) by blast
  qed
  ultimately have m: "matching_ids ?p True t = [i]"
    using singleton_list [OF distinct_matching] by simp
  obtain r where r: "mget (tr_records t) i = Some r" using I(3) assms(5) by blast
  then have "se_recordId r = i" using I(2) by blast
  then show ?thesis
    by (simp add: resolveUniqueRecord_def findMatchingRecords_def m List.map_filter_simps r)
qed


section \<open>Concrete cases\<close>

theorem ws_ports_usable_witness:
  "getWebSocketPorts (\<lambda>n. if n = ''EVENT_PLUGIN_WS_PORTS'' then Some ''9100, 0x238c,x,9100,70000'' else None) [9011, 9012] \<noteq> []"
proof -
  have "getWebSocketPorts (\<lambda>n. if n = ''EVENT_PLUGIN_WS_PORTS'' then Some ''9100, 0x238c,x,9100,70000'' else None) [9011, 9012]
    = [9100]" by code_simp
  show ?thesis
    using ws_ports_usable [of "[9011, 9012]" "\<lambda>n. if n = ''EVENT_PLUGIN_WS_PORTS'' then Some ''9100, 0x238c,x,9100,70000'' else None"]
    by simp
qed

theorem owner_needs_evidence_witness:
  "\<exists>a \<in> set [''/usr/bin/node'', ''/opt/openclaw/dist/index.js'', ''gateway'']. js_lower (js_trim a) = ''gateway'' \<or>
      ends_with (js_lower (js_trim a)) ''openclaw-gateway''"
proof -
  have d: "resolveAutoTransportMode (detectOpenClawRuntimeKind (\<lambda>n. None) ''node''
      [''/usr/bin/node'', ''/opt/openclaw/dist/index.js'', ''gateway'']) = ''owner''"
    "\<not> js_includes (js_lower ''node'') ''openclaw-gateway''"
    by code_simp+
  show ?thesis using owner_needs_evidence [OF d(1)] d(2) by (simp add: readOverride_def)
qed

definition alias_pp :: provenance_params where
  "alias_pp = \<lparr> pp_agentId = None, pp_parentAgentId = None, pp_parentSessionId = None, pp_parentSessionKey = None,
     pp_runId = None, pp_direction = None \<rparr>"

definition main_alias :: string where
  "main_alias = ''agent:a:main''"

definition alias_ops :: "tracker_op list" where
  "alias_ops =
     [Observe (observation_params (resolveSessionRefs JUndef (alias_event main_alias)) JUndef (alias_event main_alias) alias_pp) 0,
      Observe (no_params\<lparr>op_sessionId := Some ''b''\<rparr>) 1,
      Observe (no_params\<lparr>op_sessionId := Some ''b'', op_sessionKey := Some main_alias\<rparr>) 2]"

lemma alias_state:
  "owners (fold (tracker_step code_unit_le) alias_ops (new_tracker None)) (SessionId main_alias) = {0}"
  "owners (fold (tracker_step code_unit_le) alias_ops (new_tracker None)) (SessionKey main_alias) = {0, 1}"
  "\<not> isStrongSessionKey (Some main_alias)" "non_blank main_alias"
  by code_simp+

theorem shared_alias_becomes_session_id_witness:
  "\<exists>r. fst (resolveUniqueRecord (observation_params (resolveSessionRefs JUndef (alias_event main_alias)) JUndef
      (alias_event main_alias) alias_pp) (fold (tracker_step code_unit_le) alias_ops (new_tracker None)))
      = Some (Resolved r) \<and> se_recordId r = 0 \<and>
    owners (fold (tracker_step code_unit_le) alias_ops (new_tracker None)) (SessionKey main_alias) = {0, 1}"
  using shared_alias_becomes_session_id [OF refl alias_state(4,3), of alias_pp 0 code_unit_le alias_ops None]
  by (auto simp: alias_pp_def alias_state)

end
