(* ===== verification/EventBuilders.thy ===== *)
theory EventBuilders imports Protocol begin

text \<open>
  The canonical events: \<open>createCanonicalEvent\<close> of \<open>src/hooks/event-factory.ts\<close>, the builders of
  \<open>src/hooks/*-hooks.ts\<close> on top of it, and the privacy modes of
  \<open>src/hooks/modern-lifecycle-payloads.ts\<close>.  Ids are drawn from a supply that never repeats: a
  builder takes the number of ids drawn so far and returns it updated.
\<close>

section \<open>The factory\<close>

record event_env =
  ev_uuid :: "nat \<Rightarrow> string"
  ev_nowIso :: string

record CanonicalEventInput =
  ci_type :: string
  ci_eventCategory :: string
  ci_eventName :: string
  ci_source :: string
  ci_agentId :: "string option"
  ci_agentName :: "string option"
  ci_sessionId :: "string option"
  ci_sessionKey :: "string option"
  ci_sessionName :: "string option"
  ci_runId :: "string option"
  ci_toolCallId :: "string option"
  ci_correlationId :: "string option"
  ci_result :: jsval
  ci_error :: jsval
  ci_data :: jsval
  ci_metadata :: jsval

definition canonical_input :: "string \<Rightarrow> string \<Rightarrow> string \<Rightarrow> string \<Rightarrow> CanonicalEventInput" where
  "canonical_input ty category name src =
     \<lparr> ci_type = ty, ci_eventCategory = category, ci_eventName = name, ci_source = src, ci_agentId = None,
       ci_agentName = None, ci_sessionId = None, ci_sessionKey = None, ci_sessionName = None, ci_runId = None,
       ci_toolCallId = None, ci_correlationId = None, ci_result = JUndef, ci_error = JUndef, ci_data = JUndef,
       ci_metadata = JUndef \<rparr>"

definition PLUGIN_VERSION :: string where
  "PLUGIN_VERSION = ''1.3.0''"

definition createCanonicalEvent :: "event_env \<Rightarrow> CanonicalEventInput \<Rightarrow> nat \<Rightarrow> event \<times> nat" where
  "createCanonicalEvent E input n =
     (let correlation = (case ci_correlationId input of None \<Rightarrow> (ev_uuid E (Suc n), Suc (Suc n)) | Some c \<Rightarrow> (c, Suc n)) in
      ([(''eventId'', JStr (ev_uuid E n)), (''schemaVersion'', JStr ''1.1.0''), (''type'', JStr (ci_type input)),
        (''eventCategory'', JStr (ci_eventCategory input)), (''eventName'', JStr (ci_eventName input)),
        (''source'', JStr (ci_source input)), (''timestamp'', JStr (ev_nowIso E)),
        (''agentId'', of_str (ci_agentId input)), (''agentName'', of_str (ci_agentName input)),
        (''sessionId'', of_str (ci_sessionId input)), (''sessionKey'', of_str (ci_sessionKey input)),
        (''sessionName'', of_str (ci_sessionName input)), (''runId'', of_str (ci_runId input)),
        (''toolCallId'', of_str (ci_toolCallId input)), (''correlationId'', JStr (fst correlation)),
        (''result'', ci_result input), (''error'', ci_error input), (''pluginVersion'', JStr PLUGIN_VERSION),
        (''data'', jnullish (ci_data input) (JObj [])), (''metadata'', ci_metadata input)],
       snd correlation))"

section \<open>Tools (hooks/tool-hooks.ts)\<close>

record tool_context =
  tx_toolName :: "string option"
  tx_params :: jsval
  tx_provenance :: jsval
  tx_agentId :: "string option"
  tx_parentAgentId :: "string option"
  tx_subagentKey :: "string option"
  tx_sessionId :: "string option"
  tx_sessionKey :: "string option"
  tx_parentSessionId :: "string option"
  tx_parentSessionKey :: "string option"
  tx_runId :: "string option"
  tx_toolCallId :: "string option"
  tx_correlationId :: "string option"

definition tool_input :: "string \<Rightarrow> string \<Rightarrow> tool_context \<Rightarrow> jsobj \<Rightarrow> CanonicalEventInput" where
  "tool_input ty name c entries =
     (canonical_input ty ''tool'' name ''plugin-hook'')
       \<lparr>ci_agentId := tx_agentId c, ci_sessionId := tx_sessionId c, ci_sessionKey := tx_sessionKey c,
        ci_runId := tx_runId c, ci_toolCallId := tx_toolCallId c, ci_correlationId := tx_correlationId c,
        ci_data := JObj entries\<rparr>"

definition tool_identity :: "tool_context \<Rightarrow> jsobj" where
  "tool_identity c =
     [(''agentId'', of_str (tx_agentId c)), (''parentAgentId'', of_str (tx_parentAgentId c)),
      (''subagentKey'', of_str (tx_subagentKey c)), (''parentSessionId'', of_str (tx_parentSessionId c)),
      (''parentSessionKey'', of_str (tx_parentSessionKey c))]"

definition createToolCalledEvent :: "event_env \<Rightarrow> tool_context \<Rightarrow> nat \<Rightarrow> event \<times> nat" where
  "createToolCalledEvent E c =
     createCanonicalEvent E (tool_input ''tool.called'' ''before_tool_call'' c
       ([(''toolName'', of_str (tx_toolName c)), (''params'', tx_params c), (''provenance'', tx_provenance c)] @ tool_identity c))"

definition createToolCompletedEvent :: "event_env \<Rightarrow> tool_context \<Rightarrow> jsval \<Rightarrow> int option \<Rightarrow> nat \<Rightarrow> event \<times> nat" where
  "createToolCompletedEvent E c toolResult durationMs =
     createCanonicalEvent E ((tool_input ''tool.completed'' ''after_tool_call'' c
       ([(''toolName'', of_str (tx_toolName c)), (''durationMs'', of_num durationMs), (''provenance'', tx_provenance c)] @
        tool_identity c @ [(''result'', toolResult)]))\<lparr>ci_result := toolResult\<rparr>)"

record guard_event_context =
  gx_blockReason :: "string option"
  gx_matchedRuleId :: "string option"
  gx_matchedActionId :: "string option"
  gx_decisionSource :: "string option"

definition createToolGuardEvent :: "event_env \<Rightarrow> string \<Rightarrow> tool_context \<Rightarrow> guard_event_context \<Rightarrow> nat \<Rightarrow> event \<times> nat" where
  "createToolGuardEvent E ty c g =
     createCanonicalEvent E (tool_input ty ''before_tool_call'' c
       ([(''toolName'', of_str (tx_toolName c)), (''params'', tx_params c), (''provenance'', tx_provenance c),
         (''blockReason'', of_str (gx_blockReason g)), (''matchedRuleId'', of_str (gx_matchedRuleId g)),
         (''matchedActionId'', of_str (gx_matchedActionId g)), (''decisionSource'', of_str (gx_decisionSource g))] @ tool_identity c))"

definition createToolErrorEvent :: "event_env \<Rightarrow> tool_context \<Rightarrow> string \<Rightarrow> string option \<Rightarrow> nat \<Rightarrow> event \<times> nat" where
  "createToolErrorEvent E c error stackTrace =
     createCanonicalEvent E ((tool_input ''tool.error'' ''after_tool_call'' c
       ([(''toolName'', of_str (tx_toolName c)), (''params'', tx_params c), (''provenance'', tx_provenance c)] @
        tool_identity c @ [(''error'', JStr error), (''stackTrace'', of_str stackTrace)]))
       \<lparr>ci_error := JObj [(''message'', JStr error), (''stack'', of_str stackTrace), (''kind'', JStr ''tool'')]\<rparr>)"

definition createToolResultPersistEvent :: "event_env \<Rightarrow> tool_context \<Rightarrow> jsval \<Rightarrow> bool option \<Rightarrow> nat \<Rightarrow> event \<times> nat" where
  "createToolResultPersistEvent E c message isSynthetic =
     createCanonicalEvent E ((tool_input ''tool.result_persist'' ''tool_result_persist'' c
       ([(''toolName'', of_str (tx_toolName c)), (''toolCallId'', of_str (tx_toolCallId c)), (''message'', message),
         (''isSynthetic'', of_bool_opt isSynthetic), (''provenance'', tx_provenance c)] @ tool_identity c))\<lparr>ci_runId := None\<rparr>)"

section \<open>Agents (hooks/agent-hooks.ts)\<close>

record who =
  who_agentId :: "string option"
  who_sessionId :: "string option"
  who_sessionKey :: "string option"
  who_runId :: "string option"
  who_correlationId :: "string option"

definition for_whom :: "who \<Rightarrow> CanonicalEventInput \<Rightarrow> CanonicalEventInput" where
  "for_whom w i =
     i\<lparr>ci_agentId := who_agentId w, ci_sessionId := who_sessionId w, ci_sessionKey := who_sessionKey w,
       ci_runId := who_runId w, ci_correlationId := who_correlationId w\<rparr>"

definition createAgentStatusEvent ::
  "event_env \<Rightarrow> who \<Rightarrow> string \<Rightarrow> string option \<Rightarrow> string option \<Rightarrow> string option \<Rightarrow> jsval \<Rightarrow> nat \<Rightarrow> event \<times> nat" where
  "createAgentStatusEvent E w status activity activityDetail sourceEventType metadata =
     createCanonicalEvent E (for_whom (w\<lparr>who_runId := None\<rparr>) (canonical_input ''agent.status'' ''synthetic'' ''agent.status'' ''synthetic'')
       \<lparr>ci_data := JObj [(''agentId'', of_str (who_agentId w)), (''status'', JStr status), (''activity'', of_str activity),
          (''activityDetail'', of_str activityDetail), (''sourceEventType'', of_str sourceEventType)], ci_metadata := metadata\<rparr>)"

record activity_context =
  ax_activity :: string
  ax_activityDetail :: "string option"
  ax_sourceEventType :: "string option"
  ax_toolName :: "string option"
  ax_toolStatus :: "string option"
  ax_metadata :: jsval

definition createAgentActivityEvent :: "event_env \<Rightarrow> who \<Rightarrow> activity_context \<Rightarrow> nat \<Rightarrow> event \<times> nat" where
  "createAgentActivityEvent E w a =
     createCanonicalEvent E (for_whom (w\<lparr>who_runId := None\<rparr>) (canonical_input ''agent.activity'' ''synthetic'' ''agent.activity'' ''synthetic'')
       \<lparr>ci_data := JObj [(''agentId'', of_str (who_agentId w)), (''activity'', JStr (ax_activity a)),
          (''activityDetail'', of_str (ax_activityDetail a)), (''sourceEventType'', of_str (ax_sourceEventType a)),
          (''toolName'', of_str (ax_toolName a)), (''toolStatus'', of_str (ax_toolStatus a))], ci_metadata := ax_metadata a\<rparr>)"

definition createAgentBootstrapEvent :: "event_env \<Rightarrow> who \<Rightarrow> jsval \<Rightarrow> nat \<Rightarrow> event \<times> nat" where
  "createAgentBootstrapEvent E w data =
     createCanonicalEvent E (for_whom (w\<lparr>who_runId := None, who_correlationId := None\<rparr>)
       (canonical_input ''agent.bootstrap'' ''agent'' ''agent:bootstrap'' ''internal-hook'')\<lparr>ci_data := jnullish data (JObj [])\<rparr>)"

definition createAgentErrorEvent :: "event_env \<Rightarrow> who \<Rightarrow> string \<Rightarrow> string option \<Rightarrow> jsval \<Rightarrow> nat \<Rightarrow> event \<times> nat" where
  "createAgentErrorEvent E w error stack data =
     createCanonicalEvent E (for_whom (w\<lparr>who_runId := None, who_correlationId := None\<rparr>)
       (canonical_input ''agent.error'' ''agent'' ''agent:error'' ''internal-hook'')
       \<lparr>ci_error := JObj [(''message'', JStr error), (''stack'', of_str stack), (''kind'', JStr ''agent'')],
        ci_data := jnullish data (JObj [])\<rparr>)"

definition createAgentSessionEvent :: "event_env \<Rightarrow> string \<Rightarrow> who \<Rightarrow> jsval \<Rightarrow> nat \<Rightarrow> event \<times> nat" where
  "createAgentSessionEvent E ty w data =
     createCanonicalEvent E (for_whom (w\<lparr>who_runId := None, who_correlationId := None\<rparr>)
       (canonical_input ty ''agent''
         (if ty = ''agent.session_start'' then ''agent:session:start'' else ''agent:session:end'') ''internal-hook'')
       \<lparr>ci_data := jnullish data (JObj [])\<rparr>)"

record spawn_context =
  sx_parentAgentId :: "string option"
  sx_childAgentId :: "string option"
  sx_parentSessionId :: "string option"
  sx_parentSessionKey :: "string option"
  sx_childSessionKey :: "string option"
  sx_runId :: "string option"
  sx_mode :: "string option"

definition createAgentSubAgentSpawnEvent :: "event_env \<Rightarrow> spawn_context \<Rightarrow> jsobj \<Rightarrow> nat \<Rightarrow> event \<times> nat" where
  "createAgentSubAgentSpawnEvent E c data =
     createCanonicalEvent E ((canonical_input ''agent.sub_agent_spawn'' ''synthetic'' ''agent.sub_agent_spawn'' ''synthetic'')
       \<lparr>ci_agentId := sx_parentAgentId c, ci_sessionId := sx_parentSessionId c, ci_sessionKey := sx_parentSessionKey c,
        ci_runId := sx_runId c,
        ci_data := JObj (spread [(''parentAgentId'', of_str (sx_parentAgentId c)), (''childAgentId'', of_str (sx_childAgentId c)),
          (''parentSessionId'', of_str (sx_parentSessionId c)), (''parentSessionKey'', of_str (sx_parentSessionKey c)),
          (''childSessionKey'', of_str (sx_childSessionKey c)), (''mode'', of_str (sx_mode c))] data)\<rparr>)"

section \<open>Subagents (hooks/subagent-hooks.ts)\<close>

definition subagent_input :: "string \<Rightarrow> string \<Rightarrow> who \<Rightarrow> jsobj \<Rightarrow> CanonicalEventInput" where
  "subagent_input ty name w data =
     for_whom (w\<lparr>who_correlationId := None\<rparr>) (canonical_input ty ''subagent'' name ''plugin-hook'')\<lparr>ci_data := JObj data\<rparr>"

definition createSubagentSpawningEvent :: "event_env \<Rightarrow> who \<Rightarrow> string option \<Rightarrow> jsobj \<Rightarrow> nat \<Rightarrow> event \<times> nat" where
  "createSubagentSpawningEvent E w childSessionKey data =
     createCanonicalEvent E (subagent_input ''subagent.spawning'' ''subagent_spawning'' w
       (spread [(''childSessionKey'', of_str childSessionKey)] data))"

definition createSubagentSpawnedEvent :: "event_env \<Rightarrow> who \<Rightarrow> string option \<Rightarrow> jsobj \<Rightarrow> nat \<Rightarrow> event \<times> nat" where
  "createSubagentSpawnedEvent E w childSessionKey data =
     createCanonicalEvent E (subagent_input ''subagent.spawned'' ''subagent_spawned'' w
       (spread [(''childSessionKey'', of_str childSessionKey)] data))"

definition createSubagentEndedEvent :: "event_env \<Rightarrow> who \<Rightarrow> string option \<Rightarrow> string option \<Rightarrow> jsobj \<Rightarrow> nat \<Rightarrow> event \<times> nat" where
  "createSubagentEndedEvent E w childSessionKey endReason data =
     createCanonicalEvent E (subagent_input ''subagent.ended'' ''subagent_ended'' w
       (spread data [(''childSessionKey'', of_str childSessionKey), (''endReason'', JStr (default_to ''unknown'' endReason))]))"

definition createSubagentIdleEvent :: "event_env \<Rightarrow> spawn_context \<Rightarrow> int \<Rightarrow> string \<Rightarrow> nat \<Rightarrow> event \<times> nat" where
  "createSubagentIdleEvent E c idleForMs lastActiveAt =
     createCanonicalEvent E ((canonical_input ''subagent.idle'' ''synthetic'' ''subagent.idle'' ''synthetic'')
       \<lparr>ci_agentId := nullish (sx_childAgentId c) (sx_parentAgentId c), ci_sessionId := sx_parentSessionId c,
        ci_sessionKey := sx_parentSessionKey c, ci_runId := sx_runId c,
        ci_data := JObj [(''subagentKey'', of_str (sx_childSessionKey c)), (''parentAgentId'', of_str (sx_parentAgentId c)),
          (''parentSessionId'', of_str (sx_parentSessionId c)), (''parentSessionKey'', of_str (sx_parentSessionKey c)),
          (''childAgentId'', of_str (sx_childAgentId c)), (''childSessionKey'', of_str (sx_childSessionKey c)),
          (''mode'', of_str (sx_mode c)), (''idleForMs'', JNum idleForMs), (''lastActiveAt'', JStr lastActiveAt)]\<rparr>)"

end
