(* ===== verification/LifecycleEvents.thy ===== *)
theory LifecycleEvents imports EventBuilders begin

text \<open>
  The builders of the remaining events: messages, commands, gateway, sessions, compaction and
  agent runs (\<open>src/hooks/message-hooks.ts\<close>, \<open>command-hooks.ts\<close>, \<open>gateway-hooks.ts\<close>,
  \<open>session-hooks.ts\<close>, \<open>session-compaction-hooks.ts\<close>, \<open>agent-run-hooks.ts\<close>), and the shaping of the
  payloads by privacy mode (\<open>modern-lifecycle-payloads.ts\<close>).
\<close>

section \<open>Messages (hooks/message-hooks.ts)\<close>

record ParsedHook =
  ph_sessionKey :: "string option"
  ph_sessionId :: "string option"
  ph_context :: jsobj

definition parseHook :: "jsval \<Rightarrow> ParsedHook option" where
  "parseHook hookEvent =
     (if \<not> isRecord hookEvent then None
      else
        let ctx = jprop hookEvent ''context'' in
        Some \<lparr> ph_sessionKey = readString (jprop hookEvent ''sessionKey''),
               ph_sessionId = nullish (readString (jprop hookEvent ''sessionId'')) (readString (jprop hookEvent ''sessionKey'')),
               ph_context = (if isRecord ctx then obj_entries ctx else []) \<rparr>)"

definition message_keys :: "string list" where
  "message_keys =
     [''provider'', ''surface'', ''from'', ''to'', ''content'', ''channelId'', ''accountId'', ''conversationId'',
      ''threadId'', ''messageId'', ''senderId'', ''senderName'', ''isGroup'', ''groupId'', ''newContent'',
      ''originalContent'', ''success'', ''error'', ''transcript'', ''normalizedText'', ''metadata'']"

definition buildMessageData :: "jsobj \<Rightarrow> jsobj" where
  "buildMessageData ctx =
     (let data = map (\<lambda>k. (k, oget ctx k)) (filter (mhas ctx) message_keys) in
      if mhas data ''channelId'' then data else mput ''channelId'' (JStr ''unknown'') data)"

text \<open>\<open>with_timestamp\<close>: whether the builder passes the hook's timestamp on as metadata.\<close>

definition message_input :: "string \<Rightarrow> string \<Rightarrow> bool \<Rightarrow> jsobj \<Rightarrow> CanonicalEventInput" where
  "message_input ty name with_timestamp ctx =
     (canonical_input ty ''message'' name ''internal-hook'')
       \<lparr>ci_sessionId := ostr ctx ''sessionId'', ci_sessionKey := ostr ctx ''sessionKey'',
        ci_data := JObj (buildMessageData ctx),
        ci_metadata := (if with_timestamp then JObj [(''hookTimestamp'', of_num (readNumber (oget ctx ''timestamp'')))] else JUndef)\<rparr>"

definition createMessageSentEvent :: "event_env \<Rightarrow> jsobj \<Rightarrow> nat \<Rightarrow> event \<times> nat" where
  "createMessageSentEvent E ctx =
     createCanonicalEvent E ((message_input ''message.sent'' ''message:sent'' True ctx)
       \<lparr>ci_result := oget ctx ''success'',
        ci_error := (if truthy_str (ostr ctx ''error'')
          then JObj [(''message'', of_str (ostr ctx ''error'')), (''kind'', JStr ''unknown'')] else JUndef)\<rparr>)"

definition createMessageReceivedEvent :: "event_env \<Rightarrow> jsobj \<Rightarrow> nat \<Rightarrow> event \<times> nat" where
  "createMessageReceivedEvent E ctx = createCanonicalEvent E (message_input ''message.received'' ''message:received'' True ctx)"

definition createMessageTranscribedEvent :: "event_env \<Rightarrow> jsobj \<Rightarrow> nat \<Rightarrow> event \<times> nat" where
  "createMessageTranscribedEvent E ctx =
     createCanonicalEvent E (message_input ''message.transcribed'' ''message:transcribed'' True ctx)"

definition createMessagePreprocessedEvent :: "event_env \<Rightarrow> jsobj \<Rightarrow> nat \<Rightarrow> event \<times> nat" where
  "createMessagePreprocessedEvent E ctx =
     createCanonicalEvent E (message_input ''message.preprocessed'' ''message:preprocessed'' True ctx)"

definition createMessageEditedEvent :: "event_env \<Rightarrow> jsobj \<Rightarrow> nat \<Rightarrow> event \<times> nat" where
  "createMessageEditedEvent E ctx = createCanonicalEvent E (message_input ''message.edited'' ''message:edited'' False ctx)"

definition createMessageDeletedEvent :: "event_env \<Rightarrow> jsobj \<Rightarrow> nat \<Rightarrow> event \<times> nat" where
  "createMessageDeletedEvent E ctx = createCanonicalEvent E (message_input ''message.deleted'' ''message:deleted'' False ctx)"

definition message_context :: "ParsedHook \<Rightarrow> jsobj" where
  "message_context p =
     spread [(''sessionId'', of_str (ph_sessionId p)), (''sessionKey'', of_str (ph_sessionKey p))] (buildMessageData (ph_context p))"

text \<open>None when the source returns null; the keys must be non-empty strings of the hook's context.\<close>

definition from_message_hook ::
  "string list \<Rightarrow> (jsobj \<Rightarrow> nat \<Rightarrow> event \<times> nat) \<Rightarrow> jsval \<Rightarrow> nat \<Rightarrow> (event \<times> nat) option" where
  "from_message_hook required create hookEvent n =
     (case parseHook hookEvent of
        None \<Rightarrow> None
      | Some p \<Rightarrow>
          if list_ex (\<lambda>k. \<not> truthy_str (ostr (ph_context p) k)) required then None
          else Some (create (message_context p) n))"

definition fromOpenClawMessageSent :: "event_env \<Rightarrow> jsval \<Rightarrow> nat \<Rightarrow> (event \<times> nat) option" where
  "fromOpenClawMessageSent E = from_message_hook [''to'', ''content'', ''channelId''] (createMessageSentEvent E)"

definition fromOpenClawMessageReceived :: "event_env \<Rightarrow> jsval \<Rightarrow> nat \<Rightarrow> (event \<times> nat) option" where
  "fromOpenClawMessageReceived E = from_message_hook [''from'', ''content'', ''channelId''] (createMessageReceivedEvent E)"

definition fromOpenClawMessageTranscribed :: "event_env \<Rightarrow> jsval \<Rightarrow> nat \<Rightarrow> (event \<times> nat) option" where
  "fromOpenClawMessageTranscribed E = from_message_hook [] (createMessageTranscribedEvent E)"

definition fromOpenClawMessagePreprocessed :: "event_env \<Rightarrow> jsval \<Rightarrow> nat \<Rightarrow> (event \<times> nat) option" where
  "fromOpenClawMessagePreprocessed E = from_message_hook [] (createMessagePreprocessedEvent E)"

section \<open>Commands and gateway\<close>

definition createCommandEvent ::
  "event_env \<Rightarrow> string \<Rightarrow> who \<Rightarrow> string option \<Rightarrow> string option \<Rightarrow> jsobj \<Rightarrow> nat \<Rightarrow> event \<times> nat" where
  "createCommandEvent E ty w commandSource senderId data =
     createCanonicalEvent E (for_whom (w\<lparr>who_runId := None, who_correlationId := None\<rparr>)
       (canonical_input ty ''command''
         (if ty = ''command.new'' then ''command:new'' else if ty = ''command.reset'' then ''command:reset'' else ''command:stop'')
         ''internal-hook'')
       \<lparr>ci_data := JObj (spread [(''commandSource'', of_str commandSource), (''senderId'', of_str senderId)] data)\<rparr>)"

definition createGatewayStartupEvent :: "event_env \<Rightarrow> int option \<Rightarrow> jsobj \<Rightarrow> nat \<Rightarrow> event \<times> nat" where
  "createGatewayStartupEvent E port data =
     createCanonicalEvent E ((canonical_input ''gateway.startup'' ''gateway'' ''gateway:startup'' ''internal-hook'')
       \<lparr>ci_data := JObj (spread [(''port'', of_num port)] data)\<rparr>)"

definition createGatewayPluginStartEvent :: "event_env \<Rightarrow> int option \<Rightarrow> jsobj \<Rightarrow> nat \<Rightarrow> event \<times> nat" where
  "createGatewayPluginStartEvent E port data =
     createCanonicalEvent E ((canonical_input ''gateway.start'' ''gateway'' ''gateway_start'' ''plugin-hook'')
       \<lparr>ci_data := JObj (spread [(''port'', of_num port)] data)\<rparr>)"

definition createGatewayPluginStopEvent :: "event_env \<Rightarrow> string option \<Rightarrow> jsobj \<Rightarrow> nat \<Rightarrow> event \<times> nat" where
  "createGatewayPluginStopEvent E reason data =
     createCanonicalEvent E ((canonical_input ''gateway.stop'' ''gateway'' ''gateway_stop'' ''plugin-hook'')
       \<lparr>ci_data := JObj (spread [(''reason'', of_str reason)] data)\<rparr>)"

section \<open>Sessions (hooks/session-hooks.ts)\<close>

definition session_input :: "string \<Rightarrow> string \<Rightarrow> who \<Rightarrow> jsobj \<Rightarrow> CanonicalEventInput" where
  "session_input ty name w data =
     for_whom (w\<lparr>who_runId := None\<rparr>) (canonical_input ty ''session'' name ''plugin-hook'')\<lparr>ci_data := JObj data\<rparr>"

definition session_identity :: "who \<Rightarrow> jsobj" where
  "session_identity w =
     [(''sessionId'', of_str (who_sessionId w)), (''sessionKey'', of_str (who_sessionKey w)), (''agentId'', of_str (who_agentId w))]"

definition createSessionStartEvent :: "event_env \<Rightarrow> who \<Rightarrow> string option \<Rightarrow> jsobj \<Rightarrow> nat \<Rightarrow> event \<times> nat" where
  "createSessionStartEvent E w resumedFrom metadata =
     createCanonicalEvent E (session_input ''session.start'' ''session_start'' w
       (spread (session_identity w @ [(''resumedFrom'', of_str resumedFrom)]) metadata))"

definition createSessionEndEvent :: "event_env \<Rightarrow> who \<Rightarrow> int option \<Rightarrow> int option \<Rightarrow> jsobj \<Rightarrow> nat \<Rightarrow> event \<times> nat" where
  "createSessionEndEvent E w messageCount durationMs metadata =
     createCanonicalEvent E (session_input ''session.end'' ''session_end'' w
       (spread (session_identity w @ [(''messageCount'', of_num messageCount), (''durationMs'', of_num durationMs)]) metadata))"

text \<open>The legacy events use the session key as the id when there is none.\<close>

definition legacy_who :: "who \<Rightarrow> who" where
  "legacy_who w = w\<lparr>who_sessionId := nullish (who_sessionId w) (who_sessionKey w)\<rparr>"

definition legacy_identity :: "who \<Rightarrow> string option \<Rightarrow> jsobj" where
  "legacy_identity w parentSessionId =
     [(''sessionKey'', of_str (who_sessionKey w)), (''parentSessionId'', of_str parentSessionId), (''agentId'', of_str (who_agentId w))]"

definition createSessionSpawnedEvent ::
  "event_env \<Rightarrow> who \<Rightarrow> string option \<Rightarrow> string option \<Rightarrow> string option \<Rightarrow> string option \<Rightarrow> nat \<Rightarrow> event \<times> nat" where
  "createSessionSpawnedEvent E w parentSessionId workspaceDir channel requester =
     createCanonicalEvent E (session_input ''session.spawned'' ''session_start'' (legacy_who w)
       (legacy_identity w parentSessionId @
        [(''metadata'', JObj [(''workspaceDir'', of_str workspaceDir), (''channel'', of_str channel), (''requester'', of_str requester)])]))"

definition createSessionCompletedEvent :: "event_env \<Rightarrow> who \<Rightarrow> string option \<Rightarrow> nat \<Rightarrow> event \<times> nat" where
  "createSessionCompletedEvent E w parentSessionId =
     createCanonicalEvent E (session_input ''session.completed'' ''session_end'' (legacy_who w) (legacy_identity w parentSessionId))"

definition createSessionErrorEvent ::
  "event_env \<Rightarrow> who \<Rightarrow> string \<Rightarrow> string option \<Rightarrow> string option \<Rightarrow> nat \<Rightarrow> event \<times> nat" where
  "createSessionErrorEvent E w error stackTrace parentSessionId =
     createCanonicalEvent E ((session_input ''session.error'' ''session_end'' (legacy_who w)
       (legacy_identity w parentSessionId @ [(''error'', JStr error), (''stackTrace'', of_str stackTrace)]))
       \<lparr>ci_error := JObj [(''message'', JStr error), (''stack'', of_str stackTrace), (''kind'', JStr ''agent'')]\<rparr>)"

section \<open>Payloads by privacy mode (hooks/modern-lifecycle-payloads.ts)\<close>

definition message_role :: "jsval \<Rightarrow> string" where
  "message_role m =
     (if \<not> isRecord m then ''unknown''
      else case readString (jprop m ''role'') of
        None \<Rightarrow> ''unknown'' | Some role \<Rightarrow> if non_blank role then role else ''unknown'')"

definition count_role :: "string \<Rightarrow> jsobj \<Rightarrow> jsobj" where
  "count_role role counts = mput role (JNum (default_to 0 (readNumber (oget counts role)) + 1)) counts"

definition summarizeMessageRoles :: "jsval list \<Rightarrow> jsobj option" where
  "summarizeMessageRoles messages =
     (if length messages = 0 then None else Some (fold (\<lambda>m. count_role (message_role m)) messages []))"

definition buildPromptMetrics :: "string \<Rightarrow> jsobj" where
  "buildPromptMetrics prompt = [(''promptLength'', JNum (int (length prompt)))]"

definition buildAssistantTextLengths :: "string list \<Rightarrow> jsval option" where
  "buildAssistantTextLengths assistantTexts =
     (if length assistantTexts = 0 then None else Some (JArr (map (\<lambda>v. JNum (int (length v))) assistantTexts)))"

definition role_entry :: "string \<Rightarrow> jsobj option \<Rightarrow> jsobj" where
  "role_entry k roles = (case roles of None \<Rightarrow> [] | Some r \<Rightarrow> [(k, JObj r)])"

definition full_payload :: "ModernLifecyclePrivacyConfig \<Rightarrow> bool" where
  "full_payload p \<longleftrightarrow> pv_payloadMode p = ''full''"

definition buildBeforeModelResolveData :: "ModernLifecyclePrivacyConfig \<Rightarrow> string \<Rightarrow> jsobj" where
  "buildBeforeModelResolveData p prompt =
     (if full_payload p then spread [(''prompt'', JStr prompt)] (buildPromptMetrics prompt) else buildPromptMetrics prompt)"

definition buildBeforePromptBuildData :: "ModernLifecyclePrivacyConfig \<Rightarrow> string \<Rightarrow> jsval list \<Rightarrow> jsobj" where
  "buildBeforePromptBuildData p prompt messages =
     (let shared = buildPromptMetrics prompt @ [(''messageCount'', JNum (int (length messages)))] @
            role_entry ''messageRoles'' (summarizeMessageRoles messages) in
      if full_payload p then spread [(''prompt'', JStr prompt), (''messages'', JArr messages)] shared else shared)"

definition non_empty_opt :: "string option \<Rightarrow> bool" where
  "non_empty_opt v = (case v of None \<Rightarrow> False | Some s \<Rightarrow> length s > 0)"

definition buildLlmInputData ::
  "ModernLifecyclePrivacyConfig \<Rightarrow> string \<Rightarrow> string \<Rightarrow> string option \<Rightarrow> string \<Rightarrow> jsval list \<Rightarrow> int \<Rightarrow> jsobj \<Rightarrow> jsobj" where
  "buildLlmInputData p provider model systemPrompt prompt historyMessages imagesCount audit =
     (let shared = spread ([(''provider'', JStr provider), (''model'', JStr model)] @ buildPromptMetrics prompt @
            [(''historyMessageCount'', JNum (int (length historyMessages))), (''imagesCount'', JNum imagesCount),
             (''hasSystemPrompt'', JBool (non_empty_opt systemPrompt))] @
            role_entry ''historyMessageRoles'' (summarizeMessageRoles historyMessages)) audit
      in if full_payload p
         then spread shared [(''systemPrompt'', of_str systemPrompt), (''prompt'', JStr prompt), (''historyMessages'', JArr historyMessages)]
         else shared)"

definition buildLlmOutputData ::
  "ModernLifecyclePrivacyConfig \<Rightarrow> string \<Rightarrow> string \<Rightarrow> string list \<Rightarrow> jsval \<Rightarrow> jsval \<Rightarrow> jsobj" where
  "buildLlmOutputData p provider model assistantTexts lastAssistant usage =
     (let shared = [(''provider'', JStr provider), (''model'', JStr model),
             (''assistantTextCount'', JNum (int (length assistantTexts))), (''hasLastAssistant'', JBool (lastAssistant \<noteq> JUndef))] @
            (if js_truthy usage then [(''usage'', usage)] else []) @
            (case buildAssistantTextLengths assistantTexts of None \<Rightarrow> [] | Some ls \<Rightarrow> [(''assistantTextLengths'', ls)])
      in if full_payload p then spread shared [(''assistantTexts'', strs assistantTexts), (''lastAssistant'', lastAssistant)] else shared)"

definition buildAgentEndData ::
  "ModernLifecyclePrivacyConfig \<Rightarrow> jsval list \<Rightarrow> bool \<Rightarrow> string option \<Rightarrow> int option \<Rightarrow> jsobj" where
  "buildAgentEndData p messages success error durationMs =
     (let shared = [(''messageCount'', JNum (int (length messages))), (''success'', JBool success), (''error'', of_str error),
            (''durationMs'', of_num durationMs)] @ role_entry ''messageRoles'' (summarizeMessageRoles messages) in
      if full_payload p then spread shared [(''messages'', JArr messages)] else shared)"

definition buildBeforeCompactionData ::
  "ModernLifecyclePrivacyConfig \<Rightarrow> int \<Rightarrow> int option \<Rightarrow> int option \<Rightarrow> jsval list option \<Rightarrow> string option \<Rightarrow> jsobj" where
  "buildBeforeCompactionData p messageCount compactingCount tokenCount messages sessionFile =
     (let shared = [(''messageCount'', JNum messageCount), (''compactingCount'', of_num compactingCount), (''tokenCount'', of_num tokenCount),
            (''hasSessionFile'', JBool (non_empty_opt sessionFile))] @
            role_entry ''messageRoles'' (summarizeMessageRoles (default_to [] messages)) in
      if full_payload p
      then spread shared [(''messages'', case messages of None \<Rightarrow> JUndef | Some ms \<Rightarrow> JArr ms), (''sessionFile'', of_str sessionFile)]
      else shared)"

definition buildAfterCompactionData ::
  "ModernLifecyclePrivacyConfig \<Rightarrow> int \<Rightarrow> int \<Rightarrow> int option \<Rightarrow> string option \<Rightarrow> jsobj" where
  "buildAfterCompactionData p messageCount compactedCount tokenCount sessionFile =
     (let shared = [(''messageCount'', JNum messageCount), (''compactedCount'', JNum compactedCount), (''tokenCount'', of_num tokenCount),
            (''hasSessionFile'', JBool (non_empty_opt sessionFile))] in
      if full_payload p then spread shared [(''sessionFile'', of_str sessionFile)] else shared)"

section \<open>Compaction and agent runs\<close>

definition lifecycle_input :: "string \<Rightarrow> string \<Rightarrow> string \<Rightarrow> who \<Rightarrow> jsobj \<Rightarrow> jsval \<Rightarrow> CanonicalEventInput" where
  "lifecycle_input ty category name w data metadata =
     for_whom w (canonical_input ty category name ''plugin-hook'')\<lparr>ci_data := JObj data, ci_metadata := metadata\<rparr>"

definition createBeforeCompactionEvent ::
  "event_env \<Rightarrow> ModernLifecyclePrivacyConfig \<Rightarrow> who \<Rightarrow> jsval \<Rightarrow> int \<Rightarrow> int option \<Rightarrow> int option \<Rightarrow> jsval list option \<Rightarrow>
   string option \<Rightarrow> nat \<Rightarrow> event \<times> nat" where
  "createBeforeCompactionEvent E p w metadata messageCount compactingCount tokenCount messages sessionFile =
     createCanonicalEvent E (lifecycle_input ''session.before_compaction'' ''session'' ''before_compaction'' w
       (buildBeforeCompactionData p messageCount compactingCount tokenCount messages sessionFile) metadata)"

definition createAfterCompactionEvent ::
  "event_env \<Rightarrow> ModernLifecyclePrivacyConfig \<Rightarrow> who \<Rightarrow> jsval \<Rightarrow> int \<Rightarrow> int \<Rightarrow> int option \<Rightarrow> string option \<Rightarrow> nat \<Rightarrow> event \<times> nat" where
  "createAfterCompactionEvent E p w metadata messageCount compactedCount tokenCount sessionFile =
     createCanonicalEvent E (lifecycle_input ''session.after_compaction'' ''session'' ''after_compaction'' w
       (buildAfterCompactionData p messageCount compactedCount tokenCount sessionFile) metadata)"

definition createBeforeModelResolveEvent ::
  "event_env \<Rightarrow> ModernLifecyclePrivacyConfig \<Rightarrow> who \<Rightarrow> jsval \<Rightarrow> string \<Rightarrow> nat \<Rightarrow> event \<times> nat" where
  "createBeforeModelResolveEvent E p w metadata prompt =
     createCanonicalEvent E (lifecycle_input ''agent.before_model_resolve'' ''agent'' ''before_model_resolve'' w
       (buildBeforeModelResolveData p prompt) metadata)"

definition createBeforePromptBuildEvent ::
  "event_env \<Rightarrow> ModernLifecyclePrivacyConfig \<Rightarrow> who \<Rightarrow> jsval \<Rightarrow> string \<Rightarrow> jsval list \<Rightarrow> nat \<Rightarrow> event \<times> nat" where
  "createBeforePromptBuildEvent E p w metadata prompt messages =
     createCanonicalEvent E (lifecycle_input ''agent.before_prompt_build'' ''agent'' ''before_prompt_build'' w
       (buildBeforePromptBuildData p prompt messages) metadata)"

definition createLlmInputEvent ::
  "event_env \<Rightarrow> ModernLifecyclePrivacyConfig \<Rightarrow> who \<Rightarrow> jsval \<Rightarrow> string \<Rightarrow> string \<Rightarrow> string option \<Rightarrow> string \<Rightarrow> jsval list \<Rightarrow> int \<Rightarrow>
   jsobj \<Rightarrow> nat \<Rightarrow> event \<times> nat" where
  "createLlmInputEvent E p w metadata provider model systemPrompt prompt historyMessages imagesCount audit =
     createCanonicalEvent E (lifecycle_input ''agent.llm_input'' ''agent'' ''llm_input'' w
       (buildLlmInputData p provider model systemPrompt prompt historyMessages imagesCount audit) metadata)"

definition createLlmOutputEvent ::
  "event_env \<Rightarrow> ModernLifecyclePrivacyConfig \<Rightarrow> who \<Rightarrow> jsval \<Rightarrow> string \<Rightarrow> string \<Rightarrow> string list \<Rightarrow> jsval \<Rightarrow> jsval \<Rightarrow> nat \<Rightarrow> event \<times> nat" where
  "createLlmOutputEvent E p w metadata provider model assistantTexts lastAssistant usage =
     createCanonicalEvent E (lifecycle_input ''agent.llm_output'' ''agent'' ''llm_output'' w
       (buildLlmOutputData p provider model assistantTexts lastAssistant usage) metadata)"

definition createAgentEndEvent ::
  "event_env \<Rightarrow> ModernLifecyclePrivacyConfig \<Rightarrow> who \<Rightarrow> jsval \<Rightarrow> jsval list \<Rightarrow> bool \<Rightarrow> string option \<Rightarrow> int option \<Rightarrow> nat \<Rightarrow> event \<times> nat" where
  "createAgentEndEvent E p w metadata messages success error durationMs =
     createCanonicalEvent E ((lifecycle_input ''agent.end'' ''agent'' ''agent_end'' w
       (buildAgentEndData p messages success error durationMs) metadata)
       \<lparr>ci_error := (if success \<or> \<not> truthy_str error then JUndef
          else JObj [(''message'', of_str error), (''kind'', JStr ''agent'')])\<rparr>)"

section \<open>Every event is well formed\<close>

definition sample_event_env :: event_env where
  "sample_event_env = \<lparr> ev_uuid = (\<lambda>n. ''id'' @ show_nat n), ev_nowIso = ''2024-01-01T00:00:00.000Z'' \<rparr>"

definition no_one :: who where
  "no_one = \<lparr> who_agentId = None, who_sessionId = None, who_sessionKey = None, who_runId = None, who_correlationId = None \<rparr>"

text \<open>The builders, applied to anything.\<close>

inductive builds :: "event_env \<Rightarrow> (nat \<Rightarrow> event \<times> nat) \<Rightarrow> bool" for E where
  "builds E (createToolCalledEvent E c)"
| "builds E (createToolCompletedEvent E c res d)"
| "ty \<in> {''tool.guard.matched'', ''tool.guard.allowed'', ''tool.guard.blocked''} \<Longrightarrow> builds E (createToolGuardEvent E ty c g)"
| "builds E (createToolErrorEvent E c err st)"
| "builds E (createToolResultPersistEvent E c m syn)"
| "builds E (createAgentStatusEvent E w s a ad src md)"
| "builds E (createAgentActivityEvent E w ax)"
| "is_nullish d \<or> isRecord d \<Longrightarrow> builds E (createAgentBootstrapEvent E w d)"
| "is_nullish d \<or> isRecord d \<Longrightarrow> builds E (createAgentErrorEvent E w err st d)"
| "ty \<in> {''agent.session_start'', ''agent.session_end''} \<Longrightarrow> is_nullish d \<or> isRecord d \<Longrightarrow> builds E (createAgentSessionEvent E ty w d)"
| "builds E (createAgentSubAgentSpawnEvent E sc kvs)"
| "builds E (createSubagentSpawningEvent E w k kvs)"
| "builds E (createSubagentSpawnedEvent E w k kvs)"
| "builds E (createSubagentEndedEvent E w k r kvs)"
| "builds E (createSubagentIdleEvent E sc i la)"
| "builds E (createMessageSentEvent E kvs)"
| "builds E (createMessageReceivedEvent E kvs)"
| "builds E (createMessageTranscribedEvent E kvs)"
| "builds E (createMessagePreprocessedEvent E kvs)"
| "builds E (createMessageEditedEvent E kvs)"
| "builds E (createMessageDeletedEvent E kvs)"
| "ty \<in> {''command.new'', ''command.reset'', ''command.stop''} \<Longrightarrow> builds E (createCommandEvent E ty w src sender kvs)"
| "builds E (createGatewayStartupEvent E port kvs)"
| "builds E (createGatewayPluginStartEvent E port kvs)"
| "builds E (createGatewayPluginStopEvent E k kvs)"
| "builds E (createSessionStartEvent E w k kvs)"
| "builds E (createSessionEndEvent E w mc d kvs)"
| "builds E (createSessionSpawnedEvent E w k ws ch rq)"
| "builds E (createSessionCompletedEvent E w k)"
| "builds E (createSessionErrorEvent E w err st k)"
| "builds E (createBeforeCompactionEvent E p w md mc1 mc2 tc msgs sf)"
| "builds E (createAfterCompactionEvent E p w md mc1 mc3 tc sf)"
| "builds E (createBeforeModelResolveEvent E p w md prompt)"
| "builds E (createBeforePromptBuildEvent E p w md prompt ms)"
| "builds E (createLlmInputEvent E p w md provider model sp prompt ms ic kvs)"
| "builds E (createLlmOutputEvent E p w md provider model texts la usage)"
| "builds E (createAgentEndEvent E p w md ms ok er d)"

lemma canonical_wellformed:
  assumes "isEventType (ci_type i)" "is_nullish (ci_data i) \<or> isRecord (ci_data i)"
  shows "isOpenClawEvent (JObj (fst (createCanonicalEvent E i n))) \<and>
    (\<exists>ty. oget (fst (createCanonicalEvent E i n)) ''type'' = JStr ty \<and> isEventType ty) \<and>
    oget (fst (createCanonicalEvent E i n)) ''eventId'' = JStr (ev_uuid E n) \<and>
    (\<exists>c. oget (fst (createCanonicalEvent E i n)) ''correlationId'' = JStr c) \<and>
    snd (createCanonicalEvent E i n) > n"
  using assms
  by (auto simp: createCanonicalEvent_def isOpenClawEvent_def Let_def jnullish_def split: option.splits)

lemma ci_simps [simp]:
  "ci_type (for_whom w i) = ci_type i" "ci_data (for_whom w i) = ci_data i"
  "ci_type (canonical_input ty c nm src) = ty"
  by (simp_all add: for_whom_def canonical_input_def)

lemmas builder_defs =
  createToolCalledEvent_def createToolCompletedEvent_def createToolGuardEvent_def createToolErrorEvent_def
  createToolResultPersistEvent_def tool_input_def createAgentStatusEvent_def createAgentActivityEvent_def
  createAgentBootstrapEvent_def createAgentErrorEvent_def createAgentSessionEvent_def createAgentSubAgentSpawnEvent_def
  createSubagentSpawningEvent_def createSubagentSpawnedEvent_def createSubagentEndedEvent_def createSubagentIdleEvent_def
  subagent_input_def createMessageSentEvent_def createMessageReceivedEvent_def createMessageTranscribedEvent_def
  createMessagePreprocessedEvent_def createMessageEditedEvent_def createMessageDeletedEvent_def message_input_def
  createCommandEvent_def createGatewayStartupEvent_def createGatewayPluginStartEvent_def createGatewayPluginStopEvent_def
  createSessionStartEvent_def createSessionEndEvent_def createSessionSpawnedEvent_def createSessionCompletedEvent_def
  createSessionErrorEvent_def session_input_def createBeforeCompactionEvent_def createAfterCompactionEvent_def
  createBeforeModelResolveEvent_def createBeforePromptBuildEvent_def createLlmInputEvent_def createLlmOutputEvent_def
  createAgentEndEvent_def lifecycle_input_def

lemma built_event_types [simp]:
  "list_all isEventType
    [''tool.called'', ''tool.completed'', ''tool.error'', ''tool.result_persist'', ''tool.guard.matched'',
     ''tool.guard.allowed'', ''tool.guard.blocked'', ''agent.status'', ''agent.activity'', ''agent.bootstrap'', ''agent.error'',
     ''agent.session_start'', ''agent.session_end'', ''agent.sub_agent_spawn'', ''subagent.spawning'',
     ''subagent.spawned'', ''subagent.ended'', ''subagent.idle'', ''message.sent'', ''message.received'',
     ''message.transcribed'', ''message.preprocessed'', ''message.edited'', ''message.deleted'', ''command.new'',
     ''command.reset'', ''command.stop'', ''gateway.startup'', ''gateway.start'', ''gateway.stop'', ''session.start'', ''session.end'',
     ''session.spawned'', ''session.completed'', ''session.error'', ''session.before_compaction'',
     ''session.after_compaction'', ''agent.before_model_resolve'', ''agent.before_prompt_build'', ''agent.llm_input'',
     ''agent.llm_output'', ''agent.end'']"
  by code_simp

lemmas event_type_facts = built_event_types [unfolded list.pred_inject conj_assoc]

lemma data_or_empty [simp]: "is_nullish d \<or> isRecord d \<Longrightarrow> isRecord (jnullish d (JObj []))"
  by (auto simp: jnullish_def is_nullish_def)

lemma canonical_built:
  assumes "isEventType (ci_type i)" "isRecord (ci_data i)"
  shows "\<exists>i'. createCanonicalEvent E i = createCanonicalEvent E i' \<and> isEventType (ci_type i') \<and> isRecord (ci_data i')"
  using assms by blast

lemma builds_canonical:
  assumes "builds E b"
  shows "\<exists>i. b = createCanonicalEvent E i \<and> isEventType (ci_type i) \<and> isRecord (ci_data i)"
  using assms
  by cases
    (simp_all only: builder_defs, (rule canonical_built; use event_type_facts in auto)+)

text \<open>
  C25. Whatever a builder is applied to, the event it makes passes isOpenClawEvent, so that a
  relay, the queue and the bridge accept it; its type is one of the declared event types,
  its id is the next of the supply, it has a correlation id, and the supply moves on.
\<close>

theorem built_events_wellformed:
  assumes "builds E b"
  shows "isOpenClawEvent (JObj (fst (b n))) \<and> (\<exists>ty. oget (fst (b n)) ''type'' = JStr ty \<and> isEventType ty) \<and>
    oget (fst (b n)) ''eventId'' = JStr (ev_uuid E n) \<and> (\<exists>c. oget (fst (b n)) ''correlationId'' = JStr c) \<and> snd (b n) > n"
  using builds_canonical [OF assms] by (auto simp: canonical_wellformed)

theorem built_events_wellformed_witness:
  "isOpenClawEvent (JObj (fst (createAgentBootstrapEvent sample_event_env no_one JUndef 0)))"
  using built_events_wellformed [OF builds.intros(8), of JUndef sample_event_env no_one 0] by (simp add: is_nullish_def)

section \<open>What the metadata mode reveals\<close>

lemma same_roles:
  assumes "map message_role ms = map message_role ms'"
  shows "summarizeMessageRoles ms = summarizeMessageRoles ms'" "length ms = length ms'"
proof -
  show l: "length ms = length ms'" using assms by (metis length_map)
  have "fold (\<lambda>m. count_role (message_role m)) xs acc = fold count_role (map message_role xs) acc" for xs acc
    by (induction xs arbitrary: acc) simp_all
  then show "summarizeMessageRoles ms = summarizeMessageRoles ms'" using assms l by (simp add: summarizeMessageRoles_def)
qed

lemma same_lengths:
  assumes "map length texts = map length texts'"
  shows "buildAssistantTextLengths texts = buildAssistantTextLengths texts'" "length texts = length texts'"
proof -
  show l: "length texts = length texts'" using assms by (metis length_map)
  have "map (\<lambda>v. JNum (int (length v))) texts = map (\<lambda>v. JNum (int (length v))) texts'"
    using arg_cong [OF assms, of "map (\<lambda>n. JNum (int n))"] by (simp add: o_def)
  then show "buildAssistantTextLengths texts = buildAssistantTextLengths texts'" using l by (simp add: buildAssistantTextLengths_def)
qed

text \<open>
  C26. In the metadata mode two runs that differ only in the content of prompts, messages,
  assistant texts, the system prompt and the session file, with the same lengths and roles,
  emit the same lifecycle events: what an observer of the events learns of the conversation
  is its lengths and roles.
\<close>

theorem metadata_mode_hides_content:
  assumes "\<not> full_payload p" "length prompt = length prompt'" "map message_role ms = map message_role ms'"
    and "map length texts = map length texts'" "(la = JUndef) = (la' = JUndef)"
    and "non_empty_opt sp = non_empty_opt sp'" "non_empty_opt sf = non_empty_opt sf'"
  shows "createBeforeModelResolveEvent E p w md prompt n = createBeforeModelResolveEvent E p w md prompt' n \<and>
    createBeforePromptBuildEvent E p w md prompt ms n = createBeforePromptBuildEvent E p w md prompt' ms' n \<and>
    createLlmInputEvent E p w md provider model sp prompt ms ic audit n
      = createLlmInputEvent E p w md provider model sp' prompt' ms' ic audit n \<and>
    createLlmOutputEvent E p w md provider model texts la usage n
      = createLlmOutputEvent E p w md provider model texts' la' usage n \<and>
    createAgentEndEvent E p w md ms ok er d n = createAgentEndEvent E p w md ms' ok er d n \<and>
    createBeforeCompactionEvent E p w md mc cc tc (Some ms) sf n = createBeforeCompactionEvent E p w md mc cc tc (Some ms') sf' n \<and>
    createAfterCompactionEvent E p w md mc dc tc sf n = createAfterCompactionEvent E p w md mc dc tc sf' n"
  using assms(1,2,5-7) same_roles [OF assms(3)] same_lengths [OF assms(4)]
  by (simp add: builder_defs buildBeforeModelResolveData_def buildBeforePromptBuildData_def buildLlmInputData_def
      buildLlmOutputData_def buildAgentEndData_def buildBeforeCompactionData_def buildAfterCompactionData_def
      buildPromptMetrics_def Let_def)

theorem metadata_mode_hides_content_witness:
  "createLlmInputEvent sample_event_env \<lparr>pv_payloadMode = ''metadata''\<rparr> no_one JUndef ''p'' ''m'' (Some ''secret'') ''abc''
      [JStr ''x''] 0 [] 0
    = createLlmInputEvent sample_event_env \<lparr>pv_payloadMode = ''metadata''\<rparr> no_one JUndef ''p'' ''m'' (Some ''other'') ''xyz''
      [JNum 1] 0 [] 0"
  using metadata_mode_hides_content [of "\<lparr>pv_payloadMode = ''metadata''\<rparr>" "''abc''" "''xyz''" "[JStr ''x'']" "[JNum 1]"
      "[]" "[]" JUndef JUndef "Some ''secret''" "Some ''other''" None None sample_event_env no_one JUndef 0 "''p''" "''m''" 0 "[]"]
  by (simp add: full_payload_def message_role_def non_empty_opt_def)

section \<open>The summary of roles\<close>

lemma oget_count_role:
  "oget (count_role k acc) r = (if r = k then JNum (default_to 0 (readNumber (oget acc k)) + 1) else oget acc r)"
  by (simp add: count_role_def)

lemma no_role: "r \<notin> message_role ` set ms \<Longrightarrow> filter (\<lambda>m. message_role m = r) ms = []"
  by (induction ms) auto

lemma count_roles:
  "oget (fold (\<lambda>m. count_role (message_role m)) ms acc) r =
    (if r \<in> message_role ` set ms
     then JNum (default_to 0 (readNumber (oget acc r)) + int (length (filter (\<lambda>m. message_role m = r) ms)))
     else oget acc r)"
proof (induction ms arbitrary: acc)
  case (Cons m ms)
  note IH = Cons.IH [of "count_role (message_role m) acc"]
  show ?case
  proof (cases "message_role m = r")
    case True
    show ?thesis
    proof (cases "r \<in> message_role ` set ms")
      case in_rest: True
      show ?thesis unfolding fold_simps o_apply IH using True in_rest by (simp add: oget_count_role)
    next
      case not_in_rest: False
      show ?thesis unfolding fold_simps o_apply IH using True not_in_rest no_role [OF not_in_rest] by (simp add: oget_count_role)
    qed
  next
    case False
    show ?thesis unfolding fold_simps o_apply IH using False by (auto simp: oget_count_role)
  qed
qed simp

text \<open>
  The summary of the roles maps every role to the number of messages that have it, and
  has no other key.
\<close>

theorem role_summary_counts:
  "summarizeMessageRoles ms = Some counts \<Longrightarrow>
    oget counts r = (if r \<in> message_role ` set ms then JNum (int (length (filter (\<lambda>m. message_role m = r) ms))) else JUndef)"
  by (auto simp: summarizeMessageRoles_def count_roles split: if_splits)

theorem role_summary_counts_witness:
  "oget (the (summarizeMessageRoles [JObj [(''role'', JStr ''user'')], JObj [(''role'', JStr ''user'')]])) ''user'' = JNum 2"
proof -
  let ?ms = "[JObj [(''role'', JStr ''user'')], JObj [(''role'', JStr ''user'')]]"
  have s: "summarizeMessageRoles ?ms = Some (the (summarizeMessageRoles ?ms))" by code_simp
  show ?thesis unfolding role_summary_counts [OF s] by code_simp
qed

section \<open>Timestamps of messages\<close>

text \<open>
  No message event made from a hook carries the hook's timestamp: the data passed to the builders
  never has the key they read it from.
\<close>

lemma message_context_no_timestamp: "oget (message_context p) ''timestamp'' = JUndef"
proof -
  have t: "''timestamp'' \<notin> set message_keys" by code_simp
  have "mget (map (\<lambda>k. (k, oget c k)) (filter (mhas c) message_keys)) ''timestamp'' = None" for c
    using t by (auto simp: map_of_eq_None_iff)
  then have k: "''timestamp'' \<notin> set (mkeys (buildMessageData c))" for c
    unfolding set_mkeys_iff by (simp add: buildMessageData_def Let_def)
  show ?thesis
    using k [of "ph_context p"]
    by (simp add: message_context_def oget_def mget_spread del: set_map)
qed

lemma canonical_metadata [simp]: "oget (fst (createCanonicalEvent E i n)) ''metadata'' = ci_metadata i"
  by (simp add: createCanonicalEvent_def Let_def)

lemma hook_timestamp_lost:
  assumes "fromOpenClawMessageReceived E hookEvent n = Some r \<or> fromOpenClawMessageSent E hookEvent n = Some r"
  shows "jprop (oget (fst r) ''metadata'') ''hookTimestamp'' = JUndef"
proof -
  have "\<exists>i p. r = createCanonicalEvent E i n \<and> ci_metadata i = ci_metadata (message_input ty nm True (message_context p))"
    if "from_message_hook keys f hookEvent n = Some r" "\<And>c. f c n = createCanonicalEvent E (g c) n"
      "\<And>c. ci_metadata (g c) = ci_metadata (message_input ty nm True c)" for keys f g ty nm
    using that unfolding from_message_hook_def by (cases "parseHook hookEvent"; simp split: if_splits; blast)
  note h = this
  have "\<exists>i p ty nm. r = createCanonicalEvent E i n \<and> ci_metadata i = ci_metadata (message_input ty nm True (message_context p))"
    using assms
  proof
    assume "fromOpenClawMessageReceived E hookEvent n = Some r"
    then have "from_message_hook [''from'', ''content'', ''channelId''] (createMessageReceivedEvent E) hookEvent n = Some r"
      by (simp add: fromOpenClawMessageReceived_def)
    from h [OF this createMessageReceivedEvent_def [THEN fun_cong] refl] show ?thesis by blast
  next
    assume "fromOpenClawMessageSent E hookEvent n = Some r"
    then have "from_message_hook [''to'', ''content'', ''channelId''] (createMessageSentEvent E) hookEvent n = Some r"
      by (simp add: fromOpenClawMessageSent_def)
    from h [OF this createMessageSentEvent_def [THEN fun_cong]] show ?thesis by fastforce
  qed
  then show ?thesis by (auto simp: message_input_def message_context_no_timestamp of_num_def)
qed

end
