(* ===== verification/EventLog.thy ===== *)
theory EventLog imports Protocol begin

text \<open>
  The log file of the owner, \<open>src/logging/event-file-logger.ts\<close>.  Lines are chained and written one at a
  time; a line that would exceed the size limit first truncates the file.  Every await of the writer
  is a step of its own, so that calls may come in between.  A failing write is taken to leave the file
  as it is.
\<close>

section \<open>Lines\<close>

definition LOG_LEVEL_WEIGHT :: "string \<Rightarrow> nat" where
  "LOG_LEVEL_WEIGHT level =
     (if level = ''debug'' then 10 else if level = ''info'' then 20 else if level = ''warn'' then 30 else 40)"

definition shouldWrite :: "string \<Rightarrow> string \<Rightarrow> bool" where
  "shouldWrite level minLevel \<longleftrightarrow> LOG_LEVEL_WEIGHT level \<ge> LOG_LEVEL_WEIGHT minLevel"

definition stringifyLine :: "jsobj \<Rightarrow> string" where
  "stringifyLine payload = default_to ''undefined'' (json_stringify (JObj payload)) @ [newline]"

definition summary_keys :: "string list" where
  "summary_keys =
     [''type'', ''eventCategory'', ''eventName'', ''source'', ''agentId'', ''sessionId'', ''sessionKey'', ''runId'',
      ''toolCallId'', ''correlationId'']"

definition event_line :: "EventLogConfig \<Rightarrow> string \<Rightarrow> event \<Rightarrow> string" where
  "event_line c nowIso ev =
     stringifyLine
       (if el_format c = ''summary''
        then [(''timestamp'', oget ev ''timestamp''), (''kind'', JStr ''event'')] @ map (\<lambda>k. (k, oget ev k)) summary_keys
        else [(''timestamp'', JStr nowIso), (''kind'', JStr ''event''), (''event'', JObj ev)])"

definition runtime_line :: "string \<Rightarrow> string \<Rightarrow> string \<Rightarrow> jsval list \<Rightarrow> string" where
  "runtime_line nowIso level message args =
     stringifyLine [(''timestamp'', JStr nowIso), (''kind'', JStr ''runtime''), (''level'', JStr level),
       (''message'', JStr message), (''args'', JArr args)]"

section \<open>The writer\<close>

definition BYTES_PER_MB :: int where
  "BYTES_PER_MB = 1024 * 1024"

definition maxFileSizeBytes :: "EventLogConfig \<Rightarrow> int" where
  "maxFileSizeBytes c = max 1 (el_maxFileSizeMb c) * BYTES_PER_MB"

datatype write_phase = NoWrite | Truncating string | Writing string

text \<open>
  \<open>lg_found\<close> are the bytes found in the file and kept at the start and \<open>lg_file\<close> the lines written since
  the file was last emptied.  \<open>lg_stopAfter\<close> counts the writes that \<open>stop\<close> waits for.
\<close>

record event_logger =
  lg_stream :: bool
  lg_isReady :: bool
  lg_currentFileSizeBytes :: int
  lg_chain :: "string list"
  lg_phase :: write_phase
  lg_found :: int
  lg_file :: "string list"
  lg_stopAfter :: "nat option"

definition new_logger :: event_logger where
  "new_logger =
     \<lparr> lg_stream = False, lg_isReady = False, lg_currentFileSizeBytes = 0, lg_chain = [], lg_phase = NoWrite,
       lg_found = 0, lg_file = [], lg_stopAfter = None \<rparr>"

definition start_logger :: "EventLogConfig \<Rightarrow> int \<Rightarrow> event_logger \<Rightarrow> event_logger" where
  "start_logger c existingSize s =
     (if \<not> el_enabled c \<or> lg_isReady s then s
      else
        let kept = (if existingSize \<ge> maxFileSizeBytes c then 0 else existingSize) in
        s\<lparr>lg_stream := True, lg_isReady := True, lg_currentFileSizeBytes := kept, lg_found := kept, lg_file := []\<rparr>)"

definition enqueueWrite :: "string \<Rightarrow> event_logger \<Rightarrow> event_logger" where
  "enqueueWrite line s = s\<lparr>lg_chain := lg_chain s @ [line]\<rparr>"

definition logEvent :: "EventLogConfig \<Rightarrow> string \<Rightarrow> event \<Rightarrow> event_logger \<Rightarrow> event_logger" where
  "logEvent c nowIso ev s =
     (if \<not> el_enabled c \<or> \<not> lg_stream s \<or> \<not> lg_isReady s then s else enqueueWrite (event_line c nowIso ev) s)"

definition logRuntime :: "EventLogConfig \<Rightarrow> string \<Rightarrow> string \<Rightarrow> string \<Rightarrow> jsval list \<Rightarrow> event_logger \<Rightarrow> event_logger" where
  "logRuntime c nowIso level message args s =
     (if \<not> el_enabled c \<or> \<not> el_includeRuntimeLogs c \<or> \<not> lg_stream s \<or> \<not> lg_isReady s \<or> \<not> shouldWrite level (el_minLevel c)
      then s else enqueueWrite (runtime_line nowIso level message args) s)"

definition line_size :: "string \<Rightarrow> int" where
  "line_size line = int (utf8_length line)"

text \<open>The writer settles: what \<open>stop\<close> waits for becomes less.\<close>

definition write_settled :: "event_logger \<Rightarrow> event_logger" where
  "write_settled s = s\<lparr>lg_phase := NoWrite, lg_stopAfter := map_option (\<lambda>n. n - 1) (lg_stopAfter s)\<rparr>"

definition writeLine :: "EventLogConfig \<Rightarrow> event_logger \<Rightarrow> event_logger" where
  "writeLine c s =
     (case (lg_phase s, lg_chain s) of
        (NoWrite, line # rest) \<Rightarrow>
          let s1 = s\<lparr>lg_chain := rest\<rparr> in
          if \<not> lg_stream s \<or> \<not> lg_isReady s then write_settled s1
          else if lg_currentFileSizeBytes s + line_size line > maxFileSizeBytes c
          then s1\<lparr>lg_stream := False, lg_phase := Truncating line\<rparr>
          else s1\<lparr>lg_phase := Writing line\<rparr>
      | _ \<Rightarrow> s)"

text \<open>The old stream has ended: the file is opened anew and empty.\<close>

definition truncateLogFile_ended :: "event_logger \<Rightarrow> event_logger" where
  "truncateLogFile_ended s =
     (case lg_phase s of
        Truncating line \<Rightarrow>
          s\<lparr>lg_stream := True, lg_currentFileSizeBytes := 0, lg_found := 0, lg_file := [], lg_phase := Writing line\<rparr>
      | _ \<Rightarrow> s)"

definition writeToStream_done :: "bool \<Rightarrow> event_logger \<Rightarrow> event_logger" where
  "writeToStream_done success s =
     (case lg_phase s of
        Writing line \<Rightarrow>
          write_settled (if success
            then s\<lparr>lg_file := lg_file s @ [line], lg_currentFileSizeBytes := lg_currentFileSizeBytes s + line_size line\<rparr>
            else s)
      | _ \<Rightarrow> s)"

definition stop_logger :: "event_logger \<Rightarrow> event_logger" where
  "stop_logger s = s\<lparr>lg_stopAfter := Some (length (lg_chain s) + (if lg_phase s = NoWrite then 0 else 1))\<rparr>"

definition stop_proceeds :: "event_logger \<Rightarrow> event_logger" where
  "stop_proceeds s =
     (if lg_stopAfter s \<noteq> Some 0 then s
      else if \<not> lg_stream s then s\<lparr>lg_stopAfter := None\<rparr>
      else s\<lparr>lg_stopAfter := None, lg_stream := False, lg_isReady := False\<rparr>)"

datatype logger_op =
    LogEvent string event
  | LogRuntime string string string "jsval list"
  | WriteLine
  | TruncateEnded
  | WriteDone bool
  | StopLogger
  | StopProceeds

fun logger_step :: "EventLogConfig \<Rightarrow> logger_op \<Rightarrow> event_logger \<Rightarrow> event_logger" where
  "logger_step c (LogEvent t ev) s = logEvent c t ev s"
| "logger_step c (LogRuntime t l m args) s = logRuntime c t l m args s"
| "logger_step c WriteLine s = writeLine c s"
| "logger_step c TruncateEnded s = truncateLogFile_ended s"
| "logger_step c (WriteDone ok) s = writeToStream_done ok s"
| "logger_step c StopLogger s = stop_logger s"
| "logger_step c StopProceeds s = stop_proceeds s"

section \<open>The file stays within its limit\<close>

definition file_size :: "event_logger \<Rightarrow> int" where
  "file_size s = lg_found s + sum_list (map line_size (lg_file s))"

text \<open>\<open>fits\<close>: the file is within the limit, or it is a single line that is larger than the limit.\<close>

definition fits :: "EventLogConfig \<Rightarrow> event_logger \<Rightarrow> bool" where
  "fits c s \<longleftrightarrow> file_size s \<le> maxFileSizeBytes c \<or> (lg_found s = 0 \<and> length (lg_file s) = 1)"

definition logger_inv :: "EventLogConfig \<Rightarrow> event_logger \<Rightarrow> bool" where
  "logger_inv c s \<longleftrightarrow>
     lg_currentFileSizeBytes s = file_size s \<and> fits c s \<and>
     (\<forall>line. lg_phase s = Writing line \<longrightarrow>
        file_size s + line_size line \<le> maxFileSizeBytes c \<or> (lg_found s = 0 \<and> lg_file s = []))"

lemma maxFileSizeBytes_pos: "0 < maxFileSizeBytes c"
  by (simp add: maxFileSizeBytes_def BYTES_PER_MB_def)

lemma logger_inv_step: "logger_inv c s \<Longrightarrow> logger_inv c (logger_step c op s)"
  using maxFileSizeBytes_pos [of c]
  by (cases op)
    (auto simp: logger_inv_def fits_def file_size_def logEvent_def logRuntime_def enqueueWrite_def writeLine_def
      truncateLogFile_ended_def writeToStream_done_def write_settled_def stop_logger_def stop_proceeds_def Let_def
      split: write_phase.splits list.splits)

interpretation logger_machine: machine "logger_step c" "logger_inv c" for c
  by unfold_locales (rule logger_inv_step)

lemma started_inv: "0 \<le> existing \<Longrightarrow> logger_inv c (start_logger c existing new_logger)"
  using maxFileSizeBytes_pos [of c]
  by (simp add: start_logger_def new_logger_def logger_inv_def fits_def file_size_def Let_def)

text \<open>
  C40. Whatever is logged and however writes, truncations, failures and stops interleave, the size the
  logger keeps is the size of the file, and the file is within the configured limit or is a single
  line that alone exceeds it.
\<close>

theorem log_file_bounded:
  assumes "0 \<le> existing" "s = fold (logger_step c) ops (start_logger c existing new_logger)"
  shows "lg_currentFileSizeBytes s = file_size s \<and>
    (file_size s \<le> maxFileSizeBytes c \<or> (\<exists>line. lg_found s = 0 \<and> lg_file s = [line]))"
proof -
  have "logger_inv c s" unfolding assms(2) by (rule logger_machine.inv_run [OF started_inv [OF assms(1)]])
  then show ?thesis by (auto simp: logger_inv_def fits_def length_Suc_conv)
qed

definition log_everything :: EventLogConfig where
  "log_everything = \<lparr> el_enabled = True, el_path = ''log'', el_maxFileSizeMb = 1, el_format = ''full'', el_minLevel = ''info'',
     el_includeRuntimeLogs = True \<rparr>"

definition sample_log_ops :: "logger_op list" where
  "sample_log_ops = [LogEvent ''t'' sample_event, WriteLine, WriteDone True, LogEvent ''t'' sample_event, WriteLine]"

lemma sample_log: "length (lg_file (fold (logger_step log_everything) sample_log_ops (start_logger log_everything 7 new_logger))) = 1"
  by code_simp

theorem log_file_bounded_witness:
  "length (lg_file (fold (logger_step log_everything) sample_log_ops (start_logger log_everything 7 new_logger))) = 1 \<and>
   lg_currentFileSizeBytes (fold (logger_step log_everything) sample_log_ops (start_logger log_everything 7 new_logger)) =
     file_size (fold (logger_step log_everything) sample_log_ops (start_logger log_everything 7 new_logger))"
  using log_file_bounded [OF _ refl, of 7 log_everything sample_log_ops] sample_log by simp

section \<open>What truncation loses\<close>

text \<open>While the file is being truncated there is no stream, and events are dropped.\<close>

lemma truncation_drops_events:
  assumes "lg_phase s = NoWrite" "lg_chain s = line # rest" "lg_stream s" "lg_isReady s"
    and "maxFileSizeBytes c < lg_currentFileSizeBytes s + line_size line"
  shows "logEvent c t ev (writeLine c s) = writeLine c s"
  using assms by (simp add: writeLine_def logEvent_def Let_def)

end
