(* ===== verification/ConfigSchema.thy ===== *)
theory ConfigSchema imports ConfigMerge RuntimeConfig begin

text \<open>
  The configuration schema that the plugin gives to the host, \<open>src/config/schema.ts\<close> and
  \<open>schema-hook-bridge.ts\<close>, as values, and its agreement with the defaults of the code and with
  \<open>validateConfig\<close>: the host checks a configuration against the schema before the plugin sees it, and
  the plugin validates what it has merged from the host, the environment and the defaults.
\<close>

section \<open>The schema of the hook bridge (config/schema-hook-bridge.ts)\<close>

definition rule_when_schema :: jsval where
  "rule_when_schema =
     JObj
       [(''type'', JStr ''object''),
        (''properties'',
         JObj
           [(''eventType'',
             JObj
               [(''oneOf'',
                 JArr
                   [JObj [(''type'', JStr ''string'')],
                    JObj [(''type'', JStr ''array''), (''items'', JObj [(''type'', JStr ''string'')])]])]),
            (''toolName'',
             JObj
               [(''oneOf'',
                 JArr
                   [JObj [(''type'', JStr ''string'')],
                    JObj [(''type'', JStr ''array''), (''items'', JObj [(''type'', JStr ''string'')])]])]),
            (''agentId'',
             JObj
               [(''oneOf'',
                 JArr
                   [JObj [(''type'', JStr ''string'')],
                    JObj [(''type'', JStr ''array''), (''items'', JObj [(''type'', JStr ''string'')])]])]),
            (''sessionId'',
             JObj
               [(''oneOf'',
                 JArr
                   [JObj [(''type'', JStr ''string'')],
                    JObj [(''type'', JStr ''array''), (''items'', JObj [(''type'', JStr ''string'')])]])]),
            (''sessionKey'',
             JObj
               [(''oneOf'',
                 JArr
                   [JObj [(''type'', JStr ''string'')],
                    JObj [(''type'', JStr ''array''), (''items'', JObj [(''type'', JStr ''string'')])]])]),
            (''contains'',
             JObj [(''type'', JStr ''object''), (''additionalProperties'', JObj [(''type'', JStr ''string'')])]),
            (''equals'',
             JObj
               [(''type'', JStr ''object''),
                (''additionalProperties'',
                 JObj
                   [(''oneOf'',
                     JArr
                       [JObj [(''type'', JStr ''string'')],
                        JObj [(''type'', JStr ''number'')],
                        JObj [(''type'', JStr ''boolean'')]])])]),
            (''requiredPaths'',
             JObj [(''type'', JStr ''array''), (''items'', JObj [(''type'', JStr ''string'')])]),
            (''typeChecks'',
             JObj
               [(''type'', JStr ''object''),
                (''additionalProperties'',
                 JObj
                   [(''type'', JStr ''string''),
                    (''enum'', strs [''string'', ''number'', ''boolean'', ''object'', ''array''])])]),
            (''inList'',
             JObj
               [(''type'', JStr ''object''),
                (''additionalProperties'',
                 JObj
                   [(''type'', JStr ''array''),
                    (''items'',
                     JObj
                       [(''oneOf'',
                         JArr
                           [JObj [(''type'', JStr ''string'')],
                            JObj [(''type'', JStr ''number'')],
                            JObj [(''type'', JStr ''boolean'')]])])])]),
            (''notInList'',
             JObj
               [(''type'', JStr ''object''),
                (''additionalProperties'',
                 JObj
                   [(''type'', JStr ''array''),
                    (''items'',
                     JObj
                       [(''oneOf'',
                         JArr
                           [JObj [(''type'', JStr ''string'')],
                            JObj [(''type'', JStr ''number'')],
                            JObj [(''type'', JStr ''boolean'')]])])])]),
            (''matchesRegex'',
             JObj [(''type'', JStr ''object''), (''additionalProperties'', JObj [(''type'', JStr ''string'')])]),
            (''notMatchesRegex'',
             JObj [(''type'', JStr ''object''), (''additionalProperties'', JObj [(''type'', JStr ''string'')])]),
            (''domainAllowlist'',
             JObj [(''type'', JStr ''array''), (''items'', JObj [(''type'', JStr ''string'')])]),
            (''domainBlocklist'',
             JObj [(''type'', JStr ''array''), (''items'', JObj [(''type'', JStr ''string'')])]),
            (''domainPath'', JObj [(''type'', JStr ''string'')]),
            (''idleForMsGte'', JObj [(''type'', JStr ''number''), (''minimum'', JNum 0)]),
            (''parentStatus'', JObj [(''type'', JStr ''string'')])])]"

definition guard_when_schema :: jsval where
  "guard_when_schema =
     JObj
       [(''type'', JStr ''object''),
        (''properties'',
         JObj
           [(''eventType'',
             JObj
               [(''oneOf'',
                 JArr
                   [JObj [(''type'', JStr ''string'')],
                    JObj [(''type'', JStr ''array''), (''items'', JObj [(''type'', JStr ''string'')])]])]),
            (''toolName'',
             JObj
               [(''oneOf'',
                 JArr
                   [JObj [(''type'', JStr ''string'')],
                    JObj [(''type'', JStr ''array''), (''items'', JObj [(''type'', JStr ''string'')])]])]),
            (''agentId'',
             JObj
               [(''oneOf'',
                 JArr
                   [JObj [(''type'', JStr ''string'')],
                    JObj [(''type'', JStr ''array''), (''items'', JObj [(''type'', JStr ''string'')])]])]),
            (''sessionId'',
             JObj
               [(''oneOf'',
                 JArr
                   [JObj [(''type'', JStr ''string'')],
                    JObj [(''type'', JStr ''array''), (''items'', JObj [(''type'', JStr ''string'')])]])]),
            (''sessionKey'',
             JObj
               [(''oneOf'',
                 JArr
                   [JObj [(''type'', JStr ''string'')],
                    JObj [(''type'', JStr ''array''), (''items'', JObj [(''type'', JStr ''string'')])]])]),
            (''contains'',
             JObj [(''type'', JStr ''object''), (''additionalProperties'', JObj [(''type'', JStr ''string'')])]),
            (''equals'',
             JObj
               [(''type'', JStr ''object''),
                (''additionalProperties'',
                 JObj
                   [(''oneOf'',
                     JArr
                       [JObj [(''type'', JStr ''string'')],
                        JObj [(''type'', JStr ''number'')],
                        JObj [(''type'', JStr ''boolean'')]])])]),
            (''requiredPaths'',
             JObj [(''type'', JStr ''array''), (''items'', JObj [(''type'', JStr ''string'')])]),
            (''typeChecks'',
             JObj
               [(''type'', JStr ''object''),
                (''additionalProperties'',
                 JObj
                   [(''type'', JStr ''string''),
                    (''enum'', strs [''string'', ''number'', ''boolean'', ''object'', ''array''])])]),
            (''inList'',
             JObj
               [(''type'', JStr ''object''),
                (''additionalProperties'',
                 JObj
                   [(''type'', JStr ''array''),
                    (''items'',
                     JObj
                       [(''oneOf'',
                         JArr
                           [JObj [(''type'', JStr ''string'')],
                            JObj [(''type'', JStr ''number'')],
                            JObj [(''type'', JStr ''boolean'')]])])])]),
            (''notInList'',
             JObj
               [(''type'', JStr ''object''),
                (''additionalProperties'',
                 JObj
                   [(''type'', JStr ''array''),
                    (''items'',
                     JObj
                       [(''oneOf'',
                         JArr
                           [JObj [(''type'', JStr ''string'')],
                            JObj [(''type'', JStr ''number'')],
                            JObj [(''type'', JStr ''boolean'')]])])])]),
            (''matchesRegex'',
             JObj [(''type'', JStr ''object''), (''additionalProperties'', JObj [(''type'', JStr ''string'')])]),
            (''notMatchesRegex'',
             JObj [(''type'', JStr ''object''), (''additionalProperties'', JObj [(''type'', JStr ''string'')])]),
            (''domainAllowlist'',
             JObj [(''type'', JStr ''array''), (''items'', JObj [(''type'', JStr ''string'')])]),
            (''domainBlocklist'',
             JObj [(''type'', JStr ''array''), (''items'', JObj [(''type'', JStr ''string'')])]),
            (''domainPath'', JObj [(''type'', JStr ''string'')]),
            (''idleForMsGte'', JObj [(''type'', JStr ''number''), (''minimum'', JNum 0)]),
            (''parentStatus'', JObj [(''type'', JStr ''string'')])])]"

definition script_defaults_schema :: jsval where
  "script_defaults_schema =
     JObj
       [(''type'', JStr ''object''),
        (''properties'',
         JObj
           [(''timeoutMs'',
             JObj
               [(''type'', JStr ''integer''),
                (''minimum'', JNum 1000),
                (''maximum'', JNum 120000),
                (''default'', JNum 10000)]),
            (''maxPayloadBytes'',
             JObj
               [(''type'', JStr ''integer''),
                (''minimum'', JNum 1024),
                (''maximum'', JNum 1048576),
                (''default'', JNum 65536)])])]"

definition actions_schema :: jsval where
  "actions_schema =
     JObj
       [(''type'', JStr ''object''),
        (''additionalProperties'',
         JObj
           [(''type'', JStr ''object''),
            (''properties'',
             JObj
               [(''type'', JObj [(''type'', JStr ''string''), (''enum'', strs [''webhook'', ''local_script''])]),
                (''url'', JObj [(''type'', JStr ''string'')]),
                (''method'',
                 JObj [(''type'', JStr ''string''), (''enum'', strs [''POST'', ''PUT'', ''PATCH''])]),
                (''headers'',
                 JObj
                   [(''type'', JStr ''object''),
                    (''additionalProperties'', JObj [(''type'', JStr ''string'')])]),
                (''authToken'', JObj [(''type'', JStr ''string'')]),
                (''path'', JObj [(''type'', JStr ''string'')]),
                (''args'', JObj [(''type'', JStr ''array''), (''items'', JObj [(''type'', JStr ''string'')])]),
                (''timeoutMs'', JObj [(''type'', JStr ''integer'')]),
                (''maxPayloadBytes'', JObj [(''type'', JStr ''integer'')])]),
            (''required'', strs [''type''])]),
        (''default'', JObj [])]"

definition rules_schema :: jsval where
  "rules_schema =
     JObj
       [(''type'', JStr ''array''),
        (''default'', JArr []),
        (''items'',
         JObj
           [(''type'', JStr ''object''),
            (''properties'',
             JObj
               [(''id'', JObj [(''type'', JStr ''string'')]),
                (''enabled'', JObj [(''type'', JStr ''boolean'')]),
                (''action'', JObj [(''type'', JStr ''string'')]),
                (''cooldownMs'', JObj [(''type'', JStr ''integer''), (''minimum'', JNum 0)]),
                (''coalesce'',
                 JObj
                   [(''type'', JStr ''object''),
                    (''properties'',
                     JObj
                       [(''enabled'', JObj [(''type'', JStr ''boolean'')]),
                        (''keyFields'',
                         JObj [(''type'', JStr ''array''), (''items'', JObj [(''type'', JStr ''string'')])]),
                        (''windowMs'', JObj [(''type'', JStr ''number''), (''minimum'', JNum 1)]),
                        (''strategy'',
                         JObj [(''type'', JStr ''string''), (''enum'', strs [''first'', ''latest''])])])]),
                (''when'', rule_when_schema)]),
            (''required'', strs [''id'', ''when'', ''action''])])]"

definition guard_rules_schema :: jsval where
  "guard_rules_schema =
     JObj
       [(''type'', JStr ''array''),
        (''default'', JArr []),
        (''items'',
         JObj
           [(''type'', JStr ''object''),
            (''properties'',
             JObj
               [(''id'', JObj [(''type'', JStr ''string'')]),
                (''enabled'', JObj [(''type'', JStr ''boolean'')]),
                (''priority'', JObj [(''type'', JStr ''integer'')]),
                (''action'', JObj [(''type'', JStr ''string'')]),
                (''decision'',
                 JObj
                   [(''type'', JStr ''object''),
                    (''properties'',
                     JObj
                       [(''block'', JObj [(''type'', JStr ''boolean'')]),
                        (''blockReason'', JObj [(''type'', JStr ''string'')]),
                        (''blockReasonTemplate'', JObj [(''type'', JStr ''string'')]),
                        (''params'', JObj [(''type'', JStr ''object'')])])]),
                (''stopOnMatch'', JObj [(''type'', JStr ''boolean'')]),
                (''cooldownMs'', JObj [(''type'', JStr ''integer''), (''minimum'', JNum 0)]),
                (''when'', guard_when_schema)]),
            (''required'', strs [''id'', ''when''])])]"

definition toolGuard_schema :: jsval where
  "toolGuard_schema =
     JObj
       [(''type'', JStr ''object''),
        (''properties'',
         JObj
           [(''enabled'', JObj [(''type'', JStr ''boolean''), (''default'', JBool False)]),
            (''dryRun'', JObj [(''type'', JStr ''boolean''), (''default'', JBool False)]),
            (''timeoutMs'',
             JObj
               [(''type'', JStr ''integer''),
                (''minimum'', JNum 100),
                (''maximum'', JNum 120000),
                (''default'', JNum 15000)]),
            (''onError'',
             JObj
               [(''type'', JStr ''string''),
                (''enum'', strs [''allow'', ''block'']),
                (''default'', JStr ''allow'')]),
            (''scopeKeyBy'',
             JObj
               [(''type'', JStr ''string''),
                (''enum'', strs [''tool'', ''tool_and_params'']),
                (''default'', JStr ''tool_and_params'')]),
            (''retryBackoffMs'',
             JObj
               [(''type'', JStr ''integer''),
                (''minimum'', JNum 0),
                (''maximum'', JNum 3600000),
                (''default'', JNum 10000)]),
            (''retryBackoffReason'', JObj [(''type'', JStr ''string'')]),
            (''approvalCacheTtlMs'',
             JObj
               [(''type'', JStr ''integer''),
                (''minimum'', JNum 0),
                (''maximum'', JNum 86400000),
                (''default'', JNum 60000)]),
            (''stopOnMatchDefault'', JObj [(''type'', JStr ''boolean''), (''default'', JBool False)]),
            (''redaction'',
             JObj
               [(''type'', JStr ''object''),
                (''properties'',
                 JObj
                   [(''enabled'', JObj [(''type'', JStr ''boolean''), (''default'', JBool False)]),
                    (''replacement'', JObj [(''type'', JStr ''string''), (''default'', JStr ''[REDACTED]'')]),
                    (''fields'',
                     JObj [(''type'', JStr ''array''), (''items'', JObj [(''type'', JStr ''string'')])])])]),
            (''rules'', guard_rules_schema)])]"

definition runtime_schema :: jsval where
  "runtime_schema =
     JObj
       [(''type'', JStr ''object''),
        (''properties'',
         JObj
           [(''maxPendingEvents'',
             JObj
               [(''type'', JStr ''integer''),
                (''minimum'', JNum 1),
                (''maximum'', JNum 100000),
                (''default'', JNum 1000)]),
            (''concurrency'',
             JObj
               [(''type'', JStr ''integer''),
                (''minimum'', JNum 1),
                (''maximum'', JNum 1024),
                (''default'', JNum 8)]),
            (''dropPolicy'',
             JObj
               [(''type'', JStr ''string''),
                (''enum'', strs [''drop_oldest'', ''drop_newest'']),
                (''default'', JStr ''drop_oldest'')])])]"

definition telemetry_schema :: jsval where
  "telemetry_schema =
     JObj
       [(''type'', JStr ''object''),
        (''properties'',
         JObj
           [(''highWatermarks'',
             JObj
               [(''type'', JStr ''array''),
                (''items'', JObj [(''type'', JStr ''integer''), (''minimum'', JNum 1), (''maximum'', JNum 100)]),
                (''default'', JArr [JNum 70, JNum 90, JNum 100])]),
            (''slowActionMs'',
             JObj
               [(''type'', JStr ''integer''),
                (''minimum'', JNum 1),
                (''maximum'', JNum 600000),
                (''default'', JNum 2000)]),
            (''failureRateWindowMs'',
             JObj
               [(''type'', JStr ''integer''),
                (''minimum'', JNum 1000),
                (''maximum'', JNum 3600000),
                (''default'', JNum 60000)]),
            (''failureRateThresholdPct'',
             JObj
               [(''type'', JStr ''number''),
                (''minimum'', JNum 0),
                (''maximum'', JNum 100),
                (''default'', JNum 20)]),
            (''failureRateMinSamples'',
             JObj
               [(''type'', JStr ''integer''),
                (''minimum'', JNum 1),
                (''maximum'', JNum 100000),
                (''default'', JNum 10)]),
            (''saturationWindowMs'',
             JObj
               [(''type'', JStr ''integer''),
                (''minimum'', JNum 100),
                (''maximum'', JNum 3600000),
                (''default'', JNum 10000)])])]"

definition HOOK_BRIDGE_SCHEMA :: jsval where
  "HOOK_BRIDGE_SCHEMA =
     JObj
       [(''type'', JStr ''object''),
        (''description'', JStr ''Optional event-driven automation bridge''),
        (''properties'',
         JObj
           [(''enabled'', JObj [(''type'', JStr ''boolean''), (''default'', JBool False)]),
            (''dryRun'', JObj [(''type'', JStr ''boolean''), (''default'', JBool False)]),
            (''allowedActionDirs'',
             JObj
               [(''type'', JStr ''array''),
                (''items'', JObj [(''type'', JStr ''string'')]),
                (''default'', JArr [])]),
            (''localScriptDefaults'', script_defaults_schema),
            (''actions'', actions_schema),
            (''rules'', rules_schema),
            (''toolGuard'', toolGuard_schema),
            (''runtime'', runtime_schema),
            (''telemetry'', telemetry_schema)])]"

section \<open>The schema (config/schema.ts)\<close>

definition transport_schema :: jsval where
  "transport_schema =
     JObj
       [(''type'', JStr ''object''),
        (''description'', JStr ''Single-owner transport coordination and relay configuration''),
        (''properties'',
         JObj
           [(''mode'',
             JObj
               [(''type'', JStr ''string''),
                (''enum'', strs [''auto'', ''owner'', ''follower'']),
                (''description'',
                 JStr ''Use gateway-owned auto transport or force explicit owner/follower behavior''),
                (''default'', JStr (tc_mode (pc_transport DEFAULT_CONFIG)))]),
            (''lockPath'',
             JObj [(''type'', JStr ''string''), (''default'', JStr (tc_lockPath (pc_transport DEFAULT_CONFIG)))]),
            (''socketPath'',
             JObj
               [(''type'', JStr ''string''),
                (''default'', JStr (tc_socketPath (pc_transport DEFAULT_CONFIG)))]),
            (''lockStaleMs'',
             JObj
               [(''type'', JStr ''integer''),
                (''minimum'', JNum 1000),
                (''maximum'', JNum 300000),
                (''default'', JNum (tc_lockStaleMs (pc_transport DEFAULT_CONFIG)))]),
            (''heartbeatMs'',
             JObj
               [(''type'', JStr ''integer''),
                (''minimum'', JNum 250),
                (''maximum'', JNum 60000),
                (''default'', JNum (tc_heartbeatMs (pc_transport DEFAULT_CONFIG)))]),
            (''relayTimeoutMs'',
             JObj
               [(''type'', JStr ''integer''),
                (''minimum'', JNum 100),
                (''maximum'', JNum 60000),
                (''default'', JNum (tc_relayTimeoutMs (pc_transport DEFAULT_CONFIG)))]),
            (''reconnectBackoffMs'',
             JObj
               [(''type'', JStr ''integer''),
                (''minimum'', JNum 50),
                (''maximum'', JNum 30000),
                (''default'', JNum (tc_reconnectBackoffMs (pc_transport DEFAULT_CONFIG)))]),
            (''maxPendingEvents'',
             JObj
               [(''type'', JStr ''integer''),
                (''minimum'', JNum 1),
                (''maximum'', JNum 100000),
                (''default'', JNum (tc_maxPendingEvents (pc_transport DEFAULT_CONFIG)))]),
            (''maxPayloadBytes'',
             JObj
               [(''type'', JStr ''integer''),
                (''minimum'', JNum 1024),
                (''maximum'', JNum 10485760),
                (''default'', JNum (tc_maxPayloadBytes (pc_transport DEFAULT_CONFIG)))]),
            (''authToken'',
             JObj
               [(''type'', JStr ''string''),
                (''description'', JStr ''Optional auth token required for follower relay connections'')]),
            (''dedupeTtlMs'',
             JObj
               [(''type'', JStr ''integer''),
                (''minimum'', JNum 1000),
                (''maximum'', JNum 600000),
                (''default'', JNum (tc_dedupeTtlMs (pc_transport DEFAULT_CONFIG)))]),
            (''semanticDedupeEnabled'',
             JObj
               [(''type'', JStr ''boolean''),
                (''default'', JBool (tc_semanticDedupeEnabled (pc_transport DEFAULT_CONFIG))),
                (''description'', JStr ''Apply semantic dedupe in addition to eventId retry dedupe'')])])]"

definition webhooks_schema :: jsval where
  "webhooks_schema =
     JObj
       [(''type'', JStr ''array''),
        (''description'', JStr ''Webhook endpoints to broadcast events to''),
        (''items'',
         JObj
           [(''type'', JStr ''object''),
            (''required'', strs [''url'']),
            (''properties'',
             JObj
               [(''url'', JObj [(''type'', JStr ''string''), (''description'', JStr ''Webhook URL endpoint'')]),
                (''method'',
                 JObj
                   [(''type'', JStr ''string''),
                    (''enum'', strs [''POST'', ''PUT'', ''PATCH'']),
                    (''default'', JStr ''POST''),
                    (''description'', JStr ''HTTP method for webhook requests'')]),
                (''headers'',
                 JObj
                   [(''type'', JStr ''object''),
                    (''additionalProperties'', JObj [(''type'', JStr ''string'')]),
                    (''description'', JStr ''Custom HTTP headers'')]),
                (''authToken'',
                 JObj [(''type'', JStr ''string''), (''description'', JStr ''Authentication token (Bearer)'')]),
                (''includeFullPayload'',
                 JObj
                   [(''type'', JStr ''boolean''),
                    (''default'', JBool True),
                    (''description'', JStr ''Include full event payload'')])])]),
        (''default'', JArr [])]"

definition filters_schema :: jsval where
  "filters_schema =
     JObj
       [(''type'', JStr ''object''),
        (''description'', JStr ''Event filtering configuration''),
        (''properties'',
         JObj
           [(''includeTypes'',
             JObj
               [(''type'', JStr ''array''),
                (''items'', JObj [(''type'', JStr ''string''), (''enum'', strs VALID_EVENT_TYPES)]),
                (''description'', JStr ''Event types to include (empty = all)'')]),
            (''excludeTypes'',
             JObj
               [(''type'', JStr ''array''),
                (''items'', JObj [(''type'', JStr ''string''), (''enum'', strs VALID_EVENT_TYPES)]),
                (''description'', JStr ''Event types to exclude'')]),
            (''channelId'',
             JObj [(''type'', JStr ''string''), (''description'', JStr ''Filter by channel ID'')]),
            (''toolName'', JObj [(''type'', JStr ''string''), (''description'', JStr ''Filter by tool name'')]),
            (''sessionId'',
             JObj [(''type'', JStr ''string''), (''description'', JStr ''Filter by session ID'')])])]"

definition retry_schema :: jsval where
  "retry_schema =
     JObj
       [(''type'', JStr ''object''),
        (''description'', JStr ''Retry configuration for failed webhooks''),
        (''properties'',
         JObj
           [(''maxAttempts'',
             JObj
               [(''type'', JStr ''integer''),
                (''minimum'', JNum 0),
                (''maximum'', JNum 10),
                (''default'', JNum 3)]),
            (''initialDelayMs'',
             JObj
               [(''type'', JStr ''integer''),
                (''minimum'', JNum 100),
                (''maximum'', JNum 10000),
                (''default'', JNum 1000)]),
            (''maxDelayMs'',
             JObj
               [(''type'', JStr ''integer''),
                (''minimum'', JNum 1000),
                (''maximum'', JNum 300000),
                (''default'', JNum 30000)]),
            (''backoffMultiplier'',
             JObj
               [(''type'', JStr ''number''),
                (''minimum'', JNum 1),
                (''maximum'', JNum 5),
                (''default'', JNum 2)])])]"

definition queue_schema :: jsval where
  "queue_schema =
     JObj
       [(''type'', JStr ''object''),
        (''description'', JStr ''Event queue configuration''),
        (''properties'',
         JObj
           [(''maxSize'',
             JObj
               [(''type'', JStr ''integer''),
                (''minimum'', JNum 10),
                (''maximum'', JNum 10000),
                (''default'', JNum 1000)]),
            (''flushIntervalMs'',
             JObj
               [(''type'', JStr ''integer''),
                (''minimum'', JNum 100),
                (''maximum'', JNum 60000),
                (''default'', JNum 5000)]),
            (''persistToDisk'', JObj [(''type'', JStr ''boolean''), (''default'', JBool False)]),
            (''persistPath'',
             JObj [(''type'', JStr ''string''), (''description'', JStr ''Path for queue persistence'')])])]"

definition logging_schema :: jsval where
  "logging_schema =
     JObj
       [(''type'', JStr ''object''),
        (''description'', JStr ''Logging configuration''),
        (''properties'',
         JObj
           [(''debug'', JObj [(''type'', JStr ''boolean''), (''default'', JBool False)]),
            (''logSuccess'', JObj [(''type'', JStr ''boolean''), (''default'', JBool False)]),
            (''logErrors'', JObj [(''type'', JStr ''boolean''), (''default'', JBool True)]),
            (''logQueue'', JObj [(''type'', JStr ''boolean''), (''default'', JBool False)])])]"

definition status_schema :: jsval where
  "status_schema =
     JObj
       [(''type'', JStr ''object''),
        (''description'', JStr ''Synthetic status reducer windows and ticker interval''),
        (''properties'',
         JObj
           [(''workingWindowMs'',
             JObj
               [(''type'', JStr ''integer''),
                (''minimum'', JNum 1000),
                (''maximum'', JNum 120000),
                (''default'', JNum 30000),
                (''description'', JStr ''Events newer than this are considered working'')]),
            (''sleepingWindowMs'',
             JObj
               [(''type'', JStr ''integer''),
                (''minimum'', JNum 10000),
                (''maximum'', JNum 86400000),
                (''default'', JNum 600000),
                (''description'', JStr ''Events older than this are considered sleeping'')]),
            (''tickIntervalMs'',
             JObj
               [(''type'', JStr ''integer''),
                (''minimum'', JNum 1000),
                (''maximum'', JNum 60000),
                (''default'', JNum 5000),
                (''description'', JStr ''Interval for synthetic status transition checks'')]),
            (''subagentIdleWindowMs'',
             JObj
               [(''type'', JStr ''integer''),
                (''minimum'', JNum 10000),
                (''maximum'', JNum 86400000),
                (''default'', JNum 300000),
                (''description'', JStr ''Subagent idle threshold for synthetic subagent.idle events'')])])]"

definition redaction_schema :: jsval where
  "redaction_schema =
     JObj
       [(''type'', JStr ''object''),
        (''description'', JStr ''Optional payload redaction before transport''),
        (''properties'',
         JObj
           [(''enabled'', JObj [(''type'', JStr ''boolean''), (''default'', JBool False)]),
            (''replacement'', JObj [(''type'', JStr ''string''), (''default'', JStr ''[REDACTED]'')]),
            (''fields'',
             JObj
               [(''type'', JStr ''array''),
                (''items'', JObj [(''type'', JStr ''string'')]),
                (''default'', strs (rd_fields (pc_redaction DEFAULT_CONFIG)))])])]"

definition privacy_schema :: jsval where
  "privacy_schema =
     JObj
       [(''type'', JStr ''object''),
        (''description'', JStr ''Privacy controls for modern lifecycle hook payloads''),
        (''properties'',
         JObj
           [(''payloadMode'',
             JObj
               [(''type'', JStr ''string''),
                (''enum'', strs [''metadata'', ''full'']),
                (''default'', JStr (pv_payloadMode (pc_privacy DEFAULT_CONFIG))),
                (''description'',
                 JStr ''Emit metadata-only lifecycle payloads by default, or opt into full raw prompt/model content'')])])]"

definition eventLog_schema :: jsval where
  "eventLog_schema =
     JObj
       [(''type'', JStr ''object''),
        (''description'', JStr ''Event and runtime log file output''),
        (''properties'',
         JObj
           [(''enabled'', JObj [(''type'', JStr ''boolean''), (''default'', JBool True)]),
            (''path'',
             JObj
               [(''type'', JStr ''string''),
                (''description'', JStr ''NDJSON log file path''),
                (''default'', JStr ''.event-server/events.ndjson'')]),
            (''maxFileSizeMb'',
             JObj
               [(''type'', JStr ''integer''),
                (''minimum'', JNum 1),
                (''maximum'', JNum 1024),
                (''default'', JNum 30),
                (''description'', JStr ''Maximum NDJSON log file size before truncation rollover (MB)'')]),
            (''format'',
             JObj
               [(''type'', JStr ''string''),
                (''enum'', strs [''full-json'', ''summary'']),
                (''default'', JStr ''full-json'')]),
            (''minLevel'',
             JObj
               [(''type'', JStr ''string''),
                (''enum'', strs [''debug'', ''info'', ''warn'', ''error'']),
                (''default'', JStr ''debug'')]),
            (''includeRuntimeLogs'', JObj [(''type'', JStr ''boolean''), (''default'', JBool True)])])]"

definition security_schema :: jsval where
  "security_schema =
     JObj
       [(''type'', JStr ''object''),
        (''description'', JStr ''WebSocket and event signing security options''),
        (''properties'',
         JObj
           [(''ws'',
             JObj
               [(''type'', JStr ''object''),
                (''properties'',
                 JObj
                   [(''bindAddress'', JObj [(''type'', JStr ''string''), (''default'', JStr ''127.0.0.1'')]),
                    (''requireAuth'', JObj [(''type'', JStr ''boolean''), (''default'', JBool False)]),
                    (''authToken'', JObj [(''type'', JStr ''string'')]),
                    (''allowedOrigins'',
                     JObj
                       [(''type'', JStr ''array''),
                        (''items'', JObj [(''type'', JStr ''string'')]),
                        (''default'', JArr [])]),
                    (''allowedIps'',
                     JObj
                       [(''type'', JStr ''array''),
                        (''items'', JObj [(''type'', JStr ''string'')]),
                        (''default'', JArr [])])])]),
            (''hmac'',
             JObj
               [(''type'', JStr ''object''),
                (''properties'',
                 JObj
                   [(''enabled'', JObj [(''type'', JStr ''boolean''), (''default'', JBool False)]),
                    (''secret'', JObj [(''type'', JStr ''string'')]),
                    (''secretFilePath'',
                     JObj [(''type'', JStr ''string''), (''default'', JStr ''.event-plugin-hmac.secret'')]),
                    (''algorithm'',
                     JObj
                       [(''type'', JStr ''string''),
                        (''enum'', strs [''sha256'', ''sha512'']),
                        (''default'', JStr ''sha256'')])])])])]"

definition CONFIG_SCHEMA :: jsval where
  "CONFIG_SCHEMA =
     JObj
       [(''type'', JStr ''object''),
        (''additionalProperties'', JBool False),
        (''properties'',
         JObj
           [(''enabled'',
             JObj
               [(''type'', JStr ''boolean''),
                (''description'', JStr ''Enable/disable the plugin''),
                (''default'', JBool True)]),
            (''transport'', transport_schema),
            (''webhooks'', webhooks_schema),
            (''filters'', filters_schema),
            (''retry'', retry_schema),
            (''queue'', queue_schema),
            (''logging'', logging_schema),
            (''status'', status_schema),
            (''redaction'', redaction_schema),
            (''privacy'', privacy_schema),
            (''eventLog'', eventLog_schema),
            (''security'', security_schema),
            (''correlationIdHeader'',
             JObj [(''type'', JStr ''string''), (''default'', JStr ''X-Correlation-ID'')]),
            (''webhookTimeoutMs'',
             JObj
               [(''type'', JStr ''integer''),
                (''minimum'', JNum 1000),
                (''maximum'', JNum 60000),
                (''default'', JNum 10000)]),
            (''hookBridge'', HOOK_BRIDGE_SCHEMA)])]"

section \<open>Defaults\<close>

text \<open>
  In the schema \<open>s\<close> and down to \<open>n\<close> levels below it, a default that is named is the value that \<open>v\<close> has
  there.
\<close>

fun defaults_agree :: "nat \<Rightarrow> jsval \<Rightarrow> jsval \<Rightarrow> bool" where
  "defaults_agree 0 s v \<longleftrightarrow> jprop s ''default'' = JUndef \<or> jprop s ''default'' = v"
| "defaults_agree (Suc n) s v \<longleftrightarrow>
     (jprop s ''default'' = JUndef \<or> jprop s ''default'' = v) \<and>
     list_all (\<lambda>(k, t). defaults_agree n t (jprop v k)) (spread_of (jprop s ''properties''))"

lemma leaf_agrees:
  "jprop s ''properties'' = JUndef \<Longrightarrow> defaults_agree n s v \<longleftrightarrow> jprop s ''default'' = JUndef \<or> jprop s ''default'' = v"
  by (cases n) simp_all

lemma section_agrees:
  assumes "jprop s ''default'' = JUndef" "list_all (\<lambda>(k, t). \<forall>m. defaults_agree m t (jprop v k)) (spread_of (jprop s ''properties''))"
  shows "defaults_agree n s v"
  using assms by (cases n) (auto simp: list_all_iff)

named_theorems default_values

lemma default_settings [default_values]:
  "oget default_object ''enabled'' = JBool True" "oget default_object ''webhooks'' = JArr []"
  "oget default_object ''correlationIdHeader'' = JStr ''X-Correlation-ID''" "oget default_object ''webhookTimeoutMs'' = JNum 10000"
  "oget default_object ''transport'' = transport_object (pc_transport DEFAULT_CONFIG)"
  "oget default_object ''redaction'' = redaction_object default_redaction"
  "oget default_object ''hookBridge'' = default_hookBridge_object"
  "pc_redaction DEFAULT_CONFIG = default_redaction"
  by (simp_all add: default_object_def DEFAULT_CONFIG_def Let_def)

lemma plain_sections_agree:
  "defaults_agree n transport_schema (transport_object (pc_transport DEFAULT_CONFIG))"
  "defaults_agree n filters_schema (oget default_object ''filters'')"
  "defaults_agree n retry_schema (oget default_object ''retry'')"
  "defaults_agree n queue_schema (oget default_object ''queue'')"
  "defaults_agree n logging_schema (oget default_object ''logging'')"
  "defaults_agree n status_schema (oget default_object ''status'')"
  "defaults_agree n redaction_schema (redaction_object default_redaction)"
  "defaults_agree n privacy_schema (oget default_object ''privacy'')"
  "defaults_agree n eventLog_schema (oget default_object ''eventLog'')"
  by (rule section_agrees; simp add: leaf_agrees transport_schema_def filters_schema_def retry_schema_def queue_schema_def
      logging_schema_def status_schema_def redaction_schema_def privacy_schema_def eventLog_schema_def default_values;
      simp add: default_object_def DEFAULT_CONFIG_def transport_object_def redaction_object_def default_redaction_def Let_def)+

lemma webhooks_agree: "defaults_agree n webhooks_schema (JArr [])"
  by (simp add: leaf_agrees webhooks_schema_def)

lemma security_agrees: "defaults_agree n security_schema (oget default_object ''security'')"
  by (rule section_agrees; simp add: security_schema_def; (intro allI conjI)?; (rule section_agrees)?;
      simp add: leaf_agrees; simp add: default_object_def DEFAULT_CONFIG_def ws_object_def hmac_object_def strs_def Let_def)

lemma bridge_sections_agree:
  "defaults_agree n script_defaults_schema (jprop default_hookBridge_object ''localScriptDefaults'')"
  "defaults_agree n actions_schema (JObj [])"
  "defaults_agree n rules_schema (JArr [])"
  "defaults_agree n runtime_schema (jprop default_hookBridge_object ''runtime'')"
  "defaults_agree n telemetry_schema (jprop default_hookBridge_object ''telemetry'')"
  by (simp_all add: leaf_agrees actions_schema_def rules_schema_def)
    (rule section_agrees; simp add: leaf_agrees script_defaults_schema_def runtime_schema_def telemetry_schema_def;
      simp add: default_hookBridge_object_def DEFAULT_CONFIG_def default_hookBridge_def Let_def)+

lemma guard_agrees: "defaults_agree n toolGuard_schema (jprop default_hookBridge_object ''toolGuard'')"
proof (rule section_agrees)
  show "list_all (\<lambda>(k, t). \<forall>m. defaults_agree m t (jprop (jprop default_hookBridge_object ''toolGuard'') k))
      (spread_of (jprop toolGuard_schema ''properties''))"
    by (simp add: toolGuard_schema_def guard_rules_schema_def leaf_agrees; (intro conjI allI)?; (rule section_agrees)?;
        (simp add: leaf_agrees)?; simp add: default_hookBridge_object_def DEFAULT_CONFIG_def default_hookBridge_def default_toolGuard_def
          redaction_object_def default_redaction_def Let_def)
qed (simp add: toolGuard_schema_def)

lemma bridge_agrees: "defaults_agree n HOOK_BRIDGE_SCHEMA default_hookBridge_object"
proof (rule section_agrees)
  have v: "jprop default_hookBridge_object ''enabled'' = JBool False" "jprop default_hookBridge_object ''dryRun'' = JBool False"
    "jprop default_hookBridge_object ''allowedActionDirs'' = JArr []" "jprop default_hookBridge_object ''actions'' = JObj []"
    "jprop default_hookBridge_object ''rules'' = JArr []"
    by (simp_all add: default_hookBridge_object_def DEFAULT_CONFIG_def default_hookBridge_def strs_def Let_def)
  show "list_all (\<lambda>(k, t). \<forall>m. defaults_agree m t (jprop default_hookBridge_object k))
      (spread_of (jprop HOOK_BRIDGE_SCHEMA ''properties''))"
    by (simp add: HOOK_BRIDGE_SCHEMA_def leaf_agrees bridge_sections_agree guard_agrees v)
qed (simp add: HOOK_BRIDGE_SCHEMA_def)

text \<open>
  At every depth, wherever the schema names a default it is the default of the code, and the
  settings that the schema allows at the top level are exactly those of the default configuration.
\<close>

theorem schema_defaults_agree:
  "defaults_agree n CONFIG_SCHEMA (JObj default_object) \<and>
   set (map fst (spread_of (jprop CONFIG_SCHEMA ''properties''))) = set (mkeys default_object)"
proof
  show "defaults_agree n CONFIG_SCHEMA (JObj default_object)"
    by (rule section_agrees; simp add: CONFIG_SCHEMA_def default_values leaf_agrees plain_sections_agree webhooks_agree
        security_agrees bridge_agrees)
  show "set (map fst (spread_of (jprop CONFIG_SCHEMA ''properties''))) = set (mkeys default_object)"
    by (simp add: CONFIG_SCHEMA_def default_object_def Let_def)
qed

section \<open>Limits\<close>

fun schema_at :: "jsval \<Rightarrow> string list \<Rightarrow> jsval" where
  "schema_at s [] = s"
| "schema_at s (k # ks) = schema_at (jprop (jprop s ''properties'') k) ks"

definition at_least :: "jsval \<Rightarrow> rat \<Rightarrow> bool" where
  "at_least s v \<longleftrightarrow> (case jprop s ''minimum'' of JNum lo \<Rightarrow> of_int lo \<le> v | _ \<Rightarrow> True)"

definition at_most :: "jsval \<Rightarrow> rat \<Rightarrow> bool" where
  "at_most s v \<longleftrightarrow> (case jprop s ''maximum'' of JNum hi \<Rightarrow> v \<le> of_int hi | _ \<Rightarrow> True)"

definition allows_choice :: "jsval \<Rightarrow> string \<Rightarrow> bool" where
  "allows_choice s x \<longleftrightarrow> (case jprop s ''enum'' of JArr xs \<Rightarrow> JStr x \<in> set xs | _ \<Rightarrow> True)"

text \<open>
  The settings with a fixed path, at most \<open>n\<close> levels below a schema, whose schema satisfies \<open>P\<close>; the entries of
  arrays (\<open>items\<close>) and of maps (\<open>additionalProperties\<close>) have no fixed path.
\<close>

fun paths_with :: "(jsval \<Rightarrow> bool) \<Rightarrow> nat \<Rightarrow> jsval \<Rightarrow> string list list" where
  "paths_with P 0 s = (if P s then [[]] else [])"
| "paths_with P (Suc n) s =
     (if P s then [[]] else []) @
     concat (map (\<lambda>(k, t). map ((#) k) (paths_with P n t)) (spread_of (jprop s ''properties'')))"

definition limits :: "jsval \<Rightarrow> bool" where
  "limits s \<longleftrightarrow> jprop s ''minimum'' \<noteq> JUndef \<or> jprop s ''maximum'' \<noteq> JUndef"

definition enumerates :: "jsval \<Rightarrow> bool" where
  "enumerates s \<longleftrightarrow> jprop s ''enum'' \<noteq> JUndef"

text \<open>The numeric settings of a configuration.\<close>

definition general_settings :: "PluginConfig \<Rightarrow> (string list \<times> rat) list" where
  "general_settings c =
     [([''transport'', ''lockStaleMs''], of_int (tc_lockStaleMs (pc_transport c))),
      ([''transport'', ''heartbeatMs''], of_int (tc_heartbeatMs (pc_transport c))),
      ([''transport'', ''relayTimeoutMs''], of_int (tc_relayTimeoutMs (pc_transport c))),
      ([''transport'', ''reconnectBackoffMs''], of_int (tc_reconnectBackoffMs (pc_transport c))),
      ([''transport'', ''maxPendingEvents''], of_int (tc_maxPendingEvents (pc_transport c))),
      ([''transport'', ''maxPayloadBytes''], of_int (tc_maxPayloadBytes (pc_transport c))),
      ([''transport'', ''dedupeTtlMs''], of_int (tc_dedupeTtlMs (pc_transport c))),
      ([''retry'', ''maxAttempts''], of_int (rt_maxAttempts (pc_retry c))),
      ([''retry'', ''initialDelayMs''], rt_initialDelayMs (pc_retry c)),
      ([''retry'', ''maxDelayMs''], rt_maxDelayMs (pc_retry c)),
      ([''retry'', ''backoffMultiplier''], rt_backoffMultiplier (pc_retry c)),
      ([''queue'', ''maxSize''], of_int (qc_maxSize (pc_queue c))),
      ([''queue'', ''flushIntervalMs''], of_int (qc_flushIntervalMs (pc_queue c))),
      ([''status'', ''workingWindowMs''], of_int (st_workingWindowMs (pc_status c))),
      ([''status'', ''sleepingWindowMs''], of_int (st_sleepingWindowMs (pc_status c))),
      ([''status'', ''tickIntervalMs''], of_int (st_tickIntervalMs (pc_status c))),
      ([''status'', ''subagentIdleWindowMs''], of_int (st_subagentIdleWindowMs (pc_status c))),
      ([''eventLog'', ''maxFileSizeMb''], of_int (el_maxFileSizeMb (pc_eventLog c))),
      ([''webhookTimeoutMs''], of_int (pc_webhookTimeoutMs c))]"

definition bridge_settings :: "HookBridgeConfig \<Rightarrow> (string list \<times> rat) list" where
  "bridge_settings b =
     [([''hookBridge'', ''localScriptDefaults'', ''timeoutMs''], of_int (ls_timeoutMs (hb_localScriptDefaults b))),
      ([''hookBridge'', ''localScriptDefaults'', ''maxPayloadBytes''], of_int (ls_maxPayloadBytes (hb_localScriptDefaults b))),
      ([''hookBridge'', ''toolGuard'', ''timeoutMs''], of_int (tg_timeoutMs (hb_toolGuard b))),
      ([''hookBridge'', ''toolGuard'', ''retryBackoffMs''], of_int (tg_retryBackoffMs (hb_toolGuard b))),
      ([''hookBridge'', ''toolGuard'', ''approvalCacheTtlMs''], of_int (tg_approvalCacheTtlMs (hb_toolGuard b))),
      ([''hookBridge'', ''runtime'', ''maxPendingEvents''], of_int (hr_maxPendingEvents (hb_runtime b))),
      ([''hookBridge'', ''runtime'', ''concurrency''], of_int (hr_concurrency (hb_runtime b))),
      ([''hookBridge'', ''telemetry'', ''slowActionMs''], of_int (ht_slowActionMs (hb_telemetry b))),
      ([''hookBridge'', ''telemetry'', ''failureRateWindowMs''], of_int (ht_failureRateWindowMs (hb_telemetry b))),
      ([''hookBridge'', ''telemetry'', ''failureRateThresholdPct''], ht_failureRateThresholdPct (hb_telemetry b)),
      ([''hookBridge'', ''telemetry'', ''failureRateMinSamples''], of_int (ht_failureRateMinSamples (hb_telemetry b))),
      ([''hookBridge'', ''telemetry'', ''saturationWindowMs''], of_int (ht_saturationWindowMs (hb_telemetry b)))]"

definition choice_settings :: "PluginConfig \<Rightarrow> (string list \<times> string) list" where
  "choice_settings c =
     [([''transport'', ''mode''], tc_mode (pc_transport c)),
      ([''privacy'', ''payloadMode''], pv_payloadMode (pc_privacy c)),
      ([''eventLog'', ''format''], el_format (pc_eventLog c)),
      ([''eventLog'', ''minLevel''], el_minLevel (pc_eventLog c)),
      ([''security'', ''hmac'', ''algorithm''], hm_algorithm (sec_hmac (pc_security c))),
      ([''hookBridge'', ''toolGuard'', ''onError''], tg_onError (hb_toolGuard (pc_hookBridge c))),
      ([''hookBridge'', ''toolGuard'', ''scopeKeyBy''],
       default_to ''tool_and_params'' (tg_scopeKeyBy (hb_toolGuard (pc_hookBridge c)))),
      ([''hookBridge'', ''runtime'', ''dropPolicy''], hr_dropPolicy (hb_runtime (pc_hookBridge c)))]"

text \<open>The sections whose maxima only the schema knows.\<close>

definition unbounded_in_code :: "string list \<Rightarrow> bool" where
  "unbounded_in_code p \<longleftrightarrow> take 1 p = [''transport''] \<or> take 2 p = [''hookBridge'', ''localScriptDefaults'']"

lemmas section_schemas = transport_schema_def retry_schema_def queue_schema_def status_schema_def eventLog_schema_def
  privacy_schema_def security_schema_def

lemmas bridge_schemas = script_defaults_schema_def toolGuard_schema_def runtime_schema_def telemetry_schema_def

lemma settings_complete:
  "map fst (general_settings c @ bridge_settings b) = paths_with limits 3 CONFIG_SCHEMA"
  by (simp add: limits_def general_settings_def bridge_settings_def CONFIG_SCHEMA_def HOOK_BRIDGE_SCHEMA_def section_schemas bridge_schemas
      webhooks_schema_def filters_schema_def logging_schema_def redaction_schema_def actions_schema_def rules_schema_def guard_rules_schema_def eval_nat_numeral)

lemma choices_complete: "map fst (choice_settings c) = paths_with enumerates 3 CONFIG_SCHEMA"
  by (simp add: enumerates_def strs_def choice_settings_def CONFIG_SCHEMA_def HOOK_BRIDGE_SCHEMA_def section_schemas bridge_schemas
      webhooks_schema_def filters_schema_def logging_schema_def redaction_schema_def actions_schema_def rules_schema_def guard_rules_schema_def eval_nat_numeral)

lemma section_at:
  "jprop (jprop CONFIG_SCHEMA ''properties'') ''transport'' = transport_schema"
  "jprop (jprop CONFIG_SCHEMA ''properties'') ''retry'' = retry_schema"
  "jprop (jprop CONFIG_SCHEMA ''properties'') ''queue'' = queue_schema"
  "jprop (jprop CONFIG_SCHEMA ''properties'') ''status'' = status_schema"
  "jprop (jprop CONFIG_SCHEMA ''properties'') ''privacy'' = privacy_schema"
  "jprop (jprop CONFIG_SCHEMA ''properties'') ''eventLog'' = eventLog_schema"
  "jprop (jprop CONFIG_SCHEMA ''properties'') ''security'' = security_schema"
  "jprop (jprop CONFIG_SCHEMA ''properties'') ''hookBridge'' = HOOK_BRIDGE_SCHEMA"
  "jprop (jprop CONFIG_SCHEMA ''properties'') ''webhookTimeoutMs'' =
     JObj [(''type'', JStr ''integer''), (''minimum'', JNum 1000), (''maximum'', JNum 60000), (''default'', JNum 10000)]"
  "jprop (jprop HOOK_BRIDGE_SCHEMA ''properties'') ''localScriptDefaults'' = script_defaults_schema"
  "jprop (jprop HOOK_BRIDGE_SCHEMA ''properties'') ''toolGuard'' = toolGuard_schema"
  "jprop (jprop HOOK_BRIDGE_SCHEMA ''properties'') ''runtime'' = runtime_schema"
  "jprop (jprop HOOK_BRIDGE_SCHEMA ''properties'') ''telemetry'' = telemetry_schema"
  by (simp_all add: CONFIG_SCHEMA_def HOOK_BRIDGE_SCHEMA_def)

definition in_limits :: "string list \<times> rat \<Rightarrow> bool" where
  "in_limits = (\<lambda>(p, v). at_least (schema_at CONFIG_SCHEMA p) v \<and>
     (unbounded_in_code p \<or> at_most (schema_at CONFIG_SCHEMA p) v))"

lemma general_limits:
  assumes "validate_transport (pc_transport c) = []" "validate_delivery c = []" "validate_status (pc_status c) = []"
    "validate_outputs c = []" "validate_security h c = []"
  shows "list_all in_limits (general_settings c)"
  using assms
  by (simp add: general_settings_def in_limits_def section_at section_schemas at_least_def at_most_def unbounded_in_code_def
      validate_transport_def validate_delivery_def validate_status_def validate_outputs_def validate_security_def outside_def
      Let_def not_less not_le)

lemma bridge_limits:
  assumes "validate_bridge_limits b = []"
  shows "list_all in_limits (bridge_settings b)"
  using assms
  by (simp add: bridge_settings_def in_limits_def section_at bridge_schemas at_least_def at_most_def unbounded_in_code_def
      validate_bridge_limits_def outside_def Let_def not_less not_le)

lemma choices_allowed:
  assumes "fst (validateConfig h c)"
  shows "list_all (\<lambda>(p, x). allows_choice (schema_at CONFIG_SCHEMA p) x) (choice_settings c)"
proof -
  from assms have "validate_transport (pc_transport c) = []" "validate_outputs c = []" "validate_security h c = []"
    "validate_bridge_limits (pc_hookBridge c) = []"
    by (simp_all add: valid_parts validateHookBridgeConfig_def)
  then show ?thesis
    by (simp add: choice_settings_def section_at section_schemas bridge_schemas allows_choice_def strs_def validate_transport_def
        validate_outputs_def validate_security_def validate_bridge_limits_def Let_def)
qed

text \<open>
  C34. How far validateConfig enforces the schema given to the host. Of a configuration that it accepts, every
  setting with a fixed path that the schema limits is at least its minimum and, with the exception of the transport section and
  the script defaults, at most its maximum; every setting with a fixed path for which the schema lists choices is one of
  them. The lists of settings are all that the schema has outside arrays and maps. The maxima of
  the two excepted sections are not enforced at all (\<open>maxima_only_in_schema\<close>), and the entries of arrays and
  maps (\<open>webhooks\<close>, \<open>filters\<close>, the bridge's actions and rules) are outside this property.
\<close>

theorem valid_config_meets_schema:
  assumes "fst (validateConfig h c)"
  shows "map fst (general_settings c @ bridge_settings (pc_hookBridge c)) = paths_with limits 3 CONFIG_SCHEMA \<and>
    map fst (choice_settings c) = paths_with enumerates 3 CONFIG_SCHEMA \<and>
    list_all (\<lambda>(p, v). at_least (schema_at CONFIG_SCHEMA p) v \<and>
        (unbounded_in_code p \<or> at_most (schema_at CONFIG_SCHEMA p) v))
      (general_settings c @ bridge_settings (pc_hookBridge c)) \<and>
    list_all (\<lambda>(p, x). allows_choice (schema_at CONFIG_SCHEMA p) x) (choice_settings c)"
proof -
  have "list_all in_limits (general_settings c)" "list_all in_limits (bridge_settings (pc_hookBridge c))"
    using assms by (simp_all add: valid_parts validateHookBridgeConfig_def general_limits [where h = h] bridge_limits)
  then show ?thesis
    using settings_complete [of c "pc_hookBridge c"] choices_complete choices_allowed [OF assms] by (simp add: in_limits_def)
qed

theorem valid_config_meets_schema_witness:
  "at_most (schema_at CONFIG_SCHEMA [''webhookTimeoutMs'']) (of_int (pc_webhookTimeoutMs signed_config))"
proof -
  from valid_config_meets_schema [OF signed_config_valid]
  have "list_all (\<lambda>(p, v). at_least (schema_at CONFIG_SCHEMA p) v \<and>
      (unbounded_in_code p \<or> at_most (schema_at CONFIG_SCHEMA p) v)) (general_settings signed_config)" by simp
  then show ?thesis by (simp add: general_settings_def unbounded_in_code_def)
qed

text \<open>
  The excepted maxima are only in the schema: a configuration that exceeds every one of them is accepted.
\<close>

definition loose_config :: PluginConfig where
  "loose_config = DEFAULT_CONFIG
     \<lparr> pc_transport := (pc_transport DEFAULT_CONFIG)\<lparr> tc_lockStaleMs := 1000000001, tc_heartbeatMs := 1000000000,
         tc_relayTimeoutMs := 1000000000, tc_reconnectBackoffMs := 1000000000, tc_maxPendingEvents := 1000000000,
         tc_maxPayloadBytes := 1000000000, tc_dedupeTtlMs := 1000000000 \<rparr>,
       pc_hookBridge := (pc_hookBridge DEFAULT_CONFIG)\<lparr> hb_localScriptDefaults :=
         (hb_localScriptDefaults (pc_hookBridge DEFAULT_CONFIG))
           \<lparr> ls_timeoutMs := 1000000000, ls_maxPayloadBytes := 1000000000 \<rparr> \<rparr> \<rparr>"

lemma loose_config_valid: "fst (validateConfig sample_host loose_config)"
  by code_simp

lemma maxima_only_in_schema:
  "fst (validateConfig sample_host loose_config) \<and>
   list_all (\<lambda>(p, v). unbounded_in_code p \<longrightarrow> \<not> at_most (schema_at CONFIG_SCHEMA p) v)
     (general_settings loose_config @ bridge_settings (pc_hookBridge loose_config))"
  by (rule conjI [OF loose_config_valid])
    (simp add: general_settings_def bridge_settings_def loose_config_def unbounded_in_code_def section_at section_schemas
      bridge_schemas at_most_def)

end
