(* ===== verification/PluginRuntime.thy ===== *)
theory PluginRuntime imports Provenance LifecycleEvents StatusReducer RunTrackers Redaction ToolGuard RuntimeConfig begin

text \<open>
  The runtime that the hooks of the plugin share: the state of \<open>src/runtime/types.ts\<close>, the tool
  call tracker of \<open>src/hooks/tool-hooks.ts\<close> and the event operations of
  \<open>src/runtime/runtime-events.ts\<close>.  A hook handler is asynchronous: at every \<open>await\<close> it hands
  control back and other handlers run on the same state.  A handler is therefore a function from
  the state to the state and an \<open>outcome\<close>: it has returned, it has thrown, or it waits for a
  request with a continuation that takes the state as it is when the request settles.
\<close>

section \<open>Tool calls (hooks/tool-hooks.ts)\<close>

record ActiveCall =
  cl_startTime :: int
  cl_toolName :: string
  cl_params :: jsval
  cl_runId :: "string option"
  cl_toolCallId :: "string option"
  cl_sessionId :: "string option"
  cl_sessionKey :: "string option"
  cl_agentId :: "string option"
  cl_correlationId :: "string option"

record call_context =
  cc_runId :: "string option"
  cc_toolCallId :: "string option"
  cc_sessionId :: "string option"
  cc_sessionKey :: "string option"
  cc_agentId :: "string option"
  cc_correlationId :: "string option"

type_synonym active_calls = "(string, ActiveCall) jsmap"

text \<open>None: the tool name is empty and \<open>startCall\<close> throws. \<open>fresh\<close> is a new uuid.\<close>

definition startCall :: "string \<Rightarrow> string \<Rightarrow> jsval \<Rightarrow> call_context \<Rightarrow> int \<Rightarrow> active_calls \<Rightarrow> (string \<times> active_calls) option" where
  "startCall fresh toolName params c now m =
     (if toolName = [] then None
      else
        let callId = default_to fresh (cc_toolCallId c) in
        Some (callId, mput callId
          \<lparr> cl_startTime = now, cl_toolName = toolName, cl_params = params, cl_runId = cc_runId c,
            cl_toolCallId = cc_toolCallId c, cl_sessionId = cc_sessionId c, cl_sessionKey = cc_sessionKey c,
            cl_agentId = cc_agentId c, cl_correlationId = cc_correlationId c \<rparr> m))"

text \<open>The call with its duration.\<close>

definition endCall :: "string \<Rightarrow> int \<Rightarrow> active_calls \<Rightarrow> (int \<times> ActiveCall) option \<times> active_calls" where
  "endCall callId now m =
     (case mget m callId of
        None \<Rightarrow> (None, m)
      | Some call \<Rightarrow> (Some (now - cl_startTime call, call), mdel callId m))"

definition getCall :: "string \<Rightarrow> active_calls \<Rightarrow> ActiveCall option" where
  "getCall callId m = mget m callId"

definition getActiveCallCount :: "active_calls \<Rightarrow> nat" where
  "getActiveCallCount m = length m"

definition clear_calls :: "active_calls \<Rightarrow> active_calls" where
  "clear_calls m = []"

section \<open>The state of the plugin (runtime/types.ts)\<close>

record PendingToolCall =
  pd_callId :: string
  pd_correlationId :: "string option"
  pd_agentId :: "string option"

text \<open>
  \<open>ps_pendingByContext\<close> is the weak map from context objects; a context is known by a number.
  \<open>ps_uuids\<close> counts the ids drawn so far and \<open>ps_now\<close> is the clock.
\<close>

record plugin_state =
  ps_toolTracker :: active_calls
  ps_pendingToolCalls :: "(string, PendingToolCall) jsmap"
  ps_pendingByContext :: "(nat, PendingToolCall) jsmap"
  ps_sessionTracker :: tracker
  ps_agentRunTracker :: run_snapshots
  ps_statusReducer :: reducer
  ps_subagentTracker :: subagents
  ps_hasQueue :: bool
  ps_isFollower :: bool
  ps_uuids :: nat
  ps_now :: int

text \<open>What does not change while the plugin runs. \<open>pl_le\<close> is \<open>localeCompare\<close>, \<open>pl_toISO\<close> the date format.\<close>

record plugin_env =
  pn_config :: PluginConfig
  pn_hasBridge :: bool
  pn_uuid :: "nat \<Rightarrow> string"
  pn_toISO :: "int \<Rightarrow> string"
  pn_le :: "string \<Rightarrow> string \<Rightarrow> bool"

definition env_at :: "plugin_env \<Rightarrow> plugin_state \<Rightarrow> event_env" where
  "env_at H s = \<lparr> ev_uuid = pn_uuid H, ev_nowIso = pn_toISO H (ps_now s) \<rparr>"

section \<open>Handlers\<close>

datatype request =
    BroadcastEvent event
  | EvaluateGuard tool_call
  | Yield

text \<open>The guard's decision is the value of \<open>EvaluateGuard\<close>; the other requests have none.\<close>

datatype 'r outcome =
    Returned 'r
  | Threw
  | Await request "HookBridgeGuardDecisionOutcome option \<times> plugin_state \<Rightarrow> plugin_state \<times> 'r outcome"

type_synonym 'r handler = "plugin_state \<Rightarrow> plugin_state \<times> 'r outcome"

definition returns_with :: "'r \<Rightarrow> 'r handler" where
  "returns_with r s = (s, Returned r)"

definition throws :: "'r handler" where
  "throws s = (s, Threw)"

text \<open>\<open>await ops.broadcastEvent(event)\<close>, then the continuation.\<close>

definition broadcasting :: "event \<Rightarrow> 'r handler \<Rightarrow> 'r handler" where
  "broadcasting ev k s = (s, Await (BroadcastEvent ev) (\<lambda>(d, s'). k s'))"

text \<open>An event is built with the clock and the ids of the moment.\<close>

definition building :: "plugin_env \<Rightarrow> (event_env \<Rightarrow> nat \<Rightarrow> event \<times> nat) \<Rightarrow> (event \<Rightarrow> 'r handler) \<Rightarrow> 'r handler" where
  "building H mk k s =
     (case mk (env_at H s) (ps_uuids s) of (ev, n) \<Rightarrow> k ev (s\<lparr>ps_uuids := n\<rparr>))"

section \<open>Event operations (runtime/runtime-events.ts)\<close>

fun status_str :: "AgentSyntheticStatus \<Rightarrow> string" where
  "status_str Offline = ''offline''"
| "status_str ErrorStatus = ''error''"
| "status_str Sleeping = ''sleeping''"
| "status_str Working = ''working''"
| "status_str Idle = ''idle''"

definition by_agent :: "string option \<Rightarrow> who" where
  "by_agent a = \<lparr> who_agentId = a, who_sessionId = None, who_sessionKey = None, who_runId = None, who_correlationId = None \<rparr>"

definition transition_metadata :: "AgentStatus \<Rightarrow> jsval" where
  "transition_metadata t =
     JObj [(''reason'', JStr (st_reason t)), (''activeSessionCount'', JNum (int (st_activeSessionCount t))),
       (''lastActiveAt'', of_str (st_lastActiveAt t))]"

primrec broadcast_transitions ::
  "plugin_env \<Rightarrow> string option \<Rightarrow> (string \<times> AgentStatus) list \<Rightarrow> 'r handler \<Rightarrow> 'r handler" where
  "broadcast_transitions H src [] k = k"
| "broadcast_transitions H src (t # ts) k =
     building H (\<lambda>E. createAgentStatusEvent E (by_agent (Some (fst t))) (status_str (st_status (snd t)))
         (Some (st_activity (snd t))) (Some (st_activityDetail (snd t))) src (transition_metadata (snd t)))
       (\<lambda>ev. broadcasting ev (broadcast_transitions H src ts k))"

definition emitAgentStatusTransitions :: "plugin_env \<Rightarrow> string option \<Rightarrow> 'r handler \<Rightarrow> 'r handler" where
  "emitAgentStatusTransitions H src k s =
     (case evaluateTransitions (pn_toISO H) (ps_now s) (ps_statusReducer s) of
        (ts, re) \<Rightarrow> broadcast_transitions H src ts k (s\<lparr>ps_statusReducer := re\<rparr>))"

definition spawn_of :: "SubagentRecord \<Rightarrow> spawn_context" where
  "spawn_of t =
     \<lparr> sx_parentAgentId = su_parentAgentId t, sx_childAgentId = su_childAgentId t,
       sx_parentSessionId = su_parentSessionId t, sx_parentSessionKey = su_parentSessionKey t,
       sx_childSessionKey = Some (su_childSessionKey t), sx_runId = su_runId t, sx_mode = su_mode t \<rparr>"

definition idle_activity :: "int \<Rightarrow> string option \<Rightarrow> SubagentRecord \<Rightarrow> activity_context" where
  "idle_activity idleMs src t =
     \<lparr> ax_activity = ''Subagent Idle'',
       ax_activityDetail = Some (''Subagent '' @ su_childSessionKey t @ '' idle for '' @ show_int (idleMs div 1000) @ ''s''),
       ax_sourceEventType = Some (default_to ''subagent.idle'' src), ax_toolName = None, ax_toolStatus = None,
       ax_metadata = JObj [(''subagentKey'', JStr (su_subagentKey t)), (''childAgentId'', of_str (su_childAgentId t)),
         (''childSessionKey'', JStr (su_childSessionKey t)), (''parentAgentId'', of_str (su_parentAgentId t))] \<rparr>"

primrec broadcast_idle ::
  "plugin_env \<Rightarrow> string option \<Rightarrow> SubagentRecord list \<Rightarrow> 'r handler \<Rightarrow> 'r handler" where
  "broadcast_idle H src [] k = k"
| "broadcast_idle H src (t # ts) k =
     (let idleMs = st_subagentIdleWindowMs (pc_status (pn_config H));
          agent = nullish (su_parentAgentId t) (su_childAgentId t) in
      building H (\<lambda>E. createSubagentIdleEvent E (spawn_of t) idleMs (pn_toISO H (su_lastActiveAt t)))
        (\<lambda>ev. broadcasting ev
          (if \<not> truthy_str agent then broadcast_idle H src ts k
           else building H (\<lambda>E. createAgentActivityEvent E
               ((by_agent agent)\<lparr>who_sessionId := su_parentSessionId t, who_sessionKey := su_parentSessionKey t\<rparr>)
               (idle_activity idleMs src t))
             (\<lambda>ev'. broadcasting ev' (broadcast_idle H src ts k)))))"

definition emitSubagentIdleTransitions :: "plugin_env \<Rightarrow> string option \<Rightarrow> 'r handler \<Rightarrow> 'r handler" where
  "emitSubagentIdleTransitions H src k s =
     (case evaluateIdleTransitions (st_subagentIdleWindowMs (pc_status (pn_config H))) (ps_now s) (ps_subagentTracker s) of
        (ts, su) \<Rightarrow> broadcast_idle H src ts k (s\<lparr>ps_subagentTracker := su\<rparr>))"

record EmitAgentActivityParams =
  ea_agentId :: "string option"
  ea_sessionId :: "string option"
  ea_sessionKey :: "string option"
  ea_correlationId :: "string option"
  ea_sourceEventType :: string
  ea_activity :: string
  ea_activityDetail :: string
  ea_toolName :: "string option"
  ea_toolStatus :: "string option"
  ea_metadata :: jsval

definition activity_observed :: "EmitAgentActivityParams \<Rightarrow> plugin_state \<Rightarrow> plugin_state" where
  "activity_observed p s =
     (let agent = the (ea_agentId p);
          observed = observeActivity agent (resolveSessionRefForStatus (ea_sessionId p) (ea_sessionKey p)) (ps_now s)
            (ps_statusReducer s)
      in s\<lparr>ps_statusReducer := markAgentOffline agent False (markAgentError agent False observed),
           ps_subagentTracker := observeSubagent (ea_sessionKey p) (ps_now s) (ps_subagentTracker s)\<rparr>)"

definition activity_event :: "EmitAgentActivityParams \<Rightarrow> event_env \<Rightarrow> nat \<Rightarrow> event \<times> nat" where
  "activity_event p E =
     createAgentActivityEvent E
       \<lparr> who_agentId = ea_agentId p, who_sessionId = ea_sessionId p, who_sessionKey = ea_sessionKey p, who_runId = None,
         who_correlationId = ea_correlationId p \<rparr>
       \<lparr> ax_activity = ea_activity p, ax_activityDetail = Some (ea_activityDetail p),
         ax_sourceEventType = Some (ea_sourceEventType p), ax_toolName = ea_toolName p, ax_toolStatus = ea_toolStatus p,
         ax_metadata = ea_metadata p \<rparr>"

definition emitAgentActivity :: "plugin_env \<Rightarrow> EmitAgentActivityParams \<Rightarrow> 'r handler \<Rightarrow> 'r handler" where
  "emitAgentActivity H p k s =
     (if \<not> truthy_str (ea_agentId p) then k s
      else building H (activity_event p)
        (\<lambda>ev. broadcasting ev
          (emitAgentStatusTransitions H (Some (ea_sourceEventType p))
            (emitSubagentIdleTransitions H (Some (ea_sourceEventType p)) k)))
        (activity_observed p s))"

definition maybeInitializeQueue :: "plugin_env \<Rightarrow> plugin_state \<Rightarrow> plugin_state" where
  "maybeInitializeQueue H s =
     (if ps_isFollower s \<or> ps_hasQueue s \<or> length (pc_webhooks (pn_config H)) = 0 then s
      else s\<lparr>ps_hasQueue := True\<rparr>)"

section \<open>Delivery on the owner (transportEvent)\<close>

text \<open>
  The event is an object of \<open>te_heap\<close> at \<open>te_payload\<close>, because redaction sees which of its parts are
  the same object; \<open>te_fuel\<close> bounds the recursion of redaction.  \<open>te_queue\<close> is whether the queue exists
  when the log file is ready, \<open>te_seconds\<close> and \<open>te_nonce\<close> are the clock and the uuid of the signature.
\<close>

record transport_env =
  te_platform :: platform
  te_fuel :: nat
  te_heap :: heap
  te_payload :: nat
  te_seconds :: int
  te_nonce :: string
  te_websocketEnabled :: bool
  te_fileLogger :: bool
  te_queue :: bool

datatype transport_effect =
    ToBridge event
  | ToFile event
  | ToWebSocket event
  | ToQueue event
  | ToWebhooks event

definition getEventChannelId :: "event \<Rightarrow> string option" where
  "getEventChannelId ev = readString (jprop (oget ev ''data'') ''channelId'')"

definition getEventToolName :: "event \<Rightarrow> string option" where
  "getEventToolName ev = readString (jprop (oget ev ''data'') ''toolName'')"

definition outbound_effects :: "plugin_env \<Rightarrow> transport_env \<Rightarrow> event \<Rightarrow> event \<Rightarrow> transport_effect list" where
  "outbound_effects H T ev outbound =
     (if te_fileLogger T then [ToFile outbound] else []) @
     (if te_websocketEnabled T then [ToWebSocket outbound] else []) @
     (if length (pc_webhooks (pn_config H)) = 0 then []
      else if shouldFilterEvent (pn_config H) (default_to [] (ostr ev ''type'')) (getEventChannelId ev)
                (getEventToolName ev) (ostr ev ''sessionId'') then []
      else if te_queue T then [ToQueue outbound] else [ToWebhooks outbound])"

text \<open>None: redaction does not return.\<close>

definition transportEvent :: "plugin_env \<Rightarrow> transport_env \<Rightarrow> event \<Rightarrow> transport_effect list option" where
  "transportEvent H T ev =
     (case redactPayload (te_fuel T) (te_heap T) (pc_redaction (pn_config H)) (JObj ev) (Ref (te_payload T)) of
        None \<Rightarrow> None
      | Some red \<Rightarrow>
          let outbound = signEvent (te_platform T) (te_seconds T) (te_nonce T) (obj_entries red)
                (sec_hmac (pc_security (pn_config H)))
          in Some ((if pn_hasBridge H then [ToBridge ev] else []) @ outbound_effects H T ev outbound))"

section \<open>What the sinks of the owner get is redacted\<close>

lemma outbound_sinks:
  "f \<in> set (outbound_effects H T ev outbound) \<Longrightarrow>
   f \<in> {ToFile outbound, ToWebSocket outbound, ToQueue outbound, ToWebhooks outbound}"
  by (auto simp: outbound_effects_def split: if_splits)

text \<open>Every copy but the hook bridge's is the signed redaction.\<close>

lemma transport_copies:
  assumes "transportEvent H T ev = Some effects" "f \<in> set effects"
    and "f \<in> {ToFile out, ToWebSocket out, ToQueue out, ToWebhooks out}"
  shows "\<exists>red. redactPayload (te_fuel T) (te_heap T) (pc_redaction (pn_config H)) (JObj ev) (Ref (te_payload T)) = Some red \<and>
    out = signEvent (te_platform T) (te_seconds T) (te_nonce T) (obj_entries red) (sec_hmac (pc_security (pn_config H)))"
  using assms unfolding transportEvent_def
  by (auto simp: Let_def dest!: outbound_sinks split: option.splits if_splits)

lemma redacted_object:
  assumes "h a = Some (ObjCell kvs)" "redactPayload n h c (JObj ev) (Ref a) = Some x"
  shows "\<exists>es. x = JObj es"
  using assms by (cases n) (auto simp: redactPayload_def Let_def split: if_splits option.splits)

lemma sign_keeps:
  "k \<noteq> ''signature'' \<Longrightarrow> mget (signEvent pl t nonce ev c) k = mget ev k"
  by (simp add: signEvent_def Let_def)

lemma hides_entry:
  "hides F r (JObj es) \<Longrightarrow> mget es k = Some v \<Longrightarrow> if js_lower k \<in> set F then v = JStr r else hides F r v"
proof -
  assume h: "hides F r (JObj es)" and v: "mget es k = Some v"
  from v have "(k, v) \<in> set es" by (rule map_of_SomeD)
  with h show ?thesis by (auto simp: list_all_iff)
qed

text \<open>
  C22. With redaction on, in every event that transportEvent hands to the log file, the WebSocket
  clients, the queue or the webhooks each property but the signature either has a sensitive name
  and holds the replacement, or hides every sensitive property inside it. These four are the sinks that redaction
  covers: the hook bridge, with its own webhooks and scripts, is handed the event as it was, and a follower's relay
  (\<open>broadcastEvent\<close>) does not come through \<open>transportEvent\<close>.
\<close>

theorem outbound_is_redacted:
  assumes "rd_enabled (pc_redaction (pn_config H))" "normalizeFieldSet (rd_fields (pc_redaction (pn_config H))) \<noteq> []"
    and "te_heap T (te_payload T) = Some (ObjCell kvs)" "transportEvent H T ev = Some effects"
    and "f \<in> set effects" "f \<in> {ToFile out, ToWebSocket out, ToQueue out, ToWebhooks out}"
    and "mget out k = Some v" "k \<noteq> ''signature''"
  shows "if js_lower k \<in> set (normalizeFieldSet (rd_fields (pc_redaction (pn_config H))))
    then v = JStr (rd_replacement (pc_redaction (pn_config H)))
    else hides (normalizeFieldSet (rd_fields (pc_redaction (pn_config H)))) (rd_replacement (pc_redaction (pn_config H))) v"
proof -
  let ?c = "pc_redaction (pn_config H)"
  obtain x where x: "redactPayload (te_fuel T) (te_heap T) ?c (JObj ev) (Ref (te_payload T)) = Some x"
    using assms(4) by (auto simp: transportEvent_def split: option.splits)
  obtain es where es: "x = JObj es" using redacted_object [OF assms(3) x] ..
  have h: "hides (normalizeFieldSet (rd_fields ?c)) (rd_replacement ?c) (JObj es)"
    using assms(1,2) x unfolding es by (auto simp: redactPayload_def Let_def simp del: hides.simps intro: redact_hides)
  have "out = signEvent (te_platform T) (te_seconds T) (te_nonce T) es (sec_hmac (pc_security (pn_config H)))"
    using transport_copies [OF assms(4-6)] x es by simp
  then have "mget es k = Some v" using assms(7,8) by (simp add: sign_keeps)
  then show ?thesis by (rule hides_entry [OF h])
qed

section \<open>How a handler settles\<close>

text \<open>
  The runs of a handler: between a request and its answer other handlers may have changed the state
  in any way, and a request may be rejected, which ends the handler with an error.  The result is
  None when the handler threw, and \<open>runHookSafely\<close> then gives the host \<open>undefined\<close>.
\<close>

datatype answer = Rejected | Settled "HookBridgeGuardDecisionOutcome option"

inductive settles :: "plugin_state \<times> 'r outcome \<Rightarrow> (request \<times> answer) list \<Rightarrow> 'r option \<Rightarrow> bool" where
  returned: "settles (s, Returned r) [] (Some r)"
| threw: "settles (s, Threw) [] None"
| resumed: "settles (k (d, s')) tr r \<Longrightarrow> settles (s, Await q k) ((q, Settled d) # tr) r"
| rejected: "settles (s, Await q k) [(q, Rejected)] None"

inductive_simps settles_returned [simp]: "settles (s, Returned r) tr x"
inductive_simps settles_threw [simp]: "settles (s, Threw) tr x"
inductive_simps settles_await: "settles (s, Await q k) tr x"

lemma settles_returns [simp]: "settles (returns_with r s) tr x \<longleftrightarrow> tr = [] \<and> x = Some r"
  by (simp add: returns_with_def)

lemma settles_throws [simp]: "settles (throws s) tr x \<longleftrightarrow> tr = [] \<and> x = None"
  by (simp add: throws_def)

text \<open>Every event that a builder makes satisfies \<open>wellformed\<close>.\<close>

definition wellformed :: "event \<Rightarrow> bool" where
  "wellformed ev \<longleftrightarrow> isOpenClawEvent (JObj ev) \<and> (\<exists>ty. oget ev ''type'' = JStr ty \<and> isEventType ty)"

lemma builds_wellformed: "builds E b \<Longrightarrow> wellformed (fst (b n))"
  using builds_canonical [of E b] by (auto simp: wellformed_def canonical_wellformed)

text \<open>
  \<open>concludes x\<close>: however the handler is interleaved with others, it only broadcasts well formed events,
  and it ends with \<open>x\<close> unless a broadcast is rejected.
\<close>

definition refused :: "(request \<times> answer) list \<Rightarrow> bool" where
  "refused tr \<longleftrightarrow> (\<exists>q. (q, Rejected) \<in> set tr)"

definition concludes :: "'r option \<Rightarrow> plugin_state \<times> 'r outcome \<Rightarrow> bool" where
  "concludes x res \<longleftrightarrow>
     (\<forall>tr r. settles res tr r \<longrightarrow>
        (\<forall>qa \<in> set tr. \<exists>ev. fst qa = BroadcastEvent ev \<and> wellformed ev) \<and> r = (if refused tr then None else x))"

named_theorems conclusions

lemma refused_simps [simp]:
  "\<not> refused []" "refused ((q, Settled d) # tr) = refused tr" "refused ((q, Rejected) # tr)"
  by (auto simp: refused_def)

lemma concludes_returns [conclusions]: "concludes (Some r) (returns_with r s)"
  by (simp add: concludes_def)

lemma concludes_throws [conclusions]: "concludes None (throws s)"
  by (simp add: concludes_def)

lemma concludes_broadcasting:
  assumes "wellformed ev" "\<And>s. concludes x (k s)"
  shows "concludes x (broadcasting ev k s)"
  unfolding concludes_def
proof (intro allI impI)
  fix tr r assume "settles (broadcasting ev k s) tr r"
  then consider (rejected) "tr = [(BroadcastEvent ev, Rejected)]" "r = None"
    | (settled) s' d tr' where "tr = (BroadcastEvent ev, Settled d) # tr'" "settles (k s') tr' r"
    unfolding broadcasting_def settles_await by auto
  then show "(\<forall>qa \<in> set tr. \<exists>ev. fst qa = BroadcastEvent ev \<and> wellformed ev) \<and> r = (if refused tr then None else x)"
  proof cases
    case settled
    with assms(2) [of s'] have "(\<forall>qa \<in> set tr'. \<exists>ev. fst qa = BroadcastEvent ev \<and> wellformed ev) \<and>
        r = (if refused tr' then None else x)"
      unfolding concludes_def by blast
    with settled assms(1) show ?thesis by simp
  qed (use assms(1) in simp)
qed

lemma concludes_broadcast [conclusions]:
  assumes "\<And>E. builds E (mk E)" "\<And>ev s. concludes x (k ev s)"
  shows "concludes x (building H mk (\<lambda>ev. broadcasting ev (k ev)) s)"
proof -
  obtain ev n where b: "mk (env_at H s) (ps_uuids s) = (ev, n)" by (metis surj_pair)
  with builds_wellformed [OF assms(1), of "env_at H s" "ps_uuids s"] have "wellformed ev" by simp
  then show ?thesis unfolding building_def b prod.case by (rule concludes_broadcasting) (rule assms(2))
qed

lemma concludes_transitions [conclusions]:
  assumes "\<And>s. concludes x (k s)"
  shows "concludes x (emitAgentStatusTransitions H src k s)"
proof -
  have "concludes x (broadcast_transitions H src ts k s)" for ts s
    by (induction ts arbitrary: s) (auto intro!: concludes_broadcast builds.intros assms)
  then show ?thesis by (simp add: emitAgentStatusTransitions_def split: prod.splits)
qed

lemma concludes_idle [conclusions]:
  assumes "\<And>s. concludes x (k s)"
  shows "concludes x (emitSubagentIdleTransitions H src k s)"
proof -
  have "concludes x (broadcast_idle H src ts k s)" for ts s
    by (induction ts arbitrary: s) (auto simp: Let_def intro!: concludes_broadcast builds.intros assms)
  then show ?thesis by (simp add: emitSubagentIdleTransitions_def split: prod.splits)
qed

lemma concludes_activity [conclusions]:
  assumes "\<And>s. concludes x (k s)"
  shows "concludes x (emitAgentActivity H p k s)"
  unfolding emitAgentActivity_def
  by (auto intro!: conclusions assms builds.intros simp: activity_event_def)

lemma calm_run: "\<exists>tr r. settles (s, out) tr r \<and> \<not> refused tr"
proof (induction out arbitrary: s)
  case (Await q k)
  have "\<exists>tr r. settles (k (None, s)) tr r \<and> \<not> refused tr"
    using Await [of "k (None, s)" "snd (k (None, s))" "fst (k (None, s))"] by (simp add: snds.intros)
  then obtain tr r where "settles (k (None, s)) tr r" "\<not> refused tr" by blast
  then have "settles (s, Await q k) ((q, Settled None) # tr) r \<and> \<not> refused ((q, Settled None) # tr)"
    by (simp add: settles.resumed)
  then show ?case by blast
qed (auto simp: refused_def)

lemma calm_runE:
  obtains tr r where "settles res tr r" "\<not> refused tr"
  using calm_run [of "fst res" "snd res"] by auto

section \<open>A concrete delivery\<close>

definition log_config :: PluginConfig where
  "log_config = DEFAULT_CONFIG\<lparr>pc_redaction := default_redaction\<lparr>rd_enabled := True, rd_fields := [''token'']\<rparr>\<rparr>"

definition sample_env :: plugin_env where
  "sample_env = \<lparr> pn_config = log_config, pn_hasBridge = True, pn_uuid = (\<lambda>n. ''id'' @ show_nat n),
     pn_toISO = show_int, pn_le = code_unit_le \<rparr>"

definition sample_transport :: "platform \<Rightarrow> transport_env" where
  "sample_transport pl = \<lparr> te_platform = pl, te_fuel = 3,
     te_heap = [0 \<mapsto> ObjCell [(''type'', RStr ''x''), (''Token'', RStr ''s'')]], te_payload = 0, te_seconds = 0, te_nonce = [],
     te_websocketEnabled = True, te_fileLogger = False, te_queue = False \<rparr>"

lemma sample_transport_run:
  "transportEvent sample_env (sample_transport pl) [(''type'', JStr ''x''), (''Token'', JStr ''s'')] =
     Some [ToBridge [(''type'', JStr ''x''), (''Token'', JStr ''s'')],
       ToWebSocket [(''type'', JStr ''x''), (''Token'', JStr ''[REDACTED]'')]]"
  by (simp add: sample_transport_def) code_simp

lemma js_lower_Token: "js_lower ''Token'' = ''token''" by code_simp

theorem outbound_is_redacted_witness:
  "\<forall>pl. ToWebSocket [(''type'', JStr ''x''), (''Token'', JStr ''[REDACTED]'')]
     \<in> set (the (transportEvent sample_env (sample_transport pl) [(''type'', JStr ''x''), (''Token'', JStr ''s'')])) \<and>
     JStr ''[REDACTED]'' = JStr (rd_replacement (pc_redaction log_config))"
proof
  fix pl
  let ?out = "[(''type'', JStr ''x''), (''Token'', JStr ''[REDACTED]'')]"
  have c: "rd_enabled (pc_redaction (pn_config sample_env))"
    "normalizeFieldSet (rd_fields (pc_redaction (pn_config sample_env))) = [''token'']"
    "pc_redaction (pn_config sample_env) = pc_redaction log_config" by code_simp+
  have h: "te_heap (sample_transport pl) (te_payload (sample_transport pl))
      = Some (ObjCell [(''type'', RStr ''x''), (''Token'', RStr ''s'')])"
    by (simp add: sample_transport_def)
  have "JStr ''[REDACTED]'' = JStr (rd_replacement (pc_redaction (pn_config sample_env)))"
    using outbound_is_redacted [OF c(1) _ h sample_transport_run, of "ToWebSocket ?out" ?out "''Token''" "JStr ''[REDACTED]''"]
    unfolding c(2) by (simp del: js_lower_simps add: js_lower_Token)
  then show "ToWebSocket ?out \<in> set (the (transportEvent sample_env (sample_transport pl) [(''type'', JStr ''x''), (''Token'', JStr ''s'')])) \<and>
     JStr ''[REDACTED]'' = JStr (rd_replacement (pc_redaction log_config))"
    unfolding sample_transport_run c(3) by simp
qed

end
