(* ===== verification/ToolHooks.thy ===== *)
theory ToolHooks imports PluginRuntime begin

text \<open>
  The tool hooks of \<open>src/runtime/register-tool-hooks.ts\<close>: \<open>before_tool_call\<close>, which asks the guard,
  announces the call and returns the guard's verdict to the host, \<open>after_tool_call\<close>, which finds the
  pending call again, and \<open>tool_result_persist\<close>.  The local variables of a handler that live across
  its awaits are a record.  Trace output of the guard is not modelled.
\<close>

section \<open>Helpers (runtime/tool-hook-helpers.ts, runtime/utils.ts)\<close>

definition buildBlockedParamsPatch :: "jsval \<Rightarrow> jsobj" where
  "buildBlockedParamsPatch params =
     fold (\<lambda>key. mput key JNull) (mkeys (obj_entries params)) [(''__toolGuardBlocked'', JBool True)]"

text \<open>
  The message and the stack of an error; instances of \<open>Error\<close> are objects with these two properties.
\<close>

definition normalizeError :: "(string \<Rightarrow> string \<Rightarrow> bool) \<Rightarrow> jsval \<Rightarrow> string \<times> string option" where
  "normalizeError le err =
     (if isRecord err
      then (default_to (toStableToken le err ''Unknown error'') (read_field err ''message''), read_field err ''stack'')
      else (toStableToken le err ''Unknown error'', None))"

section \<open>The locals of a tool hook\<close>

record tool_locals =
  th_raw :: jsval
  th_ctx :: jsval
  th_ctxId :: nat
  th_refs :: ResolvedSessionRefs
  th_sessionId :: "string option"
  th_sessionKey :: "string option"
  th_agentId :: "string option"
  th_toolName :: "string option"
  th_params :: jsval
  th_runId :: "string option"
  th_toolCallId :: "string option"
  th_correlationId :: "string option"
  th_subagent :: "SubagentRecord option"

definition tool_call_of :: "tool_locals \<Rightarrow> tool_call" where
  "tool_call_of L =
     \<lparr> tl_toolName = default_to [] (th_toolName L), tl_params = th_params L, tl_agentId = th_agentId L,
       tl_sessionId = th_sessionId L, tl_sessionKey = th_sessionKey L, tl_runId = th_runId L,
       tl_toolCallId = th_toolCallId L \<rparr>"

text \<open>The subagent's parents, as every tool event and observation carries them.\<close>

definition parent_params :: "tool_locals \<Rightarrow> provenance_params" where
  "parent_params L =
     \<lparr> pp_agentId = th_agentId L, pp_parentAgentId = Option.bind (th_subagent L) su_parentAgentId,
       pp_parentSessionId = Option.bind (th_subagent L) su_parentSessionId,
       pp_parentSessionKey = Option.bind (th_subagent L) su_parentSessionKey, pp_runId = th_runId L,
       pp_direction = Some ''internal'' \<rparr>"

definition tool_context_of :: "tool_locals \<Rightarrow> jsval \<Rightarrow> jsval \<Rightarrow> tool_context" where
  "tool_context_of L params provenance =
     \<lparr> tx_toolName = th_toolName L, tx_params = params, tx_provenance = provenance, tx_agentId = th_agentId L,
       tx_parentAgentId = Option.bind (th_subagent L) su_parentAgentId,
       tx_subagentKey = map_option su_subagentKey (th_subagent L),
       tx_sessionId = th_sessionId L, tx_sessionKey = th_sessionKey L,
       tx_parentSessionId = Option.bind (th_subagent L) su_parentSessionId,
       tx_parentSessionKey = Option.bind (th_subagent L) su_parentSessionKey, tx_runId = th_runId L,
       tx_toolCallId = th_toolCallId L, tx_correlationId = th_correlationId L \<rparr>"

text \<open>
  \<open>observeSessionProvenance\<close> with the hook's references, then \<open>buildToolEventProvenance\<close> with
  \<open>refs\<close>, which after the call are those of the call.
\<close>

definition observe_and_describe ::
  "plugin_env \<Rightarrow> tool_locals \<Rightarrow> ResolvedSessionRefs \<Rightarrow> plugin_state \<Rightarrow> jsval \<times> plugin_state" where
  "observe_and_describe H L refs s =
     (let observed = observeSessionProvenance (th_refs L) (th_raw L) (th_ctx L) (parent_params L) (ps_now s) (ps_sessionTracker s);
          found = buildToolEventProvenance (pn_le H) refs (parent_params L)
            \<lparr> tr_toolCallId = th_toolCallId L, tr_correlationId = th_correlationId L,
              tr_subagentKey = map_option su_subagentKey (th_subagent L) \<rparr> (ps_now s) observed
      in (JObj (fst found), s\<lparr>ps_sessionTracker := snd found\<rparr>))"

definition hook_raw :: "jsval \<Rightarrow> jsval" where
  "hook_raw rawEvent = (if isRecord rawEvent then rawEvent else JUndef)"

definition activity_params ::
  "tool_locals \<Rightarrow> string option \<Rightarrow> string \<Rightarrow> string \<Rightarrow> string \<Rightarrow> string option \<Rightarrow> string option \<Rightarrow> EmitAgentActivityParams" where
  "activity_params L correlationId src activity detail toolName toolStatus =
     \<lparr> ea_agentId = th_agentId L, ea_sessionId = th_sessionId L, ea_sessionKey = th_sessionKey L,
       ea_correlationId = correlationId, ea_sourceEventType = src, ea_activity = activity, ea_activityDetail = detail,
       ea_toolName = toolName, ea_toolStatus = toolStatus, ea_metadata = JUndef \<rparr>"

section \<open>before_tool_call\<close>

record BeforeToolCallResult =
  br_block :: "bool option"
  br_blockReason :: "string option"
  br_params :: "jsval option"

text \<open>What a handler gives the host; None is \<open>undefined\<close>.\<close>

type_synonym hook_result = "BeforeToolCallResult option"

definition before_locals :: "plugin_env \<Rightarrow> jsval \<Rightarrow> jsval \<Rightarrow> nat \<Rightarrow> plugin_state \<Rightarrow> tool_locals" where
  "before_locals H rawEvent rawCtx ctxId s =
     (let event = toToolHookEvent rawEvent; ctx = toContext rawCtx; raw = hook_raw rawEvent;
          refs = resolveSessionRefs raw ctx;
          params = jprop event ''params''
      in \<lparr> th_raw = raw, th_ctx = ctx, th_ctxId = ctxId, th_refs = refs, th_sessionId = rf_sessionId refs,
           th_sessionKey = rf_sessionKey refs,
           th_agentId = resolveAgentId raw ctx (rf_sessionId refs) (rf_sessionKey refs) (ps_sessionTracker s),
           th_toolName = Some (default_to ''unknown'' (nullish (read_field event ''toolName'') (read_field ctx ''toolName''))),
           th_params = (if isRecord params then params else JObj []),
           th_runId = nullish (read_field event ''runId'') (read_field ctx ''runId''),
           th_toolCallId = nullish (read_field event ''toolCallId'') (read_field ctx ''toolCallId''),
           th_correlationId = Some (pn_uuid H (ps_uuids s)),
           th_subagent = getByChildSessionKey (rf_sessionKey refs) (ps_subagentTracker s) \<rparr>)"

definition guard_redaction :: "plugin_env \<Rightarrow> jsval \<Rightarrow> jsval" where
  "guard_redaction H = redacted (tg_redaction (hb_toolGuard (pc_hookBridge (pn_config H))))"

definition decision_context :: "HookBridgeGuardDecisionOutcome \<Rightarrow> string option \<Rightarrow> guard_event_context" where
  "decision_context d reason =
     \<lparr> gx_blockReason = reason, gx_matchedRuleId = oc_matchedRuleId d, gx_matchedActionId = oc_matchedActionId d,
       gx_decisionSource = oc_decisionSource d \<rparr>"

definition guard_event ::
  "plugin_env \<Rightarrow> string \<Rightarrow> tool_locals \<Rightarrow> jsval \<Rightarrow> jsval \<Rightarrow> HookBridgeGuardDecisionOutcome \<Rightarrow> string option \<Rightarrow>
   'r handler \<Rightarrow> 'r handler" where
  "guard_event H ty L params provenance d reason k =
     building H (\<lambda>E. createToolGuardEvent E ty (tool_context_of L (guard_redaction H params) provenance) (decision_context d reason))
       (\<lambda>ev. broadcasting ev k)"

definition decide ::
  "plugin_env \<Rightarrow> tool_locals \<Rightarrow> HookBridgeGuardDecisionOutcome \<Rightarrow> jsval \<Rightarrow> hook_result handler" where
  "decide H L d provenance =
     (if gd_block d = Some True then
        let patch = buildBlockedParamsPatch (th_params L) in
        guard_event H ''tool.guard.blocked'' L (JObj (spread (obj_entries (th_params L)) patch)) provenance d (gd_blockReason d)
          (returns_with (Some \<lparr> br_block = Some True, br_blockReason = gd_blockReason d, br_params = Some (JObj patch) \<rparr>))
      else if (case gd_params d of None \<Rightarrow> False | Some v \<Rightarrow> js_truthy v) then
        guard_event H ''tool.guard.allowed'' L (the (gd_params d)) provenance d None
          (returns_with (Some \<lparr> br_block = None, br_blockReason = None, br_params = gd_params d \<rparr>))
      else if oc_matched d = Some True then
        guard_event H ''tool.guard.allowed'' L (th_params L) provenance d None (returns_with None)
      else returns_with None)"

definition announce ::
  "plugin_env \<Rightarrow> tool_locals \<Rightarrow> HookBridgeGuardDecisionOutcome option \<Rightarrow> jsval \<Rightarrow> hook_result handler" where
  "announce H L decision provenance =
     (case decision of
        None \<Rightarrow> returns_with None
      | Some d \<Rightarrow>
          if oc_matched d = Some True
          then guard_event H ''tool.guard.matched'' L (th_params L) provenance d (gd_blockReason d) (decide H L d provenance)
          else decide H L d provenance)"

definition context_of_call :: "tool_locals \<Rightarrow> call_context" where
  "context_of_call L =
     \<lparr> cc_runId = th_runId L, cc_toolCallId = th_toolCallId L, cc_sessionId = th_sessionId L,
       cc_sessionKey = th_sessionKey L, cc_agentId = th_agentId L, cc_correlationId = th_correlationId L \<rparr>"

definition pending_call :: "tool_locals \<Rightarrow> string \<Rightarrow> plugin_state \<Rightarrow> plugin_state" where
  "pending_call L callId s =
     (let pending = \<lparr> pd_callId = callId, pd_correlationId = th_correlationId L, pd_agentId = th_agentId L \<rparr>
      in s\<lparr>ps_pendingToolCalls := (if truthy_str (th_toolCallId L)
             then mput (the (th_toolCallId L)) pending (ps_pendingToolCalls s) else ps_pendingToolCalls s),
           ps_pendingByContext := (if th_ctx L \<noteq> JUndef
             then mput (th_ctxId L) pending (ps_pendingByContext s) else ps_pendingByContext s)\<rparr>)"

definition register_call ::
  "plugin_env \<Rightarrow> tool_locals \<Rightarrow> HookBridgeGuardDecisionOutcome option \<Rightarrow> jsval \<Rightarrow> string option \<Rightarrow> hook_result handler" where
  "register_call H L decision provenance correlationId s =
     (case startCall (pn_uuid H (ps_uuids s)) (default_to [] (th_toolName L)) (th_params L) (context_of_call L) (ps_now s)
             (ps_toolTracker s) of
        None \<Rightarrow> throws s
      | Some (callId, calls) \<Rightarrow>
          emitAgentActivity H
            (activity_params L correlationId ''tool.called'' ''Using Tool'' (''Calling tool: '' @ default_to [] (th_toolName L))
               (th_toolName L) (Some ''called''))
            (announce H L decision provenance)
            (pending_call L callId
              (s\<lparr>ps_toolTracker := calls,
                 ps_uuids := (if th_toolCallId L = None then Suc (ps_uuids s) else ps_uuids s)\<rparr>)))"

definition guarded_call :: "plugin_env \<Rightarrow> tool_locals \<Rightarrow> HookBridgeGuardDecisionOutcome option \<Rightarrow> hook_result handler" where
  "guarded_call H L decision s =
     (case observe_and_describe H L (th_refs L) s of (provenance, s1) \<Rightarrow>
        building H (\<lambda>E. createToolCalledEvent E (tool_context_of L (th_params L) provenance))
          (\<lambda>ev. broadcasting ev (register_call H L decision provenance (ostr ev ''correlationId''))) s1)"

text \<open>Without a hook bridge there is nothing to evaluate, but \<open>await\<close> still hands control back.\<close>

definition evaluating ::
  "plugin_env \<Rightarrow> tool_call \<Rightarrow> (HookBridgeGuardDecisionOutcome option \<Rightarrow> 'r handler) \<Rightarrow> 'r handler" where
  "evaluating H c k s =
     (if pn_hasBridge H then (s, Await (EvaluateGuard c) (\<lambda>(d, s'). k d s'))
      else (s, Await Yield (\<lambda>(d, s'). k None s')))"

definition before_tool_call :: "plugin_env \<Rightarrow> jsval \<Rightarrow> jsval \<Rightarrow> nat \<Rightarrow> hook_result handler" where
  "before_tool_call H rawEvent rawCtx ctxId s =
     (let L = before_locals H rawEvent rawCtx ctxId s in
      evaluating H (tool_call_of L) (guarded_call H L) (s\<lparr>ps_uuids := Suc (ps_uuids s)\<rparr>))"

section \<open>after_tool_call\<close>

definition pending_of :: "string option \<Rightarrow> jsval \<Rightarrow> nat \<Rightarrow> plugin_state \<Rightarrow> PendingToolCall option" where
  "pending_of toolCallId ctx ctxId s =
     nullish (if truthy_str toolCallId then mget (ps_pendingToolCalls s) (the toolCallId) else None)
       (if ctx \<noteq> JUndef then mget (ps_pendingByContext s) ctxId else None)"

text \<open>The pending call is taken out of every map; the call itself ends.\<close>

definition take_pending :: "string option \<Rightarrow> jsval \<Rightarrow> nat \<Rightarrow> plugin_state \<Rightarrow> (int \<times> ActiveCall) option \<times> plugin_state" where
  "take_pending toolCallId ctx ctxId s =
     (let ended = (case pending_of toolCallId ctx ctxId s of
            None \<Rightarrow> (None, ps_toolTracker s)
          | Some p \<Rightarrow> endCall (pd_callId p) (ps_now s) (ps_toolTracker s))
      in (fst ended,
          s\<lparr>ps_toolTracker := snd ended,
            ps_pendingToolCalls := (if truthy_str toolCallId then mdel (the toolCallId) (ps_pendingToolCalls s)
              else ps_pendingToolCalls s),
            ps_pendingByContext := (if ctx \<noteq> JUndef then mdel ctxId (ps_pendingByContext s)
              else ps_pendingByContext s)\<rparr>))"

definition after_locals ::
  "jsval \<Rightarrow> jsval \<Rightarrow> nat \<Rightarrow> PendingToolCall option \<Rightarrow> ActiveCall option \<Rightarrow> plugin_state \<Rightarrow> tool_locals" where
  "after_locals rawEvent rawCtx ctxId pending call s =
     (let event = toToolHookEvent rawEvent; ctx = toContext rawCtx; raw = hook_raw rawEvent;
          refs = resolveSessionRefs raw ctx;
          sessionKey = nullish (Option.bind call cl_sessionKey) (rf_sessionKey refs)
      in \<lparr> th_raw = raw, th_ctx = ctx, th_ctxId = ctxId, th_refs = refs,
           th_sessionId = nullish (Option.bind call cl_sessionId) (rf_sessionId refs), th_sessionKey = sessionKey,
           th_agentId = nullish (Option.bind pending pd_agentId)
             (resolveAgentId raw ctx (rf_sessionId refs) (rf_sessionKey refs) (ps_sessionTracker s)),
           th_toolName = Some (default_to ''unknown'' (nullish (map_option cl_toolName call)
             (nullish (read_field event ''toolName'') (read_field ctx ''toolName'')))),
           th_params = (case call of None \<Rightarrow> JUndef | Some c \<Rightarrow> cl_params c),
           th_runId = nullish (Option.bind call cl_runId) (nullish (read_field event ''runId'') (read_field ctx ''runId'')),
           th_toolCallId = nullish (Option.bind call cl_toolCallId)
             (nullish (read_field event ''toolCallId'') (read_field ctx ''toolCallId'')),
           th_correlationId = nullish (Option.bind pending pd_correlationId) (Option.bind call cl_correlationId),
           th_subagent = getByChildSessionKey sessionKey (ps_subagentTracker s) \<rparr>)"

definition after_event :: "plugin_env \<Rightarrow> jsval \<Rightarrow> tool_locals \<Rightarrow> int option \<Rightarrow> jsval \<Rightarrow> event_env \<Rightarrow> nat \<Rightarrow> event \<times> nat" where
  "after_event H event L durationMs provenance E =
     (let err = jprop event ''error'' in
      if \<not> is_nullish err then
        createToolErrorEvent E (tool_context_of L (th_params L) provenance) (fst (normalizeError (pn_le H) err))
          (snd (normalizeError (pn_le H) err))
      else createToolCompletedEvent E (tool_context_of L JUndef provenance) (jprop event ''result'') durationMs)"

definition after_activity :: "tool_locals \<Rightarrow> event \<Rightarrow> EmitAgentActivityParams" where
  "after_activity L ev =
     (let failed = (oget ev ''type'' = JStr ''tool.error''); name = default_to [] (th_toolName L) in
      (activity_params L (ostr ev ''correlationId'') (default_to [] (ostr ev ''type''))
         (if failed then ''Tool Error'' else ''Tool Completed'')
         ((if failed then ''Tool failed: '' else ''Tool completed: '') @ name) (th_toolName L)
         (Some (if failed then ''error'' else ''completed'')))
        \<lparr>ea_sessionId := ostr ev ''sessionId'', ea_sessionKey := ostr ev ''sessionKey''\<rparr>)"

definition after_tool_call :: "plugin_env \<Rightarrow> jsval \<Rightarrow> jsval \<Rightarrow> nat \<Rightarrow> hook_result handler" where
  "after_tool_call H rawEvent rawCtx ctxId s =
     (let event = toToolHookEvent rawEvent; ctx = toContext rawCtx;
          toolCallId = nullish (read_field event ''toolCallId'') (read_field ctx ''toolCallId'');
          pending = pending_of toolCallId ctx ctxId s;
          taken = take_pending toolCallId ctx ctxId s;
          L = after_locals rawEvent rawCtx ctxId pending (map_option snd (fst taken)) (snd taken)
      in case observe_and_describe H L ((th_refs L)\<lparr>rf_sessionId := th_sessionId L, rf_sessionKey := th_sessionKey L\<rparr>)
                (snd taken) of (provenance, s1) \<Rightarrow>
           building H (after_event H event L (map_option fst (fst taken)) provenance)
             (\<lambda>ev. broadcasting ev (emitAgentActivity H (after_activity L ev) (returns_with None))) s1)"

section \<open>tool_result_persist\<close>

definition persist_locals :: "jsval \<Rightarrow> jsval \<Rightarrow> nat \<Rightarrow> plugin_state \<Rightarrow> tool_locals" where
  "persist_locals rawEvent rawCtx ctxId s =
     (let event = toToolHookEvent rawEvent; ctx = toContext rawCtx; raw = hook_raw rawEvent;
          refs = resolveSessionRefs raw ctx
      in \<lparr> th_raw = raw, th_ctx = ctx, th_ctxId = ctxId, th_refs = refs, th_sessionId = rf_sessionId refs,
           th_sessionKey = rf_sessionKey refs,
           th_agentId = resolveAgentId raw ctx (rf_sessionId refs) (rf_sessionKey refs) (ps_sessionTracker s),
           th_toolName = nullish (read_field event ''toolName'') (read_field ctx ''toolName''), th_params = JUndef,
           th_runId = None, th_toolCallId = nullish (read_field event ''toolCallId'') (read_field ctx ''toolCallId''),
           th_correlationId = None, th_subagent = getByChildSessionKey (rf_sessionKey refs) (ps_subagentTracker s) \<rparr>)"

definition read_bool :: "jsval \<Rightarrow> bool option" where
  "read_bool v = (case v of JBool b \<Rightarrow> Some b | _ \<Rightarrow> None)"

definition tool_result_persist :: "plugin_env \<Rightarrow> jsval \<Rightarrow> jsval \<Rightarrow> nat \<Rightarrow> hook_result handler" where
  "tool_result_persist H rawEvent rawCtx ctxId s =
     (let event = toToolHookEvent rawEvent; L = persist_locals rawEvent rawCtx ctxId s in
      case observe_and_describe H L (th_refs L) s of (provenance, s1) \<Rightarrow>
        building H (\<lambda>E. createToolResultPersistEvent E (tool_context_of L JUndef provenance) (jprop event ''message'')
            (read_bool (jprop event ''isSynthetic'')))
          (\<lambda>ev. broadcasting ev (emitAgentActivity H
            (activity_params L (ostr ev ''correlationId'') ''tool.result_persist'' ''Persisting Tool Result''
               ''Tool result appended to transcript'' None None) (returns_with None))) s1)"

section \<open>The verdict of the guard reaches the host\<close>

text \<open>The specification: what the host is to be told, from the parameters and the decision alone.\<close>

definition verdict :: "jsval \<Rightarrow> HookBridgeGuardDecisionOutcome option \<Rightarrow> hook_result" where
  "verdict params decision =
     (case decision of
        None \<Rightarrow> None
      | Some d \<Rightarrow>
          if gd_block d = Some True
          then Some \<lparr> br_block = Some True, br_blockReason = gd_blockReason d,
                 br_params = Some (JObj (buildBlockedParamsPatch params)) \<rparr>
          else if (case gd_params d of None \<Rightarrow> False | Some v \<Rightarrow> js_truthy v)
          then Some \<lparr> br_block = None, br_blockReason = None, br_params = gd_params d \<rparr>
          else None)"

lemma concludes_guard_event [conclusions]:
  assumes "ty \<in> {''tool.guard.matched'', ''tool.guard.allowed'', ''tool.guard.blocked''}" "\<And>s. concludes x (k s)"
  shows "concludes x (guard_event H ty L params provenance d reason k s)"
  unfolding guard_event_def by (rule concludes_broadcast) (rule builds.intros(3) [OF assms(1)], rule assms(2))

lemma concludes_decide: "concludes (Some (verdict (th_params L) (Some d))) (decide H L d provenance s)"
  unfolding decide_def verdict_def Let_def
  by (auto intro!: conclusions split: option.splits)

lemma concludes_announce: "concludes (Some (verdict (th_params L) decision)) (announce H L decision provenance s)"
  unfolding announce_def
  by (auto intro!: conclusions concludes_decide split: option.splits) (simp add: verdict_def concludes_returns)

lemma concludes_guarded:
  "concludes (if default_to [] (th_toolName L) = [] then None else Some (verdict (th_params L) decision)) (guarded_call H L decision s)"
proof -
  have "concludes (if default_to [] (th_toolName L) = [] then None else Some (verdict (th_params L) decision))
      (register_call H L decision provenance c s)" for provenance c s
    by (auto simp: register_call_def startCall_def Let_def intro!: conclusions concludes_announce)
  then show ?thesis
    unfolding guarded_call_def by (auto split: prod.splits intro!: concludes_broadcast builds.intros)
qed

text \<open>
  C15. Whatever other handlers do while before_tool_call awaits, the host gets exactly what
  the specification verdict computes from the parameters and the decision of the guard,
  provided the tool has a name and no broadcast is rejected; otherwise the handler throws
  and the host gets undefined, so that even a blocked call goes through.
\<close>

theorem guard_verdict_reaches_host:
  assumes "pn_hasBridge H" "settles (before_tool_call H rawEvent rawCtx i s) ((EvaluateGuard c, Settled d) # tr) r"
  shows "c = tool_call_of (before_locals H rawEvent rawCtx i s) \<and>
    r = (if refused tr \<or> tl_toolName c = [] then None else Some (verdict (tl_params c) d))"
proof -
  let ?L = "before_locals H rawEvent rawCtx i s"
  obtain s' where s': "c = tool_call_of ?L" "settles (guarded_call H ?L d s') tr r"
    using assms(2) by (auto simp: before_tool_call_def Let_def evaluating_def assms(1) settles_await)
  then have "r = (if refused tr then None
      else if default_to [] (th_toolName ?L) = [] then None else Some (verdict (th_params ?L) d))"
    using concludes_guarded [of ?L d H s'] unfolding concludes_def by blast
  then show ?thesis by (simp add: s'(1) tool_call_of_def)
qed

section \<open>Blocked parameters\<close>

lemma mget_nulled: "mget (fold (\<lambda>key. mput key JNull) ks m) k = (if k \<in> set ks then Some JNull else mget m k)"
  by (induction ks arbitrary: m) auto

lemma map_ok_nulled: "map_ok m \<Longrightarrow> map_ok (fold (\<lambda>key. mput key JNull) ks m)"
  by (induction ks arbitrary: m) auto

text \<open>
  After a block every parameter of the call is null in the parameters that the host is
  to use, and the only other property is the marker; a parameter with the name of the marker
  erases it.
\<close>

theorem blocked_params_fail_closed:
  "oget (spread (obj_entries params) (buildBlockedParamsPatch params)) k =
     (if k \<in> set (mkeys (obj_entries params)) then JNull
      else if k = ''__toolGuardBlocked'' then JBool True else JUndef)"
proof -
  let ?p = "buildBlockedParamsPatch params" and ?es = "obj_entries params"
  have p: "mget ?p k = (if k \<in> set (mkeys ?es) then Some JNull
      else if k = ''__toolGuardBlocked'' then Some (JBool True) else None)"
    unfolding buildBlockedParamsPatch_def mget_nulled by simp
  have "mget (spread ?es ?p) k = (case mget ?p k of None \<Rightarrow> mget ?es k | Some v \<Rightarrow> Some v)"
    by (rule mget_spread_ok) (simp add: buildBlockedParamsPatch_def map_ok_nulled)
  moreover have "k \<notin> set (mkeys ?es) \<Longrightarrow> mget ?es k = None" by (simp add: map_of_eq_None_iff)
  ultimately show ?thesis unfolding oget_mget p by (cases "k \<in> set (mkeys ?es)") simp_all
qed

section \<open>A call and its end\<close>

lemma startCall_Some:
  "startCall fresh name params c now m = Some (callId, calls) \<Longrightarrow>
     callId = default_to fresh (cc_toolCallId c) \<and>
     mget calls callId = Some \<lparr> cl_startTime = now, cl_toolName = name, cl_params = params, cl_runId = cc_runId c,
       cl_toolCallId = cc_toolCallId c, cl_sessionId = cc_sessionId c, cl_sessionKey = cc_sessionKey c,
       cl_agentId = cc_agentId c, cl_correlationId = cc_correlationId c \<rparr>"
  by (auto simp: startCall_def Let_def split: if_splits)

lemma after_event_fields:
  "ostr (fst (after_event H event L d p E n)) ''correlationId'' =
     (case th_correlationId L of None \<Rightarrow> Some (ev_uuid E (Suc n)) | Some c \<Rightarrow> Some c)"
  "oget (fst (after_event H event L d p E n)) ''toolCallId'' = of_str (th_toolCallId L)"
  "jprop (oget (fst (after_event H event L d p E n)) ''data'') ''toolName'' = of_str (th_toolName L)"
  by (simp_all add: after_event_def Let_def createToolErrorEvent_def createToolCompletedEvent_def tool_input_def
      createCanonicalEvent_def tool_context_of_def canonical_input_def ostr_def jnullish_def is_nullish_def split: option.splits)

lemma after_tool_call_first:
  assumes "after_tool_call H rawEvent rawCtx i s = (s1, Await (BroadcastEvent ev) k)"
  shows "\<exists>prov n E. let event = toToolHookEvent rawEvent; ctx = toContext rawCtx;
      tid = nullish (read_field event ''toolCallId'') (read_field ctx ''toolCallId'');
      taken = take_pending tid ctx i s;
      L = after_locals rawEvent rawCtx i (pending_of tid ctx i s) (map_option snd (fst taken)) (snd taken)
    in ev = fst (after_event H event L (map_option fst (fst taken)) prov E n) \<and>
       ps_toolTracker s1 = ps_toolTracker (snd taken) \<and> ps_pendingToolCalls s1 = ps_pendingToolCalls (snd taken)"
  using assms
  by (auto simp: after_tool_call_def Let_def observe_and_describe_def building_def broadcasting_def split: prod.splits)
    (metis fst_conv)+

lemma kept_activity:
  "ps_toolTracker (activity_observed p s) = ps_toolTracker s"
  "ps_pendingToolCalls (activity_observed p s) = ps_pendingToolCalls s"
  by (simp_all add: activity_observed_def Let_def)

text \<open>Up to its next await, or its end, the announcement of a decision leaves the maps of the calls alone.\<close>

lemma kept_announce:
  "announce H L d p s = (s1, out) \<Longrightarrow> ps_toolTracker s1 = ps_toolTracker s \<and> ps_pendingToolCalls s1 = ps_pendingToolCalls s"
  by (auto simp: announce_def decide_def guard_event_def building_def broadcasting_def returns_with_def Let_def
      split: option.splits if_splits prod.splits)

text \<open>The turn that follows the broadcast of the called event enters the call into both maps.\<close>

lemma register_entries:
  assumes run: "register_call H L d p c s = (s1, out)" and "th_toolCallId L = Some tid" "tid \<noteq> []" "th_toolName L = Some name" "name \<noteq> []"
  shows "\<exists>call. mget (ps_toolTracker s1) tid = Some call \<and> cl_toolName call = name \<and> cl_toolCallId call = Some tid \<and>
      cl_startTime call = ps_now s \<and>
      mget (ps_pendingToolCalls s1) tid = Some \<lparr> pd_callId = tid, pd_correlationId = th_correlationId L, pd_agentId = th_agentId L \<rparr>"
proof -
  obtain calls call where st: "startCall (pn_uuid H (ps_uuids s)) name (th_params L) (context_of_call L) (ps_now s) (ps_toolTracker s) = Some (tid, calls)"
      "mget calls tid = Some call" "cl_toolName call = name" "cl_toolCallId call = Some tid" "cl_startTime call = ps_now s"
    using assms(2,5) by (simp add: startCall_def context_of_call_def Let_def)
  let ?s = "pending_call L tid (s\<lparr>ps_toolTracker := calls\<rparr>)"
  have reg: "emitAgentActivity H (activity_params L c ''tool.called'' ''Using Tool'' (''Calling tool: '' @ name) (Some name) (Some ''called''))
      (announce H L d p) ?s = (s1, out)"
    using run st(1) assms(2,4) by (simp add: register_call_def)
  have kept: "ps_toolTracker s1 = ps_toolTracker ?s \<and> ps_pendingToolCalls s1 = ps_pendingToolCalls ?s"
  proof (cases "truthy_str (th_agentId L)")
    case True
    with reg show ?thesis
      by (auto simp: emitAgentActivity_def activity_params_def building_def broadcasting_def kept_activity split: prod.splits)
  next
    case False
    with reg have "announce H L d p ?s = (s1, out)" by (simp add: emitAgentActivity_def activity_params_def)
    then show ?thesis by (rule kept_announce)
  qed
  have "ps_toolTracker ?s = calls" "mget (ps_pendingToolCalls ?s) tid =
      Some \<lparr> pd_callId = tid, pd_correlationId = th_correlationId L, pd_agentId = th_agentId L \<rparr>"
    using assms(2,3) by (simp_all add: pending_call_def truthy_str_def Let_def)
  with kept st show ?thesis by auto
qed

lemma called_event_fields:
  "ostr (fst (createToolCalledEvent E (tool_context_of L params p) n)) ''correlationId'' =
     (case th_correlationId L of None \<Rightarrow> Some (ev_uuid E (Suc n)) | Some c \<Rightarrow> Some c)"
  "oget (fst (createToolCalledEvent E (tool_context_of L params p) n)) ''toolCallId'' = of_str (th_toolCallId L)"
  "jprop (oget (fst (createToolCalledEvent E (tool_context_of L params p) n)) ''data'') ''toolName'' = of_str (th_toolName L)"
  by (simp_all add: createToolCalledEvent_def tool_input_def createCanonicalEvent_def tool_context_of_def canonical_input_def
      ostr_def jnullish_def is_nullish_def Let_def split: option.splits)

lemma completed_duration:
  "is_nullish (jprop event ''error'') \<Longrightarrow>
   jprop (oget (fst (after_event H event L (Some d) p E n)) ''data'') ''durationMs'' = JNum d"
  by (auto simp: after_event_def Let_def createToolCompletedEvent_def tool_input_def
      createCanonicalEvent_def tool_context_of_def canonical_input_def jnullish_def is_nullish_def of_num_def)

lemma guarded_call_first:
  assumes "guarded_call H L d s = (s1, Await (BroadcastEvent ev) k)"
  shows "\<exists>prov E n. ev = fst (createToolCalledEvent E (tool_context_of L (th_params L) prov) n) \<and>
     k = (\<lambda>(reply, s'). register_call H L d prov (ostr ev ''correlationId'') s')"
  using assms
  by (auto simp: guarded_call_def building_def broadcasting_def split: prod.splits) (metis fst_conv)

text \<open>
  C23. A call and its end. A named tool call with an id is announced by a called event with its id and its name; once that
  broadcast has settled, in whatever state the other handlers have left, the same turn enters the call into the maps, and when
  the call ends while these entries are still there, the completed or failed event has the correlation id,
  the tool call id and the tool name of the called event, a completed one the time since the call
  was entered, and the call is no longer pending nor active.
\<close>

theorem tool_call_correlated:
  assumes L: "L = before_locals H rawEvent rawCtx i s" "th_toolCallId L = Some tid" "tid \<noteq> []" "th_toolName L = Some name" "name \<noteq> []"
    and called: "guarded_call H L d s1 = (s2, Await (BroadcastEvent called) k)"
    and entered: "k (reply, s2') = (s3, out)"
    and there: "mget (ps_toolTracker s4) tid = mget (ps_toolTracker s3) tid"
      "mget (ps_pendingToolCalls s4) tid = mget (ps_pendingToolCalls s3) tid"
    and same: "nullish (read_field (toToolHookEvent rawEvent') ''toolCallId'') (read_field (toContext rawCtx') ''toolCallId'') = Some tid"
    and ended: "after_tool_call H rawEvent' rawCtx' j s4 = (s5, Await (BroadcastEvent ended) k')"
  shows "oget called ''toolCallId'' = JStr tid \<and> jprop (oget called ''data'') ''toolName'' = JStr name \<and>
    ostr called ''correlationId'' \<noteq> None \<and> ostr ended ''correlationId'' = ostr called ''correlationId'' \<and>
    oget ended ''toolCallId'' = JStr tid \<and> jprop (oget ended ''data'') ''toolName'' = JStr name \<and>
    (is_nullish (jprop (toToolHookEvent rawEvent') ''error'') \<longrightarrow>
      jprop (oget ended ''data'') ''durationMs'' = JNum (ps_now s4 - ps_now s2')) \<and>
    mget (ps_pendingToolCalls s5) tid = None \<and> mget (ps_toolTracker s5) tid = None"
proof -
  have corr: "th_correlationId L = Some (pn_uuid H (ps_uuids s))" by (simp add: L(1) before_locals_def Let_def)
  from guarded_call_first [OF called] obtain prov E n where
      ev: "called = fst (createToolCalledEvent E (tool_context_of L (th_params L) prov) n)"
      and reg: "register_call H L d prov (ostr called ''correlationId'') s2' = (s3, out)"
    using entered by auto
  obtain call where call: "mget (ps_toolTracker s4) tid = Some call" "cl_toolName call = name" "cl_toolCallId call = Some tid"
      "cl_startTime call = ps_now s2'"
      "mget (ps_pendingToolCalls s4) tid = Some \<lparr> pd_callId = tid, pd_correlationId = th_correlationId L, pd_agentId = th_agentId L \<rparr>"
    using register_entries [OF reg L(2-5)] there by auto
  have pending: "pending_of (Some tid) ctx j s4 = Some \<lparr> pd_callId = tid, pd_correlationId = th_correlationId L, pd_agentId = th_agentId L \<rparr>" for ctx
    using call(5) L(3) by (simp add: pending_of_def truthy_str_def)
  have taken: "mget (ps_pendingToolCalls (snd (take_pending (Some tid) ctx j s4))) tid = None \<and>
      mget (ps_toolTracker (snd (take_pending (Some tid) ctx j s4))) tid = None" for ctx
    using call L(3) by (auto simp: take_pending_def pending endCall_def truthy_str_def Let_def)
  have t: "fst (take_pending (Some tid) ctx j s4) = Some (ps_now s4 - ps_now s2', call)" for ctx
    using call by (simp add: take_pending_def pending endCall_def Let_def)
  from after_tool_call_first [OF ended] obtain prov2 n2 E2 where
      e: "ended = fst (after_event H (toToolHookEvent rawEvent') (after_locals rawEvent' rawCtx' j
          (Some \<lparr> pd_callId = tid, pd_correlationId = th_correlationId L, pd_agentId = th_agentId L \<rparr>) (Some call)
          (snd (take_pending (Some tid) (toContext rawCtx') j s4))) (Some (ps_now s4 - ps_now s2')) prov2 E2 n2)"
      and maps: "ps_toolTracker s5 = ps_toolTracker (snd (take_pending (Some tid) (toContext rawCtx') j s4))"
        "ps_pendingToolCalls s5 = ps_pendingToolCalls (snd (take_pending (Some tid) (toContext rawCtx') j s4))"
    by (auto simp: Let_def same pending t)
  have "ostr ended ''correlationId'' = Some (pn_uuid H (ps_uuids s))" "oget ended ''toolCallId'' = JStr tid"
      "jprop (oget ended ''data'') ''toolName'' = JStr name"
    unfolding e after_event_fields using call corr by (simp_all add: after_locals_def Let_def)
  moreover have "ostr called ''correlationId'' = Some (pn_uuid H (ps_uuids s))" "oget called ''toolCallId'' = JStr tid"
      "jprop (oget called ''data'') ''toolName'' = JStr name"
    unfolding ev called_event_fields using L corr by simp_all
  moreover have "is_nullish (jprop (toToolHookEvent rawEvent') ''error'') \<longrightarrow>
      jprop (oget ended ''data'') ''durationMs'' = JNum (ps_now s4 - ps_now s2')"
    unfolding e using completed_duration by blast
  ultimately show ?thesis using taken maps by simp
qed

section \<open>Concrete calls\<close>

definition idle_plugin :: plugin_state where
  "idle_plugin =
     \<lparr> ps_toolTracker = [], ps_pendingToolCalls = [], ps_pendingByContext = [], ps_sessionTracker = new_tracker None,
       ps_agentRunTracker = [], ps_statusReducer = new_reducer None None, ps_subagentTracker = [], ps_hasQueue = False,
       ps_isFollower = False, ps_uuids = 0, ps_now = 0 \<rparr>"

definition exec_hook :: jsval where
  "exec_hook = JObj [(''toolName'', JStr ''exec''), (''toolCallId'', JStr ''c1''),
     (''params'', JObj [(''command'', JStr ''rm'')])]"

definition block_outcome :: HookBridgeGuardDecisionOutcome where
  "block_outcome = \<lparr> gd_block = Some True, gd_blockReason = Some ''no'', gd_params = None, gd_blockReasonTemplate = None,
     oc_matchedRuleId = None, oc_matchedActionId = None, oc_decisionSource = None, oc_matched = None \<rparr>"

definition exec_locals :: tool_locals where
  "exec_locals = before_locals sample_env exec_hook JUndef 0 idle_plugin"

lemma exec_locals_facts:
  "th_toolCallId exec_locals = Some ''c1''" "tl_toolName (tool_call_of exec_locals) = ''exec''"
  "tl_params (tool_call_of exec_locals) = JObj [(''command'', JStr ''rm'')]" "pn_hasBridge sample_env"
  by code_simp+

theorem guard_verdict_reaches_host_witness:
  "\<exists>tr. settles (before_tool_call sample_env exec_hook JUndef 0 idle_plugin) tr
     (Some (Some \<lparr> br_block = Some True, br_blockReason = Some ''no'',
        br_params = Some (JObj [(''__toolGuardBlocked'', JBool True), (''command'', JNull)]) \<rparr>))"
proof -
  let ?c = "tool_call_of exec_locals"
  obtain tr r where tr: "settles (guarded_call sample_env exec_locals (Some block_outcome) idle_plugin) tr r" "\<not> refused tr"
    by (rule calm_runE)
  then have s: "settles (before_tool_call sample_env exec_hook JUndef 0 idle_plugin)
      ((EvaluateGuard ?c, Settled (Some block_outcome)) # tr) r"
    by (auto simp: before_tool_call_def evaluating_def exec_locals_def exec_locals_facts(4) Let_def settles_await)
  have "verdict (JObj [(''command'', JStr ''rm'')]) (Some block_outcome) =
      Some \<lparr> br_block = Some True, br_blockReason = Some ''no'',
        br_params = Some (JObj [(''__toolGuardBlocked'', JBool True), (''command'', JNull)]) \<rparr>" by code_simp
  then show ?thesis
    using guard_verdict_reaches_host [OF exec_locals_facts(4) s] s tr(2) by (auto simp: exec_locals_facts)
qed

lemma building_waits: "\<exists>t ev k'. building H mk (\<lambda>ev. broadcasting ev (k ev)) s = (t, Await (BroadcastEvent ev) k')"
  by (simp add: building_def broadcasting_def split_def)

lemma tool_hooks_wait:
  "\<exists>t ev k. guarded_call H L d s = (t, Await (BroadcastEvent ev) k)"
  "\<exists>t ev k. after_tool_call H rawEvent rawCtx i s = (t, Await (BroadcastEvent ev) k)"
  unfolding guarded_call_def after_tool_call_def Let_def split_def by (rule building_waits)+

theorem tool_call_correlated_witness:
  "\<exists>s2 called k s3 out s5 ended k2. guarded_call sample_env exec_locals None idle_plugin = (s2, Await (BroadcastEvent called) k) \<and>
     k (None, s2) = (s3, out) \<and> after_tool_call sample_env exec_hook JUndef 0 s3 = (s5, Await (BroadcastEvent ended) k2) \<and>
     ostr ended ''correlationId'' = ostr called ''correlationId'' \<and> mget (ps_toolTracker s5) ''c1'' = None"
proof -
  obtain s2 called k where c: "guarded_call sample_env exec_locals None idle_plugin = (s2, Await (BroadcastEvent called) k)"
    using tool_hooks_wait(1) by blast
  obtain s3 out where r: "k (None, s2) = (s3, out)" by (rule prod.exhaust)
  obtain s5 ended k2 where e: "after_tool_call sample_env exec_hook JUndef 0 s3 = (s5, Await (BroadcastEvent ended) k2)"
    using tool_hooks_wait(2) by blast
  have n: "th_toolName exec_locals = Some ''exec''" "''exec'' \<noteq> []" "''c1'' \<noteq> []"
    and i: "nullish (read_field (toToolHookEvent exec_hook) ''toolCallId'') (read_field (toContext JUndef) ''toolCallId'') = Some ''c1''"
    by code_simp+
  from tool_call_correlated [OF exec_locals_def exec_locals_facts(1) n(3,1,2) c r refl refl i e] c r e show ?thesis by blast
qed

end
