(* ===== verification/RuntimeHooks.thy ===== *)
theory RuntimeHooks imports ToolHooks begin

text \<open>
  The remaining hooks: sessions, subagents, compaction, agent runs and the gateway
  (\<open>src/runtime/register-session-hooks.ts\<close>, \<open>register-subagent-hooks.ts\<close>, \<open>register-compaction-hooks.ts\<close>,
  \<open>register-agent-run-hooks.ts\<close>, \<open>register-gateway-hooks.ts\<close>) and the internal handlers of messages,
  commands, agents and the gateway (\<open>src/runtime/internal-handlers.ts\<close>); then the machine on which
  all hooks interleave.
\<close>

section \<open>Locals\<close>

definition raw_object :: "jsval \<Rightarrow> jsval" where
  "raw_object rawEvent = (if isRecord rawEvent then rawEvent else JObj [])"

record hook_locals =
  hl_raw :: jsval
  hl_ctx :: jsval
  hl_refs :: ResolvedSessionRefs
  hl_sessionId :: "string option"
  hl_sessionKey :: "string option"
  hl_agentId :: "string option"

definition hook_locals_of :: "jsval \<Rightarrow> jsval \<Rightarrow> plugin_state \<Rightarrow> hook_locals" where
  "hook_locals_of raw ctx s =
     (let refs = resolveSessionRefs raw ctx in
      \<lparr> hl_raw = raw, hl_ctx = ctx, hl_refs = refs, hl_sessionId = rf_sessionId refs, hl_sessionKey = rf_sessionKey refs,
        hl_agentId = resolveAgentId raw ctx (rf_sessionId refs) (rf_sessionKey refs) (ps_sessionTracker s) \<rparr>)"

definition who_of :: "hook_locals \<Rightarrow> who" where
  "who_of L =
     \<lparr> who_agentId = hl_agentId L, who_sessionId = hl_sessionId L, who_sessionKey = hl_sessionKey L, who_runId = None,
       who_correlationId = None \<rparr>"

definition activity_of :: "hook_locals \<Rightarrow> event \<Rightarrow> string \<Rightarrow> string \<Rightarrow> string \<Rightarrow> EmitAgentActivityParams" where
  "activity_of L ev src activity detail =
     \<lparr> ea_agentId = hl_agentId L, ea_sessionId = hl_sessionId L, ea_sessionKey = hl_sessionKey L,
       ea_correlationId = ostr ev ''correlationId'', ea_sourceEventType = src, ea_activity = activity,
       ea_activityDetail = detail, ea_toolName = None, ea_toolStatus = None, ea_metadata = JUndef \<rparr>"

text \<open>\<open>observeSessionProvenance\<close> with the session of the locals.\<close>

definition observe_hook :: "hook_locals \<Rightarrow> string option \<Rightarrow> string \<Rightarrow> plugin_state \<Rightarrow> plugin_state" where
  "observe_hook L runId direction s =
     s\<lparr>ps_sessionTracker := observeSessionProvenance
         ((hl_refs L)\<lparr>rf_sessionId := hl_sessionId L, rf_sessionKey := hl_sessionKey L\<rparr>) (hl_raw L) (hl_ctx L)
         \<lparr> pp_agentId = hl_agentId L, pp_parentAgentId = None, pp_parentSessionId = None, pp_parentSessionKey = None,
           pp_runId = runId, pp_direction = Some direction \<rparr> (ps_now s) (ps_sessionTracker s)\<rparr>"

definition js_items :: "jsval \<Rightarrow> jsval list" where
  "js_items v = (case v of JArr xs \<Rightarrow> xs | _ \<Rightarrow> [])"

section \<open>Sessions (register-session-hooks.ts)\<close>

text \<open>
  The session id of the hook, with its session key; the fallbacks to the event and the context are
  among the candidates of \<open>resolveSessionRefs\<close> already.
\<close>

definition session_locals :: "jsval \<Rightarrow> jsval \<Rightarrow> plugin_state \<Rightarrow> hook_locals" where
  "session_locals rawEvent rawCtx s =
     (let raw = raw_object rawEvent; ctx = toContext rawCtx; refs = resolveSessionRefs raw ctx;
          sessionId = nullish (rf_sessionId refs) (nullish (read_field raw ''sessionId'') (read_field ctx ''sessionId''));
          sessionKey = nullish (rf_sessionKey refs) (nullish (read_field raw ''sessionKey'') (read_field ctx ''sessionKey''))
      in \<lparr> hl_raw = raw, hl_ctx = ctx, hl_refs = refs, hl_sessionId = sessionId, hl_sessionKey = sessionKey,
           hl_agentId = resolveAgentId raw ctx sessionId sessionKey (ps_sessionTracker s) \<rparr>)"

definition session_start :: "plugin_env \<Rightarrow> jsval \<Rightarrow> jsval \<Rightarrow> hook_result handler" where
  "session_start H rawEvent rawCtx s =
     (let L = session_locals rawEvent rawCtx s in
      if \<not> truthy_str (hl_sessionId L) then returns_with None s
      else building H (\<lambda>E. createSessionStartEvent E (who_of L) (read_field (hl_raw L) ''resumedFrom'') [])
        (\<lambda>ev. broadcasting ev (emitAgentActivity H
          (activity_of L ev ''session.start'' ''Session Started'' ''Agent session lifecycle started'') (returns_with None)))
        (observe_hook L None ''internal'' s))"

text \<open>The two attempts to end the session: by its id, and by its key when the first finds none.\<close>

definition end_session :: "plugin_env \<Rightarrow> string \<Rightarrow> string option \<Rightarrow> plugin_state \<Rightarrow> SessionRecordSnapshot option \<times> plugin_state" where
  "end_session H sessionId sessionKey s =
     (case endSession (pn_le H) sessionId (ps_now s) (ps_sessionTracker s) of
        (Some e, t) \<Rightarrow> (Some e, s\<lparr>ps_sessionTracker := t\<rparr>)
      | (None, t) \<Rightarrow>
          (case endSession (pn_le H) (default_to [] sessionKey) (ps_now s) t of
             (e, t2) \<Rightarrow> (e, s\<lparr>ps_sessionTracker := t2\<rparr>)))"

definition session_end :: "plugin_env \<Rightarrow> jsval \<Rightarrow> jsval \<Rightarrow> hook_result handler" where
  "session_end H rawEvent rawCtx s =
     (let L0 = session_locals rawEvent rawCtx s in
      if \<not> truthy_str (hl_sessionId L0) then returns_with None s
      else case end_session H (the (hl_sessionId L0)) (hl_sessionKey L0) s of (ended, s1) \<Rightarrow>
        (let L = L0\<lparr>hl_agentId := nullish (Option.bind ended sn_agentId)
               (resolveAgentId (hl_raw L0) (hl_ctx L0) (hl_sessionId L0) (hl_sessionKey L0) (ps_sessionTracker s1))\<rparr>;
             s2 = (if truthy_str (hl_agentId L)
               then s1\<lparr>ps_statusReducer := removeSession (the (hl_agentId L))
                  (resolveSessionRefForStatus (hl_sessionId L) (hl_sessionKey L)) (ps_statusReducer s1)\<rparr>
               else s1)
         in building H (\<lambda>E. createSessionEndEvent E (who_of L) (readNumber (jprop (hl_raw L) ''messageCount''))
                (nullish (readNumber (jprop (hl_raw L) ''durationMs'')) (map_option sn_durationMs ended)) [])
              (\<lambda>ev. broadcasting ev
                (if truthy_str (hl_agentId L)
                 then emitAgentActivity H (activity_of L ev ''session.end'' ''Session Ended'' ''Agent session lifecycle ended'')
                   (returns_with None)
                 else emitAgentStatusTransitions H (Some ''session.end'') (returns_with None))) s2))"

section \<open>Subagents (register-subagent-hooks.ts)\<close>

definition normalizeSubagentEndReason :: "string option \<Rightarrow> string" where
  "normalizeSubagentEndReason v =
     (case v of None \<Rightarrow> ''unknown''
      | Some x \<Rightarrow> if x \<in> {''completed'', ''deleted'', ''swept'', ''released''} then x else ''unknown'')"

definition subagent_locals :: "jsval \<Rightarrow> jsval \<Rightarrow> plugin_state \<Rightarrow> hook_locals" where
  "subagent_locals rawEvent rawCtx s =
     (let L = hook_locals_of (raw_object rawEvent) (toContext rawCtx) s in
      L\<lparr>hl_agentId := nullish (hl_agentId L) (read_field (hl_raw L) ''agentId'')\<rparr>)"

definition hook_runId :: "hook_locals \<Rightarrow> string option" where
  "hook_runId L = nullish (read_field (hl_raw L) ''runId'') (read_field (hl_ctx L) ''runId'')"

definition spawn_data :: "hook_locals \<Rightarrow> string option \<Rightarrow> string option \<Rightarrow> string option \<Rightarrow> string option \<Rightarrow> jsobj" where
  "spawn_data L parentAgentId parentSessionId parentSessionKey childSessionKey =
     spread (obj_entries (hl_raw L))
       [(''parentAgentId'', of_str parentAgentId), (''parentSessionId'', of_str parentSessionId),
        (''parentSessionKey'', of_str parentSessionKey), (''childAgentId'', of_str (read_field (hl_raw L) ''agentId'')),
        (''childSessionKey'', of_str childSessionKey)]"

definition subagent_spawning :: "plugin_env \<Rightarrow> jsval \<Rightarrow> jsval \<Rightarrow> hook_result handler" where
  "subagent_spawning H rawEvent rawCtx s =
     (let L = subagent_locals rawEvent rawCtx s; child = read_field (hl_raw L) ''childSessionKey'' in
      building H (\<lambda>E. createSubagentSpawningEvent E ((who_of L)\<lparr>who_runId := hook_runId L\<rparr>) child
          (spawn_data L (hl_agentId L) (hl_sessionId L) (hl_sessionKey L) child))
        (\<lambda>ev. broadcasting ev (emitAgentActivity H
          (activity_of L ev ''subagent.spawning'' ''Spawning Subagent'' ''Subagent spawn requested'') (returns_with None))) s)"

definition spawn_of_hook :: "hook_locals \<Rightarrow> string \<Rightarrow> spawn_params" where
  "spawn_of_hook L child =
     \<lparr> sp_childSessionKey = child, sp_parentAgentId = hl_agentId L, sp_parentSessionId = hl_sessionId L,
       sp_parentSessionKey = hl_sessionKey L, sp_childAgentId = read_field (hl_raw L) ''agentId'',
       sp_runId = hook_runId L, sp_mode = read_field (hl_raw L) ''mode'' \<rparr>"

text \<open>The child is registered only after both events were broadcast.\<close>

definition register_child :: "hook_locals \<Rightarrow> string option \<Rightarrow> plugin_state \<Rightarrow> plugin_state" where
  "register_child L child s =
     (if \<not> truthy_str child then s
      else s\<lparr>ps_subagentTracker := snd (registerSpawn (spawn_of_hook L (the child)) (ps_now s) (ps_subagentTracker s)),
             ps_sessionTracker := touchSession (no_params\<lparr>op_sessionKey := child,
               op_agentId := read_field (hl_raw L) ''agentId''\<rparr>) (ps_now s) (ps_sessionTracker s)\<rparr>)"

definition subagent_spawned :: "plugin_env \<Rightarrow> jsval \<Rightarrow> jsval \<Rightarrow> hook_result handler" where
  "subagent_spawned H rawEvent rawCtx s =
     (let L = subagent_locals rawEvent rawCtx s; child = read_field (hl_raw L) ''childSessionKey'';
          spawn = \<lparr> sx_parentAgentId = hl_agentId L, sx_childAgentId = read_field (hl_raw L) ''agentId'',
            sx_parentSessionId = hl_sessionId L, sx_parentSessionKey = hl_sessionKey L, sx_childSessionKey = child,
            sx_runId = hook_runId L, sx_mode = read_field (hl_raw L) ''mode'' \<rparr> in
      building H (\<lambda>E. createSubagentSpawnedEvent E ((who_of L)\<lparr>who_runId := hook_runId L\<rparr>) child
          (spawn_data L (hl_agentId L) (hl_sessionId L) (hl_sessionKey L) child))
        (\<lambda>ev. broadcasting ev
          (building H (\<lambda>E. createAgentSubAgentSpawnEvent E spawn (obj_entries (hl_raw L)))
            (\<lambda>ev2. broadcasting ev2
              (\<lambda>s1. emitAgentActivity H
                (activity_of L ev ''subagent.spawned'' ''Subagent Spawned'' ''Subagent successfully spawned'')
                (returns_with None) (register_child L child s1))))) s)"

text \<open>The end of the child in the three trackers.\<close>

definition end_child :: "plugin_env \<Rightarrow> string option \<Rightarrow> plugin_state \<Rightarrow> plugin_state" where
  "end_child H child s =
     (if \<not> truthy_str child then s
      else
        let s1 = s\<lparr>ps_subagentTracker := markEnded child (ps_now s) (ps_subagentTracker s)\<rparr>;
            childAgent = getAgentIdBySession None child (ps_sessionTracker s1);
            s2 = (if truthy_str childAgent
              then s1\<lparr>ps_statusReducer := removeSession (the childAgent) child (ps_statusReducer s1)\<rparr> else s1)
        in s2\<lparr>ps_sessionTracker := snd (endSession (pn_le H) (the child) (ps_now s2) (ps_sessionTracker s2))\<rparr>)"

definition subagent_ended :: "plugin_env \<Rightarrow> jsval \<Rightarrow> jsval \<Rightarrow> hook_result handler" where
  "subagent_ended H rawEvent rawCtx s =
     (let L = subagent_locals rawEvent rawCtx s;
          child = nullish (read_field (hl_raw L) ''targetSessionKey'') (read_field (hl_raw L) ''childSessionKey'');
          subagent = getByChildSessionKey child (ps_subagentTracker s) in
      building H (\<lambda>E. createSubagentEndedEvent E ((who_of L)\<lparr>who_runId := hook_runId L\<rparr>) child
          (Some (normalizeSubagentEndReason (read_field (hl_raw L) ''reason'')))
          (spawn_data L (nullish (Option.bind subagent su_parentAgentId) (hl_agentId L))
             (nullish (Option.bind subagent su_parentSessionId) (hl_sessionId L))
             (nullish (Option.bind subagent su_parentSessionKey) (hl_sessionKey L)) child))
        (\<lambda>ev. broadcasting ev
          (\<lambda>s1. emitAgentActivity H (activity_of L ev ''subagent.ended'' ''Subagent Ended'' ''Subagent lifecycle ended'')
            (returns_with None) (end_child H child s1))) s)"

section \<open>Compaction (register-compaction-hooks.ts)\<close>

definition touch_hook :: "hook_locals \<Rightarrow> plugin_state \<Rightarrow> plugin_state" where
  "touch_hook L s =
     s\<lparr>ps_sessionTracker := touchSession (no_params\<lparr>op_sessionId := hl_sessionId L, op_sessionKey := hl_sessionKey L,
         op_agentId := hl_agentId L\<rparr>) (ps_now s) (ps_sessionTracker s)\<rparr>"

definition before_compaction :: "plugin_env \<Rightarrow> jsval \<Rightarrow> jsval \<Rightarrow> hook_result handler" where
  "before_compaction H rawEvent rawCtx s =
     (let L = hook_locals_of (raw_object rawEvent) (toContext rawCtx) s; raw = hl_raw L in
      building H (\<lambda>E. createBeforeCompactionEvent E (pc_privacy (pn_config H))
          ((who_of L)\<lparr>who_runId := read_field (hl_ctx L) ''runId''\<rparr>) JUndef
          (default_to 0 (readNumber (jprop raw ''messageCount''))) (readNumber (jprop raw ''compactingCount''))
          (readNumber (jprop raw ''tokenCount''))
          (case jprop raw ''messages'' of JArr xs \<Rightarrow> Some xs | _ \<Rightarrow> None) (read_field raw ''sessionFile''))
        (\<lambda>ev. broadcasting ev (returns_with None)) (touch_hook L s))"

definition after_compaction :: "plugin_env \<Rightarrow> jsval \<Rightarrow> jsval \<Rightarrow> hook_result handler" where
  "after_compaction H rawEvent rawCtx s =
     (let L = hook_locals_of (raw_object rawEvent) (toContext rawCtx) s; raw = hl_raw L in
      building H (\<lambda>E. createAfterCompactionEvent E (pc_privacy (pn_config H))
          ((who_of L)\<lparr>who_runId := read_field (hl_ctx L) ''runId''\<rparr>) JUndef
          (default_to 0 (readNumber (jprop raw ''messageCount''))) (default_to 0 (readNumber (jprop raw ''compactedCount'')))
          (readNumber (jprop raw ''tokenCount'')) (read_field raw ''sessionFile''))
        (\<lambda>ev. broadcasting ev (returns_with None)) (touch_hook L s))"

section \<open>Agent runs (register-agent-run-hooks.ts)\<close>

definition run_ref_of :: "hook_locals \<Rightarrow> string option \<Rightarrow> run_ref" where
  "run_ref_of L runId = \<lparr> rr_runId = runId, rr_sessionId = hl_sessionId L, rr_sessionKey = hl_sessionKey L \<rparr>"

definition before_model_resolve :: "plugin_env \<Rightarrow> jsval \<Rightarrow> jsval \<Rightarrow> hook_result handler" where
  "before_model_resolve H rawEvent rawCtx s =
     (let L = hook_locals_of (raw_object rawEvent) (toContext rawCtx) s;
          text1 = default_to [] (read_field (hl_raw L) ''prompt'');
          runId = read_field (hl_ctx L) ''runId'';
          s1 = observe_hook L runId ''internal'' s in
      building H (\<lambda>E. createBeforeModelResolveEvent E (pc_privacy (pn_config H)) ((who_of L)\<lparr>who_runId := runId\<rparr>) JUndef text1)
        (\<lambda>ev. broadcasting ev (returns_with None))
        (s1\<lparr>ps_agentRunTracker := observeBeforeModelResolve (run_ref_of L runId) (length text1) (ps_agentRunTracker s1)\<rparr>))"

definition before_prompt_build :: "plugin_env \<Rightarrow> jsval \<Rightarrow> jsval \<Rightarrow> hook_result handler" where
  "before_prompt_build H rawEvent rawCtx s =
     (let L = hook_locals_of (raw_object rawEvent) (toContext rawCtx) s;
          text1 = default_to [] (read_field (hl_raw L) ''prompt'');
          messages = js_items (jprop (hl_raw L) ''messages'');
          runId = read_field (hl_ctx L) ''runId'';
          s1 = observe_hook L runId ''internal'' s in
      building H (\<lambda>E. createBeforePromptBuildEvent E (pc_privacy (pn_config H)) ((who_of L)\<lparr>who_runId := runId\<rparr>) JUndef
          text1 messages)
        (\<lambda>ev. broadcasting ev (returns_with None))
        (s1\<lparr>ps_agentRunTracker := observeBeforePromptBuild (run_ref_of L runId) (length text1) (length messages)
             (ps_agentRunTracker s1)\<rparr>))"

text \<open>A model hook has a session id of its own; without one it is skipped.\<close>

definition model_locals :: "jsval \<Rightarrow> jsval \<Rightarrow> plugin_state \<Rightarrow> hook_locals" where
  "model_locals rawEvent rawCtx s =
     (let raw = raw_object rawEvent; ctx = toContext rawCtx; refs = resolveSessionRefs raw ctx;
          sessionId = nullish (read_field raw ''sessionId'') (rf_sessionId refs)
      in \<lparr> hl_raw = raw, hl_ctx = ctx, hl_refs = refs, hl_sessionId = sessionId, hl_sessionKey = rf_sessionKey refs,
           hl_agentId = resolveAgentId raw ctx sessionId (rf_sessionKey refs) (ps_sessionTracker s) \<rparr>)"

definition run_audit :: "AgentRunSnapshot option \<Rightarrow> string \<Rightarrow> jsval list \<Rightarrow> jsobj" where
  "run_audit snapshot input historyMessages =
     (case snapshot of None \<Rightarrow> [] | Some r \<Rightarrow>
        (case rs_beforePromptBuildPromptLength r of None \<Rightarrow> []
         | Some n \<Rightarrow> [(''promptChangedFromBeforePromptBuild'', JBool (n \<noteq> length input)),
             (''promptLengthDeltaFromBeforePromptBuild'', JNum (int (length input) - int n))]) @
        (case rs_beforeModelResolvePromptLength r of None \<Rightarrow> []
         | Some n \<Rightarrow> [(''promptLengthDeltaFromBeforeModelResolve'', JNum (int (length input) - int n))]) @
        (case rs_beforePromptBuildMessageCount r of None \<Rightarrow> []
         | Some n \<Rightarrow> [(''historyMessageCountDeltaFromBeforePromptBuild'', JNum (int (length historyMessages) - int n))]))"

definition llm_input :: "plugin_env \<Rightarrow> jsval \<Rightarrow> jsval \<Rightarrow> hook_result handler" where
  "llm_input H rawEvent rawCtx s =
     (let L = model_locals rawEvent rawCtx s; raw = hl_raw L; runId = hook_runId L in
      if \<not> truthy_str (hl_sessionId L) then returns_with None s
      else
        let input = default_to [] (read_field raw ''prompt''); history = js_items (jprop raw ''historyMessages'');
            snapshot = getSnapshot (run_ref_of L runId) (ps_agentRunTracker s)
        in building H (\<lambda>E. createLlmInputEvent E (pc_privacy (pn_config H)) ((who_of L)\<lparr>who_runId := runId\<rparr>) JUndef
               (default_to ''unknown-provider'' (read_field raw ''provider''))
               (default_to ''unknown-model'' (read_field raw ''model'')) (read_field raw ''systemPrompt'') input history
               (default_to 0 (readNumber (jprop raw ''imagesCount''))) (run_audit snapshot input history))
             (\<lambda>ev. broadcasting ev (returns_with None)) (observe_hook L runId ''internal'' s))"

definition llm_output :: "plugin_env \<Rightarrow> jsval \<Rightarrow> jsval \<Rightarrow> hook_result handler" where
  "llm_output H rawEvent rawCtx s =
     (let L = model_locals rawEvent rawCtx s; raw = hl_raw L; runId = hook_runId L in
      if \<not> truthy_str (hl_sessionId L) then returns_with None s
      else building H (\<lambda>E. createLlmOutputEvent E (pc_privacy (pn_config H)) ((who_of L)\<lparr>who_runId := runId\<rparr>) JUndef
          (default_to ''unknown-provider'' (read_field raw ''provider''))
          (default_to ''unknown-model'' (read_field raw ''model''))
          (List.map_filter readString (js_items (jprop raw ''assistantTexts''))) (jprop raw ''lastAssistant'')
          (if isRecord (jprop raw ''usage'') then jprop raw ''usage'' else JUndef))
        (\<lambda>ev. broadcasting ev (returns_with None)) (observe_hook L runId ''internal'' s))"

definition agent_end :: "plugin_env \<Rightarrow> jsval \<Rightarrow> jsval \<Rightarrow> hook_result handler" where
  "agent_end H rawEvent rawCtx s =
     (let L = hook_locals_of (raw_object rawEvent) (toContext rawCtx) s; raw = hl_raw L;
          runId = read_field (hl_ctx L) ''runId'' in
      building H (\<lambda>E. createAgentEndEvent E (pc_privacy (pn_config H)) ((who_of L)\<lparr>who_runId := runId\<rparr>) JUndef
          (js_items (jprop raw ''messages'')) (jprop raw ''success'' = JBool True) (read_field raw ''error'')
          (readNumber (jprop raw ''durationMs'')))
        (\<lambda>ev. broadcasting ev (\<lambda>s1. returns_with None
          (s1\<lparr>ps_agentRunTracker := clearSnapshot (run_ref_of L runId) (ps_agentRunTracker s1)\<rparr>)))
        (observe_hook L runId ''internal'' s))"

section \<open>The gateway (register-gateway-hooks.ts)\<close>

definition gateway_start :: "plugin_env \<Rightarrow> jsval \<Rightarrow> hook_result handler" where
  "gateway_start H rawEvent =
     (let raw = raw_object rawEvent in
      building H (\<lambda>E. createGatewayPluginStartEvent E (readNumber (jprop raw ''port'')) (obj_entries raw))
        (\<lambda>ev. broadcasting ev (returns_with None)))"

definition gateway_stop :: "plugin_env \<Rightarrow> jsval \<Rightarrow> hook_result handler" where
  "gateway_stop H rawEvent =
     (let raw = raw_object rawEvent in
      building H (\<lambda>E. createGatewayPluginStopEvent E (read_field raw ''reason'') (obj_entries raw))
        (\<lambda>ev. broadcasting ev (\<lambda>s. emitAgentStatusTransitions H (Some ''gateway.stop'') (returns_with None)
          (s\<lparr>ps_statusReducer := markAllOffline (ps_statusReducer s)\<rparr>))))"

section \<open>Internal handlers (internal-handlers.ts)\<close>

text \<open>The four message handlers differ in the parser, the direction and the activity.\<close>

definition handle_message ::
  "plugin_env \<Rightarrow> (event_env \<Rightarrow> jsval \<Rightarrow> nat \<Rightarrow> (event \<times> nat) option) \<Rightarrow> string \<Rightarrow> string \<Rightarrow> string \<Rightarrow> string \<Rightarrow> jsval \<Rightarrow>
   hook_result handler" where
  "handle_message H parse direction src activity detail hookEvent s =
     (case parse (env_at H s) hookEvent (ps_uuids s) of
        None \<Rightarrow> returns_with None s
      | Some (ev, n) \<Rightarrow>
          broadcasting ev (\<lambda>s1.
            let L = hook_locals_of (hook_raw hookEvent) JUndef s1 in
            emitAgentActivity H
              ((activity_of L ev src activity detail)
                 \<lparr>ea_sessionId := nullish (ostr ev ''sessionId'') (hl_sessionId L),
                  ea_sessionKey := nullish (ostr ev ''sessionKey'') (hl_sessionKey L)\<rparr>)
              (returns_with None) (observe_hook L None direction s1)) (s\<lparr>ps_uuids := n\<rparr>))"

definition handleMessageReceived :: "plugin_env \<Rightarrow> jsval \<Rightarrow> hook_result handler" where
  "handleMessageReceived H = handle_message H fromOpenClawMessageReceived ''inbound'' ''message.received'' ''Message Received''
     ''Inbound message accepted by agent pipeline''"

definition handleMessageTranscribed :: "plugin_env \<Rightarrow> jsval \<Rightarrow> hook_result handler" where
  "handleMessageTranscribed H = handle_message H fromOpenClawMessageTranscribed ''inbound'' ''message.transcribed''
     ''Transcribing Message'' ''Inbound message transcription completed''"

definition handleMessagePreprocessed :: "plugin_env \<Rightarrow> jsval \<Rightarrow> hook_result handler" where
  "handleMessagePreprocessed H = handle_message H fromOpenClawMessagePreprocessed ''inbound'' ''message.preprocessed''
     ''Processing Message'' ''Inbound message preprocessing complete''"

definition handleMessageSent :: "plugin_env \<Rightarrow> jsval \<Rightarrow> hook_result handler" where
  "handleMessageSent H = handle_message H fromOpenClawMessageSent ''outbound'' ''message.sent'' ''Response Sent''
     ''Outbound message delivered''"

datatype command_action = NewCommand | ResetCommand | StopCommand

fun command_type :: "command_action \<Rightarrow> string" where
  "command_type NewCommand = ''command.new''"
| "command_type ResetCommand = ''command.reset''"
| "command_type StopCommand = ''command.stop''"

fun command_texts :: "command_action \<Rightarrow> string \<times> string" where
  "command_texts NewCommand = (''Command NEW'', ''Processed /new command'')"
| "command_texts ResetCommand = (''Command RESET'', ''Processed /reset command'')"
| "command_texts StopCommand = (''Command STOP'', ''Processed /stop command'')"

text \<open>The hook's context object, or an empty one.\<close>

definition handler_context :: "jsval \<Rightarrow> jsval" where
  "handler_context raw = (if isRecord (jprop raw ''context'') then jprop raw ''context'' else JObj [])"

definition if_agent :: "hook_locals \<Rightarrow> 'r handler \<Rightarrow> 'r handler \<Rightarrow> 'r handler" where
  "if_agent L k k0 = (if truthy_str (hl_agentId L) then k else k0)"

definition handleCommand :: "plugin_env \<Rightarrow> command_action \<Rightarrow> jsval \<Rightarrow> hook_result handler" where
  "handleCommand H action hookEvent s =
     (let L = hook_locals_of (raw_object hookEvent) JUndef s; context = handler_context (hl_raw L) in
      building H (\<lambda>E. createCommandEvent E (command_type action) (who_of L) (read_field context ''commandSource'')
          (read_field context ''senderId'') (obj_entries context))
        (\<lambda>ev. broadcasting ev (if_agent L (emitAgentActivity H
            (activity_of L ev (command_type action) (fst (command_texts action)) (snd (command_texts action))) (returns_with None))
          (returns_with None))) (observe_hook L None ''internal'' s))"

definition handleAgentBootstrap :: "plugin_env \<Rightarrow> jsval \<Rightarrow> hook_result handler" where
  "handleAgentBootstrap H hookEvent s =
     (let L = hook_locals_of (raw_object hookEvent) JUndef s in
      building H (\<lambda>E. createAgentBootstrapEvent E (who_of L) (handler_context (hl_raw L)))
        (\<lambda>ev. broadcasting ev (if_agent L (emitAgentActivity H
            (activity_of L ev ''agent.bootstrap'' ''Bootstrapping'' ''Agent bootstrap hook executed'') (returns_with None))
          (returns_with None))) (observe_hook L None ''internal'' s))"

definition error_message :: "jsval \<Rightarrow> jsval \<Rightarrow> string" where
  "error_message raw context =
     default_to ''Agent error'' (nullish (read_field context ''error'') (nullish (read_field raw ''error'') (read_field context ''message'')))"

definition mark_classified :: "string \<Rightarrow> string \<Rightarrow> plugin_state \<Rightarrow> plugin_state" where
  "mark_classified agentId message s =
     s\<lparr>ps_statusReducer := (if classifyAgentError message = ''offline'' then markAgentOffline agentId True (ps_statusReducer s)
         else markAgentError agentId True (ps_statusReducer s))\<rparr>"

definition handleAgentError :: "plugin_env \<Rightarrow> jsval \<Rightarrow> hook_result handler" where
  "handleAgentError H hookEvent s =
     (let L = hook_locals_of (raw_object hookEvent) JUndef s; raw = hl_raw L; context = handler_context raw;
          message = error_message raw context in
      building H (\<lambda>E. createAgentErrorEvent E (who_of L) message
          (nullish (read_field context ''stack'') (read_field raw ''stack'')) context)
        (\<lambda>ev. broadcasting ev (if_agent L
          (\<lambda>s1. emitAgentStatusTransitions H (Some ''agent.error'') (returns_with None)
             (mark_classified (the (hl_agentId L)) message s1))
          (returns_with None))) (observe_hook L None ''internal'' s))"

definition handleAgentSessionEvent :: "plugin_env \<Rightarrow> bool \<Rightarrow> jsval \<Rightarrow> hook_result handler" where
  "handleAgentSessionEvent H starts hookEvent s =
     (let L = hook_locals_of (raw_object hookEvent) JUndef s;
          ty = (if starts then ''agent.session_start'' else ''agent.session_end'') in
      building H (\<lambda>E. createAgentSessionEvent E ty (who_of L) (handler_context (hl_raw L)))
        (\<lambda>ev. broadcasting ev (if_agent L (emitAgentActivity H
            (activity_of L ev ty (if starts then ''Agent Session Start'' else ''Agent Session End'')
               (if starts then ''Agent session lifecycle started'' else ''Agent session lifecycle ended'')) (returns_with None))
          (returns_with None))) (observe_hook L None ''internal'' s))"

definition handleGatewayStartup :: "plugin_env \<Rightarrow> jsval \<Rightarrow> hook_result handler" where
  "handleGatewayStartup H hookEvent =
     (let context = handler_context (raw_object hookEvent) in
      building H (\<lambda>E. createGatewayStartupEvent E (readNumber (jprop context ''port'')) (obj_entries context))
        (\<lambda>ev. broadcasting ev (\<lambda>s. returns_with None (maybeInitializeQueue H s))))"

end
