(* ===== verification/HookMachine.thy ===== *)
theory HookMachine imports RuntimeHooks begin

text \<open>
  All hooks on one state: a machine that starts handlers, settles or rejects the requests they wait
  for in any order, and lets time pass.  The locale \<open>plugin_invariant\<close> says what a predicate on the
  state has to be closed under to hold at every moment, and is interpreted for the invariants of the
  trackers.
\<close>

section \<open>The machine\<close>

datatype hook_call =
    BeforeToolCall jsval jsval nat
  | AfterToolCall jsval jsval nat
  | ToolResultPersist jsval jsval nat
  | SessionStart jsval jsval
  | SessionEnd jsval jsval
  | SubagentSpawning jsval jsval
  | SubagentSpawned jsval jsval
  | SubagentEnded jsval jsval
  | BeforeCompaction jsval jsval
  | AfterCompaction jsval jsval
  | BeforeModelResolve jsval jsval
  | BeforePromptBuild jsval jsval
  | LlmInput jsval jsval
  | LlmOutput jsval jsval
  | AgentEnd jsval jsval
  | GatewayStart jsval
  | GatewayStop jsval
  | MessageReceived jsval
  | MessageTranscribed jsval
  | MessagePreprocessed jsval
  | MessageSent jsval
  | Command command_action jsval
  | AgentBootstrap jsval
  | AgentErrorHook jsval
  | AgentSessionHook bool jsval
  | GatewayStartup jsval

fun run_hook :: "plugin_env \<Rightarrow> hook_call \<Rightarrow> hook_result handler" where
  "run_hook H (BeforeToolCall e c i) = before_tool_call H e c i"
| "run_hook H (AfterToolCall e c i) = after_tool_call H e c i"
| "run_hook H (ToolResultPersist e c i) = tool_result_persist H e c i"
| "run_hook H (SessionStart e c) = session_start H e c"
| "run_hook H (SessionEnd e c) = session_end H e c"
| "run_hook H (SubagentSpawning e c) = subagent_spawning H e c"
| "run_hook H (SubagentSpawned e c) = subagent_spawned H e c"
| "run_hook H (SubagentEnded e c) = subagent_ended H e c"
| "run_hook H (BeforeCompaction e c) = before_compaction H e c"
| "run_hook H (AfterCompaction e c) = after_compaction H e c"
| "run_hook H (BeforeModelResolve e c) = before_model_resolve H e c"
| "run_hook H (BeforePromptBuild e c) = before_prompt_build H e c"
| "run_hook H (LlmInput e c) = llm_input H e c"
| "run_hook H (LlmOutput e c) = llm_output H e c"
| "run_hook H (AgentEnd e c) = agent_end H e c"
| "run_hook H (GatewayStart e) = gateway_start H e"
| "run_hook H (GatewayStop e) = gateway_stop H e"
| "run_hook H (MessageReceived e) = handleMessageReceived H e"
| "run_hook H (MessageTranscribed e) = handleMessageTranscribed H e"
| "run_hook H (MessagePreprocessed e) = handleMessagePreprocessed H e"
| "run_hook H (MessageSent e) = handleMessageSent H e"
| "run_hook H (Command a e) = handleCommand H a e"
| "run_hook H (AgentBootstrap e) = handleAgentBootstrap H e"
| "run_hook H (AgentErrorHook e) = handleAgentError H e"
| "run_hook H (AgentSessionHook b e) = handleAgentSessionEvent H b e"
| "run_hook H (GatewayStartup e) = handleGatewayStartup H e"

type_synonym suspended =
  "request \<times> (HookBridgeGuardDecisionOutcome option \<times> plugin_state \<Rightarrow> plugin_state \<times> hook_result outcome)"

record plugin_machine =
  pm_state :: plugin_state
  pm_waiting :: "suspended list"
  pm_events :: "event list"

text \<open>The events that were handed to the transport are kept in their order.\<close>

definition absorb :: "plugin_state \<times> hook_result outcome \<Rightarrow> plugin_machine \<Rightarrow> plugin_machine" where
  "absorb res m =
     (case snd res of
        Await q k \<Rightarrow>
          m\<lparr>pm_state := fst res, pm_waiting := pm_waiting m @ [(q, k)],
            pm_events := pm_events m @ (case q of BroadcastEvent ev \<Rightarrow> [ev] | _ \<Rightarrow> [])\<rparr>
      | _ \<Rightarrow> m\<lparr>pm_state := fst res\<rparr>)"

datatype plugin_op =
    Hook hook_call
  | Settle nat "HookBridgeGuardDecisionOutcome option"
  | Reject nat
  | Pass int

definition drop_nth :: "nat \<Rightarrow> 'a list \<Rightarrow> 'a list" where
  "drop_nth i xs = take i xs @ drop (Suc i) xs"

definition plugin_step :: "plugin_env \<Rightarrow> plugin_op \<Rightarrow> plugin_machine \<Rightarrow> plugin_machine" where
  "plugin_step H op m =
     (case op of
        Hook c \<Rightarrow> absorb (run_hook H c (pm_state m)) m
      | Settle i d \<Rightarrow>
          if i < length (pm_waiting m)
          then absorb (snd (pm_waiting m ! i) (d, pm_state m)) (m\<lparr>pm_waiting := drop_nth i (pm_waiting m)\<rparr>)
          else m
      | Reject i \<Rightarrow> m\<lparr>pm_waiting := drop_nth i (pm_waiting m)\<rparr>
      | Pass ms \<Rightarrow> m\<lparr>pm_state := (pm_state m)\<lparr>ps_now := ps_now (pm_state m) + ms\<rparr>\<rparr>)"

definition new_plugin :: "plugin_env \<Rightarrow> bool \<Rightarrow> int \<Rightarrow> plugin_machine" where
  "new_plugin H follower now =
     \<lparr> pm_state = \<lparr> ps_toolTracker = [], ps_pendingToolCalls = [], ps_pendingByContext = [],
         ps_sessionTracker = new_tracker None, ps_agentRunTracker = [],
         ps_statusReducer = new_reducer (Some (st_workingWindowMs (pc_status (pn_config H))))
           (Some (st_sleepingWindowMs (pc_status (pn_config H)))),
         ps_subagentTracker = [], ps_hasQueue = False, ps_isFollower = follower, ps_uuids = 0, ps_now = now \<rparr>,
       pm_waiting = [], pm_events = [] \<rparr>"

section \<open>What every segment of a handler guarantees\<close>

text \<open>
  A segment runs from one await to the next.  It keeps \<open>I\<close>, draws ids forwards only, and an event
  that it hands to the transport is well formed and has an id drawn in the segment.
\<close>

definition segment_ok :: "plugin_env \<Rightarrow> (plugin_state \<Rightarrow> bool) \<Rightarrow> plugin_state \<Rightarrow> plugin_state \<times> 'r outcome \<Rightarrow> bool" where
  "segment_ok H I s res \<longleftrightarrow>
     (I s \<longrightarrow> I (fst res)) \<and> ps_uuids s \<le> ps_uuids (fst res) \<and>
     (\<forall>ev k. snd res = Await (BroadcastEvent ev) k \<longrightarrow>
        wellformed ev \<and> (\<exists>n. ps_uuids s \<le> n \<and> n < ps_uuids (fst res) \<and> oget ev ''eventId'' = JStr (pn_uuid H n)))"

inductive outcome_ok :: "plugin_env \<Rightarrow> (plugin_state \<Rightarrow> bool) \<Rightarrow> 'r outcome \<Rightarrow> bool" for H I where
  "outcome_ok H I (Returned r)"
| "outcome_ok H I Threw"
| "(\<And>d s. segment_ok H I s (k (d, s)) \<and> outcome_ok H I (snd (k (d, s)))) \<Longrightarrow> outcome_ok H I (Await q k)"

definition res_ok :: "plugin_env \<Rightarrow> (plugin_state \<Rightarrow> bool) \<Rightarrow> plugin_state \<Rightarrow> plugin_state \<times> 'r outcome \<Rightarrow> bool" where
  "res_ok H I s res \<longleftrightarrow> segment_ok H I s res \<and> outcome_ok H I (snd res)"

named_theorems segments

lemma res_ok_returns [segments]: "res_ok H I s (returns_with r s)"
  by (simp add: res_ok_def segment_ok_def returns_with_def outcome_ok.intros)

lemma res_ok_throws [segments]: "res_ok H I s (throws s)"
  by (simp add: res_ok_def segment_ok_def throws_def outcome_ok.intros)

text \<open>A silent change of the state before a segment.\<close>

lemma res_ok_after:
  assumes "res_ok H I t res" "I s \<longrightarrow> I t" "ps_uuids s \<le> ps_uuids t"
  shows "res_ok H I s res"
proof -
  have "segment_ok H I s res"
    using assms unfolding res_ok_def segment_ok_def by (blast intro: order_trans)
  then show ?thesis using assms(1) by (simp add: res_ok_def)
qed

lemma outcome_ok_await:
  "(\<And>d s. res_ok H I s (k (d, s))) \<Longrightarrow> outcome_ok H I (Await q k)"
  by (rule outcome_ok.intros) (simp add: res_ok_def)

lemma built_id:
  assumes "builds E b"
  shows "oget (fst (b n)) ''eventId'' = JStr (ev_uuid E n)" "n < snd (b n)"
proof -
  obtain i where "b = createCanonicalEvent E i" "isEventType (ci_type i)" "isRecord (ci_data i)"
    using builds_canonical [OF assms] by blast
  then show "oget (fst (b n)) ''eventId'' = JStr (ev_uuid E n)" "n < snd (b n)"
    by (simp_all add: canonical_wellformed)
qed

lemma res_ok_broadcast:
  assumes "builds (env_at H s) b" "\<And>n. I s \<Longrightarrow> I (s\<lparr>ps_uuids := n\<rparr>)" "\<And>s. res_ok H I s (k s)"
    and "(ev, n) = b (ps_uuids s)"
  shows "res_ok H I s (broadcasting ev k (s\<lparr>ps_uuids := n\<rparr>))"
proof -
  have e: "ev = fst (b (ps_uuids s))" "n = snd (b (ps_uuids s))" using assms(4) by (metis fst_conv snd_conv)+
  have "oget ev ''eventId'' = JStr (pn_uuid H (ps_uuids s))" "ps_uuids s < n"
    using built_id [OF assms(1)] by (simp_all add: e env_at_def)
  then show ?thesis
    using builds_wellformed [OF assms(1)] assms(2)
    by (auto simp: res_ok_def segment_ok_def broadcasting_def e intro!: outcome_ok_await assms(3))
qed

lemma same_uuids [simp]:
  "ps_uuids (activity_observed p s) = ps_uuids s" "ps_uuids (observe_hook L r d s) = ps_uuids s"
  "ps_uuids (touch_hook L s) = ps_uuids s" "ps_uuids (snd (observe_and_describe H TL refs s)) = ps_uuids s"
  "ps_uuids (register_child L c s) = ps_uuids s" "ps_uuids (end_child H c s) = ps_uuids s"
  "ps_uuids (snd (end_session H i x s)) = ps_uuids s" "ps_uuids (mark_classified a m s) = ps_uuids s"
  "ps_uuids (maybeInitializeQueue H s) = ps_uuids s" "ps_uuids (snd (take_pending tid ctx cid s)) = ps_uuids s"
  "ps_uuids (pending_call TL callId s) = ps_uuids s"
  by (simp_all add: activity_observed_def observe_hook_def touch_hook_def observe_and_describe_def register_child_def
      end_child_def end_session_def mark_classified_def maybeInitializeQueue_def take_pending_def pending_call_def Let_def
      split: prod.splits option.splits)

section \<open>Invariants of the state\<close>

locale plugin_invariant =
  fixes H :: plugin_env and I :: "plugin_state \<Rightarrow> bool"
  assumes uuids: "I s \<Longrightarrow> I (s\<lparr>ps_uuids := n\<rparr>)"
    and clock: "I s \<Longrightarrow> I (s\<lparr>ps_now := t\<rparr>)"
    and sessions: "I s \<Longrightarrow> I (s\<lparr>ps_sessionTracker := tracker_step (pn_le H) op (ps_sessionTracker s)\<rparr>)"
    and runs: "I s \<Longrightarrow> I (s\<lparr>ps_agentRunTracker := rs\<rparr>)"
    and reduced: "I s \<Longrightarrow> I (s\<lparr>ps_statusReducer := fst (reducer_step (pn_toISO H) rop (ps_statusReducer s, []))\<rparr>)"
    and subagents: "I s \<Longrightarrow> I (s\<lparr>ps_subagentTracker := fst (subagent_step sop (ps_subagentTracker s, []))\<rparr>)"
    and queue: "I s \<Longrightarrow> I (s\<lparr>ps_hasQueue := b\<rparr>)"
    and called: "I s \<Longrightarrow> startCall fresh name params (context_of_call L) now (ps_toolTracker s) = Some (callId, calls) \<Longrightarrow>
      I (pending_call L callId (s\<lparr>ps_toolTracker := calls, ps_uuids := n\<rparr>))"
    and taken: "I s \<Longrightarrow> I (snd (take_pending tid ctx cid s))"
begin

lemma built [segments]:
  assumes "\<And>E. builds E (mk E)" "\<And>ev s. res_ok H I s (k ev s)"
  shows "res_ok H I s (building H mk (\<lambda>ev. broadcasting ev (k ev)) s)"
proof -
  obtain ev n where b: "mk (env_at H s) (ps_uuids s) = (ev, n)" by (metis surj_pair)
  have "res_ok H I s (broadcasting ev (k ev) (s\<lparr>ps_uuids := n\<rparr>))"
    by (rule res_ok_broadcast [OF assms(1) uuids assms(2) b [symmetric]])
  then show ?thesis by (simp add: building_def b)
qed

lemma transitions_list: "(\<And>s. res_ok H I s (k s)) \<Longrightarrow> res_ok H I s (broadcast_transitions H src ts k s)"
  by (induction ts arbitrary: s) (auto intro!: built builds.intros)

lemma transitions [segments]:
  assumes "\<And>s. res_ok H I s (k s)"
  shows "res_ok H I s (emitAgentStatusTransitions H src k s)"
proof -
  obtain ts re where e: "evaluateTransitions (pn_toISO H) (ps_now s) (ps_statusReducer s) = (ts, re)" by (metis surj_pair)
  have "I s \<Longrightarrow> I (s\<lparr>ps_statusReducer := re\<rparr>)"
    using reduced [of s "reducer_op.Evaluate (ps_now s)"] by (simp add: reducer_step_def e)
  then show ?thesis
    unfolding emitAgentStatusTransitions_def e prod.case
    by (intro res_ok_after [OF transitions_list]) (auto intro: assms)
qed

lemma idle_list: "(\<And>s. res_ok H I s (k s)) \<Longrightarrow> res_ok H I s (broadcast_idle H src ts k s)"
proof (induction ts arbitrary: s)
  case (Cons t ts)
  let ?agent = "nullish (su_parentAgentId t) (su_childAgentId t)"
  show ?case
    unfolding broadcast_idle.simps Let_def
    by (rule built) (auto intro!: builds.intros built Cons split: if_splits)
qed simp

lemma idle [segments]:
  assumes "\<And>s. res_ok H I s (k s)"
  shows "res_ok H I s (emitSubagentIdleTransitions H src k s)"
proof -
  let ?w = "st_subagentIdleWindowMs (pc_status (pn_config H))"
  obtain ts su where e: "evaluateIdleTransitions ?w (ps_now s) (ps_subagentTracker s) = (ts, su)" by (metis surj_pair)
  have "I s \<Longrightarrow> I (s\<lparr>ps_subagentTracker := su\<rparr>)"
    using subagents [of s "EvaluateIdle ?w (ps_now s)"] by (simp add: subagent_step_def e)
  then show ?thesis
    unfolding emitSubagentIdleTransitions_def e prod.case
    by (intro res_ok_after [OF idle_list]) (auto intro: assms)
qed

lemma observed:
  assumes "I s"
  shows "I (activity_observed p s)"
proof -
  let ?a = "the (ea_agentId p)" and ?ref = "resolveSessionRefForStatus (ea_sessionId p) (ea_sessionKey p)"
  note r = reduced [unfolded reducer_step_def]
  from r [OF r [OF r [OF assms, of "ObserveActivity ?a ?ref (ps_now s)"], of "MarkError ?a False"], of "MarkOffline ?a False"]
  have "I (s\<lparr>ps_statusReducer := markAgentOffline ?a False (markAgentError ?a False
      (observeActivity ?a ?ref (ps_now s) (ps_statusReducer s)))\<rparr>)" by simp
  from subagents [OF this, of "ObserveSubagent (ea_sessionKey p) (ps_now s)"]
  show ?thesis by (simp add: activity_observed_def Let_def subagent_step_def)
qed

lemma activity [segments]:
  assumes "\<And>s. res_ok H I s (k s)"
  shows "res_ok H I s (emitAgentActivity H p k s)"
proof (cases "truthy_str (ea_agentId p)")
  case True
  have "res_ok H I (activity_observed p s) (building H (activity_event p)
      (\<lambda>ev. broadcasting ev (emitAgentStatusTransitions H (Some (ea_sourceEventType p))
        (emitSubagentIdleTransitions H (Some (ea_sourceEventType p)) k))) (activity_observed p s))"
    by (intro segments assms) (simp add: activity_event_def builds.intros)
  from res_ok_after [OF this] have "res_ok H I s (building H (activity_event p)
      (\<lambda>ev. broadcasting ev (emitAgentStatusTransitions H (Some (ea_sourceEventType p))
        (emitSubagentIdleTransitions H (Some (ea_sourceEventType p)) k))) (activity_observed p s))"
    by (simp add: observed)
  then show ?thesis using True by (simp add: emitAgentActivity_def)
qed (simp add: emitAgentActivity_def assms)

text \<open>The silent changes of the handlers.\<close>

lemma silent:
  shows "I s \<Longrightarrow> I (observe_hook L r d s)"
    and "I s \<Longrightarrow> I (touch_hook L s)"
    and "I s \<Longrightarrow> I (snd (observe_and_describe H TL refs s))"
    and "I s \<Longrightarrow> I (register_child L c s)"
    and "I s \<Longrightarrow> I (end_child H c s)"
    and "I s \<Longrightarrow> I (snd (end_session H i x s))"
    and "I s \<Longrightarrow> I (mark_classified a m s)"
    and "I s \<Longrightarrow> I (maybeInitializeQueue H s)"
    and "I s \<Longrightarrow> I (s\<lparr>ps_statusReducer := removeSession a ref (ps_statusReducer s)\<rparr>)"
    and "I s \<Longrightarrow> I (s\<lparr>ps_statusReducer := markAllOffline (ps_statusReducer s)\<rparr>)"
proof -
  note t = sessions [unfolded tracker_step_def]
  note r = reduced [unfolded reducer_step_def]
  note u = subagents [unfolded subagent_step_def]
  have touch: "I s \<Longrightarrow> I (s\<lparr>ps_sessionTracker := touchSession p now (ps_sessionTracker s)\<rparr>)" for s p now
    using t [of s "Observe p now"] by (simp add: touchSession_def)
  have e: "I s \<Longrightarrow> I (s\<lparr>ps_sessionTracker := snd (endSession (pn_le H) x now (ps_sessionTracker s))\<rparr>)" for s x now
    using t [of s "EndSession x now"] by simp
  have remove: "I s \<Longrightarrow> I (s\<lparr>ps_statusReducer := removeSession a ref (ps_statusReducer s)\<rparr>)" for s a ref
    using r [of s "RemoveSession a ref"] by simp
  have ended: "I s \<Longrightarrow> I (s\<lparr>ps_subagentTracker := markEnded c now (ps_subagentTracker s)\<rparr>)" for s c now
    using u [of s "MarkEnded c now"] by simp
  show "I s \<Longrightarrow> I (observe_hook L r d s)"
    unfolding observe_hook_def observeSessionProvenance_def by (rule touch)
  show "I s \<Longrightarrow> I (touch_hook L s)" unfolding touch_hook_def by (rule touch)
  show "I s \<Longrightarrow> I (snd (observe_and_describe H TL refs s))"
  proof -
    assume "I s"
    let ?t = "observeSessionProvenance (th_refs TL) (th_raw TL) (th_ctx TL) (parent_params TL) (ps_now s) (ps_sessionTracker s)"
    from \<open>I s\<close> have "I (s\<lparr>ps_sessionTracker := ?t\<rparr>)" unfolding observeSessionProvenance_def by (rule touch)
    from t [OF this, of "GetProvenance p (ps_now s)" for p] show ?thesis
      by (simp add: observe_and_describe_def buildToolEventProvenance_def Let_def)
  qed
  show "I s \<Longrightarrow> I (register_child L c s)"
  proof -
    assume "I s"
    from u [OF this, of "RegisterSpawn (spawn_of_hook L (the c)) (ps_now s)"]
    have "I (s\<lparr>ps_subagentTracker := snd (registerSpawn (spawn_of_hook L (the c)) (ps_now s) (ps_subagentTracker s))\<rparr>)"
      by simp
    from touch [OF this] \<open>I s\<close> show ?thesis by (simp add: register_child_def)
  qed
  show "I s \<Longrightarrow> I (end_child H c s)"
  proof -
    assume "I s"
    note d = ended [OF this, of c "ps_now s"]
    from e [OF remove [OF d], of "the c" "ps_now s"] e [OF d, of "the c" "ps_now s"] \<open>I s\<close> show ?thesis
      by (simp add: end_child_def Let_def)
  qed
  show "I s \<Longrightarrow> I (snd (end_session H i x s))"
  proof -
    assume "I s"
    note first = e [OF this, of i "ps_now s"]
    from e [OF first] first show ?thesis
      by (auto simp: end_session_def split: prod.splits option.splits) (metis snd_conv)+
  qed
  show "I s \<Longrightarrow> I (mark_classified a m s)"
    using r [of s "MarkOffline a True"] r [of s "MarkError a True"] by (simp add: mark_classified_def)
  show "I s \<Longrightarrow> I (maybeInitializeQueue H s)" by (simp add: maybeInitializeQueue_def queue)
  show "I s \<Longrightarrow> I (s\<lparr>ps_statusReducer := removeSession a ref (ps_statusReducer s)\<rparr>)" by (rule remove)
  show "I s \<Longrightarrow> I (s\<lparr>ps_statusReducer := markAllOffline (ps_statusReducer s)\<rparr>)"
    using r [of s MarkAllOffline] by simp
qed

lemma after_silent:
  "res_ok H I (f s) res \<Longrightarrow> (I s \<Longrightarrow> I (f s)) \<Longrightarrow> ps_uuids (f s) = ps_uuids s \<Longrightarrow> res_ok H I s res"
  by (rule res_ok_after) auto

end

section \<open>Every hook keeps an invariant\<close>

context plugin_invariant
begin

lemma evaluating_ok: "(\<And>d s. res_ok H I s (k d s)) \<Longrightarrow> res_ok H I s (evaluating H c k s)"
  by (auto simp: evaluating_def res_ok_def [of H I s] segment_ok_def intro!: outcome_ok_await)

lemma guard_event_ok [segments]:
  assumes "ty \<in> {''tool.guard.matched'', ''tool.guard.allowed'', ''tool.guard.blocked''}" "\<And>s. res_ok H I s (k s)"
  shows "res_ok H I s (guard_event H ty L params p d reason k s)"
  unfolding guard_event_def by (rule built) (rule builds.intros(3) [OF assms(1)], rule assms(2))

lemma decide_ok: "res_ok H I s (decide H L d p s)"
  unfolding decide_def Let_def by (auto intro!: segments split: option.splits)

lemma announce_ok: "res_ok H I s (announce H L d p s)"
  unfolding announce_def by (auto intro!: segments decide_ok split: option.splits)

lemma register_call_ok: "res_ok H I s (register_call H L d p c s)"
proof (cases "startCall (pn_uuid H (ps_uuids s)) (default_to [] (th_toolName L)) (th_params L) (context_of_call L) (ps_now s)
    (ps_toolTracker s)")
  case None
  then show ?thesis by (simp add: register_call_def res_ok_throws)
next
  case (Some r)
  obtain callId calls where r: "r = (callId, calls)" by (cases r)
  let ?t = "pending_call L callId (s\<lparr>ps_toolTracker := calls,
     ps_uuids := (if th_toolCallId L = None then Suc (ps_uuids s) else ps_uuids s)\<rparr>)"
  have "I s \<Longrightarrow> I ?t" by (rule called [OF _ Some [unfolded r]])
  moreover have "ps_uuids s \<le> ps_uuids ?t" by simp
  ultimately show ?thesis
    unfolding register_call_def Some r option.case prod.case
    by (intro res_ok_after [OF activity]) (auto intro: announce_ok)
qed

lemma tool_hooks_ok [segments]:
  "res_ok H I s (before_tool_call H e c i s)"
  "res_ok H I s (after_tool_call H e c i s)"
  "res_ok H I s (tool_result_persist H e c i s)"
proof -
  have g: "res_ok H I s (guarded_call H L d s)" for L d s
    unfolding guarded_call_def split_def
    by (intro res_ok_after [OF built]) (auto intro: builds.intros register_call_ok silent)
  show "res_ok H I s (before_tool_call H e c i s)"
    unfolding before_tool_call_def Let_def
    by (rule res_ok_after [OF evaluating_ok]) (auto intro: g uuids)
  show "res_ok H I s (after_tool_call H e c i s)"
    unfolding after_tool_call_def Let_def split_def
    by (intro res_ok_after [OF built])
      (auto intro!: segments silent taken simp: after_event_def Let_def builds.intros)
  show "res_ok H I s (tool_result_persist H e c i s)"
    unfolding tool_result_persist_def Let_def split_def
    by (intro res_ok_after [OF built]) (auto intro!: segments silent builds.intros)
qed

lemma session_hooks_ok [segments]:
  "res_ok H I s (session_start H e c s)"
  "res_ok H I s (session_end H e c s)"
proof -
  show "res_ok H I s (session_start H e c s)"
    unfolding session_start_def Let_def
    by (cases "truthy_str (hl_sessionId (session_locals e c s))")
      (auto intro!: segments builds.intros silent intro: res_ok_after [OF built])
  show "res_ok H I s (session_end H e c s)"
    unfolding session_end_def Let_def split_def
    by (auto intro!: segments builds.intros silent intro: res_ok_after [OF built])
qed

lemma subagent_hooks_ok [segments]:
  "res_ok H I s (subagent_spawning H e c s)"
  "res_ok H I s (subagent_spawned H e c s)"
  "res_ok H I s (subagent_ended H e c s)"
  unfolding subagent_spawning_def subagent_spawned_def subagent_ended_def Let_def
  by (auto intro!: built builds.intros segments silent intro: after_silent [OF activity])

lemma compaction_hooks_ok [segments]:
  "res_ok H I s (before_compaction H e c s)"
  "res_ok H I s (after_compaction H e c s)"
  unfolding before_compaction_def after_compaction_def Let_def
  by (auto intro!: builds.intros segments silent intro: after_silent [OF built])

lemma observed_built:
  assumes "\<And>E. builds E (mk E)" "\<And>ev s. res_ok H I s (k ev s)"
  shows "res_ok H I s (building H mk (\<lambda>ev. broadcasting ev (k ev)) (observe_hook L r d s))"
    and "res_ok H I s (building H mk (\<lambda>ev. broadcasting ev (k ev)) (observe_hook L r d s\<lparr>ps_agentRunTracker := rs\<rparr>))"
  by (rule res_ok_after [OF built [OF assms]]; simp add: silent runs)+

lemma returns_cleared: "res_ok H I s (returns_with x (s\<lparr>ps_agentRunTracker := rs\<rparr>))"
  by (rule res_ok_after [OF res_ok_returns]) (simp_all add: runs)

lemma run_hooks_ok [segments]:
  "res_ok H I s (before_model_resolve H e c s)"
  "res_ok H I s (before_prompt_build H e c s)"
  "res_ok H I s (llm_input H e c s)"
  "res_ok H I s (llm_output H e c s)"
  "res_ok H I s (agent_end H e c s)"
  unfolding before_model_resolve_def before_prompt_build_def llm_input_def llm_output_def agent_end_def Let_def
  by (auto intro!: observed_built builds.intros res_ok_returns returns_cleared)

lemma gateway_hooks_ok [segments]:
  "res_ok H I s (gateway_start H e s)"
  "res_ok H I s (gateway_stop H e s)"
  "res_ok H I s (handleGatewayStartup H e s)"
  unfolding gateway_start_def gateway_stop_def handleGatewayStartup_def Let_def
  by (auto intro!: builds.intros built silent segments intro: after_silent [OF transitions] after_silent [OF res_ok_returns])

lemma classified_transitions:
  "(\<And>s. res_ok H I s (k s)) \<Longrightarrow> res_ok H I s (emitAgentStatusTransitions H src k (mark_classified a m s))"
  by (rule res_ok_after [OF transitions]) (simp_all add: silent)

lemma agent_handlers_ok [segments]:
  "res_ok H I s (handleCommand H a e s)"
  "res_ok H I s (handleAgentBootstrap H e s)"
  "res_ok H I s (handleAgentError H e s)"
  "res_ok H I s (handleAgentSessionEvent H b e s)"
proof -
  have t: "command_type a \<in> {''command.new'', ''command.reset'', ''command.stop''}" by (cases a) simp_all
  have r: "is_nullish d \<or> isRecord d" if "d = handler_context raw" for d raw using that by (simp add: handler_context_def)
  note [simp] = if_agent_def
  show "res_ok H I s (handleCommand H a e s)"
    unfolding handleCommand_def Let_def
    by (auto intro!: builds.intros(22) [OF t] segments silent intro: after_silent [OF built])
  show "res_ok H I s (handleAgentBootstrap H e s)"
    unfolding handleAgentBootstrap_def Let_def
    by (auto intro!: builds.intros(8) r segments silent intro: after_silent [OF built])
  show "res_ok H I s (handleAgentError H e s)"
    unfolding handleAgentError_def Let_def
    by (cases "truthy_str (hl_agentId (hook_locals_of (raw_object e) JUndef s))")
      (auto intro!: builds.intros(9) r observed_built classified_transitions res_ok_returns)
  show "res_ok H I s (handleAgentSessionEvent H b e s)"
    unfolding handleAgentSessionEvent_def Let_def
    by (auto intro!: builds.intros(10) r segments silent intro: after_silent [OF built])
qed

lemma message_ok:
  assumes "\<And>E e n r. parse E e n = Some r \<Longrightarrow> \<exists>b. builds E b \<and> r = b n"
  shows "res_ok H I s (handle_message H parse dir src act det e s)"
proof (cases "parse (env_at H s) e (ps_uuids s)")
  case None
  then show ?thesis by (simp add: handle_message_def res_ok_returns)
next
  case (Some r)
  obtain ev n where r: "r = (ev, n)" by (cases r)
  obtain b where b: "builds (env_at H s) b" "(ev, n) = b (ps_uuids s)" using assms [OF Some] r by auto
  show ?thesis
    unfolding handle_message_def Some r option.case prod.case Let_def
    by (rule res_ok_broadcast [OF b(1)]) (auto intro!: silent uuids b(2) intro: after_silent [OF activity] segments)
qed

lemma message_handlers_ok [segments]:
  "res_ok H I s (handleMessageReceived H e s)"
  "res_ok H I s (handleMessageTranscribed H e s)"
  "res_ok H I s (handleMessagePreprocessed H e s)"
  "res_ok H I s (handleMessageSent H e s)"
proof -
  have p: "\<exists>b. builds E b \<and> r = b n"
    if "from_message_hook keys f h n = Some r" "\<And>c. builds E (f c)" for E keys f h n r
    using that by (auto simp: from_message_hook_def split: option.splits if_splits)
  show "res_ok H I s (handleMessageReceived H e s)"
    unfolding handleMessageReceived_def
    by (rule message_ok) (auto simp: fromOpenClawMessageReceived_def intro!: p builds.intros)
  show "res_ok H I s (handleMessageTranscribed H e s)"
    unfolding handleMessageTranscribed_def
    by (rule message_ok) (auto simp: fromOpenClawMessageTranscribed_def intro!: p builds.intros)
  show "res_ok H I s (handleMessagePreprocessed H e s)"
    unfolding handleMessagePreprocessed_def
    by (rule message_ok) (auto simp: fromOpenClawMessagePreprocessed_def intro!: p builds.intros)
  show "res_ok H I s (handleMessageSent H e s)"
    unfolding handleMessageSent_def
    by (rule message_ok) (auto simp: fromOpenClawMessageSent_def intro!: p builds.intros)
qed

lemma hooks_ok: "res_ok H I s (run_hook H c s)"
  by (cases c) (simp_all add: segments)

end

section \<open>Every moment of the machine\<close>

definition ids_drawn :: "plugin_env \<Rightarrow> event list \<Rightarrow> nat list \<Rightarrow> nat \<Rightarrow> bool" where
  "ids_drawn H evs ns n \<longleftrightarrow>
     list_all2 (\<lambda>ev i. oget ev ''eventId'' = JStr (pn_uuid H i)) evs ns \<and> sorted_wrt (<) ns \<and> (\<forall>i \<in> set ns. i < n)"

definition machine_inv :: "plugin_env \<Rightarrow> (plugin_state \<Rightarrow> bool) \<Rightarrow> plugin_machine \<Rightarrow> bool" where
  "machine_inv H I m \<longleftrightarrow>
     I (pm_state m) \<and> (\<forall>(q, k) \<in> set (pm_waiting m). outcome_ok H I (Await q k)) \<and>
     (\<forall>ev \<in> set (pm_events m). wellformed ev) \<and> (\<exists>ns. ids_drawn H (pm_events m) ns (ps_uuids (pm_state m)))"

lemma ids_drawn_mono: "ids_drawn H evs ns n \<Longrightarrow> n \<le> n' \<Longrightarrow> ids_drawn H evs ns n'"
  by (auto simp: ids_drawn_def)

lemma ids_drawn_snoc:
  "ids_drawn H evs ns n \<Longrightarrow> n \<le> i \<Longrightarrow> i < n' \<Longrightarrow> oget ev ''eventId'' = JStr (pn_uuid H i) \<Longrightarrow>
     ids_drawn H (evs @ [ev]) (ns @ [i]) n'"
  by (auto simp: ids_drawn_def sorted_wrt_append intro: list_all2_appendI)

lemma ids_distinct:
  "ids_drawn H evs ns n \<Longrightarrow> inj (pn_uuid H) \<Longrightarrow> distinct (map (\<lambda>ev. oget ev ''eventId'') evs)"
proof -
  assume d: "ids_drawn H evs ns n" and i: "inj (pn_uuid H)"
  have "map (\<lambda>ev. oget ev ''eventId'') evs = map (\<lambda>i. JStr (pn_uuid H i)) ns"
    using d by (auto simp: ids_drawn_def list_all2_conv_all_nth intro: nth_equalityI)
  moreover have "distinct ns" using d by (auto simp: ids_drawn_def strict_sorted_iff)
  ultimately show ?thesis using i by (simp add: distinct_map inj_on_def)
qed

lemma in_drop_nth: "x \<in> set (drop_nth i xs) \<Longrightarrow> x \<in> set xs"
  by (auto simp: drop_nth_def dest: in_set_takeD in_set_dropD)

lemma absorb_inv:
  assumes "res_ok H I (pm_state m) res" "machine_inv H I m"
  shows "machine_inv H I (absorb res m)"
proof -
  obtain ns where ns: "ids_drawn H (pm_events m) ns (ps_uuids (pm_state m))" using assms(2) by (auto simp: machine_inv_def)
  have seg: "I (fst res)" "ps_uuids (pm_state m) \<le> ps_uuids (fst res)" "outcome_ok H I (snd res)"
    using assms by (auto simp: res_ok_def segment_ok_def machine_inv_def)
  note still = ids_drawn_mono [OF ns seg(2)]
  show ?thesis
  proof (cases "snd res")
    case (Await q k)
    show ?thesis
    proof (cases q)
      case (BroadcastEvent ev)
      then obtain i where "wellformed ev" "ps_uuids (pm_state m) \<le> i" "i < ps_uuids (fst res)"
          "oget ev ''eventId'' = JStr (pn_uuid H i)"
        using assms(1) Await by (auto simp: res_ok_def segment_ok_def)
      with ids_drawn_snoc [OF ns] seg Await BroadcastEvent assms(2) show ?thesis
        by (auto simp: machine_inv_def absorb_def)
    qed (use Await seg still assms(2) in \<open>auto simp: machine_inv_def absorb_def\<close>)
  qed (use seg still assms(2) in \<open>auto simp: machine_inv_def absorb_def\<close>)
qed

context plugin_invariant
begin

lemma plugin_step_inv:
  assumes "machine_inv H I m"
  shows "machine_inv H I (plugin_step H op m)"
proof (cases op)
  case (Hook c)
  then show ?thesis using absorb_inv [OF hooks_ok assms] by (simp add: plugin_step_def)
next
  case (Settle i d)
  show ?thesis
  proof (cases "i < length (pm_waiting m)")
    case True
    let ?m = "m\<lparr>pm_waiting := drop_nth i (pm_waiting m)\<rparr>"
    obtain q k where qk: "pm_waiting m ! i = (q, k)" by (cases "pm_waiting m ! i")
    with True have "(q, k) \<in> set (pm_waiting m)" by (metis nth_mem)
    then have "outcome_ok H I (Await q k)" using assms by (auto simp: machine_inv_def)
    then have "res_ok H I (pm_state ?m) (k (d, pm_state m))" by cases (simp add: res_ok_def)
    moreover have "machine_inv H I ?m" using assms by (auto simp: machine_inv_def dest: in_drop_nth)
    ultimately show ?thesis using absorb_inv True Settle qk by (simp add: plugin_step_def)
  qed (use assms Settle in \<open>simp add: plugin_step_def\<close>)
next
  case (Reject i)
  then show ?thesis using assms by (auto simp: machine_inv_def plugin_step_def dest: in_drop_nth)
next
  case (Pass t)
  then show ?thesis using assms clock by (auto simp: machine_inv_def plugin_step_def)
qed

end

sublocale plugin_invariant < interleaved: machine "plugin_step H" "machine_inv H I"
  by unfold_locales (rule plugin_step_inv)

section \<open>The invariants of the trackers\<close>

interpretation session_runtime: plugin_invariant H "\<lambda>s. tracker_inv (ps_sessionTracker s)" for H
  by unfold_locales (simp_all add: tracker_step_inv pending_call_def take_pending_def Let_def)

interpretation subagent_runtime: plugin_invariant H "\<lambda>s. keys_ok (ps_subagentTracker s)" for H
proof unfold_locales
  fix s sop assume "keys_ok (ps_subagentTracker s)"
  then show "keys_ok (ps_subagentTracker (s\<lparr>ps_subagentTracker := fst (subagent_step sop (ps_subagentTracker s, []))\<rparr>))"
    using subagent_machine.inv_step [of "(ps_subagentTracker s, [])" sop] by simp
qed (simp_all add: pending_call_def take_pending_def Let_def)

definition calls_named :: "plugin_state \<Rightarrow> bool" where
  "calls_named s \<longleftrightarrow> (\<forall>tid p. mget (ps_pendingToolCalls s) tid = Some p \<longrightarrow> pd_callId p = tid)"

interpretation call_runtime: plugin_invariant H calls_named for H
proof unfold_locales
  fix s fresh name params L now callId calls n
  assume "calls_named s" "startCall fresh name params (context_of_call L) now (ps_toolTracker s) = Some (callId, calls)"
  then show "calls_named (pending_call L callId (s\<lparr>ps_toolTracker := calls, ps_uuids := n\<rparr>))"
    by (cases "th_toolCallId L")
      (auto simp: calls_named_def pending_call_def context_of_call_def Let_def dest!: startCall_Some)
qed (auto simp: calls_named_def take_pending_def Let_def)

lemma new_plugin_inv:
  "I (pm_state (new_plugin H follower now)) \<Longrightarrow> machine_inv H I (new_plugin H follower now)"
proof -
  assume "I (pm_state (new_plugin H follower now))"
  moreover have "ids_drawn H [] [] n" for n by (simp add: ids_drawn_def)
  ultimately show ?thesis by (auto simp: machine_inv_def new_plugin_def)
qed

text \<open>
  C20. On every run of the plugin, whatever hooks are called, however their awaits interleave
  and whichever broadcasts are rejected, every event handed to the transport is a valid
  event of a declared type, and no two have the same event id.
\<close>

theorem broadcast_events_unique:
  assumes "inj (pn_uuid H)" "m = fold (plugin_step H) ops (new_plugin H follower now)"
  shows "(\<forall>ev \<in> set (pm_events m). isOpenClawEvent (JObj ev) \<and> (\<exists>ty. oget ev ''type'' = JStr ty \<and> isEventType ty)) \<and>
    distinct (map (\<lambda>ev. oget ev ''eventId'') (pm_events m))"
proof -
  have "machine_inv H calls_named m" unfolding assms(2)
    by (rule call_runtime.interleaved.inv_run [OF new_plugin_inv]) (simp add: new_plugin_def calls_named_def)
  then show ?thesis using ids_distinct assms(1) by (auto simp: machine_inv_def wellformed_def)
qed

text \<open>
  C21. On every run of the plugin, with all hooks interleaved, the trackers keep their
  invariants: a strong identifier belongs to at most one session record, a subagent is filed
  under its own child session key, and a pending call under its own call id.
\<close>

theorem interleaved_trackers_sound:
  assumes "m = fold (plugin_step H) ops (new_plugin H follower now)"
  shows "(\<forall>x. strong_ident x \<longrightarrow> card (owners (ps_sessionTracker (pm_state m)) x) \<le> 1) \<and>
    (\<forall>k r. mget (ps_subagentTracker (pm_state m)) k = Some r \<longrightarrow> su_childSessionKey r = k) \<and>
    (\<forall>tid p. mget (ps_pendingToolCalls (pm_state m)) tid = Some p \<longrightarrow> pd_callId p = tid)"
proof -
  have "machine_inv H (\<lambda>s. tracker_inv (ps_sessionTracker s)) m" unfolding assms
    by (rule session_runtime.interleaved.inv_run [OF new_plugin_inv])
      (simp add: new_plugin_def new_tracker_def empty_tracker_inv)
  then have t: "tracker_inv (ps_sessionTracker (pm_state m))" by (simp add: machine_inv_def)
  have "card (owners (ps_sessionTracker (pm_state m)) x) \<le> 1" if "strong_ident x" for x
    by (rule strong_owner [OF t that])
  moreover have "machine_inv H (\<lambda>s. keys_ok (ps_subagentTracker s)) m" unfolding assms
    by (rule subagent_runtime.interleaved.inv_run [OF new_plugin_inv]) (simp add: new_plugin_def keys_ok_def)
  then have "keys_ok (ps_subagentTracker (pm_state m))" by (simp add: machine_inv_def)
  moreover have "machine_inv H calls_named m" unfolding assms
    by (rule call_runtime.interleaved.inv_run [OF new_plugin_inv]) (simp add: new_plugin_def calls_named_def)
  then have "calls_named (pm_state m)" by (simp add: machine_inv_def)
  ultimately show ?thesis by (simp add: keys_ok_def calls_named_def)
qed

section \<open>Two places where the handlers undo each other\<close>

lemma activity_observed_session:
  assumes "ea_agentId p = Some a" "resolveSessionRefForStatus (ea_sessionId p) (ea_sessionKey p) = Some x" "x \<noteq> []"
  shows "\<exists>ag. mget (re_agents (ps_statusReducer (activity_observed p s))) a = Some ag \<and>
    mget (as_sessions ag) x = Some \<lparr> ac_sessionRef = x, ac_lastActiveAt = ps_now s \<rparr>"
  using assms
  by (simp add: activity_observed_def observeActivity_def update_agent_def markAgentError_def markAgentOffline_def Let_def)

lemma activity_segment:
  assumes "truthy_str (ea_agentId p)"
  shows "ps_statusReducer (fst (emitAgentActivity H p k s)) = ps_statusReducer (activity_observed p s)"
    and "ps_subagentTracker (fst (emitAgentActivity H p k s)) = ps_subagentTracker (activity_observed p s)"
  using assms by (simp_all add: emitAgentActivity_def building_def broadcasting_def split_def)

lemma session_end_event:
  "ostr (fst (createSessionEndEvent E w mc d md n)) ''agentId'' = who_agentId w"
  "ostr (fst (createSessionEndEvent E w mc d md n)) ''sessionId'' = who_sessionId w"
  "ostr (fst (createSessionEndEvent E w mc d md n)) ''sessionKey'' = who_sessionKey w"
  by (simp_all add: createSessionEndEvent_def session_input_def for_whom_def createCanonicalEvent_def canonical_input_def
      ostr_def Let_def)

text \<open>
  The session_end hook takes the session out of the status reducer, and puts it back in
  when its broadcast settles: after the handler the ended session counts as active at that
  moment, so that the agent is reported as working, not as without sessions.
\<close>

theorem ended_session_still_active:
  assumes "session_end H e c s = (s1, Await (BroadcastEvent ev) k)"
    and "ostr ev ''agentId'' = Some a" "a \<noteq> []"
    and "resolveSessionRefForStatus (ostr ev ''sessionId'') (ostr ev ''sessionKey'') = Some x" "x \<noteq> []"
  shows "(\<forall>ag. mget (re_agents (ps_statusReducer s1)) a = Some ag \<longrightarrow> mget (as_sessions ag) x = None) \<and>
    (\<exists>ag. mget (re_agents (ps_statusReducer (fst (k (d, s2))))) a = Some ag \<and>
       mget (as_sessions ag) x = Some \<lparr> ac_sessionRef = x, ac_lastActiveAt = ps_now s2 \<rparr>)"
proof -
  let ?L = "session_locals e c s"
  obtain ended t where es: "end_session H (the (hl_sessionId ?L)) (hl_sessionKey ?L) s = (ended, t)" by (metis surj_pair)
  define L where "L = ?L\<lparr>hl_agentId := nullish (Option.bind ended sn_agentId)
     (resolveAgentId (hl_raw ?L) (hl_ctx ?L) (hl_sessionId ?L) (hl_sessionKey ?L) (ps_sessionTracker t))\<rparr>"
  define t2 where "t2 = (if truthy_str (hl_agentId L)
     then t\<lparr>ps_statusReducer := removeSession (the (hl_agentId L))
        (resolveSessionRefForStatus (hl_sessionId L) (hl_sessionKey L)) (ps_statusReducer t)\<rparr> else t)"
  define mk where "mk = (\<lambda>E. createSessionEndEvent E (who_of L) (readNumber (jprop (hl_raw L) ''messageCount''))
     (nullish (readNumber (jprop (hl_raw L) ''durationMs'')) (map_option sn_durationMs ended)) [])"
  have "building H mk (\<lambda>ev. broadcasting ev (if truthy_str (hl_agentId L)
      then emitAgentActivity H (activity_of L ev ''session.end'' ''Session Ended'' ''Agent session lifecycle ended'') (returns_with None)
      else emitAgentStatusTransitions H (Some ''session.end'') (returns_with None))) t2 = (s1, Await (BroadcastEvent ev) k)"
    using assms(1) unfolding session_end_def Let_def es prod.case mk_def t2_def L_def
    by (simp add: returns_with_def split: if_splits)
  then have ev: "ev = fst (mk (env_at H t2) (ps_uuids t2))" and s1: "ps_statusReducer s1 = ps_statusReducer t2"
    and k: "k = (\<lambda>(d, s'). (if truthy_str (hl_agentId L)
      then emitAgentActivity H (activity_of L ev ''session.end'' ''Session Ended'' ''Agent session lifecycle ended'') (returns_with None)
      else emitAgentStatusTransitions H (Some ''session.end'') (returns_with None)) s')"
    by (auto simp: building_def broadcasting_def split_def)
  have L: "hl_agentId L = ostr ev ''agentId''" "hl_sessionId L = ostr ev ''sessionId''" "hl_sessionKey L = ostr ev ''sessionKey''"
    by (simp_all add: ev mk_def session_end_event who_of_def)
  have "truthy_str (hl_agentId L)" using L assms(2,3) by simp
  note a = this activity_segment(1)
  have "mget (as_sessions ag) x = None" if "mget (re_agents (ps_statusReducer s1)) a = Some ag" for ag
    using that s1 L assms(2-5) by (auto simp: t2_def removeSession_def update_agent_def split: if_splits)
  moreover have "\<exists>ag. mget (re_agents (ps_statusReducer (fst (k (d, s2))))) a = Some ag \<and>
       mget (as_sessions ag) x = Some \<lparr> ac_sessionRef = x, ac_lastActiveAt = ps_now s2 \<rparr>"
    using activity_observed_session [of "activity_of L ev ''session.end'' ''Session Ended'' ''Agent session lifecycle ended''" a x s2]
      L assms(2-5) by (simp add: k a activity_of_def)
  ultimately show ?thesis by blast
qed

text \<open>
  A subagent that ends while the subagent_spawned handler waits for its second broadcast
  is registered afterwards as running: it has no end, and it will be reported idle.
\<close>

theorem late_spawn_revives_subagent:
  assumes "subagent_spawned H e c s = (s1, Await (BroadcastEvent ev1) k1)"
    and "k1 (d1, s2) = (s3, Await (BroadcastEvent ev2) k2)"
    and "read_field (raw_object e) ''childSessionKey'' = Some child" "child \<noteq> []"
  shows "\<exists>r. mget (ps_subagentTracker (fst (k2 (d2, end_child H (Some child) s4)))) child = Some r \<and> su_endedAt r = None"
proof -
  obtain L p where k2: "k2 = (\<lambda>(d, s'). emitAgentActivity H p (returns_with None) (register_child L (Some child) s'))"
    using assms(1,2)
    by (auto simp: subagent_spawned_def Let_def building_def broadcasting_def split_def subagent_locals_def hook_locals_of_def
        assms(3))
  let ?s = "register_child L (Some child) (end_child H (Some child) s4)"
  have r: "\<exists>r. mget (ps_subagentTracker ?s) child = Some r \<and> su_endedAt r = None"
    using assms(4) by (simp add: register_child_def registerSpawn_def spawn_of_hook_def spawn_record_def Let_def)
  then have "\<exists>r. mget (observeSubagent key now (ps_subagentTracker ?s)) child = Some r \<and> su_endedAt r = None" for key now
    by (auto simp: observeSubagent_def split: option.splits)
  with r show ?thesis
    unfolding k2 prod.case
    by (cases "truthy_str (ea_agentId p)")
      (simp_all add: activity_segment activity_observed_def Let_def, simp add: emitAgentActivity_def returns_with_def)
qed



section \<open>Concrete runs\<close>

definition session_hook :: jsval where
  "session_hook = JObj [(''sessionId'', JStr ''s1''), (''agentId'', JStr ''a''), (''childSessionKey'', JStr ''kid'')]"

lemma session_end_sample:
  "\<exists>s1 ev k. session_end sample_env session_hook JUndef idle_plugin = (s1, Await (BroadcastEvent ev) k) \<and>
     ostr ev ''agentId'' = Some ''a'' \<and> resolveSessionRefForStatus (ostr ev ''sessionId'') (ostr ev ''sessionKey'') = Some ''s1''"
proof -
  have "case session_end sample_env session_hook JUndef idle_plugin of (s1, out) \<Rightarrow>
      (case out of Await q k \<Rightarrow> (case q of BroadcastEvent ev \<Rightarrow> ostr ev ''agentId'' = Some ''a'' \<and>
         resolveSessionRefForStatus (ostr ev ''sessionId'') (ostr ev ''sessionKey'') = Some ''s1'' | _ \<Rightarrow> False) | _ \<Rightarrow> False)"
    by code_simp
  then show ?thesis by (auto split: prod.splits outcome.splits request.splits)
qed

theorem ended_session_still_active_witness:
  "\<exists>s1 ev k ag. session_end sample_env session_hook JUndef idle_plugin = (s1, Await (BroadcastEvent ev) k) \<and>
     mget (re_agents (ps_statusReducer (fst (k (None, s1))))) ''a'' = Some ag \<and> mget (as_sessions ag) ''s1'' \<noteq> None"
proof -
  obtain s1 ev k where e: "session_end sample_env session_hook JUndef idle_plugin = (s1, Await (BroadcastEvent ev) k)"
    "ostr ev ''agentId'' = Some ''a''"
    "resolveSessionRefForStatus (ostr ev ''sessionId'') (ostr ev ''sessionKey'') = Some ''s1''"
    using session_end_sample by blast
  from ended_session_still_active [OF e(1,2) _ e(3), of None s1] e(1) show ?thesis by fastforce
qed

theorem late_spawn_revives_subagent_witness:
  "\<exists>s1 ev1 k1 s3 ev2 k2 r. subagent_spawned sample_env session_hook JUndef idle_plugin = (s1, Await (BroadcastEvent ev1) k1) \<and>
     k1 (None, s1) = (s3, Await (BroadcastEvent ev2) k2) \<and>
     mget (ps_subagentTracker (fst (k2 (None, end_child sample_env (Some ''kid'') s3)))) ''kid'' = Some r \<and> su_endedAt r = None"
proof -
  have "\<exists>s1 ev1 k1. subagent_spawned sample_env session_hook JUndef idle_plugin = (s1, Await (BroadcastEvent ev1) k1)"
    by (simp add: subagent_spawned_def building_def broadcasting_def split_def Let_def)
  then obtain s1 ev1 k1 where 1: "subagent_spawned sample_env session_hook JUndef idle_plugin = (s1, Await (BroadcastEvent ev1) k1)"
    by blast
  then have "\<exists>s3 ev2 k2. k1 (None, s1) = (s3, Await (BroadcastEvent ev2) k2)"
    by (auto simp: subagent_spawned_def building_def broadcasting_def split_def Let_def)
  then obtain s3 ev2 k2 where 2: "k1 (None, s1) = (s3, Await (BroadcastEvent ev2) k2)" by blast
  have c: "read_field (raw_object session_hook) ''childSessionKey'' = Some ''kid''" by code_simp
  from late_spawn_revives_subagent [OF 1 2 c, of None s3] 1 2 show ?thesis by fastforce
qed

definition sample_ops :: "plugin_op list" where
  "sample_ops = [Hook (GatewayStart (JObj [])), Hook (GatewayStop (JObj [])), Settle 0 None, Pass 5, Reject 0,
     Hook (SessionStart session_hook JUndef)]"

lemma sample_events:
  "pm_events (fold (plugin_step sample_env) (take 5 sample_ops) (new_plugin sample_env False 0)) \<noteq> []"
  by code_simp

lemma sample_ids: "inj (pn_uuid sample_env)"
proof
  fix x y assume "pn_uuid sample_env x = pn_uuid sample_env y"
  then have "show_nat x = show_nat y" by (simp add: sample_env_def)
  then show "x = y" by (metis read_show_nat)
qed

theorem broadcast_events_unique_witness:
  "distinct (map (\<lambda>ev. oget ev ''eventId'')
     (pm_events (fold (plugin_step sample_env) (take 5 sample_ops) (new_plugin sample_env False 0)))) \<and>
   pm_events (fold (plugin_step sample_env) (take 5 sample_ops) (new_plugin sample_env False 0)) \<noteq> []"
  using sample_events broadcast_events_unique [OF sample_ids refl, of "take 5 sample_ops" False 0] by simp

theorem interleaved_trackers_sound_witness:
  "card (owners (ps_sessionTracker (pm_state (fold (plugin_step sample_env) sample_ops (new_plugin sample_env False 0))))
     (SessionId ''s1'')) \<le> 1"
  using interleaved_trackers_sound [OF refl, of sample_env sample_ops False 0] by (simp add: strong_ident_def)

end
