(* ===== verification/PluginLifecycle.thy ===== *)
theory PluginLifecycle imports HookMachine Manager WebSocketHub begin

text \<open>
  The plugin object of \<open>src/index.ts\<close>: activation, deactivation and what the plugin does when the
  transport role changes, composed with the machines of the transport manager and the broadcast
  server.  One operation is a call of the host, a step of one of the managers or servers, or the
  continuation of an asynchronous operation.  A manager calls back while it steps; the calls are the
  effects that the step adds to its trace, and the plugin reacts to them in their order, which is the
  same because a manager does not read the plugin's state.
\<close>

section \<open>State\<close>

text \<open>
  \<open>pe_starts n p\<close> is what the constructor of the server does on port \<open>p\<close> at the \<open>n\<close>-th start.
\<close>

record process_env =
  pe_env :: env
  pe_title :: string
  pe_argv :: "string list"
  pe_host :: host
  pe_platform :: platform
  pe_uuid :: "nat \<Rightarrow> string"
  pe_pid :: int
  pe_hostname :: string
  pe_toISO :: "int \<Rightarrow> string"
  pe_localeCompare :: "string \<Rightarrow> string \<Rightarrow> bool"
  pe_starts :: "nat \<Rightarrow> int \<Rightarrow> opened"

text \<open>
  \<open>ac_merged\<close> is the result of \<open>mergeConfig\<close> read at its type, \<open>ac_acquired\<close> and \<open>ac_heartbeatOk\<close> what
  the lock file answers to the manager.
\<close>

record activation =
  ac_merged :: PluginConfig
  ac_acquired :: TransportLockAcquireResult
  ac_heartbeatOk :: bool

datatype lifecycle_effect =
    Transported event
  | QueueStopped
  | BridgeStopped
  | LoggerStopped nat
  | ActivationFailed "string list"

text \<open>
  \<open>lf_managers\<close>, \<open>lf_hubs\<close> are all managers and servers made so far, \<open>lf_transportManager\<close> and
  \<open>lf_broadcastServer\<close> the ones the plugin and the module refer to.  \<open>lf_deactivating\<close> are the managers
  for whose stop a deactivation waits.
\<close>

record lifecycle =
  lf_state :: plugin_state
  lf_config :: PluginConfig
  lf_runtimeKind :: runtime_kind
  lf_isInitialized :: bool
  lf_websocketEnabled :: bool
  lf_runtimeId :: string
  lf_statusTimer :: "int option"
  lf_hookBridge :: bool
  lf_eventFileLogger :: "nat option"
  lf_loggersMade :: nat
  lf_transportManager :: "nat option"
  lf_managers :: "(settings \<times> manager) list"
  lf_broadcastServer :: "nat option"
  lf_hubs :: "hub list"
  lf_starts :: nat
  lf_deactivating :: "nat option list"
  lf_hooksBound :: nat
  lf_trace :: "lifecycle_effect list"

definition note_effect :: "lifecycle_effect \<Rightarrow> lifecycle \<Rightarrow> lifecycle" where
  "note_effect x lf = lf\<lparr>lf_trace := lf_trace lf @ [x]\<rparr>"

definition createPlugin :: "process_env \<Rightarrow> int \<Rightarrow> lifecycle" where
  "createPlugin W now =
     \<lparr> lf_state = \<lparr> ps_toolTracker = [], ps_pendingToolCalls = [], ps_pendingByContext = [],
         ps_sessionTracker = new_tracker None, ps_agentRunTracker = [], ps_statusReducer = new_reducer None None,
         ps_subagentTracker = [], ps_hasQueue = False, ps_isFollower = True, ps_uuids = 1, ps_now = now \<rparr>,
       lf_config = DEFAULT_CONFIG, lf_runtimeKind = Unknown, lf_isInitialized = False, lf_websocketEnabled = True,
       lf_runtimeId = pe_uuid W 0, lf_statusTimer = None, lf_hookBridge = False, lf_eventFileLogger = None,
       lf_loggersMade = 0, lf_transportManager = None, lf_managers = [], lf_broadcastServer = None, lf_hubs = [],
       lf_starts = 0, lf_deactivating = [], lf_hooksBound = 0, lf_trace = [] \<rparr>"

section \<open>The broadcast server of the module (broadcast/websocketServer.ts)\<close>

definition getBroadcastServer :: "hub_options \<Rightarrow> lifecycle \<Rightarrow> nat \<times> lifecycle" where
  "getBroadcastServer options lf =
     (case lf_broadcastServer lf of
        Some i \<Rightarrow> (i, lf)
      | None \<Rightarrow>
          (length (lf_hubs lf),
           lf\<lparr>lf_hubs := lf_hubs lf @ [new_hub options], lf_broadcastServer := Some (length (lf_hubs lf))\<rparr>))"

definition update_hub :: "nat \<Rightarrow> (hub \<Rightarrow> hub) \<Rightarrow> lifecycle \<Rightarrow> lifecycle" where
  "update_hub i f lf = lf\<lparr>lf_hubs := (lf_hubs lf)[i := f (lf_hubs lf ! i)]\<rparr>"

definition startBroadcastServer :: "process_env \<Rightarrow> hub_options \<Rightarrow> lifecycle \<Rightarrow> lifecycle" where
  "startBroadcastServer W options lf =
     (case getBroadcastServer options lf of
        (i, lf1) \<Rightarrow> (update_hub i (start_hub (pe_starts W (lf_starts lf1))) lf1)\<lparr>lf_starts := Suc (lf_starts lf1)\<rparr>)"

text \<open>
  A hub without a server stops at once; otherwise the module waits for the callback and then forgets
  whatever server it refers to.
\<close>

definition stopBroadcastServer :: "lifecycle \<Rightarrow> lifecycle" where
  "stopBroadcastServer lf =
     (case lf_broadcastServer lf of
        None \<Rightarrow> lf
      | Some i \<Rightarrow>
          (let lf1 = update_hub i stop_hub lf in
           if hb_wss (lf_hubs lf ! i) = None then lf1\<lparr>lf_broadcastServer := None\<rparr> else lf1))"

text \<open>\<open>broadcastEvent\<close> of the module, called by \<open>transportEvent\<close> when the plugin's WebSocket is enabled.\<close>

definition broadcast_to_clients ::
  "string \<Rightarrow> (nat \<Rightarrow> bool) \<Rightarrow> (nat \<Rightarrow> bool) \<Rightarrow> jsval \<Rightarrow> lifecycle \<Rightarrow> lifecycle" where
  "broadcast_to_clients nowIso isOpen sendOk ev lf =
     (case lf_broadcastServer lf of
        Some i \<Rightarrow> if lf_websocketEnabled lf then update_hub i (broadcast nowIso isOpen sendOk ev) lf else lf
      | None \<Rightarrow> lf)"

text \<open>The callbacks of a server; the last one resolves \<open>stop()\<close>.\<close>

definition hub_callback :: "hub_op \<Rightarrow> bool" where
  "hub_callback op =
     (case op of StartHub _ \<Rightarrow> False | StopHub \<Rightarrow> False | Broadcast _ _ _ _ \<Rightarrow> False | _ \<Rightarrow> True)"

definition hub_event :: "(string \<Rightarrow> string option) \<Rightarrow> nat \<Rightarrow> hub_op \<Rightarrow> lifecycle \<Rightarrow> lifecycle" where
  "hub_event queryToken i op lf =
     (if i \<ge> length (lf_hubs lf) \<or> \<not> hub_callback op then lf
      else
        let lf1 = update_hub i (hub_step queryToken op) lf in
        (case op of
           StopCallback \<Rightarrow> if hb_stopping (lf_hubs lf ! i) > 0 then lf1\<lparr>lf_broadcastServer := None\<rparr> else lf1
         | _ \<Rightarrow> lf1))"

section \<open>Event log, queue and role\<close>

definition stopEventFileLogger :: "lifecycle \<Rightarrow> lifecycle" where
  "stopEventFileLogger lf =
     (case lf_eventFileLogger lf of
        None \<Rightarrow> lf
      | Some n \<Rightarrow> (note_effect (LoggerStopped n) lf)\<lparr>lf_eventFileLogger := None\<rparr>)"

definition initializeEventFileLogger :: "lifecycle \<Rightarrow> lifecycle" where
  "initializeEventFileLogger lf =
     (if \<not> el_enabled (pc_eventLog (lf_config lf)) then lf
      else lf\<lparr>lf_eventFileLogger := Some (lf_loggersMade lf), lf_loggersMade := Suc (lf_loggersMade lf)\<rparr>)"

text \<open>The start of a logger is rejected: the plugin forgets the logger it has now.\<close>

definition logger_start_failed :: "lifecycle \<Rightarrow> lifecycle" where
  "logger_start_failed lf = lf\<lparr>lf_eventFileLogger := None\<rparr>"

definition release_queue :: "lifecycle \<Rightarrow> lifecycle" where
  "release_queue lf =
     (let lf1 = (if ps_hasQueue (lf_state lf) then note_effect QueueStopped lf else lf)
      in lf1\<lparr>lf_state := (lf_state lf1)\<lparr>ps_hasQueue := False\<rparr>\<rparr>)"

definition DEFAULT_WS_PORTS :: "int list" where
  "DEFAULT_WS_PORTS = [9011, 9012, 9013, 9014, 9015, 9016]"

definition ws_options :: "env \<Rightarrow> PluginConfig \<Rightarrow> hub_options" where
  "ws_options e c =
     (let wsPorts = getWebSocketPorts e DEFAULT_WS_PORTS; w = sec_ws (pc_security c) in
      \<lparr> ho_port = Some (hd wsPorts), ho_host = Some (ws_bindAddress w), ho_path = None,
        ho_fallbackPorts = Some (tl wsPorts), ho_startupRetryMs = None, ho_requireAuth = Some (ws_requireAuth w),
        ho_authToken = ws_authToken w, ho_allowedOrigins = Some (ws_allowedOrigins w),
        ho_allowedIps = Some (ws_allowedIps w) \<rparr>)"

definition maybeStartWebSocketServer :: "process_env \<Rightarrow> lifecycle \<Rightarrow> lifecycle" where
  "maybeStartWebSocketServer W lf =
     (if isWebSocketDisabled (pe_env W) then stopBroadcastServer (lf\<lparr>lf_websocketEnabled := False\<rparr>)
      else startBroadcastServer W (ws_options (pe_env W) (lf_config lf)) (lf\<lparr>lf_websocketEnabled := True\<rparr>))"

text \<open>The configuration as the event operations see it.\<close>

definition plugin_env_of :: "process_env \<Rightarrow> lifecycle \<Rightarrow> plugin_env" where
  "plugin_env_of W lf =
     \<lparr> pn_config = lf_config lf, pn_hasBridge = lf_hookBridge lf, pn_uuid = pe_uuid W, pn_toISO = pe_toISO W,
       pn_le = pe_localeCompare W \<rparr>"

definition onRoleChange :: "process_env \<Rightarrow> TransportRole \<Rightarrow> lifecycle \<Rightarrow> lifecycle" where
  "onRoleChange W role lf =
     (let lf1 = lf\<lparr>lf_state := (lf_state lf)\<lparr>ps_isFollower := role = Follower\<rparr>\<rparr> in
      if role = Follower
      then stopEventFileLogger (release_queue (stopBroadcastServer (lf1\<lparr>lf_websocketEnabled := False\<rparr>)))
      else
        let lf2 = maybeStartWebSocketServer W
              (if lf_eventFileLogger lf1 = None then initializeEventFileLogger lf1 else lf1)
        in lf2\<lparr>lf_state := maybeInitializeQueue (plugin_env_of W lf2) (lf_state lf2)\<rparr>)"

section \<open>The transport managers\<close>

definition manager_callback :: "process_env \<Rightarrow> effect \<Rightarrow> lifecycle \<Rightarrow> lifecycle" where
  "manager_callback W x lf =
     (case x of
        OwnerEvent ev \<Rightarrow> note_effect (Transported ev) lf
      | RoleChange role \<Rightarrow> onRoleChange W role lf
      | _ \<Rightarrow> lf)"

definition run_manager :: "process_env \<Rightarrow> nat \<Rightarrow> (settings \<Rightarrow> manager \<Rightarrow> manager) \<Rightarrow> lifecycle \<Rightarrow> lifecycle" where
  "run_manager W i f lf =
     (if i \<ge> length (lf_managers lf) then lf
      else case lf_managers lf ! i of
        (s, m) \<Rightarrow>
          fold (manager_callback W) (drop (length (m_trace m)) (m_trace (f s m)))
            (lf\<lparr>lf_managers := (lf_managers lf)[i := (s, f s m)]\<rparr>))"

definition initializeTransport :: "process_env \<Rightarrow> activation \<Rightarrow> lifecycle \<Rightarrow> lifecycle" where
  "initializeTransport W a lf =
     (let s = \<lparr> s_config = pc_transport (lf_config lf), s_runtimeId = lf_runtimeId lf, s_pid = pe_pid W,
                s_hostname = pe_hostname W \<rparr>;
          i = length (lf_managers lf);
          lf1 = lf\<lparr>lf_managers := lf_managers lf @ [(s, new_manager)], lf_transportManager := Some i\<rparr>
      in run_manager W i (\<lambda>s m. start s (ac_acquired a) (ac_heartbeatOk a) m) lf1)"

text \<open>\<open>broadcastEvent\<close> of \<open>runtime-events.ts\<close>: what the hooks hand their events to.\<close>

definition broadcastEvent :: "process_env \<Rightarrow> event \<Rightarrow> lifecycle \<Rightarrow> lifecycle" where
  "broadcastEvent W ev lf =
     (case lf_transportManager lf of
        Some i \<Rightarrow> run_manager W i (\<lambda>s m. dispatch s (ps_now (lf_state lf)) ev m) lf
      | None \<Rightarrow> note_effect (Transported ev) lf)"

section \<open>Activation and deactivation\<close>

definition stopStatusTimer :: "lifecycle \<Rightarrow> lifecycle" where
  "stopStatusTimer lf = lf\<lparr>lf_statusTimer := None\<rparr>"

definition startStatusTimer :: "int \<Rightarrow> lifecycle \<Rightarrow> lifecycle" where
  "startStatusTimer intervalMs lf = lf\<lparr>lf_statusTimer := Some intervalMs\<rparr>"

definition cleared :: "plugin_state \<Rightarrow> plugin_state" where
  "cleared s =
     s\<lparr> ps_toolTracker := clear_calls (ps_toolTracker s), ps_pendingToolCalls := [], ps_pendingByContext := [],
        ps_sessionTracker := clear_tracker (ps_sessionTracker s),
        ps_agentRunTracker := clear_runs (ps_agentRunTracker s),
        ps_statusReducer := clear_reducer (ps_statusReducer s),
        ps_subagentTracker := clear_subagents (ps_subagentTracker s), ps_isFollower := True \<rparr>"

definition resetState :: "process_env \<Rightarrow> lifecycle \<Rightarrow> lifecycle" where
  "resetState W lf =
     (let lf1 = release_queue (stopStatusTimer lf);
          lf2 = lf1\<lparr>lf_state := cleared (lf_state lf1), lf_runtimeKind := Unknown\<rparr>;
          lf3 = (case lf_transportManager lf2 of
                   None \<Rightarrow> lf2
                 | Some i \<Rightarrow> (run_manager W i (\<lambda>s. stop) lf2)\<lparr>lf_transportManager := None\<rparr>);
          lf4 = (if lf_hookBridge lf3 then (note_effect BridgeStopped lf3)\<lparr>lf_hookBridge := False\<rparr> else lf3)
      in stopEventFileLogger lf4)"

text \<open>The second component are the errors of the validation; the plugin throws when there are any.\<close>

definition runtime_kind_of :: "process_env \<Rightarrow> runtime_kind" where
  "runtime_kind_of W = detectOpenClawRuntimeKind (pe_env W) (pe_title W) (pe_argv W)"

definition activation_config :: "process_env \<Rightarrow> PluginConfig \<Rightarrow> PluginConfig" where
  "activation_config W merged =
     (let c = resolveRuntimeConfig (pe_host W) (pe_platform W) merged in
      if tc_mode (pc_transport c) = ''auto''
      then c\<lparr>pc_transport := (pc_transport c)\<lparr>tc_mode := resolveAutoTransportMode (runtime_kind_of W)\<rparr>\<rparr> else c)"

definition initializeConfig :: "process_env \<Rightarrow> PluginConfig \<Rightarrow> lifecycle \<Rightarrow> lifecycle \<times> string list" where
  "initializeConfig W merged lf =
     (let c = activation_config W merged;
          lf1 = lf\<lparr> lf_config := c, lf_runtimeKind := runtime_kind_of W,
                    lf_state := (lf_state lf)\<lparr>ps_statusReducer :=
                      new_reducer (Some (st_workingWindowMs (pc_status c))) (Some (st_sleepingWindowMs (pc_status c)))\<rparr> \<rparr>
      in (lf1, snd (validateConfig (pe_host W) c)))"

definition createHookBridge :: "PluginConfig \<Rightarrow> bool" where
  "createHookBridge c \<longleftrightarrow> \<not> (\<not> hb_enabled (pc_hookBridge c) \<and> \<not> tg_enabled (hb_toolGuard (pc_hookBridge c)))"

definition registerHooks :: "lifecycle \<Rightarrow> lifecycle" where
  "registerHooks lf = lf\<lparr>lf_hooksBound := Suc (lf_hooksBound lf)\<rparr>"

definition fresh_runtime :: "process_env \<Rightarrow> lifecycle \<Rightarrow> lifecycle" where
  "fresh_runtime W lf =
     lf\<lparr> lf_runtimeId := pe_uuid W (ps_uuids (lf_state lf)),
         lf_state := (lf_state lf)\<lparr>ps_uuids := Suc (ps_uuids (lf_state lf))\<rparr> \<rparr>"

text \<open>The rest of an activation once the configuration is accepted.\<close>

definition complete_activation :: "process_env \<Rightarrow> activation \<Rightarrow> lifecycle \<Rightarrow> lifecycle" where
  "complete_activation W a lf =
     (let lf1 = lf\<lparr>lf_hookBridge := createHookBridge (lf_config lf)\<rparr> in
      if \<not> pc_enabled (lf_config lf1)
      then (stopBroadcastServer (lf1\<lparr>lf_websocketEnabled := False\<rparr>))\<lparr>lf_isInitialized := True\<rparr>
      else
        let lf2 = registerHooks (initializeTransport W a lf1);
            lf3 = (if isStatusTickerDisabled (pe_env W) then lf2
                   else startStatusTimer (st_tickIntervalMs (pc_status (lf_config lf2))) lf2)
        in lf3\<lparr>lf_isInitialized := True\<rparr>)"

definition activate :: "process_env \<Rightarrow> activation \<Rightarrow> lifecycle \<Rightarrow> lifecycle" where
  "activate W a lf =
     (if lf_isInitialized lf then registerHooks lf
      else
        case initializeConfig W (ac_merged a) (fresh_runtime W (resetState W lf)) of
          (lf1, errors) \<Rightarrow>
            if errors \<noteq> [] then note_effect (ActivationFailed errors) lf1 else complete_activation W a lf1)"

text \<open>\<open>deactivate\<close> up to the await of the manager's stop, and the rest.\<close>

definition deactivate :: "process_env \<Rightarrow> lifecycle \<Rightarrow> lifecycle" where
  "deactivate W lf =
     (let transportManager = lf_transportManager lf;
          lf1 = lf\<lparr>lf_transportManager := None, lf_deactivating := lf_deactivating lf @ [transportManager]\<rparr>
      in case transportManager of None \<Rightarrow> lf1 | Some i \<Rightarrow> run_manager W i (\<lambda>s. stop) lf1)"

definition manager_stopped :: "lifecycle \<Rightarrow> nat option \<Rightarrow> bool" where
  "manager_stopped lf mi = (case mi of None \<Rightarrow> True | Some i \<Rightarrow> \<not> m_stopWaits (snd (lf_managers lf ! i)))"

definition deactivate_continues :: "process_env \<Rightarrow> lifecycle \<Rightarrow> lifecycle" where
  "deactivate_continues W lf =
     (case lf_deactivating lf of
        [] \<Rightarrow> lf
      | mi # rest \<Rightarrow>
          if \<not> manager_stopped lf mi then lf
          else stopBroadcastServer
            ((resetState W (lf\<lparr>lf_deactivating := rest\<rparr>))\<lparr>lf_websocketEnabled := True, lf_isInitialized := False\<rparr>))"

section \<open>The machine\<close>

datatype lifecycle_op =
    Activate activation
  | Deactivate
  | DeactivateContinues
  | EventBroadcast event
  | ManagerStep nat manager_op
  | HubEvent nat hub_op
  | ToClients string "nat \<Rightarrow> bool" "nat \<Rightarrow> bool" jsval
  | LoggerStartFails

text \<open>The operations of a manager that the plugin itself calls; the others are timers and callbacks.\<close>

definition manager_called :: "manager_op \<Rightarrow> bool" where
  "manager_called op = (case op of Dispatch _ _ \<Rightarrow> True | Stop \<Rightarrow> True | _ \<Rightarrow> False)"

fun lifecycle_step :: "process_env \<Rightarrow> (string \<Rightarrow> string option) \<Rightarrow> lifecycle_op \<Rightarrow> lifecycle \<Rightarrow> lifecycle" where
  "lifecycle_step W q (Activate a) lf = activate W a lf"
| "lifecycle_step W q Deactivate lf = deactivate W lf"
| "lifecycle_step W q DeactivateContinues lf = deactivate_continues W lf"
| "lifecycle_step W q (EventBroadcast ev) lf = broadcastEvent W ev lf"
| "lifecycle_step W q (ManagerStep i op) lf =
     (if manager_called op then lf else run_manager W i (\<lambda>s. manager_step s op) lf)"
| "lifecycle_step W q (HubEvent i op) lf = hub_event q i op lf"
| "lifecycle_step W q (ToClients t isOpen sendOk ev) lf = broadcast_to_clients t isOpen sendOk ev lf"
| "lifecycle_step W q LoggerStartFails lf = logger_start_failed lf"

section \<open>What a manager reports\<close>

definition role_after :: "TransportRole \<Rightarrow> effect list \<Rightarrow> TransportRole" where
  "role_after r xs = fold (\<lambda>x r. case x of RoleChange r' \<Rightarrow> r' | _ \<Rightarrow> r) xs r"

text \<open>The trace grows, and its new part reports every change of the role.\<close>

definition grows :: "manager \<Rightarrow> manager \<Rightarrow> bool" where
  "grows m m' \<longleftrightarrow> (\<exists>xs. m_trace m' = m_trace m @ xs \<and> role_after (m_role m) xs = m_role m')"

lemma grows_refl [simp]: "grows m m"
  by (simp add: grows_def role_after_def)

lemma grows_update [simp]:
  "grows m (a\<lparr>m_seen := v1\<rparr>) = grows m a" "grows m (a\<lparr>m_server := v2\<rparr>) = grows m a"
  "grows m (a\<lparr>m_heartbeatTimer := v2\<rparr>) = grows m a" "grows m (a\<lparr>m_retryTimer := v3\<rparr>) = grows m a"
  "grows m (a\<lparr>m_ownerRecoveryTimer := v3\<rparr>) = grows m a" "grows m (a\<lparr>m_pendingEvents := v4\<rparr>) = grows m a"
  "grows m (a\<lparr>m_flushing := v2\<rparr>) = grows m a" "grows m (a\<lparr>m_stopped := v2\<rparr>) = grows m a"
  "grows m (a\<lparr>m_ownsLock := v2\<rparr>) = grows m a" "grows m (a\<lparr>m_nextOwnerRecoveryDelayMs := v3\<rparr>) = grows m a"
  "grows m (a\<lparr>m_lastLiveOwnerConflictKey := v5\<rparr>) = grows m a" "grows m (a\<lparr>m_pc := v6\<rparr>) = grows m a"
  "grows m (a\<lparr>m_stopWaits := v2\<rparr>) = grows m a"
  by (simp_all add: grows_def)

lemma grows_emit: "grows m a \<Longrightarrow> (\<And>r. x \<noteq> RoleChange r) \<Longrightarrow> grows m (emit x a)"
  by (cases x) (auto simp: grows_def role_after_def emit_def)

lemma grows_emitted [simp]:
  "grows m a \<Longrightarrow> grows m (emit (Queued ev) a)" "grows m a \<Longrightarrow> grows m (emit (DroppedOldest ev) a)"
  "grows m a \<Longrightarrow> grows m (emit (RelaySent ev) a)" "grows m a \<Longrightarrow> grows m (emit (RelayAcked ev) a)"
  "grows m a \<Longrightarrow> grows m (emit (Shifted ev) a)" "grows m a \<Longrightarrow> grows m (emit (OwnerTook ev) a)"
  "grows m a \<Longrightarrow> grows m (emit (OwnerEvent ev) a)" "grows m a \<Longrightarrow> grows m (emit ServerStarted a)"
  "grows m a \<Longrightarrow> grows m (emit ServerClosed a)" "grows m a \<Longrightarrow> grows m (emit HeartbeatWritten a)"
  "grows m a \<Longrightarrow> grows m (emit LockReleased a)"
  by (simp_all add: grows_emit)

lemma grows_setRole [simp]: "grows m a \<Longrightarrow> grows m (setRole r a)"
  by (auto simp: grows_def role_after_def setRole_def emit_def)

lemma grows_parts [simp]:
  "grows m a \<Longrightarrow> grows m (releaseLock a)" "grows m a \<Longrightarrow> grows m (startOwnerServer a)"
  "grows m a \<Longrightarrow> grows m (scheduleFlush d a)" "grows m a \<Longrightarrow> grows m (scheduleOwnerRecovery s d a)"
  "grows m a \<Longrightarrow> grows m (processOwnerEvent s now ev r a)" "grows m a \<Longrightarrow> grows m (handleOwnerAcquireFailure s res a)"
  "grows m a \<Longrightarrow> grows m (shift_pending a)"
  by (auto simp: releaseLock_def startOwnerServer_def scheduleFlush_def scheduleOwnerRecovery_def processOwnerEvent_def
      handleOwnerAcquireFailure_def shift_pending_def split: prod.splits list.splits bool.splits)

lemma grows_heartbeat [simp]:
  "grows m a \<Longrightarrow> grows m (snd (writeHeartbeat ok a))" "grows m a \<Longrightarrow> grows m (startHeartbeat ok a)"
  by (auto simp: writeHeartbeat_def startHeartbeat_def)

lemma grows_failure [simp]: "grows m a \<Longrightarrow> grows m (handleOwnerFailure s a)"
  by (simp add: handleOwnerFailure_def Let_def)

lemma grows_promotion [simp]:
  "grows m a \<Longrightarrow> grows m (snd (tryBecomeOwner s res ok a))" "grows m a \<Longrightarrow> grows m (snd (tryPromoteFromFollower s res ok a))"
  by (auto simp: tryBecomeOwner_def tryPromoteFromFollower_def Let_def)

lemma grows_enqueue [simp]: "grows m a \<Longrightarrow> grows m (enqueueForFollowerRelay s ev a)"
  by (simp add: enqueueForFollowerRelay_def Let_def split: list.splits)

lemma grows_flush [simp]:
  "grows m a \<Longrightarrow> grows m (flush_finally s a)" "grows m a \<Longrightarrow> grows m (flush_loop s now a)"
proof -
  have f: "grows m a \<Longrightarrow> grows m (flush_finally s a)" for a
    by (simp add: flush_finally_def Let_def)
  then show "grows m a \<Longrightarrow> grows m (flush_finally s a)" .
  show "grows m a \<Longrightarrow> grows m (flush_loop s now a)"
    using f by (simp add: flush_loop_def split: list.splits)
qed

lemma grows_results:
  "tryBecomeOwner s res ok a = (b, a') \<Longrightarrow> grows m a \<Longrightarrow> grows m a'"
  "tryPromoteFromFollower s res ok a = (b, a') \<Longrightarrow> grows m a \<Longrightarrow> grows m a'"
  "writeHeartbeat ok a = (b, a') \<Longrightarrow> grows m a \<Longrightarrow> grows m a'"
  using grows_promotion [of m a s res ok] grows_heartbeat(1) [of m a ok] by auto

lemma grows_settled [simp]: "grows m a \<Longrightarrow> grows m (relay_settled s now sent ok res hb a)"
  by (auto simp: relay_settled_def grows_results(2) split: prod.splits bool.splits)

lemma grows_recovery [simp]: "grows m a \<Longrightarrow> grows m (ownerRecoveryFires s res hb a)"
  by (auto simp: ownerRecoveryFires_def Let_def grows_results(1) split: prod.splits bool.splits)

lemma grows_tick [simp]: "grows m a \<Longrightarrow> grows m (heartbeatFires s ok a)"
  by (auto simp: heartbeatFires_def grows_results(3) split: prod.splits bool.splits)

lemma grows_start [simp]: "grows m a \<Longrightarrow> grows m (start s res hb a)"
  by (auto simp: start_def Let_def grows_results(1) split: prod.splits bool.splits)

lemma grows_stop [simp]: "grows m a \<Longrightarrow> grows m (stop_finish a)" "grows m a \<Longrightarrow> grows m (stop a)"
  by (auto simp: stop_finish_def stop_def Let_def)

lemma grows_dispatch [simp]: "grows m (dispatch s now ev m)"
  by (simp add: dispatch_def Let_def)

lemma grows_step: "grows m (manager_step s op m)"
  by (cases op) (auto simp: onRelayEvent_def flushPendingFollowerEvents_def owner_settled_def split: flush_pc.splits)

text \<open>Nothing but \<open>stop\<close> stops a manager.\<close>

lemma not_stopped [simp]:
  "m_stopped (setRole r a) = m_stopped a" "m_stopped (releaseLock a) = m_stopped a"
  "m_stopped (snd (writeHeartbeat ok a)) = m_stopped a" "m_stopped (shift_pending a) = m_stopped a"
  "m_stopped (startOwnerServer a) = m_stopped a" "m_stopped (scheduleFlush d a) = m_stopped a"
  "m_stopped (scheduleOwnerRecovery s d a) = m_stopped a" "m_stopped (flush_finally s a) = m_stopped a"
  by (simp_all add: setRole_def releaseLock_def writeHeartbeat_def shift_pending_def startOwnerServer_def
      scheduleFlush_def scheduleOwnerRecovery_def flush_finally_def Let_def split: list.splits)

lemma stopped_heartbeat:
  "writeHeartbeat ok a = (b, a') \<Longrightarrow> m_stopped a' = m_stopped a" "m_stopped (startHeartbeat ok a) = m_stopped a"
  using not_stopped(3) [of ok a] not_stopped(3) [of ok "a\<lparr>m_heartbeatTimer := False\<rparr>"]
  by (auto simp: startHeartbeat_def simp del: not_stopped(3) split: prod.splits bool.splits)

lemma stopped_promotion:
  "tryBecomeOwner s res ok a = (b, a') \<Longrightarrow> m_stopped a' = m_stopped a"
  "tryPromoteFromFollower s res ok a = (b, a') \<Longrightarrow> m_stopped a' = m_stopped a"
  by (auto simp: tryPromoteFromFollower_def tryBecomeOwner_def stopped_heartbeat Let_def
      split: if_splits)

lemma stopped_failure [simp]: "m_stopped (handleOwnerFailure s a) = m_stopped a"
  by (simp add: handleOwnerFailure_def Let_def)

lemma stopped_loop [simp]: "m_stopped (flush_loop s now a) = m_stopped a"
  by (simp add: flush_loop_def split: list.splits)

lemma stopped_settled [simp]: "m_stopped (relay_settled s now e ok res hb a) = m_stopped a"
  by (auto simp: relay_settled_def dest: stopped_promotion split: prod.splits bool.splits)

lemma stopped_recovery [simp]: "m_stopped (ownerRecoveryFires s res hb a) = m_stopped a"
  by (auto simp: ownerRecoveryFires_def Let_def dest: stopped_promotion split: prod.splits bool.splits)

lemma stopped_tick [simp]: "m_stopped (heartbeatFires s ok a) = m_stopped a"
  by (auto simp: heartbeatFires_def dest: stopped_heartbeat(1) split: prod.splits bool.splits)

lemma stopped_start [simp]: "\<not> m_stopped (start s res hb a)"
  by (auto simp: start_def Let_def dest: stopped_promotion split: prod.splits bool.splits)

lemma stopped_step: "op \<noteq> Stop \<Longrightarrow> m_stopped (manager_step s op m) = m_stopped m"
  by (cases op)
    (simp_all add: onRelayEvent_def dispatch_def flushPendingFollowerEvents_def owner_settled_def stop_finish_def
      enqueueForFollowerRelay_def Let_def split: flush_pc.splits list.splits)

section \<open>The plugin follows the role of its manager\<close>

text \<open>The server the module refers to exists; \<open>silent\<close>: there is none or it has been stopped.\<close>

definition server_ok :: "lifecycle \<Rightarrow> bool" where
  "server_ok lf \<longleftrightarrow> (\<forall>i. lf_broadcastServer lf = Some i \<longrightarrow> i < length (lf_hubs lf))"

definition silent :: "lifecycle \<Rightarrow> bool" where
  "silent lf \<longleftrightarrow> (\<forall>i. lf_broadcastServer lf = Some i \<longrightarrow> quiet (lf_hubs lf ! i))"

definition role_inv :: "process_env \<Rightarrow> TransportRole \<Rightarrow> lifecycle \<Rightarrow> bool" where
  "role_inv W r lf \<longleftrightarrow>
     (ps_isFollower (lf_state lf) \<longleftrightarrow> r = Follower) \<and> server_ok lf \<and>
     (if r = Follower then \<not> ps_hasQueue (lf_state lf) \<and> lf_eventFileLogger lf = None \<and> silent lf
      else ps_hasQueue (lf_state lf) = (pc_webhooks (lf_config lf) \<noteq> []) \<and>
        lf_websocketEnabled lf = (\<not> isWebSocketDisabled (pe_env W)))"

lemma kept_hub [simp]:
  "lf_state (update_hub i f lf) = lf_state lf" "lf_config (update_hub i f lf) = lf_config lf"
  "lf_isInitialized (update_hub i f lf) = lf_isInitialized lf"
  "lf_websocketEnabled (update_hub i f lf) = lf_websocketEnabled lf"
  "lf_transportManager (update_hub i f lf) = lf_transportManager lf" "lf_managers (update_hub i f lf) = lf_managers lf"
  "lf_eventFileLogger (update_hub i f lf) = lf_eventFileLogger lf"
  "lf_broadcastServer (update_hub i f lf) = lf_broadcastServer lf"
  "lf_deactivating (update_hub i f lf) = lf_deactivating lf" "lf_hooksBound (update_hub i f lf) = lf_hooksBound lf"
  "length (lf_hubs (update_hub i f lf)) = length (lf_hubs lf)" "lf_trace (update_hub i f lf) = lf_trace lf"
  by (simp_all add: update_hub_def)

lemma kept_note [simp]:
  "lf_state (note_effect x lf) = lf_state lf" "lf_config (note_effect x lf) = lf_config lf"
  "lf_isInitialized (note_effect x lf) = lf_isInitialized lf"
  "lf_websocketEnabled (note_effect x lf) = lf_websocketEnabled lf"
  "lf_transportManager (note_effect x lf) = lf_transportManager lf" "lf_managers (note_effect x lf) = lf_managers lf"
  "lf_eventFileLogger (note_effect x lf) = lf_eventFileLogger lf"
  "lf_broadcastServer (note_effect x lf) = lf_broadcastServer lf" "lf_hubs (note_effect x lf) = lf_hubs lf"
  "lf_deactivating (note_effect x lf) = lf_deactivating lf" "lf_hooksBound (note_effect x lf) = lf_hooksBound lf"
  by (simp_all add: note_effect_def)

text \<open>The part of the state that the callbacks of a manager leave alone.\<close>

definition fixed_part ::
  "lifecycle \<Rightarrow> PluginConfig \<times> bool \<times> nat option \<times> (settings \<times> manager) list \<times> nat option list" where
  "fixed_part lf =
     (lf_config lf, lf_isInitialized lf, lf_transportManager lf, lf_managers lf, lf_deactivating lf)"

lemma fixed_server [simp]:
  "fixed_part (stopBroadcastServer lf) = fixed_part lf" "fixed_part (startBroadcastServer W opts lf) = fixed_part lf"
  by (simp_all add: fixed_part_def stopBroadcastServer_def startBroadcastServer_def getBroadcastServer_def Let_def
      split: option.splits)

lemma fixed_update [simp]:
  "fixed_part (note_effect x lf) = fixed_part lf" "fixed_part (release_queue lf) = fixed_part lf"
  "fixed_part (stopEventFileLogger lf) = fixed_part lf" "fixed_part (initializeEventFileLogger lf) = fixed_part lf"
  "fixed_part (lf\<lparr>lf_state := v1\<rparr>) = fixed_part lf" "fixed_part (lf\<lparr>lf_websocketEnabled := v2\<rparr>) = fixed_part lf"
  by (simp_all add: fixed_part_def release_queue_def stopEventFileLogger_def initializeEventFileLogger_def Let_def
      split: option.splits)

lemma fixed_callback [simp]: "fixed_part (manager_callback W x lf) = fixed_part lf"
  by (cases x) (simp_all add: manager_callback_def onRoleChange_def maybeStartWebSocketServer_def Let_def)

lemma fixed_callbacks [simp]: "fixed_part (fold (manager_callback W) xs lf) = fixed_part lf"
  by (induction xs arbitrary: lf) simp_all

lemma stopped_server:
  assumes "server_ok lf"
  shows "server_ok (stopBroadcastServer lf)" "silent (stopBroadcastServer lf)"
    "lf_state (stopBroadcastServer lf) = lf_state lf" "lf_config (stopBroadcastServer lf) = lf_config lf"
    "lf_websocketEnabled (stopBroadcastServer lf) = lf_websocketEnabled lf"
    "lf_eventFileLogger (stopBroadcastServer lf) = lf_eventFileLogger lf"
  using assms by (auto simp: stopBroadcastServer_def server_ok_def silent_def update_hub_def stop_quiet Let_def split: option.splits)

lemma started_server:
  assumes "server_ok lf"
  shows "server_ok (startBroadcastServer W opts lf)"
    "lf_state (startBroadcastServer W opts lf) = lf_state lf" "lf_config (startBroadcastServer W opts lf) = lf_config lf"
    "lf_websocketEnabled (startBroadcastServer W opts lf) = lf_websocketEnabled lf"
    "lf_eventFileLogger (startBroadcastServer W opts lf) = lf_eventFileLogger lf"
  using assms by (auto simp: startBroadcastServer_def getBroadcastServer_def server_ok_def update_hub_def Let_def split: option.splits)

lemma server_frame [simp]:
  "server_ok (lf\<lparr>lf_state := v1\<rparr>) = server_ok lf" "server_ok (lf\<lparr>lf_websocketEnabled := v2\<rparr>) = server_ok lf"
  "server_ok (note_effect x lf) = server_ok lf" "server_ok (release_queue lf) = server_ok lf"
  "server_ok (stopEventFileLogger lf) = server_ok lf" "server_ok (initializeEventFileLogger lf) = server_ok lf"
  "silent (lf\<lparr>lf_state := v1\<rparr>) = silent lf" "silent (lf\<lparr>lf_websocketEnabled := v2\<rparr>) = silent lf"
  "silent (note_effect x lf) = silent lf" "silent (release_queue lf) = silent lf"
  "silent (stopEventFileLogger lf) = silent lf"
  by (simp_all add: server_ok_def silent_def release_queue_def stopEventFileLogger_def initializeEventFileLogger_def Let_def
      split: option.splits)

lemma stopped_parts [simp]:
  "lf_state (stopEventFileLogger lf) = lf_state lf" "lf_eventFileLogger (stopEventFileLogger lf) = None"
  "ps_hasQueue (lf_state (release_queue lf)) = False"
  "ps_isFollower (lf_state (release_queue lf)) = ps_isFollower (lf_state lf)"
  by (simp_all add: stopEventFileLogger_def release_queue_def Let_def split: option.splits)

lemma demoted:
  assumes "server_ok lf"
  shows "role_inv W Follower (onRoleChange W Follower lf)"
  using assms by (simp add: role_inv_def onRoleChange_def Let_def stopped_server)

lemma logger_init [simp]:
  "lf_state (initializeEventFileLogger lf) = lf_state lf" "lf_config (initializeEventFileLogger lf) = lf_config lf"
  by (simp_all add: initializeEventFileLogger_def)

lemma promoted_plugin:
  assumes "server_ok lf" "ps_hasQueue (lf_state lf) \<Longrightarrow> pc_webhooks (lf_config lf) \<noteq> []"
  shows "role_inv W Owner (onRoleChange W Owner lf)"
  using assms
  by (auto simp: role_inv_def onRoleChange_def maybeStartWebSocketServer_def maybeInitializeQueue_def plugin_env_of_def Let_def
      stopped_server started_server)

lemma callback_inv:
  assumes "role_inv W r lf"
  shows "role_inv W (case x of RoleChange r' \<Rightarrow> r' | _ \<Rightarrow> r) (manager_callback W x lf)"
proof (cases x)
  case (RoleChange r')
  have "server_ok lf" "ps_hasQueue (lf_state lf) \<Longrightarrow> pc_webhooks (lf_config lf) \<noteq> []"
    using assms by (simp_all add: role_inv_def split: if_splits)
  then show ?thesis
    by (cases r') (simp_all add: RoleChange manager_callback_def demoted promoted_plugin)
qed (use assms in \<open>simp_all add: manager_callback_def role_inv_def\<close>)

lemma callbacks_inv:
  "role_inv W r lf \<Longrightarrow> role_inv W (role_after r xs) (fold (manager_callback W) xs lf)"
proof (induction xs arbitrary: r lf)
  case (Cons x xs)
  from Cons.IH [OF callback_inv [OF Cons.prems]] show ?case by (simp add: role_after_def)
qed (simp add: role_after_def)

end
