(* ===== verification/PluginRuns.thy ===== *)
theory PluginRuns imports PluginLifecycle begin

text \<open>
  Runs of the plugin of \<open>PluginLifecycle\<close>: while it is active it follows the role of its transport
  manager, a process in automatic mode that is not the gateway stays a follower, a deactivated plugin
  is quiet, and its servers serve only clients that a configuration of it allows.
\<close>

section \<open>The active plugin\<close>

text \<open>What holds of a manager that runs: a manager in the mode \<open>follower\<close> stays a follower.\<close>

definition bound_follower :: "settings \<Rightarrow> manager \<Rightarrow> bool" where
  "bound_follower s m \<longleftrightarrow> (tc_mode (s_config s) = ''follower'' \<longrightarrow> m_role m = Follower \<and> m_ownerRecoveryTimer m = None)"

definition managed :: "settings \<Rightarrow> manager \<Rightarrow> bool" where
  "managed s m \<longleftrightarrow> manager_inv s m \<and> bound_follower s m \<and> \<not> m_stopped m"

lemma follower_loop [simp]:
  "m_ownerRecoveryTimer (flush_loop s now m) = m_ownerRecoveryTimer m" "m_role (flush_loop s now m) = m_role m"
  "m_ownerRecoveryTimer (flush_finally s m) = m_ownerRecoveryTimer m" "m_role (flush_finally s m) = m_role m"
  "m_ownerRecoveryTimer (shift_pending m) = m_ownerRecoveryTimer m" "m_role (shift_pending m) = m_role m"
proof -
  have f: "m_ownerRecoveryTimer (flush_finally s m) = m_ownerRecoveryTimer m" "m_role (flush_finally s m) = m_role m" for m
    by (simp_all add: flush_finally_def scheduleFlush_def Let_def)
  then show "m_ownerRecoveryTimer (flush_finally s m) = m_ownerRecoveryTimer m" "m_role (flush_finally s m) = m_role m" .
  show "m_ownerRecoveryTimer (flush_loop s now m) = m_ownerRecoveryTimer m" "m_role (flush_loop s now m) = m_role m"
    using f by (simp_all add: flush_loop_def split: list.splits)
  show "m_ownerRecoveryTimer (shift_pending m) = m_ownerRecoveryTimer m" "m_role (shift_pending m) = m_role m"
    by (simp_all add: shift_pending_def split: list.splits)
qed

lemma bound_follower_step: "bound_follower s m \<Longrightarrow> bound_follower s (manager_step s op m)"
  by (cases op)
    (auto simp: bound_follower_def dispatch_def onRelayEvent_def enqueueForFollowerRelay_def flushPendingFollowerEvents_def
      relay_settled_def owner_settled_def heartbeatFires_def writeHeartbeat_def handleOwnerFailure_def stop_def stop_finish_def
      releaseLock_def scheduleFlush_def Let_def split: flush_pc.splits list.splits if_splits)

lemma managed_step: "managed s m \<Longrightarrow> op \<noteq> Stop \<Longrightarrow> managed s (manager_step s op m)"
  by (simp add: managed_def bound_follower_step manager.inv_step stopped_step)

lemma managed_start: "managed s (start s res hb new_manager)"
  by (simp add: managed_def start_inv) (simp add: bound_follower_def start_def setRole_def new_manager_def Let_def)

definition active_inv :: "process_env \<Rightarrow> PluginConfig \<Rightarrow> lifecycle \<Rightarrow> bool" where
  "active_inv W c lf \<longleftrightarrow>
     (\<exists>s m. fixed_part lf = (c, True, Some 0, [(s, m)], []) \<and> s_config s = pc_transport c \<and>
        managed s m \<and> role_inv W (m_role m) lf)"

lemma run_manager_grows:
  assumes "lf_managers lf = [(s, m)]" "grows m (f s m)"
  shows "\<exists>xs. run_manager W 0 f lf = fold (manager_callback W) xs (lf\<lparr>lf_managers := [(s, f s m)]\<rparr>) \<and>
    role_after (m_role m) xs = m_role (f s m)"
proof -
  obtain xs where "m_trace (f s m) = m_trace m @ xs" "role_after (m_role m) xs = m_role (f s m)"
    using assms(2) unfolding grows_def by blast
  then show ?thesis
    by (intro exI [of _ xs]) (simp add: run_manager_def assms(1))
qed

lemma managers_frame [simp]: "role_inv W r (lf\<lparr>lf_managers := ms\<rparr>) = role_inv W r lf"
  by (simp add: role_inv_def server_ok_def silent_def)

lemma run_manager_inv:
  assumes "active_inv W c lf" "\<And>s m. grows m (f s m)" "\<And>s m. managed s m \<Longrightarrow> managed s (f s m)"
  shows "active_inv W c (run_manager W i f lf)"
proof -
  from assms(1) obtain s m where a: "fixed_part lf = (c, True, Some 0, [(s, m)], [])" "s_config s = pc_transport c"
    "managed s m" "role_inv W (m_role m) lf"
    unfolding active_inv_def by blast
  then have ms: "lf_managers lf = [(s, m)]" by (simp add: fixed_part_def)
  show ?thesis
  proof (cases i)
    case 0
    from run_manager_grows [where f = f and W = W, OF ms assms(2)] obtain xs
      where r: "run_manager W 0 f lf = fold (manager_callback W) xs (lf\<lparr>lf_managers := [(s, f s m)]\<rparr>)"
        and x: "role_after (m_role m) xs = m_role (f s m)" by blast
    have "role_inv W (m_role (f s m)) (run_manager W 0 f lf)"
      unfolding r x [symmetric] by (rule callbacks_inv) (simp add: a(4))
    moreover have "fixed_part (run_manager W 0 f lf) = fixed_part (lf\<lparr>lf_managers := [(s, f s m)]\<rparr>)"
      unfolding r by simp
    then have "fixed_part (run_manager W 0 f lf) = (c, True, Some 0, [(s, f s m)], [])"
      using a(1) by (simp add: fixed_part_def)
    ultimately show ?thesis
      unfolding active_inv_def 0 using a(2,3) assms(3) by blast
  next
    case (Suc j)
    then show ?thesis using assms(1) ms by (simp add: run_manager_def)
  qed
qed

lemma active_hub:
  assumes "active_inv W c lf" "fixed_part lf' = fixed_part lf" "lf_state lf' = lf_state lf"
    "lf_eventFileLogger lf' = lf_eventFileLogger lf \<or> lf_eventFileLogger lf' = None"
    "lf_websocketEnabled lf' = lf_websocketEnabled lf"
    "server_ok lf \<Longrightarrow> server_ok lf'" "silent lf \<Longrightarrow> silent lf'"
  shows "active_inv W c lf'"
proof -
  from assms(1) obtain s m where a: "fixed_part lf = (c, True, Some 0, [(s, m)], [])" "s_config s = pc_transport c"
    "managed s m" "role_inv W (m_role m) lf"
    unfolding active_inv_def by blast
  have "role_inv W (m_role m) lf'"
    using a(4) assms(2-7) by (auto simp: role_inv_def fixed_part_def split: if_splits)
  with a assms(2) show ?thesis unfolding active_inv_def by auto
qed

lemma hub_event_facts:
  "fixed_part (hub_event q i op lf) = fixed_part lf" "lf_state (hub_event q i op lf) = lf_state lf"
  "lf_eventFileLogger (hub_event q i op lf) = lf_eventFileLogger lf"
  "lf_websocketEnabled (hub_event q i op lf) = lf_websocketEnabled lf"
  "server_ok lf \<Longrightarrow> server_ok (hub_event q i op lf)"
  by (auto simp: hub_event_def fixed_part_def server_ok_def Let_def split: hub_op.splits)

lemma silent_update:
  assumes "silent lf" "\<And>h. quiet h \<Longrightarrow> quiet (f h)"
  shows "silent (update_hub i f lf)"
  using assms by (cases "i < length (lf_hubs lf)") (auto simp: silent_def update_hub_def nth_list_update list_update_beyond)

lemma hub_event_silent: "silent lf \<Longrightarrow> silent (hub_event q i op lf)"
proof -
  assume s: "silent lf"
  show ?thesis
  proof (cases "i \<ge> length (lf_hubs lf) \<or> \<not> hub_callback op")
    case False
    then have "quiet_step op" by (auto simp: hub_callback_def quiet_step_def split: hub_op.splits)
    then have u: "silent (update_hub i (hub_step q op) lf)"
      by (intro silent_update [OF s] quiet_hub_step(1))
    have "hub_event q i op lf = update_hub i (hub_step q op) lf \<or>
      hub_event q i op lf = (update_hub i (hub_step q op) lf)\<lparr>lf_broadcastServer := None\<rparr>"
      using False by (simp add: hub_event_def Let_def split: hub_op.splits)
    then show ?thesis using u by (auto simp: silent_def)
  qed (use s in \<open>simp add: hub_event_def\<close>)
qed

lemma to_clients_facts:
  "fixed_part (broadcast_to_clients t p q ev lf) = fixed_part lf" "lf_state (broadcast_to_clients t p q ev lf) = lf_state lf"
  "lf_eventFileLogger (broadcast_to_clients t p q ev lf) = lf_eventFileLogger lf"
  "lf_websocketEnabled (broadcast_to_clients t p q ev lf) = lf_websocketEnabled lf"
  "server_ok lf \<Longrightarrow> server_ok (broadcast_to_clients t p q ev lf)"
  "silent lf \<Longrightarrow> broadcast_to_clients t p q ev lf = lf"
  by (auto simp: broadcast_to_clients_def fixed_part_def server_ok_def silent_def quiet_def broadcast_def update_hub_def
      split: option.splits)

lemma active_step:
  assumes a: "active_inv W c lf" and "op \<noteq> Deactivate"
  shows "active_inv W c (lifecycle_step W q op lf)"
proof (cases op)
  case (Activate x)
  have "lf_isInitialized lf" using a by (auto simp: active_inv_def fixed_part_def)
  moreover have "active_inv W c (registerHooks lf)"
    by (rule active_hub [OF a]) (simp_all add: registerHooks_def fixed_part_def server_ok_def silent_def)
  ultimately show ?thesis by (simp add: Activate activate_def)
next
  case DeactivateContinues
  have "lf_deactivating lf = []" using a by (auto simp: active_inv_def fixed_part_def)
  then show ?thesis using a by (simp add: DeactivateContinues deactivate_continues_def)
next
  case (EventBroadcast ev)
  have "lf_transportManager lf = Some 0" using a by (auto simp: active_inv_def fixed_part_def)
  moreover have "managed s m \<Longrightarrow> managed s (dispatch s now ev m)" for s m now
    using managed_step [of s m "Dispatch now ev"] by simp
  ultimately show ?thesis
    by (simp add: EventBroadcast broadcastEvent_def) (rule run_manager_inv [OF a], auto)
next
  case (ManagerStep i mop)
  then show ?thesis
    using a by (auto intro!: run_manager_inv [OF a] grows_step managed_step simp: manager_called_def)
next
  case (HubEvent i hop)
  have "active_inv W c (hub_event q i hop lf)"
    by (rule active_hub [OF a]) (simp_all add: hub_event_facts hub_event_silent)
  then show ?thesis by (simp add: HubEvent)
next
  case (ToClients t p r ev)
  have "active_inv W c (broadcast_to_clients t p r ev lf)"
    by (rule active_hub [OF a]) (simp_all add: to_clients_facts)
  then show ?thesis by (simp add: ToClients)
next
  case LoggerStartFails
  have "active_inv W c (logger_start_failed lf)"
    by (rule active_hub [OF a]) (simp_all add: logger_start_failed_def fixed_part_def server_ok_def silent_def)
  then show ?thesis by (simp add: LoggerStartFails)
qed (use assms in simp)

lemma active_run:
  "active_inv W c lf \<Longrightarrow> list_all (\<lambda>op. op \<noteq> Deactivate) ops \<Longrightarrow> active_inv W c (fold (lifecycle_step W q) ops lf)"
  by (induction ops arbitrary: lf) (simp_all add: active_step)

text \<open>The first activation of a plugin, when its configuration is accepted.\<close>

definition configured_plugin :: "process_env \<Rightarrow> PluginConfig \<Rightarrow> int \<Rightarrow> lifecycle" where
  "configured_plugin W c now =
     (let lf = fresh_runtime W (createPlugin W now) in
      lf\<lparr> lf_config := c, lf_runtimeKind := runtime_kind_of W,
          lf_state := (lf_state lf)\<lparr>ps_statusReducer :=
            new_reducer (Some (st_workingWindowMs (pc_status c))) (Some (st_sleepingWindowMs (pc_status c)))\<rparr> \<rparr>)"

lemma reset_new: "resetState W (createPlugin W now) = createPlugin W now"
  by (simp add: resetState_def createPlugin_def release_queue_def stopStatusTimer_def stopEventFileLogger_def cleared_def
      clear_calls_def clear_tracker_def clear_runs_def clear_reducer_def clear_subagents_def new_tracker_def new_reducer_def
      note_effect_def Let_def)

lemma configured_fields [simp]:
  "lf_config (configured_plugin W c now) = c" "lf_managers (configured_plugin W c now) = []"
  "lf_deactivating (configured_plugin W c now) = []" "lf_transportManager (configured_plugin W c now) = None"
  "lf_broadcastServer (configured_plugin W c now) = None" "lf_hooksBound (configured_plugin W c now) = 0"
  "lf_trace (configured_plugin W c now) = []" "lf_eventFileLogger (configured_plugin W c now) = None"
  "ps_isFollower (lf_state (configured_plugin W c now))" "\<not> ps_hasQueue (lf_state (configured_plugin W c now))"
  by (simp_all add: configured_plugin_def fresh_runtime_def createPlugin_def Let_def)

lemma first_activation:
  assumes "fst (validateConfig (pe_host W) c)" "c = activation_config W (ac_merged a)"
  shows "activate W a (createPlugin W now) = complete_activation W a (configured_plugin W c now)"
proof -
  have "\<not> lf_isInitialized (createPlugin W now)" by (simp add: createPlugin_def)
  moreover have "initializeConfig W (ac_merged a) (fresh_runtime W (createPlugin W now)) = (configured_plugin W c now, [])"
    using assms(1) by (simp add: initializeConfig_def configured_plugin_def assms(2) validateConfig_def Let_def)
  ultimately show ?thesis by (simp add: activate_def reset_new)
qed

lemma complete_enabled:
  assumes "pc_enabled (lf_config lf)" "L = initializeTransport W a (lf\<lparr>lf_hookBridge := createHookBridge (lf_config lf)\<rparr>)"
  shows "\<exists>st. complete_activation W a lf =
    L\<lparr>lf_hooksBound := Suc (lf_hooksBound L), lf_statusTimer := st, lf_isInitialized := True\<rparr>"
proof (cases "isStatusTickerDisabled (pe_env W)")
  case True
  then show ?thesis
    using assms(1) by (intro exI [of _ "lf_statusTimer L"])
      (simp add: complete_activation_def registerHooks_def Let_def flip: assms(2))
next
  case False
  then show ?thesis
    using assms(1) by (intro exI [of _ "Some (st_tickIntervalMs (pc_status (lf_config L)))"])
      (simp add: complete_activation_def registerHooks_def startStatusTimer_def Let_def flip: assms(2))
qed

lemma activated:
  assumes "fst (validateConfig (pe_host W) c)" "pc_enabled c" "c = activation_config W (ac_merged a)"
  shows "active_inv W c (activate W a (createPlugin W now))"
proof -
  define lf where "lf = (configured_plugin W c now)\<lparr>lf_hookBridge := createHookBridge c\<rparr>"
  define s where "s = \<lparr> s_config = pc_transport c, s_runtimeId = lf_runtimeId lf, s_pid = pe_pid W, s_hostname = pe_hostname W \<rparr>"
  define lf1 where "lf1 = lf\<lparr>lf_managers := [(s, new_manager)], lf_transportManager := Some 0\<rparr>"
  have r: "role_inv W Follower lf1"
    by (simp add: lf1_def lf_def role_inv_def server_ok_def silent_def)
  let ?m = "start s (ac_acquired a) (ac_heartbeatOk a) new_manager"
  have "grows new_manager ?m" by simp
  from run_manager_grows [of lf1 s new_manager "\<lambda>s m. start s (ac_acquired a) (ac_heartbeatOk a) m" W, OF _ this]
  obtain xs where t: "initializeTransport W a lf = fold (manager_callback W) xs (lf1\<lparr>lf_managers := [(s, ?m)]\<rparr>)"
    and x: "role_after (m_role new_manager) xs = m_role ?m"
    by (auto simp: initializeTransport_def lf_def s_def lf1_def Let_def)
  have i: "role_inv W (m_role ?m) (initializeTransport W a lf)"
    unfolding t x [symmetric] by (rule callbacks_inv) (use r in \<open>simp add: new_manager_def\<close>)
  have "fixed_part (initializeTransport W a lf) = fixed_part (lf1\<lparr>lf_managers := [(s, ?m)]\<rparr>)"
    unfolding t by simp
  then have f: "fixed_part (initializeTransport W a lf) = (c, lf_isInitialized lf, Some 0, [(s, ?m)], [])"
    by (simp add: fixed_part_def lf1_def lf_def)
  define L where "L = initializeTransport W a lf"
  have "L = initializeTransport W a ((configured_plugin W c now)\<lparr>lf_hookBridge :=
      createHookBridge (lf_config (configured_plugin W c now))\<rparr>)" by (simp add: L_def lf_def)
  from complete_enabled [OF _ this] assms(2)
  have "\<exists>st. activate W a (createPlugin W now) =
      L\<lparr>lf_hooksBound := Suc (lf_hooksBound L), lf_statusTimer := st, lf_isInitialized := True\<rparr>"
    unfolding first_activation [OF assms(1,3)] by simp
  then obtain st where e: "activate W a (createPlugin W now) =
      L\<lparr>lf_hooksBound := Suc (lf_hooksBound L), lf_statusTimer := st, lf_isInitialized := True\<rparr>" by blast
  have "role_inv W (m_role ?m) (activate W a (createPlugin W now))"
  proof -
    have "role_inv W r (L\<lparr>lf_hooksBound := n, lf_statusTimer := st, lf_isInitialized := True\<rparr>) = role_inv W r L" for r n
      by (simp add: role_inv_def server_ok_def silent_def)
    then show ?thesis using i unfolding e L_def [symmetric] by simp
  qed
  moreover have "fixed_part (activate W a (createPlugin W now)) = (c, True, Some 0, [(s, ?m)], [])"
    using f unfolding e L_def [symmetric] by (simp add: fixed_part_def)
  moreover have "managed s ?m" by (rule managed_start)
  moreover have "s_config s = pc_transport c" by (simp add: s_def)
  ultimately show ?thesis unfolding active_inv_def by blast
qed

text \<open>
  C16. After an activation with a valid, enabled configuration and until the plugin is deactivated,
  whatever the transport manager, the server, the log file and the host do: the plugin's role is
  that of its manager; a follower holds neither lock nor relay server nor webhook queue nor log
  file, and a broadcast reaches no client; an owner holds the lock, serves the relay, has a queue
  exactly when webhooks are configured, and broadcasts unless that is disabled.
\<close>

theorem active_plugin_follows_role:
  assumes "c = activation_config W (ac_merged a)" "fst (validateConfig (pe_host W) c)" "pc_enabled c"
    and "list_all (\<lambda>op. op \<noteq> Deactivate) ops" "lf = fold (lifecycle_step W q) ops (activate W a (createPlugin W now))"
  shows "\<exists>s m. lf_managers lf = [(s, m)] \<and> lf_transportManager lf = Some 0 \<and> s_config s = pc_transport c \<and>
    (ps_isFollower (lf_state lf) \<longleftrightarrow> m_role m = Follower) \<and>
    (if m_role m = Follower
     then \<not> m_ownsLock m \<and> \<not> m_server m \<and> \<not> ps_hasQueue (lf_state lf) \<and> lf_eventFileLogger lf = None \<and>
       (\<forall>t p r ev. broadcast_to_clients t p r ev lf = lf)
     else m_ownsLock m \<and> m_server m \<and> ps_hasQueue (lf_state lf) = (pc_webhooks c \<noteq> []) \<and>
       lf_websocketEnabled lf = (\<not> isWebSocketDisabled (pe_env W)))"
proof -
  have "active_inv W c lf"
    unfolding assms(5) by (rule active_run [OF activated [OF assms(2,3,1)] assms(4)])
  then obtain s m where f: "fixed_part lf = (c, True, Some 0, [(s, m)], [])" "s_config s = pc_transport c"
    and m: "roles_ok s m" "\<not> m_stopped m" "role_inv W (m_role m) lf"
    unfolding active_inv_def managed_def manager_inv_def by blast
  show ?thesis
  proof (cases "m_role m")
    case Owner
    then show ?thesis
      using f m by (intro exI [of _ s] exI [of _ m]) (auto simp: fixed_part_def role_inv_def roles_ok_def split: if_splits)
  next
    case Follower
    then have "silent lf" using m(3) by (simp add: role_inv_def)
    then show ?thesis
      using Follower f m by (intro exI [of _ s] exI [of _ m])
        (simp add: fixed_part_def role_inv_def roles_ok_def to_clients_facts(6))
  qed
qed

section \<open>Who is served by the plugin's servers\<close>

definition hub_events_of :: "nat \<Rightarrow> lifecycle_op list \<Rightarrow> hub_op list" where
  "hub_events_of i ops = List.map_filter (\<lambda>op. case op of HubEvent j hop \<Rightarrow> if j = i then Some hop else None | _ \<Rightarrow> None) ops"

definition configured :: "process_env \<Rightarrow> lifecycle_op list \<Rightarrow> hub_options \<Rightarrow> bool" where
  "configured W ops opts \<longleftrightarrow>
     (\<exists>a. Activate a \<in> set ops \<and> opts = ws_options (pe_env W) (activation_config W (ac_merged a)))"

definition clients_ok :: "process_env \<Rightarrow> (string \<Rightarrow> string option) \<Rightarrow> lifecycle_op list \<Rightarrow> lifecycle \<Rightarrow> bool" where
  "clients_ok W q ops lf \<longleftrightarrow>
     (\<forall>i < length (lf_hubs lf). \<exists>opts. configured W ops opts \<and> access_inv q opts (lf_hubs lf ! i, hub_events_of i ops))"

text \<open>Once there is a manager, the configuration is that of an activation.\<close>

definition config_ok :: "process_env \<Rightarrow> lifecycle_op list \<Rightarrow> lifecycle \<Rightarrow> bool" where
  "config_ok W ops lf \<longleftrightarrow> (lf_managers lf \<noteq> [] \<longrightarrow> configured W ops (ws_options (pe_env W) (lf_config lf)))"

lemma access_more: "access_inv q opts (h, tr) \<Longrightarrow> set tr \<subseteq> set tr' \<Longrightarrow> access_inv q opts (h, tr')"
  unfolding access_inv_def by fast

lemma access_silent_op:
  assumes "access_inv q opts (h, tr)" "\<And>ws rq b. op \<noteq> OnConnection ws rq b"
  shows "access_inv q opts (hub_step q op h, tr)"
proof -
  have "access_inv q opts (hub_step q op h, tr @ [op])"
    using access_inv_step [OF assms(1), of op] by (simp add: traced_step_def)
  then show ?thesis using assms(2) [symmetric] by (simp add: access_inv_def)
qed

lemma access_called:
  assumes "access_inv q opts (h, tr)"
  shows "access_inv q opts (start_hub f h, tr)" "access_inv q opts (stop_hub h, tr)"
    "access_inv q opts (broadcast t p r ev h, tr)"
  using access_silent_op [OF assms, of "StartHub f"] access_silent_op [OF assms, of StopHub]
    access_silent_op [OF assms, of "Broadcast t p r ev"]
  by (simp_all add: hub_step_def)

lemma clients_update:
  assumes "clients_ok W q ops lf" "\<And>opts h tr. access_inv q opts (h, tr) \<Longrightarrow> access_inv q opts (f h, tr)"
  shows "clients_ok W q ops (update_hub i f lf)"
proof -
  have "\<exists>opts. configured W ops opts \<and> access_inv q opts (lf_hubs (update_hub i f lf) ! j, hub_events_of j ops)"
    if j: "j < length (lf_hubs lf)" for j
  proof -
    from assms(1) j obtain opts where oo: "configured W ops opts" "access_inv q opts (lf_hubs lf ! j, hub_events_of j ops)"
      unfolding clients_ok_def by blast
    then show ?thesis
      using assms(2) [OF oo(2)] j by (cases "i = j") (auto simp: update_hub_def intro!: exI [of _ opts])
  qed
  then show ?thesis by (simp add: clients_ok_def)
qed

lemma clients_same: "clients_ok W q ops lf \<Longrightarrow> lf_hubs lf' = lf_hubs lf \<Longrightarrow> clients_ok W q ops lf'"
  by (simp add: clients_ok_def)

lemma hubs_frame [simp]:
  "lf_hubs (release_queue lf) = lf_hubs lf" "lf_hubs (stopEventFileLogger lf) = lf_hubs lf"
  "lf_hubs (initializeEventFileLogger lf) = lf_hubs lf"
  by (simp_all add: release_queue_def stopEventFileLogger_def initializeEventFileLogger_def Let_def split: option.splits)

lemma clients_frame [simp]:
  "clients_ok W q ops (lf\<lparr>lf_state := v1\<rparr>) = clients_ok W q ops lf"
  "clients_ok W q ops (lf\<lparr>lf_websocketEnabled := v2\<rparr>) = clients_ok W q ops lf"
  "clients_ok W q ops (lf\<lparr>lf_broadcastServer := v3\<rparr>) = clients_ok W q ops lf"
  "clients_ok W q ops (lf\<lparr>lf_starts := v4\<rparr>) = clients_ok W q ops lf"
  "clients_ok W q ops (lf\<lparr>lf_managers := v5\<rparr>) = clients_ok W q ops lf"
  "clients_ok W q ops (lf\<lparr>lf_transportManager := v3\<rparr>) = clients_ok W q ops lf"
  "clients_ok W q ops (note_effect x lf) = clients_ok W q ops lf"
  "clients_ok W q ops (release_queue lf) = clients_ok W q ops lf"
  "clients_ok W q ops (stopEventFileLogger lf) = clients_ok W q ops lf"
  "clients_ok W q ops (initializeEventFileLogger lf) = clients_ok W q ops lf"
  by (simp_all add: clients_ok_def)

lemma clients_new:
  assumes "clients_ok W q ops lf" "configured W ops opts"
  shows "clients_ok W q ops (snd (getBroadcastServer opts lf))"
  using assms
  by (auto simp: clients_ok_def getBroadcastServer_def nth_append access_inv_def less_Suc_eq split: option.splits)

lemma clients_start:
  assumes "clients_ok W q ops lf" "configured W ops opts"
  shows "clients_ok W q ops (startBroadcastServer W opts lf)"
  using clients_new [OF assms] by (auto simp: startBroadcastServer_def split: prod.splits intro!: clients_update access_called)

lemma clients_stop: "clients_ok W q ops lf \<Longrightarrow> clients_ok W q ops (stopBroadcastServer lf)"
  by (auto simp: stopBroadcastServer_def Let_def split: option.splits intro!: clients_update access_called)

lemma clients_callback:
  assumes "clients_ok W q ops lf" "configured W ops (ws_options (pe_env W) (lf_config lf))"
  shows "clients_ok W q ops (manager_callback W x lf)"
  using assms
  by (cases x) (auto simp: manager_callback_def onRoleChange_def maybeStartWebSocketServer_def Let_def
      intro!: clients_stop clients_start)

lemma fixed_config: "fixed_part lf' = fixed_part lf \<Longrightarrow> lf_config lf' = lf_config lf \<and> lf_managers lf' = lf_managers lf"
  by (simp add: fixed_part_def)

lemma callback_config [simp]:
  "lf_config (manager_callback W x lf) = lf_config lf" "lf_managers (manager_callback W x lf) = lf_managers lf"
  "lf_config (fold (manager_callback W) xs lf) = lf_config lf" "lf_managers (fold (manager_callback W) xs lf) = lf_managers lf"
  using fixed_config [OF fixed_callback] fixed_config [OF fixed_callbacks] by auto

lemma clients_callbacks:
  "clients_ok W q ops lf \<Longrightarrow> configured W ops (ws_options (pe_env W) (lf_config lf)) \<Longrightarrow>
    clients_ok W q ops (fold (manager_callback W) xs lf)"
  by (induction xs arbitrary: lf) (simp_all add: clients_callback)

definition plugin_ok :: "process_env \<Rightarrow> (string \<Rightarrow> string option) \<Rightarrow> lifecycle_op list \<Rightarrow> lifecycle \<Rightarrow> bool" where
  "plugin_ok W q ops lf \<longleftrightarrow> clients_ok W q ops lf \<and> config_ok W ops lf"

lemma run_manager_ok: "plugin_ok W q ops lf \<Longrightarrow> plugin_ok W q ops (run_manager W i f lf)"
  by (cases "lf_managers lf = []")
    (auto simp: plugin_ok_def run_manager_def config_ok_def intro!: clients_callbacks split: prod.splits)

lemma plugin_ok_same:
  "plugin_ok W q ops lf \<Longrightarrow> lf_hubs lf' = lf_hubs lf \<Longrightarrow> lf_managers lf' = lf_managers lf \<Longrightarrow>
    lf_config lf' = lf_config lf \<Longrightarrow> plugin_ok W q ops lf'"
  by (simp add: plugin_ok_def clients_ok_def config_ok_def)

lemma kept_stop:
  "lf_config (stopBroadcastServer lf) = lf_config lf" "lf_managers (stopBroadcastServer lf) = lf_managers lf"
  using fixed_config [OF fixed_server(1)] by auto

lemma clients_stop_ok: "plugin_ok W q ops lf \<Longrightarrow> plugin_ok W q ops (stopBroadcastServer lf)"
  by (simp add: plugin_ok_def clients_stop config_ok_def kept_stop)

lemma kept_reset [simp]:
  "plugin_ok W q ops (release_queue lf) = plugin_ok W q ops lf" "plugin_ok W q ops (stopStatusTimer lf) = plugin_ok W q ops lf"
  "plugin_ok W q ops (stopEventFileLogger lf) = plugin_ok W q ops lf" "plugin_ok W q ops (note_effect x lf) = plugin_ok W q ops lf"
  "plugin_ok W q ops (lf\<lparr>lf_state := v1\<rparr>) = plugin_ok W q ops lf"
  "plugin_ok W q ops (lf\<lparr>lf_runtimeKind := v2\<rparr>) = plugin_ok W q ops lf"
  "plugin_ok W q ops (lf\<lparr>lf_transportManager := v3\<rparr>) = plugin_ok W q ops lf"
  "plugin_ok W q ops (lf\<lparr>lf_hookBridge := v4\<rparr>) = plugin_ok W q ops lf"
  "plugin_ok W q ops (lf\<lparr>lf_websocketEnabled := v4\<rparr>) = plugin_ok W q ops lf"
  "plugin_ok W q ops (lf\<lparr>lf_isInitialized := v4\<rparr>) = plugin_ok W q ops lf"
  "plugin_ok W q ops (lf\<lparr>lf_deactivating := v5\<rparr>) = plugin_ok W q ops lf"
  "plugin_ok W q ops (lf\<lparr>lf_broadcastServer := v3\<rparr>) = plugin_ok W q ops lf"
  "plugin_ok W q ops (registerHooks lf) = plugin_ok W q ops lf"
  "plugin_ok W q ops (startStatusTimer t lf) = plugin_ok W q ops lf"
  "plugin_ok W q ops (fresh_runtime W lf) = plugin_ok W q ops lf"
  by (simp_all add: plugin_ok_def clients_ok_def config_ok_def release_queue_def stopStatusTimer_def stopEventFileLogger_def
      note_effect_def registerHooks_def startStatusTimer_def fresh_runtime_def Let_def split: option.splits)

lemma reset_ok: "plugin_ok W q ops lf \<Longrightarrow> plugin_ok W q ops (resetState W lf)"
  by (simp add: resetState_def Let_def run_manager_ok split: option.splits)

lemma configured_ok:
  assumes "plugin_ok W q ops lf" "Activate a \<in> set ops"
  shows "plugin_ok W q ops (fst (initializeConfig W (ac_merged a) lf))"
  using assms by (auto simp: plugin_ok_def clients_ok_def config_ok_def initializeConfig_def configured_def Let_def)

lemma transport_ok:
  assumes "plugin_ok W q ops lf" "configured W ops (ws_options (pe_env W) (lf_config lf))"
  shows "plugin_ok W q ops (initializeTransport W a lf)"
  unfolding initializeTransport_def Let_def
  by (rule run_manager_ok) (use assms in \<open>simp add: plugin_ok_def clients_ok_def config_ok_def\<close>)

lemma completed_ok:
  assumes "plugin_ok W q ops lf" "configured W ops (ws_options (pe_env W) (lf_config lf))"
  shows "plugin_ok W q ops (complete_activation W a lf)"
  using assms by (auto simp: complete_activation_def Let_def intro!: transport_ok clients_stop_ok)

lemma activate_ok:
  assumes "plugin_ok W q ops lf" "Activate a \<in> set ops"
  shows "plugin_ok W q ops (activate W a lf)"
proof -
  define lf1 where "lf1 = fst (initializeConfig W (ac_merged a) (fresh_runtime W (resetState W lf)))"
  have ok: "plugin_ok W q ops lf1" unfolding lf1_def by (rule configured_ok) (simp_all add: assms reset_ok)
  have "configured W ops (ws_options (pe_env W) (lf_config lf1))"
    using assms(2) by (auto simp: lf1_def initializeConfig_def configured_def Let_def)
  then show ?thesis
    using ok assms(1) unfolding activate_def lf1_def
    by (auto split: prod.splits intro!: completed_ok)
qed

lemma hub_event_ok:
  assumes "plugin_ok W q ops lf"
  shows "plugin_ok W q (ops @ [HubEvent i hop]) (hub_event q i hop lf)"
proof -
  let ?ops = "ops @ [HubEvent i hop]"
  have more: "access_inv q opts (h, hub_events_of j ?ops)" if "access_inv q opts (h, hub_events_of j ops)" for opts h j
    by (rule access_more [OF that]) (auto simp: hub_events_of_def List.map_filter_def)
  have c: "configured W ops opts \<Longrightarrow> configured W ?ops opts" for opts by (auto simp: configured_def)
  have stepped: "access_inv q opts (hub_step q hop h, hub_events_of i ?ops)" if "access_inv q opts (h, hub_events_of i ops)" for opts h
    using access_inv_step [OF that, of hop] by (simp add: traced_step_def hub_events_of_def List.map_filter_def)
  have "\<exists>opts. configured W ?ops opts \<and>
      access_inv q opts (lf_hubs (update_hub i (hub_step q hop) lf) ! j, hub_events_of j ?ops)"
    if j: "j < length (lf_hubs lf)" for j
  proof -
    from assms j obtain opts where oo: "configured W ops opts" "access_inv q opts (lf_hubs lf ! j, hub_events_of j ops)"
      unfolding plugin_ok_def clients_ok_def by blast
    show ?thesis
      using c [OF oo(1)] more [OF oo(2)] stepped [of opts "lf_hubs lf ! j"] oo(2) j
      by (cases "i = j") (auto simp: update_hub_def intro!: exI [of _ opts])
  qed
  then have u: "plugin_ok W q ?ops (update_hub i (hub_step q hop) lf)"
    using assms c by (auto simp: plugin_ok_def clients_ok_def config_ok_def)
  have s: "plugin_ok W q ?ops lf"
    using assms more c unfolding plugin_ok_def clients_ok_def config_ok_def by blast
  show ?thesis using u s by (auto simp: hub_event_def Let_def split: hub_op.splits)
qed

lemma plugin_ok_more:
  assumes "plugin_ok W q ops lf"
  shows "plugin_ok W q (ops @ [op]) lf"
proof -
  have "access_inv q opts (h, hub_events_of j (ops @ [op]))" if "access_inv q opts (h, hub_events_of j ops)" for opts h j
    by (rule access_more [OF that]) (auto simp: hub_events_of_def List.map_filter_def)
  moreover have "configured W ops opts \<Longrightarrow> configured W (ops @ [op]) opts" for opts by (auto simp: configured_def)
  ultimately show ?thesis using assms unfolding plugin_ok_def clients_ok_def config_ok_def by blast
qed

lemma lifecycle_step_ok:
  assumes "plugin_ok W q ops lf"
  shows "plugin_ok W q (ops @ [op]) (lifecycle_step W q op lf)"
proof -
  note ok = plugin_ok_more [OF assms, of op]
  show ?thesis
  proof (cases op)
    case (Activate a)
    then show ?thesis using ok by (simp add: activate_ok)
  next
    case (HubEvent i hop)
    then show ?thesis using hub_event_ok [OF assms] by simp
  next
    case (ToClients t p r ev)
    then show ?thesis
      using ok by (auto simp: broadcast_to_clients_def plugin_ok_def config_ok_def intro!: clients_update access_called
          split: option.splits)
  next
    case LoggerStartFails
    then show ?thesis using plugin_ok_same [OF ok] by (simp add: logger_start_failed_def)
  qed (use ok in \<open>auto simp: deactivate_def deactivate_continues_def broadcastEvent_def Let_def split: option.splits list.splits
      intro!: run_manager_ok clients_stop_ok reset_ok\<close>)
qed

interpretation lifecycle_clients: machine "\<lambda>op (lf, ops). (lifecycle_step W q op lf, ops @ [op])"
    "\<lambda>(lf, ops). plugin_ok W q ops lf" for W q
  by unfold_locales (auto simp: lifecycle_step_ok)

lemma fold_lifecycle:
  "fold (\<lambda>op (lf, ops). (lifecycle_step W q op lf, ops @ [op])) ops (lf, tr) = (fold (lifecycle_step W q) ops lf, tr @ ops)"
  by (induction ops arbitrary: lf tr) simp_all

text \<open>
  C17. Through activations, deactivations, changes of role and restarts of the server in any order:
  a client that any server of the plugin has greeted or sent an event to had made a connection
  request to that server that the configuration of some activation of the plugin allows.
\<close>

theorem plugin_clients_authorized:
  assumes "lf = fold (lifecycle_step W q) ops (createPlugin W now)" "i < length (lf_hubs lf)"
    and "SentTo ws t \<in> set (hb_out (lf_hubs lf ! i)) \<or> WelcomeTo ws \<in> set (hb_out (lf_hubs lf ! i))"
  shows "\<exists>a rq b. Activate a \<in> set ops \<and> HubEvent i (OnConnection ws rq b) \<in> set ops \<and>
    allowed q (ws_options (pe_env W) (activation_config W (ac_merged a))) rq"
proof -
  have "plugin_ok W q [] (createPlugin W now)"
    by (simp add: plugin_ok_def clients_ok_def config_ok_def createPlugin_def)
  then have "plugin_ok W q ops lf"
    using lifecycle_clients.inv_run [of W q "(createPlugin W now, [])" ops] by (simp add: fold_lifecycle assms(1))
  then obtain a where a: "Activate a \<in> set ops"
    and inv: "access_inv q (ws_options (pe_env W) (activation_config W (ac_merged a))) (lf_hubs lf ! i, hub_events_of i ops)"
    using assms(2) unfolding plugin_ok_def clients_ok_def configured_def by blast
  have "ws \<in> receivers (lf_hubs lf ! i)" using assms(3) by (auto simp: receivers_def)
  with inv obtain rq b where "OnConnection ws rq b \<in> set (hub_events_of i ops)"
    and al: "allowed q (ws_options (pe_env W) (activation_config W (ac_merged a))) rq"
    unfolding access_inv_def by blast
  then have "HubEvent i (OnConnection ws rq b) \<in> set ops"
    by (auto simp: hub_events_of_def List.map_filter_def split: lifecycle_op.splits if_splits)
  with a al show ?thesis by blast
qed

section \<open>The automatic mode\<close>

text \<open>The plugin resolves the automatic mode before it makes a manager.\<close>

lemma activation_mode: "tc_mode (pc_transport (activation_config W merged)) \<noteq> ''auto''"
  by (simp add: activation_config_def resolveAutoTransportMode_def Let_def)

text \<open>
  C18. In the automatic mode a process that is not the gateway stays a follower until it is
  deactivated: whatever becomes of the owner, its plugin never takes the lock, serves the relay or
  delivers to webhooks, the log file or WebSocket clients.
\<close>

theorem auto_agent_stays_follower:
  assumes "c = activation_config W (ac_merged a)" "fst (validateConfig (pe_host W) c)" "pc_enabled c"
    and "tc_mode (pc_transport (ac_merged a)) = ''auto''" "runtime_kind_of W \<noteq> Gateway"
    and "list_all (\<lambda>op. op \<noteq> Deactivate) ops" "lf = fold (lifecycle_step W q) ops (activate W a (createPlugin W now))"
  shows "ps_isFollower (lf_state lf) \<and> \<not> ps_hasQueue (lf_state lf) \<and> lf_eventFileLogger lf = None \<and>
    broadcast_to_clients t p r ev lf = lf \<and> (\<forall>(s, m) \<in> set (lf_managers lf). \<not> m_ownsLock m \<and> \<not> m_server m)"
proof -
  have "tc_mode (pc_transport c) = ''follower''"
    using assms(4,5) by (simp add: assms(1) activation_config_def resolveRuntimeConfig_def resolveAutoTransportMode_def Let_def)
  moreover have "active_inv W c lf"
    unfolding assms(7) by (rule active_run [OF activated [OF assms(2,3,1)] assms(6)])
  ultimately obtain s m where f: "fixed_part lf = (c, True, Some 0, [(s, m)], [])" "m_role m = Follower"
    and m: "roles_ok s m" "role_inv W (m_role m) lf"
    unfolding active_inv_def managed_def manager_inv_def bound_follower_def by auto
  then have "silent lf" by (simp add: role_inv_def)
  then show ?thesis
    using f m by (simp add: fixed_part_def role_inv_def roles_ok_def to_clients_facts(6))
qed

section \<open>Deactivation\<close>

definition role_changes :: "effect list \<Rightarrow> effect list" where
  "role_changes xs = filter (\<lambda>x. case x of RoleChange _ \<Rightarrow> True | _ \<Rightarrow> False) xs"

text \<open>A stopped manager: \<open>settled\<close> says that it reports no change of role any more.\<close>

definition settled :: "settings \<Rightarrow> manager \<Rightarrow> bool" where
  "settled s m \<longleftrightarrow> m_stopped m \<and> tc_mode (s_config s) \<noteq> ''auto''"

lemma changes_emit [simp]:
  "role_changes (xs @ ys) = role_changes xs @ role_changes ys" "role_changes [] = []"
  "role_changes [OwnerEvent ev] = []" "role_changes [RelayAcked ev] = []" "role_changes [Shifted ev] = []"
  "role_changes [HeartbeatWritten] = []" "role_changes [LockReleased] = []" "role_changes [ServerClosed] = []"
  by (simp_all add: role_changes_def)

lemma changes_parts [simp]:
  "role_changes (m_trace (processOwnerEvent s now ev r m)) = role_changes (m_trace m)"
  "role_changes (m_trace (shift_pending m)) = role_changes (m_trace m)"
  "role_changes (m_trace (flush_finally s m)) = role_changes (m_trace m)"
  "role_changes (m_trace (scheduleFlush d m)) = role_changes (m_trace m)"
  "m_stopped m \<Longrightarrow> role_changes (m_trace (flush_loop s now m)) = role_changes (m_trace m)"
proof -
  have f: "role_changes (m_trace (scheduleFlush d m)) = role_changes (m_trace m)" for m d
    by (simp add: scheduleFlush_def)
  have g: "role_changes (m_trace (flush_finally s m)) = role_changes (m_trace m)" for m
    by (simp add: flush_finally_def f Let_def)
  show "role_changes (m_trace (processOwnerEvent s now ev r m)) = role_changes (m_trace m)"
    "role_changes (m_trace (shift_pending m)) = role_changes (m_trace m)"
    by (simp_all add: processOwnerEvent_def shift_pending_def split: prod.splits bool.splits list.splits)
  show "role_changes (m_trace (flush_finally s m)) = role_changes (m_trace m)"
    "role_changes (m_trace (scheduleFlush d m)) = role_changes (m_trace m)"
    "m_stopped m \<Longrightarrow> role_changes (m_trace (flush_loop s now m)) = role_changes (m_trace m)"
    using f g by (simp_all add: flush_loop_def split: list.splits)
qed

lemma settled_step:
  "settled s m \<Longrightarrow> \<not> manager_called op \<Longrightarrow> role_changes (m_trace (manager_step s op m)) = role_changes (m_trace m)"
  by (cases op)
    (auto simp: settled_def manager_called_def onRelayEvent_def flushPendingFollowerEvents_def relay_settled_def
      owner_settled_def ownerRecoveryFires_def heartbeatFires_def writeHeartbeat_def handleOwnerFailure_def stop_finish_def
      releaseLock_def Let_def split: flush_pc.splits)

lemma settled_stop:
  "role_changes (m_trace (stop m)) = role_changes (m_trace m)" "m_stopped (stop m)"
  by (simp_all add: stop_def stop_finish_def releaseLock_def Let_def)

lemma unchanged_callbacks: "role_changes xs = [] \<Longrightarrow> \<exists>tr. fold (manager_callback W) xs lf = lf\<lparr>lf_trace := tr\<rparr>"
proof (induction xs arbitrary: lf)
  case Nil
  show ?case by (intro exI [of _ "lf_trace lf"]) simp
next
  case (Cons x xs)
  then have x: "role_changes xs = []" "\<And>r. x \<noteq> RoleChange r"
    by (auto simp: role_changes_def split: if_splits)
  then have e: "manager_callback W x lf = lf\<lparr>lf_trace := lf_trace (manager_callback W x lf)\<rparr>"
    by (cases x) (use x(2) in \<open>auto simp: manager_callback_def note_effect_def\<close>)
  from Cons.IH [OF x(1)] obtain tr
    where "fold (manager_callback W) xs (manager_callback W x lf) = (manager_callback W x lf)\<lparr>lf_trace := tr\<rparr>" by blast
  also have "\<dots> = lf\<lparr>lf_trace := tr\<rparr>" by (subst e) simp
  finally show ?case by (intro exI [of _ tr]) simp
qed

lemma unchanged_manager:
  assumes "\<And>s m. (s, m) \<in> set (lf_managers lf) \<Longrightarrow> grows m (f s m) \<and> role_changes (m_trace (f s m)) = role_changes (m_trace m)"
  shows "\<exists>ms tr. run_manager W i f lf = lf\<lparr>lf_managers := ms, lf_trace := tr\<rparr> \<and>
    set ms \<subseteq> set (lf_managers lf) \<union> (\<lambda>(s, m). (s, f s m)) ` set (lf_managers lf)"
proof (cases "i < length (lf_managers lf)")
  case True
  obtain s m where sm: "lf_managers lf ! i = (s, m)" by (cases "lf_managers lf ! i")
  then have mem: "(s, m) \<in> set (lf_managers lf)" using True by (metis nth_mem)
  with assms obtain xs where xs: "m_trace (f s m) = m_trace m @ xs" "role_changes (m_trace (f s m)) = role_changes (m_trace m)"
    unfolding grows_def by blast
  then have "role_changes xs = []" by simp
  from unchanged_callbacks [OF this, of W "lf\<lparr>lf_managers := (lf_managers lf)[i := (s, f s m)]\<rparr>"]
  obtain tr where t: "fold (manager_callback W) xs (lf\<lparr>lf_managers := (lf_managers lf)[i := (s, f s m)]\<rparr>) =
      lf\<lparr>lf_managers := (lf_managers lf)[i := (s, f s m)], lf_trace := tr\<rparr>" by auto
  have "set ((lf_managers lf)[i := (s, f s m)]) \<subseteq> insert (s, f s m) (set (lf_managers lf))"
    by (rule set_update_subset_insert)
  moreover have "(s, f s m) \<in> (\<lambda>(s, m). (s, f s m)) ` set (lf_managers lf)" using mem by force
  ultimately have "set ((lf_managers lf)[i := (s, f s m)]) \<subseteq>
      set (lf_managers lf) \<union> (\<lambda>(s, m). (s, f s m)) ` set (lf_managers lf)" by blast
  then show ?thesis
    using True t by (intro exI [of _ "(lf_managers lf)[i := (s, f s m)]"] exI [of _ tr]) (simp add: run_manager_def sm xs(1))
next
  case False
  then show ?thesis
    by (intro exI [of _ "lf_managers lf"] exI [of _ "lf_trace lf"]) (simp add: run_manager_def)
qed

text \<open>From the call of \<open>deactivate\<close> on; \<open>lf_deactivating\<close> is empty when no deactivation waits any more.\<close>

definition winding_down :: "process_env \<Rightarrow> lifecycle \<Rightarrow> bool" where
  "winding_down W lf \<longleftrightarrow>
     (\<forall>(s, m) \<in> set (lf_managers lf). settled s m) \<and> lf_transportManager lf = None \<and> server_ok lf \<and>
     (lf_deactivating lf = [] \<longrightarrow> \<not> lf_isInitialized lf \<and> role_inv W Follower lf)"

lemma winding_manager:
  assumes "winding_down W lf" "\<not> manager_called op"
  shows "winding_down W (run_manager W i (\<lambda>s. manager_step s op) lf)"
proof -
  have s: "settled s m" if "(s, m) \<in> set (lf_managers lf)" for s m
    using assms(1) that unfolding winding_down_def by blast
  have "op \<noteq> Stop" using assms(2) by (auto simp: manager_called_def)
  then have k: "settled s (manager_step s op m)" if "settled s m" for s m
    using that by (simp add: settled_def stopped_step)
  have "grows m (manager_step s op m) \<and> role_changes (m_trace (manager_step s op m)) = role_changes (m_trace m)"
    if "(s, m) \<in> set (lf_managers lf)" for s m
    using s [OF that] assms(2) by (simp add: grows_step settled_step)
  from unchanged_manager [of lf "\<lambda>s. manager_step s op" W i, OF this]
  obtain ms tr where r: "run_manager W i (\<lambda>s. manager_step s op) lf = lf\<lparr>lf_managers := ms, lf_trace := tr\<rparr>"
    and ms: "set ms \<subseteq> set (lf_managers lf) \<union> (\<lambda>(s, m). (s, manager_step s op m)) ` set (lf_managers lf)" by blast
  have "\<forall>(s, m) \<in> set ms. settled s m" using ms s k by fastforce
  moreover have "role_inv W Follower (lf\<lparr>lf_managers := ms, lf_trace := tr\<rparr>) = role_inv W Follower lf"
    by (simp add: role_inv_def server_ok_def silent_def)
  ultimately show ?thesis
    using assms(1) unfolding r winding_down_def by (simp add: server_ok_def)
qed

lemma winding_hub:
  assumes "winding_down W lf" "fixed_part lf' = fixed_part lf" "lf_state lf' = lf_state lf"
    "lf_eventFileLogger lf' = lf_eventFileLogger lf \<or> lf_eventFileLogger lf' = None"
    "server_ok lf \<Longrightarrow> server_ok lf'" "silent lf \<Longrightarrow> silent lf'"
  shows "winding_down W lf'"
  using assms by (auto simp: winding_down_def role_inv_def fixed_part_def)

lemma reset_idle:
  assumes "lf_transportManager lf = None"
  shows "lf_managers (resetState W lf) = lf_managers lf" "lf_hubs (resetState W lf) = lf_hubs lf"
    "lf_broadcastServer (resetState W lf) = lf_broadcastServer lf" "lf_transportManager (resetState W lf) = None"
    "lf_deactivating (resetState W lf) = lf_deactivating lf" "lf_eventFileLogger (resetState W lf) = None"
    "ps_isFollower (lf_state (resetState W lf))" "\<not> ps_hasQueue (lf_state (resetState W lf))"
    "lf_hooksBound (resetState W lf) = lf_hooksBound lf"
  using assms
  by (simp_all add: resetState_def stopStatusTimer_def release_queue_def stopEventFileLogger_def cleared_def Let_def
      split: option.splits)

lemma winding_continues:
  assumes "winding_down W lf"
  shows "winding_down W (deactivate_continues W lf)"
proof (cases "lf_deactivating lf")
  case (Cons mi rest)
  show ?thesis
  proof (cases "manager_stopped lf mi")
    case True
    define lf1 where "lf1 = (resetState W (lf\<lparr>lf_deactivating := rest\<rparr>))\<lparr>lf_websocketEnabled := True, lf_isInitialized := False\<rparr>"
    have t: "lf_transportManager (lf\<lparr>lf_deactivating := rest\<rparr>) = None" using assms by (simp add: winding_down_def)
    have l: "lf_managers lf1 = lf_managers lf" "lf_transportManager lf1 = None" "server_ok lf1" "\<not> lf_isInitialized lf1"
      "ps_isFollower (lf_state lf1)" "\<not> ps_hasQueue (lf_state lf1)" "lf_eventFileLogger lf1 = None"
      using assms reset_idle [OF t] by (simp_all add: lf1_def winding_down_def server_ok_def)
    have "fixed_part (stopBroadcastServer lf1) = fixed_part lf1" by simp
    then have "winding_down W (stopBroadcastServer lf1)"
      using assms l stopped_server [OF l(3)] by (simp add: winding_down_def role_inv_def fixed_part_def)
    then show ?thesis using True Cons by (simp add: deactivate_continues_def lf1_def)
  qed (use assms Cons in \<open>simp add: deactivate_continues_def\<close>)
qed (use assms in \<open>simp add: deactivate_continues_def\<close>)

lemma winding_step:
  assumes w: "winding_down W lf" and "\<forall>a. op \<noteq> Activate a"
  shows "winding_down W (lifecycle_step W q op lf)"
proof (cases op)
  case Deactivate
  then show ?thesis using w by (simp add: deactivate_def winding_down_def server_ok_def Let_def)
next
  case DeactivateContinues
  then show ?thesis using winding_continues [OF w] by simp
next
  case (EventBroadcast ev)
  have "winding_down W (note_effect (Transported ev) lf)"
    by (rule winding_hub [OF w]) simp_all
  then show ?thesis using w by (simp add: EventBroadcast broadcastEvent_def winding_down_def)
next
  case (ManagerStep i mop)
  then show ?thesis using w by (simp add: winding_manager)
next
  case (HubEvent i hop)
  have "winding_down W (hub_event q i hop lf)"
    by (rule winding_hub [OF w]) (simp_all add: hub_event_facts hub_event_silent)
  then show ?thesis by (simp add: HubEvent)
next
  case (ToClients t p r ev)
  have "winding_down W (broadcast_to_clients t p r ev lf)"
    by (rule winding_hub [OF w]) (simp_all add: to_clients_facts)
  then show ?thesis by (simp add: ToClients)
next
  case LoggerStartFails
  have "winding_down W (logger_start_failed lf)"
    by (rule winding_hub [OF w]) (simp_all add: logger_start_failed_def fixed_part_def server_ok_def silent_def)
  then show ?thesis by (simp add: LoggerStartFails)
qed (use assms in simp)

lemma winding_run:
  "winding_down W lf \<Longrightarrow> list_all (\<lambda>op. \<forall>a. op \<noteq> Activate a) ops \<Longrightarrow> winding_down W (fold (lifecycle_step W q) ops lf)"
  by (induction ops arbitrary: lf) (simp_all add: winding_step)

lemma winding_start:
  assumes "active_inv W c lf" "tc_mode (pc_transport c) \<noteq> ''auto''"
  shows "winding_down W (deactivate W lf)"
proof -
  from assms(1) obtain s m where a: "fixed_part lf = (c, True, Some 0, [(s, m)], [])" "s_config s = pc_transport c"
    "role_inv W (m_role m) lf" unfolding active_inv_def by blast
  define lf1 where "lf1 = lf\<lparr>lf_transportManager := None, lf_deactivating := [Some 0]\<rparr>"
  have d: "deactivate W lf = run_manager W 0 (\<lambda>s. stop) lf1"
    using a(1) by (simp add: deactivate_def lf1_def fixed_part_def Let_def)
  have ms: "lf_managers lf1 = [(s, m)]" using a(1) by (simp add: lf1_def fixed_part_def)
  have "role_changes (drop (length (m_trace m)) (m_trace (stop m))) = []"
  proof -
    have "grows m (stop m)" by simp
    then obtain xs where "m_trace (stop m) = m_trace m @ xs" unfolding grows_def by blast
    then show ?thesis using settled_stop(1) [of m] by simp
  qed
  from unchanged_callbacks [OF this, of W "lf1\<lparr>lf_managers := [(s, stop m)]\<rparr>"]
  obtain tr where "deactivate W lf = lf1\<lparr>lf_managers := [(s, stop m)], lf_trace := tr\<rparr>"
    by (auto simp: d run_manager_def ms)
  then show ?thesis
    using a assms(2) by (simp add: winding_down_def lf1_def settled_def settled_stop role_inv_def server_ok_def)
qed

text \<open>
  C19. When the deactivation of an active plugin is over and until it is activated again, it holds no
  transport manager, webhook queue or log file, is a follower, and no broadcast reaches a WebSocket client,
  whatever timers, sockets and relays of the stopped manager and server are still to come. The hooks of the
  host stay bound, however: an event that they report goes past the manager straight to \<open>transportEvent\<close>, which
  posts it to the webhooks without a queue.
\<close>

theorem deactivated_plugin_is_quiet:
  assumes "c = activation_config W (ac_merged a)" "fst (validateConfig (pe_host W) c)" "pc_enabled c"
    and "list_all (\<lambda>op. op \<noteq> Deactivate) ops" "list_all (\<lambda>op. \<forall>a. op \<noteq> Activate a) later"
    and "lf = fold (lifecycle_step W q) (ops @ Deactivate # later) (activate W a (createPlugin W now))"
    and "lf_deactivating lf = []"
  shows "\<not> lf_isInitialized lf \<and> lf_transportManager lf = None \<and> ps_isFollower (lf_state lf) \<and>
    \<not> ps_hasQueue (lf_state lf) \<and> lf_eventFileLogger lf = None \<and> broadcast_to_clients t p r v lf = lf \<and>
    broadcastEvent W ev lf = lf\<lparr>lf_trace := lf_trace lf @ [Transported ev]\<rparr>"
proof -
  have "active_inv W c (fold (lifecycle_step W q) ops (activate W a (createPlugin W now)))"
    by (rule active_run [OF activated [OF assms(2,3,1)] assms(4)])
  then have "winding_down W (deactivate W (fold (lifecycle_step W q) ops (activate W a (createPlugin W now))))"
    by (rule winding_start) (simp add: assms(1) activation_mode)
  from winding_run [OF this assms(5)] have "winding_down W lf" by (simp add: assms(6))
  then have "\<not> lf_isInitialized lf" "lf_transportManager lf = None" "role_inv W Follower lf"
    using assms(7) by (simp_all add: winding_down_def)
  then show ?thesis by (simp add: role_inv_def to_clients_facts(6) broadcastEvent_def note_effect_def)
qed

section \<open>Activations that go astray\<close>

text \<open>
  A second activation of a plugin that its configuration disables binds the hooks, and with no
  transport manager their events are delivered at once.
\<close>

lemma disabled_plugin_delivers:
  assumes "c = activation_config W (ac_merged a)" "fst (validateConfig (pe_host W) c)" "\<not> pc_enabled c"
    and "lf = activate W b (activate W a (createPlugin W now))"
  shows "\<not> pc_enabled (lf_config lf) \<and> lf_hooksBound lf = 1 \<and> lf_trace (broadcastEvent W ev lf) = [Transported ev]"
proof -
  define lf1 where "lf1 = activate W a (createPlugin W now)"
  have "lf_isInitialized lf1 \<and> lf_config lf1 = c \<and> lf_hooksBound lf1 = 0 \<and> lf_transportManager lf1 = None \<and> lf_trace lf1 = []"
    using assms(3) unfolding lf1_def first_activation [OF assms(2,1)]
    by (simp add: complete_activation_def stopBroadcastServer_def Let_def)
  moreover have "lf = activate W b lf1" by (simp only: assms(4) lf1_def)
  ultimately show ?thesis
    using assms(3) by (simp add: activate_def registerHooks_def broadcastEvent_def note_effect_def)
qed

text \<open>
  A process that activates the plugin while its deactivation waits for the manager is left with the
  hooks bound and the plugin deactivated.
\<close>

lemma follower_stops:
  assumes "active_inv W c lf" "tc_mode (pc_transport c) = ''follower''"
  shows "\<exists>s m. deactivate W lf = lf\<lparr>lf_transportManager := None, lf_deactivating := [Some 0], lf_managers := [(s, stop m)]\<rparr> \<and>
    \<not> m_stopWaits (stop m)" "lf_isInitialized lf"
proof -
  from assms obtain s m where a: "fixed_part lf = (c, True, Some 0, [(s, m)], [])" "roles_ok s m" "m_role m = Follower"
    unfolding active_inv_def managed_def manager_inv_def bound_follower_def by auto
  then have m: "\<not> m_server m" "\<not> m_ownsLock m" "\<not> m_stopWaits m" by (simp_all add: roles_ok_def)
  then have "m_trace (stop m) = m_trace m" "\<not> m_stopWaits (stop m)"
    by (simp_all add: stop_def stop_finish_def Let_def)
  then show "\<exists>s m. deactivate W lf = lf\<lparr>lf_transportManager := None, lf_deactivating := [Some 0], lf_managers := [(s, stop m)]\<rparr> \<and>
    \<not> m_stopWaits (stop m)"
    using a(1) by (intro exI [of _ s] exI [of _ m]) (simp add: deactivate_def fixed_part_def run_manager_def Let_def)
  show "lf_isInitialized lf" using a(1) by (simp add: fixed_part_def)
qed

lemma stop_keeps [simp]:
  "lf_deactivating (stopBroadcastServer lf) = lf_deactivating lf" "lf_isInitialized (stopBroadcastServer lf) = lf_isInitialized lf"
  "lf_hooksBound (stopBroadcastServer lf) = lf_hooksBound lf"
  by (simp_all add: stopBroadcastServer_def Let_def split: option.splits)

lemma deactivation_ends:
  assumes "lf_deactivating lf = [mi]" "manager_stopped lf mi" "lf_transportManager lf = None"
  shows "lf_deactivating (deactivate_continues W lf) = []" "\<not> lf_isInitialized (deactivate_continues W lf)"
    "lf_hooksBound (deactivate_continues W lf) = lf_hooksBound lf"
  using assms reset_idle [of "lf\<lparr>lf_deactivating := []\<rparr>" W] by (simp_all add: deactivate_continues_def)

lemma follower_deactivation_ends:
  assumes "active_inv W c lf" "tc_mode (pc_transport c) = ''follower''"
  shows "lf_deactivating (deactivate_continues W (deactivate W lf)) = []"
proof -
  obtain s m where d: "deactivate W lf = lf\<lparr>lf_transportManager := None, lf_deactivating := [Some 0], lf_managers := [(s, stop m)]\<rparr>"
    and w: "\<not> m_stopWaits (stop m)" using follower_stops(1) [OF assms] by blast
  show ?thesis by (rule deactivation_ends(1) [of _ "Some 0"]) (simp_all add: d w manager_stopped_def)
qed

lemma activation_during_deactivation_lost:
  assumes "active_inv W c lf" "tc_mode (pc_transport c) = ''follower''"
    and "lf' = deactivate_continues W (activate W b (deactivate W lf))"
  shows "\<not> lf_isInitialized lf' \<and> lf_hooksBound lf' = Suc (lf_hooksBound lf)"
proof -
  obtain s m where d: "deactivate W lf = lf\<lparr>lf_transportManager := None, lf_deactivating := [Some 0], lf_managers := [(s, stop m)]\<rparr>"
    and w: "\<not> m_stopWaits (stop m)" using follower_stops(1) [OF assms(1,2)] by blast
  define lf1 where "lf1 = registerHooks (deactivate W lf)"
  have "lf' = deactivate_continues W lf1"
    using follower_stops(2) [OF assms(1,2)] by (simp add: assms(3) lf1_def activate_def d)
  moreover have "lf_deactivating lf1 = [Some 0]" "manager_stopped lf1 (Some 0)" "lf_transportManager lf1 = None"
    "lf_hooksBound lf1 = Suc (lf_hooksBound lf)"
    using w by (simp_all add: lf1_def registerHooks_def d manager_stopped_def)
  ultimately show ?thesis using deactivation_ends [of lf1 "Some 0" W] by simp
qed

section \<open>Sample runs\<close>

definition agent_process :: process_env where
  "agent_process =
     \<lparr> pe_env = (\<lambda>n. None), pe_title = ''openclaw-agent'', pe_argv = [], pe_host = sample_host,
       pe_platform = sample_platform, pe_uuid = show_nat, pe_pid = 7, pe_hostname = ''host'', pe_toISO = show_int,
       pe_localeCompare = (\<lambda>x y. True), pe_starts = (\<lambda>n p. Opened) \<rparr>"

definition gateway_process :: process_env where
  "gateway_process = agent_process\<lparr>pe_title := ''openclaw-gateway''\<rparr>"

definition activated_with :: "TransportLockAcquireResult \<Rightarrow> activation" where
  "activated_with r = \<lparr> ac_merged = DEFAULT_CONFIG, ac_acquired = r, ac_heartbeatOk = True \<rparr>"

definition failed_relay :: "lifecycle_op list" where
  "failed_relay = [EventBroadcast sample_event, ManagerStep 0 (RetryTimerFires 0), ManagerStep 0 (RelaySettled 0 False Acquired True)]"

definition any_client :: ws_request where
  "any_client =
     \<lparr> wr_origin = None, wr_remoteAddress = None, wr_pluginToken = None, wr_authorization = None, wr_url = None \<rparr>"

definition served :: "lifecycle_op list" where
  "served = [Activate (activated_with Acquired), HubEvent 0 (OnListening 0 1), HubEvent 0 (OnConnection 5 any_client True)]"

lemma sample_config:
  "fst (validateConfig (pe_host agent_process) (activation_config agent_process DEFAULT_CONFIG))"
  by code_simp

lemma sample_modes:
  "pc_enabled (activation_config agent_process DEFAULT_CONFIG)" "tc_mode (pc_transport DEFAULT_CONFIG) = ''auto''"
  "runtime_kind_of agent_process \<noteq> Gateway"
proof -
  show m: "tc_mode (pc_transport DEFAULT_CONFIG) = ''auto''" by (simp add: DEFAULT_CONFIG_def default_transport_def)
  show "pc_enabled (activation_config agent_process DEFAULT_CONFIG)"
    by (simp add: activation_config_def resolveRuntimeConfig_def Let_def DEFAULT_CONFIG_def)
  show "runtime_kind_of agent_process \<noteq> Gateway" by code_simp
qed

lemma sample_merged: "ac_merged (activated_with r) = DEFAULT_CONFIG"
  by (simp add: activated_with_def)

lemma sample_relay: "list_all (\<lambda>op. op \<noteq> Deactivate) failed_relay"
  by (simp add: failed_relay_def)

lemma mode_still_valid:
  assumes "fst (validateConfig h c)" "m = ''owner'' \<or> m = ''follower''"
  shows "fst (validateConfig h (c\<lparr>pc_transport := (pc_transport c)\<lparr>tc_mode := m\<rparr>\<rparr>))"
  using assms by (auto simp: validateConfig_def Let_def validate_transport_def validate_delivery_def validate_status_def
      validate_outputs_def validate_security_def)

lemma gateway_config:
  "activation_config gateway_process DEFAULT_CONFIG =
     (activation_config agent_process DEFAULT_CONFIG)\<lparr>pc_transport :=
       (pc_transport (activation_config agent_process DEFAULT_CONFIG))\<lparr>tc_mode := ''owner''\<rparr>\<rparr>"
proof -
  have "runtime_kind_of gateway_process = Gateway" by code_simp
  moreover have "pe_host gateway_process = pe_host agent_process" "pe_platform gateway_process = pe_platform agent_process"
    by (simp_all add: gateway_process_def)
  ultimately show ?thesis
    using sample_modes(2) by (simp add: activation_config_def resolveAutoTransportMode_def resolveRuntimeConfig_def Let_def)
qed

text \<open>What an activation that becomes the owner starts.\<close>

lemma owner_starts:
  assumes "tc_mode (s_config s) \<noteq> ''follower''"
  shows "m_trace (start s Acquired True new_manager) = [RoleChange Owner, ServerStarted, HeartbeatWritten]"
  using assms by (simp add: start_def tryBecomeOwner_def setRole_def startOwnerServer_def startHeartbeat_def writeHeartbeat_def
      emit_def new_manager_def Let_def)

lemma owner_hubs:
  assumes "tc_mode (pc_transport c) \<noteq> ''follower''" "pc_enabled c" "\<not> isWebSocketDisabled (pe_env W)"
  shows "lf_hubs (complete_activation W (activated_with Acquired) (configured_plugin W c 0)) =
    [start_hub (pe_starts W 0) (new_hub (ws_options (pe_env W) c))]"
proof -
  define lf where "lf = (configured_plugin W c 0)\<lparr>lf_hookBridge := createHookBridge c\<rparr>"
  have h: "lf_hubs lf = []" "lf_broadcastServer lf = None" "lf_managers lf = []" "lf_config lf = c" "lf_starts lf = 0"
    "lf_eventFileLogger lf = None"
    by (simp_all add: lf_def) (simp_all add: configured_plugin_def fresh_runtime_def createPlugin_def Let_def)
  obtain st where "complete_activation W (activated_with Acquired) (configured_plugin W c 0) =
      (initializeTransport W (activated_with Acquired) lf)\<lparr>lf_hooksBound := Suc (lf_hooksBound
        (initializeTransport W (activated_with Acquired) lf)), lf_statusTimer := st, lf_isInitialized := True\<rparr>"
    using complete_enabled [of "configured_plugin W c 0" _ W "activated_with Acquired", OF _ refl] assms(2)
    by (auto simp: lf_def)
  moreover have "lf_hubs (initializeTransport W (activated_with Acquired) lf) =
      [start_hub (pe_starts W 0) (new_hub (ws_options (pe_env W) c))]"
    using assms(1,3) h
    by (simp add: initializeTransport_def run_manager_def activated_with_def owner_starts Let_def)
      (simp add: new_manager_def manager_callback_def onRoleChange_def maybeStartWebSocketServer_def startBroadcastServer_def
        getBroadcastServer_def update_hub_def initializeEventFileLogger_def Let_def)
  ultimately show ?thesis by simp
qed

lemma gateway_ws:
  "ws_options (pe_env gateway_process) (activation_config gateway_process DEFAULT_CONFIG) = ws_options (\<lambda>n. None) DEFAULT_CONFIG"
  by (simp add: ws_options_def activation_config_def resolveRuntimeConfig_def gateway_process_def agent_process_def Let_def)

lemma served_hub:
  "hb_out (hub_step (\<lambda>u. None) (OnConnection 5 any_client True) (hub_step (\<lambda>u. None) (OnListening 0 1)
     (start_hub (pe_starts gateway_process 0) (new_hub (ws_options (\<lambda>n. None) DEFAULT_CONFIG))))) = [WelcomeTo 5]"
  by code_simp

lemma sample_clients:
  assumes "lf = fold (lifecycle_step gateway_process (\<lambda>u. None)) served (createPlugin gateway_process 0)"
  shows "0 < length (lf_hubs lf)" "WelcomeTo 5 \<in> set (hb_out (lf_hubs lf ! 0))"
proof -
  let ?c = "activation_config gateway_process DEFAULT_CONFIG"
  define lf0 where "lf0 = activate gateway_process (activated_with Acquired) (createPlugin gateway_process 0)"
  have e: "lf0 = complete_activation gateway_process (activated_with Acquired) (configured_plugin gateway_process ?c 0)"
    unfolding lf0_def
  proof (rule first_activation)
    have "pe_host gateway_process = pe_host agent_process" by (simp add: gateway_process_def)
    then show "fst (validateConfig (pe_host gateway_process) ?c)"
      unfolding gateway_config by (simp add: mode_still_valid sample_config)
  qed (simp add: sample_merged)
  have m: "tc_mode (pc_transport ?c) \<noteq> ''follower''" "pc_enabled ?c"
    using sample_modes(1) by (simp_all add: gateway_config)
  have "\<not> isWebSocketDisabled (pe_env gateway_process)"
    by (simp add: gateway_process_def agent_process_def isWebSocketDisabled_def)
  from owner_hubs [OF m this] have hubs: "lf_hubs lf0 =
      [start_hub (pe_starts gateway_process 0) (new_hub (ws_options (\<lambda>n. None) DEFAULT_CONFIG))]"
    by (simp add: e gateway_ws)
  have "lf_hubs lf = [hub_step (\<lambda>u. None) (OnConnection 5 any_client True) (hub_step (\<lambda>u. None) (OnListening 0 1) (lf_hubs lf0 ! 0))]"
    by (simp add: assms served_def flip: lf0_def)
      (simp add: hub_event_def hub_callback_def hubs update_hub_def Let_def)
  then show "0 < length (lf_hubs lf)" "WelcomeTo 5 \<in> set (hb_out (lf_hubs lf ! 0))"
    using served_hub by (simp_all add: hubs)
qed

theorem active_plugin_follows_role_witness:
  "\<exists>x. lf_managers (fold (lifecycle_step agent_process (\<lambda>u. None)) failed_relay
      (activate agent_process (activated_with BusyLock) (createPlugin agent_process 0))) = [x]"
proof -
  from active_plugin_follows_role [OF refl, of agent_process "activated_with BusyLock", unfolded sample_merged,
      OF sample_config sample_modes(1) sample_relay refl, of "\<lambda>u. None" 0]
  show ?thesis by blast
qed

theorem plugin_clients_authorized_witness:
  "\<exists>a rq b. Activate a \<in> set served \<and> HubEvent 0 (OnConnection 5 rq b) \<in> set served \<and>
    allowed (\<lambda>u. None) (ws_options (pe_env gateway_process) (activation_config gateway_process (ac_merged a))) rq"
  by (rule plugin_clients_authorized [OF refl sample_clients(1) [OF refl] disjI2 [OF sample_clients(2) [OF refl]]])

theorem auto_agent_stays_follower_witness:
  "ps_isFollower (lf_state (fold (lifecycle_step agent_process (\<lambda>u. None)) failed_relay
     (activate agent_process (activated_with BusyLock) (createPlugin agent_process 0))))"
proof -
  from auto_agent_stays_follower [OF refl, of agent_process "activated_with BusyLock", unfolded sample_merged,
      OF sample_config sample_modes sample_relay refl]
  show ?thesis by blast
qed

lemma sample_deactivated:
  "lf_deactivating (fold (lifecycle_step agent_process (\<lambda>u. None)) (failed_relay @ Deactivate # [DeactivateContinues])
    (activate agent_process (activated_with BusyLock) (createPlugin agent_process 0))) = []"
proof -
  have "active_inv agent_process (activation_config agent_process DEFAULT_CONFIG)
      (fold (lifecycle_step agent_process (\<lambda>u. None)) failed_relay
        (activate agent_process (activated_with BusyLock) (createPlugin agent_process 0)))"
    by (rule active_run [OF activated [OF sample_config sample_modes(1)] sample_relay]) (simp add: sample_merged)
  moreover have "tc_mode (pc_transport (activation_config agent_process DEFAULT_CONFIG)) = ''follower''"
    using sample_modes by (simp add: activation_config_def resolveAutoTransportMode_def resolveRuntimeConfig_def Let_def)
  ultimately show ?thesis using follower_deactivation_ends by simp
qed

theorem deactivated_plugin_is_quiet_witness:
  "\<not> lf_isInitialized (fold (lifecycle_step agent_process (\<lambda>u. None)) (failed_relay @ Deactivate # [DeactivateContinues])
    (activate agent_process (activated_with BusyLock) (createPlugin agent_process 0)))"
proof -
  have "list_all (\<lambda>op. \<forall>a. op \<noteq> Activate a) [DeactivateContinues]" by simp
  from deactivated_plugin_is_quiet [OF refl, of agent_process "activated_with BusyLock", unfolded sample_merged,
      OF sample_config sample_modes(1) sample_relay this refl sample_deactivated]
  show ?thesis by blast
qed

end
