(* ===== verification/HookRegistration.thy ===== *)
theory HookRegistration imports HookMachine begin

text \<open>
  How the plugin binds its hooks to the host and what the host gets from them: the registration
  wrappers of \<open>src/runtime/utils.ts\<close>, the tables of \<open>src/runtime/typed-hooks.ts\<close>, the \<open>register-*-hooks.ts\<close>
  files and \<open>registerHooks\<close> of \<open>src/index.ts\<close>, and the promise that a call of a registered hook returns.
  The lemmas show that every hook of the machine is registered once, and that whatever a handler does
  the host never sees an error.
\<close>

section \<open>Registrations (runtime/types.ts, runtime/utils.ts)\<close>

record HookRegistrationOptions =
  ho_name :: string
  ho_description :: string
  ho_priority :: "int option"

datatype wrapper = InternalHook | TypedHook | FireAndForgetHook | ResultHook

text \<open>A handler gets the event and the context of the call; the number stands for the identity of the context.\<close>

type_synonym hook_handler = "jsval \<Rightarrow> jsval \<Rightarrow> nat \<Rightarrow> hook_call"

record registration =
  rg_event :: string
  rg_wrapper :: wrapper
  rg_options :: HookRegistrationOptions
  rg_handler :: hook_handler

text \<open>What the host's \<open>registerHook\<close> and \<open>on\<close> were called with, in order.\<close>

record OpenClawPluginApi =
  api_registerHook :: "registration list"
  api_on :: "registration list"

definition registerInternalHook ::
  "string \<Rightarrow> HookRegistrationOptions \<Rightarrow> (jsval \<Rightarrow> hook_call) \<Rightarrow> OpenClawPluginApi \<Rightarrow> OpenClawPluginApi" where
  "registerInternalHook ev options handler api =
     api\<lparr>api_registerHook := api_registerHook api @
       [\<lparr> rg_event = ev, rg_wrapper = InternalHook, rg_options = options, rg_handler = (\<lambda>hookEvent ctx i. handler hookEvent) \<rparr>]\<rparr>"

definition register_on ::
  "wrapper \<Rightarrow> string \<Rightarrow> HookRegistrationOptions \<Rightarrow> hook_handler \<Rightarrow> OpenClawPluginApi \<Rightarrow> OpenClawPluginApi" where
  "register_on w ev options handler api =
     api\<lparr>api_on := api_on api @ [\<lparr> rg_event = ev, rg_wrapper = w, rg_options = options, rg_handler = handler \<rparr>]\<rparr>"

definition registerTypedHook ::
  "string \<Rightarrow> HookRegistrationOptions \<Rightarrow> hook_handler \<Rightarrow> OpenClawPluginApi \<Rightarrow> OpenClawPluginApi" where
  "registerTypedHook = register_on TypedHook"

definition registerTypedHookFireAndForget ::
  "string \<Rightarrow> HookRegistrationOptions \<Rightarrow> hook_handler \<Rightarrow> OpenClawPluginApi \<Rightarrow> OpenClawPluginApi" where
  "registerTypedHookFireAndForget = register_on FireAndForgetHook"

definition registerTypedHookWithResult ::
  "string \<Rightarrow> HookRegistrationOptions \<Rightarrow> hook_handler \<Rightarrow> OpenClawPluginApi \<Rightarrow> OpenClawPluginApi" where
  "registerTypedHookWithResult = register_on ResultHook"

section \<open>What is registered (register-*-hooks.ts, typed-hooks.ts, index.ts)\<close>

definition described :: "string \<Rightarrow> string \<Rightarrow> HookRegistrationOptions" where
  "described name description = \<lparr> ho_name = name, ho_description = description, ho_priority = None \<rparr>"

text \<open>Handlers that do not take a context.\<close>

definition no_context :: "(jsval \<Rightarrow> hook_call) \<Rightarrow> hook_handler" where
  "no_context handler = (\<lambda>rawEvent ctx i. handler rawEvent)"

definition with_context :: "(jsval \<Rightarrow> jsval \<Rightarrow> hook_call) \<Rightarrow> hook_handler" where
  "with_context handler = (\<lambda>rawEvent ctx i. handler rawEvent ctx)"

definition registerAgentRunHooks :: "OpenClawPluginApi \<Rightarrow> OpenClawPluginApi" where
  "registerAgentRunHooks = fold id
     [registerTypedHook ''before_model_resolve''
        (described ''event-plugin.before-model-resolve'' ''Broadcast agent.before_model_resolve events'')
        (with_context BeforeModelResolve),
      registerTypedHook ''before_prompt_build''
        (described ''event-plugin.before-prompt-build'' ''Broadcast agent.before_prompt_build events'')
        (with_context BeforePromptBuild),
      registerTypedHook ''llm_input''
        (described ''event-plugin.llm-input'' ''Broadcast agent.llm_input events'') (with_context LlmInput),
      registerTypedHook ''llm_output''
        (described ''event-plugin.llm-output'' ''Broadcast agent.llm_output events'') (with_context LlmOutput),
      registerTypedHook ''agent_end''
        (described ''event-plugin.agent-end'' ''Broadcast agent.end events'') (with_context AgentEnd)]"

definition registerCompactionHooks :: "OpenClawPluginApi \<Rightarrow> OpenClawPluginApi" where
  "registerCompactionHooks = fold id
     [registerTypedHook ''before_compaction''
        (described ''event-plugin.before-compaction'' ''Broadcast session.before_compaction events'')
        (with_context BeforeCompaction),
      registerTypedHook ''after_compaction''
        (described ''event-plugin.after-compaction'' ''Broadcast session.after_compaction events'')
        (with_context AfterCompaction)]"

text \<open>The guard runs late, so that other hooks do not override its decisions.\<close>

definition registerToolHooks :: "OpenClawPluginApi \<Rightarrow> OpenClawPluginApi" where
  "registerToolHooks = fold id
     [registerTypedHookWithResult ''before_tool_call''
        \<lparr> ho_name = ''event-plugin.before-tool-call'',
          ho_description = ''Broadcast tool.called events and optionally apply hookBridge tool guard'',
          ho_priority = Some (- 10000) \<rparr> BeforeToolCall,
      registerTypedHook ''after_tool_call''
        (described ''event-plugin.after-tool-call'' ''Broadcast tool.completed/tool.error events'') AfterToolCall,
      registerTypedHookFireAndForget ''tool_result_persist''
        (described ''event-plugin.tool-result-persist'' ''Broadcast tool.result_persist events'') ToolResultPersist]"

definition registerSessionHooks :: "OpenClawPluginApi \<Rightarrow> OpenClawPluginApi" where
  "registerSessionHooks = fold id
     [registerTypedHook ''session_start''
        (described ''event-plugin.session-start'' ''Broadcast session.start events'') (with_context SessionStart),
      registerTypedHook ''session_end''
        (described ''event-plugin.session-end'' ''Broadcast session.end events'') (with_context SessionEnd)]"

definition registerSubagentHooks :: "OpenClawPluginApi \<Rightarrow> OpenClawPluginApi" where
  "registerSubagentHooks = fold id
     [registerTypedHook ''subagent_spawning''
        (described ''event-plugin.subagent-spawning'' ''Broadcast subagent.spawning events'')
        (with_context SubagentSpawning),
      registerTypedHook ''subagent_spawned''
        (described ''event-plugin.subagent-spawned'' ''Broadcast subagent.spawned events'')
        (with_context SubagentSpawned),
      registerTypedHook ''subagent_ended''
        (described ''event-plugin.subagent-ended'' ''Broadcast subagent.ended events'') (with_context SubagentEnded)]"

definition registerGatewayTypedHooks :: "OpenClawPluginApi \<Rightarrow> OpenClawPluginApi" where
  "registerGatewayTypedHooks = fold id
     [registerTypedHook ''gateway_start''
        (described ''event-plugin.gateway-start'' ''Broadcast gateway.start events'') (no_context GatewayStart),
      registerTypedHook ''gateway_stop''
        (described ''event-plugin.gateway-stop'' ''Broadcast gateway.stop events'') (no_context GatewayStop)]"

definition registerTypedHooks :: "OpenClawPluginApi \<Rightarrow> OpenClawPluginApi" where
  "registerTypedHooks = fold id
     [registerAgentRunHooks, registerCompactionHooks, registerToolHooks, registerSessionHooks, registerSubagentHooks,
      registerGatewayTypedHooks]"

definition registerInternalHooks :: "OpenClawPluginApi \<Rightarrow> OpenClawPluginApi" where
  "registerInternalHooks = fold id
     [registerInternalHook ''message:received''
        (described ''event-plugin.message-received'' ''Broadcast message.received events'') MessageReceived,
      registerInternalHook ''message:transcribed''
        (described ''event-plugin.message-transcribed'' ''Broadcast message.transcribed events'') MessageTranscribed,
      registerInternalHook ''message:preprocessed''
        (described ''event-plugin.message-preprocessed'' ''Broadcast message.preprocessed events'') MessagePreprocessed,
      registerInternalHook ''message:sent''
        (described ''event-plugin.message-sent'' ''Broadcast message.sent events'') MessageSent,
      registerInternalHook ''command:new''
        (described ''event-plugin.command-new'' ''Broadcast command.new events'') (Command NewCommand),
      registerInternalHook ''command:reset''
        (described ''event-plugin.command-reset'' ''Broadcast command.reset events'') (Command ResetCommand),
      registerInternalHook ''command:stop''
        (described ''event-plugin.command-stop'' ''Broadcast command.stop events'') (Command StopCommand),
      registerInternalHook ''agent:bootstrap''
        (described ''event-plugin.agent-bootstrap'' ''Broadcast agent.bootstrap events'') AgentBootstrap,
      registerInternalHook ''agent:error''
        (described ''event-plugin.agent-error'' ''Broadcast agent.error events'') AgentErrorHook,
      registerInternalHook ''agent:session:start''
        (described ''event-plugin.agent-session-start'' ''Broadcast agent.session_start events'') (AgentSessionHook True),
      registerInternalHook ''agent:session:end''
        (described ''event-plugin.agent-session-end'' ''Broadcast agent.session_end events'') (AgentSessionHook False),
      registerInternalHook ''gateway:startup''
        (described ''event-plugin.gateway-startup'' ''Broadcast gateway.startup events'') GatewayStartup]"

definition registerAllHooks :: "OpenClawPluginApi \<Rightarrow> OpenClawPluginApi" where
  "registerAllHooks api = registerTypedHooks (registerInternalHooks api)"

definition bound_hooks :: "OpenClawPluginApi \<Rightarrow> registration list" where
  "bound_hooks api = api_registerHook api @ api_on api"

definition new_api :: OpenClawPluginApi where
  "new_api = \<lparr> api_registerHook = [], api_on = [] \<rparr>"

section \<open>A call of a registered hook\<close>

datatype 'r promise = Pending | Fulfilled 'r | Failed jsval

text \<open>
  What a waiting handler is answered with: the decision of the guard, if there is one, and the state of
  that moment, or the error of a rejected request.
\<close>

type_synonym reply = "(HookBridgeGuardDecisionOutcome option \<times> plugin_state) + jsval"

text \<open>The promise of an asynchronous handler after some replies; \<open>thrown\<close> is the error it throws if it does.\<close>

fun handler_promise :: "jsval \<Rightarrow> reply list \<Rightarrow> plugin_state \<times> 'r outcome \<Rightarrow> 'r promise" where
  "handler_promise thrown rs (s, outcome.Returned r) = Fulfilled r"
| "handler_promise thrown rs (s, Threw) = Failed thrown"
| "handler_promise thrown [] (s, Await q k) = Pending"
| "handler_promise thrown (Inl a # rs) (s, Await q k) = handler_promise thrown rs (k a)"
| "handler_promise thrown (Inr e # rs) (s, Await q k) = Failed e"

text \<open>The prefix and the message that the logger gets.\<close>

definition logHookError :: "(string \<Rightarrow> string \<Rightarrow> bool) \<Rightarrow> string \<Rightarrow> jsval \<Rightarrow> string \<times> string" where
  "logHookError le hookName err = (''Error in '' @ hookName @ '' hook:'', fst (normalizeError le err))"

text \<open>\<open>undefined\<close> is None, as for the handlers.\<close>

definition runHookSafely ::
  "(string \<Rightarrow> string \<Rightarrow> bool) \<Rightarrow> string \<Rightarrow> hook_result promise \<Rightarrow> hook_result promise \<times> (string \<times> string) list" where
  "runHookSafely le hookName p =
     (case p of
        Failed err \<Rightarrow> (Fulfilled None, [logHookError le hookName err])
      | _ \<Rightarrow> (p, []))"

text \<open>What the function that is registered with the host returns.\<close>

definition hook_returns :: "wrapper \<Rightarrow> hook_result promise \<Rightarrow> hook_result promise" where
  "hook_returns w p =
     (case w of
        InternalHook \<Rightarrow> (case p of Fulfilled r \<Rightarrow> Fulfilled None | _ \<Rightarrow> p)
      | FireAndForgetHook \<Rightarrow> Fulfilled None
      | _ \<Rightarrow> p)"

text \<open>
  \<open>Promise.resolve().then(handler)\<close> starts the handler in a later turn; \<open>start\<close> is the state at that
  time, None before it.
\<close>

definition call_hook ::
  "plugin_env \<Rightarrow> jsval \<Rightarrow> registration \<Rightarrow> jsval \<Rightarrow> jsval \<Rightarrow> nat \<Rightarrow> plugin_state option \<Rightarrow> reply list \<Rightarrow>
   hook_result promise \<times> (string \<times> string) list" where
  "call_hook H thrown r rawEvent rawCtx i start replies =
     (case start of
        None \<Rightarrow> (hook_returns (rg_wrapper r) Pending, [])
      | Some s \<Rightarrow>
          (case runHookSafely (pn_le H) (rg_event r)
                  (handler_promise thrown replies (run_hook H (rg_handler r rawEvent rawCtx i) s)) of
             (p, log_entries) \<Rightarrow> (hook_returns (rg_wrapper r) p, log_entries)))"

section \<open>How the handlers conclude\<close>

text \<open>
  Every handler but that of before_tool_call returns \<open>undefined\<close>, and only a rejected broadcast makes it
  throw.
\<close>

lemma concludes_tools [conclusions]:
  "concludes (Some None) (after_tool_call H e c i s)"
  "concludes (Some None) (tool_result_persist H e c i s)"
  unfolding after_tool_call_def tool_result_persist_def Let_def split_def
  by (auto intro!: conclusions builds.intros simp: after_event_def Let_def)

lemma concludes_sessions [conclusions]:
  "concludes (Some None) (session_start H e c s)"
  "concludes (Some None) (session_end H e c s)"
  unfolding session_start_def session_end_def Let_def split_def
  by (auto intro!: conclusions builds.intros)

lemma concludes_subagents [conclusions]:
  "concludes (Some None) (subagent_spawning H e c s)"
  "concludes (Some None) (subagent_spawned H e c s)"
  "concludes (Some None) (subagent_ended H e c s)"
  unfolding subagent_spawning_def subagent_spawned_def subagent_ended_def Let_def
  by (auto intro!: conclusions builds.intros)

lemma concludes_runs [conclusions]:
  "concludes (Some None) (before_compaction H e c s)"
  "concludes (Some None) (after_compaction H e c s)"
  "concludes (Some None) (before_model_resolve H e c s)"
  "concludes (Some None) (before_prompt_build H e c s)"
  "concludes (Some None) (llm_input H e c s)"
  "concludes (Some None) (llm_output H e c s)"
  "concludes (Some None) (agent_end H e c s)"
  unfolding before_compaction_def after_compaction_def before_model_resolve_def before_prompt_build_def llm_input_def
    llm_output_def agent_end_def Let_def
  by (auto intro!: conclusions builds.intros)

lemma concludes_gateway [conclusions]:
  "concludes (Some None) (gateway_start H e s)"
  "concludes (Some None) (gateway_stop H e s)"
  "concludes (Some None) (handleGatewayStartup H e s)"
  unfolding gateway_start_def gateway_stop_def handleGatewayStartup_def Let_def
  by (auto intro!: conclusions builds.intros)

lemma concludes_agents [conclusions]:
  "concludes (Some None) (handleCommand H a e s)"
  "concludes (Some None) (handleAgentBootstrap H e s)"
  "concludes (Some None) (handleAgentError H e s)"
  "concludes (Some None) (handleAgentSessionEvent H b e s)"
proof -
  have t: "command_type a \<in> {''command.new'', ''command.reset'', ''command.stop''}" by (cases a) simp_all
  have r: "is_nullish d \<or> isRecord d" if "d = handler_context raw" for d raw using that by (simp add: handler_context_def)
  note [simp] = if_agent_def
  show "concludes (Some None) (handleCommand H a e s)"
    unfolding handleCommand_def Let_def by (auto intro!: builds.intros(22) [OF t] conclusions)
  show "concludes (Some None) (handleAgentBootstrap H e s)"
    unfolding handleAgentBootstrap_def Let_def by (auto intro!: builds.intros(8) r conclusions)
  show "concludes (Some None) (handleAgentError H e s)"
    unfolding handleAgentError_def Let_def by (auto intro!: builds.intros(9) r conclusions)
  show "concludes (Some None) (handleAgentSessionEvent H b e s)"
    unfolding handleAgentSessionEvent_def Let_def by (auto intro!: builds.intros(10) r conclusions)
qed

lemma concludes_message:
  assumes "\<And>E e n r. parse E e n = Some r \<Longrightarrow> \<exists>b. builds E b \<and> r = b n"
  shows "concludes (Some None) (handle_message H parse dir src act det e s)"
proof (cases "parse (env_at H s) e (ps_uuids s)")
  case None
  then show ?thesis by (simp add: handle_message_def concludes_returns)
next
  case (Some r)
  obtain ev n where r: "r = (ev, n)" by (cases r)
  obtain b where b: "builds (env_at H s) b" "(ev, n) = b (ps_uuids s)" using assms [OF Some] r by auto
  then have "wellformed ev" using builds_wellformed [OF b(1)] by (metis fst_conv)
  then show ?thesis
    unfolding handle_message_def Some r option.case prod.case Let_def
    by (rule concludes_broadcasting) (intro conclusions)
qed

lemma concludes_messages [conclusions]:
  "concludes (Some None) (handleMessageReceived H e s)"
  "concludes (Some None) (handleMessageTranscribed H e s)"
  "concludes (Some None) (handleMessagePreprocessed H e s)"
  "concludes (Some None) (handleMessageSent H e s)"
proof -
  have p: "\<exists>b. builds E b \<and> r = b n"
    if "from_message_hook keys f h n = Some r" "\<And>c. builds E (f c)" for E keys f h n r
    using that by (auto simp: from_message_hook_def split: option.splits if_splits)
  note parsers = fromOpenClawMessageReceived_def fromOpenClawMessageTranscribed_def fromOpenClawMessagePreprocessed_def
    fromOpenClawMessageSent_def
  show "concludes (Some None) (handleMessageReceived H e s)" "concludes (Some None) (handleMessageTranscribed H e s)"
    "concludes (Some None) (handleMessagePreprocessed H e s)" "concludes (Some None) (handleMessageSent H e s)"
    unfolding handleMessageReceived_def handleMessageTranscribed_def handleMessagePreprocessed_def handleMessageSent_def
    by (rule concludes_message; auto simp: parsers intro!: p builds.intros)+
qed

definition guards :: "hook_call \<Rightarrow> bool" where
  "guards c \<longleftrightarrow> (case c of BeforeToolCall e x i \<Rightarrow> True | _ \<Rightarrow> False)"

lemma hooks_conclude: "\<not> guards c \<Longrightarrow> concludes (Some None) (run_hook H c s)"
  by (cases c) (simp_all add: guards_def conclusions)

section \<open>Replies and settled handlers\<close>

definition rejects :: "reply list \<Rightarrow> bool" where
  "rejects replies \<longleftrightarrow> (\<exists>err. Inr err \<in> set replies)"

lemma rejects_simps [simp]:
  "\<not> rejects []" "rejects (Inl a # rs) = rejects rs" "rejects (Inr e # rs)"
  by (auto simp: rejects_def)

text \<open>A promise that is no longer pending belongs to a run of the handler.\<close>

lemma promise_settles:
  "handler_promise thrown replies res = Fulfilled r \<Longrightarrow> \<exists>tr. settles res tr (Some r) \<and> \<not> refused tr"
  "handler_promise thrown replies res = Failed err \<Longrightarrow>
     \<exists>tr. settles res tr None \<and> (if refused tr then Inr err \<in> set replies else err = thrown)"
proof (induction thrown replies res rule: handler_promise.induct)
  case (4 thrown a rs s q k)
  obtain d s' where a: "a = (d, s')" by (cases a)
  { case 1
    with 4 obtain tr where "settles (k a) tr (Some r)" "\<not> refused tr" by auto
    then show ?case by (intro exI [of _ "(q, Settled d) # tr"]) (simp add: a settles.resumed) }
  { case 2
    with 4 obtain tr where "settles (k a) tr None" "if refused tr then Inr err \<in> set rs else err = thrown" by auto
    then show ?case by (intro exI [of _ "(q, Settled d) # tr"]) (auto simp: a settles.resumed) }
qed (auto simp: settles_await intro: exI [of _ "[]"])

lemma quiet_promise:
  assumes "\<not> guards c"
  shows "case handler_promise thrown replies (run_hook H c s) of
      Pending \<Rightarrow> True | Fulfilled r \<Rightarrow> r = None | Failed err \<Rightarrow> Inr err \<in> set replies"
proof (cases "handler_promise thrown replies (run_hook H c s)")
  case (Fulfilled r)
  from promise_settles(1) [OF this] hooks_conclude [OF assms, of H s] have "r = None"
    unfolding concludes_def by (metis option.inject)
  then show ?thesis by (simp add: Fulfilled)
next
  case (Failed err)
  from promise_settles(2) [OF this] hooks_conclude [OF assms, of H s] show ?thesis
    by (fastforce simp: concludes_def Failed split: if_splits)
qed simp

lemma guard_promise:
  assumes "handler_promise thrown replies (before_tool_call H e c i s) = Fulfilled (Some v)"
  shows "\<exists>d s1 rest. replies = Inl (d, s1) # rest \<and> verdict (th_params (before_locals H e c i s)) d = Some v"
proof -
  let ?L = "before_locals H e c i s"
  obtain d s1 rest where r: "replies = Inl (d, s1) # rest"
      "handler_promise thrown rest (guarded_call H ?L (if pn_hasBridge H then d else None) s1) = Fulfilled (Some v)"
    using assms
    by (cases "(thrown, replies, before_tool_call H e c i s)" rule: handler_promise.cases)
      (auto simp: before_tool_call_def evaluating_def Let_def split: if_splits)
  obtain tr where "settles (guarded_call H ?L (if pn_hasBridge H then d else None) s1) tr (Some (Some v))"
    using promise_settles(1) [OF r(2)] by blast
  with concludes_guarded [of ?L "if pn_hasBridge H then d else None" H s1]
  have "verdict (th_params ?L) (if pn_hasBridge H then d else None) = Some v"
    unfolding concludes_def by (metis option.distinct(1) option.inject)
  then have "verdict (th_params ?L) d = Some v" by (cases "pn_hasBridge H") (simp_all add: verdict_def)
  with r(1) show ?thesis by blast
qed

text \<open>No handler waits forever: every sequence of replies settles it after finitely many.\<close>

lemma promise_ends: "\<exists>n. handler_promise thrown (map f [0..<n]) (s, out) \<noteq> Pending"
proof (induction out arbitrary: f s)
  case (Await q k)
  show ?case
  proof (cases "f 0")
    case (Inl a)
    obtain n where "handler_promise thrown (map (\<lambda>m. f (Suc m)) [0..<n]) (k a) \<noteq> Pending"
      using Await [of "k a" "snd (k a)" "\<lambda>m. f (Suc m)" "fst (k a)"] by (auto simp: snds.intros)
    then have "handler_promise thrown (map f [0..<Suc n]) (s, Await q k) \<noteq> Pending"
      by (simp add: Inl upt_conv_Cons comp_def flip: map_Suc_upt del: upt_Suc)
    then show ?thesis by blast
  next
    case (Inr err)
    then have "handler_promise thrown (map f [0..<1]) (s, Await q k) \<noteq> Pending" by simp
    then show ?thesis by blast
  qed
qed (auto intro: exI [of _ 0])

section \<open>The table of hooks\<close>

lemmas register_defs = registerInternalHook_def register_on_def registerTypedHook_def registerTypedHookFireAndForget_def
  registerTypedHookWithResult_def registerAgentRunHooks_def registerCompactionHooks_def registerToolHooks_def
  registerSessionHooks_def registerSubagentHooks_def registerGatewayTypedHooks_def registerTypedHooks_def
  registerInternalHooks_def registerAllHooks_def bound_hooks_def new_api_def described_def no_context_def with_context_def

text \<open>The event of the host that runs a hook.\<close>

fun hook_event :: "hook_call \<Rightarrow> string" where
  "hook_event (BeforeToolCall e c i) = ''before_tool_call''"
| "hook_event (AfterToolCall e c i) = ''after_tool_call''"
| "hook_event (ToolResultPersist e c i) = ''tool_result_persist''"
| "hook_event (SessionStart e c) = ''session_start''"
| "hook_event (SessionEnd e c) = ''session_end''"
| "hook_event (SubagentSpawning e c) = ''subagent_spawning''"
| "hook_event (SubagentSpawned e c) = ''subagent_spawned''"
| "hook_event (SubagentEnded e c) = ''subagent_ended''"
| "hook_event (BeforeCompaction e c) = ''before_compaction''"
| "hook_event (AfterCompaction e c) = ''after_compaction''"
| "hook_event (BeforeModelResolve e c) = ''before_model_resolve''"
| "hook_event (BeforePromptBuild e c) = ''before_prompt_build''"
| "hook_event (LlmInput e c) = ''llm_input''"
| "hook_event (LlmOutput e c) = ''llm_output''"
| "hook_event (AgentEnd e c) = ''agent_end''"
| "hook_event (GatewayStart e) = ''gateway_start''"
| "hook_event (GatewayStop e) = ''gateway_stop''"
| "hook_event (MessageReceived e) = ''message:received''"
| "hook_event (MessageTranscribed e) = ''message:transcribed''"
| "hook_event (MessagePreprocessed e) = ''message:preprocessed''"
| "hook_event (MessageSent e) = ''message:sent''"
| "hook_event (Command a e) = (case a of NewCommand \<Rightarrow> ''command:new'' | ResetCommand \<Rightarrow> ''command:reset'' | StopCommand \<Rightarrow> ''command:stop'')"
| "hook_event (AgentBootstrap e) = ''agent:bootstrap''"
| "hook_event (AgentErrorHook e) = ''agent:error''"
| "hook_event (AgentSessionHook b e) = (if b then ''agent:session:start'' else ''agent:session:end'')"
| "hook_event (GatewayStartup e) = ''gateway:startup''"

definition plugin_hooks :: "registration list" where
  "plugin_hooks = bound_hooks (registerAllHooks new_api)"

lemma hook_events:
  "map rg_event plugin_hooks = [''message:received'', ''message:transcribed'', ''message:preprocessed'', ''message:sent'',
     ''command:new'', ''command:reset'', ''command:stop'', ''agent:bootstrap'', ''agent:error'', ''agent:session:start'',
     ''agent:session:end'', ''gateway:startup'', ''before_model_resolve'', ''before_prompt_build'', ''llm_input'',
     ''llm_output'', ''agent_end'', ''before_compaction'', ''after_compaction'', ''before_tool_call'', ''after_tool_call'',
     ''tool_result_persist'', ''session_start'', ''session_end'', ''subagent_spawning'', ''subagent_spawned'',
     ''subagent_ended'', ''gateway_start'', ''gateway_stop'']"
  by (simp add: plugin_hooks_def register_defs)

lemma hooks_of_events: "\<forall>r \<in> set plugin_hooks. \<forall>e c i. hook_event (rg_handler r e c i) = rg_event r"
  by (simp add: plugin_hooks_def register_defs)

lemma hooks_distinct: "distinct (map rg_event plugin_hooks)"
  unfolding hook_events by simp

lemma hook_handlers:
  "map rg_handler plugin_hooks = map no_context [MessageReceived, MessageTranscribed, MessagePreprocessed, MessageSent,
     Command NewCommand, Command ResetCommand, Command StopCommand, AgentBootstrap, AgentErrorHook, AgentSessionHook True,
     AgentSessionHook False, GatewayStartup] @
   map with_context [BeforeModelResolve, BeforePromptBuild, LlmInput, LlmOutput, AgentEnd, BeforeCompaction, AfterCompaction] @
   [BeforeToolCall, AfterToolCall, ToolResultPersist] @
   map with_context [SessionStart, SessionEnd, SubagentSpawning, SubagentSpawned, SubagentEnded] @
   map no_context [GatewayStart, GatewayStop]"
  by (simp add: plugin_hooks_def register_defs)

lemma reaches_simps [simp]:
  "(\<exists>e x i. no_context h e x i = c) \<longleftrightarrow> (\<exists>e. h e = c)"
  "(\<exists>e x i. with_context k e x i = c) \<longleftrightarrow> (\<exists>e x. k e x = c)"
  by (simp_all add: no_context_def with_context_def)

lemma hooks_complete: "\<exists>r \<in> set plugin_hooks. \<exists>e x i. rg_handler r e x i = c"
proof -
  have "list_ex (\<lambda>h. \<exists>e x i. h e x i = c) (map rg_handler plugin_hooks)"
  proof (cases c)
    case (Command a e)
    then show ?thesis by (cases a) (simp_all add: hook_handlers)
  qed (simp_all add: hook_handlers)
  then show ?thesis by (auto simp: list_ex_iff)
qed

lemma hooks_wrapped:
  "\<forall>r \<in> set plugin_hooks. (rg_wrapper r = ResultHook \<longleftrightarrow> rg_event r = ''before_tool_call'')"
  "\<forall>r \<in> set plugin_hooks. rg_event r = ''before_tool_call'' \<longrightarrow> rg_handler r = BeforeToolCall"
  by (simp_all add: plugin_hooks_def register_defs)

lemma guards_event: "guards c \<longleftrightarrow> hook_event c = ''before_tool_call''"
  by (cases c) (auto simp: guards_def split: command_action.split)

section \<open>Properties\<close>

text \<open>
  Every hook that the machine of the handlers can run is registered exactly once, under the event that it
  is for, and only the hook of the tool guard gives the host a result.
\<close>

theorem hooks_registered_once:
  "(\<exists>!r. r \<in> set plugin_hooks \<and> (\<exists>e x i. rg_handler r e x i = c)) \<and>
   (\<forall>r \<in> set plugin_hooks. \<forall>e x i. hook_event (rg_handler r e x i) = rg_event r \<and>
      (rg_wrapper r = ResultHook \<longleftrightarrow> guards (rg_handler r e x i)))"
proof -
  obtain r where r: "r \<in> set plugin_hooks" "\<exists>e x i. rg_handler r e x i = c" using hooks_complete by blast
  have "r' = r" if "r' \<in> set plugin_hooks" "\<exists>e x i. rg_handler r' e x i = c" for r'
  proof -
    have "rg_event r' = rg_event r" using that r hooks_of_events by metis
    then show "r' = r" using hooks_distinct that(1) r(1) by (simp add: distinct_map inj_on_def)
  qed
  with r have "\<exists>!r. r \<in> set plugin_hooks \<and> (\<exists>e x i. rg_handler r e x i = c)" by blast
  with hooks_of_events hooks_wrapped show ?thesis by (simp add: guards_event)
qed

text \<open>
  C24. Whatever a registered handler does and however its requests are answered, the promise that the host gets
  is never rejected and does not stay pending forever.  The host gets a value only from before_tool_call, and
  then it is the verdict on the decision of the guard.  An error ends the hook with \<open>undefined\<close> and one entry
  in the log; but for before_tool_call only a rejected request is an error.
\<close>

theorem hooks_fail_open:
  assumes "r \<in> set plugin_hooks" "call_hook H thrown r e c i (Some s) replies = (p, entries)"
  shows "(\<forall>err. p \<noteq> Failed err) \<and>
    (\<forall>v. p = Fulfilled (Some v) \<longrightarrow> rg_event r = ''before_tool_call'' \<and>
       (\<exists>d s1 rest. replies = Inl (d, s1) # rest \<and> verdict (th_params (before_locals H e c i s)) d = Some v)) \<and>
    (entries \<noteq> [] \<longrightarrow> p = Fulfilled None \<and> (\<exists>err. entries = [logHookError (pn_le H) (rg_event r) err] \<and>
       (Inr err \<in> set replies \<or> err = thrown \<and> rg_event r = ''before_tool_call''))) \<and>
    (\<forall>f. \<exists>n. fst (call_hook H thrown r e c i (Some s) (map f [0..<n])) \<noteq> Pending)"
proof -
  let ?h = "rg_handler r e c i" and ?res = "run_hook H (rg_handler r e c i) s"
  let ?q = "handler_promise thrown replies ?res"
  have guard: "rg_event r = ''before_tool_call'' \<and> ?h = BeforeToolCall e c i" if "guards ?h"
    using that assms(1) hooks_of_events hooks_wrapped(2) by (simp add: guards_event)
  have pe: "p = hook_returns (rg_wrapper r) (fst (runHookSafely (pn_le H) (rg_event r) ?q))"
    "entries = snd (runHookSafely (pn_le H) (rg_event r) ?q)"
    using assms(2) by (auto simp: call_hook_def split: prod.splits)
  note returns = runHookSafely_def hook_returns_def
  have "p \<noteq> Failed err" for err
    unfolding pe returns by (auto split: promise.splits wrapper.splits)
  moreover have "rg_event r = ''before_tool_call'' \<and>
       (\<exists>d s1 rest. replies = Inl (d, s1) # rest \<and> verdict (th_params (before_locals H e c i s)) d = Some v)"
    if "p = Fulfilled (Some v)" for v
  proof -
    have q: "?q = Fulfilled (Some v)" using that unfolding pe returns by (auto split: promise.splits wrapper.splits)
    with quiet_promise [of ?h replies thrown H s] guard have "rg_event r = ''before_tool_call''" "?h = BeforeToolCall e c i"
      by auto
    with guard_promise [of thrown replies H e c i s v] q show ?thesis by simp
  qed
  moreover have "p = Fulfilled None \<and> (\<exists>err. entries = [logHookError (pn_le H) (rg_event r) err] \<and>
       (Inr err \<in> set replies \<or> err = thrown \<and> rg_event r = ''before_tool_call''))" if e: "entries \<noteq> []"
  proof -
    obtain err where q: "?q = Failed err" using e unfolding pe returns by (cases ?q) auto
    have "Inr err \<in> set replies \<or> err = thrown \<and> rg_event r = ''before_tool_call''"
    proof (cases "guards ?h")
      case True
      with promise_settles(2) [OF q] guard show ?thesis by (auto split: if_splits)
    qed (use quiet_promise [of ?h replies thrown H s] q in simp)
    then show ?thesis unfolding pe returns q by (auto split: wrapper.splits)
  qed
  moreover have "\<exists>n. fst (call_hook H thrown r e c i (Some s) (map f [0..<n])) \<noteq> Pending" for f
  proof -
    obtain n where "handler_promise thrown (map f [0..<n]) ?res \<noteq> Pending"
      using promise_ends [of thrown f "fst ?res" "snd ?res"] by auto
    then show ?thesis
      by (intro exI [of _ n]) (auto simp: call_hook_def returns split: promise.splits wrapper.splits)
  qed
  ultimately show ?thesis by blast
qed

text \<open>The guard's request fails: the tool call goes on, and the log says why.\<close>

lemma guard_registration:
  "plugin_hooks ! 19 =
     \<lparr> rg_event = ''before_tool_call'', rg_wrapper = ResultHook,
       rg_options = \<lparr> ho_name = ''event-plugin.before-tool-call'',
         ho_description = ''Broadcast tool.called events and optionally apply hookBridge tool guard'',
         ho_priority = Some (- 10000) \<rparr>,
       rg_handler = BeforeToolCall \<rparr>"
  by (simp add: plugin_hooks_def register_defs)

lemma sample_failed_hook:
  "call_hook sample_env JUndef (plugin_hooks ! 19) exec_hook JUndef 0 (Some idle_plugin) [Inr (JStr ''down'')] =
     (Fulfilled None, [(''Error in before_tool_call hook:'', ''down'')])"
proof -
  have "fst (normalizeError (pn_le sample_env) (JStr ''down'')) = ''down''" by code_simp
  then show ?thesis
    by (simp add: guard_registration call_hook_def before_tool_call_def evaluating_def Let_def runHookSafely_def
        hook_returns_def logHookError_def)
qed

theorem hooks_fail_open_witness:
  "fst (call_hook sample_env JUndef (plugin_hooks ! 19) exec_hook JUndef 0 (Some idle_plugin) [Inr (JStr ''down'')]) = Fulfilled None \<and>
   (\<exists>n. fst (call_hook sample_env JUndef (plugin_hooks ! 19) exec_hook JUndef 0 (Some idle_plugin)
      (map (\<lambda>i. Inl (None, idle_plugin)) [0..<n])) \<noteq> Pending)"
proof -
  have "plugin_hooks ! 19 \<in> set plugin_hooks" by (rule nth_mem) (simp add: plugin_hooks_def register_defs)
  from hooks_fail_open [OF this sample_failed_hook] show ?thesis by (simp add: sample_failed_hook)
qed

end
