(* ===== verification/ReplayTool.thy ===== *)
theory ReplayTool imports ToolGuard RuntimeConfig begin

text \<open>
  A whole evaluation of the tool guard with the actions that it awaits
  (\<open>executeBridgeGuardAction\<close> of \<open>src/runtime/hook-bridge-actions.ts\<close>), and the command
  \<open>src/tools/replay-tool-guard.ts\<close>, which evaluates a file of tool calls one after the other.  The answers of
  the network and of the processes are arguments.  The lemmas show that an evaluation returns after at most
  one action per rule, and that a replay is a run of the guard of the plugin.
\<close>

section \<open>Actions of the bridge (hook-bridge-actions.ts)\<close>

datatype action_answer =
    HttpAnswer bool int string
  | HttpFailed string
  | ScriptEvents "script_event list"

text \<open>
  What \<open>executeWebhookAction\<close> or \<open>executeLocalScriptAction\<close> gives for an answer; None: it is not settled by it.
  The first argument is \<open>basename\<close>.
\<close>

definition action_result :: "(string \<Rightarrow> string) \<Rightarrow> action_request \<Rightarrow> action_answer \<Rightarrow> (string + string) option" where
  "action_result base q answer =
     (case q of
        HttpRequest url method headers body timeoutMs \<Rightarrow>
          (case answer of
             HttpAnswer ok status text \<Rightarrow> Some (webhook_outcome ok status text)
           | HttpFailed message \<Rightarrow> Some (Inl message)
           | ScriptEvents es \<Rightarrow> None)
      | RunScript path args payload timeoutMs \<Rightarrow>
          (case answer of
             ScriptEvents es \<Rightarrow>
               (case sc_settled (fold runLocalScript es new_script_run) of
                  None \<Rightarrow> None
                | Some (Inl message) \<Rightarrow> Some (Inl message)
                | Some (Inr r) \<Rightarrow> Some (script_outcome (base path) timeoutMs r))
           | _ \<Rightarrow> None))"

text \<open>
  What is outside the guard: \<open>JSON.parse\<close>, \<open>basename\<close>, the clock, the ids and the time stamps of the events
  it builds, and the answers to its actions.  The number is that of the step.
\<close>

record action_world =
  aw_host :: host
  aw_parse :: "string \<Rightarrow> string + jsval"
  aw_basename :: "string \<Rightarrow> string"
  aw_now :: "nat \<Rightarrow> int"
  aw_eventId :: "nat \<Rightarrow> string"
  aw_timestamp :: "nat \<Rightarrow> string"
  aw_answer :: "nat \<Rightarrow> action_request \<Rightarrow> action_answer"

text \<open>None: the action does not settle.\<close>

definition run_action ::
  "action_world \<Rightarrow> HookBridgeConfig \<Rightarrow> HookBridgeAction \<Rightarrow> event \<Rightarrow> string \<Rightarrow> int option \<Rightarrow> nat \<Rightarrow> (string + string) option" where
  "run_action W b action ev ruleId defaultTimeoutMs n =
     (case start_action (aw_host W) b action ev ruleId defaultTimeoutMs of
        Inl message \<Rightarrow> Some (Inl message)
      | Inr q \<Rightarrow> action_result (aw_basename W) q (aw_answer W n q))"

text \<open>The bridge does not use what the action of an event returns.\<close>

definition executeBridgeAction ::
  "action_world \<Rightarrow> HookBridgeConfig \<Rightarrow> HookBridgeAction \<Rightarrow> event \<Rightarrow> string \<Rightarrow> nat \<Rightarrow> (string + unit) option" where
  "executeBridgeAction W b action ev ruleId n =
     map_option (map_sum id (\<lambda>text. ())) (run_action W b action ev ruleId None n)"

definition executeBridgeGuardAction ::
  "action_world \<Rightarrow> HookBridgeConfig \<Rightarrow> HookBridgeAction \<Rightarrow> event \<Rightarrow> string \<Rightarrow> int \<Rightarrow> nat \<Rightarrow>
   (string + HookBridgeGuardDecision option) option" where
  "executeBridgeGuardAction W b action ev ruleId defaultTimeoutMs n =
     map_option (map_sum id (parseHookBridgeDecision (aw_parse W)))
       (run_action W b action ev ruleId (Some defaultTimeoutMs) n)"

section \<open>A whole evaluation\<close>

lemma guard_rules_awaits:
  "guard_rules h b now call rules g = (AwaitsAction p, g1) \<Longrightarrow>
     pa_call p = call \<and> mhas (hb_actions b) (pa_actionId p) \<and> length (pa_rest p) < length rules"
proof (induction rules arbitrary: g)
  case (Cons rule rules)
  from Cons.prems show ?case
    by (auto simp: Let_def split: if_splits option.splits dest!: Cons.IH intro: less_SucI)
qed simp

lemma guard_resume_awaits:
  "guard_resume h b now p result g = (AwaitsAction p', g1) \<Longrightarrow>
     pa_call p' = pa_call p \<and> mhas (hb_actions b) (pa_actionId p') \<and> length (pa_rest p') < length (pa_rest p)"
  by (auto simp: guard_resume_def Let_def split: if_splits sum.splits option.splits dest!: guard_rules_awaits)

fun actions_left :: "evaluation \<times> guard_state \<Rightarrow> nat" where
  "actions_left (evaluation.Returned oc, g) = 0"
| "actions_left (AwaitsAction p, g) = Suc (length (pa_rest p))"

lemma actions_left_resume: "actions_left (guard_resume h b now p result g) < Suc (length (pa_rest p))"
proof -
  obtain e g1 where "guard_resume h b now p result g = (e, g1)" by (metis surj_pair)
  then show ?thesis by (cases e) (auto dest: guard_resume_awaits)
qed

text \<open>The decision, the state and the number of the next step; None: an action does not settle.\<close>

function await_guard ::
  "action_world \<Rightarrow> HookBridgeConfig \<Rightarrow> nat \<Rightarrow> evaluation \<times> guard_state \<Rightarrow>
   (HookBridgeGuardDecisionOutcome option \<times> guard_state \<times> nat) option" where
  "await_guard W b n (evaluation.Returned oc, g) = Some (oc, g, n)"
| "await_guard W b n (AwaitsAction p, g) =
     (case mget (hb_actions b) (pa_actionId p) of
        None \<Rightarrow> None
      | Some action \<Rightarrow>
          (case executeBridgeGuardAction W b action (gc_event (pa_call p)) (gr_id (pa_rule p))
                  (tg_timeoutMs (hb_toolGuard b)) n of
             None \<Rightarrow> None
           | Some result \<Rightarrow> await_guard W b (Suc n) (guard_resume (aw_host W) b (aw_now W n) p result g)))"
  by pat_completeness auto

termination
  by (relation "measure (\<lambda>(W, b, n, e). actions_left e)") (simp_all add: actions_left_resume)

definition evaluate_guard ::
  "action_world \<Rightarrow> HookBridgeConfig \<Rightarrow> nat \<Rightarrow> tool_call \<Rightarrow> guard_state \<Rightarrow>
   (HookBridgeGuardDecisionOutcome option \<times> guard_state \<times> nat) option" where
  "evaluate_guard W b n call g =
     await_guard W b (Suc n)
       (evaluateBeforeToolCall (aw_host W) b (aw_now W n) (aw_eventId W n) (aw_timestamp W n) call g)"

section \<open>The command (tools/replay-tool-guard.ts)\<close>

record ReplayInputCall =
  rc_toolName :: string
  rc_params :: "jsval option"
  rc_agentId :: "string option"
  rc_sessionId :: "string option"
  rc_sessionKey :: "string option"
  rc_runId :: "string option"
  rc_toolCallId :: "string option"

text \<open>The last \<open>--config\<close> and the last \<open>--input\<close> count; other arguments are skipped.\<close>

fun parse_options :: "string list \<Rightarrow> string \<times> string \<Rightarrow> string \<times> string" where
  "parse_options [] (configPath, inputPath) = (configPath, inputPath)"
| "parse_options (arg # argv) (configPath, inputPath) =
     (if arg = ''--config'' then
        (case argv of [] \<Rightarrow> ([], inputPath) | v # rest \<Rightarrow> parse_options rest (v, inputPath))
      else if arg = ''--input'' then
        (case argv of [] \<Rightarrow> (configPath, []) | v # rest \<Rightarrow> parse_options rest (configPath, v))
      else parse_options argv (configPath, inputPath))"

definition usage :: string where
  "usage = ''Usage: node dist/tools/replay-tool-guard.js --config <config.json> --input <calls.json|calls.ndjson>''"

definition parseArgs :: "host \<Rightarrow> string list \<Rightarrow> string + string \<times> string" where
  "parseArgs h argv =
     (case parse_options argv ([], []) of (configPath, inputPath) \<Rightarrow>
        if configPath = [] \<or> inputPath = [] then Inl usage
        else Inr (h_resolve h configPath, h_resolve h inputPath))"

fun parse_lines :: "(string \<Rightarrow> string + jsval) \<Rightarrow> string list \<Rightarrow> string + jsval list" where
  "parse_lines parse [] = Inr []"
| "parse_lines parse (l # ls) =
     (case parse l of
        Inl message \<Rightarrow> Inl message
      | Inr v \<Rightarrow> (case parse_lines parse ls of Inl message \<Rightarrow> Inl message | Inr vs \<Rightarrow> Inr (v # vs)))"

text \<open>\<open>raw\<close> is the text of the file at \<open>path\<close>.\<close>

definition readReplayCalls :: "(string \<Rightarrow> string + jsval) \<Rightarrow> string \<Rightarrow> string \<Rightarrow> string + jsval list" where
  "readReplayCalls parse path raw =
     (if ends_with path ''.ndjson''
      then parse_lines parse (filter (\<lambda>l. l \<noteq> []) (map js_trim (js_split (CHR 0x0A) raw)))
      else (case parse raw of
              Inl message \<Rightarrow> Inl message
            | Inr (JArr calls) \<Rightarrow> Inr calls
            | Inr _ \<Rightarrow> Inl ''Input must be a JSON array or NDJSON file''))"

text \<open>A value that is of the type \<open>ReplayInputCall\<close>, to which the parsed values are cast.\<close>

definition optional_string :: "jsval \<Rightarrow> bool" where
  "optional_string v \<longleftrightarrow> v = JUndef \<or> readString v \<noteq> None"

definition typed_call :: "jsval \<Rightarrow> bool" where
  "typed_call v \<longleftrightarrow> isRecord v \<and> readString (jprop v ''toolName'') \<noteq> None \<and>
     (is_nullish (jprop v ''params'') \<or> isRecord (jprop v ''params'')) \<and>
     list_all (\<lambda>k. optional_string (jprop v k)) [''agentId'', ''sessionId'', ''sessionKey'', ''runId'', ''toolCallId'']"

definition replay_input :: "jsval \<Rightarrow> ReplayInputCall" where
  "replay_input v =
     \<lparr> rc_toolName = default_to [] (readString (jprop v ''toolName'')),
       rc_params = (if is_nullish (jprop v ''params'') then None else Some (jprop v ''params'')),
       rc_agentId = readString (jprop v ''agentId''), rc_sessionId = readString (jprop v ''sessionId''),
       rc_sessionKey = readString (jprop v ''sessionKey''), rc_runId = readString (jprop v ''runId''),
       rc_toolCallId = readString (jprop v ''toolCallId'') \<rparr>"

definition replayed_call :: "ReplayInputCall \<Rightarrow> tool_call" where
  "replayed_call c =
     \<lparr> tl_toolName = rc_toolName c, tl_params = default_to (JObj []) (rc_params c), tl_agentId = rc_agentId c,
       tl_sessionId = rc_sessionId c, tl_sessionKey = rc_sessionKey c, tl_runId = rc_runId c,
       tl_toolCallId = rc_toolCallId c \<rparr>"

record ReplayRow =
  rw_index :: nat
  rw_toolName :: string
  rw_blocked :: bool
  rw_reason :: "string option"
  rw_matchedRuleId :: "string option"
  rw_source :: "string option"

definition replay_row :: "nat \<Rightarrow> ReplayInputCall \<Rightarrow> HookBridgeGuardDecisionOutcome option \<Rightarrow> ReplayRow" where
  "replay_row index c decision =
     \<lparr> rw_index = index, rw_toolName = rc_toolName c,
       rw_blocked = (case decision of None \<Rightarrow> False | Some d \<Rightarrow> gd_block d = Some True),
       rw_reason = Option.bind decision gd_blockReason, rw_matchedRuleId = Option.bind decision oc_matchedRuleId,
       rw_source = Option.bind decision oc_decisionSource \<rparr>"

text \<open>None: an action does not settle, and neither does the replay.\<close>

fun replay_rows ::
  "action_world \<Rightarrow> HookBridgeConfig \<Rightarrow> nat \<Rightarrow> guard_state \<Rightarrow> nat \<Rightarrow> ReplayInputCall list \<Rightarrow> ReplayRow list option" where
  "replay_rows W b n g index [] = Some []"
| "replay_rows W b n g index (c # cs) =
     (case evaluate_guard W b n (replayed_call c) g of
        None \<Rightarrow> None
      | Some (decision, g1, n1) \<Rightarrow>
          map_option (Cons (replay_row index c decision)) (replay_rows W b n1 g1 (Suc index) cs))"

text \<open>
  The output of the command: the rows, or the message of an error.  \<open>merged\<close> reads a configuration file and
  merges it with the defaults and \<open>input\<close> reads an input file; both may fail.  An input whose values are not of
  the declared type is outside the model.
\<close>

datatype replay_output = Rows "ReplayRow list" | ErrorText string | Unsettled | Untyped

definition replay_calls :: "action_world \<Rightarrow> HookBridgeConfig \<Rightarrow> jsval list \<Rightarrow> replay_output" where
  "replay_calls W b calls =
     (if \<not> list_all typed_call calls then Untyped
      else (case replay_rows W b 0 new_guard 0 (map replay_input calls) of
              None \<Rightarrow> Unsettled
            | Some rows \<Rightarrow> Rows rows))"

definition replay_main ::
  "action_world \<Rightarrow> platform \<Rightarrow> string list \<Rightarrow> (string \<Rightarrow> string + PluginConfig) \<Rightarrow> (string \<Rightarrow> string + string) \<Rightarrow> replay_output" where
  "replay_main W pl argv merged input =
     (case parseArgs (aw_host W) argv of
        Inl message \<Rightarrow> ErrorText message
      | Inr (configPath, inputPath) \<Rightarrow>
          (case merged configPath of
             Inl message \<Rightarrow> ErrorText message
           | Inr userConfig \<Rightarrow>
               let config = resolveRuntimeConfig (aw_host W) pl userConfig; validation = validateConfig (aw_host W) config in
               if \<not> fst validation
               then ErrorText (''Invalid config:'' @ [CHR 0x0A] @ js_join [CHR 0x0A] (snd validation))
               else (case input inputPath of
                       Inl message \<Rightarrow> ErrorText message
                     | Inr raw \<Rightarrow>
                         (case readReplayCalls (aw_parse W) inputPath raw of
                            Inl message \<Rightarrow> ErrorText message
                          | Inr calls \<Rightarrow> replay_calls W (pc_hookBridge config) calls))))"

section \<open>An evaluation decides after at most one action per rule\<close>

definition settles_actions :: "action_world \<Rightarrow> bool" where
  "settles_actions W \<longleftrightarrow> (\<forall>n q. action_result (aw_basename W) q (aw_answer W n q) \<noteq> None)"

lemma run_action_settles: "settles_actions W \<Longrightarrow> run_action W b action ev ruleId d n \<noteq> None"
  by (simp add: run_action_def settles_actions_def split: sum.splits)

fun known_action :: "HookBridgeConfig \<Rightarrow> evaluation \<times> guard_state \<Rightarrow> bool" where
  "known_action b (evaluation.Returned oc, g) = True"
| "known_action b (AwaitsAction p, g) = mhas (hb_actions b) (pa_actionId p)"

lemma known_action_resume: "known_action b (guard_resume h b now p result g)"
proof -
  obtain e g1 where "guard_resume h b now p result g = (e, g1)" by (metis surj_pair)
  then show ?thesis by (cases e) (auto dest: guard_resume_awaits)
qed

lemma await_decides:
  "settles_actions W \<Longrightarrow> known_action b e \<Longrightarrow>
     \<exists>oc g n1. await_guard W b n e = Some (oc, g, n1) \<and> n1 \<le> n + actions_left e"
proof (induction W b n e rule: await_guard.induct)
  case (2 W b n p g)
  obtain action where a: "mget (hb_actions b) (pa_actionId p) = Some action"
    using 2(3) by auto
  obtain result where r: "executeBridgeGuardAction W b action (gc_event (pa_call p)) (gr_id (pa_rule p))
      (tg_timeoutMs (hb_toolGuard b)) n = Some result"
    using run_action_settles [OF 2(2), of b action "gc_event (pa_call p)" "gr_id (pa_rule p)"
        "Some (tg_timeoutMs (hb_toolGuard b))" n]
    by (auto simp: executeBridgeGuardAction_def)
  from 2(1) [OF a r 2(2) known_action_resume] actions_left_resume [of "aw_host W" b "aw_now W n" p result g]
  show ?case by (auto simp: a r)
qed simp

section \<open>A replay is a run of the guard\<close>

fun in_scope :: "string \<Rightarrow> evaluation \<times> guard_state \<Rightarrow> bool" where
  "in_scope scope (evaluation.Returned oc, g) = True"
| "in_scope scope (AwaitsAction p, g) = (gc_scopeKey (pa_call p) = scope)"

lemma in_scope_resume: "gc_scopeKey (pa_call p) = scope \<Longrightarrow> in_scope scope (guard_resume h b now p result g)"
proof -
  assume s: "gc_scopeKey (pa_call p) = scope"
  obtain e g1 where "guard_resume h b now p result g = (e, g1)" by (metis surj_pair)
  with s show ?thesis by (cases e) (auto dest: guard_resume_awaits)
qed

lemma rules_parts:
  "gc_scopeKey call = scope \<Longrightarrow> in_scope scope (guard_rules h b now call rules g)"
  "known_action b (guard_rules h b now call rules g)"
  "actions_left (guard_rules h b now call rules g) \<le> length rules"
proof -
  obtain e g1 where "guard_rules h b now call rules g = (e, g1)" by (metis surj_pair)
  then show "gc_scopeKey call = scope \<Longrightarrow> in_scope scope (guard_rules h b now call rules g)"
    "known_action b (guard_rules h b now call rules g)" "actions_left (guard_rules h b now call rules g) \<le> length rules"
    by (cases e; auto dest: guard_rules_awaits)+
qed

lemma evaluate_parts:
  "in_scope (scope_of h (hb_toolGuard b) c) (evaluateBeforeToolCall h b now i ts c g)"
  "known_action b (evaluateBeforeToolCall h b now i ts c g)"
  "actions_left (evaluateBeforeToolCall h b now i ts c g) \<le> length (tg_rules (hb_toolGuard b))"
  using rules_parts [where h = h and b = b and now = now and rules = "sortedRules (hb_toolGuard b)"]
  by (auto simp: evaluateBeforeToolCall_def Let_def sortedRules_def length_sort_by split: option.splits)

text \<open>
  The steps of the guard that happen in a world, when the calls come one after the other: each takes its time, ids and
  answers from the world, at its own number; a call is evaluated when no other is, and what settles is an action that
  an evaluation awaits, with the result of that action.
\<close>

fun world_op :: "action_world \<Rightarrow> HookBridgeConfig \<Rightarrow> nat \<Rightarrow> guard_machine \<Rightarrow> guard_op \<Rightarrow> bool" where
  "world_op W b n m (Evaluate now eventId timestamp c) =
     (gm_inflight m = [] \<and> now = aw_now W n \<and> eventId = aw_eventId W n \<and> timestamp = aw_timestamp W n)"
| "world_op W b n m (ActionSettles i now result) =
     (case mget (gm_inflight m) i of
        None \<Rightarrow> False
      | Some p \<Rightarrow>
          (case mget (hb_actions b) (pa_actionId p) of
             None \<Rightarrow> False
           | Some action \<Rightarrow> now = aw_now W n \<and>
               executeBridgeGuardAction W b action (gc_event (pa_call p)) (gr_id (pa_rule p))
                 (tg_timeoutMs (hb_toolGuard b)) n = Some result))"
| "world_op W b n m op = False"

fun world_run :: "action_world \<Rightarrow> HookBridgeConfig \<Rightarrow> nat \<Rightarrow> guard_machine \<Rightarrow> guard_op list \<Rightarrow> bool" where
  "world_run W b n m [] = True"
| "world_run W b n m (a # ops) \<longleftrightarrow>
     world_op W b n m a \<and> world_run W b (Suc n) (guard_step (aw_host W) b a m) ops"

text \<open>The tool calls that a run evaluates.\<close>

fun evaluated :: "guard_op list \<Rightarrow> tool_call list" where
  "evaluated [] = []"
| "evaluated (Evaluate now eventId timestamp c # ops) = c # evaluated ops"
| "evaluated (a # ops) = evaluated ops"

lemma evaluated_append: "evaluated (xs @ ys) = evaluated xs @ evaluated ys"
  by (induction xs rule: evaluated.induct) simp_all

lemma world_run_append:
  "world_run W b n m (xs @ ys) \<longleftrightarrow>
     world_run W b n m xs \<and> world_run W b (n + length xs) (fold (guard_step (aw_host W) b) xs m) ys"
  by (induction xs arbitrary: n m) simp_all

lemma mdel_mput: "mdel i (mput i p m) = mdel i m"
  by (induction m) auto

lemma await_machine:
  "await_guard W b n e = Some (oc, g, n1) \<Longrightarrow> in_scope scope e \<Longrightarrow> mdel i (gm_inflight m) = [] \<Longrightarrow>
     \<exists>ops now1. fold (guard_step (aw_host W) b) ops (finish_evaluation i scope now e m) =
       m\<lparr>gm_state := g, gm_inflight := [], gm_returned := gm_returned m @ [(i, scope, now1, oc)]\<rparr> \<and>
       world_run W b n (finish_evaluation i scope now e m) ops \<and> n1 = n + length ops \<and> evaluated ops = []"
proof (induction W b n e arbitrary: m now rule: await_guard.induct)
  case (1 W b n d g')
  then show ?case by (intro exI [of _ "[]"] exI [of _ now]) (simp add: finish_evaluation_def)
next
  case (2 W b n p g')
  obtain action result where a: "mget (hb_actions b) (pa_actionId p) = Some action"
    and r: "executeBridgeGuardAction W b action (gc_event (pa_call p)) (gr_id (pa_rule p))
      (tg_timeoutMs (hb_toolGuard b)) n = Some result"
    and rest: "await_guard W b (Suc n) (guard_resume (aw_host W) b (aw_now W n) p result g') = Some (oc, g, n1)"
    using 2(2) by (auto split: option.splits)
  let ?m = "m\<lparr>gm_state := g', gm_inflight := mput i p (gm_inflight m)\<rparr>"
  let ?next = "finish_evaluation i scope (aw_now W n) (guard_resume (aw_host W) b (aw_now W n) p result g') ?m"
  have s: "gc_scopeKey (pa_call p) = scope" using 2(3) by simp
  have d: "mdel i (gm_inflight ?m) = []" using 2(4) by (simp add: mdel_mput)
  obtain ops now1 where ops: "fold (guard_step (aw_host W) b) ops ?next =
      ?m\<lparr>gm_state := g, gm_inflight := [], gm_returned := gm_returned ?m @ [(i, scope, now1, oc)]\<rparr>"
      "world_run W b (Suc n) ?next ops" "n1 = Suc n + length ops" "evaluated ops = []"
    using 2(1) [OF a r rest in_scope_resume [OF s] d] by blast
  let ?all = "ActionSettles i (aw_now W n) result # ops"
  have start: "finish_evaluation i scope now (AwaitsAction p, g') m = ?m" by (simp add: finish_evaluation_def)
  have "guard_step (aw_host W) b (ActionSettles i (aw_now W n) result) ?m = ?next" by (simp add: s)
  then have "fold (guard_step (aw_host W) b) ?all (finish_evaluation i scope now (AwaitsAction p, g') m) =
      m\<lparr>gm_state := g, gm_inflight := [], gm_returned := gm_returned m @ [(i, scope, now1, oc)]\<rparr>"
    "world_run W b n (finish_evaluation i scope now (AwaitsAction p, g') m) ?all"
    using ops(1,2) a r unfolding start by simp_all
  moreover have "n1 = n + length ?all" "evaluated ?all = []" using ops(3,4) by simp_all
  ultimately show ?case by blast
qed

lemma evaluation_machine:
  assumes "evaluate_guard W b n c (gm_state m) = Some (oc, g, n1)" "gm_inflight m = []"
  shows "\<exists>ops now1. fold (guard_step (aw_host W) b) ops m =
      m\<lparr>gm_state := g, gm_next := Suc (gm_next m),
        gm_returned := gm_returned m @ [(gm_next m, scope_of (aw_host W) (hb_toolGuard b) c, now1, oc)]\<rparr> \<and>
    world_run W b n m ops \<and> n1 = n + length ops \<and> evaluated ops = [c]"
proof -
  let ?scope = "scope_of (aw_host W) (hb_toolGuard b) c" and ?m = "m\<lparr>gm_next := Suc (gm_next m)\<rparr>"
  let ?e = "evaluateBeforeToolCall (aw_host W) b (aw_now W n) (aw_eventId W n) (aw_timestamp W n) c (gm_state m)"
  let ?next = "finish_evaluation (gm_next m) ?scope (aw_now W n) ?e ?m"
  have "mdel (gm_next m) (gm_inflight ?m) = []" using assms(2) by simp
  from await_machine [OF assms(1) [unfolded evaluate_guard_def] evaluate_parts(1) this, of "aw_now W n"]
  obtain ops now1 where ops: "fold (guard_step (aw_host W) b) ops ?next =
      ?m\<lparr>gm_state := g, gm_inflight := [], gm_returned := gm_returned ?m @ [(gm_next m, ?scope, now1, oc)]\<rparr>"
      "world_run W b (Suc n) ?next ops" "n1 = Suc n + length ops" "evaluated ops = []" by blast
  let ?all = "Evaluate (aw_now W n) (aw_eventId W n) (aw_timestamp W n) c # ops"
  have "fold (guard_step (aw_host W) b) ?all m =
      m\<lparr>gm_state := g, gm_next := Suc (gm_next m), gm_returned := gm_returned m @ [(gm_next m, ?scope, now1, oc)]\<rparr>"
    "world_run W b n m ?all"
    using ops(1,2) assms(2) by simp_all
  moreover have "n1 = n + length ?all" "evaluated ?all = [c]" using ops(3,4) by simp_all
  ultimately show ?thesis by blast
qed

lemma replay_machine:
  "replay_rows W b n (gm_state m) (gm_next m) calls = Some rows \<Longrightarrow> gm_inflight m = [] \<Longrightarrow>
     \<exists>ops m1 rets. m1 = fold (guard_step (aw_host W) b) ops m \<and> gm_inflight m1 = [] \<and>
       world_run W b n m ops \<and> evaluated ops = map replayed_call calls \<and>
       gm_returned m1 = gm_returned m @ rets \<and> map fst rets = [gm_next m ..< gm_next m + length calls] \<and>
       rows = map2 (\<lambda>c (i, scope, now, oc). replay_row i c oc) calls rets"
proof (induction calls arbitrary: n m rows)
  case Nil
  then show ?case by (intro exI [of _ "[]"]) simp
next
  case (Cons c cs)
  obtain oc g n1 rest where e: "evaluate_guard W b n (replayed_call c) (gm_state m) = Some (oc, g, n1)"
    and rest: "replay_rows W b n1 g (Suc (gm_next m)) cs = Some rest" "rows = replay_row (gm_next m) c oc # rest"
    using Cons.prems(1) by (auto split: option.splits)
  let ?scope = "scope_of (aw_host W) (hb_toolGuard b) (replayed_call c)"
  obtain ops now where ops: "fold (guard_step (aw_host W) b) ops m = m\<lparr>gm_state := g, gm_next := Suc (gm_next m),
      gm_returned := gm_returned m @ [(gm_next m, ?scope, now, oc)]\<rparr>" (is "_ = ?m")
    and run: "world_run W b n m ops" "n1 = n + length ops" "evaluated ops = [replayed_call c]"
    using evaluation_machine [OF e Cons.prems(2)] by blast
  have "replay_rows W b n1 (gm_state ?m) (gm_next ?m) cs = Some rest" "gm_inflight ?m = []"
    using rest(1) Cons.prems(2) by simp_all
  from Cons.IH [OF this] obtain ops1 m1 rets where m1: "m1 = fold (guard_step (aw_host W) b) ops1 ?m" "gm_inflight m1 = []"
      "world_run W b n1 ?m ops1" "evaluated ops1 = map replayed_call cs"
      "gm_returned m1 = gm_returned ?m @ rets" "map fst rets = [gm_next ?m ..< gm_next ?m + length cs]"
      "rest = map2 (\<lambda>c (i, scope, now, oc). replay_row i c oc) cs rets" by blast
  have "m1 = fold (guard_step (aw_host W) b) (ops @ ops1) m" using m1(1) ops by simp
  moreover have "world_run W b n m (ops @ ops1)" using run(1) m1(3) unfolding world_run_append ops run(2) by blast
  moreover have "evaluated (ops @ ops1) = map replayed_call (c # cs)" using run(3) m1(4) by (simp add: evaluated_append)
  moreover have "gm_returned m1 = gm_returned m @ (gm_next m, ?scope, now, oc) # rets" using m1(5) by simp
  moreover have "[gm_next m ..< gm_next m + length (c # cs)] = gm_next m # [Suc (gm_next m) ..< Suc (gm_next m) + length cs]"
    by (subst upt_conv_Cons) (simp_all del: upt_Suc)
  ultimately show ?case
    using m1(2,6,7) rest(2) by (intro exI [of _ "ops @ ops1"] exI [of _ m1] exI [of _ "(gm_next m, ?scope, now, oc) # rets"]) simp
qed

section \<open>Properties\<close>

text \<open>
  C29. An evaluation of the tool guard comes to a decision after at most one action per rule, if every action that
  it starts is answered, however the answers and the time look.
\<close>

theorem guard_decides:
  assumes "settles_actions W"
  shows "\<exists>decision g1 n1. evaluate_guard W b n c g = Some (decision, g1, n1) \<and>
    n1 \<le> Suc n + length (tg_rules (hb_toolGuard b))"
proof -
  obtain decision g1 n1 where "evaluate_guard W b n c g = Some (decision, g1, n1)"
    "n1 \<le> Suc n + actions_left (evaluateBeforeToolCall (aw_host W) b (aw_now W n) (aw_eventId W n) (aw_timestamp W n) c g)"
    using await_decides [OF assms evaluate_parts(2)] unfolding evaluate_guard_def by metis
  with evaluate_parts(3) show ?thesis by (meson add_left_mono order_trans)
qed

text \<open>
  C30. The replay command shows what the tool guard of the plugin does. When it prints rows, there is a run of the
  guard from its initial state, in the world of the command, that evaluates one after the other exactly the
  calls that the input file states, each with the tool, the parameters (none: the empty object), the agent, the session,
  the run and the call id of its JSON value; and the rows have, in the order of the calls, the index, the
  tool, whether the guard blocks the call, its reason, the rule that matched and the source of the decision that this run
  returns for the call.
\<close>

theorem replay_refines_guard:
  assumes "replay_calls W b inputs = Rows rows"
  shows "\<exists>ops. world_run W b 0 new_machine ops \<and>
    evaluated ops = map (\<lambda>v.
      \<lparr> tl_toolName = default_to [] (readString (jprop v ''toolName'')),
        tl_params = (if is_nullish (jprop v ''params'') then JObj [] else jprop v ''params''),
        tl_agentId = readString (jprop v ''agentId''), tl_sessionId = readString (jprop v ''sessionId''),
        tl_sessionKey = readString (jprop v ''sessionKey''), tl_runId = readString (jprop v ''runId''),
        tl_toolCallId = readString (jprop v ''toolCallId'') \<rparr>) inputs \<and>
    (let returned = gm_returned (fold (guard_step (aw_host W) b) ops new_machine) in
       map fst returned = [0..<length inputs] \<and>
       rows = map2 (\<lambda>v (i, scope, now, decision).
         \<lparr> rw_index = i, rw_toolName = default_to [] (readString (jprop v ''toolName'')),
           rw_blocked = (Option.bind decision gd_block = Some True),
           rw_reason = Option.bind decision gd_blockReason,
           rw_matchedRuleId = Option.bind decision oc_matchedRuleId,
           rw_source = Option.bind decision oc_decisionSource \<rparr>) inputs returned)"
proof -
  have "replay_rows W b 0 (gm_state new_machine) (gm_next new_machine) (map replay_input inputs) = Some rows"
    using assms by (auto simp: replay_calls_def new_machine_def split: if_splits option.splits)
  from replay_machine [OF this] obtain ops rets where run: "world_run W b 0 new_machine ops"
    and calls: "evaluated ops = map replayed_call (map replay_input inputs)"
    and rets: "gm_returned (fold (guard_step (aw_host W) b) ops new_machine) = rets" "map fst rets = [0..<length inputs]"
    and rows: "rows = map2 (\<lambda>c (i, scope, now, oc). replay_row i c oc) (map replay_input inputs) rets"
    by (auto simp: new_machine_def)
  have "replayed_call (replay_input v) =
      \<lparr> tl_toolName = default_to [] (readString (jprop v ''toolName'')),
        tl_params = (if is_nullish (jprop v ''params'') then JObj [] else jprop v ''params''),
        tl_agentId = readString (jprop v ''agentId''), tl_sessionId = readString (jprop v ''sessionId''),
        tl_sessionKey = readString (jprop v ''sessionKey''), tl_runId = readString (jprop v ''runId''),
        tl_toolCallId = readString (jprop v ''toolCallId'') \<rparr>" for v
    by (simp add: replayed_call_def replay_input_def)
  moreover have "replay_row i (replay_input v) oc =
      \<lparr> rw_index = i, rw_toolName = default_to [] (readString (jprop v ''toolName'')),
        rw_blocked = (Option.bind oc gd_block = Some True), rw_reason = Option.bind oc gd_blockReason,
        rw_matchedRuleId = Option.bind oc oc_matchedRuleId, rw_source = Option.bind oc oc_decisionSource \<rparr>" for i v oc
    by (cases oc) (simp_all add: replay_row_def replay_input_def)
  ultimately show ?thesis
    using run calls rets rows by (intro exI [of _ ops]) (simp add: comp_def zip_map1 split_def)
qed

text \<open>A replay in dry-run mode blocks nothing.\<close>

lemma dry_replay_blocks_nothing:
  assumes "tg_dryRun (hb_toolGuard b)" "tg_onError (hb_toolGuard b) = ''allow''" "replay_rows W b 0 new_guard 0 calls = Some rows"
  shows "\<forall>row \<in> set rows. \<not> rw_blocked row"
proof -
  have "replay_rows W b 0 (gm_state new_machine) (gm_next new_machine) calls = Some rows"
    using assms(3) by (simp add: new_machine_def)
  from replay_machine [OF this] obtain ops rets where
    "gm_returned (fold (guard_step (aw_host W) b) ops new_machine) = rets"
    "rows = map2 (\<lambda>c (i, scope, now, oc). replay_row i c oc) calls rets"
    by (auto simp: new_machine_def)
  moreover have "list_all (\<lambda>(i, scope, now, oc). no_block oc) (gm_returned (fold (guard_step (aw_host W) b) ops new_machine))"
    by (rule dry_run_never_blocks [OF assms(1,2)])
  ultimately show ?thesis
    by (fastforce simp: list_all_iff replay_row_def no_block_def dest!: set_zip_rightD split: option.splits)
qed

section \<open>A concrete replay\<close>

definition failing_answer :: "action_request \<Rightarrow> action_answer" where
  "failing_answer q = (case q of HttpRequest u m hs body t \<Rightarrow> HttpFailed ''no network'' | RunScript p args body t \<Rightarrow> ScriptEvents [ChildError ''ENOENT''])"

definition sample_world :: action_world where
  "sample_world = \<lparr> aw_host = sample_host, aw_parse = (\<lambda>text. Inl ''not JSON''), aw_basename = (\<lambda>path. path),
     aw_now = (\<lambda>n. 1000 + 100 * int n), aw_eventId = show_nat, aw_timestamp = show_nat, aw_answer = (\<lambda>n. failing_answer) \<rparr>"

lemma sample_settles: "settles_actions sample_world"
  by (simp add: settles_actions_def sample_world_def action_result_def failing_answer_def settle_script_def new_script_run_def
      split: action_request.split)

definition asking_rule :: HookBridgeToolGuardRule where
  "asking_rule = (deny_rule ''ask'' 1 True)\<lparr>gr_decision := None, gr_action := Some ''hook''\<rparr>"

definition asking_bridge :: HookBridgeConfig where
  "asking_bridge = guard_bridge\<lparr>hb_actions := [(''hook'', WebhookAction
       \<lparr> wa_url = ''http://guard'', wa_method = None, wa_headers = None, wa_authToken = None, wa_timeoutMs = None \<rparr>)],
     hb_toolGuard := (hb_toolGuard guard_bridge)\<lparr>tg_rules := [asking_rule], tg_onError := ''block''\<rparr>\<rparr>"

definition exec_inputs :: "jsval list" where
  "exec_inputs = [JObj [(''toolName'', JStr ''exec'')], JObj [(''toolName'', JStr ''exec''), (''agentId'', JStr ''a'')]]"

text \<open>The webhook of the guard fails, so the first call is blocked; the second one is a retry in its backoff.\<close>

lemma sample_replay:
  "replay_calls sample_world asking_bridge exec_inputs = Rows
     [\<lparr> rw_index = 0, rw_toolName = ''exec'', rw_blocked = True,
        rw_reason = Some (''Tool guard failed for rule '' @ [CHR 0x22] @ ''ask'' @ [CHR 0x22] @ '': no network''),
        rw_matchedRuleId = Some ''ask'', rw_source = Some ''action'' \<rparr>,
      \<lparr> rw_index = 1, rw_toolName = ''exec'', rw_blocked = True,
        rw_reason = Some ''Retry blocked. Back off briefly before retrying this tool call.'',
        rw_matchedRuleId = None, rw_source = Some ''backoff'' \<rparr>]"
  by code_simp

theorem guard_decides_witness:
  "\<exists>decision g1 n1. evaluate_guard sample_world asking_bridge 0 exec_call new_guard = Some (decision, g1, n1) \<and>
     n1 \<le> Suc 0 + length (tg_rules (hb_toolGuard asking_bridge))"
  by (rule guard_decides [OF sample_settles])

theorem replay_refines_guard_witness:
  "\<exists>ops. world_run sample_world asking_bridge 0 new_machine ops \<and> map tl_agentId (evaluated ops) = [None, Some ''a''] \<and>
     map fst (gm_returned (fold (guard_step sample_host asking_bridge) ops new_machine)) = [0, 1]"
proof -
  have w: "aw_host sample_world = sample_host" "[0..<length exec_inputs] = [0, 1]"
    by (simp_all add: sample_world_def exec_inputs_def upt_rec)
  from replay_refines_guard [OF sample_replay] show ?thesis
    unfolding Let_def w by (elim exE conjE, intro exI conjI) (assumption | simp add: exec_inputs_def)+
qed

end
