(* ===== verification/RuntimeLogging.thy ===== *)
theory RuntimeLogging imports EventLog Manager begin

text \<open>
  What the plugin writes about itself: the process-wide logger of \<open>src/logging/runtime-logger.ts\<close>, the logger
  that \<open>createPlugin\<close> of \<open>src/index.ts\<close> builds on it, with its copy in the log file, and the context of
  the transport messages, \<open>src/transport/log-context.ts\<close>.  An \<open>Error\<close> has no enumerable property
  of its own.
\<close>

section \<open>The logger of the process (logging/runtime-logger.ts)\<close>

datatype log_method = DebugMethod | InfoMethod | WarnMethod | ErrorMethod

text \<open>A logger that \<open>setRuntimeLogger\<close> got from elsewhere is known by a number.\<close>

datatype runtime_logger = ConsoleLogger | NoopLogger | SuppliedLogger nat

datatype log_output =
    ConsoleCall string "jsval list"
  | SuppliedCall nat log_method "jsval list"

definition createConsoleLogger :: runtime_logger where
  "createConsoleLogger = ConsoleLogger"

definition createNoopRuntimeLogger :: runtime_logger where
  "createNoopRuntimeLogger = NoopLogger"

text \<open>The variable \<open>runtimeLogger\<close> of the module is the state.\<close>

definition getRuntimeLogger :: "runtime_logger \<Rightarrow> runtime_logger" where
  "getRuntimeLogger current = current"

definition setRuntimeLogger :: "runtime_logger \<Rightarrow> runtime_logger \<Rightarrow> runtime_logger" where
  "setRuntimeLogger logger current = logger"

definition resetRuntimeLogger :: "runtime_logger \<Rightarrow> runtime_logger" where
  "resetRuntimeLogger current = createConsoleLogger"

fun console_method :: "log_method \<Rightarrow> string" where
  "console_method DebugMethod = ''debug''"
| "console_method InfoMethod = ''log''"
| "console_method WarnMethod = ''warn''"
| "console_method ErrorMethod = ''error''"

definition call_logger :: "runtime_logger \<Rightarrow> log_method \<Rightarrow> jsval list \<Rightarrow> log_output list" where
  "call_logger logger m args =
     (case logger of
        ConsoleLogger \<Rightarrow> [ConsoleCall (console_method m) args]
      | NoopLogger \<Rightarrow> []
      | SuppliedLogger i \<Rightarrow> [SuppliedCall i m args])"

section \<open>The logger of the plugin (index.ts)\<close>

datatype plugin_log_method = LogDebug | LogInfo | LogWarn | LogError | LogQueue

text \<open>Whether the configuration lets the message through.\<close>

fun log_enabled :: "LoggingConfig \<Rightarrow> plugin_log_method \<Rightarrow> bool" where
  "log_enabled c LogDebug = lg_debug c"
| "log_enabled c LogInfo = True"
| "log_enabled c LogWarn = True"
| "log_enabled c LogError = lg_logErrors c"
| "log_enabled c LogQueue = lg_logQueue c"

text \<open>The method of the runtime logger, the prefix and the level in the log file.\<close>

fun log_route :: "plugin_log_method \<Rightarrow> log_method \<times> string \<times> string" where
  "log_route LogDebug = (DebugMethod, ''[event-plugin:debug]'', ''debug'')"
| "log_route LogInfo = (InfoMethod, ''[event-plugin:info]'', ''info'')"
| "log_route LogWarn = (WarnMethod, ''[event-plugin:warn]'', ''warn'')"
| "log_route LogError = (ErrorMethod, ''[event-plugin:error]'', ''error'')"
| "log_route LogQueue = (DebugMethod, ''[event-plugin:queue]'', ''debug'')"

definition plugin_log ::
  "PluginConfig \<Rightarrow> runtime_logger \<Rightarrow> string \<Rightarrow> plugin_log_method \<Rightarrow> jsval list \<Rightarrow> event_logger option \<Rightarrow>
   log_output list \<times> event_logger option" where
  "plugin_log c logger nowIso m args file =
     (if \<not> log_enabled (pc_logging c) m then ([], file)
      else case log_route m of (base, prefix, level) \<Rightarrow>
        (call_logger (getRuntimeLogger logger) base (JStr prefix # args),
         map_option (logRuntime (pc_eventLog c) nowIso level prefix args) file))"

text \<open>The text that the plugin makes of an error for the runtime logger.\<close>

definition toMessage :: "jsval list \<Rightarrow> string" where
  "toMessage args =
     js_join '' '' (map (\<lambda>v. case v of JStr s \<Rightarrow> s | _ \<Rightarrow> default_to [] (json_stringify v)) args)"

section \<open>The context of transport messages (transport/log-context.ts)\<close>

record log_params =
  lp_config :: TransportConfig
  lp_runtimeId :: string
  lp_role :: TransportRole
  lp_pendingEvents :: int
  lp_reason :: "string option"
  lp_error :: "string option"
  lp_extra :: "jsobj option"

fun role_name :: "TransportRole \<Rightarrow> string" where
  "role_name Owner = ''owner''"
| "role_name Follower = ''follower''"

definition buildTransportLogContext :: "log_params \<Rightarrow> jsobj" where
  "buildTransportLogContext p =
     [(''runtimeId'', JStr (lp_runtimeId p)), (''transportMode'', JStr (tc_mode (lp_config p))),
      (''role'', JStr (role_name (lp_role p))), (''socketPath'', JStr (tc_socketPath (lp_config p))),
      (''lockPath'', JStr (tc_lockPath (lp_config p))), (''pendingEvents'', JNum (lp_pendingEvents p))] @
     (if truthy_str (lp_reason p) then [(''reason'', of_str (lp_reason p))] else []) @
     (if truthy_str (lp_error p) then [(''error'', of_str (lp_error p))] else [])"

definition transport_log_args :: "string \<Rightarrow> log_params \<Rightarrow> jsval list" where
  "transport_log_args message p =
     [JStr message, JObj (spread (buildTransportLogContext p) (default_to [] (lp_extra p)))]"

definition logTransportInfo ::
  "PluginConfig \<Rightarrow> runtime_logger \<Rightarrow> string \<Rightarrow> string \<Rightarrow> log_params \<Rightarrow> event_logger option \<Rightarrow>
   log_output list \<times> event_logger option" where
  "logTransportInfo c logger nowIso message p = plugin_log c logger nowIso LogInfo (transport_log_args message p)"

definition logTransportWarn ::
  "PluginConfig \<Rightarrow> runtime_logger \<Rightarrow> string \<Rightarrow> string \<Rightarrow> log_params \<Rightarrow> event_logger option \<Rightarrow>
   log_output list \<times> event_logger option" where
  "logTransportWarn c logger nowIso message p = plugin_log c logger nowIso LogWarn (transport_log_args message p)"

section \<open>Properties\<close>

lemma plugin_log_outputs: "length (fst (plugin_log c logger nowIso m args file)) \<le> 1"
  by (cases m; cases logger) (auto simp: plugin_log_def call_logger_def getRuntimeLogger_def)

text \<open>
  A message of the plugin keeps the log file within its limit: at most one line is added to the writer, and
  none unless the configuration lets the message through.
\<close>

lemma plugin_log_file:
  "\<exists>new. length new \<le> 1 \<and> snd (plugin_log c logger nowIso m args (Some s)) = Some (s\<lparr>lg_chain := lg_chain s @ new\<rparr>) \<and>
     (\<not> log_enabled (pc_logging c) m \<longrightarrow> new = [])"
proof (cases "log_enabled (pc_logging c) m")
  case True
  obtain base prefix level where r: "log_route m = (base, prefix, level)" by (cases "log_route m")
  have "\<exists>new. length new \<le> 1 \<and> logRuntime (pc_eventLog c) nowIso level prefix args s = s\<lparr>lg_chain := lg_chain s @ new\<rparr>"
    unfolding logRuntime_def enqueueWrite_def
    by (auto intro: exI [of _ "[]"] exI [of _ "[runtime_line nowIso level prefix args]"])
  with True r show ?thesis by (auto simp: plugin_log_def)
qed (auto simp: plugin_log_def intro: exI [of _ "[]"])

text \<open>The secret of the transport is not part of the context of its messages.\<close>

lemma transport_log_hides_token:
  "transport_log_args message (p\<lparr>lp_config := (lp_config p)\<lparr>tc_authToken := token\<rparr>\<rparr>) = transport_log_args message p"
  by (simp add: transport_log_args_def buildTransportLogContext_def)

text \<open>What the context says of the runtime, unless the extra properties of the message replace it.\<close>

lemma transport_log_identity:
  assumes "\<not> mhas (default_to [] (lp_extra p)) ''runtimeId''" "\<not> mhas (default_to [] (lp_extra p)) ''role''"
  shows "mget (spread (buildTransportLogContext p) (default_to [] (lp_extra p))) ''runtimeId'' = Some (JStr (lp_runtimeId p)) \<and>
    mget (spread (buildTransportLogContext p) (default_to [] (lp_extra p))) ''role'' = Some (JStr (role_name (lp_role p)))"
  using assms by (simp add: mget_spread set_mkeys_iff buildTransportLogContext_def del: set_map)

text \<open>The message of an error is lost in what the plugin tells the runtime logger about it.\<close>

lemma error_text_lost: "toMessage [JObj []] = ''{}''"
  by code_simp

end
