(* ===== verification/JsonParse.thy ===== *)
theory JsonParse imports Protocol begin

text \<open>
  \<open>JSON.parse\<close> of the language on the values of the model: the grammar of JSON with integers and with
  characters of eight bits.  The other theories take the parser as a parameter; this one is an instance that
  reads back what \<open>JSON.stringify\<close> prints and rejects every text that was cut off.
\<close>

section \<open>Tokens\<close>

definition json_ws :: "char \<Rightarrow> bool" where
  "json_ws c \<longleftrightarrow> c \<in> {CHR 0x20, CHR 0x09, CHR 0x0A, CHR 0x0D}"

definition skip_ws :: "string \<Rightarrow> string" where
  "skip_ws s = dropWhile json_ws s"

definition digit_char :: "char \<Rightarrow> bool" where
  "digit_char c \<longleftrightarrow> 48 \<le> (of_char c :: nat) \<and> (of_char c :: nat) \<le> 57"

definition hex_value :: "char \<Rightarrow> nat option" where
  "hex_value c = (let n = (of_char c :: nat) in
     if digit_char c then Some (n - 48)
     else if 97 \<le> n \<and> n \<le> 102 then Some (n - 87)
     else if 65 \<le> n \<and> n \<le> 70 then Some (n - 55)
     else None)"

fun hex_number :: "nat \<Rightarrow> string \<Rightarrow> nat option" where
  "hex_number a [] = Some a"
| "hex_number a (c # cs) = (case hex_value c of None \<Rightarrow> None | Some d \<Rightarrow> hex_number (16 * a + d) cs)"

text \<open>The character after a backslash.\<close>

definition unescape :: "char \<Rightarrow> char option" where
  "unescape c =
     (if c \<in> {CHR 0x22, CHR 0x5C, CHR ''/''} then Some c
      else if c = CHR ''b'' then Some (CHR 0x08)
      else if c = CHR ''f'' then Some (CHR 0x0C)
      else if c = CHR ''n'' then Some (CHR 0x0A)
      else if c = CHR ''r'' then Some (CHR 0x0D)
      else if c = CHR ''t'' then Some (CHR 0x09)
      else None)"

text \<open>The rest of a string after its opening quote, and what follows it.\<close>

fun parse_chars :: "string \<Rightarrow> (string \<times> string) option" where
  "parse_chars [] = None"
| "parse_chars (c # cs) =
     (if c = CHR 0x22 then Some ([], cs)
      else if c = CHR 0x5C then
        (case cs of
           [] \<Rightarrow> None
         | e # rest \<Rightarrow>
             if e = CHR ''u'' then
               (if length rest < 4 then None
                else (case hex_number 0 (take 4 rest) of
                        None \<Rightarrow> None
                      | Some n \<Rightarrow> if n < 256 then map_option (apfst (Cons (char_of n))) (parse_chars (drop 4 rest)) else None))
             else (case unescape e of
                     None \<Rightarrow> None
                   | Some x \<Rightarrow> map_option (apfst (Cons x)) (parse_chars rest)))
      else if (of_char c :: nat) < 32 then None
      else map_option (apfst (Cons c)) (parse_chars cs))"

text \<open>An integer without leading zeros; a fraction or an exponent is outside the model.\<close>

definition parse_digits :: "string \<Rightarrow> (nat \<times> string) option" where
  "parse_digits s =
     (let ds = takeWhile digit_char s; rest = dropWhile digit_char s in
      if ds = [] \<or> (hd ds = CHR ''0'' \<and> ds \<noteq> ''0'') then None
      else if rest \<noteq> [] \<and> hd rest \<in> {CHR ''.'', CHR ''e'', CHR ''E''} then None
      else Some (read_nat ds, rest))"

definition parse_literal :: "string \<Rightarrow> jsval \<Rightarrow> string \<Rightarrow> (jsval \<times> string) option" where
  "parse_literal text v s = (if starts_with s text then Some (v, drop (length text) s) else None)"

section \<open>Values\<close>

text \<open>A repeated key keeps its place and takes the later value.\<close>

definition object_of :: "(string \<times> jsval) list \<Rightarrow> jsval" where
  "object_of kvs = JObj (fold (\<lambda>(k, v). mput k v) kvs [])"

text \<open>The number bounds the nesting of the calls.\<close>

fun parse_value :: "nat \<Rightarrow> string \<Rightarrow> (jsval \<times> string) option"
  and parse_items :: "nat \<Rightarrow> string \<Rightarrow> (jsval list \<times> string) option"
  and parse_fields :: "nat \<Rightarrow> string \<Rightarrow> ((string \<times> jsval) list \<times> string) option"
where
  "parse_value 0 s = None"
| "parse_value (Suc f) s =
     (case skip_ws s of
        [] \<Rightarrow> None
      | c # cs \<Rightarrow>
          if c = CHR ''{'' then
            (case skip_ws cs of
               [] \<Rightarrow> None
             | d # ds \<Rightarrow> if d = CHR ''}'' then Some (JObj [], ds) else map_option (apfst object_of) (parse_fields f cs))
          else if c = CHR ''['' then
            (case skip_ws cs of
               [] \<Rightarrow> None
             | d # ds \<Rightarrow> if d = CHR '']'' then Some (JArr [], ds) else map_option (apfst JArr) (parse_items f cs))
          else if c = CHR 0x22 then map_option (apfst JStr) (parse_chars cs)
          else if c = CHR ''t'' then parse_literal ''true'' (JBool True) (c # cs)
          else if c = CHR ''f'' then parse_literal ''false'' (JBool False) (c # cs)
          else if c = CHR ''n'' then parse_literal ''null'' JNull (c # cs)
          else if c = CHR ''-'' then map_option (apfst (\<lambda>n. JNum (- int n))) (parse_digits cs)
          else map_option (apfst (\<lambda>n. JNum (int n))) (parse_digits (c # cs)))"
| "parse_items 0 s = None"
| "parse_items (Suc f) s =
     (case parse_value f s of
        None \<Rightarrow> None
      | Some (v, r) \<Rightarrow>
          (case skip_ws r of
             [] \<Rightarrow> None
           | c # cs \<Rightarrow>
               if c = CHR '','' then map_option (apfst (Cons v)) (parse_items f cs)
               else if c = CHR '']'' then Some ([v], cs)
               else None))"
| "parse_fields 0 s = None"
| "parse_fields (Suc f) s =
     (case skip_ws s of
        [] \<Rightarrow> None
      | q # ks \<Rightarrow>
          if q \<noteq> CHR 0x22 then None
          else (case parse_chars ks of
                  None \<Rightarrow> None
                | Some (k, r) \<Rightarrow>
                    (case skip_ws r of
                       [] \<Rightarrow> None
                     | c # cs \<Rightarrow>
                         if c \<noteq> CHR '':'' then None
                         else (case parse_value f cs of
                                 None \<Rightarrow> None
                               | Some (v, r2) \<Rightarrow>
                                   (case skip_ws r2 of
                                      [] \<Rightarrow> None
                                    | d # ds \<Rightarrow>
                                        if d = CHR '','' then map_option (apfst (Cons (k, v))) (parse_fields f ds)
                                        else if d = CHR ''}'' then Some ([(k, v)], ds)
                                        else None)))))"

definition json_parse :: "string \<Rightarrow> string + jsval" where
  "json_parse s =
     (case parse_value (Suc (length s)) s of
        Some (v, rest) \<Rightarrow> if skip_ws rest = [] then Inr v else Inl ''Unexpected non-whitespace character after JSON''
      | None \<Rightarrow> Inl ''Unexpected token'')"

section \<open>Reading what was printed\<close>

lemma hex_digit_value: "d < 16 \<Longrightarrow> hex_value (hex_digit d) = Some d"
  by (cases "d < 10") (simp_all add: hex_value_def hex_digit_def digit_char_def of_char_of Let_def)

lemma hex_control: "(n::nat) < 32 \<Longrightarrow> hex_number 0 [CHR ''0'', CHR ''0'', hex_digit (n div 16), hex_digit (n mod 16)] = Some n"
proof -
  assume "n < 32"
  moreover have "hex_value (CHR ''0'') = Some 0" by code_simp
  ultimately show ?thesis by (simp add: hex_digit_value)
qed

lemma parse_plain:
  "c \<noteq> CHR 0x22 \<Longrightarrow> c \<noteq> CHR 0x5C \<Longrightarrow> \<not> (of_char c :: nat) < 32 \<Longrightarrow>
     parse_chars (c # cs) = map_option (apfst (Cons c)) (parse_chars cs)"
  by simp

lemma parse_escaped:
  "e \<noteq> CHR ''u'' \<Longrightarrow> unescape e = Some x \<Longrightarrow> parse_chars (CHR 0x5C # e # cs) = map_option (apfst (Cons x)) (parse_chars cs)"
  by simp

lemma char_codes:
  "(char_of (34 :: nat) :: char) = CHR 0x22" "(char_of (92 :: nat) :: char) = CHR 0x5C" "(char_of (8 :: nat) :: char) = CHR 0x08"
  "(char_of (12 :: nat) :: char) = CHR 0x0C" "(char_of (10 :: nat) :: char) = CHR 0x0A" "(char_of (13 :: nat) :: char) = CHR 0x0D"
  "(char_of (9 :: nat) :: char) = CHR 0x09"
  by code_simp+

lemma char_code: "(of_char c :: nat) = n \<Longrightarrow> c = char_of n"
  by auto

lemma parse_quoted_char: "parse_chars (quote_char c @ cs) = map_option (apfst (Cons c)) (parse_chars cs)"
proof -
  let ?n = "of_char c :: nat"
  have esc: "unescape (CHR 0x22) = Some (CHR 0x22)" "unescape (CHR 0x5C) = Some (CHR 0x5C)" "unescape (CHR ''b'') = Some (CHR 0x08)"
    "unescape (CHR ''f'') = Some (CHR 0x0C)" "unescape (CHR ''n'') = Some (CHR 0x0A)" "unescape (CHR ''r'') = Some (CHR 0x0D)"
    "unescape (CHR ''t'') = Some (CHR 0x09)" by code_simp+
  consider (escaped) "?n \<in> {34, 92, 8, 12, 10, 13, 9}" | (control) "?n < 32" "?n \<notin> {34, 92, 8, 12, 10, 13, 9}"
    | (plain) "\<not> ?n < 32" "?n \<notin> {34, 92}" by auto
  then show ?thesis
  proof cases
    case escaped
    then have "c \<in> {CHR 0x22, CHR 0x5C, CHR 0x08, CHR 0x0C, CHR 0x0A, CHR 0x0D, CHR 0x09}"
      by (auto dest!: char_code simp: char_codes)
    then show ?thesis by (auto simp: quote_char_def esc)
  next
    case control
    then have q: "quote_char c = CHR 0x5C # CHR ''u'' # [CHR ''0'', CHR ''0'', hex_digit (?n div 16), hex_digit (?n mod 16)]"
      by (simp add: quote_char_def Let_def)
    show ?thesis unfolding q using hex_control [OF control(1)] control(1) by simp
  next
    case plain
    then have "quote_char c = [c]" "c \<noteq> CHR 0x22" "c \<noteq> CHR 0x5C" by (auto simp: quote_char_def Let_def)
    with plain show ?thesis using parse_plain by simp
  qed
qed

lemma parse_quoted: "parse_chars (concat (map quote_char s) @ CHR 0x22 # rest) = Some (s, rest)"
  by (induction s) (simp_all add: parse_quoted_char)

lemma digits_show_nat: "c \<in> set (show_nat n) \<Longrightarrow> digit_char c"
  using show_nat_chars by (simp add: digit_char_def)

lemma show_nat_zero: "hd (show_nat n) = CHR ''0'' \<Longrightarrow> n = 0"
proof (induction n rule: show_nat.induct)
  case (1 n)
  show ?case
  proof (cases "n < 10")
    case True
    with "1.prems" have "(char_of (48 + n) :: char) = CHR ''0''" by (subst (asm) show_nat.simps) simp
    then have "of_char (char_of (48 + n) :: char) = (48 :: nat)" by simp
    with True show ?thesis by (simp add: of_char_of)
  next
    case False
    then have "hd (show_nat (n div 10)) = CHR ''0''"
      using "1.prems" by (subst (asm) show_nat.simps) (simp add: hd_append)
    with "1.IH" [OF False] False show ?thesis by simp
  qed
qed

definition number_ends :: "string \<Rightarrow> bool" where
  "number_ends rest \<longleftrightarrow> (case rest of [] \<Rightarrow> True | c # cs \<Rightarrow> \<not> digit_char c \<and> c \<notin> {CHR ''.'', CHR ''e'', CHR ''E''})"

lemma parse_shown: "number_ends rest \<Longrightarrow> parse_digits (show_nat n @ rest) = Some (n, rest)"
proof -
  assume e: "number_ends rest"
  have all: "\<forall>c \<in> set (show_nat n). digit_char c" using digits_show_nat by blast
  with e have t: "takeWhile digit_char (show_nat n @ rest) = show_nat n" "dropWhile digit_char (show_nat n @ rest) = rest"
    by (auto simp: number_ends_def takeWhile_append dropWhile_append split: list.splits)
  have "hd (show_nat n) = CHR ''0'' \<longrightarrow> show_nat n = ''0''" 
    using show_nat_zero [of n] by (auto simp: show_nat.simps [of 0])
  with e show ?thesis
    by (auto simp: parse_digits_def Let_def t read_show_nat number_ends_def split: list.splits)
qed

text \<open>What comes back: \<open>undefined\<close> is null in an array and no property in an object.\<close>

fun received :: "jsval \<Rightarrow> jsval"
  and received_items :: "jsval list \<Rightarrow> jsval list"
  and received_fields :: "jsobj \<Rightarrow> (string \<times> jsval) list"
where
  "received JUndef = JNull"
| "received (JArr xs) = JArr (received_items xs)"
| "received (JObj kvs) = object_of (received_fields kvs)"
| "received v = v"
| "received_items [] = []"
| "received_items (x # xs) = received x # received_items xs"
| "received_fields [] = []"
| "received_fields ((k, v) # kvs) = (if v = JUndef then received_fields kvs else (k, received v) # received_fields kvs)"

definition json_text :: "jsval \<Rightarrow> string" where
  "json_text v = default_to ''null'' (json_stringify v)"

lemma stringify_None: "json_stringify v = None \<longleftrightarrow> v = JUndef"
  by (cases v) simp_all

lemma special_chars [simp]:
  "\<not> json_ws (CHR ''{'')" "\<not> json_ws (CHR ''['')" "\<not> json_ws (CHR ''}'')" "\<not> json_ws (CHR '']'')" "\<not> json_ws (CHR 0x22)"
  "\<not> json_ws (CHR '','')" "\<not> json_ws (CHR '':'')" "\<not> json_ws (CHR ''t'')" "\<not> json_ws (CHR ''f'')" "\<not> json_ws (CHR ''n'')"
  "\<not> json_ws (CHR ''-'')"
  by (simp_all add: json_ws_def)

lemma digit_special:
  assumes "digit_char c"
  shows "c \<notin> {CHR ''{'', CHR ''['', CHR ''}'', CHR '']'', CHR 0x22, CHR '','', CHR '':'', CHR ''t'', CHR ''f'', CHR ''n'', CHR ''-''}"
    and "\<not> json_ws c"
proof -
  have "list_all (\<lambda>d. \<not> digit_char d) [CHR ''{'', CHR ''['', CHR ''}'', CHR '']'', CHR 0x22, CHR '','', CHR '':'', CHR ''t'',
      CHR ''f'', CHR ''n'', CHR ''-'', CHR 0x20, CHR 0x09, CHR 0x0A, CHR 0x0D]" by code_simp
  with assms show "c \<notin> {CHR ''{'', CHR ''['', CHR ''}'', CHR '']'', CHR 0x22, CHR '','', CHR '':'', CHR ''t'', CHR ''f'', CHR ''n'', CHR ''-''}"
    "\<not> json_ws c" by (auto simp: json_ws_def)
qed

lemma skip_ws_simps [simp]:
  "skip_ws [] = []" "\<not> json_ws c \<Longrightarrow> skip_ws (c # cs) = c # cs"
  by (simp_all add: skip_ws_def)

lemma number_ends_simps [simp]:
  "number_ends []" "number_ends (CHR '','' # cs)" "number_ends (CHR '']'' # cs)" "number_ends (CHR ''}'' # cs)"
  by (simp_all add: number_ends_def digit_char_def)

lemma show_nat_head: "\<exists>c cs. show_nat n = c # cs \<and> digit_char c"
  using digits_show_nat [of _ n] show_nat_nonempty [of n] by (cases "show_nat n") auto

text \<open>How the text of a value begins.\<close>

lemma text_head: "\<exists>c cs. json_text v = c # cs \<and> \<not> json_ws c \<and> c \<noteq> CHR '']'' \<and> c \<noteq> CHR ''}''"
proof (cases v)
  case (JNum n)
  show ?thesis
  proof (cases "n < 0")
    case False
    obtain c cs where c: "show_nat (nat n) = c # cs" "digit_char c" using show_nat_head by blast
    with False JNum digit_special [OF c(2)] show ?thesis by (simp add: json_text_def show_int_def)
  qed (simp add: JNum json_text_def show_int_def)
qed (simp_all add: json_text_def json_quote_def bool_str_def)

lemma parse_quoted_text: "parse_value (Suc f) (json_quote s @ rest) = Some (JStr s, rest)"
  by (simp add: json_quote_def parse_quoted)

lemma parse_number_text:
  assumes "number_ends rest"
  shows "parse_value (Suc f) (show_int n @ rest) = Some (JNum n, rest)"
proof (cases "n < 0")
  case True
  then show ?thesis using parse_shown [OF assms, of "nat (- n)"] by (simp add: show_int_def)
next
  case False
  obtain c cs where c: "show_nat (nat n) = c # cs" "digit_char c" using show_nat_head by blast
  have "parse_digits (c # cs @ rest) = Some (nat n, rest)" using parse_shown [OF assms, of "nat n"] by (simp add: c(1))
  with False c(1) digit_special [OF c(2)] show ?thesis by (simp add: show_int_def)
qed

lemma items_texts: "json_items xs = map json_text xs"
  by (induction xs) (simp_all add: json_text_def)

lemma join_Cons: "js_join sep (x # xs) = (if xs = [] then x else x @ sep @ js_join sep xs)"
  by (cases xs) simp_all

lemma parse_printed:
  "\<forall>f rest. length (json_text v) < f \<longrightarrow> number_ends rest \<longrightarrow> parse_value f (json_text v @ rest) = Some (received v, rest)"
  "xs \<noteq> [] \<longrightarrow> (\<forall>f rest. Suc (length (js_join '','' (json_items xs))) < f \<longrightarrow>
     parse_items f (js_join '','' (json_items xs) @ CHR '']'' # rest) = Some (received_items xs, rest))"
  "json_fields kvs \<noteq> [] \<longrightarrow> (\<forall>f rest. Suc (length (js_join '','' (json_fields kvs))) < f \<longrightarrow>
     parse_fields f (js_join '','' (json_fields kvs) @ CHR ''}'' # rest) = Some (received_fields kvs, rest))"
proof (induction v and xs and kvs rule: json_stringify_json_items_json_fields.induct)
  case 1
  show ?case by (auto simp: json_text_def parse_literal_def starts_with_iff dest!: less_imp_Suc_add)
next
  case 2
  show ?case by (auto simp: json_text_def parse_literal_def starts_with_iff dest!: less_imp_Suc_add)
next
  case (3 b)
  show ?case by (auto simp: json_text_def bool_str_def parse_literal_def starts_with_iff dest!: less_imp_Suc_add)
next
  case (4 n)
  show ?case using parse_number_text by (auto simp: json_text_def dest!: less_imp_Suc_add)
next
  case (5 s)
  show ?case using parse_quoted_text by (auto simp: json_text_def dest!: less_imp_Suc_add)
next
  case (6 xs)
  show ?case
  proof (intro allI impI)
    fix f rest assume f: "length (json_text (JArr xs)) < f"
    then obtain g where g: "f = Suc g" by (cases f) auto
    show "parse_value f (json_text (JArr xs) @ rest) = Some (received (JArr xs), rest)"
    proof (cases xs)
      case (Cons x ys)
      obtain c cs where c: "json_text x = c # cs" "\<not> json_ws c" "c \<noteq> CHR '']''" using text_head [of x] by blast
      then obtain ds where d: "js_join '','' (json_items xs) @ CHR '']'' # rest = c # ds"
        by (cases "ys = []") (simp_all add: Cons items_texts join_Cons)
      have "parse_items g (js_join '','' (json_items xs) @ CHR '']'' # rest) = Some (received_items xs, rest)"
        using 6 f g by (simp add: Cons json_text_def)
      then show ?thesis using c d by (simp add: g json_text_def)
    qed (simp add: g json_text_def)
  qed
next
  case (7 kvs)
  show ?case
  proof (intro allI impI)
    fix f rest assume f: "length (json_text (JObj kvs)) < f"
    then obtain g where g: "f = Suc g" by (cases f) auto
    show "parse_value f (json_text (JObj kvs) @ rest) = Some (received (JObj kvs), rest)"
    proof (cases "json_fields kvs = []")
      case True
      have "json_fields kvs = [] \<Longrightarrow> received_fields kvs = []" for kvs
        by (induction kvs) (auto split: option.splits simp: stringify_None)
      with True show ?thesis by (simp add: g json_text_def object_of_def)
    next
      case False
      have "\<exists>ds. hd (json_fields kvs) = CHR 0x22 # ds" if "json_fields kvs \<noteq> []" for kvs
        using that by (induction kvs) (auto split: option.splits simp: json_quote_def)
      from this [OF False] False obtain e es ds where e: "json_fields kvs = e # es" "e = CHR 0x22 # ds"
        by (cases "json_fields kvs") auto
      then obtain ds where d: "js_join '','' (json_fields kvs) @ CHR ''}'' # rest = CHR 0x22 # ds"
        by (cases "es = []") (simp_all add: join_Cons)
      have "parse_fields g (js_join '','' (json_fields kvs) @ CHR ''}'' # rest) = Some (received_fields kvs, rest)"
        using 7 f g False by (simp add: json_text_def)
      then show ?thesis using d by (simp add: g json_text_def)
    qed
  qed
next
  case (9 x xs)
  show ?case
  proof (intro allI impI)
    fix f rest assume f: "Suc (length (js_join '','' (json_items (x # xs)))) < f"
    then obtain g where g: "f = Suc g" by (cases f) auto
    show "parse_items f (js_join '','' (json_items (x # xs)) @ CHR '']'' # rest) = Some (received_items (x # xs), rest)"
    proof (cases "xs = []")
      case True
      have "parse_value g (json_text x @ CHR '']'' # rest) = Some (received x, CHR '']'' # rest)"
        using 9(1) f g by (simp add: True items_texts)
      then show ?thesis by (simp add: True g items_texts)
    next
      case False
      let ?more = "CHR '','' # js_join '','' (json_items xs) @ CHR '']'' # rest"
      have "parse_value g (json_text x @ ?more) = Some (received x, ?more)"
        using 9(1) f g False by (simp add: items_texts join_Cons)
      moreover have "parse_items g (js_join '','' (json_items xs) @ CHR '']'' # rest) = Some (received_items xs, rest)"
        using 9(2) f g False by (simp add: items_texts join_Cons)
      ultimately show ?thesis using False by (simp add: g items_texts join_Cons)
    qed
  qed
next
  case (11 k v kvs)
  show ?case
  proof (cases "v = JUndef")
    case True
    with 11(2) show ?thesis by simp
  next
    case False
    then obtain t where t: "json_stringify v = Some t" using stringify_None by blast
    then have jt: "json_text v = t" by (simp add: json_text_def)
    show ?thesis
    proof (intro impI allI)
      fix f rest assume f: "Suc (length (js_join '','' (json_fields ((k, v) # kvs)))) < f"
      then obtain g where g: "f = Suc g" by (cases f) auto
      show "parse_fields f (js_join '','' (json_fields ((k, v) # kvs)) @ CHR ''}'' # rest) = Some (received_fields ((k, v) # kvs), rest)"
      proof (cases "json_fields kvs = []")
        case True
        have e: "json_fields kvs = [] \<Longrightarrow> received_fields kvs = []" for kvs
          by (induction kvs) (auto split: option.splits simp: stringify_None)
        have "parse_value g (t @ CHR ''}'' # rest) = Some (received v, CHR ''}'' # rest)"
          using 11(1) f g by (simp add: True t jt)
        then show ?thesis using False e [OF True] by (simp add: g True t json_quote_def parse_quoted)
      next
        case more: False
        let ?more = "CHR '','' # js_join '','' (json_fields kvs) @ CHR ''}'' # rest"
        have "parse_value g (t @ ?more) = Some (received v, ?more)"
          using 11(1) f g more by (simp add: t jt join_Cons)
        moreover have "parse_fields g (js_join '','' (json_fields kvs) @ CHR ''}'' # rest) = Some (received_fields kvs, rest)"
          using 11(3) [OF t] f g more by (simp add: t join_Cons)
        ultimately show ?thesis using False more by (simp add: g t join_Cons json_quote_def parse_quoted)
      qed
    qed
  qed
qed simp_all

section \<open>Texts that are cut off\<close>

lemma skip_ws_append: "skip_ws p \<noteq> [] \<Longrightarrow> skip_ws (p @ q) = skip_ws p @ q"
  by (induction p) (auto simp: skip_ws_def)

lemma chars_extend: "parse_chars p = Some (s, r) \<Longrightarrow> parse_chars (p @ q) = Some (s, r @ q)"
proof (induction p arbitrary: s r rule: parse_chars.induct)
  case (2 c cs)
  then show ?case
    by (auto simp: apfst_def map_prod_def split: if_splits list.splits option.splits prod.splits)
qed simp

lemma digits_extend: "parse_digits p = Some (n, r) \<Longrightarrow> r \<noteq> [] \<Longrightarrow> parse_digits (p @ q) = Some (n, r @ q)"
proof -
  assume d: "parse_digits p = Some (n, r)" and r: "r \<noteq> []"
  have "dropWhile digit_char p = r" using d by (auto simp: parse_digits_def Let_def split: if_splits)
  with r have "\<exists>x \<in> set p. \<not> digit_char x" by (metis dropWhile_eq_Nil_conv)
  then have "takeWhile digit_char (p @ q) = takeWhile digit_char p" "dropWhile digit_char (p @ q) = dropWhile digit_char p @ q"
    by (auto simp: takeWhile_append1 dropWhile_append1)
  with d r show ?thesis by (auto simp: parse_digits_def Let_def split: if_splits)
qed

lemma literal_extend: "parse_literal text v p = Some (w, r) \<Longrightarrow> parse_literal text v (p @ q) = Some (w, r @ q)"
  by (auto simp: parse_literal_def starts_with_iff split: if_splits)

lemma parse_extend:
  "parse_value f p = Some (v, r) \<Longrightarrow> r \<noteq> [] \<or> hd (skip_ws p) = CHR ''{'' \<Longrightarrow> parse_value f (p @ q) = Some (v, r @ q)"
  "parse_items f p = Some (vs, r) \<Longrightarrow> parse_items f (p @ q) = Some (vs, r @ q)"
  "parse_fields f p = Some (kvs, r) \<Longrightarrow> parse_fields f (p @ q) = Some (kvs, r @ q)"
proof (induction f p and f p and f p arbitrary: v r and vs r and kvs r rule: parse_value_parse_items_parse_fields.induct)
  case (2 f s)
  obtain c cs where s: "skip_ws s = c # cs" using 2(3) by (auto split: list.splits)
  then have e: "skip_ws (s @ q) = c # cs @ q" using skip_ws_append [of s q] by simp
  consider (nested) "c = CHR ''{'' \<or> c = CHR ''[''" | (scalar) "c \<noteq> CHR ''{''" "c \<noteq> CHR ''[''" by blast
  then show ?case
  proof cases
    case nested
    obtain d ds where d: "skip_ws cs = d # ds" using 2(3) nested by (auto simp: s split: list.splits)
    then have "skip_ws (cs @ q) = d # ds @ q" using skip_ws_append [of cs q] by simp
    with nested d 2(1) [OF s _ d] 2(2) [OF s _ _ d] 2(3) show ?thesis
      by (auto simp: s e apfst_def map_prod_def split: if_splits prod.splits)
  next
    case scalar
    with 2(3,4) show ?thesis
      using chars_extend [of cs _ r q] digits_extend [of cs _ r q] digits_extend [of "c # cs" _ r q]
        literal_extend [of _ _ "c # cs" v r q]
      by (auto simp: s e apfst_def map_prod_def split: if_splits prod.splits)
  qed
next
  case (4 f s)
  obtain v r1 where v: "parse_value f s = Some (v, r1)" using 4(3) by (auto split: option.splits)
  obtain c cs where c: "skip_ws r1 = c # cs" using 4(3) v by (auto split: list.splits)
  then have "r1 \<noteq> []" by auto
  with 4(1) [OF v] have "parse_value f (s @ q) = Some (v, r1 @ q)" by blast
  moreover have "skip_ws (r1 @ q) = c # cs @ q" using c skip_ws_append [of r1 q] by simp
  ultimately show ?case
    using 4(2) [OF v refl c] 4(3) by (auto simp: v c apfst_def map_prod_def split: if_splits prod.splits)
next
  case (6 f s)
  obtain ks where s: "skip_ws s = CHR 0x22 # ks" using 6(3) by (auto split: list.splits if_splits)
  obtain k r1 where k: "parse_chars ks = Some (k, r1)" using 6(3) by (auto simp: s split: option.splits)
  obtain cs where c: "skip_ws r1 = CHR '':'' # cs" using 6(3) by (auto simp: s k split: list.splits if_splits)
  obtain v r2 where v: "parse_value f cs = Some (v, r2)" using 6(3) by (auto simp: s k c split: option.splits)
  obtain d ds where d: "skip_ws r2 = d # ds" using 6(3) by (auto simp: s k c v split: list.splits)
  then have "r2 \<noteq> []" by auto
  have "parse_value f (cs @ q) = Some (v, r2 @ q)" using 6(1) [OF s _ k refl c _ v] \<open>r2 \<noteq> []\<close> by simp
  moreover have "skip_ws (s @ q) = CHR 0x22 # ks @ q" "skip_ws (r1 @ q) = CHR '':'' # cs @ q" "skip_ws (r2 @ q) = d # ds @ q"
    using s c d skip_ws_append [of s q] skip_ws_append [of r1 q] skip_ws_append [of r2 q] by simp_all
  moreover note chars_extend [OF k, of q]
  ultimately show ?case
    using 6(2) [OF s _ k refl c _ v refl d] 6(3)
    by (auto simp: s k c v d apfst_def map_prod_def split: if_splits prod.splits)
qed simp_all


text \<open>More calls than needed change nothing.\<close>

lemma parse_more:
  "parse_value f s = Some (v, r) \<Longrightarrow> f \<le> g \<Longrightarrow> parse_value g s = Some (v, r)"
  "parse_items f s = Some (vs, r) \<Longrightarrow> f \<le> g \<Longrightarrow> parse_items g s = Some (vs, r)"
  "parse_fields f s = Some (kvs, r) \<Longrightarrow> f \<le> g \<Longrightarrow> parse_fields g s = Some (kvs, r)"
proof (induction f s and f s and f s arbitrary: v r g and vs r g and kvs r g rule: parse_value_parse_items_parse_fields.induct)
  case (2 f s)
  obtain h where g: "g = Suc h" "f \<le> h" using 2(4) by (cases g) auto
  obtain c cs where s: "skip_ws s = c # cs" using 2(3) by (auto split: list.splits)
  consider (object) "c = CHR ''{''" | (array) "c \<noteq> CHR ''{''" "c = CHR ''[''" | (scalar) "c \<noteq> CHR ''{''" "c \<noteq> CHR ''[''" by blast
  then show ?case
  proof cases
    case object
    obtain d ds where d: "skip_ws cs = d # ds" using 2(3) object by (auto simp: s split: list.splits)
    have "parse_fields h cs = Some (kvs, r)" if "d \<noteq> CHR ''}''" "parse_fields f cs = Some (kvs, r)" for kvs
      using 2(1) [OF s object d that g(2)] .
    with object d 2(3) show ?thesis by (auto simp: s g(1) apfst_def map_prod_def split: if_splits)
  next
    case array
    obtain d ds where d: "skip_ws cs = d # ds" using 2(3) array by (auto simp: s split: list.splits)
    have "parse_items h cs = Some (vs, r)" if "d \<noteq> CHR '']''" "parse_items f cs = Some (vs, r)" for vs
      using 2(2) [OF s array d that g(2)] .
    with array d 2(3) show ?thesis by (auto simp: s g(1) apfst_def map_prod_def split: if_splits)
  next
    case scalar
    with 2(3) show ?thesis by (simp add: s g)
  qed
next
  case (4 f s)
  obtain h where g: "g = Suc h" "f \<le> h" using 4(4) by (cases g) auto
  obtain v r1 where v: "parse_value f s = Some (v, r1)" using 4(3) by (auto split: option.splits)
  obtain c cs where c: "skip_ws r1 = c # cs" using 4(3) v by (auto split: list.splits)
  have "parse_items h cs = Some (vs, r)" if "c = CHR '',''" "parse_items f cs = Some (vs, r)" for vs
    using 4(2) [OF v refl c that g(2)] .
  with 4(3) 4(1) [OF v g(2)] show ?case by (auto simp: v c g(1) apfst_def map_prod_def split: if_splits)
next
  case (6 f s)
  obtain h where g: "g = Suc h" "f \<le> h" using 6(4) by (cases g) auto
  obtain ks where s: "skip_ws s = CHR 0x22 # ks" using 6(3) by (auto split: list.splits if_splits)
  obtain k r1 where k: "parse_chars ks = Some (k, r1)" using 6(3) by (auto simp: s split: option.splits)
  obtain cs where c: "skip_ws r1 = CHR '':'' # cs" using 6(3) by (auto simp: s k split: list.splits if_splits)
  obtain v r2 where v: "parse_value f cs = Some (v, r2)" using 6(3) by (auto simp: s k c split: option.splits)
  obtain d ds where d: "skip_ws r2 = d # ds" using 6(3) by (auto simp: s k c v split: list.splits)
  have "parse_value h cs = Some (v, r2)" using 6(1) [OF s _ k refl c _ v g(2)] by simp
  moreover have "parse_fields h ds = Some (kvs, r)" if "d = CHR '',''" "parse_fields f ds = Some (kvs, r)" for kvs
    using 6(2) [OF s _ k refl c _ v refl d that g(2)] by simp
  ultimately show ?case using 6(3) by (auto simp: s k c v d g(1) apfst_def map_prod_def split: if_splits)
qed simp_all

section \<open>The promises the program relies on\<close>

lemma json_roundtrip: "json_stringify v = Some t \<Longrightarrow> json_parse t = Inr (received v)"
  using parse_printed(1) [rule_format, of v "Suc (length t)" "[]"]
  by (simp add: json_parse_def json_text_def del: json_stringify.simps received.simps parse_value.simps)

lemma json_cut_off:
  assumes t: "json_stringify (JObj kvs) = Some (p @ q)" and q: "q \<noteq> []"
  shows "\<exists>m. json_parse p = Inl m"
proof (rule ccontr)
  assume "\<nexists>m. json_parse p = Inl m"
  then obtain v r where p: "parse_value (Suc (length p)) p = Some (v, r)" and r: "skip_ws r = []"
    by (auto simp: json_parse_def split: option.splits if_splits prod.splits)
  have "p \<noteq> []" using p by auto
  then obtain p' where b: "p = CHR ''{'' # p'" using t by (cases p) (auto)
  have "parse_value (Suc (length p)) (p @ q) = Some (v, r @ q)" using parse_extend(1) [OF p, of q] b by simp
  then have "parse_value (Suc (length (p @ q))) (p @ q) = Some (v, r @ q)" by (rule parse_more) simp
  moreover have "parse_value (Suc (length (p @ q))) (p @ q) = Some (received (JObj kvs), [])"
    using parse_printed(1) [rule_format, of "JObj kvs" "Suc (length (p @ q))" "[]"] t
    by (simp add: json_text_def del: json_stringify.simps received.simps parse_value.simps)
  ultimately show False using q by simp
qed


text \<open>A value without \<open>undefined\<close> whose objects have distinct keys comes back unchanged.\<close>

fun plain :: "jsval \<Rightarrow> bool"
  and plain_items :: "jsval list \<Rightarrow> bool"
  and plain_fields :: "jsobj \<Rightarrow> bool"
where
  "plain JUndef = False"
| "plain (JArr xs) = plain_items xs"
| "plain (JObj kvs) = (distinct (map fst kvs) \<and> plain_fields kvs)"
| "plain v = True"
| "plain_items [] = True"
| "plain_items (x # xs) = (plain x \<and> plain_items xs)"
| "plain_fields [] = True"
| "plain_fields ((k, v) # kvs) = (plain v \<and> plain_fields kvs)"

lemma object_distinct: "distinct (map fst kvs) \<Longrightarrow> object_of kvs = JObj kvs"
proof -
  have put_new: "k \<notin> set (map fst m) \<Longrightarrow> mput k v m = m @ [(k, v)]" for k :: string and v :: jsval and m
    by (induction m) auto
  have "distinct (map fst (m @ kvs)) \<Longrightarrow> fold (\<lambda>(k, v). mput k v) kvs m = m @ kvs" for m :: jsobj and kvs
    by (induction kvs arbitrary: m) (auto simp: put_new)
  from this [of "[]" kvs] show "distinct (map fst kvs) \<Longrightarrow> object_of kvs = JObj kvs" by (simp add: object_of_def)
qed

lemma received_plain:
  "plain v \<Longrightarrow> received v = v" "plain_items xs \<Longrightarrow> received_items xs = xs" "plain_fields kvs \<Longrightarrow> received_fields kvs = kvs"
  by (induction v and xs and kvs rule: received_received_items_received_fields.induct) (auto simp: object_distinct)

text \<open>What the two ends of a relay connection need of the parser.\<close>

locale json_reader =
  fixes parse :: "string \<Rightarrow> string + jsval"
  assumes reads: "json_stringify v = Some t \<Longrightarrow> parse t = Inr (received v)"
    and rejects: "json_stringify (JObj kvs) = Some (p @ q) \<Longrightarrow> q \<noteq> [] \<Longrightarrow> \<exists>m. parse p = Inl m"
begin

lemma reads_plain: "plain v \<Longrightarrow> json_stringify v = Some t \<Longrightarrow> parse t = Inr v"
  using reads received_plain(1) by simp

lemma reads_whole: "json_stringify (JObj kvs) = Some (p @ q) \<Longrightarrow> parse p = Inr v \<Longrightarrow> q = [] \<and> v = received (JObj kvs)"
  using reads [of "JObj kvs" "p @ q"] rejects [of kvs p q] by (cases "q = []") auto

end

interpretation json: json_reader json_parse
  by unfold_locales (fact json_roundtrip, fact json_cut_off)

end
