(* ===== verification/RelayNetwork.thy ===== *)
theory RelayNetwork imports JsonParse Relay Manager begin

text \<open>
  Several processes that share one socket path: each runs the transport manager, a follower's \<open>sendToOwner\<close>
  opens a connection to whichever process listens, and the bytes, the acknowledgement, the errors and the
  turns of the managers interleave freely.
\<close>

section \<open>Connections\<close>

text \<open>
  One call of \<open>sendRelayEvent\<close> and the server's side of its connection: the bytes under way in the two
  directions, the server's buffer, whether \<open>onEvent\<close> is running, the client, and whether the flush that
  called still waits for the promise.
\<close>

record link =
  lk_from :: nat
  lk_to :: nat
  lk_event :: event
  lk_unsent :: string
  lk_server :: connection
  lk_handing :: bool
  lk_reply :: string
  lk_client :: client_state
  lk_waiting :: bool

record network =
  nw_managers :: "nat \<Rightarrow> manager"
  nw_links :: "link list"
  nw_received :: "(nat \<times> event) list"

definition open_link :: "nat \<Rightarrow> nat \<Rightarrow> event \<Rightarrow> string \<Rightarrow> link" where
  "open_link p q ev payload =
     \<lparr> lk_from = p, lk_to = q, lk_event = ev, lk_unsent = payload, lk_server = new_connection, lk_handing = False,
       lk_reply = [], lk_client = client_init, lk_waiting = True \<rparr>"

text \<open>\<open>socket.end(JSON.stringify(...) + '\n')\<close>.\<close>

definition reply_text :: "string + unit \<Rightarrow> string" where
  "reply_text r = default_to ''undefined'' (json_stringify (relay_reply r)) @ [newline]"

definition put_link :: "nat \<Rightarrow> link \<Rightarrow> network \<Rightarrow> network" where
  "put_link i l n = n\<lparr>nw_links := (nw_links n)[i := l]\<rparr>"

definition run_at :: "(nat \<Rightarrow> settings) \<Rightarrow> nat \<Rightarrow> manager_op \<Rightarrow> network \<Rightarrow> network" where
  "run_at cfg p a n = n\<lparr>nw_managers := (nw_managers n)(p := manager_step (cfg p) a (nw_managers n p))\<rparr>"

text \<open>
  A socket event at the server: the answer of \<open>handleIncomingSocket\<close> is carried out, and an event that
  \<open>processIncomingEnvelope\<close> lets through is given to the \<open>onEvent\<close> of the process.
\<close>

definition server_sees ::
  "(string \<Rightarrow> string + jsval) \<Rightarrow> (nat \<Rightarrow> settings) \<Rightarrow> int \<Rightarrow> socket_event \<Rightarrow> nat \<Rightarrow> link \<Rightarrow> network \<Rightarrow> network" where
  "server_sees parse cfg now e i l n =
     (let q = lk_to l; c = s_config (cfg q) in
      case handleIncomingSocket (tc_maxPayloadBytes c) (lk_server l) e of
        (cn, NoAction) \<Rightarrow> put_link i (l\<lparr>lk_server := cn\<rparr>) n
      | (cn, TooLarge) \<Rightarrow> put_link i (l\<lparr>lk_server := cn, lk_reply := reply_text (Inl ''payload too large'')\<rparr>) n
      | (cn, Process buffer) \<Rightarrow>
          (case processIncomingEnvelope parse (tc_authToken c) buffer of
             Inl msg \<Rightarrow> put_link i (l\<lparr>lk_server := cn, lk_reply := reply_text (Inl msg)\<rparr>) n
           | Inr ev \<Rightarrow>
               (run_at cfg q (RelayIncoming now (obj_entries ev)) (put_link i (l\<lparr>lk_server := cn, lk_handing := True\<rparr>) n))
                 \<lparr>nw_received := nw_received n @ [(q, obj_entries ev)]\<rparr>))"

section \<open>Steps\<close>

text \<open>
  \<open>Runs\<close> is any operation of one manager but the end of its own relay; \<open>Connects\<close> and \<open>Unreachable\<close> are
  the two outcomes of starting a relay; \<open>Delivers\<close> and \<open>Replies\<close> move some bytes; \<open>PeerEnds\<close> is the
  server's end event after the client destroyed its socket; \<open>HandedOver\<close> is the end of \<open>onEvent\<close>; \<open>Breaks\<close>
  and \<open>Closes\<close> are the client's error (also its timeout) and close events; \<open>Settles\<close> resumes the flush.
\<close>

datatype net_op =
    Runs nat manager_op
  | Connects nat nat
  | Unreachable nat int TransportLockAcquireResult bool
  | Delivers nat nat int
  | PeerEnds nat int
  | HandedOver nat "string + unit"
  | Replies nat nat
  | Breaks nat string
  | Closes nat
  | Settles nat int TransportLockAcquireResult bool

definition relaying :: "nat \<Rightarrow> network \<Rightarrow> bool" where
  "relaying p n \<longleftrightarrow> list_ex (\<lambda>l. lk_waiting l \<and> lk_from l = p) (nw_links n)"

fun own_relay :: "manager_op \<Rightarrow> bool" where
  "own_relay (RelaySettled now ok r h) = True"
| "own_relay a = False"

text \<open>\<open>sendToOwner\<close> up to the connection.\<close>

definition sendToOwner :: "(nat \<Rightarrow> settings) \<Rightarrow> nat \<Rightarrow> nat \<Rightarrow> event \<Rightarrow> network \<Rightarrow> network" where
  "sendToOwner cfg p q ev n =
     (case client_start (tc_authToken (s_config (cfg p))) (tc_maxPayloadBytes (s_config (cfg p))) ev of
        Inl msg \<Rightarrow> n
      | Inr payload \<Rightarrow> n\<lparr>nw_links := nw_links n @ [open_link p q ev payload]\<rparr>)"

definition at_link :: "nat \<Rightarrow> (link \<Rightarrow> network \<Rightarrow> network) \<Rightarrow> network \<Rightarrow> network" where
  "at_link i f n = (if i < length (nw_links n) then f (nw_links n ! i) n else n)"

fun net_step :: "(string \<Rightarrow> string + jsval) \<Rightarrow> (nat \<Rightarrow> settings) \<Rightarrow> net_op \<Rightarrow> network \<Rightarrow> network" where
  "net_step parse cfg (Runs p a) n = (if own_relay a then n else run_at cfg p a n)"
| "net_step parse cfg (Connects p q) n =
     (case m_pc (nw_managers n p) of
        AwaitRelay ev \<Rightarrow> if relaying p n \<or> \<not> m_server (nw_managers n q) then n else sendToOwner cfg p q ev n
      | _ \<Rightarrow> n)"
| "net_step parse cfg (Unreachable p now r h) n =
     (if relaying p n then n else run_at cfg p (RelaySettled now False r h) n)"
| "net_step parse cfg (Delivers i k now) n =
     at_link i (\<lambda>l. server_sees parse cfg now (SockData (take k (lk_unsent l))) i (l\<lparr>lk_unsent := drop k (lk_unsent l)\<rparr>)) n"
| "net_step parse cfg (PeerEnds i now) n =
     at_link i (\<lambda>l. if cl_settled (lk_client l) = None then id else server_sees parse cfg now SockEnd i l) n"
| "net_step parse cfg (HandedOver i r) n =
     at_link i (\<lambda>l. if lk_handing l then put_link i (l\<lparr>lk_handing := False, lk_reply := reply_text r\<rparr>) else id) n"
| "net_step parse cfg (Replies i k) n =
     at_link i (\<lambda>l. put_link i (l\<lparr> lk_reply := drop k (lk_reply l),
       lk_client := client_step parse (ClientData (take k (lk_reply l))) (lk_client l) \<rparr>)) n"
| "net_step parse cfg (Breaks i msg) n =
     at_link i (\<lambda>l. put_link i (l\<lparr>lk_client := client_step parse (ClientError msg) (lk_client l)\<rparr>)) n"
| "net_step parse cfg (Closes i) n =
     at_link i (\<lambda>l. put_link i (l\<lparr>lk_client := client_step parse ClientClose (lk_client l)\<rparr>)) n"
| "net_step parse cfg (Settles i now r h) n =
     at_link i (\<lambda>l. case cl_settled (lk_client l) of
       None \<Rightarrow> id
     | Some result \<Rightarrow>
         if lk_waiting l
         then \<lambda>n. run_at cfg (lk_from l) (RelaySettled now (result = Resolved) r h) (put_link i (l\<lparr>lk_waiting := False\<rparr>) n)
         else id) n"

text \<open>Every process starts on its own, with what its lock answered.\<close>

definition net_start :: "(nat \<Rightarrow> settings) \<Rightarrow> (nat \<Rightarrow> TransportLockAcquireResult \<times> bool) \<Rightarrow> network" where
  "net_start cfg locks =
     \<lparr> nw_managers = \<lambda>p. start (cfg p) (fst (locks p)) (snd (locks p)) new_manager, nw_links = [], nw_received = [] \<rparr>"

definition net_run ::
  "(string \<Rightarrow> string + jsval) \<Rightarrow> (nat \<Rightarrow> settings) \<Rightarrow> (nat \<Rightarrow> TransportLockAcquireResult \<times> bool) \<Rightarrow> net_op list \<Rightarrow> network" where
  "net_run parse cfg locks ops = fold (net_step parse cfg) ops (net_start cfg locks)"

section \<open>Lemmas: what a manager acknowledges\<close>

definition acked :: "effect list \<Rightarrow> event list" where
  "acked tr = concat (map (\<lambda>x. case x of RelayAcked e \<Rightarrow> [e] | _ \<Rightarrow> []) tr)"

lemma acked_simps [simp]:
  "acked [] = []" "acked (tr @ tr2) = acked tr @ acked tr2"
  "acked (x # tr) = (case x of RelayAcked e \<Rightarrow> [e] | _ \<Rightarrow> []) @ acked tr"
  by (simp_all add: acked_def)

lemma acked_frames [simp]:
  "acked (m_trace (setRole r m)) = acked (m_trace m)"
  "acked (m_trace (releaseLock m)) = acked (m_trace m)"
  "acked (m_trace (startOwnerServer m)) = acked (m_trace m)"
  "acked (m_trace (startHeartbeat ok m)) = acked (m_trace m)"
  "acked (m_trace (handleOwnerAcquireFailure s res m)) = acked (m_trace m)"
  "acked (m_trace (scheduleFlush d m)) = acked (m_trace m)"
  "acked (m_trace (processOwnerEvent s now ev route m)) = acked (m_trace m)"
  "acked (m_trace (enqueueForFollowerRelay s ev m)) = acked (m_trace m)"
  "acked (m_trace (shift_pending m)) = acked (m_trace m)"
  "acked (m_trace (stop_finish m)) = acked (m_trace m)"
  "acked (m_trace (flush_finally s m)) = acked (m_trace m)"
  by (auto simp: setRole_def releaseLock_def startOwnerServer_def startHeartbeat_def writeHeartbeat_def Let_def
      handleOwnerAcquireFailure_def scheduleFlush_def processOwnerEvent_def enqueueForFollowerRelay_def shift_pending_def
      stop_finish_def flush_finally_def
      split: prod.splits bool.splits list.splits)

lemma acked_more [simp]:
  "acked (m_trace (promoted s ok m)) = acked (m_trace m)"
  "acked (m_trace (handleOwnerFailure s m)) = acked (m_trace m)"
  "acked (m_trace (flush_loop s now m)) = acked (m_trace m)"
  "acked (m_trace (stop m)) = acked (m_trace m)"
  by (auto simp: promoted_def tryBecomeOwner_def handleOwnerFailure_def flush_loop_def stop_def Let_def split: list.splits)

lemma acked_recovery [simp]: "acked (m_trace (ownerRecoveryFires s r h m)) = acked (m_trace m)"
  by (cases "m_role m"; cases "r = Acquired";
    simp add: ownerRecoveryFires_def Let_def tryBecomeOwner_won tryBecomeOwner_lost)

lemma acked_settled:
  "acked (m_trace (relay_settled s now e ok r h m)) = acked (m_trace m) @ (if ok then [e] else [])"
  by (cases "m_role m"; cases "r = Acquired")
     (simp_all add: relay_settled_def tryPromoteFromFollower_def tryBecomeOwner_won tryBecomeOwner_lost)

lemma acked_step:
  "\<not> own_relay a \<Longrightarrow> acked (m_trace (manager_step s a m)) = acked (m_trace m)"
  by (cases a)
     (auto simp: dispatch_def Let_def onRelayEvent_def flushPendingFollowerEvents_def owner_settled_def heartbeatFires_def
       dest: writeHeartbeat_result split: flush_pc.splits prod.splits bool.splits)

section \<open>Lemmas: how events leave the queue\<close>

text \<open>
  An event leaves a queue through one of three doors: the process takes it over after a promotion, the flush
  removes the head after an acknowledgement, or the queue overflows.
\<close>

definition moves :: "effect list \<Rightarrow> effect list" where
  "moves tr = filter (\<lambda>x. case x of Queued e \<Rightarrow> True | OwnerTook e \<Rightarrow> True | Shifted e \<Rightarrow> True
     | DroppedOldest e \<Rightarrow> True | _ \<Rightarrow> False) tr"

definition left_queue :: "effect list \<Rightarrow> event list" where
  "left_queue tr = concat (map (\<lambda>x. case x of OwnerTook e \<Rightarrow> [e] | Shifted e \<Rightarrow> [e] | DroppedOldest e \<Rightarrow> [e] | _ \<Rightarrow> []) tr)"

definition shifted :: "effect list \<Rightarrow> event list" where
  "shifted tr = concat (map (\<lambda>x. case x of Shifted e \<Rightarrow> [e] | _ \<Rightarrow> []) tr)"

definition dropped :: "effect list \<Rightarrow> event list" where
  "dropped tr = concat (map (\<lambda>x. case x of DroppedOldest e \<Rightarrow> [e] | _ \<Rightarrow> []) tr)"

lemma moves_simps [simp]:
  "moves [] = []" "moves (tr @ tr2) = moves tr @ moves tr2"
  "moves (x # tr) = (case x of Queued e \<Rightarrow> [x] | OwnerTook e \<Rightarrow> [x] | Shifted e \<Rightarrow> [x] | DroppedOldest e \<Rightarrow> [x] | _ \<Rightarrow> []) @ moves tr"
  by (auto simp: moves_def split: effect.splits)

lemma door_simps [simp]:
  "left_queue [] = []" "left_queue (tr @ tr2) = left_queue tr @ left_queue tr2"
  "left_queue (x # tr) = (case x of OwnerTook e \<Rightarrow> [e] | Shifted e \<Rightarrow> [e] | DroppedOldest e \<Rightarrow> [e] | _ \<Rightarrow> []) @ left_queue tr"
  "shifted [] = []" "shifted (tr @ tr2) = shifted tr @ shifted tr2"
  "shifted (x # tr) = (case x of Shifted e \<Rightarrow> [e] | _ \<Rightarrow> []) @ shifted tr"
  "dropped [] = []" "dropped (tr @ tr2) = dropped tr @ dropped tr2"
  "dropped (x # tr) = (case x of DroppedOldest e \<Rightarrow> [e] | _ \<Rightarrow> []) @ dropped tr"
  by (simp_all add: left_queue_def shifted_def dropped_def)

lemma doors_of_moves:
  "queued (moves tr) = queued tr" "left_queue (moves tr) = left_queue tr" "shifted (moves tr) = shifted tr"
  "dropped (moves tr) = dropped tr"
  by (induction tr) (simp_all split: effect.splits)

lemma moves_frames [simp]:
  "moves (m_trace (setRole r m)) = moves (m_trace m)"
  "moves (m_trace (releaseLock m)) = moves (m_trace m)"
  "moves (m_trace (startOwnerServer m)) = moves (m_trace m)"
  "moves (m_trace (startHeartbeat ok m)) = moves (m_trace m)"
  "moves (m_trace (handleOwnerAcquireFailure s res m)) = moves (m_trace m)"
  "moves (m_trace (processOwnerEvent s now ev route m)) = moves (m_trace m)"
  "moves (m_trace (stop_finish m)) = moves (m_trace m)"
  "moves (m_trace (flush_finally s m)) = moves (m_trace m)"
  by (auto simp: setRole_def releaseLock_def startOwnerServer_def startHeartbeat_def writeHeartbeat_def Let_def
      handleOwnerAcquireFailure_def processOwnerEvent_def stop_finish_def flush_finally_def
      split: prod.splits bool.splits)

lemma moves_more [simp]:
  "moves (m_trace (promoted s ok m)) = moves (m_trace m)"
  "moves (m_trace (handleOwnerFailure s m)) = moves (m_trace m)"
  "moves (m_trace (stop m)) = moves (m_trace m)"
  by (auto simp: promoted_def tryBecomeOwner_def handleOwnerFailure_def stop_def Let_def)

lemma moves_recovery [simp]: "moves (m_trace (ownerRecoveryFires s r h m)) = moves (m_trace m)"
  by (cases "m_role m"; cases "r = Acquired";
    simp add: ownerRecoveryFires_def Let_def tryBecomeOwner_won tryBecomeOwner_lost)

text \<open>
  The ledger of a queue, for events that \<open>P\<close> calls received: what was queued is what left, in order, and what is
  pending; an event that was removed without being received is paid for by one that overflowed, and so is the
  next removal if the event under way is not the head any more.
\<close>

definition missed :: "(event \<Rightarrow> bool) \<Rightarrow> effect list \<Rightarrow> nat" where
  "missed P tr = length (filter (\<lambda>e. \<not> P e) (shifted tr))"

definition paid :: "(event \<Rightarrow> bool) \<Rightarrow> manager \<Rightarrow> bool" where
  "paid P m \<longleftrightarrow> queued (moves (m_trace m)) = left_queue (moves (m_trace m)) @ m_pendingEvents m \<and>
     missed P (moves (m_trace m)) \<le> length (dropped (moves (m_trace m)))"

definition ledger :: "(event \<Rightarrow> bool) \<Rightarrow> manager \<Rightarrow> bool" where
  "ledger P m \<longleftrightarrow> paid P m \<and>
     (case m_pc m of
        AwaitRelay e \<Rightarrow> m_pendingEvents m \<noteq> [] \<and> hd (m_pendingEvents m) = e \<or>
          missed P (moves (m_trace m)) < length (dropped (moves (m_trace m)))
      | _ \<Rightarrow> True)"

lemma missed_simps [simp]:
  "missed P [] = 0" "missed P (tr @ tr2) = missed P tr + missed P tr2"
  "missed P (x # tr) = (case x of Shifted e \<Rightarrow> if P e then 0 else 1 | _ \<Rightarrow> 0) + missed P tr"
  by (simp_all add: missed_def split: effect.splits)

lemma missed_more: "(\<And>e. P e \<Longrightarrow> Q e) \<Longrightarrow> missed Q tr \<le> missed P tr"
  by (induction tr) (auto split: effect.splits)

lemma ledger_more: "ledger P m \<Longrightarrow> (\<And>e. P e \<Longrightarrow> Q e) \<Longrightarrow> ledger Q m"
  using missed_more [of P Q "moves (m_trace m)"] by (auto simp: ledger_def paid_def split: flush_pc.splits)

lemma ledger_frame:
  "moves (m_trace m1) = moves (m_trace m) \<Longrightarrow> m_pendingEvents m1 = m_pendingEvents m \<Longrightarrow> m_pc m1 = m_pc m \<Longrightarrow>
     ledger P m \<Longrightarrow> ledger P m1"
  by (cases "m_pc m") (simp_all add: ledger_def paid_def)

lemma paid_frame:
  "moves (m_trace m1) = moves (m_trace m) \<Longrightarrow> m_pendingEvents m1 = m_pendingEvents m \<Longrightarrow> paid P m1 = paid P m"
  by (simp add: paid_def)

lemma ledger_finally: "paid P m \<Longrightarrow> ledger P (flush_finally s m)"
  by (simp add: ledger_def paid_def flush_finally_def Let_def)

lemma ledger_loop: "paid P m \<Longrightarrow> ledger P (flush_loop s now m)"
proof (cases "m_pendingEvents m")
  case Nil
  then show "paid P m \<Longrightarrow> ?thesis" by (simp add: flush_loop_def ledger_finally)
next
  case (Cons x xs)
  then show "paid P m \<Longrightarrow> ?thesis"
    by (simp add: flush_loop_def ledger_finally) (auto simp: ledger_def paid_def)
qed

lemma ledger_enqueue: "ledger P m \<Longrightarrow> ledger P (enqueueForFollowerRelay s ev m)"
  by (cases "m_pendingEvents m")
     (auto simp: ledger_def paid_def enqueueForFollowerRelay_def Let_def split: flush_pc.splits)

lemma paid_shift:
  "ledger P m \<Longrightarrow> m_pc m = AwaitRelay e \<Longrightarrow> P e \<Longrightarrow> paid P (shift_pending (emit (RelayAcked e) m))"
  by (cases "m_pendingEvents m") (auto simp: ledger_def paid_def shift_pending_def)

lemma ledger_paid: "ledger P m \<Longrightarrow> paid P m"
  by (simp add: ledger_def)

lemma paid_promoted [simp]: "paid P (promoted s h m) = paid P m"
  by (rule paid_frame) simp_all

lemma ledger_settled:
  assumes "ledger P m" and "m_pc m = AwaitRelay e" and "ok \<Longrightarrow> P e"
  shows "ledger P (relay_settled s now e ok r h m)"
proof -
  have "paid P m" by (rule ledger_paid [OF assms(1)])
  moreover from this have "paid P (scheduleFlush d (handleOwnerAcquireFailure s r m))" "paid P (scheduleFlush d m)" for d
    by (simp_all add: paid_def handleOwnerAcquireFailure_def split: prod.splits)
  ultimately show ?thesis
    using assms paid_shift [OF assms(1,2)]
    by (cases "m_role m"; cases "r = Acquired")
       (auto simp: relay_settled_def tryPromoteFromFollower_def tryBecomeOwner_won tryBecomeOwner_lost
         intro!: ledger_loop ledger_finally)
qed

lemma ledger_step:
  assumes l: "ledger P m" and ok: "\<And>now r h e. a = RelaySettled now True r h \<Longrightarrow> m_pc m = AwaitRelay e \<Longrightarrow> P e"
  shows "ledger P (manager_step s a m)"
proof (cases a)
  case (Dispatch now ev)
  have "ledger P (processOwnerEvent s now e r m)" for e r by (rule ledger_frame [OF _ _ _ l]) simp_all
  with Dispatch l ledger_enqueue show ?thesis by (simp add: dispatch_def Let_def)
next
  case (RelayIncoming now ev)
  have "ledger P (processOwnerEvent s now e r m)" for e r by (rule ledger_frame [OF _ _ _ l]) simp_all
  with RelayIncoming show ?thesis by (simp add: onRelayEvent_def)
next
  case (RetryTimerFires now)
  have "ledger P (m\<lparr>m_retryTimer := None\<rparr>)" by (rule ledger_frame [OF _ _ _ l]) simp_all
  moreover have "paid P (m\<lparr>m_retryTimer := None, m_flushing := True\<rparr>)"
    using ledger_paid [OF l] by (simp add: paid_def)
  ultimately show ?thesis
    using RetryTimerFires l by (simp add: flushPendingFollowerEvents_def ledger_loop)
next
  case (RelaySettled now b r h)
  with l ok show ?thesis by (auto intro!: ledger_settled split: flush_pc.splits)
next
  case (OwnerSettled now b)
  with l ledger_paid [OF l] show ?thesis
    by (auto simp: owner_settled_def intro!: ledger_loop ledger_finally split: flush_pc.splits)
next
  case (RecoveryTimerFires r h)
  have "ledger P (ownerRecoveryFires s r h m)" by (rule ledger_frame [OF _ _ _ l]) simp_all
  with RecoveryTimerFires l show ?thesis by simp
next
  case (HeartbeatTick b)
  have "ledger P (handleOwnerFailure s m)" "ledger P (emit HeartbeatWritten m)" by (rule ledger_frame [OF _ _ _ l]; simp)+
  with HeartbeatTick l show ?thesis
    by (auto simp: heartbeatFires_def dest: writeHeartbeat_result split: prod.splits bool.splits)
next
  case StopServerClosed
  have "ledger P (stop_finish (m\<lparr>m_stopWaits := False\<rparr>))" by (rule ledger_frame [OF _ _ _ l]) simp_all
  with StopServerClosed l show ?thesis by simp
next
  case Stop
  have "ledger P (stop m)" by (rule ledger_frame [OF _ _ _ l]) simp_all
  with Stop show ?thesis by simp
next
  case ServerClosedEvent
  have "ledger P (handleOwnerFailure s m)" by (rule ledger_frame [OF _ _ _ l]) simp_all
  with ServerClosedEvent show ?thesis by simp
next
  case ServerError
  have "ledger P (handleOwnerFailure s m)" by (rule ledger_frame [OF _ _ _ l]) simp_all
  with ServerError show ?thesis by simp
qed


section \<open>Lemmas: one connection\<close>

lemma sent_payload: "client_start tok m ev = Inr payload \<Longrightarrow> payload = envelope_text tok ev @ [newline]"
  by (auto simp: client_start_def Let_def serializeEnvelope_text split: if_splits)

lemma envelope_printed:
  "json_stringify (JObj [(''authToken'', of_str tok), (''event'', JObj ev)]) = Some (envelope_text tok ev)"
  by (simp add: envelope_text_def)

lemma trim_prefix: "x = [] \<or> \<not> js_ws (hd x) \<Longrightarrow> \<exists>q. x = js_trim x @ q"
proof -
  assume "x = [] \<or> \<not> js_ws (hd x)"
  then have "dropWhile js_ws x = x" by (cases x) auto
  moreover have "x = rev (dropWhile js_ws (rev x)) @ rev (takeWhile js_ws (rev x))"
    by (metis rev_append rev_rev_ident takeWhile_dropWhile_id)
  ultimately show ?thesis unfolding js_trim_def by auto
qed

text \<open>Whatever part of a reply has arrived, its first line is a prefix of the JSON text that was sent.\<close>

lemma first_line_part:
  assumes whole: "x @ y = t @ [newline]" and t: "t = CHR ''{'' # u @ ''}''" and nl: "newline \<notin> set t"
  shows "\<exists>q. t = first_line x @ q"
proof (cases "y = []")
  case True
  then show ?thesis using first_line_object [of u] whole t nl by simp
next
  case False
  then have p: "t = x @ butlast y" using whole by (metis butlast_append butlast_snoc)
  have "x = [] \<or> \<not> js_ws (hd x)" using p t by (cases x) (auto simp: js_ws_def)
  then obtain q where q: "x = js_trim x @ q" using trim_prefix by blast
  then have "set (js_trim x) \<subseteq> set t" using p by (metis Un_upper1 set_append subset_trans)
  then have "js_split newline (js_trim x) = [js_trim x]" using nl by (intro js_split_no_sep) auto
  then show ?thesis using p q by (simp add: first_line_def) (metis append_assoc)
qed

definition got :: "(nat \<times> event) list \<Rightarrow> event \<Rightarrow> bool" where
  "got R ev \<longleftrightarrow> (\<exists>q. (q, obj_entries (received (JObj ev))) \<in> set R)"

definition replying :: "(nat \<times> event) list \<Rightarrow> link \<Rightarrow> bool" where
  "replying R l \<longleftrightarrow>
     (\<exists>r. cl_response (lk_client l) @ lk_reply l = reply_text r \<and> (r = Inr () \<longrightarrow> got R (lk_event l)))"

text \<open>
  The phases of a connection whose client still waits: bytes are arriving, \<open>onEvent\<close> is running, the reply is
  under way.  A promise that was resolved means the event was received.
\<close>

definition link_ok :: "(nat \<Rightarrow> settings) \<Rightarrow> (nat \<times> event) list \<Rightarrow> link \<Rightarrow> bool" where
  "link_ok cfg R l \<longleftrightarrow>
     (case cl_settled (lk_client l) of
        Some (Rejected msg) \<Rightarrow> True
      | Some Resolved \<Rightarrow> got R (lk_event l)
      | None \<Rightarrow>
          if \<not> cn_handled (lk_server l)
          then \<not> lk_handing l \<and> lk_reply l = [] \<and> cl_response (lk_client l) = [] \<and>
            newline \<notin> set (cn_buffer (lk_server l)) \<and>
            cn_buffer (lk_server l) @ lk_unsent l =
              envelope_text (tc_authToken (s_config (cfg (lk_from l)))) (lk_event l) @ [newline]
          else if lk_handing l
          then lk_reply l = [] \<and> cl_response (lk_client l) = [] \<and> got R (lk_event l)
          else replying R l)"

lemma got_more: "got R ev \<Longrightarrow> set R \<subseteq> set R2 \<Longrightarrow> got R2 ev"
  by (auto simp: got_def)

lemma replying_more: "replying R l \<Longrightarrow> set R \<subseteq> set R2 \<Longrightarrow> replying R2 l"
  using got_more [of R _ R2] unfolding replying_def by blast

lemma link_ok_more: "link_ok cfg R l \<Longrightarrow> set R \<subseteq> set R2 \<Longrightarrow> link_ok cfg R2 l"
  using got_more [of R "lk_event l" R2] replying_more [of R l R2]
  by (simp add: link_ok_def split: option.splits relay_result.splits if_splits)

lemma link_settled:
  "cl_settled (lk_client l) \<noteq> None \<Longrightarrow> cl_settled (lk_client l2) = cl_settled (lk_client l) \<Longrightarrow>
     lk_event l2 = lk_event l \<Longrightarrow> link_ok cfg R l \<Longrightarrow> link_ok cfg R l2"
  by (auto simp: link_ok_def split: option.splits relay_result.splits)

lemma link_open: "client_start (tc_authToken (s_config (cfg p))) m ev = Inr payload \<Longrightarrow> link_ok cfg R (open_link p q ev payload)"
  by (simp add: link_ok_def open_link_def client_init_def new_connection_def sent_payload)

context json_reader
begin

text \<open>The buffer that is processed is the whole envelope, and what is handed over is the event that was sent.\<close>

lemma whole_buffer:
  assumes "link_ok cfg R l" and "cl_settled (lk_client l) = None"
    and "handleIncomingSocket m (lk_server l) (SockData (take k (lk_unsent l))) = (cn, Process buffer)"
  shows "buffer = envelope_text (tc_authToken (s_config (cfg (lk_from l)))) (lk_event l) @ [newline]"
proof -
  let ?t = "envelope_text (tc_authToken (s_config (cfg (lk_from l)))) (lk_event l)"
  have fresh: "\<not> cn_handled (lk_server l)" using assms(3) by (auto split: if_splits)
  then have b: "buffer = cn_buffer (lk_server l) @ take k (lk_unsent l)" and nl: "newline \<in> set buffer"
    using assms(3) by (auto simp: Let_def js_includes_char split: if_splits)
  have w: "buffer @ drop k (lk_unsent l) = ?t @ [newline]"
    using assms(1,2) fresh b by (simp add: link_ok_def)
  show ?thesis
  proof (cases "drop k (lk_unsent l) = []")
    case False
    then have "?t = buffer @ butlast (drop k (lk_unsent l))" using w by (metis butlast_append butlast_snoc)
    then show ?thesis using nl envelope_text_no_newline by (metis Un_iff set_append)
  qed (use w in simp)
qed

lemma handed_event:
  assumes "processIncomingEnvelope parse tok2 (envelope_text tok ev @ [newline]) = Inr v"
  shows "v = received (JObj ev)"
proof -
  have "parse (envelope_text tok ev) = Inr (received (JObj [(''authToken'', of_str tok), (''event'', JObj ev)]))"
    by (rule reads [OF envelope_printed])
  then show ?thesis
    using assms envelope_text_object [of tok ev]
    by (auto simp: processIncomingEnvelope_def first_line_envelope Let_def object_of_def jprop_def of_str_def
        split: if_splits option.splits)
qed

lemma data_keeps:
  assumes l: "link_ok cfg R l"
    and h: "handleIncomingSocket m (lk_server l) (SockData (take k (lk_unsent l))) = (cn, act)"
    and l1: "l1 = l\<lparr>lk_unsent := drop k (lk_unsent l), lk_server := cn\<rparr>"
  shows "act = NoAction \<Longrightarrow> link_ok cfg R l1"
    and "act \<noteq> NoAction \<Longrightarrow> link_ok cfg R (l1\<lparr>lk_reply := reply_text (Inl msg)\<rparr>)"
    and "act = Process buffer \<Longrightarrow> processIncomingEnvelope parse tok buffer = Inr v \<Longrightarrow>
      link_ok cfg (R @ [(q, obj_entries v)]) (l1\<lparr>lk_handing := True\<rparr>)"
proof -
  have later: "link_ok cfg (R @ [(q, obj_entries v)]) l" by (rule link_ok_more [OF l]) auto
  have settled: "link_ok cfg R l1" "link_ok cfg R (l1\<lparr>lk_reply := reply_text (Inl msg)\<rparr>)"
    "link_ok cfg (R @ [(q, obj_entries v)]) (l1\<lparr>lk_handing := True\<rparr>)" if "cl_settled (lk_client l) \<noteq> None"
    by (rule link_settled [OF that _ _ l] link_settled [OF that _ _ later]; simp add: l1)+
  show "act = NoAction \<Longrightarrow> link_ok cfg R l1"
    using settled(1) l h
    by (auto simp: l1 link_ok_def replying_def Let_def js_includes_char split: if_splits option.splits)
  show "act \<noteq> NoAction \<Longrightarrow> link_ok cfg R (l1\<lparr>lk_reply := reply_text (Inl msg)\<rparr>)"
    using settled(2) l h
    by (auto simp: l1 link_ok_def replying_def Let_def split: if_splits option.splits)
  assume a: "act = Process buffer" and p: "processIncomingEnvelope parse tok buffer = Inr v"
  show "link_ok cfg (R @ [(q, obj_entries v)]) (l1\<lparr>lk_handing := True\<rparr>)"
  proof (cases "cl_settled (lk_client l)")
    case None
    have "v = received (JObj (lk_event l))"
      using handed_event p whole_buffer [OF l None] h a by blast
    then have "got (R @ [(q, obj_entries v)]) (lk_event l)" by (auto simp: got_def)
    then show ?thesis
      using None l h a by (auto simp: l1 link_ok_def Let_def split: if_splits)
  qed (use settled(3) in simp)
qed

lemma resolved_reply:
  assumes part: "x @ y = reply_text r" and line: "first_line x \<noteq> []" "parse (first_line x) = Inr ack"
    and ok: "\<not> is_nullish ack" "js_truthy (jprop ack ''ok'')"
  shows "r = Inr ()"
proof -
  obtain t where t: "json_stringify (relay_reply r) = Some (''{'' @ t @ ''}'')" using reply_text_object by blast
  then have nl: "newline \<notin> set (''{'' @ t @ ''}'')" using newline_not_json(1) [of "relay_reply r"] by simp
  have "reply_text r = (''{'' @ t @ ''}'') @ [newline]" by (simp add: reply_text_def t)
  with part have "x @ y = (''{'' @ t @ ''}'') @ [newline]" by simp
  then obtain q where q: "''{'' @ t @ ''}'' = first_line x @ q" using first_line_part [of x y] nl by fastforce
  obtain kvs where k: "relay_reply r = JObj kvs" by (cases r) (auto simp: relay_reply_def)
  have "ack = received (relay_reply r)" using reads_whole [of kvs "first_line x" q ack] t q line k by simp
  then show ?thesis
    using ok by (cases r) (auto simp: relay_reply_def object_of_def jprop_def js_truthy_def)
qed

lemma close_keeps: "link_ok cfg R l \<Longrightarrow> link_ok cfg R (l\<lparr>lk_client := client_step parse ClientClose (lk_client l)\<rparr>)"
proof (cases "cl_settled (lk_client l)")
  case None
  assume l: "link_ok cfg R l"
  let ?c = "client_step parse ClientClose (lk_client l)"
  have "cl_settled ?c = Some Resolved \<Longrightarrow> got R (lk_event l)"
  proof -
    assume "cl_settled ?c = Some Resolved"
    then obtain ack where ack: "first_line (cl_response (lk_client l)) \<noteq> []"
        "parse (first_line (cl_response (lk_client l))) = Inr ack" "\<not> is_nullish ack" "js_truthy (jprop ack ''ok'')"
      using None by (auto simp: Let_def finish_def split: if_splits sum.splits)
    have "cl_response (lk_client l) \<noteq> []" using ack(1) by (auto simp: first_line_def js_trim_def)
    then obtain r where r: "cl_response (lk_client l) @ lk_reply l = reply_text r" "r = Inr () \<longrightarrow> got R (lk_event l)"
      using l None by (auto simp: link_ok_def replying_def split: if_splits)
    with resolved_reply [OF r(1) ack] show ?thesis by simp
  qed
  moreover have "cl_settled ?c \<noteq> None" using None by (auto simp: Let_def finish_def split: sum.splits)
  ultimately show ?thesis by (auto simp: link_ok_def split: option.splits relay_result.splits)
next
  case (Some r)
  assume "link_ok cfg R l"
  then show ?thesis
    using Some client_settled_once [of "lk_client l" r parse "[ClientClose]"] by (auto intro: link_settled)
qed

end

section \<open>Lemmas: the network\<close>

definition steady :: "manager \<Rightarrow> bool" where
  "steady m \<longleftrightarrow> (m_pc m \<noteq> FlushIdle \<longrightarrow> m_flushing m)"

lemma steady_flush:
  "steady (flush_finally s m)" "m_flushing m \<Longrightarrow> steady (flush_loop s now m)"
  by (auto simp: steady_def flush_finally_def flush_loop_def Let_def split: list.splits)

lemma steady_settled: "steady m \<Longrightarrow> m_pc m = AwaitRelay e \<Longrightarrow> steady (relay_settled s now e ok r h m)"
  by (cases "m_role m"; cases "r = Acquired")
     (auto simp: relay_settled_def tryPromoteFromFollower_def tryBecomeOwner_won tryBecomeOwner_lost steady_def [of m]
       intro!: steady_flush)

lemma pc_kept:
  "m_pc m = AwaitRelay e \<Longrightarrow> steady m \<Longrightarrow> \<not> own_relay a \<Longrightarrow> m_pc (manager_step s a m) = AwaitRelay e"
  by (cases a)
     (auto simp: steady_def dispatch_def Let_def onRelayEvent_def flushPendingFollowerEvents_def owner_settled_def heartbeatFires_def
       dest: writeHeartbeat_result split: flush_pc.splits prod.splits bool.splits)

lemma steady_step: "steady m \<Longrightarrow> steady (manager_step s a m)"
proof (cases a)
  case (RelaySettled now ok r h)
  assume "steady m"
  with RelaySettled show ?thesis using steady_settled by (auto split: flush_pc.splits)
next
  case (OwnerSettled now ok)
  assume m: "steady m"
  then have "m_pc m = AwaitOwner \<Longrightarrow> m_flushing m" by (simp add: steady_def)
  with OwnerSettled m show ?thesis by (auto simp: owner_settled_def steady_flush split: flush_pc.splits)
next
  case (RetryTimerFires now)
  assume m: "steady m"
  then have "steady (m\<lparr>m_retryTimer := None\<rparr>)" by (simp add: steady_def)
  with RetryTimerFires m show ?thesis by (auto simp: flushPendingFollowerEvents_def intro!: steady_flush)
next
  case (HeartbeatTick ok)
  assume "steady m"
  with HeartbeatTick show ?thesis
    by (auto simp: heartbeatFires_def steady_def dest: writeHeartbeat_result split: prod.splits bool.splits)
qed (auto simp: steady_def dispatch_def Let_def onRelayEvent_def)

text \<open>A waiting client belongs to the flush that is suspended for its event, and no flush has two.\<close>

definition waits_ok :: "(nat \<Rightarrow> manager) \<Rightarrow> link list \<Rightarrow> bool" where
  "waits_ok ms ls \<longleftrightarrow>
     (\<forall>l \<in> set ls. lk_waiting l \<longrightarrow> m_pc (ms (lk_from l)) = AwaitRelay (lk_event l)) \<and>
     (\<forall>i < length ls. \<forall>j < length ls. lk_waiting (ls ! i) \<longrightarrow> lk_waiting (ls ! j) \<longrightarrow> lk_from (ls ! i) = lk_from (ls ! j) \<longrightarrow> i = j)"

definition net_inv :: "(nat \<Rightarrow> settings) \<Rightarrow> network \<Rightarrow> bool" where
  "net_inv cfg n \<longleftrightarrow>
     (\<forall>p. manager_inv (cfg p) (nw_managers n p) \<and> steady (nw_managers n p)) \<and>
     waits_ok (nw_managers n) (nw_links n) \<and>
     (\<forall>l \<in> set (nw_links n). link_ok cfg (nw_received n) l) \<and>
     (\<forall>p. ledger (got (nw_received n)) (nw_managers n p) \<and>
       (\<forall>ev \<in> set (acked (m_trace (nw_managers n p))). got (nw_received n) ev))"

lemma waits_put:
  assumes w: "waits_ok ms ls" and i: "i < length ls"
    and l: "lk_from l = lk_from (ls ! i)" "lk_event l = lk_event (ls ! i)" "lk_waiting l \<longrightarrow> lk_waiting (ls ! i)"
  shows "waits_ok ms (ls[i := l])"
proof -
  have "m_pc (ms (lk_from x)) = AwaitRelay (lk_event x)" if "x \<in> set (ls[i := l])" "lk_waiting x" for x
    using w i l that set_update_subset_insert [of ls i l] by (auto simp: waits_ok_def)
  then show ?thesis using w i l by (auto simp: waits_ok_def nth_list_update)
qed

lemma inv_put:
  assumes n: "net_inv cfg n" and i: "i < length (nw_links n)"
    and l: "lk_from l = lk_from (nw_links n ! i)" "lk_event l = lk_event (nw_links n ! i)"
      "lk_waiting l \<longrightarrow> lk_waiting (nw_links n ! i)"
    and ok: "link_ok cfg (nw_received n) l"
  shows "net_inv cfg (put_link i l n)"
  using n ok waits_put [OF _ i l] set_update_subset_insert [of "nw_links n" i l]
  by (auto simp: net_inv_def put_link_def)

lemma net_inv_kept:
  assumes n: "net_inv cfg n" and a: "\<not> own_relay a"
  shows "net_inv cfg (run_at cfg p a n)"
proof -
  have "waits_ok ((nw_managers n)(p := manager_step (cfg p) a (nw_managers n p))) (nw_links n)"
    using n pc_kept [OF _ _ a] by (auto simp: net_inv_def waits_ok_def)
  moreover have "ledger (got (nw_received n)) (manager_step (cfg p) a (nw_managers n p))"
    by (rule ledger_step) (use n a in \<open>auto simp: net_inv_def\<close>)
  ultimately show ?thesis using n a by (auto simp: net_inv_def run_at_def acked_step steady_step manager.inv_step)
qed

lemma inv_more:
  assumes "net_inv cfg n" and "set (nw_received n) \<subseteq> set R"
  shows "net_inv cfg (n\<lparr>nw_received := R\<rparr>)"
proof -
  have "ledger (got R) (nw_managers n p)" for p
    by (rule ledger_more [of "got (nw_received n)"]) (use assms got_more in \<open>auto simp: net_inv_def\<close>)
  then show ?thesis using assms link_ok_more got_more by (fastforce simp: net_inv_def)
qed

lemma inv_settle:
  assumes n: "net_inv cfg n" and p: "\<not> relaying p n"
    and ok: "\<And>e. ok \<Longrightarrow> m_pc (nw_managers n p) = AwaitRelay e \<Longrightarrow> got (nw_received n) e"
  shows "net_inv cfg (run_at cfg p (RelaySettled now ok r h) n)"
proof -
  let ?m = "manager_step (cfg p) (RelaySettled now ok r h) (nw_managers n p)"
  have "waits_ok ((nw_managers n)(p := ?m)) (nw_links n)"
    using n p by (auto simp: net_inv_def waits_ok_def relaying_def list_ex_iff)
  moreover have "\<forall>ev \<in> set (acked (m_trace ?m)). got (nw_received n) ev"
    using n ok by (auto simp: net_inv_def acked_settled split: flush_pc.splits)
  moreover have "manager_inv (cfg p) ?m" "steady ?m"
    using n manager.inv_step steady_step by (simp_all add: net_inv_def del: manager_step.simps)
  moreover have "ledger (got (nw_received n)) ?m"
    by (rule ledger_step) (use n ok in \<open>auto simp: net_inv_def\<close>)
  ultimately show ?thesis using n by (auto simp: net_inv_def run_at_def simp del: manager_step.simps)
qed

lemma inv_send:
  assumes n: "net_inv cfg n" and pc: "m_pc (nw_managers n p) = AwaitRelay ev" and p: "\<not> relaying p n"
  shows "net_inv cfg (sendToOwner cfg p q ev n)"
proof (cases "client_start (tc_authToken (s_config (cfg p))) (tc_maxPayloadBytes (s_config (cfg p))) ev")
  case (Inr payload)
  have "waits_ok (nw_managers n) (nw_links n @ [open_link p q ev payload])"
    using n pc p by (auto simp: net_inv_def waits_ok_def relaying_def list_ex_iff open_link_def nth_append less_Suc_eq dest: nth_mem)
  then show ?thesis using n link_open [where cfg = cfg and p = p, OF Inr] by (auto simp: net_inv_def sendToOwner_def Inr)
qed (use n in \<open>simp add: sendToOwner_def\<close>)

lemma handed_over_keeps:
  "link_ok cfg R l \<Longrightarrow> lk_handing l \<Longrightarrow> link_ok cfg R (l\<lparr>lk_handing := False, lk_reply := reply_text r\<rparr>)"
  by (auto simp: link_ok_def replying_def split: option.splits relay_result.splits if_splits)

lemma reply_keeps:
  assumes "link_ok cfg R l"
  shows "link_ok cfg R (l\<lparr> lk_reply := drop k (lk_reply l),
       lk_client := client_step parse (ClientData (take k (lk_reply l))) (lk_client l) \<rparr>)"
  using assms
  by (auto simp: link_ok_def replying_def split: option.splits relay_result.splits if_splits)

lemma break_keeps:
  "link_ok cfg R l \<Longrightarrow> link_ok cfg R (l\<lparr>lk_client := client_step parse (ClientError msg) (lk_client l)\<rparr>)"
  by (auto simp: link_ok_def finish_def split: option.splits relay_result.splits)

context json_reader
begin

lemma inv_server:
  assumes n: "net_inv cfg n" and i: "i < length (nw_links n)" and l: "l = nw_links n ! i"
    and step: "handleIncomingSocket (tc_maxPayloadBytes (s_config (cfg (lk_to l)))) (lk_server l) e = (cn, act)"
    and l1: "l1 = l\<lparr>lk_unsent := rest\<rparr>"
    and none: "act = NoAction \<Longrightarrow> link_ok cfg (nw_received n) (l1\<lparr>lk_server := cn\<rparr>)"
    and reply: "\<And>msg. act \<noteq> NoAction \<Longrightarrow> link_ok cfg (nw_received n) (l1\<lparr>lk_server := cn, lk_reply := reply_text (Inl msg)\<rparr>)"
    and hand: "\<And>buffer tok v q. act = Process buffer \<Longrightarrow> processIncomingEnvelope parse tok buffer = Inr v \<Longrightarrow>
      link_ok cfg (nw_received n @ [(q, obj_entries v)]) (l1\<lparr>lk_server := cn, lk_handing := True\<rparr>)"
  shows "net_inv cfg (server_sees parse cfg now e i l1 n)"
proof (cases act)
  case NoAction
  have "net_inv cfg (put_link i (l1\<lparr>lk_server := cn\<rparr>) n)"
    using inv_put [OF n i, of "l1\<lparr>lk_server := cn\<rparr>"] none [OF NoAction] l1 l by simp
  then show ?thesis using NoAction step by (simp add: server_sees_def Let_def l1)
next
  case TooLarge
  have "net_inv cfg (put_link i (l1\<lparr>lk_server := cn, lk_reply := reply_text (Inl ''payload too large'')\<rparr>) n)"
    using inv_put [OF n i] reply TooLarge l1 l by simp
  then show ?thesis using TooLarge step by (simp add: server_sees_def Let_def l1)
next
  case (Process buffer)
  let ?q = "lk_to l" and ?tok = "tc_authToken (s_config (cfg (lk_to l)))"
  show ?thesis
  proof (cases "processIncomingEnvelope parse ?tok buffer")
    case (Inl msg)
    have "net_inv cfg (put_link i (l1\<lparr>lk_server := cn, lk_reply := reply_text (Inl msg)\<rparr>) n)"
      using inv_put [OF n i] reply Process l1 l by simp
    then show ?thesis using Process Inl step by (simp add: server_sees_def Let_def l1)
  next
    case (Inr v)
    let ?R = "nw_received n @ [(?q, obj_entries v)]"
    have "net_inv cfg (n\<lparr>nw_received := ?R\<rparr>)" by (rule inv_more [OF n]) auto
    then have "net_inv cfg (put_link i (l1\<lparr>lk_server := cn, lk_handing := True\<rparr>) (n\<lparr>nw_received := ?R\<rparr>))"
      by (rule inv_put) (use i l l1 hand [OF Process Inr] in simp_all)
    then have "net_inv cfg (run_at cfg ?q (RelayIncoming now (obj_entries v))
        (put_link i (l1\<lparr>lk_server := cn, lk_handing := True\<rparr>) (n\<lparr>nw_received := ?R\<rparr>)))"
      by (rule net_inv_kept) simp
    moreover have "server_sees parse cfg now e i l1 n = run_at cfg ?q (RelayIncoming now (obj_entries v))
        (put_link i (l1\<lparr>lk_server := cn, lk_handing := True\<rparr>) (n\<lparr>nw_received := ?R\<rparr>))"
      using Process Inr step by (simp add: server_sees_def Let_def run_at_def put_link_def l1)
    ultimately show ?thesis by simp
  qed
qed

lemma inv_delivers:
  assumes n: "net_inv cfg n" and i: "i < length (nw_links n)" and l: "l = nw_links n ! i"
  shows "net_inv cfg (server_sees parse cfg now (SockData (take k (lk_unsent l))) i (l\<lparr>lk_unsent := drop k (lk_unsent l)\<rparr>) n)"
proof -
  have ok: "link_ok cfg (nw_received n) l" using n i l by (simp add: net_inv_def)
  obtain cn act where h: "handleIncomingSocket (tc_maxPayloadBytes (s_config (cfg (lk_to l)))) (lk_server l)
      (SockData (take k (lk_unsent l))) = (cn, act)" by fastforce
  note keeps = data_keeps [OF ok h refl, simplified]
  show ?thesis by (rule inv_server [OF n i l h refl]) (use keeps in simp_all)
qed

lemma inv_ends:
  assumes n: "net_inv cfg n" and i: "i < length (nw_links n)" and l: "l = nw_links n ! i"
    and gone: "cl_settled (lk_client l) \<noteq> None"
  shows "net_inv cfg (server_sees parse cfg now SockEnd i l n)"
proof -
  have ok: "link_ok cfg (nw_received n) l" using n i l by (simp add: net_inv_def)
  then have later: "link_ok cfg (nw_received n @ [x]) l" for x by (rule link_ok_more) auto
  obtain cn act where h: "handleIncomingSocket (tc_maxPayloadBytes (s_config (cfg (lk_to l)))) (lk_server l) SockEnd = (cn, act)"
    by fastforce
  have "l = l\<lparr>lk_unsent := lk_unsent l\<rparr>" by simp
  from inv_server [OF n i l h this] show ?thesis
    using link_settled [OF gone _ _ ok] link_settled [OF gone _ _ later] by simp
qed

lemma inv_settles:
  assumes n: "net_inv cfg n" and i: "i < length (nw_links n)" and l: "l = nw_links n ! i"
    and w: "lk_waiting l" and c: "cl_settled (lk_client l) = Some result"
  shows "net_inv cfg (run_at cfg (lk_from l) (RelaySettled now (result = Resolved) r h) (put_link i (l\<lparr>lk_waiting := False\<rparr>) n))"
proof (rule inv_settle)
  have ok: "link_ok cfg (nw_received n) l" using n i l by (simp add: net_inv_def)
  show "net_inv cfg (put_link i (l\<lparr>lk_waiting := False\<rparr>) n)"
    by (rule inv_put [OF n i]) (use l c link_settled [OF _ _ _ ok] in auto)
  show "\<not> relaying (lk_from l) (put_link i (l\<lparr>lk_waiting := False\<rparr>) n)"
  proof
    assume "relaying (lk_from l) (put_link i (l\<lparr>lk_waiting := False\<rparr>) n)"
    then obtain j where j: "j < length (nw_links n)" "lk_waiting ((nw_links n)[i := l\<lparr>lk_waiting := False\<rparr>] ! j)"
        "lk_from ((nw_links n)[i := l\<lparr>lk_waiting := False\<rparr>] ! j) = lk_from l"
      by (auto simp: relaying_def put_link_def list_ex_iff in_set_conv_nth)
    then have "j \<noteq> i" using i by auto
    with j n i l w show False by (simp add: net_inv_def waits_ok_def)
  qed
  show "got (nw_received (put_link i (l\<lparr>lk_waiting := False\<rparr>) n)) e"
    if "result = Resolved" "m_pc (nw_managers (put_link i (l\<lparr>lk_waiting := False\<rparr>) n) (lk_from l)) = AwaitRelay e" for e
    using that ok n i l w c by (auto simp: net_inv_def waits_ok_def link_ok_def put_link_def)
qed

lemma inv_net_step: "net_inv cfg n \<Longrightarrow> net_inv cfg (net_step parse cfg a n)"
proof -
  assume n: "net_inv cfg n"
  have ok: "link_ok cfg (nw_received n) (nw_links n ! i)" if "i < length (nw_links n)" for i
    using n that by (simp add: net_inv_def)
  show ?thesis
  proof (cases a)
    case (Runs p b)
    with n show ?thesis by (simp add: net_inv_kept)
  next
    case (Connects p q)
    with n show ?thesis by (auto simp: inv_send split: flush_pc.splits)
  next
    case (Unreachable p now r h)
    with n show ?thesis by (simp add: inv_settle)
  next
    case (Delivers i k now)
    with n show ?thesis by (simp add: at_link_def inv_delivers)
  next
    case (PeerEnds i now)
    with n show ?thesis by (simp add: at_link_def inv_ends)
  next
    case (HandedOver i r)
    with n show ?thesis by (auto simp: at_link_def intro!: inv_put handed_over_keeps ok)
  next
    case (Replies i k)
    with n show ?thesis
      by (auto simp: at_link_def simp del: client_step.simps intro!: inv_put reply_keeps ok)
  next
    case (Breaks i msg)
    with n show ?thesis
      by (auto simp: at_link_def simp del: client_step.simps intro!: inv_put break_keeps ok)
  next
    case (Closes i)
    with n show ?thesis
      by (auto simp: at_link_def simp del: client_step.simps intro!: inv_put close_keeps ok)
  next
    case (Settles i now r h)
    with n show ?thesis by (auto simp: at_link_def inv_settles split: option.splits)
  qed
qed

end

interpretation net_machine: machine "net_step json_parse cfg" "net_inv cfg" for cfg
  by unfold_locales (rule json.inv_net_step)

lemma setRole_pc [simp]: "m_pc (setRole r m) = m_pc m"
  by (simp add: setRole_def)

lemma become_acked: "acked (m_trace (snd (tryBecomeOwner s r h m))) = acked (m_trace m)"
  by (cases "r = Acquired") (simp add: tryBecomeOwner_won, simp add: tryBecomeOwner_def)

lemma become_pc: "m_pc (snd (tryBecomeOwner s r h m)) = m_pc m"
  by (cases "r = Acquired") (simp add: tryBecomeOwner_won, simp add: tryBecomeOwner_def)

lemma start_quiet: "acked (m_trace (start s r h m)) = acked (m_trace m)" "m_pc (start s r h m) = m_pc m"
proof -
  obtain b m1 where "tryBecomeOwner s r h (m\<lparr>m_stopped := False\<rparr>) = (b, m1)" by fastforce
  with become_acked [of s r h "m\<lparr>m_stopped := False\<rparr>"] become_pc [of s r h "m\<lparr>m_stopped := False\<rparr>"]
  show "acked (m_trace (start s r h m)) = acked (m_trace m)" "m_pc (start s r h m) = m_pc m"
    by (cases b; simp add: start_def Let_def)+
qed

lemma start_fresh: "acked (m_trace (start s r h new_manager)) = []" "steady (start s r h new_manager)"
  by (simp_all add: start_quiet steady_def) (simp_all add: new_manager_def)

lemma start_ledger: "ledger P (start s r h new_manager)"
proof -
  have "m_role new_manager = Follower" "new_manager\<lparr>m_stopped := False\<rparr> = new_manager"
    and "m_trace new_manager = []" "m_pendingEvents new_manager = []" "m_pc new_manager = FlushIdle"
    by (simp_all add: new_manager_def)
  then show ?thesis
    by (cases "r = Acquired")
       (simp_all add: start_def Let_def tryBecomeOwner_won tryBecomeOwner_lost setRole_def ledger_def paid_def)
qed

lemma net_start_inv: "net_inv cfg (net_start cfg locks)"
  by (simp add: net_inv_def net_start_def waits_ok_def start_fresh start_inv start_ledger)

lemma net_run_inv: "net_inv cfg (net_run json_parse cfg locks ops)"
  unfolding net_run_def by (rule net_machine.inv_run [OF net_start_inv])


text \<open>
  C6. Every event is accounted for, overflow included. In whatever way the processes interleave, what a process
  queued for the owner is, in order and each once, what left its queue followed by what is pending; an event
  leaves by being taken over by the process itself after a promotion, by being removed after an acknowledgement,
  or by being dropped when the queue is full; and removed events that no process's relay server handed to its
  \<open>onEvent\<close> are at most as many as the dropped ones, so while nothing is dropped nothing is lost.
\<close>

theorem network_accounts_for_events:
  "let n = net_run json_parse cfg locks ops; tr = m_trace (nw_managers n p) in
     queued tr = left_queue tr @ m_pendingEvents (nw_managers n p) \<and>
     length (filter (\<lambda>ev. \<forall>q. (q, obj_entries (received (JObj ev))) \<notin> set (nw_received n)) (shifted tr))
       \<le> length (dropped tr)"
proof -
  let ?n = "net_run json_parse cfg locks ops"
  have "ledger (got (nw_received ?n)) (nw_managers ?n p)" using net_run_inv by (simp add: net_inv_def)
  then show ?thesis by (simp add: Let_def ledger_def paid_def missed_def doors_of_moves got_def)
qed








end
