(* ===== verification/LockContest.thy ===== *)
theory LockContest imports Lock JsonParse begin

text \<open>
  The runtimes of one host around the lock file, one system call at a time: any number of them acquire the lock
  (\<open>src/transport/ownership.ts\<close>), and whoever has it refreshes it by heartbeats and releases it at the end.
\<close>

section \<open>Runtimes\<close>

text \<open>
  \<open>cd_payload\<close> is what the call under way writes; \<open>cd_beat\<close> is the inode that a heartbeat has truncated and not
  yet written.
\<close>

record contender =
  cd_pc :: "acquire_pc option"
  cd_payload :: LockFilePayload
  cd_beat :: "nat option"

record lock_host =
  lh_fs :: fs
  lh_runtimes :: "nat \<Rightarrow> contender"

text \<open>\<open>writeFileSync(path, text)\<close> as its two calls: opening truncates the file or creates it, then the text is written.\<close>

definition open_truncated :: "lock_env \<Rightarrow> fs \<Rightarrow> nat \<times> fs" where
  "open_truncated e fs =
     (case fst fs of
        Some f \<Rightarrow> (lf_inode f, Some (f\<lparr>lf_content := [], lf_mtimeMs := le_now e\<rparr>), snd fs)
      | None \<Rightarrow> (snd fs, Some \<lparr> lf_inode = snd fs, lf_content = [], lf_mtimeMs = le_now e \<rparr>, Suc (snd fs)))"

lemma overwrite_two_calls:
  "overwriteLock e p fs = (case open_truncated e fs of (i, fs1) \<Rightarrow> write_fd e i (payload_text p) fs1)"
  by (simp add: overwriteLock_def open_truncated_def write_fd_def split: option.splits)




definition put_runtime :: "nat \<Rightarrow> contender \<Rightarrow> fs \<Rightarrow> lock_host \<Rightarrow> lock_host" where
  "put_runtime p r fs st = st\<lparr>lh_fs := fs, lh_runtimes := (lh_runtimes st)(p := r)\<rparr>"






section \<open>What the runtimes rely on\<close>




section \<open>Lemmas: reading the file\<close>





section \<open>Lemmas: one owner\<close>









lemma put_fields [simp]:
  "lh_fs (put_runtime p r fs st) = fs" "lh_runtimes (put_runtime p r fs st) = (lh_runtimes st)(p := r)"
  by (simp_all add: put_runtime_def)









section \<open>Properties\<close>














end
