(* ===== verification/SignedEvents.thy ===== *)
theory SignedEvents imports PluginRuntime JsonParse begin

text \<open>
  Signed events at their recipients (\<open>src/events/signing.ts\<close>, \<open>docs/security.md\<close>): what \<open>transportEvent\<close> hands to the
  webhooks, the queue and the log file is printed as JSON, and the reader of that text checks the signature.
\<close>

section \<open>The recipient\<close>

text \<open>
  The check of a recipient that shares the secret: the HMAC of the event without its signature, with the timestamp and
  the nonce the signature carries, is the value the signature carries.
\<close>

definition signature_valid :: "platform \<Rightarrow> string \<Rightarrow> jsobj \<Rightarrow> bool" where
  "signature_valid pl secret ev =
     (let sig = oget ev ''signature'' in
      case (jprop sig ''algorithm'', jprop sig ''timestamp'', jprop sig ''nonce'', jprop sig ''value'') of
        (JStr algorithm, JNum timestamp, JStr nonce, JStr value) \<Rightarrow>
          value = pl_hmac pl algorithm secret (toSignablePayload ev timestamp nonce)
      | _ \<Rightarrow> False)"

section \<open>Lemmas: printing what was received\<close>

text \<open>Objects of JavaScript have distinct keys.\<close>

fun keys_distinct :: "jsval \<Rightarrow> bool"
  and items_distinct :: "jsval list \<Rightarrow> bool"
  and fields_distinct :: "jsobj \<Rightarrow> bool"
where
  "keys_distinct (JArr xs) = items_distinct xs"
| "keys_distinct (JObj kvs) = (distinct (map fst kvs) \<and> fields_distinct kvs)"
| "keys_distinct v = True"
| "items_distinct [] = True"
| "items_distinct (x # xs) = (keys_distinct x \<and> items_distinct xs)"
| "fields_distinct [] = True"
| "fields_distinct ((k, v) # kvs) = (keys_distinct v \<and> fields_distinct kvs)"

lemma received_keys: "set (map fst (received_fields kvs)) \<subseteq> set (map fst kvs)"
proof (induction kvs)
  case (Cons x kvs)
  then show ?case by (cases x; cases "snd x = JUndef"; simp; blast)
qed simp

lemma received_distinct: "distinct (map fst kvs) \<Longrightarrow> distinct (map fst (received_fields kvs))"
proof (induction kvs)
  case (Cons x kvs)
  then show ?case using received_keys [of kvs] by (cases x) (auto simp: subset_iff)
qed simp

lemma received_defined: "received v \<noteq> JUndef"
  by (cases v) (simp_all add: object_of_def)

lemma print_received:
  "keys_distinct v \<Longrightarrow> v \<noteq> JUndef \<Longrightarrow> json_stringify (received v) = json_stringify v"
  "items_distinct xs \<Longrightarrow> json_items (received_items xs) = json_items xs"
  "fields_distinct kvs \<Longrightarrow> json_fields (received_fields kvs) = json_fields kvs"
proof (induction v and xs and kvs rule: received_received_items_received_fields.induct)
  case (3 kvs)
  then show ?case by (simp add: object_distinct received_distinct)
next
  case (6 x xs)
  then show ?case by (cases "x = JUndef") auto
next
  case (8 k v kvs)
  then show ?case by (cases "v = JUndef") (auto simp: received_defined split: option.splits)
qed auto

lemma print_parts:
  assumes "fields_distinct kvs"
  shows "json_fields (received_fields (filter (\<lambda>(k, v). k \<noteq> j) kvs)) = json_fields (filter (\<lambda>(k, v). k \<noteq> j) kvs)"
proof -
  have "fields_distinct (filter (\<lambda>(k, v). k \<noteq> j) kvs)" using assms by (induction kvs) auto
  then show ?thesis by (rule print_received(3))
qed

lemma received_filter:
  "received_fields (filter (\<lambda>(k, v). k \<noteq> j) kvs) = filter (\<lambda>(k, v). k \<noteq> j) (received_fields kvs)"
  by (induction kvs) (auto split: if_splits)

lemma json_without:
  "distinct (map fst kvs) \<Longrightarrow> json_fields (mput k JUndef kvs) = json_fields (filter (\<lambda>(j, v). j \<noteq> k) kvs)"
proof (induction kvs)
  case (Cons x kvs)
  obtain j v where x: "x = (j, v)" by (cases x)
  show ?case
  proof (cases "j = k")
    case True
    with Cons.prems x have "filter (\<lambda>(j, v). j \<noteq> k) kvs = kvs" by (force simp: filter_id_conv)
    with True x show ?thesis by simp
  next
    case False
    with Cons x show ?thesis by (simp split: option.splits)
  qed
qed simp

text \<open>The text that is signed does not change on the way.\<close>

lemma signable_received:
  assumes "keys_distinct (JObj kvs)"
  shows "toSignablePayload (received_fields kvs) ts nonce = toSignablePayload kvs ts nonce"
proof -
  have d: "distinct (map fst kvs)" "fields_distinct kvs" using assms by simp_all
  have "json_fields (mput ''signature'' JUndef (received_fields kvs)) = json_fields (mput ''signature'' JUndef kvs)"
    using json_without [OF received_distinct [OF d(1)]] json_without [OF d(1)] print_parts [OF d(2)]
    by (simp add: received_filter [symmetric])
  then show ?thesis by (simp add: toSignablePayload_def)
qed

lemma received_get: "distinct (map fst kvs) \<Longrightarrow> mget kvs k = Some v \<Longrightarrow> v \<noteq> JUndef \<Longrightarrow> oget (received_fields kvs) k = received v"
proof (induction kvs)
  case (Cons x kvs)
  then show ?case by (cases x) (auto split: if_splits)
qed simp

lemma signature_at:
  assumes "hm_enabled c" "truthy_str (hm_secret c)"
  shows "mget (signEvent pl ts nonce ev c) ''signature'' = Some (JObj
      [(''version'', JStr ''v1''), (''algorithm'', JStr (hm_algorithm c)), (''timestamp'', JNum ts), (''nonce'', JStr nonce),
       (''value'', JStr (pl_hmac pl (hm_algorithm c) (default_to [] (hm_secret c)) (toSignablePayload ev ts nonce)))])"
    "toSignablePayload (signEvent pl ts nonce ev c) ts nonce = toSignablePayload ev ts nonce"
  using assms by (simp_all add: signEvent_def Let_def signable_ignores_signature)

section \<open>Properties\<close>

text \<open>
  C36. With HMAC signing on and a secret, what \<open>transportEvent\<close> hands to the log file, the queue or the webhooks is,
  when it is printed as JSON and parsed again, an event with a signature of version v1 that names the algorithm and
  holds the second and the nonce of the signing, and that is valid for a recipient with the same secret: the HMAC of
  the received event without its signature, with the received timestamp and nonce, is the received value.
\<close>

theorem signature_verifies:
  assumes "hm = sec_hmac (pc_security (pn_config H))" "hm_enabled hm" "hm_secret hm = Some secret" "secret \<noteq> []"
    and "transportEvent H T ev = Some effects" "f \<in> set effects" "f \<in> {ToFile out, ToQueue out, ToWebhooks out}"
    and "keys_distinct (JObj out)" "json_stringify (JObj out) = Some text"
  shows "\<exists>got. json_parse text = Inr (JObj got) \<and>
    (let sig = oget got ''signature'' in
       jprop sig ''version'' = JStr ''v1'' \<and> jprop sig ''algorithm'' = JStr (hm_algorithm hm) \<and>
       jprop sig ''timestamp'' = JNum (te_seconds T) \<and> jprop sig ''nonce'' = JStr (te_nonce T)) \<and>
    signature_valid (te_platform T) secret got"
proof -
  have on: "truthy_str (hm_secret hm)" using assms(3,4) by simp
  have sink: "f \<in> {ToFile out, ToWebSocket out, ToQueue out, ToWebhooks out}" using assms(7) by blast
  obtain red where out: "out = signEvent (te_platform T) (te_seconds T) (te_nonce T) (obj_entries red) hm"
    using transport_copies [OF assms(5,6) sink] assms(1) by blast
  have d: "distinct (map fst out)" using assms(8) by simp
  have "json_parse text = Inr (JObj (received_fields out))"
    using json_roundtrip [OF assms(9)] by (simp add: object_distinct received_distinct d)
  moreover have sig: "oget (received_fields out) ''signature'' = JObj
      [(''version'', JStr ''v1''), (''algorithm'', JStr (hm_algorithm hm)), (''timestamp'', JNum (te_seconds T)),
       (''nonce'', JStr (te_nonce T)),
       (''value'', JStr (pl_hmac (te_platform T) (hm_algorithm hm) secret
          (toSignablePayload (obj_entries red) (te_seconds T) (te_nonce T))))]"
    using received_get [OF d] signature_at(1) [OF assms(2) on] assms(3) by (simp add: out object_of_def)
  moreover have "signature_valid (te_platform T) secret (received_fields out)"
    using signable_received [OF assms(8)] signature_at(2) [OF assms(2) on]
    by (simp add: signature_valid_def sig) (simp add: out)
  ultimately show ?thesis by (auto simp: Let_def)
qed

section \<open>A concrete delivery\<close>

definition signing_env :: plugin_env where
  "signing_env = sample_env\<lparr> pn_config := signed_config \<rparr>"

definition signing_transport :: transport_env where
  "signing_transport = (sample_transport sample_platform)\<lparr> te_seconds := 7, te_nonce := ''n'', te_fileLogger := True \<rparr>"

definition signed_output :: event where
  "signed_output = [(''type'', JStr ''x''), (''Token'', JStr ''s''), (''signature'', JObj
     [(''version'', JStr ''v1''), (''algorithm'', JStr ''sha256''), (''timestamp'', JNum 7), (''nonce'', JStr ''n''),
      (''value'', JStr ''sha256k'')])]"

lemma signing_run:
  "transportEvent signing_env signing_transport [(''type'', JStr ''x''), (''Token'', JStr ''s'')] =
     Some [ToBridge [(''type'', JStr ''x''), (''Token'', JStr ''s'')], ToFile signed_output, ToWebSocket signed_output]"
  by code_simp

theorem signature_verifies_witness:
  "\<exists>got. json_parse (the (json_stringify (JObj signed_output))) = Inr (JObj got) \<and>
     signature_valid sample_platform ''k'' got"
proof -
  let ?hm = "sec_hmac (pc_security (pn_config signing_env))"
  have s: "hm_enabled ?hm" "hm_secret ?hm = Some ''k''" "keys_distinct (JObj signed_output)"
    "te_platform signing_transport = sample_platform"
    by (simp_all add: signing_env_def signed_config_def signed_output_def signing_transport_def sample_transport_def)
  have "json_stringify (JObj signed_output) = Some (the (json_stringify (JObj signed_output)))" by simp
  from signature_verifies [OF refl s(1,2) _ signing_run _ _ s(3) this, of "ToFile signed_output"]
  show ?thesis unfolding s(4) by auto
qed

text \<open>
  The WebSocket clients get the event with a property that was not signed: \<open>broadcast\<close> adds \<open>broadcastAt\<close>, and the
  text that their check hashes is another one than the one that was signed.
\<close>

lemma broadcast_is_not_what_was_signed:
  assumes "keys_distinct (JObj ev)" "''broadcastAt'' \<notin> set (map fst ev)"
  shows "toSignablePayload (received_fields (mput ''broadcastAt'' (JStr now) ev)) ts nonce \<noteq> toSignablePayload ev ts nonce"
proof
  let ?b = "mput ''broadcastAt'' (JStr now) ev"
  let ?whole = "\<lambda>kvs. JObj [(''timestamp'', JNum ts), (''nonce'', JStr nonce), (''payload'', JObj (mput ''signature'' JUndef kvs))]"
  assume same: "toSignablePayload (received_fields ?b) ts nonce = toSignablePayload ev ts nonce"
  have put: "fields_distinct kvs \<Longrightarrow> keys_distinct v \<Longrightarrow> fields_distinct (mput k v kvs)" for k v kvs
    by (induction kvs) auto
  have b: "keys_distinct (JObj ?b)" using assms(1) by (simp add: distinct_update put)
  have e: "json_stringify (?whole ?b) = json_stringify (?whole ev)"
    using same signable_received [OF b] by (simp add: toSignablePayload_def)
  obtain t where t: "json_stringify (?whole ev) = Some t" by (meson json_stringify.simps(7))
  have "received (?whole ?b) = received (?whole ev)"
    by (rule sum.inject(2) [THEN iffD1, OF trans [OF json_roundtrip [OF trans [OF e t], symmetric] json_roundtrip [OF t]]])
  then have "object_of (received_fields (mput ''signature'' JUndef ?b)) = object_of (received_fields (mput ''signature'' JUndef ev))"
    by (simp add: object_of_def)
  moreover have "distinct (map fst (mput ''signature'' JUndef ?b))" "distinct (map fst (mput ''signature'' JUndef ev))"
    using assms(1) by (simp_all add: distinct_update)
  ultimately have f: "received_fields (mput ''signature'' JUndef ?b) = received_fields (mput ''signature'' JUndef ev)"
    by (simp add: object_distinct received_distinct)
  have "map_ok (mput ''signature'' JUndef ?b)" using assms(1) by simp
  from received_get [OF this, of "''broadcastAt''" "JStr now"]
  have "oget (received_fields (mput ''signature'' JUndef ?b)) ''broadcastAt'' = JStr now" by simp
  moreover have "''broadcastAt'' \<notin> set (map fst (received_fields (mput ''signature'' JUndef ev)))"
    using received_keys [of "mput ''signature'' JUndef ev"] assms(2) by (auto simp: dom_update)
  then have "mget (received_fields (mput ''signature'' JUndef ev)) ''broadcastAt'' = None" by (simp add: map_of_eq_None_iff)
  ultimately show False using f by (simp add: oget_def)
qed

end
