(* ===== verification/Spec2Isabelle.thy ===== *)
theory Spec2Isabelle imports RuntimeConfig Relay Manager DispatchEngine EventQueue SessionTracker StatusReducer RunTrackers Redaction WebSocketHub Provenance LifecycleEvents EventLog ConfigSchema PluginRuns HookRegistration ReplayTool RuntimeLogging RelayNetwork LockContest SignedEvents begin

text \<open>
  The OpenClaw event server plugin (TypeScript, \<open>src/src\<close>): a verification of its core.

  \<^bold>\<open>The program.\<close> The plugin is loaded into every OpenClaw process.  Hooks of the host
  (\<open>src/runtime/register-*-hooks.ts\<close>, \<open>internal-handlers.ts\<close>) turn what happens in the host into
  canonical events (\<open>src/hooks\<close>), keep trackers of sessions, subagents, runs, tool calls and agent
  status up to date, and hand every event to the transport manager (\<open>src/transport\<close>).  The managers of
  the processes of one machine elect an owner with a lock file; followers relay their events to the
  owner over a socket, and the owner removes duplicates and delivers (\<open>src/runtime/runtime-events.ts\<close>):
  to the hook bridge, redacted and signed to the log file, the WebSocket clients and the webhook queue
  (\<open>src/broadcast\<close>).  The hook bridge (\<open>src/runtime/hook-bridge*.ts\<close>) runs rules and actions on events
  and guards tool calls.  The configuration is the defaults, the plugin's entry of the host's
  configuration and the environment merged (\<open>src/config\<close>).

  \<^bold>\<open>The theories\<close>, in the order of their imports.
    \<^item> Prelude, JsString, JsValue: insertion-ordered maps, the locales of stores (\<open>keyed_store\<close>,
      \<open>ttl_store\<close>), of bounded queues (\<open>bounded_fifo\<close>) and of operations that keep an invariant
      (\<open>machine\<close>); the string functions of the language; values as trees (\<open>jsval\<close>) and objects as
      association lists with JSON printing.
    \<^item> Config, Validate, RuntimeConfig, ConfigMerge, ConfigSchema: the configuration records and
      defaults, \<open>validateConfig\<close>, the resolution of paths and secrets with event signing, the environment
      with \<open>mergeConfig\<close>, and the schema given to the host.
    \<^item> Protocol, Relay, Dedupe, Lock, Manager: the relay envelope, the two ends of a relay connection,
      duplicate detection, the lock file and the transport manager with its roles.
    \<^item> JsonParse, LockContest, RelayNetwork: an instance of \<open>JSON.parse\<close> that reads back what
      \<open>JSON.stringify\<close> prints and rejects what was cut off; any number of runtimes that acquire, refresh and
      release the lock file one system call at a time; any number of managers whose relay connections carry
      bytes, replies, errors and time-outs in any order.
    \<^item> RuleMatch, BridgeActions, ToolGuard, DispatchEngine: the hook bridge.
    \<^item> Webhook, EventQueue, WebSocketHub: delivery to webhooks with retries, the persistent queue and
      the WebSocket server.
    \<^item> SessionKeys, SessionTracker, StatusReducer, RunTrackers, Provenance: the trackers and the
      attribution of an event to a session.
    \<^item> EventBuilders, LifecycleEvents, Redaction, EventLog: the canonical events, the privacy modes,
      redaction and the event log file.
    \<^item> PluginRuntime, ToolHooks, RuntimeHooks, HookMachine: the plugin's state, the hook handlers as
      resumptions that give up control at every await, and the machine on which all of them interleave.
    \<^item> SignedEvents: what a recipient of a printed event makes of its signature.
    \<^item> HookRegistration: the table of the hooks, the wrappers that register them and the promise that the
      host gets (\<open>src/runtime/typed-hooks.ts\<close>, \<open>src/runtime/utils.ts\<close>).
    \<^item> ReplayTool: a whole evaluation of the tool guard with the actions it awaits, and the command
      \<open>src/tools/replay-tool-guard.ts\<close> that replays tool calls.
    \<^item> RuntimeLogging: the logger of the process, the plugin's logger on it and the context of transport
      messages (\<open>src/logging/runtime-logger.ts\<close>, \<open>src/transport/log-context.ts\<close>).
    \<^item> PluginLifecycle, PluginRuns: \<open>src/index.ts\<close>, that is activation, deactivation and changes of role,
      composed with the machines of Manager and WebSocketHub.

  \<^bold>\<open>How state and operations correspond.\<close> A class becomes a record of its fields and one function per
  method, with the source's name where it is free; a Map is an association list in insertion order; an
  absent value is \<open>None\<close>, or \<open>JUndef\<close> inside a value.  What an asynchronous operation awaits is an
  input: the transport manager, the queue, the relay client, the hook bridge and the WebSocket server
  are machines whose operations are the calls and the settlements (a request answered, a timer fired, a
  socket closed), in any order.  Effects that leave the model (a datagram, a file, a timer) are logged
  in the state.  Throws and early returns are \<open>None\<close>, \<open>Inl\<close>, or the outcome \<open>Threw\<close> of a handler.

  \<^bold>\<open>What the lemmas show.\<close> Transport: at most one role, the follower's queue is drained in order and
  never stuck, an event is handed over at most once within the window of duplicates, whether it is
  dispatched, relayed or flushed first.  Lock: of the runtimes that contend for a missing lock at most one
  gets it, and a live owner keeps it while others acquire and release and it beats, provided that a
  runtime which judges the age of the file does so within \<open>lockStaleMs\<close> of its last write (without that,
  \<open>reclaim_race\<close> lets two runtimes acquire).  A relay connection acts on at most one envelope, only
  with the right token, and within its size limit; between processes, an acknowledged event was received,
  and events that left a queue unreceived are no more than those that its overflow dropped.
  Hook bridge: the backoff after a block holds against everything but an evaluation of the same scope that was
  suspended before the block; failing, missing and unknown actions fail closed; the applicable rule of
  the highest priority is asked first; scripts stay inside the allowed paths; the engine is work
  conserving, starts every task once and in order, and lets a stop go only when it is idle.  Delivery: the
  retry policy refines its specification, and so does a flush of the queue that nothing else interrupts; the
  queue keeps its invariant; only authorized clients
  receive broadcasts, a stopped server is silent.  Trackers: identifiers are unambiguous, ended sessions
  are forgotten, routes expire, status and idleness are reported once per change.  Events: every builder
  makes a valid event, the metadata mode reveals lengths and roles only, redaction hides the configured
  fields, and what the log file, the WebSocket clients, the queue and the webhooks get is redacted (the hook
  bridge and the relay of a follower are not covered); the printed event of the log file, the queue and the
  webhooks verifies against its signature, that of a WebSocket client does not.  Runtime: the result of
  \<open>before_tool_call\<close> under every
  interleaving, the correlation of a call with its end, and the invariants of the trackers and the
  uniqueness of event ids on every run of the machine.  Lifecycle: an active plugin holds queue, log
  file, relay server and WebSocket server according to the role of its manager, an automatic process
  that is not the gateway never becomes the owner, a deactivated plugin holds none of them and reaches no
  WebSocket client, although its hooks stay bound and still post to the webhooks, and across all its
  lives the plugin serves only clients that its configuration allows.  Host: every hook is registered
  once, and no registered hook rejects or hangs; an evaluation of the tool guard asks at most one action
  per rule, and a replay is a run of the guard over the calls of its input.  Configuration: the settings
  with a fixed path of a validated configuration meet the schema's minima and choices and, outside the
  transport section and the script defaults, its maxima; the schema's defaults are those of the code.

  \<^bold>\<open>Bounds and fuel.\<close> Redaction recurses over a heap in which objects may be shared and cyclic; it takes
  fuel and is proved to return, for some fuel and all above it, on payloads without sharing.  The
  flush of the queue works in batches of ten, as the source does; all other loops are structural or have
  a termination proof, and the retry loop of a webhook is bounded by its attempts.  The parser of JSON takes
  the length of the text as the bound of its calls, and the round trip shows that this is enough.

  \<^bold>\<open>Parameters\<close> stand for what is not under src/ or not computable: the clock, the supply of uuids,
  \<open>localeCompare\<close>, \<open>toISOString\<close>, SHA-256 and HMAC, JSON.parse outside LockContest, RelayNetwork and SignedEvents, the
  file system and process table of the lock, the environment, regular expressions and URL parsing, the
  HTTP client's answers.  What a theorem needs of them is a named hypothesis of it.

  \<^bold>\<open>Limits of the model.\<close> Characters have eight bits; numbers are integers, or exact rationals where the
  source divides; an object has its own properties only, in insertion order.  Handlers share state but
  not objects: a value read before an await is the value then.  Text that only goes to the logger is
  left out.

  \<^bold>\<open>Not modelled:\<close> the tick of the status timer as a step of the machine of the hooks (its effect is
  \<open>emitAgentStatusTransitions\<close>); a \<open>close\<close> of the WebSocket server that throws, and the microtask after which
  \<open>stopBroadcastServer\<close> forgets a server that has nothing to close; redaction of cyclic or shared parameters
  in the tool guard; an exception of \<open>prepareTransportSocketPath\<close>; the host's validation against the schema; the calls of the loggers inside the other
  components and the trace output of the tool guard; the system calls that create and remove the socket
  file and the log directory; re-exports.  The configuration object that \<open>mergeConfig\<close> returns and the
  record \<open>PluginConfig\<close> are related by the type of the program only: the lifecycle takes the record.
\<close>

end
